(* ===== verification/PyFloat.thy ===== *)
theory PyFloat
  imports Complex_Main "HOL-Library.Log_Nat"
begin

text \<open>
  Python's \<open>float\<close>: IEEE double arithmetic over the rationals.  A double is represented by the
  rational it denotes, and every arithmetic operation of the code is the exact operation followed
  by \<open>fl\<close>, rounding to 53 significant bits, ties to even.  The exponent is unbounded: overflow to
  infinity, subnormals, signed zero and NaN are outside the model.  Where the code writes
  \<open>float("inf")\<close> the model says so with an explicit constructor.
\<close>

type_synonym pyfloat = rat

text \<open>Python's \<open>round\<close> with no digits argument: to the nearest integer, ties to even.\<close>

definition round_half_even :: "rat \<Rightarrow> int" where
  "round_half_even m =
     (let f = \<lfloor>m\<rfloor>; r = m - of_int f
      in if r < 1/2 then f
         else if 1/2 < r then f + 1
         else if even f then f else f + 1)"

definition ilog2 :: "rat \<Rightarrow> int" where
  "ilog2 x =
     (let (n, d) = quotient_of x; e = bitlen n - bitlen d
      in if 2 powi e \<le> x then e else e - 1)"

definition fl_pos :: "rat \<Rightarrow> rat" where
  "fl_pos x = (let u = 2 powi (ilog2 x - 52) in of_int (round_half_even (x / u)) * u)"

definition fl :: "rat \<Rightarrow> rat" where
  "fl x = (if x = 0 then 0 else if x < 0 then - fl_pos (- x) else fl_pos x)"

definition fadd :: "pyfloat \<Rightarrow> pyfloat \<Rightarrow> pyfloat" where "fadd a b = fl (a + b)"
definition fsub :: "pyfloat \<Rightarrow> pyfloat \<Rightarrow> pyfloat" where "fsub a b = fl (a - b)"
definition fmul :: "pyfloat \<Rightarrow> pyfloat \<Rightarrow> pyfloat" where "fmul a b = fl (a * b)"
definition fdiv :: "pyfloat \<Rightarrow> pyfloat \<Rightarrow> pyfloat" where "fdiv a b = fl (a / b)"

text \<open>\<open>float(n)\<close>, and the true division of two Python integers, which is correctly rounded.\<close>

definition float_of_int :: "int \<Rightarrow> pyfloat" where "float_of_int n = fl (of_int n)"
definition int_div :: "int \<Rightarrow> int \<Rightarrow> pyfloat" where "int_div a b = fl (of_int a / of_int b)"

text \<open>\<open>int(x)\<close> truncates towards zero.\<close>

definition py_trunc :: "pyfloat \<Rightarrow> int" where
  "py_trunc x = (if 0 \<le> x then \<lfloor>x\<rfloor> else \<lceil>x\<rceil>)"

subsection \<open>Powers of two\<close>

lemma powi2_mono: "a \<le> b \<Longrightarrow> (2::rat) powi a \<le> 2 powi b"
  by (rule power_int_increasing) auto

lemma powi2_less_imp: "(2::rat) powi a < 2 powi b \<Longrightarrow> a < b"
  using powi2_mono [of b a] by (meson leD leI)

lemma powi2_pos [simp]: "(0::rat) < 2 powi a"
  by simp

lemma powi2_nonneg_exp: "0 \<le> e \<Longrightarrow> (2::rat) powi e = of_int (2 ^ nat e)"
  by (simp add: power_int_nonneg_exp)

lemma powi2_Suc: "(2::rat) powi (a + 1) = 2 * 2 powi a"
  by (simp add: power_int_add)

lemma bitlen_powi_bounds:
  assumes "0 < (n::int)"
  shows "2 powi (bitlen n - 1) \<le> (of_int n :: rat)" "(of_int n :: rat) < 2 powi bitlen n"
proof -
  have b: "0 < bitlen n"
    using assms bitlen_nonneg [of n] by (simp add: bitlen_eq_zero_iff order_less_le)
  note bb = bitlen_bounds [OF assms]
  have "of_int (2 ^ nat (bitlen n - 1)) \<le> (of_int n :: rat)" using bb by (simp only: of_int_le_iff)
  then show "2 powi (bitlen n - 1) \<le> (of_int n :: rat)"
    using b by (simp add: power_int_nonneg_exp)
  have "of_int n < (of_int (2 ^ nat (bitlen n)) :: rat)" using bb by (simp only: of_int_less_iff)
  then show "(of_int n :: rat) < 2 powi bitlen n"
    using b by (simp add: power_int_nonneg_exp)
qed

subsection \<open>The exponent\<close>

lemma ilog2_bounds:
  assumes "0 < x" shows "2 powi ilog2 x \<le> x" "x < 2 powi (ilog2 x + 1)"
proof -
  obtain n d where q: "quotient_of x = (n, d)" by fastforce
  have d: "0 < d" using q by (rule quotient_of_denom_pos)
  have x: "x = of_int n / of_int d" using q by (rule quotient_of_div)
  have n: "0 < n" using assms x d by (simp add: zero_less_divide_iff)
  let ?a = "bitlen n" and ?b = "bitlen d"
  note N = bitlen_powi_bounds [OF n] and D = bitlen_powi_bounds [OF d]
  have dpos: "(0::rat) < of_int d" using d by simp
  have "x \<le> of_int n / 2 powi (?b - 1)"
    unfolding x using D(1) n dpos by (intro divide_left_mono mult_pos_pos) auto
  also have "\<dots> < 2 powi ?a / 2 powi (?b - 1)"
    using N(2) by (intro divide_strict_right_mono) auto
  also have "\<dots> = 2 powi (?a - ?b + 1)"
    by (simp add: power_int_diff power_int_add)
  finally have up: "x < 2 powi (?a - ?b + 1)" .
  have "(2::rat) powi (?a - ?b - 1) = 2 powi (?a - 1) / 2 powi ?b"
    by (simp add: power_int_diff)
  also have "\<dots> \<le> of_int n / 2 powi ?b"
    using N(1) by (intro divide_right_mono) auto
  also have "\<dots> \<le> x"
    unfolding x using D(2) dpos n by (intro divide_left_mono mult_pos_pos) auto
  finally have lo: "2 powi (?a - ?b - 1) \<le> x" .
  show "2 powi ilog2 x \<le> x" using lo by (auto simp: ilog2_def q Let_def)
  show "x < 2 powi (ilog2 x + 1)" using up by (auto simp: ilog2_def q Let_def)
qed

lemma ilog2_eqI:
  assumes "0 < x" "2 powi e \<le> x" "x < 2 powi (e + 1)" shows "ilog2 x = e"
proof -
  note b = ilog2_bounds [OF assms(1)]
  have "2 powi e < (2::rat) powi (ilog2 x + 1)" "2 powi ilog2 x < (2::rat) powi (e + 1)"
    using b assms by linarith+
  then show ?thesis by (auto dest!: powi2_less_imp)
qed

lemma ilog2_mono: "0 < x \<Longrightarrow> x \<le> y \<Longrightarrow> ilog2 x \<le> ilog2 y"
proof -
  assume "0 < x" "x \<le> y"
  then have "2 powi ilog2 x < (2::rat) powi (ilog2 y + 1)"
    using ilog2_bounds(1) [of x] ilog2_bounds(2) [of y] by linarith
  then show ?thesis by (auto dest!: powi2_less_imp)
qed

subsection \<open>Rounding to an integer\<close>

lemma round_half_even_of_int [simp]: "round_half_even (of_int n) = n"
  by (simp add: round_half_even_def)

lemma round_half_even_bounds: "\<lfloor>m\<rfloor> \<le> round_half_even m" "round_half_even m \<le> \<lceil>m\<rceil>"
proof -
  show "\<lfloor>m\<rfloor> \<le> round_half_even m" by (simp add: round_half_even_def Let_def)
  have "m - of_int \<lfloor>m\<rfloor> \<noteq> 0 \<Longrightarrow> \<lfloor>m\<rfloor> + 1 \<le> \<lceil>m\<rceil>"
    by (metis add.commute ceiling_altdef diff_eq_eq add.left_neutral order_refl)
  then show "round_half_even m \<le> \<lceil>m\<rceil>"
    using floor_le_ceiling [of m] by (auto simp: round_half_even_def Let_def)
qed

lemma round_half_even_mono:
  assumes "x \<le> y" shows "round_half_even x \<le> round_half_even y"
proof (cases "\<lfloor>x\<rfloor> = \<lfloor>y\<rfloor>")
  case True
  then show ?thesis using assms by (auto simp: round_half_even_def Let_def)
next
  case False
  then have "\<lfloor>x\<rfloor> < \<lfloor>y\<rfloor>" using assms by (simp add: floor_mono order_less_le)
  moreover have "round_half_even x \<le> \<lfloor>x\<rfloor> + 1"
    by (simp add: round_half_even_def Let_def)
  ultimately show ?thesis using round_half_even_bounds(1) [of y] by linarith
qed

lemma round_half_even_error: "\<bar>of_int (round_half_even m) - m\<bar> \<le> 1/2"
proof -
  have "of_int \<lfloor>m\<rfloor> \<le> m" "m < of_int \<lfloor>m\<rfloor> + 1" by linarith+
  then show ?thesis by (auto simp: round_half_even_def Let_def)
qed


subsection \<open>Rounding to a double\<close>

lemma fl_pos_scaled:
  assumes "0 < x"
  shows "of_int (2 ^ 52) \<le> x / 2 powi (ilog2 x - 52)"
    and "x / 2 powi (ilog2 x - 52) < of_int (2 ^ 53)"
proof -
  note b = ilog2_bounds [OF assms]
  have "(2::rat) powi ilog2 x = of_int (2 ^ 52) * 2 powi (ilog2 x - 52)"
    by (simp add: power_int_diff)
  then show "of_int (2 ^ 52) \<le> x / 2 powi (ilog2 x - 52)"
    using b(1) by (simp add: pos_le_divide_eq)
  have "(2::rat) powi (ilog2 x + 1) = of_int (2 ^ 53) * 2 powi (ilog2 x - 52)"
    by (simp add: power_int_diff power_int_add)
  then show "x / 2 powi (ilog2 x - 52) < of_int (2 ^ 53)"
    using b(2) by (simp add: pos_divide_less_eq)
qed

lemma fl_pos_range:
  assumes "0 < x" shows "2 powi ilog2 x \<le> fl_pos x" "fl_pos x \<le> 2 powi (ilog2 x + 1)"
proof -
  let ?u = "(2::rat) powi (ilog2 x - 52)" and ?r = "round_half_even (x / 2 powi (ilog2 x - 52))"
  note s = fl_pos_scaled [OF assms]
  have r1: "2 ^ 52 \<le> ?r"
    using round_half_even_mono [OF s(1)] by (simp only: round_half_even_of_int)
  have r2: "?r \<le> 2 ^ 53"
    using round_half_even_mono [OF less_imp_le [OF s(2)]] by (simp only: round_half_even_of_int)
  have "2 powi ilog2 x = of_int (2 ^ 52) * ?u" by (simp add: power_int_diff)
  also have "\<dots> \<le> of_int ?r * ?u" using r1 by (intro mult_right_mono) (simp_all only: of_int_le_iff, simp)
  finally show "2 powi ilog2 x \<le> fl_pos x" by (simp add: fl_pos_def Let_def)
  have "of_int ?r * ?u \<le> of_int (2 ^ 53) * ?u"
    using r2 by (intro mult_right_mono) (simp_all only: of_int_le_iff, simp)
  also have "\<dots> = 2 powi (ilog2 x + 1)" by (simp add: power_int_diff power_int_add)
  finally show "fl_pos x \<le> 2 powi (ilog2 x + 1)" by (simp add: fl_pos_def Let_def)
qed

lemma fl_pos_pos: "0 < x \<Longrightarrow> 0 < fl_pos x"
  using fl_pos_range(1) [of x] powi2_pos [of "ilog2 x"] by linarith

lemma fl_pos_mono:
  assumes "0 < x" "x \<le> y" shows "fl_pos x \<le> fl_pos y"
proof (cases "ilog2 x = ilog2 y")
  case True
  have "x / 2 powi (ilog2 y - 52) \<le> y / 2 powi (ilog2 y - 52)"
    using assms by (intro divide_right_mono) auto
  then show ?thesis
    using True by (auto simp: fl_pos_def Let_def intro!: mult_right_mono round_half_even_mono)
next
  case False
  then have "ilog2 x + 1 \<le> ilog2 y" using ilog2_mono [OF assms] by simp
  then have "(2::rat) powi (ilog2 x + 1) \<le> 2 powi ilog2 y" by (rule powi2_mono)
  then show ?thesis
    using fl_pos_range(2) [of x] fl_pos_range(1) [of y] assms by linarith
qed

lemma fl_0 [simp]: "fl 0 = 0"
  by (simp add: fl_def)

lemma fl_uminus [simp]: "fl (- x) = - fl x"
  by (simp add: fl_def)

lemma fl_pos_iff [simp]: "0 < fl x \<longleftrightarrow> 0 < x"
  using fl_pos_pos [of x] fl_pos_pos [of "- x"] by (auto simp: fl_def)

lemma fl_neg_iff [simp]: "fl x < 0 \<longleftrightarrow> x < 0"
  using fl_pos_pos [of x] fl_pos_pos [of "- x"] by (auto simp: fl_def)

lemma fl_eq_0_iff [simp]: "fl x = 0 \<longleftrightarrow> x = 0"
  using fl_pos_iff [of x] fl_neg_iff [of x] by (metis fl_0 linorder_neqE_linordered_idom order_less_irrefl)

lemma fl_nonneg_iff [simp]: "0 \<le> fl x \<longleftrightarrow> 0 \<le> x"
  using fl_neg_iff [of x] by linarith

lemma fl_nonpos_iff [simp]: "fl x \<le> 0 \<longleftrightarrow> x \<le> 0"
  using fl_pos_iff [of x] by linarith

lemma fl_mono:
  assumes "x \<le> y" shows "fl x \<le> fl y"
proof -
  consider "0 < x" | "x \<le> 0" "0 \<le> y" | "y < 0" by linarith
  then show ?thesis
  proof cases
    case 1
    then show ?thesis using assms by (simp add: fl_def fl_pos_mono)
  next
    case 2
    then show ?thesis using fl_nonneg_iff [of y] fl_nonpos_iff [of x] by linarith
  next
    case 3
    then show ?thesis using assms fl_pos_mono [of "- y" "- x"] by (simp add: fl_def)
  qed
qed

text \<open>Rationals that are doubles: rounding leaves them alone, and always lands on one.\<close>

definition is_double :: "rat \<Rightarrow> bool" where
  "is_double x \<longleftrightarrow> (\<exists>m e. x = of_int m * 2 powi e \<and> \<bar>m\<bar> < 2 ^ 53)"

lemma is_double_uminus [simp]: "is_double (- x) \<longleftrightarrow> is_double x"
proof -
  have "is_double (- y)" if "is_double y" for y
  proof -
    obtain m e where "y = of_int m * 2 powi e" "\<bar>m\<bar> < 2 ^ 53" using \<open>is_double y\<close> by (auto simp: is_double_def)
    then have "- y = of_int (- m) * 2 powi e \<and> \<bar>- m\<bar> < 2 ^ 53" by simp
    then show ?thesis unfolding is_double_def by blast
  qed
  from this [of x] this [of "- x"] show ?thesis by auto
qed

lemma is_double_of_int: "\<bar>n\<bar> < 2 ^ 53 \<Longrightarrow> is_double (of_int n)"
  unfolding is_double_def by (intro exI [of _ n] exI [of _ 0]) simp

lemma fl_pos_double:
  assumes "0 < x" "is_double x" shows "fl_pos x = x"
proof -
  obtain m e where x: "x = of_int m * 2 powi e" and m: "\<bar>m\<bar> < 2 ^ 53"
    using assms(2) by (auto simp: is_double_def)
  have "x < of_int (2 ^ 53) * 2 powi e"
    unfolding x using m by (intro mult_strict_right_mono) (simp_all only: of_int_less_iff, simp_all)
  also have "\<dots> = 2 powi (e + 53)" by (simp add: power_int_add)
  finally have "2 powi ilog2 x < (2::rat) powi (e + 53)"
    using ilog2_bounds(1) [OF assms(1)] by linarith
  then have le: "ilog2 x - 52 \<le> e" by (auto dest: powi2_less_imp)
  then have "(2::rat) powi (e - (ilog2 x - 52)) = of_int (2 ^ nat (e - (ilog2 x - 52)))"
    by (intro powi2_nonneg_exp) simp
  then have "of_int m * (2 powi e / 2 powi (ilog2 x - 52)) = of_int m * (of_int (2 ^ nat (e - (ilog2 x - 52))) :: rat)"
    by (subst (asm) power_int_diff) simp_all
  then have "of_int m * 2 powi e / 2 powi (ilog2 x - 52) = (of_int (m * 2 ^ nat (e - (ilog2 x - 52))) :: rat)"
    by simp
  then have "x / 2 powi (ilog2 x - 52) = of_int (m * 2 ^ nat (e - (ilog2 x - 52)))"
    by (simp only: x [symmetric])
  then show ?thesis
    unfolding fl_pos_def Let_def by (metis powi2_pos nonzero_eq_divide_eq order_less_irrefl round_half_even_of_int)
qed

lemma fl_double: "is_double x \<Longrightarrow> fl x = x"
  using fl_pos_double [of x] fl_pos_double [of "- x"] by (auto simp: fl_def)

lemma is_double_fl_pos:
  assumes "0 < x" shows "is_double (fl_pos x)"
proof -
  let ?u = "ilog2 x - 52" and ?r = "round_half_even (x / 2 powi (ilog2 x - 52))"
  note s = fl_pos_scaled [OF assms]
  have r1: "0 \<le> ?r"
    using round_half_even_mono [of "of_int 0" "x / 2 powi (ilog2 x - 52)"] assms
    by (simp only: round_half_even_of_int) (simp add: less_imp_le)
  have r2: "?r \<le> 2 ^ 53"
    using round_half_even_mono [OF less_imp_le [OF s(2)]] by (simp only: round_half_even_of_int)
  show ?thesis
  proof (cases "?r = 2 ^ 53")
    case True
    then have "fl_pos x = of_int 1 * 2 powi (?u + 53)"
      by (simp add: fl_pos_def Let_def power_int_add power_int_diff)
    then show ?thesis unfolding is_double_def by (intro exI conjI) (assumption, simp)
  next
    case False
    with r1 r2 have "\<bar>?r\<bar> < 2 ^ 53" by linarith
    then show ?thesis unfolding is_double_def fl_pos_def Let_def by blast
  qed
qed

lemma is_double_fl [simp]: "is_double (fl x)"
proof -
  have "is_double 0" using is_double_of_int [of 0] by simp
  then show ?thesis using is_double_fl_pos [of x] is_double_fl_pos [of "- x"] by (auto simp: fl_def)
qed

lemma fl_idem [simp]: "fl (fl x) = fl x"
  by (rule fl_double) simp

lemma fl_of_int: "\<bar>n\<bar> < 2 ^ 53 \<Longrightarrow> fl (of_int n) = of_int n"
  by (intro fl_double is_double_of_int)

lemma fl_numeral: "(numeral n :: int) < 2 ^ 53 \<Longrightarrow> fl (numeral n) = numeral n"
  using fl_of_int [of "numeral n"] by simp

lemma fl_half: "fl (1 / 2) = 1 / 2" and fl_quarter: "fl (1 / 4) = 1 / 4" and fl_three_quarters: "fl (3 / 4) = 3 / 4"
proof -
  have "is_double (1 / 2)" unfolding is_double_def by (rule exI [of _ 1], rule exI [of _ "- 1"]) simp
  then show "fl (1 / 2) = 1 / 2" by (rule fl_double)
  have "is_double (1 / 4)" unfolding is_double_def by (rule exI [of _ 1], rule exI [of _ "- 2"]) simp
  then show "fl (1 / 4) = 1 / 4" by (rule fl_double)
  have "is_double (3 / 4)" unfolding is_double_def by (rule exI [of _ 3], rule exI [of _ "- 2"]) simp
  then show "fl (3 / 4) = 3 / 4" by (rule fl_double)
qed

lemmas fl_exact = fl_numeral fl_half fl_quarter fl_three_quarters

lemma fl_1 [simp]: "fl 1 = 1"
  using fl_of_int [of 1] by simp

lemma fl_le_double: "is_double c \<Longrightarrow> x \<le> c \<Longrightarrow> fl x \<le> c"
  using fl_mono [of x c] by (simp add: fl_double)

lemma fl_ge_double: "is_double c \<Longrightarrow> c \<le> x \<Longrightarrow> c \<le> fl x"
  using fl_mono [of c x] by (simp add: fl_double)

lemma fl_relative_error_pos:
  assumes "0 < x" shows "\<bar>fl_pos x - x\<bar> \<le> x / 2 ^ 53"
proof -
  let ?u = "(2::rat) powi (ilog2 x - 52)"
  have "fl_pos x - x = (of_int (round_half_even (x / ?u)) - x / ?u) * ?u"
    by (simp add: fl_pos_def Let_def left_diff_distrib)
  then have "\<bar>fl_pos x - x\<bar> = \<bar>of_int (round_half_even (x / ?u)) - x / ?u\<bar> * ?u"
    by (simp add: abs_mult)
  also have "\<dots> \<le> 1/2 * ?u" by (intro mult_right_mono round_half_even_error) simp
  also have "\<dots> = 2 powi ilog2 x / 2 ^ 53" by (simp add: power_int_diff)
  also have "\<dots> \<le> x / 2 ^ 53" using ilog2_bounds(1) [OF assms] by (intro divide_right_mono) auto
  finally show ?thesis .
qed

lemma fl_relative_error: "\<bar>fl x - x\<bar> \<le> \<bar>x\<bar> / 2 ^ 53"
proof (cases "x < 0")
  case True
  then have "\<bar>fl_pos (- x) + x\<bar> \<le> - x / 2 ^ 53" using fl_relative_error_pos [of "- x"] by simp
  then show ?thesis using True abs_minus_commute [of "- fl_pos (- x)" x] by (simp add: fl_def)
next
  case False
  then show ?thesis using fl_relative_error_pos [of x] by (cases "x = 0") (auto simp: fl_def)
qed

end
