(* ===== verification/Prelude.thy ===== *)
theory Prelude
  imports Main "HOL-Library.Word" "HOL-Library.AList" "HOL-Library.List_Lexorder" "HOL-Library.Char_ord"
begin

text \<open>
  What every component shares: bytes and their little-endian integers, Python slices, dictionaries
  in insertion order, bounded queues, results, and the interfaces (locales) that several components
  implement.  A dictionary is an association list with distinct keys, because the code relies on
  the insertion order of Python's \<open>dict\<close> when it evicts.
\<close>

named_theorems dict_simps "insertion-ordered dictionaries"
named_theorems byte_simps "bytes and slices"

subsection \<open>Bytes\<close>

type_synonym u8 = "8 word"
type_synonym bytes = "u8 list"

text \<open>\<open>data[i:j]\<close> for \<open>0 \<le> i \<le> j\<close>: Python clips a slice at the end of the data.\<close>

definition slice :: "nat \<Rightarrow> nat \<Rightarrow> 'a list \<Rightarrow> 'a list" where
  "slice i j xs = take (j - i) (drop i xs)"

text \<open>\<open>n.to_bytes(k, "little")\<close> of a value that fits, and \<open>int.from_bytes(bs, "little")\<close>.\<close>

fun le_bytes :: "nat \<Rightarrow> int \<Rightarrow> bytes" where
  "le_bytes 0 v = []"
| "le_bytes (Suc k) v = word_of_int (v mod 256) # le_bytes k (v div 256)"

fun le_val :: "bytes \<Rightarrow> int" where
  "le_val [] = 0"
| "le_val (b # bs) = uint b + 256 * le_val bs"

text \<open>The two's complement reading of \<open>k\<close> little-endian bytes (\<open>"<q"\<close>, or \<open>signed=True\<close>).\<close>

definition le_sval :: "bytes \<Rightarrow> int" where
  "le_sval bs = (let v = le_val bs; m = 256 ^ length bs in if 2 * v < m then v else v - m)"

lemma length_slice [byte_simps]: "length (slice i j xs) = min (j - i) (length xs - i)"
  by (simp add: slice_def)

lemma slice_append_right [byte_simps]: "length xs \<le> i \<Longrightarrow> slice i j (xs @ ys) = slice (i - length xs) (j - length xs) ys"
  by (simp add: slice_def)

lemma slice_append_left [byte_simps]: "j \<le> length xs \<Longrightarrow> slice i j (xs @ ys) = slice i j xs"
  by (cases "i \<le> j") (simp_all add: slice_def)

lemma slice_all [byte_simps]: "length xs \<le> j \<Longrightarrow> slice 0 j xs = xs"
  by (simp add: slice_def)

lemma length_le_bytes [simp, byte_simps]: "length (le_bytes k v) = k"
  by (induction k arbitrary: v) auto

lemma le_val_nonneg [simp]: "0 \<le> le_val bs"
  by (induction bs) auto

lemma le_val_bound: "le_val bs < 256 ^ length bs"
proof (induction bs)
  case (Cons b bs)
  have "uint b < 256" using uint_lt2p [of b] by simp
  with Cons show ?case by simp
qed simp

lemma le_val_le_bytes:
  assumes "0 \<le> v" "v < 256 ^ k" shows "le_val (le_bytes k v) = v"
  using assms
proof (induction k arbitrary: v)
  case (Suc k)
  have "v div 256 < 256 ^ k" using Suc.prems by (simp add: div_less_iff_less_mult mult.commute)
  moreover have "uint (word_of_int (v mod 256) :: u8) = v mod 256"
    by (simp add: uint_word_of_int)
  ultimately show ?case using Suc by simp
qed simp

lemma le_val_le_bytes_mod: "le_val (le_bytes k v) = v mod 256 ^ k"
proof (induction k arbitrary: v)
  case (Suc k)
  have "uint (word_of_int (v mod 256) :: u8) = v mod 256" by (simp add: uint_word_of_int)
  then show ?case using Suc by (simp add: zmod_zmult2_eq)
qed simp

lemma le_sval_le_bytes:
  assumes "- (256 ^ k) \<le> 2 * v" "2 * v < 256 ^ k" shows "le_sval (le_bytes k v) = v"
proof -
  define m where "m = (256 :: int) ^ k"
  have m: "- m \<le> 2 * v" "2 * v < m" "0 < m" using assms by (simp_all add: m_def)
  have "le_sval (le_bytes k v) = (if 2 * (v mod m) < m then v mod m else v mod m - m)"
    by (simp add: le_sval_def Let_def le_val_le_bytes_mod m_def)
  moreover have "v mod m = (if 0 \<le> v then v else v + m)"
    using m mod_pos_pos_trivial [of v m] mod_pos_pos_trivial [of "v + m" m] by auto
  ultimately show ?thesis using m by auto
qed

lemma le_bytes_le_val: "le_bytes (length bs) (le_val bs) = bs"
proof (induction bs)
  case (Cons b bs)
  have b: "0 \<le> uint b" "uint b < 256" using uint_lt2p [of b] by simp_all
  then have "(uint b + 256 * le_val bs) div 256 = le_val bs"
    by (simp add: div_add1_eq)
  moreover have "(uint b + 256 * le_val bs) mod 256 = uint b" using b by simp
  ultimately show ?case using Cons by simp
qed simp

lemma le_val_inj: "length as = length bs \<Longrightarrow> le_val as = le_val bs \<Longrightarrow> as = bs"
  by (metis le_bytes_le_val)

lemma le_sval_range:
  "- (256 ^ length bs) \<le> 2 * le_sval bs" "2 * le_sval bs < 256 ^ length bs"
proof -
  define v m where "v = le_val bs" and "m = (256::int) ^ length bs"
  have "0 \<le> v" "v < m" by (simp_all add: v_def m_def le_val_bound)
  moreover have "le_sval bs = (if 2 * v < m then v else v - m)"
    by (simp add: le_sval_def Let_def v_def m_def)
  ultimately show "- (256 ^ length bs) \<le> 2 * le_sval bs" "2 * le_sval bs < 256 ^ length bs"
    by (auto simp flip: m_def)
qed

subsection \<open>Floor division\<close>

text \<open>Python's \<open>//\<close> is Isabelle's \<open>div\<close> on \<open>int\<close>.\<close>

lemma idiv_mult_le: "0 < (b::int) \<Longrightarrow> a div b * b \<le> a"
  using div_mult_mod_eq [of a b] pos_mod_sign [of b a] by linarith

lemma idiv_mult_gt: "0 < (b::int) \<Longrightarrow> a < (a div b + 1) * b"
proof -
  assume "0 < b"
  then have "a mod b < b" by simp
  then show ?thesis using div_mult_mod_eq [of a b] by (simp only: distrib_right mult_1)
qed

lemma idiv_ge_iff: "0 < (b::int) \<Longrightarrow> c \<le> a div b \<longleftrightarrow> c * b \<le> a"
proof
  assume b: "0 < b" and "c \<le> a div b"
  then have "c * b \<le> a div b * b" by (intro mult_right_mono) auto
  then show "c * b \<le> a" using idiv_mult_le [OF b, of a] by linarith
next
  assume b: "0 < b" and "c * b \<le> a"
  then have "c * b < (a div b + 1) * b" using idiv_mult_gt [OF b, of a] by linarith
  then show "c \<le> a div b" using b by simp
qed

subsection \<open>Results\<close>

text \<open>A computation that may raise: \<open>Inl\<close> is the exception.\<close>

definition rbind :: "'e + 'a \<Rightarrow> ('a \<Rightarrow> 'e + 'b) \<Rightarrow> 'e + 'b" where
  "rbind r f = (case r of Inl e \<Rightarrow> Inl e | Inr a \<Rightarrow> f a)"

lemma rbind_simps [simp]: "rbind (Inl e) f = Inl e" "rbind (Inr a) f = f a"
  by (simp_all add: rbind_def)

lemma rbind_Inr_iff: "rbind r f = Inr b \<longleftrightarrow> (\<exists>a. r = Inr a \<and> f a = Inr b)"
  by (cases r) simp_all

subsection \<open>Dictionaries in insertion order\<close>

type_synonym ('k, 'v) dict = "('k \<times> 'v) list"

abbreviation dget :: "('k, 'v) dict \<Rightarrow> 'k \<Rightarrow> 'v option" where "dget \<equiv> map_of"
abbreviation dput :: "'k \<Rightarrow> 'v \<Rightarrow> ('k, 'v) dict \<Rightarrow> ('k, 'v) dict" where "dput \<equiv> AList.update"
abbreviation dpop :: "'k \<Rightarrow> ('k, 'v) dict \<Rightarrow> ('k, 'v) dict" where "dpop \<equiv> AList.delete"
abbreviation dkeys :: "('k, 'v) dict \<Rightarrow> 'k list" where "dkeys d \<equiv> map fst d"

definition dget_or :: "('k, 'v) dict \<Rightarrow> 'k \<Rightarrow> 'v \<Rightarrow> 'v" where
  "dget_or d k v = (case dget d k of None \<Rightarrow> v | Some x \<Rightarrow> x)"

lemma dget_dput [simp, dict_simps]: "dget (dput k v d) = (dget d)(k \<mapsto> v)"
  by (rule update_conv')

lemma dget_dpop [simp, dict_simps]: "dget (dpop k d) = (dget d)(k := None)"
  by (rule delete_conv')

lemma distinct_dput [simp, dict_simps]: "distinct (dkeys d) \<Longrightarrow> distinct (dkeys (dput k v d))"
  by (rule distinct_update)

lemma distinct_dpop [simp, dict_simps]: "distinct (dkeys d) \<Longrightarrow> distinct (dkeys (dpop k d))"
  by (rule distinct_delete)

lemma length_dpop_less: "k \<in> set (dkeys d) \<Longrightarrow> length (dpop k d) < length d"
proof (induction d)
  case (Cons x d)
  have "length (dpop k d) \<le> length d" by (rule length_delete_le)
  with Cons show ?case by (cases "fst x = k") (auto simp: less_Suc_eq_le)
qed simp

lemma set_dkeys_dput [dict_simps]: "set (dkeys (dput k v d)) = insert k (set (dkeys d))"
  by (induction d) auto

lemma set_dputD: "(k', v') \<in> set (dput k v d) \<Longrightarrow> (k', v') = (k, v) \<or> (k', v') \<in> set d"
  by (induction d) (auto split: if_splits)

lemma dput_new: "k \<notin> set (dkeys d) \<Longrightarrow> dput k v d = d @ [(k, v)]"
  by (induction d) auto

lemma dkeys_dput_old: "k \<in> set (dkeys d) \<Longrightarrow> dkeys (dput k v d) = dkeys d"
  by (induction d) auto

lemma length_dput:
  "length (dput k v d) = (if k \<in> set (dkeys d) then length d else Suc (length d))"
  by (induction d) auto

lemma dget_None_iff: "dget d k = None \<longleftrightarrow> k \<notin> set (dkeys d)"
  by (simp add: map_of_eq_None_iff)

subsection \<open>Bounded containers\<close>

text \<open>
  \<open>while len(d) > cap: d.pop(next(iter(d)))\<close>: the oldest entries leave first.
\<close>

fun evict_oldest :: "nat \<Rightarrow> 'a list \<Rightarrow> 'a list" where
  "evict_oldest cap [] = []"
| "evict_oldest cap (x # xs) = (if cap < length (x # xs) then evict_oldest cap xs else x # xs)"

lemma evict_oldest_drop: "evict_oldest cap xs = drop (length xs - cap) xs"
proof (induction xs)
  case (Cons x xs)
  then show ?case by (cases "length xs - cap") (auto simp: Suc_diff_le drop_Cons')
qed simp

lemma length_evict_oldest [simp]: "length (evict_oldest cap xs) = min cap (length xs)"
  by (simp add: evict_oldest_drop min_def)

lemma evict_oldest_id [simp]: "length xs \<le> cap \<Longrightarrow> evict_oldest cap xs = xs"
  by (simp add: evict_oldest_drop)

lemma set_evict_oldest: "set (evict_oldest cap xs) \<subseteq> set xs"
  by (simp add: evict_oldest_drop set_drop_subset)

lemma map_evict_oldest: "map f (evict_oldest cap xs) = evict_oldest cap (map f xs)"
  by (simp add: evict_oldest_drop drop_map)

lemma distinct_evict_oldest [simp]: "distinct xs \<Longrightarrow> distinct (evict_oldest cap xs)"
  by (simp add: evict_oldest_drop)

text \<open>Appending to a \<open>deque(maxlen=n)\<close>: the leftmost item falls out.\<close>

definition push_bounded :: "nat \<Rightarrow> 'a \<Rightarrow> 'a list \<Rightarrow> 'a list" where
  "push_bounded n x xs = evict_oldest n (xs @ [x])"

lemma length_push_bounded: "length (push_bounded n x xs) = min n (Suc (length xs))"
  by (simp add: push_bounded_def)

lemma set_push_bounded: "set (push_bounded n x xs) \<subseteq> insert x (set xs)"
  using set_evict_oldest [of n "xs @ [x]"] by (simp add: push_bounded_def)

subsection \<open>The first of the greatest\<close>

text \<open>Python's \<open>max(xs, key=...)\<close> over a non-empty list: the first element no other one exceeds.\<close>

definition first_max :: "('a \<Rightarrow> 'k::linorder) \<Rightarrow> 'a list \<Rightarrow> 'a" where
  "first_max key xs = foldl (\<lambda>best x. if key best < key x then x else best) (hd xs) (tl xs)"

lemma foldl_first_max:
  fixes key :: "'a \<Rightarrow> 'k::linorder"
  shows "foldl (\<lambda>best x. if key best < key x then x else best) b xs \<in> insert b (set xs)
   \<and> key b \<le> key (foldl (\<lambda>best x. if key best < key x then x else best) b xs)
   \<and> (\<forall>x\<in>set xs. key x \<le> key (foldl (\<lambda>best x. if key best < key x then x else best) b xs))"
proof (induction xs arbitrary: b)
  case (Cons x xs)
  define c where "c = (if key b < key x then x else b)"
  have "key b \<le> key c" "key x \<le> key c" "c \<in> {b, x}" by (auto simp: c_def)
  with Cons.IH [of c] show ?case by (auto simp: c_def [symmetric] intro: order.trans)
qed simp

lemma first_max_in: "xs \<noteq> [] \<Longrightarrow> first_max key xs \<in> set xs"
  using foldl_first_max [of key "hd xs" "tl xs"] by (cases xs) (auto simp: first_max_def)

lemma first_max_ge: "x \<in> set xs \<Longrightarrow> key x \<le> key (first_max key xs)"
  using foldl_first_max [of key "hd xs" "tl xs"] by (cases xs) (auto simp: first_max_def)

end
