(* ===== verification/PyText.thy ===== *)
theory PyText
  imports PyFloat Prelude
begin

text \<open>
  The text the code formats: decimal integers and fixed-point doubles, as Python's f-strings render
  them.
\<close>

definition digit_char :: "nat \<Rightarrow> char" where
  "digit_char d = ''0123456789'' ! d"

fun nat_str :: "nat \<Rightarrow> string" where
  "nat_str n = (if n < 10 then [digit_char n] else nat_str (n div 10) @ [digit_char (n mod 10)])"

declare nat_str.simps [simp del]

definition int_str :: "int \<Rightarrow> string" where
  "int_str i = (if i < 0 then ''-'' @ nat_str (nat (- i)) else nat_str (nat i))"

text \<open>\<open>f"{x:.1f}"\<close> and \<open>f"{x:.0f}"\<close>: the exact value, rounded half to even at the last digit shown.\<close>

definition fixed1_str :: "pyfloat \<Rightarrow> string" where
  "fixed1_str x =
     (let n = round_half_even (\<bar>x\<bar> * 10)
      in (if x < 0 then ''-'' else '''') @ nat_str (nat (n div 10)) @ ''.'' @ [digit_char (nat (n mod 10))])"

definition fixed2_str :: "pyfloat \<Rightarrow> string" where
  "fixed2_str x =
     (let n = round_half_even (\<bar>x\<bar> * 100)
      in (if x < 0 then ''-'' else '''') @ nat_str (nat (n div 100)) @ ''.''
           @ [digit_char (nat (n div 10 mod 10)), digit_char (nat (n mod 10))])"

definition fixed0_str :: "pyfloat \<Rightarrow> string" where
  "fixed0_str x =
     (let n = round_half_even \<bar>x\<bar> in (if x < 0 then ''-'' else '''') @ nat_str (nat n))"

text \<open>\<open>bytes.hex()\<close>.\<close>

definition hex_digit :: "int \<Rightarrow> char" where
  "hex_digit d = ''0123456789abcdef'' ! nat d"

definition hex_str :: "bytes \<Rightarrow> string" where
  "hex_str bs = concat (map (\<lambda>b. [hex_digit (uint b div 16), hex_digit (uint b mod 16)]) bs)"

text \<open>\<open>repr\<close> of a bytes object, as \<open>{handshake!r}\<close> renders it.\<close>

definition byte_char :: "u8 \<Rightarrow> char" where
  "byte_char b = char_of (nat (uint b))"

definition byte_repr :: "char \<Rightarrow> u8 \<Rightarrow> string" where
  "byte_repr quote b =
     (if byte_char b = quote \<or> uint b = 92 then [CHR 0x5C, byte_char b]
      else if uint b = 9 then [CHR 0x5C, CHR ''t'']
      else if uint b = 10 then [CHR 0x5C, CHR ''n'']
      else if uint b = 13 then [CHR 0x5C, CHR ''r'']
      else if uint b < 32 \<or> 127 \<le> uint b then [CHR 0x5C, CHR ''x''] @ hex_str [b]
      else [byte_char b])"

definition bytes_repr :: "bytes \<Rightarrow> string" where
  "bytes_repr bs =
     (let quote = (if 39 \<in> set bs \<and> 34 \<notin> set bs then CHR 0x22 else CHR 0x27)
      in [CHR ''b'', quote] @ concat (map (byte_repr quote) bs) @ [quote])"

text \<open>ASCII text as bytes (\<open>.encode()\<close>) and back; ASCII \<open>strip\<close> and \<open>lower\<close>.\<close>

definition text_bytes :: "string \<Rightarrow> bytes" where
  "text_bytes s = map (\<lambda>c. word_of_int (int (of_char c))) s"

definition bytes_text :: "bytes \<Rightarrow> string" where
  "bytes_text bs = map byte_char bs"

definition is_space :: "char \<Rightarrow> bool" where
  "is_space c \<longleftrightarrow> c \<in> {CHR 0x09, CHR 0x0A, CHR 0x0B, CHR 0x0C, CHR 0x0D, CHR 0x1C, CHR 0x1D, CHR 0x1E,
     CHR 0x1F, CHR '' ''}"

definition py_strip :: "string \<Rightarrow> string" where
  "py_strip s = rev (dropWhile is_space (rev (dropWhile is_space s)))"

definition lower_char :: "char \<Rightarrow> char" where
  "lower_char c = (let n = of_char c :: nat in if 65 \<le> n \<and> n \<le> 90 then char_of (n + 32) else c)"

definition py_lower :: "string \<Rightarrow> string" where
  "py_lower s = map lower_char s"

text \<open>\<open>needle in text\<close> and \<open>text.startswith(prefix)\<close>.\<close>

fun contains_text :: "string \<Rightarrow> string \<Rightarrow> bool" where
  "contains_text needle [] = (needle = [])"
| "contains_text needle (c # s) = (take (length needle) (c # s) = needle \<or> contains_text needle s)"

definition starts_text :: "string \<Rightarrow> string \<Rightarrow> bool" where
  "starts_text beginning s \<longleftrightarrow> take (length beginning) s = beginning"

lemma byte_char_text: "byte_char (word_of_int (int (of_char c))) = c"
proof -
  have "nat (uint (word_of_int (int (of_char c)) :: u8)) = of_char c mod 256"
    by (simp add: unsigned_of_nat take_bit_eq_mod)
  then show ?thesis unfolding byte_char_def by simp
qed

lemma bytes_text_inverse [simp]: "bytes_text (text_bytes s) = s"
  by (simp only: bytes_text_def text_bytes_def map_map comp_def byte_char_text map_ident)

lemma length_text_bytes [simp]: "length (text_bytes s) = length s"
  by (simp add: text_bytes_def)

lemma length_hex_str [simp]: "length (hex_str bs) = 2 * length bs"
  by (induction bs) (simp_all add: hex_str_def)

lemma digit_char_inj: "a < 10 \<Longrightarrow> b < 10 \<Longrightarrow> digit_char a = digit_char b \<longleftrightarrow> a = b"
proof -
  have "distinct ''0123456789''" by code_simp
  then show "a < 10 \<Longrightarrow> b < 10 \<Longrightarrow> digit_char a = digit_char b \<longleftrightarrow> a = b"
    unfolding digit_char_def by (simp add: nth_eq_iff_index_eq del: distinct.simps)
qed

lemma nat_str_nonempty [simp]: "nat_str n \<noteq> []"
  by (subst nat_str.simps) simp

lemma length_nat_str: "length (nat_str n) \<le> n + 1"
proof (induction n rule: nat_str.induct)
  case (1 n)
  show ?case
  proof (cases "n < 10")
    case True
    then show ?thesis by (simp add: nat_str.simps [of n])
  next
    case False
    then have "length (nat_str (n div 10)) \<le> n div 10 + 1" by (rule 1)
    moreover have "n div 10 + 1 \<le> n" using False by linarith
    ultimately show ?thesis using False by (simp add: nat_str.simps [of n])
  qed
qed

text \<open>Different numbers are rendered differently.\<close>

lemma nat_str_inj: "nat_str a = nat_str b \<Longrightarrow> a = b"
proof (induction a arbitrary: b rule: nat_str.induct)
  case (1 a)
  have len1: "length (nat_str n) = 1 \<longleftrightarrow> n < 10" for n
    using nat_str_nonempty [of "n div 10"] by (subst nat_str.simps) simp
  show ?case
  proof (cases "a < 10")
    case True
    then have "b < 10" using 1(2) len1 [of a] len1 [of b] by simp
    then show ?thesis using 1(2) True by (simp add: nat_str.simps [of a] nat_str.simps [of b] digit_char_inj)
  next
    case False
    then have b: "\<not> b < 10" using 1(2) len1 [of a] len1 [of b] by simp
    have "nat_str (a div 10) @ [digit_char (a mod 10)] = nat_str (b div 10) @ [digit_char (b mod 10)]"
      using 1(2) False b by (simp only: nat_str.simps [of a] nat_str.simps [of b] if_False)
    then have "nat_str (a div 10) = nat_str (b div 10)" "a mod 10 = b mod 10"
      by (simp_all add: digit_char_inj)
    then have "a div 10 = b div 10" using 1(1) False by blast
    with \<open>a mod 10 = b mod 10\<close> show ?thesis by (metis div_mult_mod_eq)
  qed
qed

end
