(* ===== verification/Interfaces.thy ===== *)
theory Interfaces
  imports Prelude
begin

text \<open>
  The contracts several components implement, as locales over the operations their clients call.
  Every locale here is interpreted on the code's own definitions in the theory of the component
  that provides them.
\<close>

subsection \<open>State machines with an invariant\<close>

text \<open>
  A component whose public operations are the events \<open>'e\<close>.  What each operation keeps, every
  sequence of operations keeps.
\<close>

definition run :: "('s \<Rightarrow> 'e \<Rightarrow> 's) \<Rightarrow> 's \<Rightarrow> 'e list \<Rightarrow> 's" where
  "run step s es = foldl step s es"

lemma run_simps [simp]:
  "run step s [] = s" "run step s (e # es) = run step (step s e) es"
  "run step s (es @ es') = run step (run step s es) es'"
  by (simp_all add: run_def)

locale machine =
  fixes step :: "'s \<Rightarrow> 'e \<Rightarrow> 's" and inv :: "'s \<Rightarrow> bool"
  assumes step_inv: "inv s \<Longrightarrow> inv (step s e)"
begin

lemma run_inv: "inv s \<Longrightarrow> inv (run step s es)"
  by (induction es arbitrary: s) (auto intro: step_inv)

end

text \<open>A machine with a counter that no operation lowers.\<close>

locale counting_machine = machine +
  fixes count :: "'a \<Rightarrow> int"
  assumes count_mono: "inv s \<Longrightarrow> count s \<le> count (step s e)"
begin

lemma run_count_mono: "inv s \<Longrightarrow> count s \<le> count (run step s es)"
proof (induction es arbitrary: s)
  case (Cons e es)
  have "count s \<le> count (step s e)" using Cons.prems by (rule count_mono)
  also have "\<dots> \<le> count (run step (step s e) es)" by (intro Cons.IH step_inv Cons.prems)
  finally show ?case by simp
qed simp

end

subsection \<open>Codecs\<close>

text \<open>An encoder into bytes with its decoder, which may refuse.\<close>

locale codec =
  fixes enc :: "'a \<Rightarrow> bytes" and dec :: "bytes \<Rightarrow> 'a option" and valid :: "'a \<Rightarrow> bool"
  assumes dec_enc: "valid a \<Longrightarrow> dec (enc a) = Some a"
begin

lemma enc_inj: "valid a \<Longrightarrow> valid b \<Longrightarrow> enc a = enc b \<Longrightarrow> a = b"
  by (metis dec_enc option.inject)

end

text \<open>
  A codec that can be read off the front of a longer stream: the decoder also returns what is
  left.  Concatenated frames decode to the frames that were written.
\<close>

locale stream_codec =
  fixes enc :: "'a \<Rightarrow> bytes" and dec :: "bytes \<Rightarrow> ('a \<times> bytes) option" and valid :: "'a \<Rightarrow> bool"
  assumes dec_enc_app: "valid a \<Longrightarrow> dec (enc a @ rest) = Some (a, rest)"
begin

primrec dec_n :: "nat \<Rightarrow> bytes \<Rightarrow> ('a list \<times> bytes) option" where
  "dec_n 0 bs = Some ([], bs)"
| "dec_n (Suc n) bs =
     (case dec bs of None \<Rightarrow> None
      | Some (a, rest) \<Rightarrow> map_option (\<lambda>(xs, r). (a # xs, r)) (dec_n n rest))"

lemma dec_n_concat:
  "list_all valid xs \<Longrightarrow> dec_n (length xs) (concat (map enc xs) @ rest) = Some (xs, rest)"
  by (induction xs) (auto simp: dec_enc_app)

lemma enc_app_inj:
  "valid a \<Longrightarrow> valid b \<Longrightarrow> enc a @ r = enc b @ r' \<Longrightarrow> a = b \<and> r = r'"
  by (metis dec_enc_app option.inject prod.inject)

end

sublocale stream_codec \<subseteq> codec enc "\<lambda>bs. case dec bs of Some (a, []) \<Rightarrow> Some a | _ \<Rightarrow> None" valid
proof
  fix a assume "valid a"
  then have "dec (enc a @ []) = Some (a, [])" by (rule dec_enc_app)
  then show "(case dec (enc a) of Some (a, []) \<Rightarrow> Some a | _ \<Rightarrow> None) = Some a" by simp
qed

subsection \<open>Searching for the largest acceptable size\<close>

text \<open>
  The loop both capacity functions run: \<open>low\<close> is always acceptable (or the start), everything
  the search has thrown away above \<open>high\<close> was refused.
\<close>

function bisect_max :: "(int \<Rightarrow> bool) \<Rightarrow> int \<Rightarrow> int \<Rightarrow> int" where
  "bisect_max ok low high =
     (if low < high then
        let mid = (low + high + 1) div 2
        in if ok mid then bisect_max ok mid high else bisect_max ok low (mid - 1)
      else low)"
  by pat_completeness auto
termination
  by (relation "measure (\<lambda>(ok, low, high). nat (high - low))") auto

declare bisect_max.simps [simp del]

text \<open>The same loop limited to a number of rounds, as \<open>for _ in range(n)\<close> with a break.\<close>

fun bisect_max_n :: "nat \<Rightarrow> (int \<Rightarrow> bool) \<Rightarrow> int \<Rightarrow> int \<Rightarrow> int" where
  "bisect_max_n 0 ok low high = low"
| "bisect_max_n (Suc n) ok low high =
     (if high \<le> low then low
      else let mid = (low + high + 1) div 2
           in if ok mid then bisect_max_n n ok mid high else bisect_max_n n ok low (mid - 1))"

lemma bisect_max_sound:
  "low \<le> high \<Longrightarrow> low \<le> bisect_max ok low high \<and> bisect_max ok low high \<le> high
     \<and> (bisect_max ok low high = low \<or> ok (bisect_max ok low high))"
proof (induction ok low high rule: bisect_max.induct)
  case (1 ok low high)
  show ?case
  proof (cases "low < high")
    case lt: True
    let ?mid = "(low + high + 1) div 2"
    have mid: "low < ?mid" "?mid \<le> high" using lt by linarith+
    show ?thesis
    proof (cases "ok ?mid")
      case True
      then have "bisect_max ok low high = bisect_max ok ?mid high"
        using lt by (subst bisect_max.simps) (simp add: Let_def)
      then show ?thesis using 1(1)[OF lt refl True] mid True by auto
    next
      case False
      then have "bisect_max ok low high = bisect_max ok low (?mid - 1)"
        using lt by (subst bisect_max.simps) (simp add: Let_def)
      then show ?thesis using 1(2)[OF lt refl False] mid by auto
    qed
  next
    case False
    then show ?thesis using 1(3) by (simp add: bisect_max.simps)
  qed
qed

lemma bisect_max_n_enough:
  "high - low < 2 ^ n \<Longrightarrow> bisect_max_n n ok low high = bisect_max ok low high"
proof (induction n arbitrary: low high)
  case 0
  then show ?case by (simp add: bisect_max.simps)
next
  case (Suc n)
  let ?mid = "(low + high + 1) div 2"
  show ?case
  proof (cases "low < high")
    case True
    define w where "w = (2::int) ^ n"
    have "high - low < 2 * w" using Suc.prems by (simp add: w_def)
    then have "high - ?mid < w" "?mid - 1 - low < w" using True by linarith+
    then have "high - ?mid < 2 ^ n" "?mid - 1 - low < 2 ^ n" by (simp_all add: w_def)
    then have "bisect_max_n n ok ?mid high = bisect_max ok ?mid high"
      "bisect_max_n n ok low (?mid - 1) = bisect_max ok low (?mid - 1)" by (blast intro: Suc.IH)+
    then show ?thesis using True by (simp add: bisect_max.simps [of ok low high] Let_def)
  next
    case False
    then show ?thesis by (simp add: bisect_max.simps)
  qed
qed

text \<open>
  Acceptability need not be monotone in the size (integer rounding makes very small trades refused
  and larger ones acceptable), so the search promises a boundary rather than a maximum: either the
  whole range was acceptable, or the next larger size was tried and refused.
\<close>

lemma bisect_max_boundary:
  "low \<le> high \<Longrightarrow> bisect_max ok low high = high \<or> \<not> ok (bisect_max ok low high + 1)"
proof (induction ok low high rule: bisect_max.induct)
  case (1 ok low high)
  show ?case
  proof (cases "low < high")
    case lt: True
    let ?mid = "(low + high + 1) div 2"
    have mid: "low < ?mid" "?mid \<le> high" using lt by linarith+
    show ?thesis
    proof (cases "ok ?mid")
      case True
      then have "bisect_max ok low high = bisect_max ok ?mid high"
        using lt by (subst bisect_max.simps) (simp add: Let_def)
      then show ?thesis using 1(1)[OF lt refl True] mid by simp
    next
      case False
      then have eq: "bisect_max ok low high = bisect_max ok low (?mid - 1)"
        using lt by (subst bisect_max.simps) (simp add: Let_def)
      have "bisect_max ok low (?mid - 1) = ?mid - 1 \<or> \<not> ok (bisect_max ok low (?mid - 1) + 1)"
        using 1(2)[OF lt refl False] mid by simp
      then show ?thesis using eq False by auto
    qed
  next
    case False
    then show ?thesis using 1(3) by (simp add: bisect_max.simps)
  qed
qed

end
