(* ===== verification/ActionValue.thy ===== *)
theory ActionValue
  imports PyText Interfaces
begin

text \<open>
  \<open>strategies/action_value.py\<close>: every action on a position or a flat book priced by the expected log wealth
  it leads to, and the choice among them.  The logarithm, the built-in \<open>sum\<close> over floats (whose rounding
  depends on the Python version) and a trained model are arguments.  Minus infinity is \<open>None\<close>.  The detail
  texts that print numbers are left out.
\<close>

subsection \<open>Actions and states\<close>

datatype action =
  IGNORE | PROBE | HOLD | ADD | BANK_10 | BANK_25 | BANK_50 | BANK_75 | EXIT | REENTER | REPLACE

definition ALL_ACTIONS :: "action list" where
  "ALL_ACTIONS = [IGNORE, PROBE, HOLD, ADD, BANK_10, BANK_25, BANK_50, BANK_75, EXIT, REENTER, REPLACE]"

definition action_text :: "action \<Rightarrow> string" where
  "action_text a =
     (case a of IGNORE \<Rightarrow> ''ignore'' | PROBE \<Rightarrow> ''probe'' | HOLD \<Rightarrow> ''hold'' | ADD \<Rightarrow> ''add'' | BANK_10 \<Rightarrow> ''bank_10''
      | BANK_25 \<Rightarrow> ''bank_25'' | BANK_50 \<Rightarrow> ''bank_50'' | BANK_75 \<Rightarrow> ''bank_75'' | EXIT \<Rightarrow> ''exit'' | REENTER \<Rightarrow> ''reenter''
      | REPLACE \<Rightarrow> ''replace'')"

definition bank_fraction :: "action \<Rightarrow> pyfloat" where
  "bank_fraction a =
     (case a of BANK_10 \<Rightarrow> fl (1 / 10) | BANK_25 \<Rightarrow> 1 / 4 | BANK_50 \<Rightarrow> 1 / 2 | BANK_75 \<Rightarrow> 3 / 4 | EXIT \<Rightarrow> 1 | REPLACE \<Rightarrow> 1
      | _ \<Rightarrow> 0)"

definition is_entry :: "action \<Rightarrow> bool" where
  "is_entry a \<longleftrightarrow> a \<in> {IGNORE, PROBE}"

definition frees_capital :: "action \<Rightarrow> bool" where
  "frees_capital a \<longleftrightarrow> a \<in> {EXIT, REPLACE}"

type_synonym return_bins = "(pyfloat \<times> pyfloat) list"

record position_state =
  held_fraction :: pyfloat
  current_multiple :: pyfloat
  forward_bins :: return_bins
  exit_cost :: pyfloat
  entry_cost :: pyfloat
  exit_capacity_ratio :: "pyfloat option"
  escape_probability :: "pyfloat option"
  expected_remaining_seconds :: "pyfloat option"
  alternative_growth :: "pyfloat option"
  add_fraction :: "pyfloat option"
  add_capacity_fraction :: "pyfloat option"
  probe_fraction :: "pyfloat option"
  reentry_bins :: "return_bins option"
  replacement_bins :: "return_bins option"
  replacement_fraction :: "pyfloat option"

definition is_close :: "pyfloat \<Rightarrow> pyfloat \<Rightarrow> pyfloat \<Rightarrow> bool" where
  "is_close tolerance a b \<longleftrightarrow> \<bar>fsub a b\<bar> \<le> max (fmul tolerance (max \<bar>a\<bar> \<bar>b\<bar>)) tolerance"

definition state_blocked :: "(pyfloat list \<Rightarrow> pyfloat) \<Rightarrow> position_state \<Rightarrow> string option" where
  "state_blocked sum_of s =
     (if forward_bins s = [] then Some ''no forward distribution''
      else if \<not> is_close (fl (1 / 10^6)) (sum_of (map fst (forward_bins s))) 1 then Some ''forward distribution does not sum to 1''
      else if held_fraction s < 0 \<or> 1 < held_fraction s then Some ''held fraction out of range''
      else if current_multiple s < 0 then Some ''negative multiple''
      else if exit_capacity_ratio s = None then Some ''exit capacity not measured''
      else if escape_probability s = None then Some ''escape probability not measured''
      else None)"

subsection \<open>Values\<close>

text \<open>\<open>_expected_log\<close>: \<open>None\<close> as soon as one outcome leaves no wealth.\<close>

fun log_sum :: "(pyfloat \<Rightarrow> pyfloat) \<Rightarrow> (pyfloat \<Rightarrow> pyfloat) \<Rightarrow> pyfloat \<Rightarrow> return_bins \<Rightarrow> pyfloat option" where
  "log_sum log_of wealth acc [] = Some acc"
| "log_sum log_of wealth acc ((p, gross) # bins) =
     (if wealth gross \<le> 0 then None else log_sum log_of wealth (fadd acc (fmul p (log_of (wealth gross)))) bins)"

definition expected_log :: "(pyfloat \<Rightarrow> pyfloat) \<Rightarrow> return_bins \<Rightarrow> (pyfloat \<Rightarrow> pyfloat) \<Rightarrow> pyfloat option" where
  "expected_log log_of bins wealth = log_sum log_of wealth 0 bins"

definition clip01 :: "pyfloat option \<Rightarrow> pyfloat" where
  "clip01 x = (case x of None \<Rightarrow> 1 | Some v \<Rightarrow> min (max v 0) 1)"

definition capture :: "position_state \<Rightarrow> pyfloat \<Rightarrow> pyfloat" where
  "capture s gross =
     (if gross \<le> 0 then gross else fmul (fmul gross (clip01 (exit_capacity_ratio s))) (clip01 (escape_probability s)))"

definition marked :: "position_state \<Rightarrow> pyfloat" where
  "marked s = max 0 (current_multiple s)"

definition hold_wealth :: "position_state \<Rightarrow> pyfloat \<Rightarrow> pyfloat" where
  "hold_wealth s gross = fadd (fsub 1 (held_fraction s)) (fmul (fmul (held_fraction s) (marked s)) (fadd 1 (capture s gross)))"

definition hold_value :: "(pyfloat \<Rightarrow> pyfloat) \<Rightarrow> position_state \<Rightarrow> pyfloat option" where
  "hold_value log_of s = expected_log log_of (forward_bins s) (hold_wealth s)"

definition bank_wealth :: "position_state \<Rightarrow> pyfloat \<Rightarrow> pyfloat \<Rightarrow> pyfloat" where
  "bank_wealth s fraction gross =
     (let sold = fmul (fmul (held_fraction s) fraction) (clip01 (exit_capacity_ratio s));
          remaining = fsub (held_fraction s) sold;
          proceeds = fmul (fmul sold (marked s)) (fsub 1 (exit_cost s));
          cash = fadd (fsub 1 (held_fraction s)) proceeds
      in fadd cash (fmul (fmul remaining (marked s)) (fadd 1 (capture s gross))))"

definition bank_value :: "(pyfloat \<Rightarrow> pyfloat) \<Rightarrow> position_state \<Rightarrow> pyfloat \<Rightarrow> pyfloat option" where
  "bank_value log_of s fraction = expected_log log_of (forward_bins s) (bank_wealth s fraction)"

definition add_ceiling :: "pyfloat \<Rightarrow> position_state \<Rightarrow> pyfloat" where
  "add_ceiling max_add s = (case add_capacity_fraction s of None \<Rightarrow> max_add | Some c \<Rightarrow> min max_add c)"

definition add_wealth :: "position_state \<Rightarrow> pyfloat \<Rightarrow> pyfloat \<Rightarrow> pyfloat" where
  "add_wealth s added gross =
     fsub (fadd (fsub (fsub 1 (held_fraction s)) added)
                (fmul (fadd (fmul (held_fraction s) (marked s)) added) (fadd 1 (capture s gross))))
          (fmul added (entry_cost s))"

definition add_value :: "(pyfloat \<Rightarrow> pyfloat) \<Rightarrow> pyfloat \<Rightarrow> position_state \<Rightarrow> pyfloat option \<times> string" where
  "add_value log_of max_add s =
     (case add_fraction s of
        None \<Rightarrow> (None, ''no add size supplied'')
      | Some added \<Rightarrow>
          if added \<le> 0 then (None, ''non-positive add size'')
          else if add_ceiling max_add s < added then (None, ''add exceeds capacity ceiling'')
          else if fsub (fsub 1 (held_fraction s)) added < 0 then (None, ''add exceeds available cash'')
          else (expected_log log_of (forward_bins s) (add_wealth s added), ''ok''))"

definition redeploy_bonus :: "position_state \<Rightarrow> pyfloat" where
  "redeploy_bonus s =
     (case (alternative_growth s, expected_remaining_seconds s) of
        (Some rate, Some seconds) \<Rightarrow>
          if rate \<le> 0 \<or> seconds \<le> 0 then 0
          else fmul (fmul rate seconds) (fmul (held_fraction s) (marked s))
      | _ \<Rightarrow> 0)"

definition replace_wealth :: "position_state \<Rightarrow> pyfloat \<Rightarrow> pyfloat \<Rightarrow> pyfloat" where
  "replace_wealth s added gross =
     (let sold = fmul (held_fraction s) (clip01 (exit_capacity_ratio s));
          proceeds = fmul (fmul sold (marked s)) (fsub 1 (exit_cost s));
          cash = fsub (fadd (fsub 1 (held_fraction s)) proceeds) added;
          stranded = fmul (fsub (held_fraction s) sold) (marked s)
      in fsub (fadd (fadd cash stranded) (fmul added (fadd 1 gross))) (fmul added (entry_cost s)))"

definition replace_cash :: "position_state \<Rightarrow> pyfloat \<Rightarrow> pyfloat" where
  "replace_cash s added =
     fsub (fadd (fsub 1 (held_fraction s))
                (fmul (fmul (fmul (held_fraction s) (clip01 (exit_capacity_ratio s))) (marked s)) (fsub 1 (exit_cost s)))) added"

definition replace_value :: "(pyfloat \<Rightarrow> pyfloat) \<Rightarrow> position_state \<Rightarrow> pyfloat option \<times> string" where
  "replace_value log_of s =
     (case replacement_bins s of
        None \<Rightarrow> (None, ''no replacement candidate supplied'')
      | Some bins \<Rightarrow>
          (case replacement_fraction s of
             None \<Rightarrow> (None, ''no replacement size supplied'')
           | Some added \<Rightarrow>
               if added \<le> 0 then (None, ''no replacement size supplied'')
               else if fadd (fmul (held_fraction s) (marked s)) (fsub 1 (held_fraction s)) < added
               then (None, ''replacement exceeds capital the exit would free'')
               else if replace_cash s added < 0 then (None, ''replacement exceeds realised proceeds'')
               else (expected_log log_of bins (replace_wealth s added), ''ok'')))"

text \<open>The wealth of a first commitment from a flat book, a probe or a re-entry.\<close>

definition entry_wealth :: "position_state \<Rightarrow> pyfloat \<Rightarrow> pyfloat \<Rightarrow> pyfloat" where
  "entry_wealth s added gross =
     fsub (fadd (fsub 1 added) (fmul added (fadd 1 (capture s gross)))) (fmul added (entry_cost s))"

definition probe_value :: "(pyfloat \<Rightarrow> pyfloat) \<Rightarrow> position_state \<Rightarrow> pyfloat option \<times> string" where
  "probe_value log_of s =
     (if 0 < held_fraction s then (None, ''position is open; probing is not the question'')
      else case probe_fraction s of
        None \<Rightarrow> (None, ''no probe size supplied'')
      | Some added \<Rightarrow>
          if added \<le> 0 then (None, ''no probe size supplied'')
          else if fsub 1 added < 0 then (None, ''probe exceeds available cash'')
          else (expected_log log_of (forward_bins s) (entry_wealth s added), ''ok''))"

definition reenter_value :: "(pyfloat \<Rightarrow> pyfloat) \<Rightarrow> position_state \<Rightarrow> pyfloat option \<times> string" where
  "reenter_value log_of s =
     (case reentry_bins s of
        None \<Rightarrow> (None, ''no re-entry distribution supplied'')
      | Some bins \<Rightarrow>
          if 0 < held_fraction s then (None, ''position is still open; re-entry is not the question'')
          else case add_fraction s of
            None \<Rightarrow> (None, ''no re-entry size supplied'')
          | Some added \<Rightarrow>
              if added \<le> 0 then (None, ''no re-entry size supplied'')
              else if fsub 1 added < 0 then (None, ''re-entry exceeds available cash'')
              else (expected_log log_of bins (entry_wealth s added), ''ok''))"

subsection \<open>The choice\<close>

record action_score =
  sc_action :: action
  sc_q :: "pyfloat option"
  sc_ok :: bool
  sc_detail :: string

definition feasible_score :: "action_score \<Rightarrow> bool" where
  "feasible_score s \<longleftrightarrow> sc_ok s \<and> sc_q s \<noteq> None"

record action_decision =
  ad_status :: string
  ad_action :: action
  ad_q :: pyfloat
  ad_scores :: "action_score list"
  ad_detail :: string

definition score_of :: "action_decision \<Rightarrow> action \<Rightarrow> pyfloat option" where
  "score_of d a =
     (case List.find (\<lambda>s. sc_action s = a) (ad_scores d) of
        None \<Rightarrow> None
      | Some s \<Rightarrow> if feasible_score s then sc_q s else None)"

text \<open>A model answers with a number for each action, or not at all; an answer that misses one is none.\<close>

type_synonym action_model = "position_state \<Rightarrow> (action \<Rightarrow> pyfloat option) option"

record action_policy =
  min_edge :: pyfloat
  max_add_fraction :: pyfloat
  loaded_model :: "action_model option"

definition new_action_policy :: "pyfloat \<Rightarrow> pyfloat \<Rightarrow> action_policy" where
  "new_action_policy edge add = \<lparr>min_edge = max 0 edge, max_add_fraction = max 0 add, loaded_model = None\<rparr>"

definition load_model :: "action_model \<Rightarrow> action_policy \<Rightarrow> action_policy" where
  "load_model model P = P\<lparr>loaded_model := Some model\<rparr>"

definition model_scores :: "action_policy \<Rightarrow> position_state \<Rightarrow> (action \<Rightarrow> pyfloat) option" where
  "model_scores P s =
     (case loaded_model P of
        None \<Rightarrow> None
      | Some predict \<Rightarrow>
          (case predict s of
             None \<Rightarrow> None
           | Some raw \<Rightarrow> if list_all (\<lambda>a. raw a \<noteq> None) ALL_ACTIONS then Some (\<lambda>a. the (raw a)) else None))"

definition less_than :: "pyfloat option \<Rightarrow> pyfloat \<Rightarrow> pyfloat option" where
  "less_than v baseline = (case v of None \<Rightarrow> None | Some x \<Rightarrow> Some (fsub x baseline))"

definition plain_score :: "action \<Rightarrow> pyfloat option \<Rightarrow> action_score" where
  "plain_score a q = \<lparr>sc_action = a, sc_q = q, sc_ok = True, sc_detail = ''''\<rparr>"

definition gated_score :: "action \<Rightarrow> pyfloat option \<times> string \<Rightarrow> pyfloat \<Rightarrow> action_score" where
  "gated_score a v baseline =
     \<lparr>sc_action = a, sc_q = less_than (fst v) baseline, sc_ok = (fst v \<noteq> None), sc_detail = snd v\<rparr>"

definition analytic_scores :: "(pyfloat \<Rightarrow> pyfloat) \<Rightarrow> action_policy \<Rightarrow> position_state \<Rightarrow> pyfloat \<Rightarrow> action_score list" where
  "analytic_scores log_of P s baseline =
     [plain_score HOLD (Some 0)]
     @ map (\<lambda>a. plain_score a (less_than (bank_value log_of s (bank_fraction a)) baseline)) [BANK_10, BANK_25, BANK_50, BANK_75]
     @ [plain_score EXIT (less_than (map_option (\<lambda>v. fadd v (redeploy_bonus s)) (bank_value log_of s 1)) baseline),
        gated_score REPLACE (replace_value log_of s) baseline,
        gated_score ADD (add_value log_of (max_add_fraction P) s) baseline,
        gated_score REENTER (reenter_value log_of s) baseline,
        gated_score PROBE (probe_value log_of s) baseline,
        (if held_fraction s \<le> 0
         then \<lparr>sc_action = IGNORE, sc_q = Some 0, sc_ok = True, sc_detail = ''flat''\<rparr>
         else \<lparr>sc_action = IGNORE, sc_q = None, sc_ok = False, sc_detail = ''position is open''\<rparr>)]"

definition idle_action :: "position_state \<Rightarrow> action" where
  "idle_action s = (if held_fraction s \<le> 0 then IGNORE else HOLD)"

definition score_key :: "action_score \<Rightarrow> pyfloat" where
  "score_key s = (case sc_q s of None \<Rightarrow> 0 | Some q \<Rightarrow> q)"

definition settle_choice :: "pyfloat \<Rightarrow> action \<Rightarrow> action_score list \<Rightarrow> action_score list \<Rightarrow> action_decision" where
  "settle_choice edge idle eligible scores =
     (let best = first_max score_key eligible
      in if score_key best \<le> edge
         then \<lparr>ad_status = ''OK'', ad_action = idle, ad_q = 0, ad_scores = scores, ad_detail = ''no action clears the margin''\<rparr>
         else \<lparr>ad_status = ''OK'', ad_action = sc_action best, ad_q = score_key best, ad_scores = scores, ad_detail = ''''\<rparr>)"

definition blocked_decision :: "string \<Rightarrow> action_decision" where
  "blocked_decision why =
     \<lparr>ad_status = ''DATA_BLOCKED'', ad_action = HOLD, ad_q = 0, ad_scores = [], ad_detail = why\<rparr>"

definition score_actions :: "(pyfloat list \<Rightarrow> pyfloat) \<Rightarrow> (pyfloat \<Rightarrow> pyfloat) \<Rightarrow> action_policy \<Rightarrow> position_state \<Rightarrow> action_decision" where
  "score_actions sum_of log_of P s =
     (case state_blocked sum_of s of
        Some why \<Rightarrow> blocked_decision why
      | None \<Rightarrow>
          (case model_scores P s of
             Some q \<Rightarrow>
               let scores = map (\<lambda>a. plain_score a (Some (fsub (q a) (q HOLD)))) ALL_ACTIONS
               in settle_choice (min_edge P) HOLD scores scores
           | None \<Rightarrow>
               (case hold_value log_of s of
                  None \<Rightarrow> blocked_decision ''holding has no finite value; the state is not priceable''
                | Some baseline \<Rightarrow>
                    let scores = analytic_scores log_of P s baseline
                    in settle_choice (min_edge P) (idle_action s) (filter feasible_score scores) scores)))"


subsection \<open>What a score stands for\<close>

definition action_bins :: "position_state \<Rightarrow> action \<Rightarrow> return_bins" where
  "action_bins s a =
     (if a = REPLACE then the (replacement_bins s) else if a = REENTER then the (reentry_bins s) else forward_bins s)"

definition action_wealth :: "position_state \<Rightarrow> action \<Rightarrow> pyfloat \<Rightarrow> pyfloat" where
  "action_wealth s a =
     (if a = PROBE then entry_wealth s (the (probe_fraction s))
      else if a = REENTER then entry_wealth s (the (add_fraction s))
      else if a = ADD then add_wealth s (the (add_fraction s))
      else if a = REPLACE then replace_wealth s (the (replacement_fraction s))
      else if a \<in> {IGNORE, HOLD} then hold_wealth s
      else bank_wealth s (bank_fraction a))"

text \<open>What each action needs before it can be taken.\<close>

definition can_be_taken :: "action_policy \<Rightarrow> position_state \<Rightarrow> action \<Rightarrow> bool" where
  "can_be_taken P s a \<longleftrightarrow>
     (a \<in> {PROBE, REENTER} \<longrightarrow> held_fraction s \<le> 0)
     \<and> (a = PROBE \<longrightarrow> (\<exists>x. probe_fraction s = Some x \<and> 0 < x \<and> 0 \<le> fsub 1 x))
     \<and> (a = REENTER \<longrightarrow> reentry_bins s \<noteq> None \<and> (\<exists>x. add_fraction s = Some x \<and> 0 < x \<and> 0 \<le> fsub 1 x))
     \<and> (a = ADD \<longrightarrow> (\<exists>x. add_fraction s = Some x \<and> 0 < x \<and> x \<le> add_ceiling (max_add_fraction P) s
           \<and> 0 \<le> fsub (fsub 1 (held_fraction s)) x))
     \<and> (a = REPLACE \<longrightarrow> replacement_bins s \<noteq> None \<and> (\<exists>x. replacement_fraction s = Some x \<and> 0 < x
           \<and> x \<le> fadd (fmul (held_fraction s) (marked s)) (fsub 1 (held_fraction s)) \<and> 0 \<le> replace_cash s x))"

lemma log_sum_survives: "log_sum log_of wealth acc bins = Some v \<Longrightarrow> list_all (\<lambda>(p, gross). 0 < wealth gross) bins"
  by (induction log_of wealth acc bins rule: log_sum.induct) (auto split: if_splits)

lemma expected_log_survives: "expected_log log_of bins wealth = Some v \<Longrightarrow> list_all (\<lambda>(p, gross). 0 < wealth gross) bins"
  unfolding expected_log_def by (rule log_sum_survives)

definition meaning :: "(pyfloat \<Rightarrow> pyfloat) \<Rightarrow> action_policy \<Rightarrow> position_state \<Rightarrow> pyfloat \<Rightarrow> action_score \<Rightarrow> bool" where
  "meaning log_of P s baseline sc \<longleftrightarrow>
     can_be_taken P s (sc_action sc)
     \<and> (sc_action sc \<in> {HOLD, IGNORE} \<and> sc_q sc = Some 0
        \<or> sc_action sc \<notin> {HOLD, IGNORE} \<and>
          (\<exists>v. expected_log log_of (action_bins s (sc_action sc)) (action_wealth s (sc_action sc)) = Some v
             \<and> sc_q sc = Some (fsub (if sc_action sc = EXIT then fadd v (redeploy_bonus s) else v) baseline)))"

definition sound_score :: "(pyfloat \<Rightarrow> pyfloat) \<Rightarrow> action_policy \<Rightarrow> position_state \<Rightarrow> pyfloat \<Rightarrow> action_score \<Rightarrow> bool" where
  "sound_score log_of P s baseline sc \<longleftrightarrow>
     (feasible_score sc \<longrightarrow> meaning log_of P s baseline sc \<and> (sc_action sc = IGNORE \<longrightarrow> held_fraction s \<le> 0))"

lemmas sound_defs = sound_score_def feasible_score_def meaning_def can_be_taken_def less_than_def action_bins_def action_wealth_def

lemma replace_sound: "sound_score log_of P s baseline (gated_score REPLACE (replace_value log_of s) baseline)"
  by (simp add: gated_score_def sound_defs replace_value_def split: option.splits)

lemma add_sound: "sound_score log_of P s baseline (gated_score ADD (add_value log_of (max_add_fraction P) s) baseline)"
  by (simp add: gated_score_def sound_defs add_value_def split: option.splits)

lemma reenter_sound: "sound_score log_of P s baseline (gated_score REENTER (reenter_value log_of s) baseline)"
  by (simp add: gated_score_def sound_defs reenter_value_def split: option.splits)

lemma probe_sound: "sound_score log_of P s baseline (gated_score PROBE (probe_value log_of s) baseline)"
  by (simp add: gated_score_def sound_defs probe_value_def split: option.splits)

lemma bank_sound:
  "a \<in> {BANK_10, BANK_25, BANK_50, BANK_75} \<Longrightarrow>
     sound_score log_of P s baseline (plain_score a (less_than (bank_value log_of s (bank_fraction a)) baseline))"
proof -
  assume a: "a \<in> {BANK_10, BANK_25, BANK_50, BANK_75}"
  then have "can_be_taken P s a" "a \<notin> {HOLD, IGNORE, EXIT}" "action_bins s a = forward_bins s" "action_wealth s a = bank_wealth s (bank_fraction a)"
    by (elim insertE emptyE; simp add: can_be_taken_def action_bins_def action_wealth_def)+
  then show ?thesis
    by (cases "bank_value log_of s (bank_fraction a)")
       (simp_all add: plain_score_def sound_score_def meaning_def feasible_score_def less_than_def bank_value_def)
qed

lemma exit_sound:
  "sound_score log_of P s baseline
     (plain_score EXIT (less_than (map_option (\<lambda>v. fadd v (redeploy_bonus s)) (bank_value log_of s 1)) baseline))"
  by (simp add: plain_score_def sound_defs bank_value_def bank_fraction_def split: option.splits)

lemma hold_sound: "sound_score log_of P s baseline (plain_score HOLD (Some 0))"
  by (simp add: plain_score_def sound_defs)

lemma ignore_sound:
  "sound_score log_of P s baseline
     (if held_fraction s \<le> 0
      then \<lparr>sc_action = IGNORE, sc_q = Some 0, sc_ok = True, sc_detail = ''flat''\<rparr>
      else \<lparr>sc_action = IGNORE, sc_q = None, sc_ok = False, sc_detail = ''position is open''\<rparr>)"
  by (simp add: sound_defs)

lemma analytic_sound: "list_all (sound_score log_of P s baseline) (analytic_scores log_of P s baseline)"
  using bank_sound [of BANK_10] bank_sound [of BANK_25] bank_sound [of BANK_50] bank_sound [of BANK_75]
  unfolding analytic_scores_def list_all_append list.map list.pred_inject
  by (simp only: hold_sound exit_sound replace_sound add_sound reenter_sound probe_sound ignore_sound insert_iff simp_thms list.pred_inject)

lemma analytic_meaning:
  assumes "sc \<in> set (analytic_scores log_of P s baseline)" "feasible_score sc"
  shows "meaning log_of P s baseline sc \<and> (sc_action sc = IGNORE \<longrightarrow> held_fraction s \<le> 0)"
  using analytic_sound [of log_of P s baseline] assms by (simp add: list_all_iff sound_score_def)

lemma settle_choice_cases:
  assumes "settle_choice edge idle eligible scores = d" "eligible \<noteq> []"
  shows "ad_scores d = scores \<and> ad_status d = ''OK''
    \<and> (ad_action d = idle \<and> ad_q d = 0 \<and> (\<forall>sc\<in>set eligible. score_key sc \<le> edge)
       \<or> (\<exists>sc\<in>set eligible. ad_action d = sc_action sc \<and> ad_q d = score_key sc \<and> edge < score_key sc
            \<and> (\<forall>sc'\<in>set eligible. score_key sc' \<le> score_key sc)))"
  using assms first_max_in [OF assms(2), of score_key] first_max_ge [of _ eligible score_key]
  by (fastforce simp: settle_choice_def Let_def)

lemma analytic_choice:
  assumes "score_actions sum_of log_of P s = d" "loaded_model P = None" "ad_status d = ''OK''"
  obtains baseline where "hold_value log_of s = Some baseline" "state_blocked sum_of s = None"
    "d = settle_choice (min_edge P) (idle_action s) (filter feasible_score (analytic_scores log_of P s baseline))
       (analytic_scores log_of P s baseline)"
    "filter feasible_score (analytic_scores log_of P s baseline) \<noteq> []"
proof -
  have m: "model_scores P s = None" using assms(2) by (simp add: model_scores_def)
  have b: "state_blocked sum_of s = None"
    using assms(1,3) by (cases "state_blocked sum_of s") (auto simp: score_actions_def blocked_decision_def)
  obtain baseline where h: "hold_value log_of s = Some baseline"
    using assms(1,3) b m by (cases "hold_value log_of s") (auto simp: score_actions_def blocked_decision_def)
  have "filter feasible_score (analytic_scores log_of P s baseline) \<noteq> []"
    by (simp add: analytic_scores_def feasible_score_def plain_score_def)
  then show ?thesis using that h b assms(1) m by (simp add: score_actions_def Let_def)
qed

text \<open>
  C14: Without a trained model an action the policy chooses can be taken and is worth it: its sizes are within the
  cash, the ceiling and the proceeds, an entry only from a flat book; no outcome it is priced on leaves the book
  without wealth; its value is the expected log wealth it leads to less that of holding, it exceeds the margin,
  and no action that can be taken is worth more.  When none exceeds the margin the book is left alone.
\<close>
theorem chosen_action_is_best:
  assumes "score_actions sum_of log_of P s = d" "loaded_model P = None" "ad_status d = ''OK''" "0 \<le> min_edge P"
  shows "(\<forall>sc\<in>set (ad_scores d). feasible_score sc \<longrightarrow> score_key sc \<le> max (min_edge P) (ad_q d))
    \<and> (ad_action d = idle_action s \<and> ad_q d = 0
       \<or> can_be_taken P s (ad_action d) \<and> min_edge P < ad_q d \<and> ad_action d \<notin> {HOLD, IGNORE}
         \<and> list_all (\<lambda>(p, gross). 0 < action_wealth s (ad_action d) gross) (action_bins s (ad_action d))
         \<and> (\<exists>v baseline. expected_log log_of (action_bins s (ad_action d)) (action_wealth s (ad_action d)) = Some v
              \<and> hold_value log_of s = Some baseline
              \<and> ad_q d = fsub (if ad_action d = EXIT then fadd v (redeploy_bonus s) else v) baseline))"
proof -
  obtain baseline where h: "hold_value log_of s = Some baseline"
    and d: "settle_choice (min_edge P) (idle_action s) (filter feasible_score (analytic_scores log_of P s baseline))
       (analytic_scores log_of P s baseline) = d"
    and ne: "filter feasible_score (analytic_scores log_of P s baseline) \<noteq> []"
    using analytic_choice [OF assms(1-3)] by metis
  note c = settle_choice_cases [OF d ne]
  then consider "ad_action d = idle_action s" "ad_q d = 0"
      "\<forall>sc\<in>set (ad_scores d). feasible_score sc \<longrightarrow> score_key sc \<le> min_edge P"
    | sc where "sc \<in> set (analytic_scores log_of P s baseline)" "feasible_score sc" "ad_action d = sc_action sc"
        "ad_q d = score_key sc" "min_edge P < score_key sc"
        "\<forall>sc'\<in>set (ad_scores d). feasible_score sc' \<longrightarrow> score_key sc' \<le> score_key sc"
    by auto
  then show ?thesis
  proof cases
    case 1
    then show ?thesis by (simp add: max.coboundedI1)
  next
    case 2
    have m: "meaning log_of P s baseline sc" using analytic_meaning [OF 2(1,2)] by blast
    have "sc_action sc \<notin> {HOLD, IGNORE}" using m 2(5) assms(4) by (auto simp: meaning_def score_key_def)
    then obtain v where "can_be_taken P s (sc_action sc)"
      "expected_log log_of (action_bins s (sc_action sc)) (action_wealth s (sc_action sc)) = Some v"
      "sc_q sc = Some (fsub (if sc_action sc = EXIT then fadd v (redeploy_bonus s) else v) baseline)"
      using m unfolding meaning_def by blast
    then show ?thesis
      using 2 h expected_log_survives \<open>sc_action sc \<notin> {HOLD, IGNORE}\<close> by (auto simp: score_key_def max.coboundedI2)
  qed
qed

text \<open>
  A trained model replaces the analytic scores altogether, and with them the tests that an action can be taken:
  a model that likes a probe probes whatever is held, and one that likes nothing holds a flat book instead of
  ignoring it.
\<close>

lemma model_ignores_availability:
  assumes "state_blocked sum_of s = None"
  shows "ad_action (score_actions sum_of log_of
      (load_model (\<lambda>_. Some (\<lambda>a. Some (if a = PROBE then 1 else 0))) (new_action_policy 0 0)) s) = PROBE"
    and "ad_action (score_actions sum_of log_of (load_model (\<lambda>_. Some (\<lambda>a. Some 0)) (new_action_policy 0 0)) s) = HOLD"
  using assms
  by (simp_all add: score_actions_def model_scores_def load_model_def new_action_policy_def ALL_ACTIONS_def settle_choice_def
      plain_score_def first_max_def score_key_def fsub_def)

subsection \<open>Witness\<close>

definition flat_state :: position_state where
  "flat_state = \<lparr>held_fraction = 0, current_multiple = 1, forward_bins = [(1, 1)], exit_cost = 0, entry_cost = 0,
     exit_capacity_ratio = Some 1, escape_probability = Some 1, expected_remaining_seconds = None, alternative_growth = None,
     add_fraction = None, add_capacity_fraction = None, probe_fraction = Some 1, reentry_bins = None, replacement_bins = None,
     replacement_fraction = None\<rparr>"

text \<open>With a logarithm that only tells one from two, a sure doubling is probed for.\<close>

definition step_log :: "pyfloat \<Rightarrow> pyfloat" where
  "step_log x = (if x \<le> 1 then 0 else 1)"

lemma fl_2 [simp]: "fl 2 = 2"
  using fl_of_int [of 2] by simp

lemma flat_choice:
  "score_actions (\<lambda>xs. 1) step_log (new_action_policy 0 0) flat_state = d \<Longrightarrow>
     ad_status d = ''OK'' \<and> ad_action d = PROBE \<and> ad_q d = 1"
  by (auto simp: score_actions_def state_blocked_def is_close_def model_scores_def new_action_policy_def flat_state_def
      hold_value_def expected_log_def hold_wealth_def marked_def capture_def clip01_def step_log_def analytic_scores_def
      plain_score_def gated_score_def less_than_def bank_value_def bank_wealth_def redeploy_bonus_def replace_value_def
      add_value_def reenter_value_def probe_value_def entry_wealth_def settle_choice_def feasible_score_def first_max_def
      score_key_def fsub_def fadd_def fmul_def Let_def)

theorem chosen_action_is_best_witness:
  "0 < action_wealth flat_state PROBE 1"
  using chosen_action_is_best [OF refl, of "new_action_policy 0 0" "\<lambda>xs. 1" step_log flat_state]
    flat_choice [OF refl]
  by (simp add: new_action_policy_def action_bins_def flat_state_def)

end
