(* ===== verification/Base58.thy ===== *)
theory Base58
  imports Interfaces
begin

text \<open>
  The base58 codec of \<open>chains/yellowstone_grpc.py\<close> (\<open>b58encode\<close>, \<open>b58decode\<close>), the Python
  fallback of the native one.  Characters are the 58 bytes of \<open>B58_ALPHABET\<close>; big-endian integers
  are folds over the bytes.
\<close>

definition B58_ALPHABET :: string where
  "B58_ALPHABET = ''123456789ABCDEFGHJKLMNPQRSTUVWXYZabcdefghijkmnopqrstuvwxyz''"

text \<open>\<open>int.from_bytes(raw, "big")\<close>, and \<open>n.to_bytes(k, "big")\<close>.\<close>

definition be_val :: "bytes \<Rightarrow> nat" where
  "be_val raw = foldl (\<lambda>n b. n * 256 + unat b) 0 raw"

fun be_bytes :: "nat \<Rightarrow> nat \<Rightarrow> bytes" where
  "be_bytes 0 n = []"
| "be_bytes (Suc k) n = be_bytes k (n div 256) @ [of_nat (n mod 256)]"

text \<open>The \<open>divmod\<close> loop: remainders in the order they are appended.\<close>

fun b58_digits :: "nat \<Rightarrow> nat list" where
  "b58_digits number = (if number = 0 then [] else number mod 58 # b58_digits (number div 58))"

declare b58_digits.simps [simp del]

definition b58encode :: "bytes \<Rightarrow> string" where
  "b58encode raw =
     (let zeros = length raw - length (dropWhile (\<lambda>b. b = 0) raw)
      in replicate zeros (hd B58_ALPHABET) @ map ((!) B58_ALPHABET) (rev (b58_digits (be_val raw))))"

text \<open>\<open>B58_ALPHABET.index(char)\<close> raises where the character is not in the alphabet.\<close>

fun index_of :: "'a \<Rightarrow> 'a list \<Rightarrow> nat option" where
  "index_of c [] = None"
| "index_of c (x # xs) = (if x = c then Some 0 else map_option Suc (index_of c xs))"

fun b58_number :: "nat \<Rightarrow> string \<Rightarrow> nat option" where
  "b58_number number [] = Some number"
| "b58_number number (c # cs) =
     (case index_of c B58_ALPHABET of None \<Rightarrow> None | Some i \<Rightarrow> b58_number (number * 58 + i) cs)"

fun bit_length :: "nat \<Rightarrow> nat" where
  "bit_length n = (if n = 0 then 0 else Suc (bit_length (n div 2)))"

declare bit_length.simps [simp del]

definition b58decode :: "string \<Rightarrow> bytes option" where
  "b58decode value =
     (case b58_number 0 value of
        None \<Rightarrow> None
      | Some number \<Rightarrow>
          let raw = (if number \<noteq> 0 then be_bytes ((bit_length number + 7) div 8) number else []);
              zeros = length value - length (dropWhile (\<lambda>c. c = CHR ''1'') value)
          in Some (replicate zeros 0 @ raw))"

subsection \<open>The alphabet\<close>

lemma length_alphabet [simp]: "length B58_ALPHABET = 58"
  by (simp add: B58_ALPHABET_def)

lemma distinct_alphabet: "distinct B58_ALPHABET"
  unfolding B58_ALPHABET_def by code_simp

lemma hd_alphabet [simp]: "hd B58_ALPHABET = CHR ''1''"
  by (simp add: B58_ALPHABET_def)

lemma alphabet_0 [simp]: "B58_ALPHABET ! 0 = CHR ''1''"
  by (simp add: B58_ALPHABET_def)

lemma index_of_nth: "distinct xs \<Longrightarrow> i < length xs \<Longrightarrow> index_of (xs ! i) xs = Some i"
proof (induction xs arbitrary: i)
  case (Cons x xs)
  then show ?case by (cases i) auto
qed simp

lemma index_of_alphabet [simp]: "i < 58 \<Longrightarrow> index_of (B58_ALPHABET ! i) B58_ALPHABET = Some i"
  by (simp add: index_of_nth distinct_alphabet)

lemma alphabet_eq_1_iff: "i < 58 \<Longrightarrow> B58_ALPHABET ! i = CHR ''1'' \<longleftrightarrow> i = 0"
  using distinct_alphabet nth_eq_iff_index_eq [of B58_ALPHABET i 0] by simp

subsection \<open>Digits\<close>

lemma b58_digits_less: "d \<in> set (b58_digits n) \<Longrightarrow> d < 58"
proof (induction n rule: b58_digits.induct)
  case (1 n)
  then show ?case by (subst (asm) b58_digits.simps) (auto split: if_splits)
qed

lemma b58_digits_value: "foldr (\<lambda>d n. d + 58 * n) (b58_digits n) 0 = n"
proof (induction n rule: b58_digits.induct)
  case (1 n)
  then show ?case by (subst b58_digits.simps) simp
qed

lemma b58_digits_last: "b58_digits n \<noteq> [] \<Longrightarrow> last (b58_digits n) \<noteq> 0"
proof (induction n rule: b58_digits.induct)
  case (1 n)
  show ?case
  proof (cases "n = 0")
    case True
    then show ?thesis using 1 by (simp add: b58_digits.simps)
  next
    case False
    show ?thesis
    proof (cases "n div 58 = 0")
      case True
      then have "b58_digits n = [n]" using False by (simp add: b58_digits.simps [of n] b58_digits.simps [of 0])
      then show ?thesis using False by simp
    next
      case nz: False
      then have "b58_digits (n div 58) \<noteq> []" by (subst b58_digits.simps) simp
      then show ?thesis using 1(1)[OF False] False by (subst b58_digits.simps) simp
    qed
  qed
qed

lemma b58_number_map:
  "list_all (\<lambda>d. d < 58) ds \<Longrightarrow>
   b58_number n (map ((!) B58_ALPHABET) ds) = Some (foldl (\<lambda>n d. n * 58 + d) n ds)"
  by (induction ds arbitrary: n) auto

lemma b58_number_ones: "b58_number 0 (replicate k CHR ''1'' @ cs) = b58_number 0 cs"
proof (induction k)
  case (Suc k)
  have "index_of CHR ''1'' B58_ALPHABET = Some 0" using index_of_alphabet [of 0] by simp
  then show ?case using Suc by simp
qed simp

subsection \<open>Big-endian integers\<close>

lemma be_val_snoc [simp]: "be_val [] = 0" "be_val (xs @ [b]) = be_val xs * 256 + unat b"
  by (simp_all add: be_val_def)

lemma unat_u8_less [simp]: "unat (b :: u8) < 256"
  using unsigned_less [of b] by simp

lemma be_bytes_be_val: "be_bytes (length xs) (be_val xs) = xs"
proof (induction xs rule: rev_induct)
  case (snoc b xs)
  have "(be_val xs * 256 + unat b) div 256 = be_val xs" "(be_val xs * 256 + unat b) mod 256 = unat b"
    by simp_all
  then show ?case using snoc by simp
qed simp

lemma be_val_zeros: "be_val (replicate k 0 @ xs) = be_val xs"
proof -
  have "foldl (\<lambda>n b. n * 256 + unat b) 0 (replicate k (0::u8)) = 0" by (induction k) auto
  then show ?thesis by (simp add: be_val_def)
qed

lemma be_val_less: "be_val xs < 256 ^ length xs"
proof (induction xs rule: rev_induct)
  case (snoc b xs)
  have "be_val xs * 256 + unat b < (be_val xs + 1) * 256" by simp
  also have "\<dots> \<le> 256 ^ length xs * 256" using snoc by (intro mult_right_mono) auto
  finally show ?case by simp
qed simp

lemma be_val_ge: "xs \<noteq> [] \<Longrightarrow> hd xs \<noteq> 0 \<Longrightarrow> 256 ^ (length xs - 1) \<le> be_val xs"
proof (induction xs rule: rev_induct)
  case (snoc b xs)
  show ?case
  proof (cases xs)
    case Nil
    then have "0 < unat b" using snoc.prems by (simp add: unat_gt_0)
    then show ?thesis using Nil be_val_snoc(2) [of "[]" b] by simp
  next
    case (Cons y ys)
    then have "256 ^ (length xs - 1) \<le> be_val xs" using snoc by simp
    then have "256 ^ (length xs - 1) * 256 \<le> be_val xs * 256 + unat b" by simp
    then show ?thesis using Cons be_val_snoc(2) [of xs b] by (simp add: mult.commute)
  qed
qed simp

lemma bit_length_bounds: "0 < n \<Longrightarrow> 2 ^ (bit_length n - 1) \<le> n \<and> n < 2 ^ bit_length n"
proof (induction n rule: bit_length.induct)
  case (1 n)
  show ?case
  proof (cases "n div 2 = 0")
    case True
    then have "n = Suc 0" using 1(2) by simp
    then show ?thesis by (simp add: bit_length.simps [of "Suc 0"] bit_length.simps [of 0])
  next
    case False
    then have IH: "2 ^ (bit_length (n div 2) - 1) \<le> n div 2" "n div 2 < 2 ^ bit_length (n div 2)"
      using 1 by auto
    have "bit_length (n div 2) \<noteq> 0" using False by (simp add: bit_length.simps [of "n div 2"])
    then obtain k where k: "bit_length (n div 2) = Suc k" by (cases "bit_length (n div 2)") auto
    have "2 * 2 ^ k \<le> n" "n < 2 * (2 * 2 ^ k)" using IH k by simp_all
    then show ?thesis using 1(2) k by (simp add: bit_length.simps [of n])
  qed
qed

text \<open>The width the decoder chooses is the width of the bytes that were encoded.\<close>

lemma byte_width:
  assumes "0 < k" "256 ^ (k - 1) \<le> n" "n < 256 ^ k" shows "(bit_length n + 7) div 8 = k"
proof -
  have n: "0 < n" using assms(2) by (metis less_le_trans zero_less_numeral zero_less_power)
  note b = bit_length_bounds [OF n]
  have "(2::nat) ^ (8 * (k - 1)) < 2 ^ bit_length n"
    using assms(2) b by (simp add: power_mult) 
  then have lo: "8 * (k - 1) < bit_length n" by simp
  have "(2::nat) ^ (bit_length n - 1) < 2 ^ (8 * k)"
    using assms(3) b by (simp add: power_mult)
  then have "bit_length n - 1 < 8 * k" by simp
  then show ?thesis using lo assms(1) by linarith
qed


subsection \<open>Round trip\<close>

lemma takeWhile_zeros: "takeWhile (\<lambda>b. b = c) xs = replicate (length (takeWhile (\<lambda>b. b = c) xs)) c"
  by (induction xs) auto

lemma split_zeros:
  obtains z xs where "raw = replicate z 0 @ (xs :: bytes)" "xs = [] \<or> hd xs \<noteq> 0"
    "length raw - length (dropWhile (\<lambda>b. b = 0) raw) = z"
proof
  let ?t = "takeWhile (\<lambda>b. b = 0) raw" and ?d = "dropWhile (\<lambda>b. b = 0) raw"
  have "raw = ?t @ ?d" by simp
  then show "raw = replicate (length ?t) 0 @ ?d" using takeWhile_zeros [of 0 raw] by metis
  show "?d = [] \<or> hd ?d \<noteq> 0" using hd_dropWhile [of "\<lambda>b. b = 0" raw] by blast
  have "length raw = length ?t + length ?d" by (metis length_append takeWhile_dropWhile_id)
  then show "length raw - length ?d = length ?t" by simp
qed

lemma dropWhile_replicate_append:
  "cs = [] \<or> hd cs \<noteq> c \<Longrightarrow> dropWhile (\<lambda>x. x = c) (replicate z c @ cs) = cs"
  by (induction z) (auto simp: dropWhile_eq_self_iff)

lemma b58_digits_number:
  "b58_number 0 (map ((!) B58_ALPHABET) (rev (b58_digits n))) = Some n"
proof -
  have "list_all (\<lambda>d. d < 58) (rev (b58_digits n))"
    using b58_digits_less by (auto simp: list_all_iff)
  then have "b58_number 0 (map ((!) B58_ALPHABET) (rev (b58_digits n))) =
      Some (foldl (\<lambda>n d. n * 58 + d) 0 (rev (b58_digits n)))" by (rule b58_number_map)
  also have "foldl (\<lambda>n d. n * 58 + d) 0 (rev (b58_digits n)) = foldr (\<lambda>d n. d + 58 * n) (b58_digits n) 0"
    by (simp add: foldl_conv_foldr mult.commute add.commute)
  finally show ?thesis by (simp only: b58_digits_value)
qed

lemma b58_text_start:
  assumes "0 < n"
  shows "map ((!) B58_ALPHABET) (rev (b58_digits n)) \<noteq> []"
    and "hd (map ((!) B58_ALPHABET) (rev (b58_digits n))) \<noteq> CHR ''1''"
proof -
  have ne: "b58_digits n \<noteq> []" using assms by (subst b58_digits.simps) simp
  then show "map ((!) B58_ALPHABET) (rev (b58_digits n)) \<noteq> []" by simp
  have "hd (map ((!) B58_ALPHABET) (rev (b58_digits n))) = B58_ALPHABET ! last (b58_digits n)"
    using ne by (simp add: hd_map hd_rev)
  then show "hd (map ((!) B58_ALPHABET) (rev (b58_digits n))) \<noteq> CHR ''1''"
    using ne b58_digits_last [OF ne] b58_digits_less [of "last (b58_digits n)" n]
    by (simp add: alphabet_eq_1_iff)
qed

lemma b58decode_b58encode: "b58decode (b58encode raw) = Some raw"
proof -
  obtain z xs where raw: "raw = replicate z 0 @ xs" and xs: "xs = [] \<or> hd xs \<noteq> 0"
    and z: "length raw - length (dropWhile (\<lambda>b. b = 0) raw) = z" by (rule split_zeros)
  let ?n = "be_val xs" and ?t = "map ((!) B58_ALPHABET) (rev (b58_digits (be_val xs)))"
  have enc: "b58encode raw = replicate z CHR ''1'' @ ?t"
    using z by (simp add: b58encode_def Let_def) (simp add: raw be_val_zeros)
  have number: "b58_number 0 (b58encode raw) = Some ?n"
    by (simp only: enc b58_number_ones b58_digits_number)
  have start: "?t = [] \<or> hd ?t \<noteq> CHR ''1''"
    using b58_text_start [of ?n] by (cases "?n = 0") (auto simp: b58_digits.simps [of 0])
  have zeros: "length (b58encode raw) - length (dropWhile (\<lambda>c. c = CHR ''1'') (b58encode raw)) = z"
    by (simp only: enc dropWhile_replicate_append [OF start]) simp
  have body: "(if ?n \<noteq> 0 then be_bytes ((bit_length ?n + 7) div 8) ?n else []) = xs"
  proof (cases "xs = []")
    case False
    then have ge: "256 ^ (length xs - 1) \<le> ?n" using xs be_val_ge by blast
    then have "?n \<noteq> 0" by (metis le_zero_eq power_not_zero zero_neq_numeral)
    moreover have "(bit_length ?n + 7) div 8 = length xs"
      using False ge be_val_less by (intro byte_width) auto
    ultimately show ?thesis by (simp add: be_bytes_be_val)
  qed simp
  show ?thesis
    unfolding b58decode_def number by (simp only: option.case Let_def zeros body raw [symmetric])
qed

lemma b58encode_inj: "b58encode a = b58encode b \<Longrightarrow> a = b"
  by (metis b58decode_b58encode option.inject)

end
