(* ===== verification/LandingModel.thy ===== *)
theory LandingModel
  imports Interfaces PyText
begin

text \<open>
  \<open>execution/landing_model.py\<close>: the landing curve over the desk's own attempts.  A bounded window of
  attempts with counters kept beside it; the lemmas show that the counters are exactly the counts of the
  window, over every history and across a restart, and that a recommendation is the best measured bid.
\<close>

subsection \<open>Buckets\<close>

definition BID_BUCKETS :: "int list" where
  "BID_BUCKETS = [0, 10000, 50000, 100000, 250000, 500000, 1000000, 2500000, 5000000]"

definition CONTENTION_BUCKETS :: "int list" where
  "CONTENTION_BUCKETS = [0, 1, 3, 8, 20]"

definition CONGESTION_BUCKETS :: "(string \<times> pyfloat) list" where
  "CONGESTION_BUCKETS = [(''calm'', fl (33/100)), (''busy'', fl (66/100)), (''contested'', fl (101/100))]"

text \<open>The loop both integer buckets run: the last bound reached, or the first one.\<close>

definition last_reached :: "int list \<Rightarrow> int \<Rightarrow> int" where
  "last_reached bounds v = foldl (\<lambda>chosen b. if b \<le> v then b else chosen) (hd bounds) bounds"

definition bid_bucket :: "int \<Rightarrow> int" where
  "bid_bucket lamports = last_reached BID_BUCKETS lamports"

definition contention_bucket :: "int option \<Rightarrow> int" where
  "contention_bucket writers = (case writers of None \<Rightarrow> -1 | Some w \<Rightarrow> last_reached CONTENTION_BUCKETS w)"

definition congestion_bucket :: "pyfloat option \<Rightarrow> string" where
  "congestion_bucket congestion =
     (case congestion of
        None \<Rightarrow> ''unknown''
      | Some c \<Rightarrow>
          (case find (\<lambda>(name, upper). min (max c 0) 1 < upper) CONGESTION_BUCKETS of
             Some (name, upper) \<Rightarrow> name
           | None \<Rightarrow> fst (last CONGESTION_BUCKETS)))"

subsection \<open>Attempts\<close>

record landing_attempt =
  at_bid :: int
  at_landed :: bool
  at_congestion :: "pyfloat option"
  at_route :: string
  at_region :: string
  at_latency_ms :: int
  at_leader :: string
  at_slot :: "int option"
  at_compute_units :: int
  at_tip :: int
  at_hash_age :: "int option"
  at_contention :: "int option"
  at_slot_value :: "pyfloat option"
  at_real :: bool
  at_submitted :: pyfloat
  at_landed_at :: "pyfloat option"
  at_signature :: string
  at_failure :: string

record landing_estimate =
  est_status :: string
  est_probability :: "pyfloat option"
  est_attempts :: int
  est_bucket :: int
  est_congestion :: string
  est_detail :: string

record bid_recommendation =
  rec_status :: string
  rec_bid :: int
  rec_value :: "pyfloat option"
  rec_probability :: "pyfloat option"
  rec_detail :: string
  rec_fallback :: bool

subsection \<open>The model\<close>

text \<open>A counter cell is \<open>[attempts, landed]\<close>; \<open>log\<close> holds the rows of the durable log, if there is one.\<close>

type_synonym counts = "int \<times> int"

record landing_model =
  capacity :: nat
  min_bucket :: int
  window :: "landing_attempt list"
  bid_counts :: "(string \<times> int, counts) dict"
  route_counts :: "(string, counts) dict"
  leader_counts :: "(string, counts) dict"
  contention_counts :: "(int \<times> int, counts) dict"
  durable :: bool
  appended :: nat
  log_rows :: "landing_attempt option list"
  real_fills :: nat
  paper_attempts :: nat

definition new_landing_model :: "int \<Rightarrow> int \<Rightarrow> bool \<Rightarrow> landing_attempt option list \<Rightarrow> landing_model" where
  "new_landing_model cap least has_path rows =
     \<lparr>capacity = nat (max 1 cap), min_bucket = max 1 least, window = [], bid_counts = [], route_counts = [],
      leader_counts = [], contention_counts = [], durable = has_path, appended = 0, log_rows = rows,
      real_fills = 0, paper_attempts = 0\<rparr>"

definition add_count :: "'k \<Rightarrow> bool \<Rightarrow> ('k, counts) dict \<Rightarrow> ('k, counts) dict" where
  "add_count k ok d = (case dget_or d k (0, 0) of (seen, landed) \<Rightarrow> dput k (seen + 1, landed + of_bool ok) d)"

definition drop_count :: "'k \<Rightarrow> bool \<Rightarrow> ('k, counts) dict \<Rightarrow> ('k, counts) dict" where
  "drop_count k ok d =
     (case dget_or d k (0, 0) of (seen, landed) \<Rightarrow> dput k (max 0 (seen - 1), max 0 (landed - of_bool ok)) d)"

definition bid_key :: "landing_attempt \<Rightarrow> string \<times> int" where
  "bid_key a = (congestion_bucket (at_congestion a), bid_bucket (at_bid a))"

definition contention_key :: "landing_attempt \<Rightarrow> int \<times> int" where
  "contention_key a = (contention_bucket (at_contention a), bid_bucket (at_bid a))"

text \<open>
  \<open>_append\<close>: a write that fails is swallowed and not counted.  \<open>writes\<close> says whether the disk takes
  this row.
\<close>

definition append_row :: "bool \<Rightarrow> landing_attempt \<Rightarrow> landing_model \<Rightarrow> landing_model" where
  "append_row writes a M =
     (if durable M \<and> writes then M\<lparr>log_rows := log_rows M @ [Some a], appended := appended M + 1\<rparr> else M)"

definition record_landing_attempt :: "bool \<Rightarrow> landing_attempt \<Rightarrow> landing_model \<Rightarrow> landing_model" where
  "record_landing_attempt writes a M =
     (let counts = (if length (window M) = capacity M
                    then drop_count (bid_key (hd (window M))) (at_landed (hd (window M))) (bid_counts M)
                    else bid_counts M)
      in append_row writes a
           (M\<lparr>window := push_bounded (capacity M) a (window M),
              real_fills := real_fills M + (if at_real a then 1 else 0),
              paper_attempts := paper_attempts M + (if at_real a then 0 else 1),
              bid_counts := add_count (bid_key a) (at_landed a) counts,
              route_counts := (if at_route a \<noteq> '''' then add_count (at_route a) (at_landed a) (route_counts M)
                               else route_counts M),
              leader_counts := (if at_leader a \<noteq> '''' then add_count (at_leader a) (at_landed a) (leader_counts M)
                                else leader_counts M),
              contention_counts := (if at_contention a \<noteq> None
                                    then add_count (contention_key a) (at_landed a) (contention_counts M)
                                    else contention_counts M)\<rparr>))"

text \<open>
  \<open>load\<close>: the readable rows of the log, the last \<open>capacity\<close> of them replayed without writing; the
  lifetime counters are those of the whole log.  A \<open>None\<close> row is a line that does not parse.
\<close>

definition readable_rows :: "landing_attempt option list \<Rightarrow> landing_attempt list" where
  "readable_rows rows = concat (map (\<lambda>r. case r of None \<Rightarrow> [] | Some a \<Rightarrow> [a]) rows)"

definition load_log :: "bool \<Rightarrow> landing_model \<Rightarrow> nat \<times> landing_model" where
  "load_log log_exists M =
     (if \<not> durable M \<or> \<not> log_exists then (0, M)
      else
        let rows = readable_rows (log_rows M);
            keep = drop (length rows - capacity M) rows;
            replayed = foldl (\<lambda>m a. record_landing_attempt True a m) (M\<lparr>durable := False\<rparr>) keep;
            real = length (filter at_real rows)
        in (length keep,
            replayed\<lparr>durable := True, real_fills := real, paper_attempts := length rows - real\<rparr>))"

subsection \<open>Questions\<close>

definition pooled_counts :: "int \<Rightarrow> (string \<times> int, counts) dict \<Rightarrow> counts" where
  "pooled_counts bucket d =
     (let cells = filter (\<lambda>((name, bid), c). bid = bucket) d
      in (sum_list (map (fst \<circ> snd) cells), sum_list (map (snd \<circ> snd) cells)))"

definition measured_estimate :: "counts \<Rightarrow> int \<Rightarrow> string \<Rightarrow> landing_estimate" where
  "measured_estimate c bucket label =
     \<lparr>est_status = ''OK'', est_probability = Some (int_div (snd c) (fst c)), est_attempts = fst c,
      est_bucket = bucket, est_congestion = label, est_detail = ''''\<rparr>"

definition landing_probability :: "landing_model \<Rightarrow> int \<Rightarrow> pyfloat option \<Rightarrow> landing_estimate" where
  "landing_probability M lamports congestion =
     (let bucket = bid_bucket lamports;
          name = congestion_bucket congestion;
          cell = dget_or (bid_counts M) (name, bucket) (0, 0);
          unknown = dget_or (bid_counts M) (''unknown'', bucket) (0, 0);
          pooled = pooled_counts bucket (bid_counts M)
      in if min_bucket M \<le> fst cell then measured_estimate cell bucket name
         else if min_bucket M \<le> fst unknown then measured_estimate unknown bucket ''unconditioned''
         else if min_bucket M \<le> fst pooled then measured_estimate pooled bucket ''pooled''
         else \<lparr>est_status = ''DATA_BLOCKED'', est_probability = None, est_attempts = fst pooled,
               est_bucket = bucket, est_congestion = name,
               est_detail = ''need '' @ int_str (min_bucket M) @ '' attempts at this bid, have '' @ int_str (fst pooled)\<rparr>)"

definition leader_effect :: "landing_model \<Rightarrow> string \<Rightarrow> pyfloat option" where
  "leader_effect M leader =
     (case dget (leader_counts M) leader of
        None \<Rightarrow> None
      | Some (seen, landed) \<Rightarrow>
          if seen < min_bucket M then None
          else
            let attempts = sum_list (map (fst \<circ> snd) (leader_counts M));
                all_landed = sum_list (map (snd \<circ> snd) (leader_counts M));
                fleet = int_div all_landed attempts
            in if attempts < min_bucket M \<or> all_landed \<le> 0 \<or> fleet \<le> 0 then None
               else Some (fdiv (int_div landed seen) fleet))"

definition contention_probability :: "landing_model \<Rightarrow> int \<Rightarrow> int option \<Rightarrow> landing_estimate" where
  "contention_probability M lamports writers =
     (let bucket = contention_bucket writers;
          cell = dget_or (contention_counts M) (bucket, bid_bucket lamports) (0, 0)
      in if 0 \<le> bucket \<and> min_bucket M \<le> fst cell
         then measured_estimate cell (bid_bucket lamports) (''contention>='' @ int_str bucket)
         else landing_probability M lamports None)"

text \<open>\<open>recommend\<close>: the loop over the bid buckets keeps the best \<open>(value, bid, probability)\<close> seen.\<close>

definition bid_value :: "pyfloat \<Rightarrow> pyfloat \<Rightarrow> int \<Rightarrow> pyfloat \<Rightarrow> pyfloat" where
  "bid_value edge sol_price bid p =
     fsub (fmul p edge) (fmul (fdiv (float_of_int bid) 1000000000) sol_price)"

definition measured_bids :: "landing_model \<Rightarrow> pyfloat option \<Rightarrow> int \<Rightarrow> (int \<times> pyfloat) list" where
  "measured_bids M congestion max_bid =
     concat (map (\<lambda>bid. let e = landing_probability M bid congestion
                        in if est_status e = ''OK'' then (case est_probability e of None \<Rightarrow> [] | Some p \<Rightarrow> [(bid, p)])
                           else [])
              (takeWhile (\<lambda>bid. bid \<le> max_bid) BID_BUCKETS))"

definition better_bid :: "pyfloat \<Rightarrow> pyfloat \<Rightarrow> (pyfloat \<times> int \<times> pyfloat) option \<Rightarrow> int \<times> pyfloat
    \<Rightarrow> (pyfloat \<times> int \<times> pyfloat) option" where
  "better_bid edge sol_price best bp =
     (let value = bid_value edge sol_price (fst bp) (snd bp)
      in case best of
           None \<Rightarrow> Some (value, bp)
         | Some b \<Rightarrow> if fst b < value then Some (value, bp) else best)"

definition best_bid :: "pyfloat \<Rightarrow> pyfloat \<Rightarrow> (int \<times> pyfloat) list \<Rightarrow> (pyfloat \<times> int \<times> pyfloat) option" where
  "best_bid edge sol_price bids = foldl (better_bid edge sol_price) None bids"

definition recommend :: "landing_model \<Rightarrow> pyfloat \<Rightarrow> pyfloat \<Rightarrow> pyfloat option \<Rightarrow> int \<Rightarrow> bid_recommendation" where
  "recommend M edge sol_price congestion max_bid =
     (if edge \<le> 0 \<or> sol_price \<le> 0
      then \<lparr>rec_status = ''REJECTED'', rec_bid = 0, rec_value = None, rec_probability = None,
            rec_detail = ''no edge to bid for'', rec_fallback = False\<rparr>
      else
        let bids = measured_bids M congestion max_bid
        in case best_bid edge sol_price bids of
             None \<Rightarrow>
               \<lparr>rec_status = ''DATA_BLOCKED'', rec_bid = 0, rec_value = None, rec_probability = None,
                rec_detail = ''no bid bucket has '' @ int_str (min_bucket M) @ '' attempts yet'', rec_fallback = True\<rparr>
           | Some (value, bid, p) \<Rightarrow>
               if value \<le> 0
               then \<lparr>rec_status = ''OK'', rec_bid = 0, rec_value = Some value, rec_probability = Some p,
                     rec_detail = ''no bid clears its own cost at this edge'', rec_fallback = False\<rparr>
               else \<lparr>rec_status = ''OK'', rec_bid = bid, rec_value = Some value, rec_probability = Some p,
                     rec_detail = int_str (int (length bids)) @ '' measured buckets'', rec_fallback = False\<rparr>)"

subsection \<open>Buckets are the last bound reached\<close>

lemma bid_bucket_cases:
  "bid_bucket v \<in> set BID_BUCKETS \<and> (0 \<le> v \<longrightarrow> bid_bucket v \<le> v) \<and> (\<forall>b\<in>set BID_BUCKETS. b \<le> v \<longrightarrow> b \<le> bid_bucket v)"
  by (auto simp: bid_bucket_def last_reached_def BID_BUCKETS_def)

lemma bid_bucket_idem [simp]: "b \<in> set BID_BUCKETS \<Longrightarrow> bid_bucket b = b"
  by (auto simp: bid_bucket_def last_reached_def BID_BUCKETS_def)

lemma congestion_bucket_names:
  "congestion_bucket c \<in> {''unknown'', ''calm'', ''busy'', ''contested''}"
  by (auto simp: congestion_bucket_def CONGESTION_BUCKETS_def split: option.split)

subsection \<open>Counter cells\<close>

lemma dget_or_add_count:
  "dget_or (add_count k ok d) k' (0, 0) =
     (if k' = k then (fst (dget_or d k (0, 0)) + 1, snd (dget_or d k (0, 0)) + of_bool ok) else dget_or d k' (0, 0))"
  by (simp add: add_count_def dget_or_def split: prod.split)

lemma dget_or_drop_count:
  "dget_or (drop_count k ok d) k' (0, 0) =
     (if k' = k then (max 0 (fst (dget_or d k (0, 0)) - 1), max 0 (snd (dget_or d k (0, 0)) - of_bool ok))
      else dget_or d k' (0, 0))"
  by (simp add: drop_count_def dget_or_def split: prod.split)

lemma distinct_add_count [simp]: "distinct (dkeys d) \<Longrightarrow> distinct (dkeys (add_count k ok d))"
  by (simp add: add_count_def split: prod.split)

lemma distinct_drop_count [simp]: "distinct (dkeys d) \<Longrightarrow> distinct (dkeys (drop_count k ok d))"
  by (simp add: drop_count_def split: prod.split)

text \<open>What a cell should say: how many of a list of attempts have a property, and how many of those landed.\<close>

definition tally :: "(landing_attempt \<Rightarrow> bool) \<Rightarrow> landing_attempt list \<Rightarrow> counts" where
  "tally P xs = (int (length (filter P xs)), int (length (filter (\<lambda>a. P a \<and> at_landed a) xs)))"

lemma tally_simps [simp]:
  "tally P [] = (0, 0)"
  "tally P (xs @ ys) = (fst (tally P xs) + fst (tally P ys), snd (tally P xs) + snd (tally P ys))"
  "tally P (a # xs) = (if P a then (fst (tally P xs) + 1, snd (tally P xs) + of_bool (at_landed a)) else tally P xs)"
  by (simp_all add: tally_def)

lemma tally_nonneg: "0 \<le> snd (tally P xs)" "snd (tally P xs) \<le> fst (tally P xs)"
  by (simp_all add: tally_def flip: filter_filter)

lemma fst_tally_nonneg [simp]: "0 \<le> fst (tally P xs)"
  by (simp add: tally_def)

definition counts_are :: "('k, counts) dict \<Rightarrow> (landing_attempt \<Rightarrow> 'k option) \<Rightarrow> landing_attempt list \<Rightarrow> bool" where
  "counts_are d key xs \<longleftrightarrow>
     distinct (dkeys d) \<and> (\<forall>k. dget_or d k (0, 0) = tally (\<lambda>a. key a = Some k) xs)"

lemma counts_areD: "counts_are d key xs \<Longrightarrow> dget_or d k (0, 0) = tally (\<lambda>a. key a = Some k) xs"
  by (simp add: counts_are_def)

lemma counts_are_empty [simp]: "counts_are [] key []"
  by (simp add: counts_are_def dget_or_def)

lemma counts_are_add: "counts_are d key xs \<Longrightarrow> key a = Some k \<Longrightarrow> counts_are (add_count k (at_landed a) d) key (xs @ [a])"
  by (auto simp: counts_are_def dget_or_add_count prod_eq_iff)

lemma counts_are_skip: "counts_are d key xs \<Longrightarrow> key a = None \<Longrightarrow> counts_are d key (xs @ [a])"
  by (auto simp: counts_are_def prod_eq_iff)

lemma counts_are_drop:
  assumes "counts_are d key (a # xs)" "key a = Some k"
  shows "counts_are (drop_count k (at_landed a) d) key xs"
  using assms tally_nonneg [of "\<lambda>a. key a = Some k" xs]
  by (auto simp: counts_are_def dget_or_drop_count prod_eq_iff)

subsection \<open>The counters are the counts of the window\<close>

definition lifetime :: "landing_model \<Rightarrow> landing_attempt list \<Rightarrow> bool" where
  "lifetime M xs \<longleftrightarrow>
     0 < capacity M \<and> 1 \<le> min_bucket M
     \<and> window M = drop (length xs - capacity M) xs
     \<and> counts_are (bid_counts M) (\<lambda>a. Some (bid_key a)) (window M)"

definition lifetime_totals :: "landing_model \<Rightarrow> landing_attempt list \<Rightarrow> bool" where
  "lifetime_totals M xs \<longleftrightarrow>
     counts_are (route_counts M) (\<lambda>a. if at_route a = '''' then None else Some (at_route a)) xs
     \<and> counts_are (leader_counts M) (\<lambda>a. if at_leader a = '''' then None else Some (at_leader a)) xs
     \<and> counts_are (contention_counts M) (\<lambda>a. if at_contention a = None then None else Some (contention_key a)) xs
     \<and> real_fills M = length (filter at_real xs) \<and> paper_attempts M + real_fills M = length xs"

lemma push_bounded_drop: "push_bounded n a (drop (length xs - n) xs) = drop (Suc (length xs) - n) (xs @ [a])"
proof (cases "length xs < n")
  case True
  then show ?thesis by (simp add: push_bounded_def evict_oldest_drop)
next
  case False
  then have "Suc (length xs) - n = Suc (length xs - n)" "length xs - (length xs - n) = n" by simp_all
  then show ?thesis by (simp add: push_bounded_def evict_oldest_drop drop_append Suc_diff_le)
qed

lemma append_row_keeps [simp]:
  "window (append_row w a M) = window M" "bid_counts (append_row w a M) = bid_counts M"
  "capacity (append_row w a M) = capacity M" "min_bucket (append_row w a M) = min_bucket M"
  "route_counts (append_row w a M) = route_counts M" "leader_counts (append_row w a M) = leader_counts M"
  "contention_counts (append_row w a M) = contention_counts M" "real_fills (append_row w a M) = real_fills M"
  "paper_attempts (append_row w a M) = paper_attempts M" "durable (append_row w a M) = durable M"
  by (simp_all add: append_row_def)

lemma append_row_lifetime [simp]:
  "lifetime (append_row w a M) xs = lifetime M xs" "lifetime_totals (append_row w a M) xs = lifetime_totals M xs"
  by (simp_all only: lifetime_def lifetime_totals_def append_row_keeps)

lemma record_attempt_lifetime:
  assumes "lifetime M xs"
  shows "lifetime (record_landing_attempt w a M) (xs @ [a])"
proof -
  let ?n = "capacity M" and ?key = "\<lambda>a. Some (bid_key a)"
  have n: "0 < ?n" and win: "window M = drop (length xs - ?n) xs" and c: "counts_are (bid_counts M) ?key (window M)"
    using assms unfolding lifetime_def by blast+
  let ?d = "if length (window M) = ?n then drop_count (bid_key (hd (window M))) (at_landed (hd (window M))) (bid_counts M)
            else bid_counts M"
  have pushed: "push_bounded ?n a (window M) = drop (length (window M) + 1 - ?n) (window M) @ [a]"
    using n by (auto simp: push_bounded_def evict_oldest_drop)
  have len: "length (window M) \<le> ?n" using win by simp
  have "counts_are ?d ?key (drop (length (window M) + 1 - ?n) (window M))"
  proof (cases "length (window M) = ?n")
    case True
    then obtain b rest where w: "window M = b # rest" using n by (cases "window M") auto
    from c have "counts_are (drop_count (bid_key b) (at_landed b) (bid_counts M)) ?key rest"
      unfolding w by (rule counts_are_drop) simp
    then show ?thesis using True w n by simp
  next
    case False
    then have "length (window M) + 1 - ?n = 0" using len by simp
    then show ?thesis using False c by simp
  qed
  then have "counts_are (add_count (bid_key a) (at_landed a) ?d) ?key (push_bounded ?n a (window M))"
    unfolding pushed by (rule counts_are_add) simp
  moreover have "push_bounded ?n a (window M) = drop (length (xs @ [a]) - ?n) (xs @ [a])"
    using push_bounded_drop [of ?n a xs] win by simp
  ultimately show ?thesis using assms by (simp add: record_landing_attempt_def lifetime_def)
qed

lemma record_attempt_totals: "lifetime_totals M xs \<Longrightarrow> lifetime_totals (record_landing_attempt w a M) (xs @ [a])"
  by (auto simp: record_landing_attempt_def lifetime_totals_def intro: counts_are_add counts_are_skip)

text \<open>A record event is an attempt and whether the disk takes its row.\<close>

definition record_step :: "landing_model \<Rightarrow> bool \<times> landing_attempt \<Rightarrow> landing_model" where
  "record_step M e = record_landing_attempt (fst e) (snd e) M"

lemma record_step_keeps [simp]:
  "capacity (record_step M e) = capacity M" "min_bucket (record_step M e) = min_bucket M"
  "durable (record_step M e) = durable M"
  by (simp_all add: record_step_def record_landing_attempt_def)

lemma run_record_keeps [simp]:
  "capacity (run record_step M es) = capacity M" "min_bucket (run record_step M es) = min_bucket M"
  "durable (run record_step M es) = durable M"
  by (induction es arbitrary: M) simp_all

lemma run_record:
  "lifetime M xs \<Longrightarrow> lifetime (run record_step M es) (xs @ map snd es)"
  "lifetime_totals M xs \<Longrightarrow> lifetime_totals (run record_step M es) (xs @ map snd es)"
proof (induction es arbitrary: M xs)
  case (Cons e es)
  { case 1 show ?case
      using Cons.IH(1) [OF record_attempt_lifetime [OF 1, of "fst e" "snd e"]] by (simp add: record_step_def) }
  { case 2 show ?case
      using Cons.IH(2) [OF record_attempt_totals [OF 2, of "fst e" "snd e"]] by (simp add: record_step_def) }
qed simp_all

lemma new_lifetime [simp]:
  "lifetime (new_landing_model cap least d rows) []" "lifetime_totals (new_landing_model cap least d rows) []"
  by (simp_all add: lifetime_def lifetime_totals_def new_landing_model_def)

text \<open>No history of attempts lowers the lifetime count of real fills.\<close>

interpretation landing: counting_machine record_step "\<lambda>M. \<exists>xs. lifetime M xs \<and> lifetime_totals M xs" "\<lambda>M. int (real_fills M)"
proof
  show "\<exists>xs. lifetime (record_step M e) xs \<and> lifetime_totals (record_step M e) xs"
    if "\<exists>xs. lifetime M xs \<and> lifetime_totals M xs" for M e
    using that record_attempt_lifetime record_attempt_totals unfolding record_step_def by blast
  show "int (real_fills M) \<le> int (real_fills (record_step M e))" for M e
    by (simp add: record_step_def record_landing_attempt_def)
qed

lemma real_fills_monotone:
  "real_fills (run record_step (new_landing_model cap least d rows) es)
     \<le> real_fills (run record_step (new_landing_model cap least d rows) (es @ es'))"
proof -
  let ?M = "run record_step (new_landing_model cap least d rows) es"
  have "\<exists>xs. lifetime ?M xs \<and> lifetime_totals ?M xs" using run_record new_lifetime by blast
  from landing.run_count_mono [OF this, of es'] show ?thesis by simp
qed

subsection \<open>What an estimate rests on\<close>

text \<open>Summing the cells of a bucket counts the attempts of that bucket.\<close>

lemma sum_cells:
  assumes "distinct (dkeys d)"
  shows "(\<Sum>kc\<leftarrow>filter (\<lambda>kc. Q (fst kc)) d. f (snd kc)) = (\<Sum>k\<in>{k \<in> set (dkeys d). Q k}. f (dget_or d k c0))"
  using assms
proof (induction d)
  case (Cons kc d)
  obtain k c where kc: "kc = (k, c)" by fastforce
  have k: "k \<notin> set (dkeys d)" and d: "distinct (dkeys d)" using Cons.prems kc by simp_all
  have same: "dget_or ((k, c) # d) k' c0 = dget_or d k' c0" if "k' \<in> set (dkeys d)" for k'
    using that k by (auto simp: dget_or_def)
  have "{k' \<in> set (dkeys ((k, c) # d)). Q k'} = (if Q k then insert k {k' \<in> set (dkeys d). Q k'} else {k' \<in> set (dkeys d). Q k'})"
    by auto
  then show ?case using Cons.IH [OF d] k same by (auto simp: kc dget_or_def [of "(k, c) # d" k] intro!: sum.cong)
qed simp

lemma tally_sum:
  assumes "finite K" "\<And>a k. a \<in> set xs \<Longrightarrow> key a = Some k \<Longrightarrow> Q k \<Longrightarrow> k \<in> K" "\<And>k. k \<in> K \<Longrightarrow> Q k"
  shows "(\<Sum>k\<in>K. fst (tally (\<lambda>a. key a = Some k) xs)) = fst (tally (\<lambda>a. \<exists>k. key a = Some k \<and> Q k) xs)
     \<and> (\<Sum>k\<in>K. snd (tally (\<lambda>a. key a = Some k) xs)) = snd (tally (\<lambda>a. \<exists>k. key a = Some k \<and> Q k) xs)"
  using assms(2)
proof (induction xs)
  case (Cons a xs)
  have IH: "(\<Sum>k\<in>K. fst (tally (\<lambda>a. key a = Some k) xs)) = fst (tally (\<lambda>a. \<exists>k. key a = Some k \<and> Q k) xs)"
    "(\<Sum>k\<in>K. snd (tally (\<lambda>a. key a = Some k) xs)) = snd (tally (\<lambda>a. \<exists>k. key a = Some k \<and> Q k) xs)"
    using Cons.IH Cons.prems by (metis list.set_intros(2))+
  have split: "fst (tally P (a # xs)) = of_bool (P a) + fst (tally P xs)"
    "snd (tally P (a # xs)) = of_bool (P a \<and> at_landed a) + snd (tally P xs)" for P
    by simp_all
  have one: "(\<Sum>k\<in>K. of_bool (key a = Some k \<and> b)) = (of_bool ((\<exists>k. key a = Some k \<and> Q k) \<and> b) :: int)" for b
  proof (cases "\<exists>k. key a = Some k \<and> Q k")
    case True
    then obtain k where k: "key a = Some k" "Q k" by blast
    have "k \<in> K" using Cons.prems [of a k] k by simp
    then have "(\<Sum>k'\<in>K. of_bool (key a = Some k' \<and> b)) = (\<Sum>k'\<in>K. if k' = k then of_bool b else (0::int))"
      by (intro sum.cong) (auto simp: k)
    also have "\<dots> = of_bool b" using \<open>finite K\<close> \<open>k \<in> K\<close> by (simp add: sum.delta')
    finally show ?thesis using True by simp
  next
    case False
    then have "key a \<noteq> Some k" if "k \<in> K" for k using assms(3) that by blast
    then show ?thesis using False by (simp add: sum.neutral)
  qed
  show ?case unfolding split using IH one [of True] one [of "at_landed a"] by (simp add: sum.distrib)
qed simp

lemma counts_pooled:
  assumes "counts_are d key xs"
  shows "(\<Sum>kc\<leftarrow>filter (\<lambda>kc. Q (fst kc)) d. fst (snd kc)) = fst (tally (\<lambda>a. \<exists>k. key a = Some k \<and> Q k) xs)
    \<and> (\<Sum>kc\<leftarrow>filter (\<lambda>kc. Q (fst kc)) d. snd (snd kc)) = snd (tally (\<lambda>a. \<exists>k. key a = Some k \<and> Q k) xs)"
proof -
  let ?K = "{k \<in> set (dkeys d). Q k}"
  have d: "distinct (dkeys d)" and c: "\<And>k. dget_or d k (0, 0) = tally (\<lambda>a. key a = Some k) xs"
    using assms by (simp_all add: counts_are_def)
  have keys: "k \<in> ?K" if "a \<in> set xs" "key a = Some k" "Q k" for a k
  proof -
    have "0 < length (filter (\<lambda>a. key a = Some k) xs)" using that by (auto simp: filter_empty_conv length_greater_0_conv)
    then have "dget_or d k (0, 0) \<noteq> (0, 0)" unfolding c by (simp add: tally_def)
    then have "dget d k \<noteq> None" by (auto simp: dget_or_def split: option.splits)
    then show ?thesis using that(3) by (simp add: dget_None_iff)
  qed
  have fin: "finite ?K" by simp
  have "(\<Sum>k\<in>?K. fst (dget_or d k (0, 0))) = fst (tally (\<lambda>a. \<exists>k. key a = Some k \<and> Q k) xs)
    \<and> (\<Sum>k\<in>?K. snd (dget_or d k (0, 0))) = snd (tally (\<lambda>a. \<exists>k. key a = Some k \<and> Q k) xs)"
    unfolding c by (rule tally_sum [OF fin]) (use keys in blast, simp)
  then show ?thesis using sum_cells [OF d, where Q = Q and f = fst and ?c0.0 = "(0, 0)"] sum_cells [OF d, where Q = Q and f = snd and ?c0.0 = "(0, 0)"] by (simp only: refl conj_absorb)
qed

lemma pooled_counts_tally:
  assumes "counts_are d (\<lambda>a. Some (bid_key a)) xs"
  shows "pooled_counts b d = tally (\<lambda>a. bid_bucket (at_bid a) = b) xs"
proof -
  have "(\<lambda>((name, bid), c). bid = b) = (\<lambda>kc :: (string \<times> int) \<times> counts. snd (fst kc) = b)" by auto
  then show ?thesis using counts_pooled [OF assms, of "\<lambda>k. snd k = b"]
    by (simp add: pooled_counts_def Let_def comp_def prod_eq_iff bid_key_def)
qed

subsection \<open>The properties\<close>

definition same_label :: "string \<Rightarrow> landing_attempt \<Rightarrow> bool" where
  "same_label label a \<longleftrightarrow>
     label = ''pooled'' \<or> congestion_bucket (at_congestion a) = (if label = ''unconditioned'' then ''unknown'' else label)"

text \<open>
  C36: After any history of attempts, an estimate that answers is the landing rate of exactly the retained
  attempts at its bid bucket that its label names, and there are at least the required number of them.
\<close>
theorem estimate_is_window_rate:
  fixes cap :: int
  defines "n \<equiv> nat (max 1 cap)"
  assumes "M = run record_step (new_landing_model cap least d rows) es"
    and "e = landing_probability M bid congestion" and "est_status e = ''OK''"
    and "S = filter (\<lambda>a. bid_bucket (at_bid a) = bid_bucket bid \<and> same_label (est_congestion e) a)
               (drop (length es - n) (map snd es))"
  shows "max 1 least \<le> int (length S) \<and> est_attempts e = int (length S)
    \<and> est_probability e = Some (int_div (int (length (filter at_landed S))) (int (length S)))
    \<and> est_congestion e \<in> {congestion_bucket congestion, ''unconditioned'', ''pooled''}"
proof -
  have run: "lifetime M (map snd es)" using run_record(1) [OF new_lifetime(1)] assms(2) by simp
  have keep: "capacity M = n" "min_bucket M = max 1 least" using assms(1,2) by (simp_all add: new_landing_model_def)
  let ?w = "drop (length es - n) (map snd es)"
  have c: "counts_are (bid_counts M) (\<lambda>a. Some (bid_key a)) ?w"
    using run unfolding lifetime_def keep(1) by (metis length_map)
  have pooled: "pooled_counts b (bid_counts M) = tally (\<lambda>a. bid_bucket (at_bid a) = b) ?w" for b
    by (rule pooled_counts_tally [OF c])
  have cell: "dget_or (bid_counts M) k (0, 0) = tally (\<lambda>a. bid_key a = k) ?w" for k
    using counts_areD [OF c] by simp
  have fin: ?thesis if "e = measured_estimate (tally P ?w) (bid_bucket bid) label" "max 1 least \<le> fst (tally P ?w)"
    "label \<in> {congestion_bucket congestion, ''unconditioned'', ''pooled''}"
    "\<And>a. P a \<longleftrightarrow> bid_bucket (at_bid a) = bid_bucket bid \<and> same_label label a" for P label
  proof -
    have "P = (\<lambda>a. bid_bucket (at_bid a) = bid_bucket bid \<and> same_label label a)" using that(4) by blast
    then have "S = filter P ?w" unfolding assms(5) that(1) measured_estimate_def by simp
    then show ?thesis using that(1-3) by (simp add: measured_estimate_def tally_def conj_commute)
  qed
  have names: "congestion_bucket congestion \<noteq> ''unconditioned''" "congestion_bucket congestion \<noteq> ''pooled''"
    using congestion_bucket_names [of congestion] by auto
  consider "e = measured_estimate (tally (\<lambda>a. bid_key a = (congestion_bucket congestion, bid_bucket bid)) ?w)
      (bid_bucket bid) (congestion_bucket congestion)" "max 1 least \<le> fst (tally (\<lambda>a. bid_key a = (congestion_bucket congestion, bid_bucket bid)) ?w)"
    | "e = measured_estimate (tally (\<lambda>a. bid_key a = (''unknown'', bid_bucket bid)) ?w) (bid_bucket bid) ''unconditioned''"
      "max 1 least \<le> fst (tally (\<lambda>a. bid_key a = (''unknown'', bid_bucket bid)) ?w)"
    | "e = measured_estimate (tally (\<lambda>a. bid_bucket (at_bid a) = bid_bucket bid) ?w) (bid_bucket bid) ''pooled''"
      "max 1 least \<le> fst (tally (\<lambda>a. bid_bucket (at_bid a) = bid_bucket bid) ?w)"
    using assms(4) unfolding assms(3) landing_probability_def Let_def keep pooled cell by (simp split: if_splits)
  then show ?thesis
    by cases (erule fin; use names in \<open>auto simp: same_label_def bid_key_def\<close>)+
qed

lemma run_record_log: "durable M \<Longrightarrow> log_rows (run record_step M (map (Pair True) xs)) = log_rows M @ map Some xs"
proof (induction xs arbitrary: M)
  case (Cons a xs)
  have "log_rows (record_step M (True, a)) = log_rows M @ [Some a]"
    using Cons.prems by (simp add: record_step_def record_landing_attempt_def append_row_def)
  then show ?case using Cons.IH [of "record_step M (True, a)"] Cons.prems by simp
qed simp

lemma readable_all: "readable_rows (map Some xs) = xs"
  by (induction xs) (simp_all add: readable_rows_def)

lemma replay_run: "foldl (\<lambda>m a. record_landing_attempt True a m) M xs = run record_step M (map (Pair True) xs)"
  by (induction xs arbitrary: M) (simp_all add: record_step_def)


subsection \<open>The best measured bid\<close>

lemma better_bid_simps [simp]:
  "better_bid edge price None x = Some (bid_value edge price (fst x) (snd x), x)"
  "better_bid edge price (Some (v, y)) x =
     (if v < bid_value edge price (fst x) (snd x) then Some (bid_value edge price (fst x) (snd x), x) else Some (v, y))"
  by (simp_all add: better_bid_def Let_def)

lemma best_bid_None [simp]: "best_bid edge price bids = None \<longleftrightarrow> bids = []"
proof -
  have "foldl (better_bid edge price) (Some b) bids \<noteq> None" for b bids
    by (induction bids arbitrary: b) (auto split: prod.split)
  then show ?thesis by (cases bids) (simp_all add: best_bid_def)
qed

lemma foldl_better:
  assumes "foldl (better_bid edge price) (Some (v0, x0)) bids = Some (v, x)" "v0 = bid_value edge price (fst x0) (snd x0)"
  shows "v = bid_value edge price (fst x) (snd x) \<and> x \<in> set (x0 # bids)
    \<and> (\<forall>y\<in>set (x0 # bids). bid_value edge price (fst y) (snd y) \<le> v)"
  using assms
proof (induction bids arbitrary: v0 x0)
  case (Cons b bids)
  let ?val = "\<lambda>x. bid_value edge price (fst x) (snd x)"
  show ?case
  proof (cases "v0 < ?val b")
    case True
    then have "foldl (better_bid edge price) (Some (?val b, b)) bids = Some (v, x)"
      using Cons.prems(1) by simp
    from Cons.IH [OF this refl] True Cons.prems(2) show ?thesis by (auto intro: order.trans less_imp_le)
  next
    case False
    then have "foldl (better_bid edge price) (Some (v0, x0)) bids = Some (v, x)"
      using Cons.prems(1) by simp
    from Cons.IH [OF this Cons.prems(2)] False Cons.prems(2) show ?thesis by auto
  qed
qed simp

lemma best_bid_Some:
  assumes "best_bid edge price bids = Some (v, x)"
  shows "v = bid_value edge price (fst x) (snd x) \<and> x \<in> set bids
    \<and> (\<forall>y\<in>set bids. bid_value edge price (fst y) (snd y) \<le> v)"
proof (cases bids)
  case (Cons b rest)
  then have "foldl (better_bid edge price) (Some (bid_value edge price (fst b) (snd b), b)) rest = Some (v, x)"
    using assms by (simp add: best_bid_def)
  from foldl_better [OF this refl] show ?thesis using Cons by auto
qed (use assms in \<open>simp add: best_bid_def\<close>)

lemma measured_bids_mem:
  "(b, p) \<in> set (measured_bids M congestion max_bid) \<longleftrightarrow>
     b \<in> set BID_BUCKETS \<and> b \<le> max_bid \<and> est_status (landing_probability M b congestion) = ''OK''
     \<and> est_probability (landing_probability M b congestion) = Some p"
proof -
  have "b \<in> set (takeWhile (\<lambda>bid. bid \<le> max_bid) BID_BUCKETS) \<longleftrightarrow> b \<in> set BID_BUCKETS \<and> b \<le> max_bid"
    by (auto simp: BID_BUCKETS_def)
  then show ?thesis by (auto simp: measured_bids_def Let_def split: option.splits)
qed

text \<open>
  A recommended bid is a measured bid within the limit whose expected value is positive and at least
  that of every measured bid within the limit; when no bid is recommended, either the reported value is
  that best value, or no bid is measured at all.
\<close>
lemma recommend_is_best:
  assumes "0 < edge" "0 < price"
  shows "(if rec_status (recommend M edge price congestion max_bid) = ''OK''
     then (\<exists>b p. (b = rec_bid (recommend M edge price congestion max_bid) \<or> rec_bid (recommend M edge price congestion max_bid) = 0)
        \<and> b \<in> set BID_BUCKETS \<and> b \<le> max_bid
        \<and> est_probability (landing_probability M b congestion) = Some p
        \<and> rec_value (recommend M edge price congestion max_bid) = Some (bid_value edge price b p)
        \<and> (0 < rec_bid (recommend M edge price congestion max_bid) \<longrightarrow> 0 < bid_value edge price b p)
        \<and> (\<forall>b'\<in>set BID_BUCKETS. \<forall>p'. b' \<le> max_bid \<and> est_status (landing_probability M b' congestion) = ''OK''
              \<and> est_probability (landing_probability M b' congestion) = Some p'
              \<longrightarrow> bid_value edge price b' p' \<le> bid_value edge price b p))
     else rec_bid (recommend M edge price congestion max_bid) = 0
        \<and> (\<forall>b'\<in>set BID_BUCKETS. b' \<le> max_bid \<longrightarrow> est_status (landing_probability M b' congestion) \<noteq> ''OK''))"
proof (cases "best_bid edge price (measured_bids M congestion max_bid)")
  case None
  then have none: "measured_bids M congestion max_bid = []" by simp
  have some: "est_probability (landing_probability M b congestion) \<noteq> None"
    if "est_status (landing_probability M b congestion) = ''OK''" for b
    using that by (auto simp: landing_probability_def Let_def measured_estimate_def split: if_splits)
  have "est_status (landing_probability M b congestion) \<noteq> ''OK''" if "b \<in> set BID_BUCKETS" "b \<le> max_bid" for b
    using measured_bids_mem [of b _ M congestion max_bid] none that some by fastforce
  then show ?thesis using assms none by (simp add: recommend_def Let_def best_bid_def)
next
  case (Some vbp)
  obtain v b p where vbp: "vbp = (v, b, p)" by (metis prod.collapse)
  have best: "v = bid_value edge price b p" "(b, p) \<in> set (measured_bids M congestion max_bid)"
    "\<forall>y\<in>set (measured_bids M congestion max_bid). bid_value edge price (fst y) (snd y) \<le> v"
    using best_bid_Some [of edge price _ v "(b, p)"] Some vbp by simp_all
  let ?r = "recommend M edge price congestion max_bid"
  have r: "rec_status ?r = ''OK''" "rec_value ?r = Some v" "rec_bid ?r = (if v \<le> 0 then 0 else b)"
    using Some assms vbp by (simp_all add: recommend_def Let_def)
  have "bid_value edge price b' p' \<le> v"
    if "b' \<in> set BID_BUCKETS" "b' \<le> max_bid" "est_status (landing_probability M b' congestion) = ''OK''"
      "est_probability (landing_probability M b' congestion) = Some p'" for b' p'
    using best(3) measured_bids_mem [of b' p' M congestion max_bid] that by fastforce
  then show ?thesis using best(2) unfolding r best(1) measured_bids_mem by (auto intro!: exI [of _ b] exI [of _ p])
qed

subsection \<open>What the code does not do\<close>

text \<open>
  The fallback of the contended estimate is the estimate for unmeasured congestion, whatever the
  congestion is.
\<close>

lemma contention_fallback_ignores_congestion:
  "contention_probability M lamports None = landing_probability M lamports None"
  by (simp add: contention_probability_def contention_bucket_def Let_def)

text \<open>
  The leader counters are never evicted while the process runs but only hold the last \<open>capacity\<close> rows
  after a restart, so a restart does change a leader's effect.
\<close>

definition sample_attempt :: "bool \<Rightarrow> landing_attempt" where
  "sample_attempt ok =
     \<lparr>at_bid = 20000, at_landed = ok, at_congestion = None, at_route = '''', at_region = '''', at_latency_ms = 0,
      at_leader = ''L'', at_slot = None, at_compute_units = 0, at_tip = 0, at_hash_age = None, at_contention = None,
      at_slot_value = None, at_real = True, at_submitted = 0, at_landed_at = None, at_signature = '''', at_failure = ''''\<rparr>"

definition sample_live :: landing_model where
  "sample_live = run record_step (new_landing_model 1 1 True []) (map (Pair True) [sample_attempt True, sample_attempt False])"

lemma restart_changes_leader_effect:
  "leader_effect sample_live ''L'' \<noteq> None"
  "leader_effect (snd (load_log True (new_landing_model 1 1 True (log_rows sample_live)))) ''L'' = None"
  by code_simp+

subsection \<open>Witnesses\<close>

theorem estimate_is_window_rate_witness:
  "max 1 1 \<le> int (length [sample_attempt False]) \<and> est_attempts (landing_probability sample_live 20000 None) = 1
   \<and> est_probability (landing_probability sample_live 20000 None) = Some (int_div 0 1)"
proof -
  have es: "filter (\<lambda>a. bid_bucket (at_bid a) = bid_bucket 20000 \<and> same_label (est_congestion (landing_probability sample_live 20000 None)) a)
      (drop (length (map (Pair True) [sample_attempt True, sample_attempt False]) - nat (max 1 1))
         (map snd (map (Pair True) [sample_attempt True, sample_attempt False]))) = [sample_attempt False]"
    by code_simp
  have ok: "est_status (landing_probability sample_live 20000 None) = ''OK''" by code_simp
  show ?thesis
    using estimate_is_window_rate [OF sample_live_def refl ok refl] unfolding es by (simp add: sample_attempt_def)
qed


end
