(* ===== verification/BidCurve.thy ===== *)
theory BidCurve
  imports LandingModel "HOL-Library.Multiset"
begin

text \<open>
  \<open>execution/bid_curve.py\<close>: the landing curve conditioned on leader, contention and congestion, its
  projection onto the monotone curves, the expiry of blockhashes, and the bid where the next lamport
  stops buying a lamport.  The lemmas show what population an estimate rests on, that the projected
  curve is monotone and keeps its rungs, and what the chosen bid is best among.
\<close>

subsection \<open>Pool adjacent violators\<close>

type_synonym point = "int \<times> pyfloat \<times> int"
type_synonym block = "pyfloat \<times> pyfloat \<times> pyfloat"

definition block_mean :: "block \<Rightarrow> pyfloat" where
  "block_mean b = fdiv (fst b) (fst (snd b))"

definition point_block :: "point \<Rightarrow> block" where
  "point_block p = (case p of (bid, v, w) \<Rightarrow> (fmul v (float_of_int w), float_of_int w, float_of_int bid))"

definition merge_blocks :: "block \<Rightarrow> block \<Rightarrow> block" where
  "merge_blocks l r = (fadd (fst l) (fst r), fadd (fst (snd l)) (fst (snd r)), snd (snd r))"

text \<open>The stack of blocks is kept last block first.\<close>

fun settle :: "block list \<Rightarrow> block list" where
  "settle (r # l # bs) = (if block_mean r < block_mean l then settle (merge_blocks l r # bs) else r # l # bs)"
| "settle bs = bs"

definition push_point :: "block list \<Rightarrow> point \<Rightarrow> block list" where
  "push_point blocks p = (if snd (snd p) \<le> 0 then blocks else settle (point_block p # blocks))"

text \<open>The rungs of one block, which take its mean, and the points left for the next blocks.\<close>

fun spread_block :: "pyfloat \<Rightarrow> pyfloat \<Rightarrow> pyfloat \<Rightarrow> point list \<Rightarrow> point list \<times> point list" where
  "spread_block weight mean consumed [] = ([], [])"
| "spread_block weight mean consumed ((bid, v, w) # ps) =
     (if consumed < fsub weight (fl (1 / 10^9))
      then if w \<le> 0 then spread_block weight mean consumed ps
           else (case spread_block weight mean (fadd consumed (float_of_int w)) ps of
                   (out, rest) \<Rightarrow> ((bid, mean, w) # out, rest))
      else ([], (bid, v, w) # ps))"

fun spread_blocks :: "block list \<Rightarrow> point list \<Rightarrow> point list" where
  "spread_blocks [] ps = []"
| "spread_blocks (b # bs) ps =
     (case spread_block (fst (snd b)) (block_mean b) 0 ps of (out, rest) \<Rightarrow> out @ spread_blocks bs rest)"

definition isotonic :: "point list \<Rightarrow> point list" where
  "isotonic points =
     (let ordered = sort_key fst points
      in spread_blocks (rev (foldl push_point [] ordered)) ordered)"

subsection \<open>Blockhash expiry\<close>

record expiry_model =
  validity_slots :: int
  expiry_min_samples :: int
  expiry_counts :: "(int, counts) dict"

definition new_expiry_model :: expiry_model where
  "new_expiry_model = \<lparr>validity_slots = 150, expiry_min_samples = 50, expiry_counts = []\<rparr>"

definition age_bucket :: "int \<Rightarrow> int" where
  "age_bucket age = max 0 (age div 10 * 10)"

definition expired_attempt :: "landing_attempt \<Rightarrow> bool" where
  "expired_attempt a \<longleftrightarrow> \<not> at_landed a \<and> contains_text ''expire'' (py_lower (at_failure a))"

definition observe_expiry :: "landing_attempt \<Rightarrow> expiry_model \<Rightarrow> expiry_model" where
  "observe_expiry a E =
     (case at_hash_age a of
        None \<Rightarrow> E
      | Some age \<Rightarrow> E\<lparr>expiry_counts := add_count (age_bucket age) (expired_attempt a) (expiry_counts E)\<rparr>)"

definition expiry_survival :: "expiry_model \<Rightarrow> int option \<Rightarrow> pyfloat option \<times> string" where
  "expiry_survival E age_slots =
     (case age_slots of
        None \<Rightarrow> (None, ''unmeasured'')
      | Some age \<Rightarrow>
          if validity_slots E \<le> age then (Some 0, ''past the published validity window'')
          else
            case dget (expiry_counts E) (age_bucket age) of
              Some (seen, expired) \<Rightarrow>
                if expiry_min_samples E \<le> seen then (Some (max 0 (fsub 1 (int_div expired seen))), ''fitted'')
                else (Some (max 0 (fsub 1 (fdiv (float_of_int age) (float_of_int (validity_slots E))))), ''published_window'')
            | None \<Rightarrow>
                (Some (max 0 (fsub 1 (fdiv (float_of_int age) (float_of_int (validity_slots E))))), ''published_window''))"

subsection \<open>The conditioned curve\<close>

record conditioned_curve =
  min_cell :: int
  real_only :: bool
  expiry :: expiry_model
  leader_cells :: "(string \<times> int \<times> int, counts) dict"
  contention_cells :: "(int \<times> int, counts) dict"
  congestion_cells :: "(string \<times> int, counts) dict"
  pooled_cells :: "(int, counts) dict"
  observed :: nat
  skipped_population :: nat

definition new_conditioned_curve :: "int \<Rightarrow> bool \<Rightarrow> conditioned_curve" where
  "new_conditioned_curve cell only =
     \<lparr>min_cell = max 1 cell, real_only = only, expiry = new_expiry_model, leader_cells = [], contention_cells = [],
      congestion_cells = [], pooled_cells = [], observed = 0, skipped_population = 0\<rparr>"

definition leader_key :: "landing_attempt \<Rightarrow> string \<times> int \<times> int" where
  "leader_key a = (at_leader a, contention_bucket (at_contention a), bid_bucket (at_bid a))"

definition record_conditioned :: "conditioned_curve \<Rightarrow> landing_attempt \<Rightarrow> conditioned_curve" where
  "record_conditioned C a =
     (if real_only C \<and> \<not> at_real a then C\<lparr>skipped_population := skipped_population C + 1\<rparr>
      else
        C\<lparr>observed := observed C + 1,
          pooled_cells := add_count (bid_bucket (at_bid a)) (at_landed a) (pooled_cells C),
          congestion_cells := add_count (bid_key a) (at_landed a) (congestion_cells C),
          contention_cells := (if at_contention a \<noteq> None
                               then add_count (contention_key a) (at_landed a) (contention_cells C)
                               else contention_cells C),
          leader_cells := (if at_contention a \<noteq> None \<and> at_leader a \<noteq> ''''
                           then add_count (leader_key a) (at_landed a) (leader_cells C) else leader_cells C),
          expiry := observe_expiry a (expiry C)\<rparr>)"

record conditioned_estimate =
  ce_status :: string
  ce_probability :: "pyfloat option"
  ce_attempts :: int
  ce_basis :: string
  ce_population :: string
  ce_survival :: "pyfloat option"
  ce_detail :: string

definition landed_probability :: "conditioned_estimate \<Rightarrow> pyfloat option" where
  "landed_probability e =
     (case ce_probability e of
        None \<Rightarrow> None
      | Some p \<Rightarrow> (case ce_survival e of None \<Rightarrow> Some p | Some s \<Rightarrow> Some (fmul p s)))"

text \<open>The backoff: the cells consulted for a question, most specific first.\<close>

definition cell_ladder :: "conditioned_curve \<Rightarrow> int \<Rightarrow> string \<Rightarrow> int option \<Rightarrow> pyfloat option \<Rightarrow> (string \<times> counts option) list" where
  "cell_ladder C bucket leader contention congestion =
     (if leader \<noteq> '''' \<and> contention \<noteq> None
      then [(''leader_contention'', dget (leader_cells C) (leader, contention_bucket contention, bucket))] else [])
     @ (if contention \<noteq> None
        then [(''contention'', dget (contention_cells C) (contention_bucket contention, bucket))] else [])
     @ [(''congestion'', dget (congestion_cells C) (congestion_bucket congestion, bucket)),
        (''pooled'', dget (pooled_cells C) bucket)]"

fun first_supported :: "int \<Rightarrow> (string \<times> counts option) list \<Rightarrow> (string \<times> counts) option" where
  "first_supported least [] = None"
| "first_supported least ((basis, None) # rs) = first_supported least rs"
| "first_supported least ((basis, Some c) # rs) = (if least \<le> fst c then Some (basis, c) else first_supported least rs)"

definition rate_of :: "counts \<Rightarrow> pyfloat option" where
  "rate_of c = (if fst c = 0 then None else Some (int_div (snd c) (fst c)))"

definition conditioned_estimate_at ::
    "conditioned_curve \<Rightarrow> int \<Rightarrow> string \<Rightarrow> int option \<Rightarrow> pyfloat option \<Rightarrow> int option \<Rightarrow> conditioned_estimate" where
  "conditioned_estimate_at C lamports leader contention congestion age =
     (let bucket = bid_bucket lamports;
          population = (if real_only C then ''real'' else ''mixed'');
          (survival, basis_text) = expiry_survival (expiry C) age
      in case first_supported (min_cell C) (cell_ladder C bucket leader contention congestion) of
           Some (basis, c) \<Rightarrow>
             \<lparr>ce_status = ''OK'', ce_probability = rate_of c, ce_attempts = fst c, ce_basis = basis,
              ce_population = population, ce_survival = survival, ce_detail = ''expiry from '' @ basis_text\<rparr>
         | None \<Rightarrow>
             let have_n = fst (dget_or (pooled_cells C) bucket (0, 0))
             in \<lparr>ce_status = ''DATA_BLOCKED'', ce_probability = None, ce_attempts = have_n, ce_basis = ''none'',
                 ce_population = population, ce_survival = survival,
                 ce_detail = ''no cell with '' @ int_str (min_cell C) @ '' attempts at bid bucket '' @ int_str bucket
                   @ ''; the most populated had '' @ int_str have_n\<rparr>)"

text \<open>One rung per bid bucket, in ascending order.\<close>

fun one_per_bucket :: "int list \<Rightarrow> int list \<Rightarrow> int list" where
  "one_per_bucket seen [] = []"
| "one_per_bucket seen (r # rs) =
     (if bid_bucket r \<in> set seen then one_per_bucket seen rs else r # one_per_bucket (bid_bucket r # seen) rs)"

definition raw_points ::
    "conditioned_curve \<Rightarrow> string \<Rightarrow> int option \<Rightarrow> pyfloat option \<Rightarrow> int list \<Rightarrow> (point \<times> string) list" where
  "raw_points C leader contention congestion rungs =
     concat (map (\<lambda>r. let e = conditioned_estimate_at C r leader contention congestion None
                      in case ce_probability e of
                           None \<Rightarrow> []
                         | Some p \<Rightarrow> [((r, p, max 1 (ce_attempts e)), ce_basis e)])
              (one_per_bucket [] (sort (remdups rungs))))"

definition monotone_curve ::
    "conditioned_curve \<Rightarrow> string \<Rightarrow> int option \<Rightarrow> pyfloat option \<Rightarrow> int list \<Rightarrow> (int \<times> pyfloat \<times> string) list" where
  "monotone_curve C leader contention congestion rungs =
     (let raw = raw_points C leader contention congestion rungs;
          bases = foldl (\<lambda>d ((bid, v, w), basis). dput bid basis d) [] raw
      in map (\<lambda>(bid, v, w). (bid, v, dget_or bases bid '''')) (isotonic (map fst raw)))"

subsection \<open>The bid\<close>

record marginal_rung =
  rung_bid :: int
  rung_probability :: pyfloat
  rung_value :: pyfloat
  rung_marginal :: "pyfloat option"
  rung_basis :: string

record bid_decision =
  bd_status :: string
  bd_bid :: int
  bd_value :: "pyfloat option"
  bd_probability :: "pyfloat option"
  bd_basis :: string
  bd_marginal :: "pyfloat option"
  bd_rungs :: "marginal_rung list"
  bd_detail :: string

definition no_decision :: "string \<Rightarrow> string \<Rightarrow> bid_decision" where
  "no_decision status detail_text =
     \<lparr>bd_status = status, bd_bid = 0, bd_value = None, bd_probability = None, bd_basis = '''', bd_marginal = None,
      bd_rungs = [], bd_detail = detail_text\<rparr>"

definition rung_of :: "pyfloat \<Rightarrow> pyfloat \<Rightarrow> (int \<times> pyfloat) option \<Rightarrow> int \<times> pyfloat \<times> string \<Rightarrow> marginal_rung" where
  "rung_of edge scale previous point =
     (case point of (bid, p, basis) \<Rightarrow>
        let landed = fmul p scale
        in \<lparr>rung_bid = bid, rung_probability = landed, rung_value = fsub (fmul landed edge) (float_of_int bid),
            rung_marginal =
              (case previous of
                 None \<Rightarrow> None
               | Some (pb, pl) \<Rightarrow>
                   if 0 < bid - pb then Some (fdiv (fmul (fsub landed pl) edge) (float_of_int (bid - pb))) else None),
            rung_basis = basis\<rparr>)"

text \<open>The rungs walked: up to the limit, and up to and including the first that returns less than it costs.\<close>

fun walk :: "pyfloat \<Rightarrow> pyfloat \<Rightarrow> int \<Rightarrow> (int \<times> pyfloat) option \<Rightarrow> (int \<times> pyfloat \<times> string) list \<Rightarrow> marginal_rung list" where
  "walk edge scale max_bid previous [] = []"
| "walk edge scale max_bid previous (p # ps) =
     (if max_bid < fst p then []
      else
        let r = rung_of edge scale previous p
        in r # (case rung_marginal r of
                  Some m \<Rightarrow> if m < 1 then [] else walk edge scale max_bid (Some (rung_bid r, rung_probability r)) ps
                | None \<Rightarrow> walk edge scale max_bid (Some (rung_bid r, rung_probability r)) ps))"

declare walk.simps(2) [simp del]

definition better_rung :: "marginal_rung option \<Rightarrow> marginal_rung \<Rightarrow> marginal_rung option" where
  "better_rung best r =
     (case best of None \<Rightarrow> Some r | Some b \<Rightarrow> if rung_value b < rung_value r then Some r else Some b)"

definition optimise ::
    "conditioned_curve \<Rightarrow> pyfloat \<Rightarrow> string \<Rightarrow> int option \<Rightarrow> pyfloat option \<Rightarrow> int option \<Rightarrow> int \<Rightarrow> int list \<Rightarrow> bid_decision" where
  "optimise C edge leader contention congestion age max_bid rungs =
     (if edge \<le> 0 then no_decision ''REJECTED'' ''no edge to bid for''
      else
        let curve = monotone_curve C leader contention congestion rungs
        in if curve = [] then no_decision ''DATA_BLOCKED'' (''the landing curve cannot answer at any bid rung; the ''
                @ ''caller must fall back to its configured ladder and know that it is doing so'')
           else
             let scale = (case fst (expiry_survival (expiry C) age) of None \<Rightarrow> 1 | Some s \<Rightarrow> s);
                 walked = walk edge scale max_bid None curve;
                 refused = (\<lambda>v. (no_decision ''REJECTED'' (''no bid on the curve has positive expected value; the ''
                     @ ''edge does not cover what landing costs''))\<lparr>bd_value := v, bd_rungs := walked\<rparr>)
             in case foldl better_rung None walked of
                  None \<Rightarrow> refused None
                | Some b \<Rightarrow>
                    if rung_value b \<le> 0 then refused (Some (rung_value b))
                    else
                      let e = conditioned_estimate_at C (rung_bid b) leader contention congestion age
                      in \<lparr>bd_status = ''OK'', bd_bid = rung_bid b, bd_value = Some (rung_value b),
                          bd_probability = landed_probability e, bd_basis = ce_basis e,
                          bd_marginal = rung_marginal b, bd_rungs = walked, bd_detail = ''''\<rparr>)"

subsection \<open>The projected curve is monotone\<close>

abbreviation descending_means :: "block list \<Rightarrow> bool" where
  "descending_means \<equiv> sorted_wrt (\<lambda>a b. block_mean b \<le> block_mean a)"

lemma settle_descending: "descending_means bs \<Longrightarrow> descending_means (settle (r # bs))"
proof (induction "r # bs" arbitrary: r bs rule: settle.induct)
  case (1 r l bs)
  show ?case
  proof (cases "block_mean r < block_mean l")
    case True
    then show ?thesis using 1(1) [OF True] 1(2) by simp
  next
    case False
    then show ?thesis using 1(2) by (auto intro: order.trans)
  qed
qed simp

lemma push_points_descending: "descending_means bs \<Longrightarrow> descending_means (foldl push_point bs ps)"
  by (induction ps arbitrary: bs) (simp_all add: push_point_def settle_descending)

lemma spread_block_value: "spread_block w m c ps = (out, rest) \<Longrightarrow> x \<in> set out \<Longrightarrow> fst (snd x) = m"
  by (induction w m c ps arbitrary: out rest rule: spread_block.induct)
    (fastforce split: if_splits prod.splits)+

lemma spread_block_values: "spread_block w m c ps = (out, rest) \<Longrightarrow> map (\<lambda>p. fst (snd p)) out = replicate (length out) m"
  using spread_block_value [of w m c ps out rest] by (intro replicate_eqI) auto

lemma spread_blocks_value: "x \<in> set (spread_blocks bs ps) \<Longrightarrow> \<exists>b\<in>set bs. fst (snd x) = block_mean b"
proof (induction bs ps rule: spread_blocks.induct)
  case (2 b bs ps)
  obtain out rest where s: "spread_block (fst (snd b)) (block_mean b) 0 ps = (out, rest)" by fastforce
  show ?case
  proof (cases "x \<in> set out")
    case True
    then show ?thesis using spread_block_value [OF s] by (metis list.set_intros(1))
  next
    case False
    then show ?thesis using 2 s by auto
  qed
qed simp

lemma spread_blocks_sorted:
  "sorted_wrt (\<lambda>a b. block_mean a \<le> block_mean b) bs \<Longrightarrow> sorted (map (\<lambda>p. fst (snd p)) (spread_blocks bs ps))"
proof (induction bs ps rule: spread_blocks.induct)
  case (2 b bs ps)
  obtain out rest where s: "spread_block (fst (snd b)) (block_mean b) 0 ps = (out, rest)" by fastforce
  have "sorted (map (\<lambda>p. fst (snd p)) (spread_blocks bs rest))" using 2 s by auto
  moreover have "block_mean b \<le> fst (snd x)" if "x \<in> set (spread_blocks bs rest)" for x
    using spread_blocks_value [OF that] 2(2) by auto
  ultimately show ?case using s spread_block_values [OF s] spread_block_value [OF s] by (auto simp: sorted_append)
qed simp

lemma isotonic_sorted: "sorted (map (\<lambda>p. fst (snd p)) (isotonic points))"
proof -
  have "descending_means (foldl push_point [] (sort_key fst points))" by (rule push_points_descending) simp
  then have "sorted_wrt (\<lambda>a b. block_mean a \<le> block_mean b) (rev (foldl push_point [] (sort_key fst points)))"
    by (simp add: sorted_wrt_rev)
  from spread_blocks_sorted [OF this] show ?thesis by (simp add: isotonic_def Let_def)
qed

subsection \<open>It stays within the probabilities\<close>

definition block_ok :: "block \<Rightarrow> bool" where
  "block_ok b \<longleftrightarrow> 0 \<le> fst b \<and> fst b \<le> fst (snd b) \<and> 0 < fst (snd b) \<and> is_double (fst (snd b))"

lemma point_block_ok: "0 \<le> v \<Longrightarrow> v \<le> 1 \<Longrightarrow> 0 < w \<Longrightarrow> block_ok (point_block (bid, v, w))"
proof -
  assume v: "0 \<le> v" "v \<le> 1" and w: "0 < w"
  have d: "0 < float_of_int w" "is_double (float_of_int w)" using w by (simp_all add: float_of_int_def)
  have "v * float_of_int w \<le> float_of_int w" using v d(1) by (simp add: mult_left_le_one_le)
  then have "fmul v (float_of_int w) \<le> float_of_int w" unfolding fmul_def by (rule fl_le_double [OF d(2)])
  then show ?thesis using v d by (simp add: block_ok_def point_block_def fmul_def)
qed

lemma merge_blocks_ok: "block_ok l \<Longrightarrow> block_ok r \<Longrightarrow> block_ok (merge_blocks l r)"
  by (auto simp: block_ok_def merge_blocks_def fadd_def intro!: fl_mono add_mono)

lemma settle_ok: "list_all block_ok bs \<Longrightarrow> list_all block_ok (settle bs)"
  by (induction bs rule: settle.induct) (auto simp: merge_blocks_ok)

lemma block_mean_range: "block_ok b \<Longrightarrow> 0 \<le> block_mean b \<and> block_mean b \<le> 1"
proof -
  assume b: "block_ok b"
  then have "fst b / fst (snd b) \<le> 1" "0 \<le> fst b / fst (snd b)" by (auto simp: block_ok_def divide_le_eq_1)
  moreover have "is_double 1" using is_double_of_int [of 1] by simp
  ultimately show ?thesis unfolding block_mean_def fdiv_def by (auto intro: fl_le_double)
qed

definition probability_points :: "point list \<Rightarrow> bool" where
  "probability_points ps \<longleftrightarrow> (\<forall>(bid, v, w)\<in>set ps. 0 \<le> v \<and> v \<le> 1)"

lemma push_points_ok:
  "probability_points ps \<Longrightarrow> list_all block_ok bs \<Longrightarrow> list_all block_ok (foldl push_point bs ps)"
proof (induction ps arbitrary: bs)
  case (Cons p ps)
  obtain bid v w where p: "p = (bid, v, w)" by (metis prod.collapse)
  have "list_all block_ok (push_point bs p)"
    using Cons.prems by (simp add: push_point_def p settle_ok point_block_ok probability_points_def)
  then show ?case using Cons by (simp add: probability_points_def)
qed simp

lemma isotonic_range:
  assumes "probability_points points" "x \<in> set (isotonic points)"
  shows "0 \<le> fst (snd x) \<and> fst (snd x) \<le> 1"
proof -
  have "probability_points (sort_key fst points)" using assms(1) by (simp add: probability_points_def)
  then have "list_all block_ok (foldl push_point [] (sort_key fst points))" by (rule push_points_ok) simp
  then show ?thesis
    using assms(2) block_mean_range by (auto simp: isotonic_def Let_def list_all_iff dest!: spread_blocks_value)
qed

subsection \<open>It keeps the rungs\<close>

text \<open>
  The blocks partition the points with positive weight; their weights are sums of integers and stay exact
  below \<open>2 ^ 52\<close>, so the second pass hands every rung its own block.
\<close>

abbreviation weight_sum :: "point list \<Rightarrow> int" where
  "weight_sum g \<equiv> sum_list (map (\<lambda>p. snd (snd p)) g)"

definition weighs :: "block \<Rightarrow> point list \<Rightarrow> bool" where
  "weighs b g \<longleftrightarrow> fst (snd b) = of_int (weight_sum g)"

abbreviation positive :: "point list \<Rightarrow> point list" where
  "positive ps \<equiv> filter (\<lambda>p. 0 < snd (snd p)) ps"

lemma weight_sum_nonneg: "(\<And>p. p \<in> set g \<Longrightarrow> 0 < snd (snd p)) \<Longrightarrow> 0 \<le> weight_sum g"
  by (induction g) (auto simp: add_nonneg_nonneg less_imp_le)

lemma settle_groups:
  assumes "list_all2 weighs bs gs" "weight_sum (concat gs) < 2 ^ 53" "\<forall>g\<in>set gs. \<forall>p\<in>set g. 0 < snd (snd p)"
  shows "\<exists>gs'. list_all2 weighs (settle bs) gs' \<and> concat (rev gs') = concat (rev gs)"
  using assms
proof (induction bs arbitrary: gs rule: settle.induct)
  case (1 r l bs)
  then obtain gr gl hs where gs: "gs = gr # gl # hs" "weighs r gr" "weighs l gl" "list_all2 weighs bs hs"
    by (auto simp: list_all2_Cons1)
  show ?case
  proof (cases "block_mean r < block_mean l")
    case True
    have pos: "0 \<le> weight_sum gl" "0 \<le> weight_sum gr" "0 \<le> weight_sum (concat hs)"
      by (rule weight_sum_nonneg; use 1(4) in \<open>auto simp: gs(1)\<close>)+
    then have "\<bar>weight_sum gl + weight_sum gr\<bar> < 2 ^ 53" using 1(3) by (simp add: gs(1))
    then have "weighs (merge_blocks l r) (gl @ gr)"
      using gs(2,3) by (simp add: weighs_def merge_blocks_def fadd_def fl_of_int flip: of_int_add)
    then have "list_all2 weighs (merge_blocks l r # bs) ((gl @ gr) # hs)" using gs(4) by simp
    from 1(1) [OF True this] 1(3,4) show ?thesis using True by (simp add: gs(1) ac_simps) blast
  next
    case False
    then show ?thesis using 1(2) by auto
  qed
qed auto

lemma push_points_groups:
  assumes "list_all2 weighs bs gs" "weight_sum (concat gs @ positive ps) < 2 ^ 53"
    "\<forall>g\<in>set gs. \<forall>p\<in>set g. 0 < snd (snd p)"
  shows "\<exists>gs'. list_all2 weighs (foldl push_point bs ps) gs' \<and> concat (rev gs') = concat (rev gs) @ positive ps"
  using assms
proof (induction ps arbitrary: bs gs)
  case (Cons p ps)
  have sum_rev: "weight_sum (concat (rev hs)) = weight_sum (concat hs)" for hs :: "point list list"
    by (induction hs) simp_all
  show ?case
  proof (cases "snd (snd p) \<le> 0")
    case True
    then show ?thesis using Cons by (simp add: push_point_def)
  next
    case False
    have nn: "0 \<le> weight_sum (concat gs)" "0 \<le> weight_sum (positive ps)"
      by (rule weight_sum_nonneg; use Cons.prems(3) in auto)+
    have "\<bar>snd (snd p)\<bar> < 2 ^ 53" using False Cons.prems(2) nn by simp
    then have "fl (of_int (snd (snd p))) = of_int (snd (snd p))" by (rule fl_of_int)
    then have w: "weighs (point_block p) [p]"
      by (cases p) (simp add: weighs_def point_block_def float_of_int_def)
    have "list_all2 weighs (point_block p # bs) ([p] # gs)" using w Cons.prems(1) by simp
    moreover have "weight_sum (concat ([p] # gs)) < 2 ^ 53" using Cons.prems(2) False nn by simp
    moreover have "\<forall>g\<in>set ([p] # gs). \<forall>p\<in>set g. 0 < snd (snd p)" using Cons.prems(3) False by auto
    ultimately obtain hs where hs: "list_all2 weighs (settle (point_block p # bs)) hs"
      "concat (rev hs) = concat (rev gs) @ [p]"
      using settle_groups [of "point_block p # bs" "[p] # gs"] by auto
    have sum: "weight_sum (concat hs) = weight_sum (concat gs) + snd (snd p)"
      using hs(2) by (metis (no_types, lifting) sum_rev list.simps(8,9) map_append sum_list.Cons sum_list.Nil sum_list_append add.right_neutral)
    have set: "set (concat hs) = insert p (set (concat gs))"
      using arg_cong [OF hs(2), of set] by simp
    have "\<exists>gs'. list_all2 weighs (foldl push_point (settle (point_block p # bs)) ps) gs'
        \<and> concat (rev gs') = concat (rev hs) @ positive ps"
    proof (rule Cons.IH [OF hs(1)])
      show "weight_sum (concat hs @ positive ps) < 2 ^ 53" using Cons.prems(2) False sum by simp
      show "\<forall>g\<in>set hs. \<forall>p\<in>set g. 0 < snd (snd p)" 
      proof (intro ballI)
        fix g q assume "g \<in> set hs" "q \<in> set g"
        then have "q \<in> set (concat hs)" by auto
        then have "q \<in> insert p (set (concat gs))" unfolding set .
        then show "0 < snd (snd q)" using Cons.prems(3) False by auto
      qed
    qed
    moreover have "push_point bs p = settle (point_block p # bs)" using False by (simp add: push_point_def)
    ultimately show ?thesis using False hs(2) by simp
  qed
qed auto

lemma consumed_less:
  assumes "0 \<le> c" "c \<le> W" "W \<le> 2 ^ 52"
  shows "of_int c < fsub (of_int W) (fl (1 / 10^9)) \<longleftrightarrow> c < W"
proof
  have eps: "0 < fl (1 / 10^9)" "fl (1 / 10^9) \<le> 1/4"
  proof -
    have "(1/4 :: rat) = of_int 1 * 2 powi (-2) \<and> \<bar>1 :: int\<bar> < 2 ^ 53" by (simp add: power_int_minus)
    then have "is_double (1/4)" unfolding is_double_def by blast
    then show "fl (1 / 10^9) \<le> 1/4" by (rule fl_le_double) simp
  qed simp
  have dW: "is_double (of_int W)" using assms by (intro is_double_of_int) simp
  show "c < W" if "of_int c < fsub (of_int W) (fl (1 / 10^9))"
  proof -
    have "fsub (of_int W) (fl (1 / 10^9)) \<le> of_int W" unfolding fsub_def by (rule fl_le_double [OF dW]) (use eps in simp)
    then show ?thesis using that by (metis of_int_less_iff order_less_le_trans)
  qed
  show "of_int c < fsub (of_int W) (fl (1 / 10^9))" if "c < W"
  proof -
    have "(of_int W - 1/2 :: rat) = of_int (2 * W - 1) * 2 powi (-1) \<and> \<bar>2 * W - 1\<bar> < 2 ^ 53"
      using assms by (simp add: power_int_minus field_simps)
    then have half: "is_double (of_int W - 1/2)" unfolding is_double_def by blast
    have "of_int W - 1/2 \<le> fsub (of_int W) (fl (1 / 10^9))" unfolding fsub_def
      by (rule fl_ge_double [OF half]) (use eps in simp)
    moreover have "(of_int c :: rat) \<le> of_int W - 1" using that by (metis of_int_1 of_int_diff of_int_le_iff zle_diff1_eq)
    ultimately show ?thesis by linarith
  qed
qed


lemma spread_block_keys:
  assumes "positive ps = g @ hs" "0 \<le> c" "c + weight_sum g = W" "W \<le> 2 ^ 52" "\<forall>p\<in>set g. 0 < snd (snd p)"
    "spread_block (of_int W) m (of_int c) ps = (out, rest)"
  shows "map (\<lambda>p. (fst p, snd (snd p))) out = map (\<lambda>p. (fst p, snd (snd p))) g \<and> positive rest = hs"
  using assms
proof (induction ps arbitrary: g c out rest)
  case (Cons p ps)
  obtain bid v w where p: "p = (bid, v, w)" by (metis prod.collapse)
  have nn: "0 \<le> weight_sum g" using Cons.prems(5) by (intro weight_sum_nonneg) auto
  have less: "of_int c < fsub (of_int W) (fl (1 / 10^9)) \<longleftrightarrow> c < W"
    by (rule consumed_less) (use Cons.prems nn in auto)
  show ?case
  proof (cases "c < W")
    case False
    then have "weight_sum g = 0" using Cons.prems(3) nn by linarith
    then have "g = []"
    proof (cases g)
      case (Cons q g')
      then have "0 < snd (snd q)" "0 \<le> weight_sum g'" using \<open>\<forall>p\<in>set g. 0 < snd (snd p)\<close> by (auto intro: weight_sum_nonneg)
      then show ?thesis using \<open>weight_sum g = 0\<close> Cons by simp
    qed simp
    then show ?thesis using Cons.prems(1,6) False less by (auto simp: p)
  next
    case True
    show ?thesis
    proof (cases "w \<le> 0")
      case True
      then show ?thesis using Cons.IH [of g c out rest] Cons.prems less \<open>c < W\<close> by (simp add: p)
    next
      case False
      have "g \<noteq> []" using True Cons.prems(3) by auto
      then obtain g' where g: "g = p # g'" using Cons.prems(1) False by (cases g) (auto simp: p)
      have nn': "0 \<le> weight_sum g'" using Cons.prems(5) g by (intro weight_sum_nonneg) auto
      have bound: "c + w \<le> 2 ^ 52" using Cons.prems(2,3,4) False nn' by (simp add: g p)
      have exact: "float_of_int w = of_int w" "fadd (of_int c) (of_int w) = of_int (c + w)"
      proof -
        have "\<bar>w\<bar> < 2 ^ 53" "\<bar>c + w\<bar> < 2 ^ 53" using bound Cons.prems(2) False by simp_all
        from this [THEN fl_of_int] show "float_of_int w = of_int w" "fadd (of_int c) (of_int w) = of_int (c + w)"
          by (simp_all add: float_of_int_def fadd_def)
      qed
      obtain out' rest' where s: "spread_block (of_int W) m (of_int (c + w)) ps = (out', rest')" by fastforce
      have "map (\<lambda>p. (fst p, snd (snd p))) out' = map (\<lambda>p. (fst p, snd (snd p))) g' \<and> positive rest' = hs"
        using Cons.IH [OF _ _ _ Cons.prems(4) _ s, of g'] Cons.prems(1-3,5) False by (simp add: g p)
      then show ?thesis using Cons.prems(6) less \<open>c < W\<close> False s exact by (auto simp: p g)
    qed
  qed
qed auto

lemma spread_blocks_keys:
  assumes "list_all2 weighs bs gs" "positive ps = concat gs" "weight_sum (concat gs) \<le> 2 ^ 52"
    "\<forall>g\<in>set gs. \<forall>p\<in>set g. 0 < snd (snd p)"
  shows "map (\<lambda>p. (fst p, snd (snd p))) (spread_blocks bs ps) = map (\<lambda>p. (fst p, snd (snd p))) (concat gs)"
  using assms
proof (induction bs arbitrary: gs ps)
  case (Cons b bs)
  obtain g hs where gs: "gs = g # hs" "weighs b g" "list_all2 weighs bs hs" using Cons.prems(1) by (auto simp: list_all2_Cons1)
  have nn: "0 \<le> weight_sum g" "0 \<le> weight_sum (concat hs)"
    by (rule weight_sum_nonneg; use Cons.prems(4) in \<open>auto simp: gs(1)\<close>)+
  have bounds: "weight_sum g \<le> 2 ^ 52" "weight_sum (concat hs) \<le> 2 ^ 52" using Cons.prems(3) nn by (simp_all add: gs(1))
  have w: "fst (snd b) = of_int (weight_sum g)" using gs(2) by (simp add: weighs_def)
  obtain out rest where s: "spread_block (fst (snd b)) (block_mean b) 0 ps = (out, rest)" by fastforce
  have "map (\<lambda>p. (fst p, snd (snd p))) out = map (\<lambda>p. (fst p, snd (snd p))) g \<and> positive rest = concat hs"
    using spread_block_keys [of ps g "concat hs" 0 "weight_sum g" "block_mean b" out rest] Cons.prems(2,4) bounds(1) s
    by (simp add: gs(1) w)
  then show ?case using Cons.IH [OF gs(3) _ bounds(2), of rest] Cons.prems(4) s by (simp add: gs(1))
qed simp

lemma isotonic_keys:
  assumes "weight_sum (positive points) \<le> 2 ^ 52"
  shows "map (\<lambda>p. (fst p, snd (snd p))) (isotonic points) = map (\<lambda>p. (fst p, snd (snd p))) (positive (sort_key fst points))"
proof -
  let ?o = "sort_key fst points"
  have "weight_sum (positive ?o) = weight_sum (positive points)"
  proof -
    have "weight_sum xs = sum_mset (image_mset (\<lambda>p. snd (snd p)) (mset xs))" for xs :: "point list"
      by (simp flip: sum_mset_sum_list)
    then show ?thesis by simp
  qed
  then have le: "weight_sum (positive ?o) \<le> 2 ^ 52" using assms by simp
  have "weight_sum (positive ?o) < 2 ^ 53" using le by simp
  then obtain gs where gs: "list_all2 weighs (foldl push_point [] ?o) gs" "concat (rev gs) = positive ?o"
    using push_points_groups [where bs = "[]" and gs = "[]" and ps = ?o] by (metis (no_types, lifting) append_Nil concat.simps(1) empty_iff empty_set list.rel_inject(1) list_all2_Nil rev.simps(1))
  have "list_all2 weighs (rev (foldl push_point [] ?o)) (rev gs)" using gs(1) by (simp add: list_all2_rev)
  moreover have "\<forall>g\<in>set (rev gs). \<forall>p\<in>set g. 0 < snd (snd p)"
  proof (intro ballI)
    fix g p assume "g \<in> set (rev gs)" "p \<in> set g"
    then have "p \<in> set (concat (rev gs))" by auto
    then have "p \<in> set (positive ?o)" unfolding gs(2) .
    then show "0 < snd (snd p)" by simp
  qed
  ultimately have "map (\<lambda>p. (fst p, snd (snd p))) (spread_blocks (rev (foldl push_point [] ?o)) ?o)
      = map (\<lambda>p. (fst p, snd (snd p))) (concat (rev gs))"
    by (intro spread_blocks_keys) (use gs(2) le in \<open>simp_all only:\<close>)
  then show ?thesis unfolding gs(2) isotonic_def Let_def .
qed

subsection \<open>What an estimate rests on\<close>

definition leader_cell_key :: "landing_attempt \<Rightarrow> (string \<times> int \<times> int) option" where
  "leader_cell_key a = (if at_contention a \<noteq> None \<and> at_leader a \<noteq> '''' then Some (leader_key a) else None)"

definition contention_cell_key :: "landing_attempt \<Rightarrow> (int \<times> int) option" where
  "contention_cell_key a = (if at_contention a \<noteq> None then Some (contention_key a) else None)"

definition cells_count :: "conditioned_curve \<Rightarrow> landing_attempt list \<Rightarrow> bool" where
  "cells_count C xs \<longleftrightarrow>
     counts_are (pooled_cells C) (\<lambda>a. Some (bid_bucket (at_bid a))) xs
     \<and> counts_are (congestion_cells C) (\<lambda>a. Some (bid_key a)) xs
     \<and> counts_are (contention_cells C) contention_cell_key xs
     \<and> counts_are (leader_cells C) leader_cell_key xs"

abbreviation admitted :: "bool \<Rightarrow> landing_attempt list \<Rightarrow> landing_attempt list" where
  "admitted only xs \<equiv> filter (\<lambda>a. only \<longrightarrow> at_real a) xs"

lemma record_conditioned_counts:
  "cells_count C xs \<Longrightarrow> cells_count (record_conditioned C a) (xs @ admitted (real_only C) [a])"
  by (auto simp: record_conditioned_def cells_count_def leader_cell_key_def contention_cell_key_def
      intro: counts_are_add counts_are_skip)

lemma record_conditioned_keeps [simp]:
  "min_cell (record_conditioned C a) = min_cell C" "real_only (record_conditioned C a) = real_only C"
  by (simp_all add: record_conditioned_def)

lemma run_conditioned_keeps [simp]:
  "min_cell (run record_conditioned C es) = min_cell C" "real_only (run record_conditioned C es) = real_only C"
  by (induction es arbitrary: C) simp_all

lemma run_conditioned_counts:
  "cells_count C xs \<Longrightarrow> cells_count (run record_conditioned C es) (xs @ admitted (real_only C) es)"
proof (induction es arbitrary: C xs)
  case (Cons a es)
  from Cons.IH [OF record_conditioned_counts [OF Cons.prems, of a]] show ?case by (auto split: if_splits)
qed simp

lemma new_curve_counts:
  "cells_count (run record_conditioned (new_conditioned_curve cell only) es) (admitted only es)"
  using run_conditioned_counts [of "new_conditioned_curve cell only" "[]" es]
  by (simp add: cells_count_def new_conditioned_curve_def)

lemma first_supported_mem: "first_supported least ladder = Some (b, c) \<Longrightarrow> (b, Some c) \<in> set ladder \<and> least \<le> fst c"
  by (induction least ladder rule: first_supported.induct) (auto split: if_splits)

definition matches_basis :: "string \<Rightarrow> string \<Rightarrow> int option \<Rightarrow> pyfloat option \<Rightarrow> landing_attempt \<Rightarrow> bool" where
  "matches_basis basis leader contention congestion a \<longleftrightarrow>
     (if basis = ''leader_contention''
      then at_leader a = leader \<and> at_contention a \<noteq> None \<and> contention_bucket (at_contention a) = contention_bucket contention
      else if basis = ''contention''
      then at_contention a \<noteq> None \<and> contention_bucket (at_contention a) = contention_bucket contention
      else if basis = ''congestion'' then congestion_bucket (at_congestion a) = congestion_bucket congestion
      else basis = ''pooled'')"

lemma dget_cell: "counts_are d key xs \<Longrightarrow> dget d k = Some c \<Longrightarrow> c = tally (\<lambda>a. key a = Some k) xs"
  using counts_areD [of d key xs k] by (simp add: dget_or_def)

lemma ladder_cell:
  assumes "cells_count C xs" "(basis, Some c) \<in> set (cell_ladder C bucket leader contention congestion)"
  shows "c = tally (\<lambda>a. bid_bucket (at_bid a) = bucket \<and> matches_basis basis leader contention congestion a) xs"
proof -
  have counts: "counts_are (pooled_cells C) (\<lambda>a. Some (bid_bucket (at_bid a))) xs"
    "counts_are (congestion_cells C) (\<lambda>a. Some (bid_key a)) xs"
    "counts_are (contention_cells C) contention_cell_key xs" "counts_are (leader_cells C) leader_cell_key xs"
    using assms(1) by (simp_all add: cells_count_def)
  have cong: "tally P xs = tally Q xs" if "\<And>a. P a \<longleftrightarrow> Q a" for P Q
    using that by (metis (no_types, lifting) tally_def filter_cong)
  consider "basis = ''leader_contention''" "leader \<noteq> ''''" "dget (leader_cells C) (leader, contention_bucket contention, bucket) = Some c"
    | "basis = ''contention''" "dget (contention_cells C) (contention_bucket contention, bucket) = Some c"
    | "basis = ''congestion''" "dget (congestion_cells C) (congestion_bucket congestion, bucket) = Some c"
    | "basis = ''pooled''" "dget (pooled_cells C) bucket = Some c"
    using assms(2) by (auto simp: cell_ladder_def split: if_splits)
  then show ?thesis
  proof cases
    case 1
    show ?thesis unfolding dget_cell [OF counts(4) 1(3)]
      by (rule cong) (use 1 in \<open>auto simp: matches_basis_def leader_cell_key_def leader_key_def\<close>)
  next
    case 2
    show ?thesis unfolding dget_cell [OF counts(3) 2(2)]
      by (rule cong) (use 2 in \<open>auto simp: matches_basis_def contention_cell_key_def contention_key_def\<close>)
  next
    case 3
    show ?thesis unfolding dget_cell [OF counts(2) 3(2)]
      by (rule cong) (use 3 in \<open>auto simp: matches_basis_def bid_key_def\<close>)
  next
    case 4
    show ?thesis unfolding dget_cell [OF counts(1) 4(2)]
      by (rule cong) (use 4 in \<open>auto simp: matches_basis_def\<close>)
  qed
qed

lemma estimate_cell:
  assumes "cells_count C xs" "ce_status (conditioned_estimate_at C bid leader contention congestion age) = ''OK''"
  defines "e \<equiv> conditioned_estimate_at C bid leader contention congestion age"
  shows "\<exists>c. c = tally (\<lambda>a. bid_bucket (at_bid a) = bid_bucket bid \<and> matches_basis (ce_basis e) leader contention congestion a) xs
    \<and> min_cell C \<le> fst c \<and> ce_attempts e = fst c \<and> ce_probability e = rate_of c"
proof -
  obtain b c where f: "first_supported (min_cell C) (cell_ladder C (bid_bucket bid) leader contention congestion) = Some (b, c)"
    using assms(2) by (auto simp: conditioned_estimate_at_def Let_def split: prod.splits option.splits)
  then have "ce_basis e = b" "ce_attempts e = fst c" "ce_probability e = rate_of c"
    by (simp_all add: e_def conditioned_estimate_at_def Let_def split: prod.split)
  then show ?thesis using first_supported_mem [OF f] ladder_cell [OF assms(1), of b c] by blast
qed

text \<open>
  After any history, an estimate that answers is the landing rate of exactly the recorded attempts at
  its bid bucket that its basis names, there are enough of them, and on the curve that prices real bids
  every one of them was made with real capital.
\<close>
lemma conditioned_rate_population:
  assumes "C = run record_conditioned (new_conditioned_curve cell only) history"
    and "e = conditioned_estimate_at C bid leader contention congestion age" and "ce_status e = ''OK''"
    and "S = filter (\<lambda>a. (only \<longrightarrow> at_real a) \<and> bid_bucket (at_bid a) = bid_bucket bid
               \<and> matches_basis (ce_basis e) leader contention congestion a) history"
  shows "max 1 cell \<le> int (length S) \<and> ce_attempts e = int (length S)
    \<and> ce_probability e = Some (int_div (int (length (filter at_landed S))) (int (length S)))"
proof -
  let ?P = "\<lambda>a. bid_bucket (at_bid a) = bid_bucket bid \<and> matches_basis (ce_basis e) leader contention congestion a"
  have "cells_count C (admitted only history)" unfolding assms(1) by (rule new_curve_counts)
  from estimate_cell [OF this assms(3) [unfolded assms(2)], folded assms(2)]
  have e: "max 1 cell \<le> fst (tally ?P (admitted only history))" "ce_attempts e = fst (tally ?P (admitted only history))"
    "ce_probability e = rate_of (tally ?P (admitted only history))"
    using assms(1) by (auto simp: new_conditioned_curve_def)
  have "fst (tally ?P (admitted only history)) = int (length S)"
    "snd (tally ?P (admitted only history)) = int (length (filter at_landed S))"
    unfolding assms(4) tally_def by (simp_all add: conj_ac)
  then show ?thesis using e by (auto simp: rate_of_def)
qed

subsection \<open>The curve handed to the optimiser\<close>

lemma int_div_range: "0 \<le> a \<Longrightarrow> a \<le> b \<Longrightarrow> 0 \<le> int_div a b \<and> int_div a b \<le> 1"
proof -
  assume ab: "0 \<le> a" "a \<le> b"
  have "is_double 1" using is_double_of_int [of 1] by simp
  moreover have "of_int a / of_int b \<le> (1::rat)" "0 \<le> of_int a / (of_int b :: rat)"
    using ab by (cases "b = 0"; simp)+
  ultimately show ?thesis unfolding int_div_def by (auto intro: fl_le_double)
qed

lemma rate_range: "rate_of (tally P xs) = Some p \<Longrightarrow> 0 \<le> p \<and> p \<le> 1"
  using int_div_range [OF tally_nonneg, of P xs] by (auto simp: rate_of_def split: if_splits)

lemma estimate_ok_iff:
  assumes "cells_count C xs" "1 \<le> min_cell C"
  shows "ce_probability (conditioned_estimate_at C r leader contention congestion age) = Some p \<Longrightarrow>
    0 \<le> p \<and> p \<le> 1 \<and> 0 < ce_attempts (conditioned_estimate_at C r leader contention congestion age)
    \<and> ce_attempts (conditioned_estimate_at C r leader contention congestion age) \<le> int (length xs)"
proof -
  let ?e = "conditioned_estimate_at C r leader contention congestion age"
  assume p: "ce_probability ?e = Some p"
  then have "ce_status ?e = ''OK''"
    by (auto simp: conditioned_estimate_at_def Let_def split: prod.splits option.splits)
  from estimate_cell [OF assms(1) this] obtain P where
    e: "min_cell C \<le> fst (tally P xs)" "ce_attempts ?e = fst (tally P xs)" "ce_probability ?e = rate_of (tally P xs)"
    by blast
  have "fst (tally P xs) \<le> int (length xs)" by (simp add: tally_def)
  then show ?thesis using e p rate_range [of P xs p] assms(2) by simp
qed

lemma raw_points_rungs:
  "map (\<lambda>pb. fst (fst pb)) (raw_points C leader contention congestion rungs) =
     filter (\<lambda>r. ce_probability (conditioned_estimate_at C r leader contention congestion None) \<noteq> None)
       (one_per_bucket [] (sort (remdups rungs)))"
proof -
  have "map (\<lambda>pb. fst (fst pb)) (concat (map (\<lambda>r. let e = conditioned_estimate_at C r leader contention congestion None
      in case ce_probability e of None \<Rightarrow> [] | Some p \<Rightarrow> [((r, p, max 1 (ce_attempts e)), ce_basis e)]) rs))
    = filter (\<lambda>r. ce_probability (conditioned_estimate_at C r leader contention congestion None) \<noteq> None) rs" for rs
    by (induction rs) (auto simp: Let_def split: option.splits)
  then show ?thesis unfolding raw_points_def .
qed

lemma one_per_bucket_subseq: "sorted_wrt (<) rs \<Longrightarrow> sorted_wrt (<) (one_per_bucket seen rs) \<and> set (one_per_bucket seen rs) \<subseteq> set rs"
  by (induction rs arbitrary: seen) auto

lemma one_per_bucket_sorted: "sorted_wrt (<) (one_per_bucket [] (sort (remdups rungs)))"
  using one_per_bucket_subseq [of "sort (remdups rungs)" "[]"] by (simp add: strict_sorted_iff)

lemma raw_points_mem:
  assumes "pb \<in> set (raw_points C leader contention congestion rungs)"
  shows "\<exists>r p. fst pb = (r, p, max 1 (ce_attempts (conditioned_estimate_at C r leader contention congestion None)))
    \<and> ce_probability (conditioned_estimate_at C r leader contention congestion None) = Some p"
  using assms by (auto simp: raw_points_def Let_def split: option.splits)

lemma raw_point_ok:
  assumes "cells_count C (admitted only history)" "1 \<le> min_cell C"
    and "p \<in> set (map fst (raw_points C leader contention congestion rungs))"
  shows "0 < snd (snd p) \<and> snd (snd p) \<le> int (length history) \<and> 0 \<le> fst (snd p) \<and> fst (snd p) \<le> 1"
proof -
  obtain pb where "pb \<in> set (raw_points C leader contention congestion rungs)" "p = fst pb" using assms(3) unfolding set_map by blast
  then obtain r v where p: "p = (r, v, max 1 (ce_attempts (conditioned_estimate_at C r leader contention congestion None)))"
    "ce_probability (conditioned_estimate_at C r leader contention congestion None) = Some v"
    using raw_points_mem [of pb] by metis
  have "int (length (admitted only history)) \<le> int (length history)" by (simp only: of_nat_le_iff length_filter_le)
  from order.trans [OF _ this] show ?thesis using estimate_ok_iff [OF assms(1,2) p(2)] unfolding p(1) by simp
qed

lemma weight_sum_le: "(\<And>p. p \<in> set ps \<Longrightarrow> snd (snd p) \<le> n) \<Longrightarrow> weight_sum ps \<le> n * int (length ps)"
  by (induction ps) (auto simp: algebra_simps intro: add_mono)

lemma raw_points_length: "length (raw_points C leader contention congestion rungs) \<le> length rungs"
proof -
  have "length (one_per_bucket seen xs) \<le> length xs" for seen xs
    by (induction xs arbitrary: seen) (auto simp: le_SucI)
  then have "length (one_per_bucket [] (sort (remdups rungs))) \<le> length rungs"
    by (metis (no_types, lifting) le_trans length_sort length_remdups_leq)
  moreover have "length (raw_points C leader contention congestion rungs) \<le> length (one_per_bucket [] (sort (remdups rungs)))"
    using arg_cong [OF raw_points_rungs [of C leader contention congestion rungs], of length] by (simp only: length_map length_filter_le)
  ultimately show ?thesis by (rule order.trans [rotated])
qed

lemma raw_points_strict: "sorted_wrt (<) (map fst (map fst (raw_points C leader contention congestion rungs)))"
proof -
  have "map fst (map fst (raw_points C leader contention congestion rungs)) =
      filter (\<lambda>r. ce_probability (conditioned_estimate_at C r leader contention congestion None) \<noteq> None)
        (one_per_bucket [] (sort (remdups rungs)))"
    using raw_points_rungs [of C leader contention congestion rungs] by (simp add: comp_def)
  then show ?thesis using one_per_bucket_sorted [of rungs] by (simp only: sorted_wrt_filter)
qed

text \<open>
  The landing curve handed to the optimiser names every rung the cells can answer exactly once, in
  ascending order, its probabilities never fall as the bid rises and all lie between zero and one.
\<close>
lemma monotone_curve_sound:
  assumes "C = run record_conditioned (new_conditioned_curve cell only) history"
    and "int (length history) * int (length rungs) \<le> 2 ^ 52"
    and "curve = monotone_curve C leader contention congestion rungs"
  shows "map fst curve = filter (\<lambda>r. ce_probability (conditioned_estimate_at C r leader contention congestion None) \<noteq> None)
           (one_per_bucket [] (sort (remdups rungs)))
    \<and> sorted_wrt (<) (map fst curve) \<and> sorted (map (\<lambda>p. fst (snd p)) curve)
    \<and> (\<forall>x\<in>set curve. 0 \<le> fst (snd x) \<and> fst (snd x) \<le> 1)"
proof -
  let ?raw = "raw_points C leader contention congestion rungs"
  let ?rs = "one_per_bucket [] (sort (remdups rungs))"
  let ?pts = "map fst ?raw"
  have cells: "cells_count C (admitted only history)" "1 \<le> min_cell C"
    using new_curve_counts assms(1) by (simp_all add: new_conditioned_curve_def)
  note point = raw_point_ok [OF cells]
  have keys: "map fst ?pts = filter (\<lambda>r. ce_probability (conditioned_estimate_at C r leader contention congestion None) \<noteq> None) ?rs"
    using raw_points_rungs [of C leader contention congestion rungs] by (simp add: comp_def)
  note strict = raw_points_strict [of C leader contention congestion rungs]
  then have srt: "sort_key fst ?pts = ?pts" by (intro sort_key_id_if_sorted) (simp only: strict_sorted_iff)
  have pos: "positive ?pts = ?pts" using point by (intro filter_True) blast
  have "weight_sum ?pts \<le> int (length history) * int (length ?pts)" using point by (intro weight_sum_le) blast
  also have "\<dots> \<le> int (length history) * int (length rungs)"
    using raw_points_length by (intro mult_left_mono) simp_all
  also have "\<dots> \<le> 2 ^ 52" by (rule assms(2))
  finally have le: "weight_sum (positive ?pts) \<le> 2 ^ 52" unfolding pos .
  have iso: "map (\<lambda>p. (fst p, snd (snd p))) (isotonic ?pts) = map (\<lambda>p. (fst p, snd (snd p))) ?pts"
    using isotonic_keys [OF le] unfolding srt pos .
  have first: "map fst (isotonic ?pts) = map fst ?pts"
    using arg_cong [OF iso, of "map fst"] by (simp add: comp_def)
  have curve: "map fst curve = map fst (isotonic ?pts)" "map (\<lambda>p. fst (snd p)) curve = map (\<lambda>p. fst (snd p)) (isotonic ?pts)"
    unfolding assms(3) monotone_curve_def Let_def by (simp_all add: comp_def case_prod_beta)
  have "probability_points ?pts" unfolding probability_points_def
  proof safe
    fix bid v w assume "(bid, v, w) \<in> set ?pts"
    from point [OF this] show "0 \<le> v" "v \<le> 1" by simp_all
  qed
  then have range: "\<forall>v\<in>set (map (\<lambda>p. fst (snd p)) curve). 0 \<le> v \<and> v \<le> 1"
    unfolding curve(2) using isotonic_range by auto
  then have "\<forall>x\<in>set curve. 0 \<le> fst (snd x) \<and> fst (snd x) \<le> 1" unfolding set_map by blast
  moreover have "map fst curve = filter (\<lambda>r. ce_probability (conditioned_estimate_at C r leader contention congestion None) \<noteq> None) ?rs"
    unfolding curve(1) first by (rule keys)
  moreover have "sorted_wrt (<) (map fst curve)" unfolding curve(1) first by (rule strict)
  moreover have "sorted (map (\<lambda>p. fst (snd p)) curve)" unfolding curve(2) by (rule isotonic_sorted)
  ultimately show ?thesis by blast
qed


subsection \<open>The bid\<close>

definition stops :: "marginal_rung \<Rightarrow> bool" where
  "stops r \<longleftrightarrow> (case rung_marginal r of None \<Rightarrow> False | Some m \<Rightarrow> m < 1)"

lemma walk_Cons:
  "walk edge scale max_bid previous (p # ps) =
     (if max_bid < fst p then []
      else rung_of edge scale previous p #
        (if stops (rung_of edge scale previous p) then []
         else walk edge scale max_bid (Some (fst p, fmul (fst (snd p)) scale)) ps))"
proof -
  have "rung_bid (rung_of edge scale previous p) = fst p"
    "rung_probability (rung_of edge scale previous p) = fmul (fst (snd p)) scale"
    by (simp_all add: rung_of_def Let_def split: prod.split)
  then show ?thesis by (simp add: walk.simps(2) stops_def Let_def split: option.split)
qed

text \<open>Every walked rung is within the limit and prices its own point of the curve.\<close>

lemma rung_of_priced:
  "rung_bid (rung_of edge scale previous p) = fst p"
  "rung_value (rung_of edge scale previous p) = fsub (fmul (fmul (fst (snd p)) scale) edge) (float_of_int (fst p))"
  by (simp_all add: rung_of_def Let_def split: prod.split)

lemma walk_priced:
  "r \<in> set (walk edge scale max_bid previous curve) \<Longrightarrow>
     rung_bid r \<le> max_bid \<and> (\<exists>x\<in>set curve. rung_bid r = fst x
       \<and> rung_value r = fsub (fmul (fmul (fst (snd x)) scale) edge) (float_of_int (fst x)))"
proof (induction curve arbitrary: previous)
  case (Cons p ps)
  then consider "r = rung_of edge scale previous p" "fst p \<le> max_bid"
    | "r \<in> set (walk edge scale max_bid (Some (fst p, fmul (fst (snd p)) scale)) ps)"
    by (auto simp: walk_Cons split: if_splits)
  then show ?case
  proof cases
    case 1
    then show ?thesis using rung_of_priced [of edge scale previous p] by auto
  next
    case 2
    then show ?thesis using Cons.IH by (metis list.set_intros(2))
  qed
qed simp

text \<open>Every walked rung but the last pays for its own step.\<close>

lemma walk_marginals:
  "walk edge scale max_bid previous curve = front @ r # s # rest \<Longrightarrow> \<not> stops r"
proof (induction curve arbitrary: previous front)
  case (Cons p ps)
  show ?case
  proof (cases front)
    case Nil
    then show ?thesis using Cons.prems by (auto simp: walk_Cons split: if_splits)
  next
    case (Cons q front')
    then show ?thesis using Cons.prems Cons.IH by (auto simp: walk_Cons split: if_splits)
  qed
qed simp

lemma better_rung_simps [simp]:
  "better_rung None r = Some r"
  "better_rung (Some b) r = (if rung_value b < rung_value r then Some r else Some b)"
  by (simp_all add: better_rung_def)

lemma foldl_better_rung:
  "foldl better_rung (Some b0) rs = Some b \<Longrightarrow>
     b \<in> set (b0 # rs) \<and> (\<forall>r\<in>set (b0 # rs). rung_value r \<le> rung_value b)"
proof (induction rs arbitrary: b0)
  case (Cons r rs)
  have "foldl better_rung (Some (if rung_value b0 < rung_value r then r else b0)) rs = Some b"
    using Cons.prems by (simp split: if_splits)
  from Cons.IH [OF this] show ?case by (auto split: if_splits)
qed simp

lemma best_rung:
  assumes "foldl better_rung None rs = Some b"
  shows "b \<in> set rs \<and> (\<forall>r\<in>set rs. rung_value r \<le> rung_value b)"
proof (cases rs)
  case (Cons r rs')
  then have "foldl better_rung (Some r) rs' = Some b" using assms by simp
  from foldl_better_rung [OF this] show ?thesis using Cons by simp
qed (use assms in simp)

text \<open>
  A bid the conditioned curve recommends is within the limit, its expected value is positive, is what
  the monotone curve times the survival of the blockhash prices it at, and is at least that of every rung
  walked; every walked rung but the last returns at least a lamport per lamport.
\<close>
lemma chosen_bid_sound:
  assumes "d = optimise C edge leader contention congestion age max_bid rungs" and "bd_status d = ''OK''"
    and "scale = (case fst (expiry_survival (expiry C) age) of None \<Rightarrow> 1 | Some s \<Rightarrow> s)"
  shows "0 < edge \<and> bd_bid d \<le> max_bid
    \<and> (\<exists>p basis. (bd_bid d, p, basis) \<in> set (monotone_curve C leader contention congestion rungs)
         \<and> bd_value d = Some (fsub (fmul (fmul p scale) edge) (float_of_int (bd_bid d)))
         \<and> 0 < fsub (fmul (fmul p scale) edge) (float_of_int (bd_bid d))
         \<and> (\<forall>r\<in>set (bd_rungs d). rung_value r \<le> fsub (fmul (fmul p scale) edge) (float_of_int (bd_bid d))))
    \<and> (\<forall>front r s rest. bd_rungs d = front @ r # s # rest \<longrightarrow> (\<forall>m. rung_marginal r = Some m \<longrightarrow> 1 \<le> m))"
proof -
  let ?curve = "monotone_curve C leader contention congestion rungs"
  let ?walked = "walk edge scale max_bid None ?curve"
  have edge: "0 < edge" using assms(1,2) by (auto simp: optimise_def no_decision_def not_le split: if_splits)
  then obtain b where b: "foldl better_rung None ?walked = Some b" "0 < rung_value b"
    and d: "bd_bid d = rung_bid b" "bd_value d = Some (rung_value b)" "bd_rungs d = ?walked"
    using assms by (auto simp: optimise_def no_decision_def Let_def not_le split: if_splits option.splits)
  have best: "b \<in> set ?walked" "\<forall>r\<in>set ?walked. rung_value r \<le> rung_value b" using best_rung [OF b(1)] by auto
  obtain p basis where p: "(rung_bid b, p, basis) \<in> set ?curve"
    "rung_value b = fsub (fmul (fmul p scale) edge) (float_of_int (rung_bid b))"
    using walk_priced [OF best(1)] by (metis prod.collapse)
  have "rung_bid b \<le> max_bid" using walk_priced [OF best(1)] by blast
  moreover have "1 \<le> m" if "?walked = front @ r # s # rest" "rung_marginal r = Some m" for front r s rest m
    using walk_marginals [OF that(1)] that(2) by (simp add: stops_def)
  ultimately show ?thesis
    using edge p b(2) best(2) unfolding d by auto
qed

subsection \<open>Survival\<close>

text \<open>The survival of a hash of known age is a probability, and zero past the published window.\<close>

lemma survival_range:
  assumes "0 \<le> age" "counts_are (expiry_counts E) key xs" "1 \<le> expiry_min_samples E"
    and "expiry_survival E (Some age) = (Some p, basis)"
  shows "0 \<le> p \<and> p \<le> 1 \<and> (validity_slots E \<le> age \<longrightarrow> p = 0)"
proof -
  have one: "is_double 1" using is_double_of_int [of 1] by simp
  have sub: "0 \<le> max 0 (fsub 1 q) \<and> max 0 (fsub 1 q) \<le> 1" if "0 \<le> q" for q
  proof -
    have "fsub 1 q \<le> 1" unfolding fsub_def by (rule fl_le_double [OF one]) (use that in simp)
    then show ?thesis by simp
  qed
  have rate: "0 \<le> int_div k n" if "dget (expiry_counts E) b = Some (n, k)" for n k b
    using int_div_range [OF tally_nonneg, of "\<lambda>a. key a = Some b" xs] dget_cell [OF assms(2) that]
    by (metis fst_conv snd_conv)
  show ?thesis
  proof (cases "validity_slots E \<le> age")
    case True
    then show ?thesis using assms(4) by (simp add: expiry_survival_def)
  next
    case False
    then have "0 \<le> fdiv (float_of_int age) (float_of_int (validity_slots E))"
      using assms(1) by (simp add: fdiv_def float_of_int_def)
    then show ?thesis using assms(4) False sub rate
      by (auto simp: expiry_survival_def split: option.splits if_splits)
  qed
qed

subsection \<open>What the code does not do\<close>

text \<open>
  The walk stops at the first rung that does not pay for itself on the ground that every further rung is
  a transfer.  The curve is monotone but not concave: on these counts the second rung lands no more often
  than the first, the walk ends there, and the third rung, worth almost twice as much, is never looked at.
\<close>

definition flat_step_curve :: conditioned_curve where
  "flat_step_curve = (new_conditioned_curve 30 True)
     \<lparr>pooled_cells := [(0, (30, 15)), (10000, (30, 15)), (50000, (30, 30))]\<rparr>"

lemma flat_isotonic:
  "isotonic [(0, 1/2, 30), (10000, 1/2, 30), (50000, 1, 30)] = [(0, 1/2, 30), (10000, 1/2, 30), (50000, 1, 30)]"
proof -
  have "(0::rat) < fsub 30 (fl (1 / 10^9))" "\<not> (30::rat) < fsub 30 (fl (1 / 10^9))"
    using consumed_less [of 0 30] consumed_less [of 30 30] by simp_all
  then show ?thesis
    by (simp add: isotonic_def push_point_def point_block_def block_mean_def fmul_def fdiv_def fadd_def float_of_int_def
        fl_numeral fl_half)
qed

lemma flat_curve:
  "monotone_curve flat_step_curve '''' None None [0, 10000, 50000]
     = [(0, 1/2, ''pooled''), (10000, 1/2, ''pooled''), (50000, 1, ''pooled'')]"
proof -
  have "raw_points flat_step_curve '''' None None [0, 10000, 50000]
      = [((0, 1/2, 30), ''pooled''), ((10000, 1/2, 30), ''pooled''), ((50000, 1, 30), ''pooled'')]"
    by code_simp
  then show ?thesis by (simp add: monotone_curve_def flat_isotonic dget_or_def)
qed

lemma flat_walk:
  "walk 1000000 1 5000000 None [(0, 1/2, ''pooled''), (10000, 1/2, ''pooled''), (50000, 1, ''pooled'')]
     = [\<lparr>rung_bid = 0, rung_probability = 1/2, rung_value = 500000, rung_marginal = None, rung_basis = ''pooled''\<rparr>,
        \<lparr>rung_bid = 10000, rung_probability = 1/2, rung_value = 490000, rung_marginal = Some 0, rung_basis = ''pooled''\<rparr>]"
  "map rung_value (walk 1000000 1 5000000 None [(50000, 1, ''pooled'')]) = [950000]"
  by (simp_all add: walk_Cons rung_of_def stops_def fmul_def fsub_def fdiv_def float_of_int_def fl_numeral fl_half)

lemma walk_stops_early:
  defines "d \<equiv> optimise flat_step_curve 1000000 '''' None None None 5000000 [0, 10000, 50000]"
  shows "bd_status d = ''OK''" "bd_bid d = 0" "map rung_bid (bd_rungs d) = [0, 10000]"
  by (simp_all add: d_def optimise_def Let_def flat_curve flat_walk expiry_survival_def)

end
