(* ===== verification/Blockhash.thy ===== *)
theory Blockhash
  imports PyText Interfaces
begin

text \<open>
  \<open>chains/blockhash.py\<close>: the blockhash kept fresh in the background and refused when it cannot be
  vouched for.  The RPC reply is an argument (\<open>Reply\<close> carries an empty hash when the response has
  none), and so is the clock.
\<close>

definition BLOCKHASH_VALIDITY_SLOTS :: int where "BLOCKHASH_VALIDITY_SLOTS = 150"

record blockhash_state =
  bh_status :: string
  bh_hash :: string
  bh_last_valid :: int
  bh_fetched_at :: pyfloat
  slots_remaining :: "int option"
  bh_detail :: string

text \<open>\<open>None\<close> is \<open>float("inf")\<close>.\<close>

definition bh_age_s :: "blockhash_state \<Rightarrow> pyfloat \<Rightarrow> pyfloat option" where
  "bh_age_s st now = (if bh_fetched_at st \<le> 0 then None else Some (max 0 (fsub now (bh_fetched_at st))))"

record blockhash_cache =
  refresh_interval_s :: pyfloat
  max_age_s :: pyfloat
  min_slots_remaining :: int
  cached_hash :: string
  last_valid_block_height :: int
  fetched_at :: pyfloat
  refreshes :: nat
  failures :: nat
  served :: nat
  cache_refused :: nat
  last_error :: string

definition new_cache :: "pyfloat \<Rightarrow> pyfloat \<Rightarrow> int \<Rightarrow> blockhash_cache" where
  "new_cache interval max_age min_slots =
     \<lparr>refresh_interval_s = max (fl (1 / 10)) interval, max_age_s = max_age, min_slots_remaining = min_slots,
      cached_hash = '''', last_valid_block_height = 0, fetched_at = 0, refreshes = 0, failures = 0,
      served = 0, cache_refused = 0, last_error = ''''\<rparr>"

datatype rpc_reply = Rpc_raised string | Reply string int

definition refresh :: "blockhash_cache \<Rightarrow> rpc_reply \<Rightarrow> pyfloat \<Rightarrow> blockhash_cache \<times> bool" where
  "refresh c reply now =
     (case reply of
        Rpc_raised exc \<Rightarrow> (c\<lparr>failures := failures c + 1, last_error := exc\<rparr>, False)
      | Reply blockhash height \<Rightarrow>
          if blockhash = ''''
          then (c\<lparr>failures := failures c + 1, last_error := ''response carried no blockhash''\<rparr>, False)
          else (c\<lparr>cached_hash := blockhash, last_valid_block_height := height, fetched_at := now,
                  refreshes := refreshes c + 1, last_error := ''''\<rparr>, True))"

definition bh_state :: "blockhash_cache \<Rightarrow> string \<Rightarrow> int option \<Rightarrow> string \<Rightarrow> blockhash_state" where
  "bh_state c status remaining detail =
     \<lparr>bh_status = status, bh_hash = cached_hash c, bh_last_valid = last_valid_block_height c,
      bh_fetched_at = fetched_at c, slots_remaining = remaining, bh_detail = detail\<rparr>"

definition cache_age :: "blockhash_cache \<Rightarrow> pyfloat \<Rightarrow> pyfloat" where
  "cache_age c now = max 0 (fsub now (fetched_at c))"

definition remaining_slots :: "pyfloat \<Rightarrow> int" where
  "remaining_slots age = BLOCKHASH_VALIDITY_SLOTS - py_trunc (fdiv age (fl (2 / 5)))"

definition current :: "blockhash_cache \<Rightarrow> pyfloat \<Rightarrow> blockhash_cache \<times> blockhash_state" where
  "current c now =
     (if cached_hash c = '''' then
        (c\<lparr>cache_refused := cache_refused c + 1\<rparr>,
         \<lparr>bh_status = ''DATA_BLOCKED'', bh_hash = '''', bh_last_valid = 0, bh_fetched_at = 0,
          slots_remaining = None, bh_detail = ''no blockhash fetched yet''\<rparr>)
      else
        let age = cache_age c now
        in if max_age_s c < age then
             (c\<lparr>cache_refused := cache_refused c + 1\<rparr>,
              bh_state c ''DATA_BLOCKED'' None
                (''cached blockhash is '' @ fixed1_str age @ ''s old ''
                 @ ''(max '' @ fixed0_str (max_age_s c) @ ''s); refresher may have stalled''))
           else
             let remaining = remaining_slots age
             in if remaining < min_slots_remaining c then
                  (c\<lparr>cache_refused := cache_refused c + 1\<rparr>,
                   bh_state c ''DATA_BLOCKED'' (Some remaining)
                     (''only '' @ int_str remaining @ '' slots of validity remain ''
                      @ ''(need '' @ int_str (min_slots_remaining c) @ '')''))
                else (c\<lparr>served := served c + 1\<rparr>, bh_state c ''OK'' (Some remaining) ''''))"

subsection \<open>A history of refreshes and reads\<close>

datatype cache_event = Refresh rpc_reply pyfloat | Read pyfloat

definition cache_step :: "blockhash_cache \<Rightarrow> cache_event \<Rightarrow> blockhash_cache" where
  "cache_step c ev = (case ev of Refresh reply now \<Rightarrow> fst (refresh c reply now) | Read now \<Rightarrow> fst (current c now))"

text \<open>The last refresh that carried a hash.\<close>

fun last_good :: "cache_event list \<Rightarrow> (string \<times> pyfloat) option" where
  "last_good [] = None"
| "last_good (ev # evs) =
     (case last_good evs of
        Some r \<Rightarrow> Some r
      | None \<Rightarrow> (case ev of Refresh (Reply h n) now \<Rightarrow> if h = '''' then None else Some (h, now) | _ \<Rightarrow> None))"

definition is_read :: "cache_event \<Rightarrow> bool" where
  "is_read ev = (case ev of Read now \<Rightarrow> True | _ \<Rightarrow> False)"

lemma refresh_keeps_limits [simp]:
  "max_age_s (cache_step c ev) = max_age_s c" "min_slots_remaining (cache_step c ev) = min_slots_remaining c"
  by (auto simp: cache_step_def refresh_def current_def Let_def split: cache_event.split rpc_reply.split)

lemma cache_step_hash:
  "cached_hash (cache_step c ev) = (case last_good [ev] of Some (h, now) \<Rightarrow> h | None \<Rightarrow> cached_hash c)"
  "fetched_at (cache_step c ev) = (case last_good [ev] of Some (h, now) \<Rightarrow> now | None \<Rightarrow> fetched_at c)"
  by (auto simp: cache_step_def refresh_def current_def Let_def split: cache_event.split rpc_reply.split)

lemma cache_step_counts:
  "served (cache_step c ev) + cache_refused (cache_step c ev)
     = served c + cache_refused c + (if is_read ev then 1 else 0)"
  by (auto simp: cache_step_def refresh_def current_def is_read_def Let_def split: cache_event.split rpc_reply.split)

lemma run_cache:
  "max_age_s (run cache_step c evs) = max_age_s c"
  "min_slots_remaining (run cache_step c evs) = min_slots_remaining c"
  "cached_hash (run cache_step c evs) = (case last_good evs of Some (h, now) \<Rightarrow> h | None \<Rightarrow> cached_hash c)"
  "fetched_at (run cache_step c evs) = (case last_good evs of Some (h, now) \<Rightarrow> now | None \<Rightarrow> fetched_at c)"
  "served (run cache_step c evs) + cache_refused (run cache_step c evs)
     = served c + cache_refused c + length (filter is_read evs)"
  by (induction evs arbitrary: c)
     (auto simp: cache_step_hash cache_step_counts split: option.splits cache_event.splits rpc_reply.splits if_splits)

lemma last_good_nonempty: "last_good evs = Some (h, now) \<Longrightarrow> h \<noteq> ''''"
  by (induction evs) (auto split: option.splits cache_event.splits rpc_reply.splits if_splits)

lemma current_ok:
  assumes "bh_status (snd (current c now)) = ''OK''"
  shows "cached_hash c \<noteq> ''''" "bh_hash (snd (current c now)) = cached_hash c"
    "\<not> max_age_s c < cache_age c now" "min_slots_remaining c \<le> remaining_slots (cache_age c now)"
  using assms by (auto simp: current_def Let_def bh_state_def split: if_splits)

text \<open>
  Whatever refreshes failed and whatever was read before, a hash the cache serves is that of the
  last refresh that carried one, no older than the limit, with the required slots left by the
  cache's own arithmetic; and every read is either served or counted as refused.
\<close>

lemma served_hash_is_latest:
  assumes "bh_status (snd (current (run cache_step (new_cache interval age_limit min_slots) evs) now)) = ''OK''"
  shows "\<exists>h fetched. last_good evs = Some (h, fetched)
    \<and> bh_hash (snd (current (run cache_step (new_cache interval age_limit min_slots) evs) now)) = h
    \<and> max 0 (fsub now fetched) \<le> age_limit
    \<and> min_slots \<le> remaining_slots (max 0 (fsub now fetched))
    \<and> served (run cache_step (new_cache interval age_limit min_slots) evs)
        + cache_refused (run cache_step (new_cache interval age_limit min_slots) evs) = length (filter is_read evs)"
proof -
  let ?c = "run cache_step (new_cache interval age_limit min_slots) evs"
  note ok = current_ok [OF assms]
  obtain h fetched where L: "last_good evs = Some (h, fetched)"
    using ok(1) by (cases "last_good evs") (auto simp: run_cache new_cache_def)
  have "cached_hash ?c = h" "fetched_at ?c = fetched" using L by (simp_all add: run_cache)
  then show ?thesis
    using ok L by (simp add: cache_age_def not_less run_cache(1,2,5)) (simp add: new_cache_def)
qed

end
