(* ===== verification/DecisionSnapshot.thy ===== *)
theory DecisionSnapshot
  imports PyFloat PyText Interfaces
begin

text \<open>
  \<open>strategies/decision_snapshot.py\<close>: a decision frozen with the version of the state it was computed from, the
  counter of that state, and the check before it is executed.  Digests and the evidence dictionary are left out
  except for what execution reads of it; the clock is an argument.
\<close>

datatype decision_status = VALID | STALE | EXPIRED | CONSUMED

record decision_snapshot =
  ds_token :: string
  ds_action :: string
  ds_state_seq :: int
  ds_size :: int
  ds_limit :: int
  ds_created_at :: pyfloat
  ds_expiry :: pyfloat
  ds_q :: pyfloat
  ds_fraction :: "pyfloat option"
  ds_slippage_bps :: int
  ds_consumed :: bool

definition snapshot_status :: "int \<Rightarrow> pyfloat \<Rightarrow> decision_snapshot \<Rightarrow> decision_status" where
  "snapshot_status current now s =
     (if ds_consumed s then CONSUMED
      else if current \<noteq> ds_state_seq s then STALE
      else if ds_expiry s < fsub now (ds_created_at s) then EXPIRED
      else VALID)"

definition consume :: "decision_snapshot \<Rightarrow> decision_snapshot" where
  "consume s = s\<lparr>ds_consumed := True\<rparr>"

type_synonym sequencer = "(string, int) dict"

definition current_seq :: "sequencer \<Rightarrow> string \<Rightarrow> int" where
  "current_seq Q token = dget_or Q token 0"

definition bump_seq :: "string \<Rightarrow> sequencer \<Rightarrow> sequencer" where
  "bump_seq token Q = dput token (dget_or Q token 0 + 1) Q"

definition reset_seq :: "string \<Rightarrow> sequencer \<Rightarrow> sequencer" where
  "reset_seq token Q = dpop token Q"

definition decision_guard :: "decision_snapshot \<Rightarrow> sequencer \<Rightarrow> pyfloat \<Rightarrow> bool \<times> decision_status \<times> string" where
  "decision_guard s Q now =
     (case snapshot_status (current_seq Q (ds_token s)) now s of
        VALID \<Rightarrow> (True, VALID, ''decision matches current state'')
      | STALE \<Rightarrow> (False, STALE, ''state advanced after this decision was made; reprice'')
      | EXPIRED \<Rightarrow> (False, EXPIRED, ''decision older than its expiry; reprice'')
      | CONSUMED \<Rightarrow> (False, CONSUMED, ''decision was already executed''))"

subsection \<open>One decision against the market\<close>

text \<open>The state of a token moves on, and an execution of the decision is attempted: checked, and consumed.\<close>

datatype market_event = Moved string | Attempted pyfloat

record execution_trace =
  et_snapshot :: decision_snapshot
  et_sequencer :: sequencer
  et_executed :: "pyfloat list"

fun attempt_step :: "execution_trace \<Rightarrow> market_event \<Rightarrow> execution_trace" where
  "attempt_step T (Moved token) = T\<lparr>et_sequencer := bump_seq token (et_sequencer T)\<rparr>"
| "attempt_step T (Attempted now) =
     (if fst (decision_guard (et_snapshot T) (et_sequencer T) now)
      then T\<lparr>et_snapshot := consume (et_snapshot T), et_executed := et_executed T @ [now]\<rparr>
      else T)"

lemma current_bump [simp]:
  "current_seq (bump_seq token Q) t = (if t = token then current_seq Q t + 1 else current_seq Q t)"
  by (simp add: current_seq_def bump_seq_def dget_or_def)

lemma guard_valid: "fst (decision_guard s Q now) \<longleftrightarrow>
    \<not> ds_consumed s \<and> current_seq Q (ds_token s) = ds_state_seq s \<and> fsub now (ds_created_at s) \<le> ds_expiry s"
  by (auto simp: decision_guard_def snapshot_status_def)

definition moves :: "string \<Rightarrow> market_event list \<Rightarrow> nat" where
  "moves token events = length (filter (\<lambda>e. e = Moved token) events)"

definition once_and_fresh :: "decision_snapshot \<Rightarrow> sequencer \<Rightarrow> market_event list \<Rightarrow> execution_trace \<Rightarrow> bool" where
  "once_and_fresh s Q events T \<longleftrightarrow>
     current_seq (et_sequencer T) (ds_token s) = current_seq Q (ds_token s) + int (moves (ds_token s) events)
     \<and> et_snapshot T = (if et_executed T = [] then s else consume s)
     \<and> (et_executed T = [] \<or>
        (\<exists>now before after. et_executed T = [now] \<and> events = before @ Attempted now # after \<and> moves (ds_token s) before = 0
           \<and> fsub now (ds_created_at s) \<le> ds_expiry s))"

lemma once_and_fresh_step:
  assumes "once_and_fresh s Q events T" "ds_state_seq s = current_seq Q (ds_token s)" "\<not> ds_consumed s"
  shows "once_and_fresh s Q (events @ [e]) (attempt_step T e)"
proof (cases e)
  case (Moved token)
  have "\<exists>now before after. et_executed T = [now] \<and> events @ [e] = before @ Attempted now # after \<and> moves (ds_token s) before = 0
      \<and> fsub now (ds_created_at s) \<le> ds_expiry s" if "et_executed T \<noteq> []"
    using assms(1) that unfolding once_and_fresh_def by fastforce
  then show ?thesis using assms(1) Moved by (auto simp: once_and_fresh_def moves_def)
next
  case (Attempted now)
  show ?thesis
  proof (cases "fst (decision_guard (et_snapshot T) (et_sequencer T) now)")
    case True
    then have "et_executed T = []" "moves (ds_token s) events = 0" "fsub now (ds_created_at s) \<le> ds_expiry s"
      using assms by (auto simp: once_and_fresh_def guard_valid consume_def split: if_splits)
    then show ?thesis using assms(1) Attempted True unfolding once_and_fresh_def
      by (auto simp: moves_def intro: exI [of _ events] exI [of _ "[]"])
  next
    case False
    have "\<exists>now' before after. et_executed T = [now'] \<and> events @ [e] = before @ Attempted now' # after \<and> moves (ds_token s) before = 0
        \<and> fsub now' (ds_created_at s) \<le> ds_expiry s" if "et_executed T \<noteq> []"
      using assms(1) that unfolding once_and_fresh_def by fastforce
    then show ?thesis using assms(1) Attempted False by (auto simp: once_and_fresh_def moves_def)
  qed
qed


text \<open>
  Only a counter that never restarts orders decisions: once a token's counter is reset, a decision already stale is
  valid again as soon as the counter reaches its number a second time.
\<close>

lemma reset_revives_stale_decision:
  assumes "ds_state_seq s = 1" "\<not> ds_consumed s" "fsub now (ds_created_at s) \<le> ds_expiry s" "current_seq Q (ds_token s) = 2"
  shows "\<not> fst (decision_guard s Q now)" "fst (decision_guard s (bump_seq (ds_token s) (reset_seq (ds_token s) Q)) now)"
  using assms by (simp_all add: guard_valid) (simp add: reset_seq_def current_seq_def dget_or_def)

definition sample_decision :: decision_snapshot where
  "sample_decision = \<lparr>ds_token = ''T'', ds_action = ''add'', ds_state_seq = 0, ds_size = 1, ds_limit = 1, ds_created_at = 0,
     ds_expiry = 1, ds_q = 0, ds_fraction = None, ds_slippage_bps = 100, ds_consumed = False\<rparr>"


end
