(* ===== verification/ElogwEngine.thy ===== *)
theory ElogwEngine
  imports PyText Interfaces
begin

text \<open>
  \<open>ElogwEngine\<close> of \<open>strategies/multihead_predictor.py\<close>: how much of the book a launch may take, and the limits of
  the portfolio and of the day.  What numpy computes over whole arrays (sums, logarithms, powers, the even grid)
  and the built-in \<open>sum\<close> over floats are the fields of \<open>numerics\<close>; elementwise arithmetic is that of doubles.
  Minus infinity is \<open>None\<close>.  The capacity report is left out.
\<close>

subsection \<open>Predictions and the survival curve\<close>

record prediction =
  p_2x :: pyfloat
  p_5x :: pyfloat
  p_10x :: pyfloat
  p_20x :: pyfloat
  p_50x :: pyfloat
  p_100x :: pyfloat
  p_250x :: pyfloat
  p_500x :: pyfloat
  p_rug_30s :: pyfloat
  p_rug_5m :: pyfloat
  expected_slippage :: pyfloat
  expected_hold_time :: pyfloat
  feasible_multiple :: pyfloat

definition SURVIVAL_LEVELS :: "(string \<times> (prediction \<Rightarrow> pyfloat) \<times> pyfloat) list" where
  "SURVIVAL_LEVELS =
     [(''2x_to_5x'', p_2x, 2), (''5x_to_10x'', p_5x, 5), (''10x_to_20x'', p_10x, 10), (''20x_to_50x'', p_20x, 20),
      (''50x_to_100x'', p_50x, 50), (''100x_to_250x'', p_100x, 100), (''250x_to_500x'', p_250x, 250), (''500x_plus'', p_500x, 500)]"

definition FEASIBLE_MULTIPLE_CEILING :: pyfloat where
  "FEASIBLE_MULTIPLE_CEILING = fmul 500 8"

definition clip :: "pyfloat \<Rightarrow> pyfloat \<Rightarrow> pyfloat \<Rightarrow> pyfloat" where
  "clip x low high = min (max x low) high"

text \<open>\<open>np.minimum.accumulate\<close>.\<close>

fun running_min :: "pyfloat \<Rightarrow> pyfloat list \<Rightarrow> pyfloat list" where
  "running_min least [] = []"
| "running_min least (x # xs) = min least x # running_min (min least x) xs"

text \<open>The levels after \<open>_enforce_nested_monotonicity\<close>, which overwrites the prediction's own.\<close>

definition nested_levels :: "prediction \<Rightarrow> pyfloat list" where
  "nested_levels p = running_min 1 (map (\<lambda>(_, level, _). clip (level p) 0 1) SURVIVAL_LEVELS)"

record numerics =
  np_sum :: "pyfloat list \<Rightarrow> pyfloat"
  np_log :: "pyfloat \<Rightarrow> pyfloat"
  np_pow :: "pyfloat \<Rightarrow> pyfloat \<Rightarrow> pyfloat"
  np_grid :: "pyfloat \<Rightarrow> nat \<Rightarrow> pyfloat list"
  py_sum :: "pyfloat list \<Rightarrow> pyfloat"

type_synonym bin = "string \<times> pyfloat \<times> pyfloat"

text \<open>The mass between one level and the next, at the lower multiple.\<close>

fun level_bins :: "(string \<times> pyfloat) list \<Rightarrow> pyfloat list \<Rightarrow> bin list" where
  "level_bins ((name, multiple) # rest) (l # ls) =
     (name, max 0 (fsub l (case ls of [] \<Rightarrow> 0 | higher # _ \<Rightarrow> higher)), fsub multiple 1) # level_bins rest ls"
| "level_bins _ _ = []"

definition survival_bins :: "prediction \<Rightarrow> bin list" where
  "survival_bins p =
     (''under_2x'', max 0 (fsub 1 (hd (nested_levels p))), - fl (35 / 100))
     # level_bins (map (\<lambda>(name, _, multiple). (name, multiple)) SURVIVAL_LEVELS) (nested_levels p)"

definition feasible_return :: "prediction \<Rightarrow> pyfloat" where
  "feasible_return p = clip (fsub (feasible_multiple p) 1) (- fl (98 / 100)) (fsub FEASIBLE_MULTIPLE_CEILING 1)"

definition capped_bins :: "prediction \<Rightarrow> bin list" where
  "capped_bins p =
     (if 0 < feasible_multiple p
      then map (\<lambda>(name, pr, outcome). (name, pr, if 0 < outcome then min outcome (feasible_return p) else outcome)) (survival_bins p)
      else survival_bins p)"

definition rug_probability :: "prediction \<Rightarrow> pyfloat" where
  "rug_probability p = clip (max (p_rug_30s p) (p_rug_5m p)) 0 1"

definition raw_bins :: "prediction \<Rightarrow> bin list" where
  "raw_bins p =
     map (\<lambda>(name, pr, outcome). (name, fmul pr (fsub 1 (rug_probability p)), outcome)) (capped_bins p)
     @ [(''rug'', rug_probability p, - fl (98 / 100))]"

definition probability_bins :: "numerics \<Rightarrow> prediction \<Rightarrow> bin list" where
  "probability_bins N p =
     (let total = py_sum N (map (\<lambda>(_, pr, _). pr) (raw_bins p))
      in if total = 0 then [] else map (\<lambda>(name, pr, outcome). (name, fdiv pr total, outcome)) (raw_bins p))"

subsection \<open>The engine\<close>

record engine_settings =
  risk_aversion :: pyfloat
  max_position_pct :: pyfloat
  max_position_usd :: pyfloat
  max_portfolio_risk :: pyfloat
  max_total_exposure_pct :: pyfloat
  max_concurrent_positions :: int
  min_liquidity_usd :: pyfloat
  max_daily_loss :: pyfloat
  max_daily_loss_pct :: "pyfloat option"
  daily_giveback_pct :: "pyfloat option"
  daily_giveback_arm_pct :: pyfloat
  min_edge_bps :: pyfloat
  max_liquidity_fraction :: pyfloat
  harvest_trigger_ratio :: pyfloat
  harvest_slope :: pyfloat
  small_account_mode :: bool
  small_account_negligible_share :: pyfloat
  uncertainty_penalty :: pyfloat
  drawdown_aversion :: pyfloat

text \<open>Of the dictionary that is a position, what the accounting of the engine and of the desk reads.\<close>

record book_position =
  size_tokens :: int
  remaining_cost :: pyfloat
  risk_contribution :: pyfloat
  initial_size_tokens :: int
  initial_risk :: pyfloat
  initial_cost :: pyfloat
  high_water :: pyfloat

record elogw_engine =
  settings :: engine_settings
  opportunity_quality :: "pyfloat option"
  opportunity_uncertainty :: pyfloat
  portfolio_value :: pyfloat
  open_positions :: "(string, book_position) dict"
  daily_pnl :: pyfloat
  kill_switch_active :: bool
  pnl_day :: int
  day_start_equity :: pyfloat
  daily_peak_pnl :: pyfloat
  ceiling_counts :: "(string, int) dict"
  depth_bound_fractions :: "pyfloat list"

definition normal_settings :: "engine_settings \<Rightarrow> engine_settings" where
  "normal_settings S =
     S\<lparr>risk_aversion := max (risk_aversion S) (fl (1 / 10)), min_liquidity_usd := 5000,
       harvest_trigger_ratio := max 0 (harvest_trigger_ratio S), harvest_slope := max 0 (harvest_slope S),
       small_account_negligible_share := max 0 (small_account_negligible_share S),
       drawdown_aversion := max 0 (drawdown_aversion S)\<rparr>"

definition new_engine :: "engine_settings \<Rightarrow> int \<Rightarrow> elogw_engine" where
  "new_engine S today =
     \<lparr>settings = normal_settings S, opportunity_quality = None, opportunity_uncertainty = 0, portfolio_value = 0,
      open_positions = [], daily_pnl = 0, kill_switch_active = False, pnl_day = today, day_start_equity = 0,
      daily_peak_pnl = 0, ceiling_counts = [], depth_bound_fractions = []\<rparr>"

subsection \<open>The day\<close>

definition roll_day :: "int \<Rightarrow> elogw_engine \<Rightarrow> elogw_engine" where
  "roll_day today E =
     (if today \<noteq> pnl_day E
      then E\<lparr>pnl_day := today, daily_pnl := 0, kill_switch_active := False, daily_peak_pnl := 0,
             day_start_equity := max 0 (portfolio_value E)\<rparr>
      else if day_start_equity E \<le> 0 then E\<lparr>day_start_equity := max 0 (portfolio_value E)\<rparr> else E)"

definition daily_loss_limit :: "elogw_engine \<Rightarrow> pyfloat" where
  "daily_loss_limit E =
     (case max_daily_loss_pct (settings E) of
        None \<Rightarrow> max_daily_loss (settings E)
      | Some pct \<Rightarrow> max 0 (fmul pct (max 0 (if 0 < day_start_equity E then day_start_equity E else portfolio_value E))))"

definition giveback_allowance :: "elogw_engine \<Rightarrow> pyfloat" where
  "giveback_allowance E =
     (let base = (case daily_giveback_pct (settings E) of None \<Rightarrow> 0 | Some x \<Rightarrow> x)
      in case opportunity_quality E of
        None \<Rightarrow> base
      | Some q \<Rightarrow>
          let quality = clip q 0 2; confidence = clip (fsub 1 (opportunity_uncertainty E)) 0 1;
              factor = fadd (1 / 2) (fmul (fmul (1 / 2) quality) confidence)
          in clip (fmul base factor) (fmul base (1 / 2)) (min (fmul base (fl (16 / 10))) (fl (60 / 100))))"

definition giveback_floor :: "elogw_engine \<Rightarrow> pyfloat option" where
  "giveback_floor E =
     (case daily_giveback_pct (settings E) of
        None \<Rightarrow> None
      | Some _ \<Rightarrow>
          let arm = fmul (daily_loss_limit E) (max 0 (daily_giveback_arm_pct (settings E)))
          in if daily_peak_pnl E \<le> 0 \<or> daily_peak_pnl E < arm then None
             else Some (fmul (daily_peak_pnl E) (fsub 1 (giveback_allowance E))))"

definition observe_opportunity_set :: "pyfloat option \<Rightarrow> pyfloat \<Rightarrow> elogw_engine \<Rightarrow> elogw_engine" where
  "observe_opportunity_set quality uncertainty E =
     E\<lparr>opportunity_quality := quality, opportunity_uncertainty := clip uncertainty 0 1\<rparr>"

definition harvest_hurdle_bps :: "elogw_engine \<Rightarrow> pyfloat" where
  "harvest_hurdle_bps E =
     (let S = settings E; limit1 = daily_loss_limit E
      in if limit1 \<le> 0 \<or> daily_pnl E \<le> 0 then min_edge_bps S
         else
           let ratio = fdiv (daily_pnl E) limit1
           in if ratio < harvest_trigger_ratio S then min_edge_bps S
              else fmul (min_edge_bps S) (min 4 (fadd 1 (fmul (fsub ratio (harvest_trigger_ratio S)) (harvest_slope S)))))"

definition update_pnl :: "int \<Rightarrow> pyfloat \<Rightarrow> elogw_engine \<Rightarrow> elogw_engine" where
  "update_pnl today pnl E =
     (let E = roll_day today E;
          E = E\<lparr>daily_pnl := fadd (daily_pnl E) pnl\<rparr>;
          E = E\<lparr>daily_peak_pnl := max (daily_peak_pnl E) (daily_pnl E)\<rparr>
      in if daily_pnl E \<le> - daily_loss_limit E then E\<lparr>kill_switch_active := True\<rparr>
         else case giveback_floor E of
           None \<Rightarrow> E
         | Some least \<Rightarrow> if daily_pnl E \<le> least then E\<lparr>kill_switch_active := True\<rparr> else E)"


subsection \<open>Ceilings\<close>

definition small_account_concentration :: "elogw_engine \<Rightarrow> pyfloat \<Rightarrow> pyfloat" where
  "small_account_concentration E liquidity =
     (let S = settings E
      in if \<not> small_account_mode S \<or> liquidity \<le> 0 \<or> portfolio_value E \<le> 0 then max_position_pct S
         else if small_account_negligible_share S \<le> fdiv (fmul (portfolio_value E) (max_position_pct S)) liquidity
         then max_position_pct S
         else min (fmul (max_position_pct S) 3) (fl (20 / 100)))"

definition depth_ceiling :: "elogw_engine \<Rightarrow> pyfloat \<Rightarrow> pyfloat option \<Rightarrow> string \<times> pyfloat" where
  "depth_ceiling E liquidity depth =
     (case depth of
        Some d \<Rightarrow>
          if 0 < d then (''measured_exit_depth'', fdiv d (portfolio_value E))
          else (''pool_depth'', fdiv (fmul liquidity (max_liquidity_fraction (settings E))) (portfolio_value E))
      | None \<Rightarrow> (''pool_depth'', fdiv (fmul liquidity (max_liquidity_fraction (settings E))) (portfolio_value E)))"

definition exposure_ceilings :: "elogw_engine \<Rightarrow> pyfloat \<Rightarrow> pyfloat option \<Rightarrow> (string, pyfloat) dict" where
  "exposure_ceilings E liquidity depth =
     (if portfolio_value E \<le> 0 \<or> liquidity \<le> 0 then []
      else [(''concentration'', small_account_concentration E liquidity),
            (''max_position_usd'', fdiv (max_position_usd (settings E)) (portfolio_value E)),
            depth_ceiling E liquidity depth])"

definition binding_ceiling :: "elogw_engine \<Rightarrow> pyfloat \<Rightarrow> pyfloat option \<Rightarrow> string \<times> pyfloat" where
  "binding_ceiling E liquidity depth =
     (let ceilings = exposure_ceilings E liquidity depth
      in if ceilings = [] then ('''', 0) else first_max (\<lambda>(_, c). - c) ceilings)"

text \<open>\<open>exposure_cap\<close> counts what bound the size, and keeps the last 512 fractions the depth bound.\<close>

definition exposure_cap :: "pyfloat \<Rightarrow> pyfloat option \<Rightarrow> elogw_engine \<Rightarrow> elogw_engine \<times> pyfloat" where
  "exposure_cap liquidity depth E =
     (let (name, cap) = binding_ceiling E liquidity depth
      in if name = '''' then (E, 0)
         else
           let E = E\<lparr>ceiling_counts := dput name (dget_or (ceiling_counts E) name 0 + 1) (ceiling_counts E)\<rparr>
           in (if name \<in> {''pool_depth'', ''measured_exit_depth''}
               then E\<lparr>depth_bound_fractions := evict_oldest 512 (depth_bound_fractions E @ [cap])\<rparr> else E, cap))"

subsection \<open>Growth\<close>

definition execution_cost :: "prediction \<Rightarrow> pyfloat" where
  "execution_cost p = fadd (fl (3 / 1000)) (max 0 (expected_slippage p))"

text \<open>Minus the normalised sum of \<open>p log p\<close>.\<close>

definition bins_entropy :: "numerics \<Rightarrow> bin list \<Rightarrow> pyfloat" where
  "bins_entropy N bins =
     fdiv (- np_sum N (map (\<lambda>(_, pr, _). fmul pr (np_log N (clip pr (fl (1 / 10^12)) 1))) bins))
       (max (np_log N (float_of_int (int (length bins)))) (fl (1 / 10^12)))"

definition growth_inputs :: "numerics \<Rightarrow> prediction \<Rightarrow> (bin list \<times> pyfloat) option" where
  "growth_inputs N p =
     (let bins = probability_bins N p
      in if bins = [] \<or> hd (nested_levels p) \<le> 0 then None
         else Some (map (\<lambda>(name, pr, outcome). (name, pr, fsub outcome (execution_cost p))) bins, bins_entropy N bins))"

text \<open>
  The expected logarithm of the wealth of each bin less the uncertainty penalty: none when a bin leaves no
  wealth, or when capital is committed and the drawdown moment exceeds one.
\<close>

definition growth_value :: "numerics \<Rightarrow> engine_settings \<Rightarrow> (pyfloat \<times> pyfloat) list \<Rightarrow> pyfloat \<Rightarrow> pyfloat \<Rightarrow> pyfloat option" where
  "growth_value N S outcomes entropy committed =
     (if list_ex (\<lambda>(pr, w). w \<le> 0) outcomes then None
      else if 0 < drawdown_aversion S \<and> 0 < committed
           \<and> fadd 1 (fl (1 / 10^12)) < np_sum N (map (\<lambda>(pr, w). fmul pr (np_pow N w (- drawdown_aversion S))) outcomes)
      then None
      else Some (fdiv (fsub (np_sum N (map (\<lambda>(pr, w). fmul pr (np_log N w)) outcomes))
                            (fmul (fmul (uncertainty_penalty S) entropy) committed))
                      (risk_aversion S)))"

definition log_growth_at_fraction :: "numerics \<Rightarrow> engine_settings \<Rightarrow> prediction \<Rightarrow> pyfloat \<Rightarrow> pyfloat option" where
  "log_growth_at_fraction N S p fraction =
     (case growth_inputs N p of
        None \<Rightarrow> None
      | Some (bins, entropy) \<Rightarrow>
          if fraction < 0 then None
          else growth_value N S (map (\<lambda>(_, pr, net). (pr, fadd 1 (fmul fraction net))) bins) entropy fraction)"

text \<open>\<open>np.argmax\<close> over the grid: the first of the best, and the first of all when none is finite.\<close>

definition grid_best :: "(pyfloat \<times> pyfloat option) list \<Rightarrow> pyfloat \<times> pyfloat option" where
  "grid_best points =
     (case filter (\<lambda>(_, g). g \<noteq> None) points of
        [] \<Rightarrow> hd points
      | finite_points \<Rightarrow> first_max (\<lambda>(_, g). the g) finite_points)"

definition calculate_expected_log_growth ::
    "numerics \<Rightarrow> prediction \<Rightarrow> pyfloat \<Rightarrow> pyfloat \<Rightarrow> pyfloat option \<Rightarrow> elogw_engine
     \<Rightarrow> elogw_engine \<times> pyfloat option \<times> pyfloat \<times> pyfloat" where
  "calculate_expected_log_growth N p sol_price liquidity depth E =
     (if portfolio_value E \<le> 0 \<or> sol_price \<le> 0 \<or> liquidity \<le> 0 then (E, None, 0, 0)
      else if growth_inputs N p = None then (E, None, 0, 0)
      else
        let (E, cap) = exposure_cap liquidity depth E
        in if cap \<le> 0 then (E, None, 0, 0)
           else
             let (fraction, growth) =
                   grid_best (map (\<lambda>f. (f, log_growth_at_fraction N (settings E) p f)) (np_grid N cap 401))
             in (E, growth, fraction, fdiv (fmul (portfolio_value E) fraction) sol_price))"

definition marginal_log_growth ::
    "numerics \<Rightarrow> engine_settings \<Rightarrow> prediction \<Rightarrow> pyfloat \<Rightarrow> pyfloat \<Rightarrow> pyfloat \<Rightarrow> pyfloat option" where
  "marginal_log_growth N S p held_fraction current_multiple added_fraction =
     (let held = max 0 held_fraction; added = max 0 added_fraction; multiple = max 0 current_multiple;
          bins = probability_bins N p;
          cash = fsub (fsub 1 held) added;
          position_now = fadd (fmul held multiple) added
      in if bins = [] \<or> cash < 0 \<or> position_now < 0 then None
         else growth_value N S
                (map (\<lambda>(_, pr, outcome). (pr, fsub (fadd cash (fmul position_now (fadd 1 outcome))) (fmul added (execution_cost p)))) bins)
                (bins_entropy N bins) added)"

text \<open>The loop over the grid keeps the first strictly better addition.\<close>

fun better_addition :: "(pyfloat \<Rightarrow> pyfloat option) \<Rightarrow> pyfloat \<Rightarrow> pyfloat list \<Rightarrow> pyfloat \<times> pyfloat \<Rightarrow> pyfloat \<times> pyfloat" where
  "better_addition gain_of baseline [] best = best"
| "better_addition gain_of baseline (f # fs) best =
     better_addition gain_of baseline fs
       (case gain_of f of
          None \<Rightarrow> best
        | Some g \<Rightarrow> if snd best < fsub g baseline then (f, fsub g baseline) else best)"

definition plan_scale_in ::
    "numerics \<Rightarrow> prediction \<Rightarrow> pyfloat \<Rightarrow> pyfloat \<Rightarrow> pyfloat \<Rightarrow> pyfloat option \<Rightarrow> elogw_engine
     \<Rightarrow> elogw_engine \<times> pyfloat \<times> pyfloat" where
  "plan_scale_in N p held_cost multiple liquidity equity E =
     (let E = (case equity of None \<Rightarrow> E | Some x \<Rightarrow> E\<lparr>portfolio_value := max 0 x\<rparr>)
      in if portfolio_value E \<le> 0 \<or> liquidity \<le> 0 then (E, 0, 0)
         else
           let held = fdiv (max 0 held_cost) (portfolio_value E);
               (E, cap) = exposure_cap liquidity None E;
               headroom = fsub cap held
           in if headroom \<le> 0 then (E, 0, 0)
              else case marginal_log_growth N (settings E) p held multiple 0 of
                None \<Rightarrow> (E, 0, 0)
              | Some baseline \<Rightarrow>
                  (E, better_addition (marginal_log_growth N (settings E) p held multiple) baseline
                        (tl (np_grid N headroom 200)) (0, 0)))"

subsection \<open>Admission\<close>

text \<open>The reason of a refusal; the model bundle is trained or not.\<close>

definition admissible :: "bool \<Rightarrow> int \<Rightarrow> prediction \<Rightarrow> pyfloat \<Rightarrow> pyfloat \<Rightarrow> pyfloat \<Rightarrow> elogw_engine \<Rightarrow> elogw_engine \<times> string option" where
  "admissible trained today p sol_price liquidity equity E =
     (let E = roll_day today (E\<lparr>portfolio_value := max 0 equity\<rparr>)
      in if \<not> trained then (E, Some ''DATA_BLOCKED'')
         else if kill_switch_active E \<or> daily_pnl E \<le> - daily_loss_limit E
         then (E\<lparr>kill_switch_active := True\<rparr>, Some ''daily_loss_kill_switch'')
         else if portfolio_value E \<le> 0 \<or> sol_price \<le> 0 then (E, Some ''DATA_BLOCKED'')
         else if max_concurrent_positions (settings E) \<le> int (length (open_positions E)) then (E, Some ''max_concurrent_positions'')
         else if expected_slippage p < 0 then (E, Some ''DATA_BLOCKED'')
         else if liquidity < min_liquidity_usd (settings E) then (E, Some ''liquidity_too_low'')
         else (E, None))"

record sized_trade =
  tr_elogw :: "pyfloat option"
  tr_fraction :: pyfloat
  tr_size_sol :: pyfloat
  tr_value_usd :: pyfloat
  tr_risk :: pyfloat
  tr_edge_bps :: "pyfloat option"
  tr_hurdle_bps :: pyfloat
  tr_p_rug :: pyfloat
  tr_bins :: "bin list"
  tr_shrink :: pyfloat
  tr_ceiling :: string

text \<open>\<open>shrink\<close>: what the disagreement among the desk's views leaves of the size, none when it was not read.\<close>

definition size_candidate ::
    "numerics \<Rightarrow> prediction \<Rightarrow> pyfloat \<Rightarrow> pyfloat \<Rightarrow> pyfloat option \<Rightarrow> pyfloat option \<Rightarrow> elogw_engine \<Rightarrow> elogw_engine \<times> sized_trade" where
  "size_candidate N p sol_price liquidity shrink depth E =
     (let (E, elogw, fraction, size_sol) = calculate_expected_log_growth N p sol_price liquidity depth E;
          fraction = (case shrink of None \<Rightarrow> fraction | Some k \<Rightarrow> fmul fraction k);
          size_sol = (case shrink of None \<Rightarrow> size_sol | Some k \<Rightarrow> fmul size_sol k);
          p_rug = max (p_rug_30s p) (p_rug_5m p)
      in (E, \<lparr>tr_elogw = elogw, tr_fraction = fraction, tr_size_sol = size_sol, tr_value_usd = fmul size_sol sol_price,
              tr_risk = fmul fraction p_rug, tr_edge_bps = map_option (\<lambda>g. fmul g 10000) elogw,
              tr_hurdle_bps = harvest_hurdle_bps E, tr_p_rug = p_rug, tr_bins = probability_bins N p,
              tr_shrink = (case shrink of None \<Rightarrow> 1 | Some k \<Rightarrow> k), tr_ceiling = fst (binding_ceiling E liquidity depth)\<rparr>))"

definition book_exposure :: "numerics \<Rightarrow> elogw_engine \<Rightarrow> pyfloat" where
  "book_exposure N E = py_sum N (map (\<lambda>(_, pos). remaining_cost pos) (open_positions E))"

definition book_risk :: "numerics \<Rightarrow> elogw_engine \<Rightarrow> pyfloat" where
  "book_risk N E = py_sum N (map (\<lambda>(_, pos). risk_contribution pos) (open_positions E))"

definition portfolio_room :: "numerics \<Rightarrow> sized_trade \<Rightarrow> elogw_engine \<Rightarrow> string option" where
  "portfolio_room N t E =
     (if fmul (portfolio_value E) (max_total_exposure_pct (settings E)) < fadd (book_exposure N E) (tr_value_usd t)
      then Some ''total_exposure_limit''
      else if max_portfolio_risk (settings E) < fadd (book_risk N E) (tr_risk t) then Some ''portfolio_risk_limit''
      else None)"

definition should_trade ::
    "numerics \<Rightarrow> bool \<Rightarrow> int \<Rightarrow> prediction \<Rightarrow> pyfloat \<Rightarrow> pyfloat \<Rightarrow> pyfloat \<Rightarrow> elogw_engine \<Rightarrow> elogw_engine \<times> (string + sized_trade)" where
  "should_trade N trained today p sol_price liquidity equity E =
     (case admissible trained today p sol_price liquidity equity E of
        (E, Some reason) \<Rightarrow> (E, Inl reason)
      | (E, None) \<Rightarrow>
          if fl (40 / 100) < p_rug_30s p \<or> fl (50 / 100) < p_rug_5m p then (E, Inl ''rug_risk_too_high'')
          else if p_2x p < fl (10 / 100) \<or> p_5x p < fl (5 / 100) then (E, Inl ''insufficient_upside'')
          else if fl (15 / 100) < expected_slippage p then (E, Inl ''slippage_too_high'')
          else
            let (E, t) = size_candidate N p sol_price liquidity None None E
            in if (case tr_edge_bps t of None \<Rightarrow> True | Some edge \<Rightarrow> edge < tr_hurdle_bps t) then (E, Inl ''edge_below_threshold'')
               else case portfolio_room N t E of
                 Some reason \<Rightarrow> (E, Inl reason)
               | None \<Rightarrow> (E, Inr t))"

subsection \<open>Positions\<close>

definition update_position :: "string \<Rightarrow> book_position \<Rightarrow> elogw_engine \<Rightarrow> string + elogw_engine" where
  "update_position token pos E =
     (if token \<in> set (dkeys (open_positions E)) then Inl (''position already exists for '' @ token)
      else Inr (E\<lparr>open_positions := dput token pos (open_positions E)\<rparr>))"

definition close_position :: "string \<Rightarrow> elogw_engine \<Rightarrow> elogw_engine" where
  "close_position token E = E\<lparr>open_positions := dpop token (open_positions E)\<rparr>"

definition reduced_position :: "int \<Rightarrow> pyfloat \<Rightarrow> book_position \<Rightarrow> book_position" where
  "reduced_position sold cost pos =
     (let left = max 0 (size_tokens pos - sold)
      in pos\<lparr>size_tokens := left, remaining_cost := max 0 (fsub (remaining_cost pos) cost),
             risk_contribution := fdiv (fmul (initial_risk pos) (float_of_int left))
               (max (float_of_int (initial_size_tokens pos)) 1)\<rparr>)"

text \<open>\<open>None\<close>: the token is not held.\<close>

definition reduce_position :: "string \<Rightarrow> int \<Rightarrow> pyfloat \<Rightarrow> elogw_engine \<Rightarrow> elogw_engine option" where
  "reduce_position token sold cost E =
     (case dget (open_positions E) token of
        None \<Rightarrow> None
      | Some pos \<Rightarrow>
          let pos = reduced_position sold cost pos; E = E\<lparr>open_positions := dput token pos (open_positions E)\<rparr>
          in Some (if size_tokens pos = 0 then close_position token E else E))"


subsection \<open>The size and its ceilings\<close>

text \<open>What numpy documents of \<open>linspace(0, stop, n)\<close>: it starts at zero and stays within the interval.\<close>

definition even_grid :: "numerics \<Rightarrow> bool" where
  "even_grid N \<longleftrightarrow>
     (\<forall>stop n. 0 < stop \<longrightarrow> 0 < n \<longrightarrow> np_grid N stop n \<noteq> [] \<and> hd (np_grid N stop n) = 0 \<and> set (np_grid N stop n) \<subseteq> {0..stop})"

definition same_book :: "elogw_engine \<Rightarrow> elogw_engine \<Rightarrow> bool" where
  "same_book E E' \<longleftrightarrow> E' = E\<lparr>ceiling_counts := ceiling_counts E', depth_bound_fractions := depth_bound_fractions E'\<rparr>"

lemma ceiling_names: "(name, c) \<in> set (exposure_ceilings E liquidity depth) \<Longrightarrow> name \<noteq> ''''"
  by (auto simp: exposure_ceilings_def depth_ceiling_def split: if_splits option.splits)

lemma binding_ceiling_in:
  "exposure_ceilings E liquidity depth \<noteq> [] \<Longrightarrow> binding_ceiling E liquidity depth \<in> set (exposure_ceilings E liquidity depth)"
  by (simp add: binding_ceiling_def Let_def first_max_in)

lemma exposure_cap_cases:
  assumes "exposure_cap liquidity depth E = (E', cap)"
  shows "same_book E E' \<and> cap = snd (binding_ceiling E liquidity depth)"
proof -
  have "fst (binding_ceiling E liquidity depth) = '''' \<Longrightarrow> snd (binding_ceiling E liquidity depth) = 0"
  proof (cases "exposure_ceilings E liquidity depth = []")
    case False
    then have "fst (binding_ceiling E liquidity depth) \<noteq> ''''" using binding_ceiling_in ceiling_names by (metis prod.collapse)
    then show "fst (binding_ceiling E liquidity depth) = '''' \<Longrightarrow> ?thesis" by simp
  qed (simp add: binding_ceiling_def)
  then show ?thesis
    using assms by (auto simp: exposure_cap_def same_book_def Let_def split: prod.splits if_splits)
qed

lemma binding_ceiling_least:
  assumes "(name, c) \<in> set (exposure_ceilings E liquidity depth)"
  shows "snd (binding_ceiling E liquidity depth) \<le> c"
  using first_max_ge [OF assms, of "\<lambda>(_, c). - c"] assms
  by (auto simp: binding_ceiling_def Let_def split_beta)

lemma ceilings_bound:
  assumes "0 < snd (binding_ceiling E liquidity depth)"
  shows "snd (binding_ceiling E liquidity depth) \<le> small_account_concentration E liquidity
    \<and> snd (binding_ceiling E liquidity depth) \<le> fdiv (max_position_usd (settings E)) (portfolio_value E)
    \<and> snd (binding_ceiling E liquidity depth) \<le> snd (depth_ceiling E liquidity depth)"
proof -
  have "\<not> (portfolio_value E \<le> 0 \<or> liquidity \<le> 0)"
    using assms by (auto simp: binding_ceiling_def exposure_ceilings_def)
  then have "exposure_ceilings E liquidity depth =
      [(''concentration'', small_account_concentration E liquidity),
       (''max_position_usd'', fdiv (max_position_usd (settings E)) (portfolio_value E)), depth_ceiling E liquidity depth]"
    by (simp only: exposure_ceilings_def if_False)
  then show ?thesis
    using binding_ceiling_least [of _ _ E liquidity depth] by (metis list.set_intros prod.collapse)
qed

lemma grid_best_cases:
  assumes "points \<noteq> []" "grid_best points = (f, g)"
  shows "(f, g) \<in> set points \<and> (g = None \<longrightarrow> (f, g) = hd points \<and> list_all (\<lambda>(_, h). h = None) points)
    \<and> (\<forall>x y. g = Some y \<longrightarrow> (\<forall>h. (h, Some x) \<in> set points \<longrightarrow> x \<le> y))"
proof (cases "filter (\<lambda>(_, g). g \<noteq> None) points")
  case Nil
  then have "list_all (\<lambda>(_, h). h = None) points" by (auto simp: filter_empty_conv list_all_iff)
  moreover have "(f, g) = hd points" using assms(2) Nil by (simp add: grid_best_def)
  moreover have "hd points \<in> set points" using assms(1) by simp
  ultimately show ?thesis by (auto simp: list_all_iff) 
next
  case (Cons q qs)
  let ?F = "filter (\<lambda>(_, g). g \<noteq> None) points"
  have b: "(f, g) = first_max (\<lambda>(_, g). the g) ?F" using assms(2) Cons by (simp add: grid_best_def)
  have "(f, g) \<in> set ?F" unfolding b using Cons by (intro first_max_in) simp
  moreover have "x \<le> y" if "g = Some y" "(h, Some x) \<in> set points" for x y h
  proof -
    have "(h, Some x) \<in> set ?F" using that by simp
    from first_max_ge [OF this, of "\<lambda>(_, g). the g"] show ?thesis unfolding b [symmetric] using that by simp
  qed
  ultimately show ?thesis by (auto dest: filter_is_subset [THEN subsetD])
qed

lemma log_growth_meaning:
  assumes "log_growth_at_fraction N S p f = Some g" "growth_inputs N p = Some (bins, entropy)" "0 < f"
  shows "list_all (\<lambda>(_, _, net). 0 < fadd 1 (fmul f net)) bins"
    and "0 < drawdown_aversion S \<longrightarrow>
        np_sum N (map (\<lambda>(_, pr, net). fmul pr (np_pow N (fadd 1 (fmul f net)) (- drawdown_aversion S))) bins) \<le> fadd 1 (fl (1 / 10^12))"
  using assms
  by (auto simp: log_growth_at_fraction_def growth_value_def list_all_iff list_ex_iff not_le not_less comp_def case_prod_unfold
      split: if_splits)

text \<open>
  C11: A size the engine asks for is a positive fraction of the book within the concentration limit, the dollar limit
  and the depth of the pool; it leaves wealth in every outcome of the survival curve, costs included, and keeps
  the drawdown moment at one; no other size of the grid under the same ceiling has a greater expected log growth.
  Asking changes nothing but the capacity counters.
\<close>
theorem size_is_best_within_ceilings:
  assumes "even_grid N" "calculate_expected_log_growth N p sol_price liquidity depth E = (E', growth, f, size_sol)" "0 < size_sol"
  shows "0 < f \<and> f \<le> small_account_concentration E liquidity \<and> f \<le> fdiv (max_position_usd (settings E)) (portfolio_value E)
    \<and> f \<le> snd (depth_ceiling E liquidity depth) \<and> size_sol = fdiv (fmul (portfolio_value E) f) sol_price \<and> same_book E E'
    \<and> (\<exists>bins entropy g. growth_inputs N p = Some (bins, entropy) \<and> growth = Some g
        \<and> list_all (\<lambda>(_, _, net). 0 < fadd 1 (fmul f net)) bins
        \<and> (0 < drawdown_aversion (settings E) \<longrightarrow>
            np_sum N (map (\<lambda>(_, pr, net). fmul pr (np_pow N (fadd 1 (fmul f net)) (- drawdown_aversion (settings E)))) bins)
              \<le> fadd 1 (fl (1 / 10^12)))
        \<and> (\<forall>h\<in>set (np_grid N (snd (binding_ceiling E liquidity depth)) 401).
             \<forall>x. log_growth_at_fraction N (settings E) p h = Some x \<longrightarrow> x \<le> g))"
proof -
  let ?cap = "snd (binding_ceiling E liquidity depth)"
  let ?grid = "np_grid N ?cap 401"
  let ?points = "map (\<lambda>f. (f, log_growth_at_fraction N (settings E) p f)) ?grid"
  obtain E1 cap1 where e1: "exposure_cap liquidity depth E = (E1, cap1)" by fastforce
  from exposure_cap_cases [OF e1] have same: "same_book E E1" and cap: "cap1 = ?cap" by auto
  then have fields: "settings E1 = settings E" "portfolio_value E1 = portfolio_value E"
    unfolding same_book_def by (metis elogw_engine.simps elogw_engine.surjective elogw_engine.update_convs)+
  have go: "\<not> (portfolio_value E \<le> 0 \<or> sol_price \<le> 0 \<or> liquidity \<le> 0)" "growth_inputs N p \<noteq> None" "\<not> cap1 \<le> 0"
    using assms(2,3) e1 by (auto simp: calculate_expected_log_growth_def Let_def split: if_splits)
  have best: "grid_best ?points = (f, growth)" "E' = E1" "size_sol = fdiv (fmul (portfolio_value E) f) sol_price"
    using assms(2) go e1 cap fields unfolding calculate_expected_log_growth_def Let_def
    by (auto simp add: case_prod_unfold prod_eq_iff)
  have inputs: "growth_inputs N p \<noteq> None" and pos: "0 < ?cap" using go cap by simp_all
  from assms(1) pos have grid: "?grid \<noteq> []" "hd ?grid = 0" "set ?grid \<subseteq> {0..?cap}" unfolding even_grid_def by auto
  note b = grid_best_cases [OF _ best(1)]
  have f0: "f \<noteq> 0" using assms(3) best(3) by (auto simp: fdiv_def fmul_def)
  have "growth \<noteq> None"
  proof
    assume "growth = None"
    then have "(f, growth) = hd ?points" using b grid(1) by auto
    then show False using grid(1,2) f0 by (simp add: hd_map)
  qed
  then obtain g where g: "growth = Some g" by blast
  have mem: "f \<in> set ?grid" and worth: "log_growth_at_fraction N (settings E) p f = Some g" using b grid(1) g by auto
  obtain bins entropy where i: "growth_inputs N p = Some (bins, entropy)" using inputs by fastforce
  have f: "0 < f" "f \<le> ?cap" using mem grid(3) f0 by (auto simp: less_le)
  have max: "\<forall>h\<in>set ?grid. \<forall>x. log_growth_at_fraction N (settings E) p h = Some x \<longrightarrow> x \<le> g"
  proof (intro ballI allI impI)
    fix h x assume "h \<in> set ?grid" "log_growth_at_fraction N (settings E) p h = Some x"
    then have "(h, Some x) \<in> set ?points" by force
    then show "x \<le> g" using b grid(1) g by blast
  qed
  note bounds = ceilings_bound [OF pos] and meaning = log_growth_meaning [OF worth i f(1)]
  have "f \<le> small_account_concentration E liquidity" "f \<le> fdiv (max_position_usd (settings E)) (portfolio_value E)"
    "f \<le> snd (depth_ceiling E liquidity depth)"
    using f(2) bounds by (meson order.trans)+
  moreover have "same_book E E'" using same best(2) by simp
  ultimately show ?thesis
    by - (intro conjI exI, rule f(1), assumption+, rule best(3), assumption, rule i, rule g, rule meaning(1), rule meaning(2), rule max)
qed


subsection \<open>The kill switch\<close>

datatype engine_event =
  Booked int pyfloat
| Asked bool int prediction pyfloat pyfloat pyfloat
| Sized numerics prediction pyfloat pyfloat "pyfloat option" "pyfloat option"
| Planned numerics prediction pyfloat pyfloat pyfloat "pyfloat option"
| Valued pyfloat
| Opened string book_position
| Reduced string int pyfloat
| Surveyed "pyfloat option" pyfloat

fun engine_step :: "elogw_engine \<Rightarrow> engine_event \<Rightarrow> elogw_engine" where
  "engine_step E (Booked today pnl) = update_pnl today pnl E"
| "engine_step E (Asked trained today p sol_price liquidity equity) = fst (admissible trained today p sol_price liquidity equity E)"
| "engine_step E (Sized N p sol_price liquidity shrink depth) = fst (size_candidate N p sol_price liquidity shrink depth E)"
| "engine_step E (Planned N p held multiple liquidity equity) = fst (plan_scale_in N p held multiple liquidity equity E)"
| "engine_step E (Valued equity) = E\<lparr>portfolio_value := equity\<rparr>"
| "engine_step E (Opened token pos) = (case update_position token pos E of Inl _ \<Rightarrow> E | Inr E' \<Rightarrow> E')"
| "engine_step E (Reduced token sold cost) = (case reduce_position token sold cost E of None \<Rightarrow> E | Some E' \<Rightarrow> E')"
| "engine_step E (Surveyed quality uncertainty) = observe_opportunity_set quality uncertainty E"

fun on_day :: "int \<Rightarrow> engine_event \<Rightarrow> bool" where
  "on_day d (Booked today pnl) \<longleftrightarrow> today = d"
| "on_day d (Asked trained today p sol_price liquidity equity) \<longleftrightarrow> today = d"
| "on_day d _ \<longleftrightarrow> True"

text \<open>Stopped for the day.\<close>

definition stopped_on :: "int \<Rightarrow> elogw_engine \<Rightarrow> bool" where
  "stopped_on d E \<longleftrightarrow> pnl_day E = d \<and> kill_switch_active E"

lemma same_book_fields:
  "same_book E E' \<Longrightarrow> pnl_day E' = pnl_day E \<and> kill_switch_active E' = kill_switch_active E \<and> settings E' = settings E
    \<and> open_positions E' = open_positions E \<and> portfolio_value E' = portfolio_value E"
  unfolding same_book_def
  by (metis elogw_engine.select_convs elogw_engine.surjective elogw_engine.update_convs(11,12))

lemma exposure_cap_same: "same_book E (fst (exposure_cap liquidity depth E))"
  using exposure_cap_cases by (metis prod.collapse)

lemma calculate_same: "same_book E (fst (calculate_expected_log_growth N p sol_price liquidity depth E))"
  using exposure_cap_same [of E liquidity depth]
  by (auto simp: calculate_expected_log_growth_def Let_def case_prod_unfold) (simp_all add: same_book_def)

lemma size_same: "same_book E (fst (size_candidate N p sol_price liquidity shrink depth E))"
  using calculate_same [of E N p sol_price liquidity depth] by (simp add: size_candidate_def Let_def case_prod_unfold)

lemma plan_same:
  "same_book (case equity of None \<Rightarrow> E | Some x \<Rightarrow> E\<lparr>portfolio_value := max 0 x\<rparr>) (fst (plan_scale_in N p held multiple liquidity equity E))"
  using exposure_cap_same [of "case equity of None \<Rightarrow> E | Some x \<Rightarrow> E\<lparr>portfolio_value := max 0 x\<rparr>" liquidity None]
  by (auto simp: plan_scale_in_def Let_def case_prod_unfold same_book_def split: option.splits)

lemma roll_same_day: "pnl_day E = d \<Longrightarrow> pnl_day (roll_day d E) = d \<and> kill_switch_active (roll_day d E) = kill_switch_active E"
  by (simp add: roll_day_def)

lemma roll_day_today [simp]: "pnl_day (roll_day d E) = d"
  by (simp add: roll_day_def)

lemma update_pnl_stopped: "stopped_on d E \<Longrightarrow> stopped_on d (update_pnl d pnl E)"
  by (auto simp: stopped_on_def update_pnl_def Let_def roll_same_day split: option.splits)

lemma admissible_stopped:
  "stopped_on d E \<Longrightarrow> stopped_on d (fst (admissible trained d p sol_price liquidity equity E))
    \<and> snd (admissible trained d p sol_price liquidity equity E) = Some (if trained then ''daily_loss_kill_switch'' else ''DATA_BLOCKED'')"
  using roll_same_day [of "E\<lparr>portfolio_value := max 0 equity\<rparr>" d] by (simp add: stopped_on_def admissible_def Let_def)

lemma engine_step_stopped: "stopped_on d E \<Longrightarrow> on_day d ev \<Longrightarrow> stopped_on d (engine_step E ev)"
proof (cases ev)
  case (Sized N p sol_price liquidity shrink depth)
  then show "stopped_on d E \<Longrightarrow> ?thesis"
    using same_book_fields [OF size_same [of E N p sol_price liquidity shrink depth]] by (simp add: stopped_on_def)
next
  case (Planned N p held multiple liquidity equity)
  then show "stopped_on d E \<Longrightarrow> ?thesis"
    using same_book_fields [OF plan_same [where equity = equity and E = E]]
    by (simp add: stopped_on_def split: option.splits)
next
  case (Opened token pos)
  then show "stopped_on d E \<Longrightarrow> ?thesis" by (simp add: stopped_on_def update_position_def)
next
  case (Reduced token sold cost)
  then show "stopped_on d E \<Longrightarrow> ?thesis"
    by (simp add: stopped_on_def reduce_position_def close_position_def Let_def split: option.splits)
next
  case (Booked today pnl)
  then show "stopped_on d E \<Longrightarrow> on_day d ev \<Longrightarrow> ?thesis" using update_pnl_stopped by simp
next
  case (Asked trained today p sol_price liquidity equity)
  then show "stopped_on d E \<Longrightarrow> on_day d ev \<Longrightarrow> ?thesis" using admissible_stopped by simp
qed (simp_all add: stopped_on_def observe_opportunity_set_def)

lemma run_stopped: "stopped_on d E \<Longrightarrow> list_all (on_day d) events \<Longrightarrow> stopped_on d (run engine_step E events)"
  by (induction events arbitrary: E) (auto intro: engine_step_stopped)

lemma switch_is_no_input [simp]:
  "daily_loss_limit (E\<lparr>kill_switch_active := b\<rparr>) = daily_loss_limit E"
  "giveback_floor (E\<lparr>kill_switch_active := b\<rparr>) = giveback_floor E"
  by (simp_all add: daily_loss_limit_def giveback_floor_def giveback_allowance_def Let_def split: option.split)

lemma update_pnl_trips:
  assumes "E' = update_pnl d pnl E"
    and "daily_pnl E' \<le> - daily_loss_limit E' \<or> (\<exists>least. giveback_floor E' = Some least \<and> daily_pnl E' \<le> least)"
  shows "stopped_on d E'"
proof -
  define R where "R = (let E = roll_day d E; E = E\<lparr>daily_pnl := fadd (daily_pnl E) pnl\<rparr> in E\<lparr>daily_peak_pnl := max (daily_peak_pnl E) (daily_pnl E)\<rparr>)"
  have "E' = (if daily_pnl R \<le> - daily_loss_limit R then R\<lparr>kill_switch_active := True\<rparr>
       else case giveback_floor R of None \<Rightarrow> R | Some least \<Rightarrow> if daily_pnl R \<le> least then R\<lparr>kill_switch_active := True\<rparr> else R)"
    unfolding assms(1) R_def update_pnl_def Let_def by (rule refl)
  moreover have "pnl_day R = d" by (simp add: R_def Let_def)
  ultimately show ?thesis using assms(2) by (auto simp: stopped_on_def split: if_splits option.splits)
qed

text \<open>
  C12: Once a booking takes the result of the day to the loss limit, or hands back more of the day's peak than the
  allowance, no candidate is admitted any more that day: whatever else is booked, valued, opened, reduced, sized
  or asked in between, every later question of the day is refused by the kill switch.
\<close>
theorem kill_switch_ends_the_day:
  assumes "E' = update_pnl d pnl E" "list_all (on_day d) events"
    and "daily_pnl E' \<le> - daily_loss_limit E' \<or> (\<exists>least. giveback_floor E' = Some least \<and> daily_pnl E' \<le> least)"
  shows "snd (admissible trained d p sol_price liquidity equity (run engine_step E' events))
    = Some (if trained then ''daily_loss_kill_switch'' else ''DATA_BLOCKED'')"
  using admissible_stopped run_stopped [OF update_pnl_trips [OF assms(1,3)] assms(2)] by blast

text \<open>
  With a percentage limit the budget of a book whose equity is not known yet is zero, and a result of zero is at
  it: a question asked before the first valuation trips the switch for the rest of the day instead of answering
  that the equity is unavailable.
\<close>

lemma unknown_equity_trips_kill_switch:
  assumes "max_daily_loss_pct S = Some pct" "list_all (on_day d) events"
  shows "admissible True d p sol_price liquidity 0 (new_engine S d) = (E, answer) \<Longrightarrow>
    answer = Some ''daily_loss_kill_switch''
    \<and> snd (admissible True d p' sol_price' liquidity' equity (run engine_step E events)) = Some ''daily_loss_kill_switch''"
proof -
  assume a: "admissible True d p sol_price liquidity 0 (new_engine S d) = (E, answer)"
  then have "stopped_on d E \<and> answer = Some ''daily_loss_kill_switch''"
    using assms(1)
    by (auto simp: admissible_def new_engine_def normal_settings_def roll_day_def daily_loss_limit_def stopped_on_def fmul_def Let_def)
  then show ?thesis using admissible_stopped run_stopped [OF _ assms(2)] by auto
qed


subsection \<open>Witnesses\<close>

definition plain_settings :: engine_settings where
  "plain_settings = \<lparr>risk_aversion = 1, max_position_pct = 1 / 4, max_position_usd = 8, max_portfolio_risk = 1, max_total_exposure_pct = 1,
     max_concurrent_positions = 1, min_liquidity_usd = 0, max_daily_loss = 1, max_daily_loss_pct = None, daily_giveback_pct = None,
     daily_giveback_arm_pct = 1, min_edge_bps = 0, max_liquidity_fraction = 1, harvest_trigger_ratio = 1, harvest_slope = 1,
     small_account_mode = False, small_account_negligible_share = 0, uncertainty_penalty = - 1, drawdown_aversion = 0\<rparr>"

text \<open>A grid of the two ends, and sums and logarithms that make the larger size the better one.\<close>

definition plain_numerics :: numerics where
  "plain_numerics =
     \<lparr>np_sum = (\<lambda>xs. - 1), np_log = (\<lambda>x. 1), np_pow = (\<lambda>x y. 1), np_grid = (\<lambda>stop n. [0, stop]), py_sum = (\<lambda>xs. 1)\<rparr>"

definition sure_double :: prediction where
  "sure_double = \<lparr>p_2x = 1, p_5x = 0, p_10x = 0, p_20x = 0, p_50x = 0, p_100x = 0, p_250x = 0, p_500x = 0, p_rug_30s = 0, p_rug_5m = 0,
     expected_slippage = 0, expected_hold_time = 0, feasible_multiple = 0\<rparr>"

definition plain_engine :: elogw_engine where
  "plain_engine = (new_engine plain_settings 0)\<lparr>portfolio_value := 8\<rparr>"


lemma fl_ge_int: "\<bar>n\<bar> < 2 ^ 53 \<Longrightarrow> of_int n \<le> x \<Longrightarrow> of_int n \<le> fl x"
  by (intro fl_ge_double is_double_of_int)

lemma sure_bins: "list_all (\<lambda>(_, _, outcome). - 1 \<le> outcome) (probability_bins plain_numerics sure_double)"
  "probability_bins plain_numerics sure_double \<noteq> []" "hd (nested_levels sure_double) = 1"
proof -
  have "fl x \<le> 1" if "x \<le> 1" for x using fl_ge_int [of "- 1" "- x"] that by simp
  then show "list_all (\<lambda>(_, _, outcome). - 1 \<le> outcome) (probability_bins plain_numerics sure_double)"
    by (simp add: probability_bins_def raw_bins_def capped_bins_def survival_bins_def SURVIVAL_LEVELS_def nested_levels_def
        sure_double_def plain_numerics_def clip_def fsub_def fl_exact)
  show "probability_bins plain_numerics sure_double \<noteq> []" "hd (nested_levels sure_double) = 1"
    by (simp_all add: probability_bins_def raw_bins_def plain_numerics_def nested_levels_def SURVIVAL_LEVELS_def sure_double_def clip_def)
qed

lemma sure_growth:
  assumes "f = 0 \<or> f = 1 / 4"
  shows "log_growth_at_fraction plain_numerics (normal_settings plain_settings) sure_double f = Some (fsub (- 1) (- f))"
proof -
  have cost: "execution_cost sure_double \<le> 1"
    by (simp add: execution_cost_def sure_double_def fadd_def fl_le_double is_double_of_int [of 1, simplified])
  have w: "0 < fadd 1 (fmul f (fsub x (execution_cost sure_double)))" if "- 1 \<le> x" for x
  proof -
    have "- 2 \<le> fsub x (execution_cost sure_double)" unfolding fsub_def using fl_ge_int [of "- 2"] that cost by simp
    moreover have "f = 0 \<or> f = 1 / 4" by (rule assms)
    ultimately have "- (1 / 2) \<le> f * fsub x (execution_cost sure_double)" by fastforce
    then have "fl (- (1 / 2)) \<le> fmul f (fsub x (execution_cost sure_double))" unfolding fmul_def by (rule fl_mono)
    then have "- (1 / 2) \<le> fmul f (fsub x (execution_cost sure_double))" by (simp only: fl_uminus fl_half)
    then show ?thesis by (simp add: fadd_def)
  qed
  have one: "fl x \<le> 1" if "x \<le> 1" for x using that is_double_of_int [of 1] by (intro fl_le_double) simp_all
  then have small: "max 1 (fl (1 / 10)) = 1" "max 1 (fl (1 / 10^12)) = 1" by (simp_all add: max_absorb1)
  have e: "bins_entropy plain_numerics bins = 1" for bins
    unfolding bins_entropy_def by (simp only: plain_numerics_def numerics.simps small) (simp add: fdiv_def)
  have s: "risk_aversion (normal_settings plain_settings) = 1" "uncertainty_penalty (normal_settings plain_settings) = - 1"
    "drawdown_aversion (normal_settings plain_settings) = 0"
    unfolding normal_settings_def plain_settings_def by (simp_all only: engine_settings.simps small max.idem)
  have "\<not> list_ex (\<lambda>(pr, w). w \<le> 0) (map (\<lambda>(_, pr, net). (pr, fadd 1 (fmul f net)))
      (map (\<lambda>(name, pr, outcome). (name, pr, fsub outcome (execution_cost sure_double))) (probability_bins plain_numerics sure_double)))"
    using sure_bins(1) w by (fastforce simp: list_ex_iff list_all_iff not_le)
  moreover have "np_sum plain_numerics xs = - 1" for xs by (simp add: plain_numerics_def)
  moreover have "fl f = f" using assms by (elim disjE) (simp_all only: fl_quarter fl_0)
  ultimately show ?thesis
    using sure_bins(2,3) assms
    by (simp only: log_growth_at_fraction_def growth_inputs_def growth_value_def e s) (auto simp: fsub_def fmul_def fdiv_def fl_exact)
qed


lemma plain_ceiling:
  assumes "settings E = normal_settings plain_settings" "portfolio_value E = 8"
  shows "binding_ceiling E 5000 None = (''concentration'', 1 / 4)"
  by (simp add: binding_ceiling_def exposure_ceilings_def small_account_concentration_def depth_ceiling_def assms
      normal_settings_def plain_settings_def first_max_def fdiv_def fmul_def fl_exact)

lemma sized_example:
  assumes "settings E = normal_settings plain_settings" "portfolio_value E = 8"
  obtains E' where "calculate_expected_log_growth plain_numerics sure_double 1 5000 None E = (E', Some (- (3 / 4)), 1 / 4, 2)"
proof -
  obtain E1 cap where e: "exposure_cap 5000 None E = (E1, cap)" by fastforce
  from exposure_cap_cases [OF e] have e': "exposure_cap 5000 None E = (E1, 1 / 4)" using plain_ceiling [OF assms] e by simp
  from exposure_cap_cases [OF e] have "settings E1 = normal_settings plain_settings" "portfolio_value E1 = 8"
    using same_book_fields [of E E1] assms by auto
  moreover have "growth_inputs plain_numerics sure_double \<noteq> None" using sure_bins by (simp add: growth_inputs_def Let_def)
  moreover have "np_grid plain_numerics (1 / 4) 401 = [0, 1 / 4]" by (simp add: plain_numerics_def)
  moreover have "grid_best [(0, Some (- 1)), (1 / 4, Some (- (3 / 4)))] = (1 / 4, Some (- (3 / 4)))"
    by (simp add: grid_best_def first_max_def)
  ultimately have "calculate_expected_log_growth plain_numerics sure_double 1 5000 None E = (E1, Some (- (3 / 4)), 1 / 4, 2)"
    using sure_growth [of 0] sure_growth [of "1 / 4"] assms
    by (simp add: calculate_expected_log_growth_def e' fsub_def fmul_def fdiv_def fl_exact)
  then show ?thesis using that by blast
qed

lemma plain_engine_fields: "settings plain_engine = normal_settings plain_settings" "portfolio_value plain_engine = 8"
  by (simp_all add: plain_engine_def new_engine_def)

lemma plain_grid: "even_grid plain_numerics"
  by (auto simp: even_grid_def plain_numerics_def)

theorem size_is_best_within_ceilings_witness:
  "0 < (1 / 4 :: pyfloat) \<and> 1 / 4 \<le> small_account_concentration plain_engine 5000
    \<and> 1 / 4 \<le> fdiv (max_position_usd (settings plain_engine)) (portfolio_value plain_engine)"
proof -
  obtain E' where c: "calculate_expected_log_growth plain_numerics sure_double 1 5000 None plain_engine = (E', Some (- (3 / 4)), 1 / 4, 2)"
    by (rule sized_example [OF plain_engine_fields])
  show ?thesis using size_is_best_within_ceilings [OF plain_grid c] by simp
qed

theorem kill_switch_ends_the_day_witness:
  "snd (admissible True 0 sure_double 1 8 8 (run engine_step (update_pnl 0 (- 2) plain_engine) [Valued 5])) = Some ''daily_loss_kill_switch''"
proof -
  have "daily_pnl (update_pnl 0 (- 2) plain_engine) \<le> - daily_loss_limit (update_pnl 0 (- 2) plain_engine)"
    by (simp add: update_pnl_def roll_day_def plain_engine_def new_engine_def normal_settings_def plain_settings_def
        daily_loss_limit_def fadd_def fl_exact Let_def)
  then show ?thesis using kill_switch_ends_the_day [OF refl, of 0 "[Valued 5]" "- 2" plain_engine True] by simp
qed

end
