(* ===== verification/MegaEvent.thy ===== *)
theory MegaEvent
  imports ElogwEngine
begin

text \<open>
  \<open>strategies/mega_event.py\<close>: how much of a wave's audience is left, the capital withheld for a rare event, and the
  ladder that bounds a very large position by what has been proven.  The order in which Python walks a set and the
  built-in \<open>sum\<close> are arguments; detail texts with numbers are left out.
\<close>

subsection \<open>The audience\<close>

datatype audience_tier =
  TRENCHES | CRYPTO_NATIVE | MAINSTREAM_CRYPTO | MAINSTREAM_PUBLIC | INTERNATIONAL | EXCHANGE_LISTED

definition tier_value :: "audience_tier \<Rightarrow> string" where
  "tier_value t =
     (case t of TRENCHES \<Rightarrow> ''solana_trenches'' | CRYPTO_NATIVE \<Rightarrow> ''crypto_native'' | MAINSTREAM_CRYPTO \<Rightarrow> ''mainstream_crypto''
      | MAINSTREAM_PUBLIC \<Rightarrow> ''mainstream_public'' | INTERNATIONAL \<Rightarrow> ''international_public'' | EXCHANGE_LISTED \<Rightarrow> ''exchange_access'')"

definition TIER_SHARE :: "audience_tier \<Rightarrow> pyfloat" where
  "TIER_SHARE t =
     (case t of TRENCHES \<Rightarrow> fl (2 / 100) | CRYPTO_NATIVE \<Rightarrow> fl (8 / 100) | MAINSTREAM_CRYPTO \<Rightarrow> fl (20 / 100)
      | MAINSTREAM_PUBLIC \<Rightarrow> fl (35 / 100) | INTERNATIONAL \<Rightarrow> fl (20 / 100) | EXCHANGE_LISTED \<Rightarrow> fl (15 / 100))"

record audience_left =
  al_status :: string
  al_reached :: "audience_tier list"
  al_share :: pyfloat

definition audience_exhausted :: "audience_left \<Rightarrow> bool" where
  "audience_exhausted a \<longleftrightarrow> al_status a = ''OK'' \<and> al_share a \<le> fl (5 / 100)"

definition remaining_audience ::
    "(pyfloat list \<Rightarrow> pyfloat) \<Rightarrow> (audience_tier list \<Rightarrow> audience_tier list) \<Rightarrow> (audience_tier list \<Rightarrow> audience_tier list)
     \<Rightarrow> audience_tier list \<Rightarrow> audience_left" where
  "remaining_audience sum_of walk_set by_value reached =
     (if reached = [] then \<lparr>al_status = ''DATA_BLOCKED'', al_reached = [], al_share = 0\<rparr>
      else \<lparr>al_status = ''OK'', al_reached = by_value (walk_set reached),
            al_share = clip (fsub 1 (sum_of (map TIER_SHARE (walk_set reached)))) 0 1\<rparr>)"

subsection \<open>The reserve\<close>

record reserve_decision =
  rs_status :: string
  rs_fraction :: pyfloat
  rs_reason :: string
  rs_probability :: "pyfloat option"

record event_reserve =
  baseline_fraction :: pyfloat
  max_fraction :: pyfloat
  arm_probability :: pyfloat

definition new_event_reserve :: "pyfloat \<Rightarrow> pyfloat \<Rightarrow> pyfloat \<Rightarrow> event_reserve" where
  "new_event_reserve baseline most arm =
     \<lparr>baseline_fraction = max 0 baseline, max_fraction = max (max 0 baseline) most, arm_probability = max 0 arm\<rparr>"

definition reserve_decide :: "pyfloat option \<Rightarrow> bool \<Rightarrow> event_reserve \<Rightarrow> reserve_decision" where
  "reserve_decide probability authenticated R =
     (case probability of
        None \<Rightarrow> \<lparr>rs_status = ''DATA_BLOCKED'', rs_fraction = baseline_fraction R,
                 rs_reason = ''no event probability was measured; holding the baseline only'', rs_probability = None\<rparr>
      | Some x \<Rightarrow>
          let p = clip x 0 1
          in if p < arm_probability R
             then \<lparr>rs_status = ''OK'', rs_fraction = baseline_fraction R, rs_reason = ''no elevated event probability'',
                   rs_probability = Some p\<rparr>
             else
               let span = max (fl (1 / 10^9)) (fsub 1 (arm_probability R));
                   scaled = fdiv (fsub p (arm_probability R)) span;
                   weight = (if authenticated then 1 else fl (6 / 10))
               in \<lparr>rs_status = ''OK'',
                   rs_fraction = min (max_fraction R)
                     (fadd (baseline_fraction R) (fmul (fmul (fsub (max_fraction R) (baseline_fraction R)) scaled) weight)),
                   rs_reason = (if authenticated then ''verified event propagating'' else ''unverified event propagating''),
                   rs_probability = Some p\<rparr>)"

definition deployable_equity :: "pyfloat \<Rightarrow> reserve_decision \<Rightarrow> pyfloat" where
  "deployable_equity equity d = max 0 (fmul equity (fsub 1 (rs_fraction d)))"

subsection \<open>The ladder\<close>

record escalation_plan =
  ep_status :: string
  ep_target :: pyfloat
  ep_step :: string
  ep_capped :: bool

definition ESCALATION_LADDER :: "(string \<times> string) list" where
  "ESCALATION_LADDER =
     [(''probe'', ''detected''), (''authenticated'', ''authenticity_proven''), (''independent_demand'', ''independent_buyers_arrived''),
      (''liquidity_expanding'', ''depth_grew''), (''mass_adoption'', ''audience_still_ahead'')]"

fun reached_rung :: "(string, bool) dict \<Rightarrow> (string \<times> string) list \<Rightarrow> string \<Rightarrow> string" where
  "reached_rung proven [] rung = rung"
| "reached_rung proven ((step, requirement) # rest) rung =
     (if dget proven requirement = Some True then reached_rung proven rest step else rung)"

definition plan_capacity_escalation ::
    "(string, bool) dict \<Rightarrow> pyfloat \<Rightarrow> (string, pyfloat) dict \<Rightarrow> pyfloat option \<Rightarrow> escalation_plan" where
  "plan_capacity_escalation proven held most_by_step executable =
     (case executable of
        None \<Rightarrow> \<lparr>ep_status = ''DATA_BLOCKED'', ep_target = 0, ep_step = '''', ep_capped = False\<rparr>
      | Some depth \<Rightarrow>
          let rung = reached_rung proven ESCALATION_LADDER ''none''
          in if rung = ''none'' then \<lparr>ep_status = ''OK'', ep_target = 0, ep_step = ''none'', ep_capped = False\<rparr>
             else
               let target = dget_or most_by_step rung 0; capped = min target depth
               in \<lparr>ep_status = ''OK'', ep_target = max held capped, ep_step = rung, ep_capped = capped < target\<rparr>)"

subsection \<open>Withholding and escalating\<close>

lemma reserve_range:
  assumes "R = new_event_reserve baseline most arm"
  shows "baseline_fraction R \<le> max_fraction R \<and> baseline_fraction R = max 0 baseline
    \<and> 0 \<le> rs_fraction (reserve_decide probability authenticated R) \<and> rs_fraction (reserve_decide probability authenticated R) \<le> max_fraction R"
proof (cases probability)
  case None
  then show ?thesis using assms by (simp add: reserve_decide_def new_event_reserve_def)
next
  case (Some x)
  let ?p = "clip x 0 1"
  have base: "0 \<le> baseline_fraction R" "baseline_fraction R \<le> max_fraction R" "baseline_fraction R = max 0 baseline"
    using assms by (auto simp: new_event_reserve_def)
  show ?thesis
  proof (cases "?p < arm_probability R")
    case False
    have "0 < max (fl (1 / 10^9)) (fsub 1 (arm_probability R))" by (simp add: less_max_iff_disj)
    then have "0 \<le> fdiv (fsub ?p (arm_probability R)) (max (fl (1 / 10^9)) (fsub 1 (arm_probability R)))"
      using False by (simp add: fdiv_def fsub_def)
    then have "0 \<le> fmul (fmul (fsub (max_fraction R) (baseline_fraction R)) (fdiv (fsub ?p (arm_probability R))
        (max (fl (1 / 10^9)) (fsub 1 (arm_probability R))))) (if authenticated then 1 else fl (6 / 10))"
      using base(2) by (simp add: fmul_def fsub_def)
    then have "0 \<le> fadd (baseline_fraction R) (fmul (fmul (fsub (max_fraction R) (baseline_fraction R)) (fdiv (fsub ?p (arm_probability R))
        (max (fl (1 / 10^9)) (fsub 1 (arm_probability R))))) (if authenticated then 1 else fl (6 / 10)))"
      using base(1) by (simp add: fadd_def)
    then show ?thesis using Some False base by (simp add: reserve_decide_def Let_def)
  qed (use Some base in \<open>simp add: reserve_decide_def Let_def\<close>)
qed

text \<open>The reserve withholds and never frees.\<close>

lemma reserve_only_withholds:
  assumes "R = new_event_reserve baseline most arm" "is_double equity" "max_fraction R \<le> 1"
  shows "0 \<le> deployable_equity equity (reserve_decide probability authenticated R)
    \<and> deployable_equity equity (reserve_decide probability authenticated R) \<le> max 0 equity"
proof -
  let ?f = "rs_fraction (reserve_decide probability authenticated R)"
  have "fsub 1 ?f \<le> 1" using reserve_range [OF assms(1)] is_double_of_int [of 1] by (simp add: fsub_def fl_le_double)
  then have "0 \<le> equity \<Longrightarrow> equity * fsub 1 ?f \<le> equity" by (simp add: mult_left_le)
  then have "0 \<le> equity \<Longrightarrow> fmul equity (fsub 1 ?f) \<le> equity" unfolding fmul_def using assms(2) by (intro fl_le_double)
  moreover have "0 \<le> fsub 1 ?f" using reserve_range [OF assms(1), of probability authenticated] assms(3) by (simp add: fsub_def)
  then have "equity < 0 \<Longrightarrow> fmul equity (fsub 1 ?f) \<le> 0" by (simp add: fmul_def mult_nonpos_nonneg)
  ultimately show ?thesis unfolding deployable_equity_def by (cases "0 \<le> equity") auto
qed

text \<open>A rung is reached only when every rung below it is.\<close>

lemma rung_needs_all_below:
  "reached_rung proven ladder rung = step \<Longrightarrow> step \<noteq> rung \<Longrightarrow>
     \<exists>below requirement rest. ladder = below @ (step, requirement) # rest
       \<and> list_all (\<lambda>(_, r). dget proven r = Some True) (below @ [(step, requirement)])"
proof (induction proven ladder rung rule: reached_rung.induct)
  case (2 proven s requirement rest rung)
  show ?case
  proof (cases "dget proven requirement = Some True \<and> step \<noteq> s")
    case True
    then obtain below r rest' where "rest = below @ (step, r) # rest'"
      "list_all (\<lambda>(_, r). dget proven r = Some True) (below @ [(step, r)])" using 2 by auto
    then show ?thesis using True by (intro exI [of _ "(s, requirement) # below"] exI [of _ r] exI [of _ rest']) simp
  next
    case False
    then have "step = s" "dget proven requirement = Some True" using 2(2,3) by (auto split: if_splits)
    then show ?thesis by (intro exI [of _ "[]"] exI [of _ requirement] exI [of _ rest]) simp
  qed
qed simp

text \<open>
  Withheld capital is meant to be out of sight of every size.  The next question of a candidate hands the engine
  the whole equity again: whatever the reserve left in the engine, the answer and the engine after it are those
  of no reserve at all.
\<close>

lemma reserve_is_forgotten:
  "admissible trained today p sol_price liquidity equity (E\<lparr>portfolio_value := x\<rparr>)
   = admissible trained today p sol_price liquidity equity E"
  by (simp add: admissible_def)

end
