(* ===== verification/OpportunityAllocator.thy ===== *)
theory OpportunityAllocator
  imports PyFloat "HOL-Library.Product_Lexorder" "HOL-Library.Multiset" "HOL-Library.Sublist"
begin

text \<open>
  \<open>strategies/opportunity_allocator.py\<close>: every live launch and every held position ranked by expected
  growth per dollar and second, and the replacements of positions it proposes.  A number the code tests
  with \<open>math.isfinite\<close> is a \<open>reading\<close>; the logarithm is an argument, and so is, inside an opportunity, the
  growth model that prices it at another size.
\<close>

subsection \<open>Opportunities\<close>

datatype reading = Finite pyfloat | Nonfinite

fun finite_or_0 :: "reading \<Rightarrow> pyfloat" where
  "finite_or_0 (Finite x) = x"
| "finite_or_0 Nonfinite = 0"

definition usable :: "reading \<Rightarrow> bool" where
  "usable r \<longleftrightarrow> (case r of Finite x \<Rightarrow> 0 < x | Nonfinite \<Rightarrow> False)"

record opportunity =
  op_token :: string
  op_elogw :: reading
  op_capital :: reading
  op_hold :: "reading option"
  op_liquidity :: "reading option"
  op_sleeve :: string
  op_open :: bool
  op_held_multiple :: pyfloat
  op_kind :: "string option"
  op_elogw_at :: "(pyfloat \<Rightarrow> reading) option"

definition usable_input :: "reading option \<Rightarrow> bool" where
  "usable_input m \<longleftrightarrow> (case m of None \<Rightarrow> False | Some r \<Rightarrow> usable r)"

definition opportunity_blocked :: "opportunity \<Rightarrow> string option" where
  "opportunity_blocked o1 =
     (if op_elogw o1 = Nonfinite then Some ''DATA_BLOCKED_ELOGW''
      else if \<not> usable_input (op_hold o1) then Some ''DATA_BLOCKED_HOLD_TIME''
      else if \<not> usable_input (op_liquidity o1) then Some ''DATA_BLOCKED_LIQUIDITY''
      else if \<not> usable (op_capital o1) then Some ''DATA_BLOCKED_CAPITAL''
      else None)"

definition hold_seconds :: "opportunity \<Rightarrow> pyfloat" where
  "hold_seconds o1 = (case op_hold o1 of None \<Rightarrow> 0 | Some r \<Rightarrow> finite_or_0 r)"

text \<open>\<open>None\<close> is the score of a blocked opportunity, minus infinity.\<close>

definition growth_velocity :: "opportunity \<Rightarrow> pyfloat option" where
  "growth_velocity o1 =
     (if opportunity_blocked o1 \<noteq> None then None else Some (fdiv (finite_or_0 (op_elogw o1)) (hold_seconds o1)))"

definition opportunity_score :: "opportunity \<Rightarrow> pyfloat option" where
  "opportunity_score o1 =
     (if opportunity_blocked o1 \<noteq> None then None
      else Some (fdiv (finite_or_0 (op_elogw o1)) (fmul (finite_or_0 (op_capital o1)) (hold_seconds o1))))"

text \<open>The scores of the ranked, which are never blocked.\<close>

definition ranked_score :: "opportunity \<Rightarrow> pyfloat" where
  "ranked_score o1 = (case opportunity_score o1 of None \<Rightarrow> 0 | Some s \<Rightarrow> s)"

definition ranked_velocity :: "opportunity \<Rightarrow> pyfloat" where
  "ranked_velocity o1 = (case growth_velocity o1 of None \<Rightarrow> 0 | Some s \<Rightarrow> s)"

record displacement =
  dp_incumbent :: opportunity
  dp_challenger :: opportunity
  dp_incumbent_score :: pyfloat
  dp_challenger_score :: pyfloat
  dp_cost_usd :: pyfloat
  dp_freed_usd :: pyfloat

definition score_gain :: "displacement \<Rightarrow> pyfloat" where
  "score_gain d = fsub (dp_challenger_score d) (dp_incumbent_score d)"

record slate =
  sl_ranked :: "opportunity list"
  sl_blocked :: "(opportunity \<times> string) list"
  sl_displacements :: "displacement list"
  sl_cash :: "opportunity option"

definition slate_best :: "slate \<Rightarrow> opportunity option" where
  "slate_best s = (case sl_ranked s of [] \<Rightarrow> None | b # _ \<Rightarrow> Some b)"

subsection \<open>The allocator\<close>

record allocator =
  replacement_cost_pct :: pyfloat
  min_gain_ratio :: pyfloat
  max_per_cycle :: int

definition new_allocator :: "pyfloat \<Rightarrow> pyfloat \<Rightarrow> int \<Rightarrow> allocator" where
  "new_allocator cost ratio most =
     \<lparr>replacement_cost_pct = max 0 cost, min_gain_ratio = max 1 ratio, max_per_cycle = max 0 most\<rparr>"

definition cash_opportunity :: "reading option \<Rightarrow> reading option \<Rightarrow> opportunity option" where
  "cash_opportunity available horizon =
     (if usable_input available \<and> usable_input horizon
      then Some \<lparr>op_token = ''__CASH__'', op_elogw = Finite 0, op_capital = the available, op_hold = horizon,
                 op_liquidity = available, op_sleeve = ''CASH'', op_open = False, op_held_multiple = 1,
                 op_kind = Some ''CASH'', op_elogw_at = None\<rparr>
      else None)"

definition deployable :: "pyfloat \<Rightarrow> opportunity \<Rightarrow> pyfloat option" where
  "deployable freed challenger =
     (case op_liquidity challenger of
        None \<Rightarrow> None
      | Some depth \<Rightarrow>
          let d = min (min freed (finite_or_0 (op_capital challenger))) (finite_or_0 depth)
          in if d \<le> 0 then None else Some d)"

text \<open>The growth of the challenger at the size it would get: asked for again when that is not its own size.\<close>

definition elogw_for :: "opportunity \<Rightarrow> pyfloat \<Rightarrow> pyfloat option" where
  "elogw_for challenger d =
     (if d < finite_or_0 (op_capital challenger)
      then (case op_elogw_at challenger of
              None \<Rightarrow> None
            | Some f \<Rightarrow> (case f d of Nonfinite \<Rightarrow> None | Finite x \<Rightarrow> Some x))
      else Some (finite_or_0 (op_elogw challenger)))"

definition charged_opportunity :: "(pyfloat \<Rightarrow> pyfloat) \<Rightarrow> allocator \<Rightarrow> opportunity \<Rightarrow> pyfloat \<Rightarrow> pyfloat \<Rightarrow> pyfloat \<Rightarrow> opportunity" where
  "charged_opportunity log1p A challenger freed d elogw =
     (let cost = fmul (fadd freed d) (replacement_cost_pct A);
          part = min (fl (99 / 100)) (fdiv cost (max d (fl (1 / 10^9))))
      in \<lparr>op_token = op_token challenger, op_elogw = Finite (fadd elogw (log1p (- part))), op_capital = Finite d,
          op_hold = op_hold challenger, op_liquidity = op_liquidity challenger, op_sleeve = op_sleeve challenger,
          op_open = False, op_held_multiple = 1, op_kind = None, op_elogw_at = None\<rparr>)"

definition price_displacement ::
    "(pyfloat \<Rightarrow> pyfloat) \<Rightarrow> allocator \<Rightarrow> opportunity \<Rightarrow> opportunity \<Rightarrow> displacement option" where
  "price_displacement log1p A incumbent challenger =
     (let freed = fmul (finite_or_0 (op_capital incumbent)) (max 0 (op_held_multiple incumbent))
      in if freed \<le> 0 then None
         else case deployable freed challenger of
           None \<Rightarrow> None
         | Some d \<Rightarrow>
             (case elogw_for challenger d of
                None \<Rightarrow> None
              | Some elogw \<Rightarrow>
                  let charged = charged_opportunity log1p A challenger freed d elogw
                  in if opportunity_blocked charged \<noteq> None \<or> ranked_score charged \<le> 0 then None
                     else if ranked_score charged < fmul (ranked_score incumbent) (min_gain_ratio A) then None
                     else if ranked_score charged \<le> ranked_score incumbent then None
                     else Some \<lparr>dp_incumbent = incumbent, dp_challenger = challenger,
                                dp_incumbent_score = ranked_score incumbent, dp_challenger_score = ranked_score charged,
                                dp_cost_usd = fmul (fadd freed d) (replacement_cost_pct A), dp_freed_usd = freed\<rparr>))"

text \<open>The inner loop: the first challenger, best first, that is free and worth the round trip.\<close>

fun first_challenger ::
    "(pyfloat \<Rightarrow> pyfloat) \<Rightarrow> allocator \<Rightarrow> opportunity \<Rightarrow> string list \<Rightarrow> opportunity list \<Rightarrow> displacement option" where
  "first_challenger log1p A incumbent used [] = None"
| "first_challenger log1p A incumbent used (c # cs) =
     (if op_token c \<in> set used \<or> op_token c = op_token incumbent then first_challenger log1p A incumbent used cs
      else case price_displacement log1p A incumbent c of
        None \<Rightarrow> first_challenger log1p A incumbent used cs
      | Some p \<Rightarrow> Some p)"

fun propose_loop ::
    "(pyfloat \<Rightarrow> pyfloat) \<Rightarrow> allocator \<Rightarrow> opportunity list \<Rightarrow> opportunity list \<Rightarrow> string list \<Rightarrow> displacement list \<Rightarrow> displacement list" where
  "propose_loop log1p A [] challengers used proposals = proposals"
| "propose_loop log1p A (i # is) challengers used proposals =
     (if max_per_cycle A \<le> int (length proposals) then proposals
      else case first_challenger log1p A i used challengers of
        None \<Rightarrow> propose_loop log1p A is challengers used proposals
      | Some p \<Rightarrow> propose_loop log1p A is challengers (op_token (dp_challenger p) # used) (proposals @ [p]))"

definition propose_displacements :: "(pyfloat \<Rightarrow> pyfloat) \<Rightarrow> allocator \<Rightarrow> opportunity list \<Rightarrow> displacement list" where
  "propose_displacements log1p A ranked =
     (let incumbents = filter (\<lambda>o1. op_open o1 \<and> op_kind o1 \<noteq> Some ''CASH'') ranked;
          challengers = filter (\<lambda>o1. \<not> op_open o1 \<and> op_kind o1 \<noteq> Some ''CASH'') ranked
      in if incumbents = [] \<or> challengers = [] then []
         else propose_loop log1p A (sort_key ranked_score incumbents) (sort_key (\<lambda>o1. - ranked_score o1) challengers) [] [])"

definition rank :: "(pyfloat \<Rightarrow> pyfloat) \<Rightarrow> allocator \<Rightarrow> opportunity list \<Rightarrow> reading option \<Rightarrow> reading option \<Rightarrow> slate" where
  "rank log1p A opportunities available horizon =
     (let blocked = concat (map (\<lambda>o1. case opportunity_blocked o1 of None \<Rightarrow> [] | Some r \<Rightarrow> [(o1, r)]) opportunities);
          open_ones = filter (\<lambda>o1. opportunity_blocked o1 = None) opportunities;
          cash = cash_opportunity available horizon;
          ranked = sort_key (\<lambda>o1. (- ranked_score o1, - ranked_velocity o1))
                     (open_ones @ (case cash of None \<Rightarrow> [] | Some c \<Rightarrow> [c]))
      in \<lparr>sl_ranked = ranked, sl_blocked = blocked, sl_displacements = propose_displacements log1p A ranked, sl_cash = cash\<rparr>)"

subsection \<open>Pricing a replacement\<close>

text \<open>
  What a proposal promises: it frees the incumbent's mark, deploys no more than that, than the challenger's
  own size and than its depth, and after both legs beats the incumbent by the ratio.
\<close>

definition worth_it :: "(pyfloat \<Rightarrow> pyfloat) \<Rightarrow> allocator \<Rightarrow> displacement \<Rightarrow> bool" where
  "worth_it log1p A p \<longleftrightarrow>
     (\<exists>d elogw. deployable (dp_freed_usd p) (dp_challenger p) = Some d \<and> elogw_for (dp_challenger p) d = Some elogw
        \<and> dp_challenger_score p = ranked_score (charged_opportunity log1p A (dp_challenger p) (dp_freed_usd p) d elogw)
        \<and> dp_cost_usd p = fmul (fadd (dp_freed_usd p) d) (replacement_cost_pct A))
     \<and> dp_freed_usd p = fmul (finite_or_0 (op_capital (dp_incumbent p))) (max 0 (op_held_multiple (dp_incumbent p)))
     \<and> 0 < dp_freed_usd p \<and> 0 < dp_challenger_score p
     \<and> dp_incumbent_score p = ranked_score (dp_incumbent p) \<and> dp_incumbent_score p < dp_challenger_score p
     \<and> fmul (dp_incumbent_score p) (min_gain_ratio A) \<le> dp_challenger_score p"

lemma price_displacement_worth:
  assumes "price_displacement log1p A i c = Some p"
  shows "worth_it log1p A p \<and> dp_incumbent p = i \<and> dp_challenger p = c"
  using assms unfolding price_displacement_def worth_it_def Let_def
  by (auto split: if_splits option.splits)

lemma first_challenger_Some:
  "first_challenger log1p A i used cs = Some p \<Longrightarrow>
     worth_it log1p A p \<and> dp_incumbent p = i \<and> dp_challenger p \<in> set cs
     \<and> op_token (dp_challenger p) \<notin> set used \<and> op_token (dp_challenger p) \<noteq> op_token i"
proof (induction cs)
  case (Cons c cs)
  then show ?case by (auto split: if_splits option.splits dest: price_displacement_worth)
qed simp

text \<open>What the loop keeps: proposals priced, over the incumbents and challengers given, no challenger used twice.\<close>

definition proposals_ok ::
    "(pyfloat \<Rightarrow> pyfloat) \<Rightarrow> allocator \<Rightarrow> opportunity list \<Rightarrow> opportunity list \<Rightarrow> displacement list \<Rightarrow> bool" where
  "proposals_ok log1p A is cs ps \<longleftrightarrow>
     (\<forall>p\<in>set ps. worth_it log1p A p \<and> dp_incumbent p \<in> set is \<and> dp_challenger p \<in> set cs
        \<and> op_token (dp_challenger p) \<noteq> op_token (dp_incumbent p))
     \<and> distinct (map (\<lambda>p. op_token (dp_challenger p)) ps)
     \<and> int (length ps) \<le> max_per_cycle A"

lemma propose_loop_ok:
  assumes "proposals_ok log1p A all cs ps" "set is \<subseteq> set all" "0 \<le> max_per_cycle A"
    and "set used = (\<lambda>p. op_token (dp_challenger p)) ` set ps"
  shows "proposals_ok log1p A all cs (propose_loop log1p A is cs used ps)"
  using assms
proof (induction "is" arbitrary: used ps)
  case (Cons i "is")
  show ?case
  proof (cases "max_per_cycle A \<le> int (length ps)")
    case False
    show ?thesis
    proof (cases "first_challenger log1p A i used cs")
      case None
      then show ?thesis using False Cons.IH [OF Cons.prems(1) _ Cons.prems(3,4)] Cons.prems(2) by simp
    next
      case (Some p)
      have "proposals_ok log1p A all cs (ps @ [p])"
        using first_challenger_Some [OF Some] Cons.prems False unfolding proposals_ok_def by auto
      from Cons.IH [OF this _ Cons.prems(3), of "op_token (dp_challenger p) # used"] show ?thesis
        using False Some Cons.prems(2,4) by simp
    qed
  qed (use Cons.prems in simp)
qed simp

text \<open>Each incumbent is given up at most once: the incumbents of the proposals are a subsequence of those offered.\<close>

lemma propose_loop_incumbents:
  "\<exists>is'. map dp_incumbent (propose_loop log1p A is cs used ps) = map dp_incumbent ps @ is' \<and> subseq is' is"
proof (induction "is" arbitrary: used ps)
  case (Cons i "is")
  show ?case
  proof (cases "max_per_cycle A \<le> int (length ps) \<or> first_challenger log1p A i used cs = None")
    case True
    then show ?thesis using Cons.IH [of used ps] by (auto intro: subseq_Cons')
  next
    case False
    then obtain p where p: "first_challenger log1p A i used cs = Some p" by blast
    have i: "dp_incumbent p = i" using first_challenger_Some [OF p] by blast
    obtain is' where "map dp_incumbent (propose_loop log1p A is cs (op_token (dp_challenger p) # used) (ps @ [p]))
        = map dp_incumbent (ps @ [p]) @ is'" "subseq is' is" using Cons.IH by blast
    then have "map dp_incumbent (propose_loop log1p A (i # is) cs used ps) = map dp_incumbent ps @ (i # is')" "subseq (i # is') (i # is)"
      using False p i by simp_all
    then show ?thesis by blast
  qed
qed simp


subsection \<open>The properties\<close>

lemma ranked_score_Some: "opportunity_blocked o1 = None \<Longrightarrow> opportunity_score o1 = Some (ranked_score o1)"
  by (simp add: ranked_score_def opportunity_score_def)

lemma cash_unblocked: "cash_opportunity available horizon = Some c \<Longrightarrow> opportunity_blocked c = None \<and> op_kind c = Some ''CASH''"
  by (auto simp: cash_opportunity_def opportunity_blocked_def usable_input_def split: if_splits option.splits)

lemma rank_ranked:
  "mset (sl_ranked (rank log1p A os available horizon)) =
     mset (filter (\<lambda>o1. opportunity_blocked o1 = None) os) + mset_set (set_option (cash_opportunity available horizon))"
  by (simp add: rank_def Let_def split: option.split)

text \<open>
  Every opportunity is on the slate exactly once, ranked when all its inputs were measured and otherwise
  set aside with its reason; cash is ranked beside the positions when its amount and horizon are known; the
  ranking never puts a lower growth per dollar and second before a higher one.
\<close>
lemma slate_ranks_everything:
  "mset (sl_ranked (rank log1p A os available horizon)) + mset (map fst (sl_blocked (rank log1p A os available horizon)))
     = mset os + mset_set (set_option (sl_cash (rank log1p A os available horizon)))
   \<and> list_all (\<lambda>(o1, reason). opportunity_blocked o1 = Some reason) (sl_blocked (rank log1p A os available horizon))
   \<and> list_all (\<lambda>o1. opportunity_blocked o1 = None) (sl_ranked (rank log1p A os available horizon))
   \<and> sorted_wrt (\<lambda>o1 o2. \<exists>s1 s2. opportunity_score o1 = Some s1 \<and> opportunity_score o2 = Some s2 \<and> s2 \<le> s1)
       (sl_ranked (rank log1p A os available horizon))"
proof -
  let ?s = "rank log1p A os available horizon" and ?P = "\<lambda>o1. opportunity_blocked o1 = None"
  have b: "map fst (concat (map (\<lambda>o1. case opportunity_blocked o1 of None \<Rightarrow> [] | Some r \<Rightarrow> [(o1, r)]) xs)) = filter (\<lambda>o1. \<not> ?P o1) xs" for xs
    by (induction xs) (auto split: option.split)
  have "mset (filter ?P os) + mset (filter (\<lambda>o1. \<not> ?P o1) os) = mset os" by simp
  then have "mset (sl_ranked ?s) + mset (map fst (sl_blocked ?s)) = mset os + mset_set (set_option (sl_cash ?s))"
    unfolding rank_ranked by (simp add: rank_def Let_def b)
  moreover have "list_all (\<lambda>(o1, reason). opportunity_blocked o1 = Some reason) (sl_blocked ?s)"
    by (auto simp: rank_def Let_def list_all_iff split: option.splits)
  moreover have free: "list_all ?P (sl_ranked ?s)"
    using cash_unblocked by (auto simp: rank_def Let_def list_all_iff split: option.splits)
  moreover have "sorted (map (\<lambda>o1. (- ranked_score o1, - ranked_velocity o1)) (sl_ranked ?s))"
    unfolding rank_def Let_def by simp
  then have "sorted_wrt (\<lambda>o1 o2. ranked_score o2 \<le> ranked_score o1) (sl_ranked ?s)"
    unfolding sorted_map by (rule sorted_wrt_mono_rel [rotated]) auto
  then have "sorted_wrt (\<lambda>o1 o2. \<exists>s1 s2. opportunity_score o1 = Some s1 \<and> opportunity_score o2 = Some s2 \<and> s2 \<le> s1) (sl_ranked ?s)"
    by (rule sorted_wrt_mono_rel [rotated]) (use free in \<open>auto simp: list_all_iff ranked_score_Some\<close>)
  ultimately show ?thesis by blast
qed

lemma subseq_mset_le: "subseq xs ys \<Longrightarrow> mset xs \<subseteq># mset ys"
proof (induction rule: list_emb.induct)
  case (list_emb_Cons xs ys y)
  then show ?case using mset_subset_eq_add_right [of "mset ys" "{#y#}"] by (simp add: subset_mset.order_trans)
qed auto

lemma propose_displacements_ok:
  assumes "0 \<le> max_per_cycle A"
  shows "proposals_ok log1p A (filter (\<lambda>o1. op_open o1 \<and> op_kind o1 \<noteq> Some ''CASH'') ranked)
      (filter (\<lambda>o1. \<not> op_open o1 \<and> op_kind o1 \<noteq> Some ''CASH'') ranked) (propose_displacements log1p A ranked)
    \<and> mset (map dp_incumbent (propose_displacements log1p A ranked)) \<subseteq># mset ranked"
proof -
  let ?i = "filter (\<lambda>o1. op_open o1 \<and> op_kind o1 \<noteq> Some ''CASH'') ranked"
    and ?c = "filter (\<lambda>o1. \<not> op_open o1 \<and> op_kind o1 \<noteq> Some ''CASH'') ranked"
  let ?is = "sort_key ranked_score ?i" and ?cs = "sort_key (\<lambda>o1. - ranked_score o1) ?c"
  have empty: "proposals_ok log1p A xs ys []" for xs ys using assms by (simp add: proposals_ok_def)
  show ?thesis
  proof (cases "?i = [] \<or> ?c = []")
    case True
    then have "propose_displacements log1p A ranked = []" by (simp add: propose_displacements_def Let_def)
    then show ?thesis by (simp only: empty list.map mset.simps subset_mset.zero_le simp_thms)
  next
    case False
    then have p: "propose_displacements log1p A ranked = propose_loop log1p A ?is ?cs [] []"
      by (simp only: propose_displacements_def Let_def if_False)
    have "proposals_ok log1p A ?is ?cs (propose_displacements log1p A ranked)"
      unfolding p by (rule propose_loop_ok [OF empty order.refl assms]) simp
    then have "proposals_ok log1p A ?i ?c (propose_displacements log1p A ranked)"
      unfolding proposals_ok_def set_sort .
    moreover obtain is' where "map dp_incumbent (propose_displacements log1p A ranked) = is'" and le: "subseq is' ?is"
      using propose_loop_incumbents [of log1p A ?is ?cs "[]" "[]"] unfolding p by auto
    then have "mset (map dp_incumbent (propose_displacements log1p A ranked)) \<subseteq># mset ?i"
      using subseq_mset_le [OF le] by (simp only: mset_sort)
    then have "mset (map dp_incumbent (propose_displacements log1p A ranked)) \<subseteq># mset ranked"
      unfolding mset_filter by (rule subset_mset.order_trans [OF _ multiset_filter_subset])
    ultimately show ?thesis by blast
  qed
qed


text \<open>A held position with a poor outlook and a better launch it makes room for.\<close>

definition sample_position :: opportunity where
  "sample_position = \<lparr>op_token = ''OLD'', op_elogw = Finite (- 1), op_capital = Finite 1, op_hold = Some (Finite 1),
     op_liquidity = Some (Finite 1), op_sleeve = ''s'', op_open = True, op_held_multiple = 1, op_kind = None, op_elogw_at = None\<rparr>"

definition sample_launch :: opportunity where
  "sample_launch = sample_position\<lparr>op_token := ''NEW'', op_elogw := Finite 1, op_open := False\<rparr>"

lemma sample_proposal:
  "price_displacement (\<lambda>x. x) (new_allocator 0 1 1) sample_position sample_launch =
     Some \<lparr>dp_incumbent = sample_position, dp_challenger = sample_launch, dp_incumbent_score = - 1, dp_challenger_score = 1,
       dp_cost_usd = 0, dp_freed_usd = 1\<rparr>"
  by (simp add: price_displacement_def sample_position_def sample_launch_def new_allocator_def deployable_def elogw_for_def
      charged_opportunity_def ranked_score_def opportunity_score_def opportunity_blocked_def usable_input_def usable_def
      hold_seconds_def fmul_def fadd_def fdiv_def Let_def)

lemma sample_unblocked: "opportunity_blocked sample_position = None" "opportunity_blocked sample_launch = None"
  by (simp_all add: opportunity_blocked_def usable_input_def usable_def sample_position_def sample_launch_def)

lemma sample_slate:
  "sl_displacements (rank (\<lambda>x. x) (new_allocator 0 1 1) [sample_position, sample_launch] None None) =
     [the (price_displacement (\<lambda>x. x) (new_allocator 0 1 1) sample_position sample_launch)]"
proof -
  have f: "op_open sample_position" "\<not> op_open sample_launch" "op_kind sample_position = None" "op_kind sample_launch = None"
    "op_token sample_launch \<noteq> op_token sample_position" by (simp_all add: sample_position_def sample_launch_def)
  have limit: "max_per_cycle (new_allocator 0 1 1) = 1" by (simp add: new_allocator_def)
  show ?thesis
    by (simp add: rank_def cash_opportunity_def usable_input_def sample_unblocked propose_displacements_def f sample_proposal
        limit)
qed


end
