(* ===== verification/PumpCurve.thy ===== *)
theory PumpCurve
  imports Base58 PyFloat
begin

text \<open>
  \<open>chains/pump_curve.py\<close>: the bonding-curve account, quotes against its virtual reserves, the
  largest sale within an impact bound and the research observation derived from them.
  Prices and impacts are doubles (\<open>PyFloat\<close>); amounts are Python integers.
\<close>

definition LAMPORTS_PER_SOL :: int where "LAMPORTS_PER_SOL = 1000000000"

definition BONDING_CURVE_DISCRIMINATOR :: bytes where
  "BONDING_CURVE_DISCRIMINATOR = [23, 183, 248, 55, 96, 216, 172, 96]"

record curve_state =
  virtual_token_reserves :: int
  virtual_sol_reserves :: int
  real_token_reserves :: int
  real_sol_reserves :: int
  token_total_supply :: int
  complete :: bool
  creator :: string

definition tradeable :: "curve_state \<Rightarrow> bool" where
  "tradeable s \<longleftrightarrow> \<not> complete s \<and> virtual_token_reserves s > 0 \<and> virtual_sol_reserves s > 0"

definition price_sol_per_token :: "curve_state \<Rightarrow> pyfloat option" where
  "price_sol_per_token s =
     (if \<not> tradeable s then None
      else Some (fdiv (int_div (virtual_sol_reserves s) LAMPORTS_PER_SOL)
                      (float_of_int (virtual_token_reserves s))))"

definition progress :: "curve_state \<Rightarrow> pyfloat option" where
  "progress s =
     (if token_total_supply s \<le> 0 then None
      else let sold = token_total_supply s - real_token_reserves s
           in Some (max 0 (min 1 (int_div sold (token_total_supply s)))))"

record curve_quote =
  input_amount :: int
  output_amount :: int
  fee_amount :: int
  price_impact_pct :: pyfloat
  average_price :: "pyfloat option"
  quote_verified :: bool
  quote_status :: string
  quote_reason :: string

definition quote_ok :: "curve_quote \<Rightarrow> bool" where
  "quote_ok q \<longleftrightarrow> quote_status q = ''OK''"

definition blocked_quote :: "string \<Rightarrow> curve_quote" where
  "blocked_quote r =
     \<lparr>input_amount = 0, output_amount = 0, fee_amount = 0, price_impact_pct = 0,
      average_price = None, quote_verified = False, quote_status = ''DATA_BLOCKED'', quote_reason = r\<rparr>"

subsection \<open>Decoding the account\<close>

datatype curve_error =
    AccountTooShort nat | NotBondingCurve | PayloadTooShort nat | CompleteFlagNotBool

definition u64_at :: "bytes \<Rightarrow> nat \<Rightarrow> int" where
  "u64_at data off = le_val (slice off (off + 8) data)"

definition parse_bonding_curve :: "bytes \<Rightarrow> curve_error + curve_state" where
  "parse_bonding_curve data =
     (if length data < 8 then Inl (AccountTooShort (length data))
      else if slice 0 8 data \<noteq> BONDING_CURVE_DISCRIMINATOR then Inl NotBondingCurve
      else if length data < 49 then Inl (PayloadTooShort (length data))
      else let complete_byte = data ! 48
           in if complete_byte \<notin> {0, 1} then Inl CompleteFlagNotBool
              else Inr \<lparr>virtual_token_reserves = u64_at data 8,
                        virtual_sol_reserves = u64_at data 16,
                        real_token_reserves = u64_at data 24,
                        real_sol_reserves = u64_at data 32,
                        token_total_supply = u64_at data 40,
                        complete = (complete_byte \<noteq> 0),
                        creator = (if 81 \<le> length data then b58encode (slice 49 81 data) else '''')\<rparr>)"

subsection \<open>Quotes\<close>

text \<open>
  The price arithmetic both quotes share: \<open>state.price_sol_per_token or 0.0\<close>, the average price paid
  per token, and the relative move against the spot price in either direction.
\<close>

definition spot_price :: "curve_state \<Rightarrow> pyfloat" where
  "spot_price s = (case price_sol_per_token s of None \<Rightarrow> 0 | Some p \<Rightarrow> p)"

definition average_of :: "int \<Rightarrow> int \<Rightarrow> pyfloat" where
  "average_of lamports tokens = fdiv (int_div lamports LAMPORTS_PER_SOL) (float_of_int tokens)"

definition buy_impact :: "pyfloat \<Rightarrow> pyfloat \<Rightarrow> pyfloat" where
  "buy_impact spot average =
     max 0 (if spot > 0 \<and> average \<noteq> 0 then fdiv (fsub average spot) spot else 0)"

definition sell_impact :: "pyfloat \<Rightarrow> pyfloat \<Rightarrow> pyfloat" where
  "sell_impact spot average = max 0 (if spot > 0 then fdiv (fsub spot average) spot else 0)"

definition quote_buy :: "curve_state \<Rightarrow> int \<Rightarrow> int \<Rightarrow> curve_quote" where
  "quote_buy s sol_lamports fee_bps =
     (if sol_lamports \<le> 0 then blocked_quote ''non_positive_input''
      else if \<not> tradeable s then blocked_quote ''curve_complete_or_empty''
      else
        let fee = (sol_lamports * fee_bps) div 10000;
            net = sol_lamports - fee
        in if net \<le> 0 then blocked_quote ''input_fully_consumed_by_fee''
           else
             let tokens_out = (net * virtual_token_reserves s) div (virtual_sol_reserves s + net)
             in if tokens_out \<le> 0 then blocked_quote ''output_rounds_to_zero''
                else
                  let tokens_out = (if real_token_reserves s > 0
                                    then min tokens_out (real_token_reserves s) else tokens_out);
                      average = average_of net tokens_out
                  in \<lparr>input_amount = sol_lamports, output_amount = tokens_out, fee_amount = fee,
                      price_impact_pct = buy_impact (spot_price s) average, average_price = Some average,
                      quote_verified = False, quote_status = ''OK'', quote_reason = ''''\<rparr>)"

definition quote_sell :: "curve_state \<Rightarrow> int \<Rightarrow> int \<Rightarrow> curve_quote" where
  "quote_sell s token_amount fee_bps =
     (if token_amount \<le> 0 then blocked_quote ''non_positive_input''
      else if \<not> tradeable s then blocked_quote ''curve_complete_or_empty''
      else
        let gross = (token_amount * virtual_sol_reserves s) div (virtual_token_reserves s + token_amount)
        in if gross \<le> 0 then blocked_quote ''output_rounds_to_zero''
           else
             let gross = (if real_sol_reserves s > 0 then min gross (real_sol_reserves s) else gross);
                 fee = (gross * fee_bps) div 10000;
                 net = gross - fee
             in if net \<le> 0 then blocked_quote ''output_fully_consumed_by_fee''
                else
                  let average = average_of net token_amount
                  in \<lparr>input_amount = token_amount, output_amount = net, fee_amount = fee,
                      price_impact_pct = sell_impact (spot_price s) average, average_price = Some average,
                      quote_verified = False, quote_status = ''OK'', quote_reason = ''''\<rparr>)"

definition sell_within :: "curve_state \<Rightarrow> pyfloat \<Rightarrow> int \<Rightarrow> int \<Rightarrow> bool" where
  "sell_within s max_impact_pct fee_bps mid =
     (let quote = quote_sell s mid fee_bps
      in quote_ok quote \<and> price_impact_pct quote \<le> max_impact_pct)"

definition sell_capacity_lamports :: "curve_state \<Rightarrow> pyfloat \<Rightarrow> int \<Rightarrow> int" where
  "sell_capacity_lamports s max_impact_pct fee_bps =
     (if \<not> tradeable s \<or> max_impact_pct \<le> 0 then 0
      else let high = max (real_token_reserves s) (virtual_token_reserves s)
           in if high \<le> 0 then 0 else bisect_max (sell_within s max_impact_pct fee_bps) 0 high)"

text \<open>The observation is a dictionary whose keys depend on the outcome; \<open>None\<close> is an absent key.\<close>

record curve_observation =
  feasible :: bool
  observed_status :: string
  observed_reason :: "string option"
  observed_price :: "pyfloat option"
  observed_impact :: "pyfloat option"
  round_trip_retention :: "pyfloat option"
  curve_progress :: "pyfloat option"
  observed_real_sol :: "int option"
  execution_verified :: "bool option"

definition blocked_observation :: "string \<Rightarrow> curve_observation" where
  "blocked_observation r =
     \<lparr>feasible = False, observed_status = ''DATA_BLOCKED'', observed_reason = Some r,
      observed_price = None, observed_impact = None, round_trip_retention = None,
      curve_progress = None, observed_real_sol = None, execution_verified = None\<rparr>"

definition observation_from_state :: "curve_state \<Rightarrow> int \<Rightarrow> int \<Rightarrow> curve_observation" where
  "observation_from_state s probe_lamports fee_bps =
     (if \<not> tradeable s then blocked_observation ''curve_complete_or_empty''
      else
        let buy = quote_buy s probe_lamports fee_bps
        in if \<not> quote_ok buy then blocked_observation (quote_reason buy)
           else
             let back = quote_sell s (output_amount buy) fee_bps;
                 round_trip = (if quote_ok back
                               then Some (int_div (output_amount back) probe_lamports) else None)
             in \<lparr>feasible = (quote_ok back \<and> output_amount back > 0), observed_status = ''OK'',
                 observed_reason = None, observed_price = price_sol_per_token s,
                 observed_impact = Some (price_impact_pct buy), round_trip_retention = round_trip,
                 curve_progress = progress s, observed_real_sol = Some (real_sol_reserves s),
                 execution_verified = Some False\<rparr>)"

subsection \<open>What an accepted quote guarantees\<close>

lemma not_ok_blocked [simp]: "\<not> quote_ok (blocked_quote r)"
  by (simp add: quote_ok_def blocked_quote_def)

lemma reason_blocked [simp]: "quote_reason (blocked_quote r) = r"
  by (simp add: blocked_quote_def)

lemma impact_nonneg: "0 \<le> buy_impact p a" "0 \<le> sell_impact p a"
  by (simp_all add: buy_impact_def sell_impact_def)

text \<open>A sale cannot move the price by more than all of it, so an impact bound of one refuses nothing.\<close>

lemma sell_impact_le_1:
  assumes "is_double p" "0 \<le> a" shows "sell_impact p a \<le> 1"
proof (cases "0 < p")
  case True
  have "fsub p a \<le> p" using assms by (simp add: fsub_def fl_le_double)
  then have "fdiv (fsub p a) p \<le> 1"
    unfolding fdiv_def using True is_double_of_int [of 1] by (intro fl_le_double) auto
  then show ?thesis by (simp add: sell_impact_def)
qed (simp add: sell_impact_def)

lemma is_double_spot_price: "is_double (spot_price s)"
  using is_double_of_int [of 0]
  by (auto simp: spot_price_def price_sol_per_token_def fdiv_def)

lemma average_of_nonneg: "0 \<le> lamports \<Longrightarrow> 0 \<le> tokens \<Longrightarrow> 0 \<le> average_of lamports tokens"
  by (simp add: average_of_def fdiv_def int_div_def float_of_int_def LAMPORTS_PER_SOL_def)

text \<open>
  The intermediate amounts of an accepted quote, as constants, so that the proofs below do not
  unfold the quotes again: what is left of the budget after the fee, the constant-product outputs,
  and the part of the sale's output the pool can pay.
\<close>

definition buy_net :: "int \<Rightarrow> int \<Rightarrow> int" where
  "buy_net x f = x - (x * f) div 10000"

definition leg_out :: "int \<Rightarrow> int \<Rightarrow> int \<Rightarrow> int" where
  "leg_out x q r = (x * r) div (q + x)"

definition capped :: "int \<Rightarrow> int \<Rightarrow> int" where
  "capped held amount = (if held > 0 then min amount held else amount)"

lemma quote_buy_ok_iff:
  "quote_ok (quote_buy s x f) \<longleftrightarrow>
     0 < x \<and> tradeable s \<and> 0 < buy_net x f
     \<and> 0 < leg_out (buy_net x f) (virtual_sol_reserves s) (virtual_token_reserves s)"
  by (auto simp: quote_buy_def Let_def buy_net_def leg_out_def quote_ok_def blocked_quote_def)

lemma quote_buy_amounts:
  assumes "quote_ok (quote_buy s x f)"
  shows "output_amount (quote_buy s x f) =
           capped (real_token_reserves s)
             (leg_out (buy_net x f) (virtual_sol_reserves s) (virtual_token_reserves s))"
    and "fee_amount (quote_buy s x f) = x - buy_net x f"
    and "input_amount (quote_buy s x f) = x" and "\<not> quote_verified (quote_buy s x f)"
    and "0 \<le> price_impact_pct (quote_buy s x f)"
  using assms
  by (simp_all add: quote_buy_ok_iff)
     (simp_all add: quote_buy_def Let_def buy_net_def leg_out_def capped_def impact_nonneg)

lemma quote_sell_ok_iff:
  "quote_ok (quote_sell s a f) \<longleftrightarrow>
     0 < a \<and> tradeable s \<and> 0 < leg_out a (virtual_token_reserves s) (virtual_sol_reserves s)
     \<and> 0 < buy_net (capped (real_sol_reserves s)
                     (leg_out a (virtual_token_reserves s) (virtual_sol_reserves s))) f"
  by (auto simp: quote_sell_def Let_def buy_net_def leg_out_def capped_def quote_ok_def blocked_quote_def)

lemma quote_sell_amounts:
  assumes "quote_ok (quote_sell s a f)"
  defines "gross \<equiv> capped (real_sol_reserves s)
             (leg_out a (virtual_token_reserves s) (virtual_sol_reserves s))"
  shows "output_amount (quote_sell s a f) = buy_net gross f"
    and "fee_amount (quote_sell s a f) = gross - buy_net gross f"
    and "input_amount (quote_sell s a f) = a" and "\<not> quote_verified (quote_sell s a f)"
    and "0 \<le> price_impact_pct (quote_sell s a f)"
  using assms(1) unfolding gross_def
  by (simp_all add: quote_sell_ok_iff)
     (simp_all add: quote_sell_def Let_def buy_net_def leg_out_def capped_def impact_nonneg)

lemma sell_within_1: "sell_within s 1 f a \<longleftrightarrow> quote_ok (quote_sell s a f)"
proof -
  have "price_impact_pct (quote_sell s a f) \<le> 1" if "quote_ok (quote_sell s a f)"
  proof -
    let ?net = "buy_net (capped (real_sol_reserves s)
        (leg_out a (virtual_token_reserves s) (virtual_sol_reserves s))) f"
    have "price_impact_pct (quote_sell s a f) = sell_impact (spot_price s) (average_of ?net a)"
      using that unfolding quote_sell_ok_iff
      by (simp add: quote_sell_def Let_def buy_net_def leg_out_def capped_def)
    moreover have "0 \<le> ?net" "0 \<le> a" using that by (auto simp: quote_sell_ok_iff)
    ultimately show ?thesis
      by (simp add: sell_impact_le_1 is_double_spot_price average_of_nonneg)
  qed
  then show ?thesis by (auto simp: sell_within_def Let_def)
qed

subsection \<open>Constant-product arithmetic\<close>

lemma leg_out_mult_le: "0 < q + x \<Longrightarrow> leg_out x q r * (q + x) \<le> x * r"
  unfolding leg_out_def by (rule idiv_mult_le)

lemma leg_out_nonneg: "0 \<le> x \<Longrightarrow> 0 \<le> r \<Longrightarrow> 0 < q + x \<Longrightarrow> 0 \<le> leg_out x q r"
  unfolding leg_out_def by (simp add: pos_imp_zdiv_nonneg_iff)

text \<open>Whatever is taken out, up to the quoted amount, the product of the reserves does not fall.\<close>

lemma leg_out_product:
  assumes "0 < x" "0 < q" "out \<le> leg_out x q r"
  shows "q * r \<le> (q + x) * (r - out)"
proof -
  have "q * r \<le> (q + x) * (r - leg_out x q r)"
    using leg_out_mult_le [of q x r] assms by (simp add: algebra_simps)
  also have "\<dots> \<le> (q + x) * (r - out)" using assms by (intro mult_left_mono) auto
  finally show ?thesis .
qed

lemma leg_out_less: "0 < x \<Longrightarrow> 0 < q \<Longrightarrow> 0 < r \<Longrightarrow> leg_out x q r < r"
proof -
  assume h: "0 < x" "0 < q" "0 < r"
  then have "0 < q * r" by simp
  also have "\<dots> \<le> (q + x) * (r - leg_out x q r)" using h by (intro leg_out_product) auto
  finally show ?thesis using h by (simp add: zero_less_mult_iff)
qed

lemma leg_out_mono:
  assumes "0 < x" "x \<le> y" "0 < q" "0 < r"
  shows "leg_out x q r \<le> leg_out y q r"
proof -
  let ?a = "leg_out x q r"
  have a: "?a * (q + x) \<le> x * r" using assms by (intro leg_out_mult_le) simp
  have "?a < r" using assms by (intro leg_out_less) auto
  then have "?a * (y - x) \<le> r * (y - x)" using assms by (intro mult_right_mono) auto
  then have "?a * (q + y) \<le> y * r" using a by (simp add: algebra_simps)
  then show ?thesis using assms unfolding leg_out_def by (simp add: idiv_ge_iff)
qed

lemma capped_le: "capped held amount \<le> amount"
  by (simp add: capped_def)

lemma capped_pos: "0 < amount \<Longrightarrow> 0 < capped held amount"
  by (simp add: capped_def)

lemma capped_le_held: "0 < held \<Longrightarrow> capped held amount \<le> held"
  by (simp add: capped_def)

lemma capped_mono: "a \<le> b \<Longrightarrow> capped held a \<le> capped held b"
  by (auto simp: capped_def)

lemma buy_net_le: "0 \<le> x \<Longrightarrow> 0 \<le> f \<Longrightarrow> buy_net x f \<le> x"
  by (simp add: buy_net_def pos_imp_zdiv_nonneg_iff)

lemma buy_net_mono:
  assumes "x \<le> y" "f \<le> 10000" shows "buy_net x f \<le> buy_net y f"
proof -
  have "y * f \<le> x * f + (y - x) * 10000"
    using mult_left_mono [of f 10000 "y - x"] assms by (simp add: algebra_simps)
  then have "(y * f) div 10000 \<le> (x * f + (y - x) * 10000) div 10000" by (rule zdiv_mono1) simp
  then show ?thesis by (simp add: buy_net_def)
qed

lemma quote_buy_product:
  assumes "quote_ok (quote_buy s x f)"
  shows "virtual_sol_reserves s * virtual_token_reserves s \<le>
           (virtual_sol_reserves s + buy_net x f)
           * (virtual_token_reserves s - output_amount (quote_buy s x f))"
    and "0 < output_amount (quote_buy s x f)"
    and "output_amount (quote_buy s x f) < virtual_token_reserves s"
    and "0 < real_token_reserves s \<Longrightarrow> output_amount (quote_buy s x f) \<le> real_token_reserves s"
proof -
  let ?vs = "virtual_sol_reserves s" and ?vt = "virtual_token_reserves s"
  have ok: "tradeable s" "0 < buy_net x f" "0 < leg_out (buy_net x f) ?vs ?vt"
    using assms by (simp_all add: quote_buy_ok_iff)
  then have v: "0 < ?vs" "0 < ?vt" by (simp_all add: tradeable_def)
  note A = quote_buy_amounts(1) [OF assms]
  show "?vs * ?vt \<le> (?vs + buy_net x f) * (?vt - output_amount (quote_buy s x f))"
    using ok v by (simp add: A capped_le leg_out_product)
  show "0 < output_amount (quote_buy s x f)" using ok by (simp add: A capped_pos)
  show "output_amount (quote_buy s x f) < ?vt"
    unfolding A using capped_le leg_out_less [OF ok(2) v] by (rule le_less_trans)
  show "output_amount (quote_buy s x f) \<le> real_token_reserves s" if "0 < real_token_reserves s"
    using that by (simp add: A capped_le_held)
qed

lemma quote_sell_product:
  assumes "quote_ok (quote_sell s a f)"
  shows "virtual_sol_reserves s * virtual_token_reserves s \<le>
           (virtual_token_reserves s + a)
           * (virtual_sol_reserves s - (output_amount (quote_sell s a f) + fee_amount (quote_sell s a f)))"
    and "0 < output_amount (quote_sell s a f)"
    and "0 < real_sol_reserves s \<Longrightarrow>
           output_amount (quote_sell s a f) + fee_amount (quote_sell s a f) \<le> real_sol_reserves s"
proof -
  let ?vs = "virtual_sol_reserves s" and ?vt = "virtual_token_reserves s"
  note ok = assms [unfolded quote_sell_ok_iff] and A = quote_sell_amounts [OF assms]
  have sum: "output_amount (quote_sell s a f) + fee_amount (quote_sell s a f)
      = capped (real_sol_reserves s) (leg_out a ?vt ?vs)" by (simp add: A)
  have "?vt * ?vs \<le> (?vt + a) * (?vs - capped (real_sol_reserves s) (leg_out a ?vt ?vs))"
    using ok by (intro leg_out_product capped_le) (auto simp: tradeable_def)
  then show "?vs * ?vt \<le> (?vt + a) * (?vs - (output_amount (quote_sell s a f) + fee_amount (quote_sell s a f)))"
    unfolding sum by (simp only: mult.commute)
  show "0 < output_amount (quote_sell s a f)" using ok by (simp add: A)
  show "output_amount (quote_sell s a f) + fee_amount (quote_sell s a f) \<le> real_sol_reserves s"
    if "0 < real_sol_reserves s" unfolding sum using that by (rule capped_le_held)
qed

text \<open>
  Selling back at the same reserves what a budget just bought returns at most the budget, whatever
  the (non-negative) fee and however the two divisions round.
\<close>

lemma round_trip_le:
  assumes b: "quote_ok (quote_buy s x f)"
    and q: "quote_ok (quote_sell s (output_amount (quote_buy s x f)) f)" and f: "0 \<le> f"
  shows "output_amount (quote_sell s (output_amount (quote_buy s x f)) f) \<le> x"
proof -
  let ?vs = "virtual_sol_reserves s" and ?vt = "virtual_token_reserves s" and ?net = "buy_net x f"
  define out where "out = output_amount (quote_buy s x f)"
  define raw where "raw = leg_out out ?vt ?vs"
  have ok: "0 < x" "0 < ?net" "0 < ?vs" "0 < ?vt" using b by (simp_all add: quote_buy_ok_iff tradeable_def)
  have out: "0 < out" "out \<le> leg_out ?net ?vs ?vt"
    using quote_buy_product(2) [OF b] by (simp_all add: out_def quote_buy_amounts(1) [OF b] capped_le)
  have "out * (?vs + ?net) \<le> leg_out ?net ?vs ?vt * (?vs + ?net)"
    using out ok by (intro mult_right_mono) auto
  also have "\<dots> \<le> ?net * ?vt" using ok by (intro leg_out_mult_le) auto
  finally have "out * ?vs \<le> ?net * ?vt - out * ?net" by (simp add: algebra_simps)
  moreover have "0 \<le> out * ?net" using out ok by simp
  ultimately have "out * ?vs \<le> ?net * ?vt + ?net * out" by (simp add: mult.commute)
  moreover have "raw * (?vt + out) \<le> out * ?vs"
    unfolding raw_def using ok out by (intro leg_out_mult_le) auto
  ultimately have "raw * (?vt + out) \<le> ?net * (?vt + out)" by (simp add: distrib_left)
  then have raw: "raw \<le> ?net" using ok out by simp
  let ?gross = "capped (real_sol_reserves s) raw"
  have "output_amount (quote_sell s out f) = buy_net ?gross f"
    using quote_sell_amounts(1) [OF q] by (simp add: out_def raw_def)
  moreover have "0 \<le> ?gross"
    using capped_pos q by (force simp: quote_sell_ok_iff raw_def out_def intro: less_imp_le)
  ultimately have "output_amount (quote_sell s out f) \<le> ?net"
    using buy_net_le [OF _ f] capped_le [of "real_sol_reserves s" raw] raw by fastforce
  moreover have "?net \<le> x" using ok f by (simp add: buy_net_le)
  ultimately show ?thesis by (simp add: out_def)
qed

subsection \<open>The account layout\<close>

text \<open>
  The layout of the program's account: discriminator, five little-endian \<open>u64\<close>, the flag, the
  creator's key, and whatever follows.
\<close>

definition curve_account :: "curve_state \<Rightarrow> bytes \<Rightarrow> bytes" where
  "curve_account s tail =
     BONDING_CURVE_DISCRIMINATOR
     @ le_bytes 8 (virtual_token_reserves s) @ le_bytes 8 (virtual_sol_reserves s)
     @ le_bytes 8 (real_token_reserves s) @ le_bytes 8 (real_sol_reserves s)
     @ le_bytes 8 (token_total_supply s) @ [if complete s then 1 else 0] @ tail"

definition u64 :: "int \<Rightarrow> bool" where "u64 v \<longleftrightarrow> 0 \<le> v \<and> v < 2 ^ 64"

lemma u64_le_bytes: "u64 v \<Longrightarrow> le_val (le_bytes 8 v) = v"
  by (rule le_val_le_bytes) (simp_all add: u64_def)

lemma length_discriminator [simp]: "length BONDING_CURVE_DISCRIMINATOR = 8"
  by (simp add: BONDING_CURVE_DISCRIMINATOR_def)

lemma nth_append_skip: "length xs \<le> i \<Longrightarrow> (xs @ ys) ! i = ys ! (i - length xs)"
  by (simp add: nth_append)

lemma curve_account_fields:
  "length (curve_account s tail) = 49 + length tail"
  "slice 0 8 (curve_account s tail) = BONDING_CURVE_DISCRIMINATOR"
  "u64_at (curve_account s tail) 8 = le_val (le_bytes 8 (virtual_token_reserves s))"
  "u64_at (curve_account s tail) 16 = le_val (le_bytes 8 (virtual_sol_reserves s))"
  "u64_at (curve_account s tail) 24 = le_val (le_bytes 8 (real_token_reserves s))"
  "u64_at (curve_account s tail) 32 = le_val (le_bytes 8 (real_sol_reserves s))"
  "u64_at (curve_account s tail) 40 = le_val (le_bytes 8 (token_total_supply s))"
  "curve_account s tail ! 48 = (if complete s then 1 else 0)"
  "slice 49 81 (curve_account s tail) = take 32 tail"
  by (simp_all add: curve_account_def u64_at_def byte_simps nth_append_skip)
     (simp_all add: slice_def)

lemma parse_bonding_curve_account:
  assumes "u64 (virtual_token_reserves s)" "u64 (virtual_sol_reserves s)" "u64 (real_token_reserves s)"
    "u64 (real_sol_reserves s)" "u64 (token_total_supply s)"
  shows "parse_bonding_curve (curve_account s tail) =
           Inr (s\<lparr>creator := (if 32 \<le> length tail then b58encode (take 32 tail) else '''')\<rparr>)"
  using assms by (simp add: parse_bonding_curve_def Let_def curve_account_fields u64_le_bytes)

lemma parse_bonding_curve_ok_iff:
  "(\<exists>s. parse_bonding_curve data = Inr s) \<longleftrightarrow>
     49 \<le> length data \<and> slice 0 8 data = BONDING_CURVE_DISCRIMINATOR \<and> data ! 48 \<in> {0, 1}"
  by (auto simp: parse_bonding_curve_def Let_def)

lemma u64_at_range: "off + 8 \<le> length data \<Longrightarrow> u64 (u64_at data off)"
  using le_val_bound [of "slice off (off + 8) data"] by (simp add: u64_def u64_at_def length_slice)

subsection \<open>Properties\<close>

text \<open>
  C28: an accepted buy never lowers the product of the virtual reserves, delivers something but never
  the whole virtual inventory, and never more than the real inventory where that is known; fee and
  curve leg add up to the budget, and the quote is never marked as verified.
\<close>

theorem quote_buy_safe:
  assumes "quote_ok (quote_buy s x f)"
  shows "virtual_sol_reserves s * virtual_token_reserves s \<le>
           (virtual_sol_reserves s + (x - fee_amount (quote_buy s x f)))
           * (virtual_token_reserves s - output_amount (quote_buy s x f))
    \<and> 0 < output_amount (quote_buy s x f)
    \<and> output_amount (quote_buy s x f) < virtual_token_reserves s
    \<and> (real_token_reserves s > 0 \<longrightarrow> output_amount (quote_buy s x f) \<le> real_token_reserves s)
    \<and> \<not> quote_verified (quote_buy s x f)"
  using quote_buy_product [OF assms] quote_buy_amounts [OF assms] by simp

definition sample_curve :: curve_state where
  "sample_curve =
     \<lparr>virtual_token_reserves = 1073000000000000, virtual_sol_reserves = 30000000000,
      real_token_reserves = 793100000000000, real_sol_reserves = 5000000000,
      token_total_supply = 1000000000000000, complete = False, creator = ''''\<rparr>"

lemma sample_buy_ok: "quote_ok (quote_buy sample_curve 1000000000 100)"
  by (simp add: quote_buy_ok_iff sample_curve_def tradeable_def buy_net_def leg_out_def)

lemma sample_sell_ok: "quote_ok (quote_sell sample_curve 5000000000000 100)"
  by (simp add: quote_sell_ok_iff sample_curve_def tradeable_def buy_net_def leg_out_def capped_def)

theorem quote_buy_safe_witness:
  "quote_ok (quote_buy sample_curve 1000000000 100)
   \<and> output_amount (quote_buy sample_curve 1000000000 100) < virtual_token_reserves sample_curve"
  using quote_buy_safe [OF sample_buy_ok] sample_buy_ok by blast

text \<open>
  An accepted sale keeps the product as well, pays a positive amount, and what it takes out of
  the curve, fee included, is covered by the real reserves where those are known.
\<close>

lemma quote_sell_safe:
  assumes "quote_ok (quote_sell s a f)"
  shows "virtual_sol_reserves s * virtual_token_reserves s \<le>
           (virtual_token_reserves s + a)
           * (virtual_sol_reserves s - (output_amount (quote_sell s a f) + fee_amount (quote_sell s a f)))
    \<and> 0 < output_amount (quote_sell s a f)
    \<and> (real_sol_reserves s > 0 \<longrightarrow>
         output_amount (quote_sell s a f) + fee_amount (quote_sell s a f) \<le> real_sol_reserves s)"
  using quote_sell_product [OF assms] by simp

text \<open>
  The round-trip retention an observation reports is positive and never above one: buying and
  selling back at one and the same state is never a profit, for any non-negative fee.
\<close>

lemma observation_retention_le_1:
  assumes "0 \<le> fee_bps"
    and "round_trip_retention (observation_from_state s probe fee_bps) = Some r"
  shows "0 < r \<and> r \<le> 1"
proof -
  let ?buy = "quote_buy s probe fee_bps"
  let ?resold = "quote_sell s (output_amount ?buy) fee_bps"
  have E: "quote_ok ?buy" "quote_ok ?resold" "r = int_div (output_amount ?resold) probe"
    using assms(2) by (auto simp: observation_from_state_def blocked_observation_def Let_def split: if_splits)
  have "0 < probe" using E(1) by (simp add: quote_buy_ok_iff)
  moreover have "0 < output_amount ?resold" by (rule quote_sell_product(2) [OF E(2)])
  moreover have "output_amount ?resold \<le> probe" by (rule round_trip_le [OF E(1,2) assms(1)])
  ultimately show ?thesis
    unfolding E(3) int_div_def using is_double_of_int [of 1] by (auto intro!: fl_le_double)
qed

text \<open>A larger budget never buys fewer tokens.\<close>

lemma quote_buy_mono:
  assumes "x \<le> y" "f \<le> 10000" "quote_ok (quote_buy s x f)" "quote_ok (quote_buy s y f)"
  shows "output_amount (quote_buy s x f) \<le> output_amount (quote_buy s y f)"
  using assms(3) unfolding quote_buy_amounts(1) [OF assms(3)] quote_buy_amounts(1) [OF assms(4)]
  by (intro capped_mono leg_out_mono buy_net_mono assms(1,2)) (auto simp: quote_buy_ok_iff tradeable_def)

text \<open>
  The capacity is a size the impact bound accepts (or zero), no larger than the inventory, and
  the search stopped there for a reason: it is the whole inventory, or one token more is refused.
\<close>

lemma sell_capacity_boundary:
  "0 \<le> sell_capacity_lamports s m f
   \<and> (0 < sell_capacity_lamports s m f \<longrightarrow> sell_within s m f (sell_capacity_lamports s m f))
   \<and> sell_capacity_lamports s m f \<le> max 0 (max (real_token_reserves s) (virtual_token_reserves s))
   \<and> (tradeable s \<and> 0 < m \<longrightarrow>
        sell_capacity_lamports s m f = max (real_token_reserves s) (virtual_token_reserves s)
        \<or> \<not> sell_within s m f (sell_capacity_lamports s m f + 1))"
proof -
  let ?high = "max (real_token_reserves s) (virtual_token_reserves s)"
  have eq: "sell_capacity_lamports s m f =
      (if \<not> tradeable s \<or> m \<le> 0 \<or> ?high \<le> 0 then 0 else bisect_max (sell_within s m f) 0 ?high)"
    by (simp add: sell_capacity_lamports_def Let_def)
  have h: "tradeable s \<Longrightarrow> 0 < ?high" by (auto simp: tradeable_def)
  show ?thesis
    using h bisect_max_sound [of 0 ?high "sell_within s m f"]
      bisect_max_boundary [of 0 ?high "sell_within s m f"]
    unfolding eq by (auto split: if_splits)
qed

text \<open>
  An account in the published layout decodes to the state it was written from, with the creator
  rendered in base58 when the key is present.
\<close>

lemma parse_bonding_curve_roundtrip:
  assumes "u64 (virtual_token_reserves s)" "u64 (virtual_sol_reserves s)" "u64 (real_token_reserves s)"
    "u64 (real_sol_reserves s)" "u64 (token_total_supply s)" "length key = 32"
  shows "parse_bonding_curve (curve_account s (key @ rest)) = Inr (s\<lparr>creator := b58encode key\<rparr>)"
  using assms by (simp add: parse_bonding_curve_account)

end
