(* ===== verification/PumpSwapCurve.thy ===== *)
theory PumpSwapCurve
  imports PumpCurve PyText
begin

text \<open>
  \<open>chains/pumpswap_curve.py\<close>: local quotes against a PumpSwap pool.  The pool's state is refused
  before any arithmetic when it is unidentified, empty, stale, or its fees were never measured.
  Clock readings are arguments: the code calls \<open>time.time()\<close> where \<open>now\<close> is not passed.
\<close>

record pool_state =
  pool :: string
  base_mint :: string
  quote_mint :: string
  base_reserves :: int
  quote_reserves :: int
  virtual_quote_reserves :: int
  total_fee_bps :: "int option"
  lp_fee_bps :: "int option"
  protocol_fee_bps :: "int option"
  coin_creator_fee_bps :: "int option"
  coin_creator :: string
  base_supply :: int
  base_decimals :: int
  updated_at :: pyfloat
  pool_slot :: int
  pool_source :: string

definition effective_quote_reserves :: "pool_state \<Rightarrow> int" where
  "effective_quote_reserves p = quote_reserves p + virtual_quote_reserves p"

definition pool_tradeable :: "pool_state \<Rightarrow> bool" where
  "pool_tradeable p \<longleftrightarrow> base_reserves p > 0 \<and> effective_quote_reserves p > 0
     \<and> pool p \<noteq> '''' \<and> base_mint p \<noteq> '''' \<and> quote_mint p \<noteq> ''''"

definition price_quote_per_base :: "pool_state \<Rightarrow> pyfloat option" where
  "price_quote_per_base p =
     (if \<not> pool_tradeable p then None
      else Some (int_div (effective_quote_reserves p) (base_reserves p)))"

text \<open>\<open>None\<close> is the code's \<open>float("inf")\<close>.\<close>

definition pool_age_s :: "pool_state \<Rightarrow> pyfloat \<Rightarrow> pyfloat option" where
  "pool_age_s p now = (if updated_at p \<le> 0 then None else Some (max 0 (fsub now (updated_at p))))"

definition age_exceeds :: "pyfloat option \<Rightarrow> pyfloat \<Rightarrow> bool" where
  "age_exceeds age limit = (case age of None \<Rightarrow> True | Some a \<Rightarrow> limit < a)"

definition pool_blocked_reason :: "pool_state \<Rightarrow> pyfloat \<Rightarrow> pyfloat \<Rightarrow> string option" where
  "pool_blocked_reason p max_age_s now =
     (if pool p = '''' then Some ''no_pool_address''
      else if \<not> pool_tradeable p then Some ''pool_reserves_empty''
      else case total_fee_bps p of
        None \<Rightarrow> Some ''fee_schedule_unobserved''
      | Some bps \<Rightarrow>
          if bps < 0 \<or> 10000 \<le> bps then Some (''implausible_fee_bps:'' @ int_str bps)
          else if 0 < max_age_s \<and> age_exceeds (pool_age_s p now) max_age_s
          then Some (''state_stale:''
                     @ (case pool_age_s p now of None \<Rightarrow> ''inf'' | Some a \<Rightarrow> fixed1_str a) @ ''s'')
          else None)"

text \<open>\<open>spot / LAMPORTS_PER_SOL if spot else 0.0\<close>, with \<open>spot = price or 0.0\<close>.\<close>

definition pool_spot_sol :: "pool_state \<Rightarrow> pyfloat" where
  "pool_spot_sol p =
     (let spot = (case price_quote_per_base p of None \<Rightarrow> 0 | Some x \<Rightarrow> x)
      in if spot \<noteq> 0 then fdiv spot (float_of_int LAMPORTS_PER_SOL) else 0)"

definition pool_buy_impact :: "pyfloat \<Rightarrow> pyfloat \<Rightarrow> pyfloat" where
  "pool_buy_impact spot_sol average =
     max 0 (if spot_sol > 0 then fdiv (fsub average spot_sol) spot_sol else 0)"

definition fee_bps_of :: "pool_state \<Rightarrow> int" where
  "fee_bps_of p = (case total_fee_bps p of None \<Rightarrow> 0 | Some b \<Rightarrow> b)"

definition pool_quote_buy :: "pool_state \<Rightarrow> int \<Rightarrow> pyfloat \<Rightarrow> pyfloat \<Rightarrow> curve_quote" where
  "pool_quote_buy p quote_lamports max_age_s now =
     (if quote_lamports \<le> 0 then blocked_quote ''non_positive_input''
      else case pool_blocked_reason p max_age_s now of
        Some blocked \<Rightarrow> blocked_quote blocked
      | None \<Rightarrow>
          let total_bps = fee_bps_of p;
              amm_leg = (quote_lamports * 10000) div (10000 + total_bps);
              fee = quote_lamports - amm_leg
          in if amm_leg \<le> 0 then blocked_quote ''input_fully_consumed_by_fee''
             else
               let reserves_quote = effective_quote_reserves p;
                   base_out = (amm_leg * base_reserves p) div (reserves_quote + amm_leg)
               in if base_out \<le> 0 then blocked_quote ''output_rounds_to_zero''
                  else if base_reserves p \<le> base_out then blocked_quote ''size_exceeds_pool_inventory''
                  else
                    let average = average_of quote_lamports base_out
                    in \<lparr>input_amount = quote_lamports, output_amount = base_out, fee_amount = fee,
                        price_impact_pct = pool_buy_impact (pool_spot_sol p) average,
                        average_price = Some average, quote_verified = False,
                        quote_status = ''OK'', quote_reason = ''''\<rparr>)"

definition pool_quote_sell :: "pool_state \<Rightarrow> int \<Rightarrow> pyfloat \<Rightarrow> pyfloat \<Rightarrow> curve_quote" where
  "pool_quote_sell p base_amount max_age_s now =
     (if base_amount \<le> 0 then blocked_quote ''non_positive_input''
      else case pool_blocked_reason p max_age_s now of
        Some blocked \<Rightarrow> blocked_quote blocked
      | None \<Rightarrow>
          let gross = (base_amount * effective_quote_reserves p) div (base_reserves p + base_amount)
          in if gross \<le> 0 then blocked_quote ''output_rounds_to_zero''
             else
               let total_bps = fee_bps_of p;
                   fee = - ((- gross * total_bps) div 10000);
                   net = gross - fee
               in if net \<le> 0 then blocked_quote ''output_fully_consumed_by_fee''
                  else
                    let average = average_of net base_amount
                    in \<lparr>input_amount = base_amount, output_amount = net, fee_amount = fee,
                        price_impact_pct = sell_impact (pool_spot_sol p) average,
                        average_price = Some average, quote_verified = False,
                        quote_status = ''OK'', quote_reason = ''''\<rparr>)"

definition pool_sell_within :: "pool_state \<Rightarrow> pyfloat \<Rightarrow> pyfloat \<Rightarrow> pyfloat \<Rightarrow> int \<Rightarrow> bool" where
  "pool_sell_within p max_impact_pct max_age_s now mid =
     (let quote = pool_quote_sell p mid max_age_s now
      in quote_ok quote \<and> price_impact_pct quote \<le> max_impact_pct)"

definition sell_capacity_base :: "pool_state \<Rightarrow> pyfloat \<Rightarrow> pyfloat \<Rightarrow> pyfloat \<Rightarrow> int" where
  "sell_capacity_base p max_impact_pct max_age_s now =
     (if max_impact_pct \<le> 0 \<or> pool_blocked_reason p max_age_s now \<noteq> None then 0
      else bisect_max_n 64 (pool_sell_within p max_impact_pct max_age_s now) 0 (base_reserves p))"

subsection \<open>Accepted quotes\<close>

text \<open>Fees: what is left of a budget that includes its fee, and the fee of a sale, rounded up.\<close>

definition pool_leg :: "int \<Rightarrow> int \<Rightarrow> int" where
  "pool_leg budget bps = (budget * 10000) div (10000 + bps)"

definition fee_up :: "int \<Rightarrow> int \<Rightarrow> int" where
  "fee_up gross bps = - ((- gross * bps) div 10000)"

lemma pool_not_blockedD:
  assumes "pool_blocked_reason p m now = None"
  shows "pool_tradeable p" "total_fee_bps p = Some (fee_bps_of p)"
    "0 \<le> fee_bps_of p" "fee_bps_of p < 10000" "0 < m \<Longrightarrow> \<not> age_exceeds (pool_age_s p now) m"
  using assms by (auto simp: pool_blocked_reason_def fee_bps_of_def split: if_splits option.splits)

lemma pool_quote_buy_ok_iff:
  "quote_ok (pool_quote_buy p x m now) \<longleftrightarrow>
     0 < x \<and> pool_blocked_reason p m now = None \<and> 0 < pool_leg x (fee_bps_of p)
     \<and> 0 < leg_out (pool_leg x (fee_bps_of p)) (effective_quote_reserves p) (base_reserves p)
     \<and> leg_out (pool_leg x (fee_bps_of p)) (effective_quote_reserves p) (base_reserves p) < base_reserves p"
  by (auto simp: pool_quote_buy_def Let_def pool_leg_def leg_out_def quote_ok_def blocked_quote_def
      split: option.splits)

lemma pool_quote_buy_amounts:
  assumes "quote_ok (pool_quote_buy p x m now)"
  shows "output_amount (pool_quote_buy p x m now)
           = leg_out (pool_leg x (fee_bps_of p)) (effective_quote_reserves p) (base_reserves p)"
    and "fee_amount (pool_quote_buy p x m now) = x - pool_leg x (fee_bps_of p)"
    and "input_amount (pool_quote_buy p x m now) = x"
  using assms
  by (simp_all add: pool_quote_buy_ok_iff) (simp_all add: pool_quote_buy_def Let_def pool_leg_def leg_out_def)

lemma pool_quote_sell_ok_iff:
  "quote_ok (pool_quote_sell p a m now) \<longleftrightarrow>
     0 < a \<and> pool_blocked_reason p m now = None
     \<and> 0 < leg_out a (base_reserves p) (effective_quote_reserves p)
     \<and> fee_up (leg_out a (base_reserves p) (effective_quote_reserves p)) (fee_bps_of p)
         < leg_out a (base_reserves p) (effective_quote_reserves p)"
  by (auto simp: pool_quote_sell_def Let_def fee_up_def leg_out_def quote_ok_def blocked_quote_def
      split: option.splits)

lemma pool_quote_sell_amounts:
  assumes "quote_ok (pool_quote_sell p a m now)"
  defines "gross \<equiv> leg_out a (base_reserves p) (effective_quote_reserves p)"
  shows "output_amount (pool_quote_sell p a m now) = gross - fee_up gross (fee_bps_of p)"
    and "fee_amount (pool_quote_sell p a m now) = fee_up gross (fee_bps_of p)"
    and "price_impact_pct (pool_quote_sell p a m now)
           = sell_impact (pool_spot_sol p) (average_of (gross - fee_up gross (fee_bps_of p)) a)"
  using assms(1) unfolding gross_def
  by (simp_all add: pool_quote_sell_ok_iff) (simp_all add: pool_quote_sell_def Let_def fee_up_def leg_out_def)

lemma pool_leg_bounds:
  assumes "0 < x" "0 \<le> bps"
  shows "pool_leg x bps \<le> x" "pool_leg x bps * (10000 + bps) \<le> x * 10000"
proof -
  show "pool_leg x bps * (10000 + bps) \<le> x * 10000"
    unfolding pool_leg_def using assms by (intro idiv_mult_le) simp
  have "x * 10000 \<le> x * (10000 + bps)" using assms by simp
  then have "(x * 10000) div (10000 + bps) \<le> (x * (10000 + bps)) div (10000 + bps)"
    using assms by (intro zdiv_mono1) auto
  then show "pool_leg x bps \<le> x" using assms by (simp add: pool_leg_def)
qed

lemma fee_up_bounds: "gross * bps \<le> fee_up gross bps * 10000" "fee_up gross bps * 10000 < gross * bps + 10000"
  using idiv_mult_le [of 10000 "- gross * bps"] idiv_mult_gt [of 10000 "- gross * bps"]
  by (simp_all add: fee_up_def)

lemma fee_up_nonneg: "0 \<le> gross \<Longrightarrow> 0 \<le> bps \<Longrightarrow> 0 \<le> fee_up gross bps"
  using fee_up_bounds(1) [of gross bps] mult_nonneg_nonneg [of gross bps] by linarith


lemma pool_not_blocked_reserves:
  "pool_blocked_reason p m now = None \<Longrightarrow> 0 < base_reserves p \<and> 0 < effective_quote_reserves p"
  using pool_not_blockedD(1) [of p m now] by (simp add: pool_tradeable_def)

lemma pool_buy_fee_bounds:
  assumes "0 < x" "0 \<le> bps"
  shows "pool_leg x bps * bps \<le> (x - pool_leg x bps) * 10000"
    and "(x - pool_leg x bps) * 10000 < pool_leg x bps * bps + 10000 + bps"
proof -
  show "pool_leg x bps * bps \<le> (x - pool_leg x bps) * 10000"
    using pool_leg_bounds(2) [OF assms] by (simp add: algebra_simps)
  have "x * 10000 < (pool_leg x bps + 1) * (10000 + bps)"
    unfolding pool_leg_def using assms by (intro idiv_mult_gt) simp
  then show "(x - pool_leg x bps) * 10000 < pool_leg x bps * bps + 10000 + bps"
    by (simp add: algebra_simps)
qed

lemma pool_sell_gross_le:
  assumes "0 < x" "0 \<le> bps" "0 < q" "0 < r"
    and "0 < pool_leg x bps" "0 < leg_out (pool_leg x bps) q r"
  shows "leg_out (leg_out (pool_leg x bps) q r) r q \<le> pool_leg x bps"
proof -
  let ?x = "pool_leg x bps"
  let ?out = "leg_out ?x q r"
  have "?out * (q + ?x) \<le> ?x * r" using assms by (intro leg_out_mult_le) simp
  then have "?out * q \<le> ?x * (r - ?out)" by (simp add: algebra_simps)
  also have "\<dots> \<le> ?x * (r + ?out)" using assms by (intro mult_left_mono) auto
  finally have le: "?out * q \<le> ?x * (r + ?out)" .
  have "leg_out ?out r q * (r + ?out) \<le> ?out * q" using assms by (intro leg_out_mult_le) simp
  then have "leg_out ?out r q * (r + ?out) \<le> ?x * (r + ?out)" using le by (rule order_trans)
  then show ?thesis using assms by (simp add: mult_le_cancel_right)
qed

subsection \<open>Properties\<close>

text \<open>
  An accepted pool quote was priced at a fee that some trade was charged (never a default), on
  reserves no older than the limit, and its fee leg is the rate rounded against the taker: the
  product of the reserves never falls and the output is below the pool's inventory.
\<close>

lemma pool_quote_buy_safe:
  assumes "quote_ok (pool_quote_buy p x max_age now)"
  shows "\<exists>bps. total_fee_bps p = Some bps \<and> 0 \<le> bps \<and> bps < 10000
    \<and> \<not> (0 < max_age \<and> age_exceeds (pool_age_s p now) max_age)
    \<and> bps * (x - fee_amount (pool_quote_buy p x max_age now))
        \<le> fee_amount (pool_quote_buy p x max_age now) * 10000
    \<and> effective_quote_reserves p * base_reserves p
        \<le> (effective_quote_reserves p + (x - fee_amount (pool_quote_buy p x max_age now)))
           * (base_reserves p - output_amount (pool_quote_buy p x max_age now))
    \<and> 0 < output_amount (pool_quote_buy p x max_age now)
    \<and> output_amount (pool_quote_buy p x max_age now) < base_reserves p"
proof -
  note ok = assms [unfolded pool_quote_buy_ok_iff]
  note D = pool_not_blockedD [of p max_age now] and R = pool_not_blocked_reserves [of p max_age now]
  have leg: "x - fee_amount (pool_quote_buy p x max_age now) = pool_leg x (fee_bps_of p)"
    by (simp add: pool_quote_buy_amounts [OF assms])
  have fee: "fee_bps_of p * pool_leg x (fee_bps_of p) \<le> fee_amount (pool_quote_buy p x max_age now) * 10000"
    using pool_buy_fee_bounds(1) [of x "fee_bps_of p"] ok D
    by (simp add: pool_quote_buy_amounts [OF assms] mult.commute)
  have prod: "effective_quote_reserves p * base_reserves p
      \<le> (effective_quote_reserves p + pool_leg x (fee_bps_of p))
         * (base_reserves p - output_amount (pool_quote_buy p x max_age now))"
    using ok R by (intro leg_out_product) (simp_all add: pool_quote_buy_amounts [OF assms])
  show ?thesis
    using ok D fee prod unfolding leg by (intro exI [of _ "fee_bps_of p"]) (simp add: pool_quote_buy_amounts [OF assms])
qed

definition sample_pool :: pool_state where
  "sample_pool =
     \<lparr>pool = ''P'', base_mint = ''B'', quote_mint = ''Q'', base_reserves = 206900000000000,
      quote_reserves = 85000000000, virtual_quote_reserves = 0, total_fee_bps = Some 30,
      lp_fee_bps = Some 20, protocol_fee_bps = Some 5, coin_creator_fee_bps = Some 5, coin_creator = '''',
      base_supply = 1000000000000000, base_decimals = 6, updated_at = 100, pool_slot = 7,
      pool_source = ''stream''\<rparr>"

lemma sample_pool_open: "pool_blocked_reason sample_pool 30 110 = None"
  by (simp add: pool_blocked_reason_def sample_pool_def pool_tradeable_def effective_quote_reserves_def
      age_exceeds_def pool_age_s_def fsub_def fl_of_int [of 10, simplified])

lemma sample_pool_buy_ok: "quote_ok (pool_quote_buy sample_pool 1000000000 30 110)"
  by (simp add: pool_quote_buy_ok_iff sample_pool_open)
     (simp add: sample_pool_def fee_bps_of_def pool_leg_def leg_out_def effective_quote_reserves_def)

text \<open>
  C23: buying and selling what was bought at one pool state, at the measured fee, never pays more
  than the budget less the fee the purchase was charged.
\<close>

theorem pool_round_trip_no_profit:
  assumes "quote_ok (pool_quote_buy p x m now)"
    and "quote_ok (pool_quote_sell p (output_amount (pool_quote_buy p x m now)) m' now')"
  shows "output_amount (pool_quote_sell p (output_amount (pool_quote_buy p x m now)) m' now')
           \<le> x - fee_amount (pool_quote_buy p x m now)"
proof -
  let ?leg = "pool_leg x (fee_bps_of p)"
  let ?gross = "leg_out (output_amount (pool_quote_buy p x m now)) (base_reserves p) (effective_quote_reserves p)"
  note ok = assms(1) [unfolded pool_quote_buy_ok_iff]
  have bps: "0 \<le> fee_bps_of p" using ok pool_not_blockedD(3) by blast
  have gross: "?gross \<le> ?leg"
    unfolding pool_quote_buy_amounts(1) [OF assms(1)]
    using ok bps pool_not_blocked_reserves [of p m now] by (intro pool_sell_gross_le) auto
  have "0 \<le> fee_up ?gross (fee_bps_of p)"
    using assms(2) bps by (intro fee_up_nonneg) (auto simp: pool_quote_sell_ok_iff)
  then show ?thesis
    using gross unfolding pool_quote_sell_amounts(1) [OF assms(2)] pool_quote_buy_amounts(2) [OF assms(1)]
    by simp
qed

theorem pool_round_trip_no_profit_witness:
  "output_amount (pool_quote_sell sample_pool
      (output_amount (pool_quote_buy sample_pool 1000000000 30 110)) 30 110)
     \<le> 1000000000 - fee_amount (pool_quote_buy sample_pool 1000000000 30 110)"
proof (rule pool_round_trip_no_profit [OF sample_pool_buy_ok])
  show "quote_ok (pool_quote_sell sample_pool (output_amount (pool_quote_buy sample_pool 1000000000 30 110)) 30 110)"
    unfolding pool_quote_buy_amounts [OF sample_pool_buy_ok]
    by (simp add: pool_quote_sell_ok_iff sample_pool_open)
       (simp add: sample_pool_def fee_bps_of_def pool_leg_def leg_out_def fee_up_def effective_quote_reserves_def)
qed

text \<open>
  C32: the 64 rounds the capacity search allows are enough for every pool whose inventory is a
  64-bit amount, so the size it returns is zero or acceptable, and the next size was refused.
\<close>

theorem sell_capacity_base_boundary:
  assumes "base_reserves p < 2 ^ 64"
  shows "(0 < sell_capacity_base p limit m now \<longrightarrow> pool_sell_within p limit m now (sell_capacity_base p limit m now))
    \<and> 0 \<le> sell_capacity_base p limit m now
    \<and> sell_capacity_base p limit m now \<le> max 0 (base_reserves p)
    \<and> (0 < limit \<and> pool_blocked_reason p m now = None \<longrightarrow>
         sell_capacity_base p limit m now = base_reserves p
         \<or> \<not> pool_sell_within p limit m now (sell_capacity_base p limit m now + 1))"
proof (cases "limit \<le> 0 \<or> pool_blocked_reason p m now \<noteq> None")
  case True
  then show ?thesis by (auto simp: sell_capacity_base_def)
next
  case False
  then have r: "0 < base_reserves p" using pool_not_blocked_reserves by blast
  have "sell_capacity_base p limit m now = bisect_max (pool_sell_within p limit m now) 0 (base_reserves p)"
    using False assms by (simp add: sell_capacity_base_def bisect_max_n_enough)
  then show ?thesis
    using r bisect_max_sound [of 0 "base_reserves p" "pool_sell_within p limit m now"]
      bisect_max_boundary [of 0 "base_reserves p" "pool_sell_within p limit m now"]
    by auto
qed

definition small_pool :: pool_state where
  "small_pool = sample_pool\<lparr>base_reserves := 4, quote_reserves := 1000000\<rparr>"

theorem sell_capacity_base_boundary_witness:
  "0 < sell_capacity_base small_pool 1 30 110
   \<and> pool_sell_within small_pool 1 30 110 (sell_capacity_base small_pool 1 30 110)"
proof -
  let ?cap = "sell_capacity_base small_pool 1 30 110"
  have open': "pool_blocked_reason small_pool 30 110 = None"
    by (simp add: pool_blocked_reason_def small_pool_def sample_pool_def pool_tradeable_def
        effective_quote_reserves_def age_exceeds_def pool_age_s_def fsub_def fl_of_int [of 10, simplified])
  have base: "base_reserves small_pool = 4" by (simp add: small_pool_def sample_pool_def)
  have sell: "quote_ok (pool_quote_sell small_pool 1 30 110)"
    by (simp add: pool_quote_sell_ok_iff open')
       (simp add: small_pool_def sample_pool_def fee_bps_of_def leg_out_def fee_up_def effective_quote_reserves_def)
  have "price_impact_pct (pool_quote_sell small_pool 1 30 110) \<le> 1"
    unfolding pool_quote_sell_amounts(3) [OF sell]
    by (rule sell_impact_le_1)
       (simp_all add: pool_spot_sol_def Let_def fdiv_def average_of_nonneg fee_up_def leg_out_def small_pool_def
         sample_pool_def fee_bps_of_def effective_quote_reserves_def is_double_of_int [of 0, simplified])
  then have "pool_sell_within small_pool 1 30 110 1" using sell by (simp add: pool_sell_within_def Let_def)
  moreover note B = sell_capacity_base_boundary [of small_pool 1 30 110, unfolded base]
  ultimately have "?cap \<noteq> 0" using open' by (auto simp: base)
  moreover have "0 \<le> ?cap" using B by simp
  ultimately have "0 < ?cap" by simp
  then show ?thesis using B by simp
qed

end
