(* ===== verification/Tradeability.thy ===== *)
theory Tradeability
  imports PumpSwapCurve
begin

text \<open>
  \<open>execution/tradeability.py\<close>: how much of a token can be bought and sold within an impact bound, measured by
  quoting the venue, and the exit capacity the desk (\<open>main.py\<close>) derives from it.  A quote function answers
  whether the venue quotes a size, and the impact.
\<close>

type_synonym quote_fn = "int \<Rightarrow> bool \<times> pyfloat"

definition DEFAULT_IMPACT_BOUNDS :: "pyfloat list" where
  "DEFAULT_IMPACT_BOUNDS = [fl (1 / 100), fl (3 / 100), fl (5 / 100), fl (10 / 100)]"

record frontier =
  fr_status :: string
  fr_side :: string
  fr_sizes :: "(pyfloat, int) dict"
  fr_ceiling :: int
  fr_upper_bound_only :: bool

definition frontier_ok :: "frontier \<Rightarrow> bool" where
  "frontier_ok f \<longleftrightarrow> fr_status f = ''OK''"

definition size_at :: "frontier \<Rightarrow> pyfloat \<Rightarrow> int option" where
  "size_at f impact = dget (fr_sizes f) impact"

definition impact_for :: "frontier \<Rightarrow> int \<Rightarrow> pyfloat option" where
  "impact_for f size1 = List.find (\<lambda>b. case dget (fr_sizes f) b of None \<Rightarrow> False | Some s \<Rightarrow> size1 \<le> s) (sort (dkeys (fr_sizes f)))"

text \<open>The probe climbs by four from the least size it is given, which is positive.\<close>

function quotable_from :: "quote_fn \<Rightarrow> int \<Rightarrow> int \<Rightarrow> int option" where
  "quotable_from quote roof size1 =
     (if size1 \<le> 0 \<or> roof < size1 then None
      else if fst (quote size1) then Some size1
      else quotable_from quote roof (size1 * 4))"
  by pat_completeness auto
termination
  by (relation "measure (\<lambda>(quote, roof, size1). nat (roof + 1 - size1))") auto

declare quotable_from.simps [simp del]

definition minimum_quotable :: "quote_fn \<Rightarrow> int \<Rightarrow> int option" where
  "minimum_quotable quote roof = quotable_from quote roof 1"

definition fits :: "quote_fn \<Rightarrow> pyfloat \<Rightarrow> int \<Rightarrow> bool" where
  "fits quote most mid = (case quote mid of (ok, impact) \<Rightarrow> ok \<and> impact \<le> most)"

definition largest_size_within :: "quote_fn \<Rightarrow> int \<Rightarrow> pyfloat \<Rightarrow> int" where
  "largest_size_within quote roof most =
     (if roof \<le> 0 \<or> most \<le> 0 then 0 else bisect_max_n 64 (fits quote most) 0 roof)"

definition build_frontier :: "quote_fn \<Rightarrow> int \<Rightarrow> string \<Rightarrow> pyfloat list \<Rightarrow> frontier" where
  "build_frontier quote roof side bounds =
     (let blocked = \<lparr>fr_status = ''DATA_BLOCKED'', fr_side = side, fr_sizes = [], fr_ceiling = 0, fr_upper_bound_only = False\<rparr>
      in if roof \<le> 0 then blocked
         else if minimum_quotable quote roof = None then blocked
         else \<lparr>fr_status = ''OK'', fr_side = side,
               fr_sizes = foldl (\<lambda>d b. dput b (largest_size_within quote roof b) d) [] bounds,
               fr_ceiling = roof, fr_upper_bound_only = False\<rparr>)"

definition exit_capacity_ratio_of :: "int \<Rightarrow> frontier \<Rightarrow> pyfloat \<Rightarrow> string \<times> pyfloat" where
  "exit_capacity_ratio_of position f acceptable =
     (if position \<le> 0 then (''DATA_BLOCKED'', 0)
      else if \<not> frontier_ok f then (''DATA_BLOCKED'', 0)
      else case size_at f acceptable of
        None \<Rightarrow> (''DATA_BLOCKED'', 0)
      | Some sellable \<Rightarrow>
          (if fr_upper_bound_only f then ''OK_UPPER_BOUND'' else ''OK'', min 1 (int_div sellable position)))"

record tradeability_report =
  tb_entry :: frontier
  tb_exit :: frontier

definition report_ok :: "tradeability_report \<Rightarrow> bool" where
  "report_ok r \<longleftrightarrow> frontier_ok (tb_entry r) \<and> frontier_ok (tb_exit r)"

definition round_trip_size :: "tradeability_report \<Rightarrow> pyfloat \<Rightarrow> int option" where
  "round_trip_size r impact =
     (case (size_at (tb_entry r) impact, size_at (tb_exit r) impact) of (Some a, Some b) \<Rightarrow> Some (min a b) | _ \<Rightarrow> None)"

definition asymmetry :: "tradeability_report \<Rightarrow> pyfloat \<Rightarrow> pyfloat option" where
  "asymmetry r impact =
     (case (size_at (tb_entry r) impact, size_at (tb_exit r) impact) of
        (Some a, Some b) \<Rightarrow> if a = 0 then None else Some (int_div b a)
      | _ \<Rightarrow> None)"

definition answer_of :: "curve_quote \<Rightarrow> bool \<times> pyfloat" where
  "answer_of q = (quote_ok q, price_impact_pct q)"

definition curve_tradeability :: "curve_state \<Rightarrow> int \<Rightarrow> pyfloat list \<Rightarrow> tradeability_report" where
  "curve_tradeability s fee_bps bounds =
     (let only = (real_sol_reserves s \<le> 0)
      in \<lparr>tb_entry = (build_frontier (\<lambda>n. answer_of (quote_buy s n fee_bps)) (max 0 (virtual_sol_reserves s)) ''entry'' bounds)
                       \<lparr>fr_upper_bound_only := only\<rparr>,
          tb_exit = (build_frontier (\<lambda>n. answer_of (quote_sell s n fee_bps)) (max (real_token_reserves s) (virtual_token_reserves s))
                       ''exit'' bounds)\<lparr>fr_upper_bound_only := only\<rparr>\<rparr>)"

definition pool_tradeability :: "pool_state \<Rightarrow> pyfloat \<Rightarrow> pyfloat \<Rightarrow> pyfloat list \<Rightarrow> tradeability_report" where
  "pool_tradeability p max_age_s now bounds =
     \<lparr>tb_entry = build_frontier (\<lambda>n. answer_of (pool_quote_buy p n max_age_s now)) (max 0 (effective_quote_reserves p)) ''entry'' bounds,
      tb_exit = build_frontier (\<lambda>n. answer_of (pool_quote_sell p n max_age_s now)) (max 0 (base_reserves p)) ''exit'' bounds\<rparr>"

definition curve_depth_usd :: "curve_state option \<Rightarrow> pyfloat \<Rightarrow> pyfloat \<Rightarrow> int \<Rightarrow> pyfloat option" where
  "curve_depth_usd state impact sol_price fee_bps =
     (case state of
        None \<Rightarrow> None
      | Some s \<Rightarrow>
          if sol_price \<le> 0 \<or> impact \<le> 0 then None
          else if \<not> tradeable s \<or> real_sol_reserves s \<le> 0 then None
          else
            let tokens = sell_capacity_lamports s impact fee_bps
            in if tokens \<le> 0 then None
               else
                 let q = quote_sell s tokens fee_bps
                 in if \<not> quote_ok q \<or> output_amount q \<le> 0 then None
                    else Some (fmul (int_div (output_amount q) 1000000000) sol_price))"

text \<open>
  \<open>_exit_capacity\<close> of the desk: the curve where one is streamed, else the pool the token has moved to.
\<close>

definition exit_capacity ::
    "curve_state option \<Rightarrow> pool_state option \<Rightarrow> int \<Rightarrow> pyfloat \<Rightarrow> pyfloat \<Rightarrow> int \<Rightarrow> pyfloat \<Rightarrow> string \<times> pyfloat" where
  "exit_capacity curve amm fee_bps max_age_s now held acceptable =
     (case curve of
        Some s \<Rightarrow> exit_capacity_ratio_of held (tb_exit (curve_tradeability s fee_bps DEFAULT_IMPACT_BOUNDS)) acceptable
      | None \<Rightarrow>
          (case amm of
             None \<Rightarrow> (''DATA_BLOCKED_NO_CURVE_STATE'', 0)
           | Some p \<Rightarrow>
               if pool_blocked_reason p max_age_s now \<noteq> None then (''DATA_BLOCKED_NO_CURVE_STATE'', 0)
               else exit_capacity_ratio_of held (tb_exit (pool_tradeability p max_age_s now DEFAULT_IMPACT_BOUNDS)) acceptable))"

subsection \<open>A capacity is a quoted size\<close>

lemma frontier_sizes:
  "frontier_ok (build_frontier quote roof side bounds) \<Longrightarrow>
     0 < roof \<and> size_at (build_frontier quote roof side bounds) b
       = (if b \<in> set bounds then Some (largest_size_within quote roof b) else None)"
proof -
  have "dget (foldl (\<lambda>d b. dput b (largest_size_within quote roof b) d) d bounds) b
      = (if b \<in> set bounds then Some (largest_size_within quote roof b) else dget d b)" for d
    by (induction bounds arbitrary: d) auto
  then show "frontier_ok (build_frontier quote roof side bounds) \<Longrightarrow> ?thesis"
    by (auto simp: build_frontier_def frontier_ok_def size_at_def Let_def split: if_splits)
qed

lemma largest_size:
  assumes "0 < roof" "roof < 2 ^ 64" "0 < most"
  shows "0 \<le> largest_size_within quote roof most \<and> largest_size_within quote roof most \<le> roof
    \<and> (0 < largest_size_within quote roof most \<longrightarrow> fits quote most (largest_size_within quote roof most))
    \<and> (largest_size_within quote roof most < roof \<longrightarrow> \<not> fits quote most (largest_size_within quote roof most + 1))"
proof -
  have "bisect_max_n 64 (fits quote most) 0 roof = bisect_max (fits quote most) 0 roof"
    using assms(2) by (intro bisect_max_n_enough) simp
  then show ?thesis
    using assms bisect_max_sound [of 0 roof "fits quote most"] bisect_max_boundary [of 0 roof "fits quote most"]
    by (auto simp: largest_size_within_def)
qed


text \<open>
  C20: An exit capacity is a quote, not a guess.  When the desk is told what part of a holding can be sold within an
  impact, that part is the share of a size the venue itself quotes within it (or nothing), it is at most the
  whole, the next larger size up to the inventory was refused or dearer, and the venue had been able to answer:
  an unmeasured venue never reads as full capacity.
\<close>
theorem exit_capacity_is_quoted:
  assumes "exit_capacity curve amm fee_bps max_age_s now held acceptable = (status, ratio)" "status \<in> {''OK'', ''OK_UPPER_BOUND''}"
    and "(case curve of Some s \<Rightarrow> max (real_token_reserves s) (virtual_token_reserves s) < 2 ^ 64
           | None \<Rightarrow> (case amm of None \<Rightarrow> True | Some p \<Rightarrow> base_reserves p < 2 ^ 64))"
  shows "0 < held \<and> ratio \<le> 1 \<and>
    (\<exists>quote roof sellable. ratio = min 1 (int_div sellable held) \<and> 0 \<le> sellable \<and> sellable \<le> roof
       \<and> (0 < sellable \<longrightarrow> fits quote acceptable sellable) \<and> (sellable < roof \<longrightarrow> \<not> fits quote acceptable (sellable + 1))
       \<and> (case curve of
            Some s \<Rightarrow> quote = (\<lambda>n. answer_of (quote_sell s n fee_bps)) \<and> roof = max (real_token_reserves s) (virtual_token_reserves s)
          | None \<Rightarrow> \<exists>p. amm = Some p \<and> pool_blocked_reason p max_age_s now = None
              \<and> quote = (\<lambda>n. answer_of (pool_quote_sell p n max_age_s now)) \<and> roof = max 0 (base_reserves p)))"
proof -
  define quote where "quote = (case curve of Some s \<Rightarrow> (\<lambda>n. answer_of (quote_sell s n fee_bps))
    | None \<Rightarrow> (\<lambda>n. answer_of (pool_quote_sell (the amm) n max_age_s now)))"
  define roof where "roof = (case curve of Some s \<Rightarrow> max (real_token_reserves s) (virtual_token_reserves s) | None \<Rightarrow> max 0 (base_reserves (the amm)))"
  define f where "f = build_frontier quote roof ''exit'' DEFAULT_IMPACT_BOUNDS"
  have venue: "curve = None \<Longrightarrow> \<exists>p. amm = Some p \<and> pool_blocked_reason p max_age_s now = None"
    using assms(1,2) by (auto simp: exit_capacity_def split: option.splits if_splits)
  have "frontier_ok f \<and> 0 < held \<and> (\<exists>sellable. size_at f acceptable = Some sellable \<and> ratio = min 1 (int_div sellable held))"
    using assms(1,2) venue
    by (auto simp: exit_capacity_def exit_capacity_ratio_of_def curve_tradeability_def pool_tradeability_def f_def quote_def roof_def
        frontier_ok_def size_at_def Let_def split: option.splits if_splits)
  then obtain sellable where f: "frontier_ok f" "0 < held" "size_at f acceptable = Some sellable" "ratio = min 1 (int_div sellable held)"
    by blast
  from frontier_sizes [OF f(1) [unfolded f_def], of acceptable] f(3)
  have s: "0 < roof" "acceptable \<in> set DEFAULT_IMPACT_BOUNDS" "sellable = largest_size_within quote roof acceptable"
    by (auto simp: f_def split: if_splits)
  have "0 < acceptable" using s(2) by (auto simp: DEFAULT_IMPACT_BOUNDS_def)
  moreover have "roof < 2 ^ 64" using assms(3) venue by (auto simp: roof_def split: option.splits)
  ultimately have "0 \<le> sellable \<and> sellable \<le> roof \<and> (0 < sellable \<longrightarrow> fits quote acceptable sellable)
      \<and> (sellable < roof \<longrightarrow> \<not> fits quote acceptable (sellable + 1))"
    using largest_size [OF s(1), of acceptable quote] s(3) by simp
  moreover have "case curve of
            Some s \<Rightarrow> quote = (\<lambda>n. answer_of (quote_sell s n fee_bps)) \<and> roof = max (real_token_reserves s) (virtual_token_reserves s)
          | None \<Rightarrow> \<exists>p. amm = Some p \<and> pool_blocked_reason p max_age_s now = None
              \<and> quote = (\<lambda>n. answer_of (pool_quote_sell p n max_age_s now)) \<and> roof = max 0 (base_reserves p)"
    using venue by (cases curve) (auto simp: quote_def roof_def)
  ultimately show ?thesis using f by auto
qed


text \<open>A curve that holds no SOL has an exit capacity from its virtual reserves all the same, under another name.\<close>

lemma empty_curve_has_capacity:
  assumes "real_sol_reserves s \<le> 0" "exit_capacity (Some s) amm fee_bps max_age_s now held acceptable = (status, ratio)"
  shows "status \<in> {''DATA_BLOCKED'', ''OK_UPPER_BOUND''} \<and> curve_depth_usd (Some s) acceptable sol_price fee_bps = None"
  using assms
  by (auto simp: exit_capacity_def exit_capacity_ratio_of_def curve_tradeability_def curve_depth_usd_def Let_def
      split: if_splits option.splits)

definition tiny_curve :: curve_state where
  "tiny_curve = \<lparr>virtual_token_reserves = 1, virtual_sol_reserves = 8, real_token_reserves = 1, real_sol_reserves = 8,
     token_total_supply = 1, complete = False, creator = ''''\<rparr>"

theorem exit_capacity_is_quoted_witness:
  "\<exists>ratio sellable. exit_capacity (Some tiny_curve) None 0 30 0 1 (fl (10 / 100)) = (''OK'', ratio) \<and> ratio \<le> 1 \<and> 0 \<le> sellable
     \<and> ratio = min 1 (int_div sellable 1)"
proof -
  have "quote_ok (quote_sell tiny_curve 1 0)"
    by (simp add: quote_sell_def tiny_curve_def tradeable_def quote_ok_def Let_def)
  then have "minimum_quotable (\<lambda>n. answer_of (quote_sell tiny_curve n 0)) 1 = Some 1"
    by (simp add: minimum_quotable_def quotable_from.simps answer_of_def)
  then have ok: "frontier_ok (build_frontier (\<lambda>n. answer_of (quote_sell tiny_curve n 0)) 1 ''exit'' DEFAULT_IMPACT_BOUNDS)"
    by (simp add: build_frontier_def frontier_ok_def)
  obtain status ratio where e: "exit_capacity (Some tiny_curve) None 0 30 0 1 (fl (10 / 100)) = (status, ratio)" by fastforce
  have "fl (10 / 100) \<in> set DEFAULT_IMPACT_BOUNDS" by (simp add: DEFAULT_IMPACT_BOUNDS_def)
  then have "status = ''OK''"
    using e ok frontier_sizes [OF ok, of "fl (10 / 100)"]
    by (simp add: exit_capacity_def exit_capacity_ratio_of_def curve_tradeability_def tiny_curve_def frontier_ok_def size_at_def Let_def
        build_frontier_def split: if_splits)
  moreover from this have "ratio \<le> 1 \<and> (\<exists>sellable. ratio = min 1 (int_div sellable 1) \<and> 0 \<le> sellable)"
    using exit_capacity_is_quoted [OF e] by (auto simp: tiny_curve_def)
  ultimately show ?thesis using e by auto
qed

end
