(* ===== verification/Escape.thy ===== *)
theory Escape
  imports Tradeability
begin

text \<open>
  \<open>strategies/escape.py\<close>: the ways a position dies, the rates their probabilities imply, whether a sale can
  still get out of it, and how long the desk's sales take to land; and the estimate the desk (\<open>main.py\<close>) makes
  of a position.  The exponential, the logarithm, the built-in \<open>sum\<close> and numpy's quantile are arguments; of a
  detail the part without numbers is kept.
\<close>

record escape_math =
  em_exp :: "pyfloat \<Rightarrow> pyfloat"
  em_log :: "pyfloat \<Rightarrow> pyfloat"
  em_sum :: "pyfloat list \<Rightarrow> pyfloat"
  em_quantile :: "pyfloat list \<Rightarrow> pyfloat \<Rightarrow> pyfloat"

subsection \<open>Hazards\<close>

datatype hazard_mechanism =
  CREATOR_SELLING | FUNDER_LINKED_SELLING | INSIDER_CLUSTER_EXIT | LIQUIDITY_REMOVAL | SELLABILITY_LOSS | AUTHORITY_ABUSE
| MIGRATION_FAILURE

definition UNESCAPABLE_MECHANISMS :: "hazard_mechanism list" where
  "UNESCAPABLE_MECHANISMS = [SELLABILITY_LOSS, AUTHORITY_ABUSE, LIQUIDITY_REMOVAL]"

record hazard_curve =
  hc_status :: string
  hc_rates :: "(hazard_mechanism, pyfloat) dict"

definition np_clip :: "pyfloat \<Rightarrow> pyfloat \<Rightarrow> pyfloat \<Rightarrow> pyfloat" where
  "np_clip x least most = min (max x least) most"

definition total_rate :: "escape_math \<Rightarrow> hazard_curve \<Rightarrow> pyfloat" where
  "total_rate M c = em_sum M (map (\<lambda>(m, r). max 0 r) (hc_rates c))"

definition unescapable_rate :: "escape_math \<Rightarrow> hazard_curve \<Rightarrow> pyfloat" where
  "unescapable_rate M c =
     em_sum M (map (\<lambda>(m, r). max 0 r) (filter (\<lambda>(m, r). m \<in> set UNESCAPABLE_MECHANISMS) (hc_rates c)))"

definition probability_within :: "escape_math \<Rightarrow> hazard_curve \<Rightarrow> pyfloat \<Rightarrow> pyfloat option" where
  "probability_within M c seconds =
     (if hc_status c \<noteq> ''OK'' \<or> seconds \<le> 0 then None
      else Some (fsub 1 (em_exp M (fmul (- total_rate M c) seconds))))"

definition dominant :: "hazard_curve \<Rightarrow> hazard_mechanism option" where
  "dominant c = (if hc_status c \<noteq> ''OK'' \<or> hc_rates c = [] then None else Some (fst (first_max snd (hc_rates c))))"

definition hazard_curve_from :: "escape_math \<Rightarrow> (hazard_mechanism, pyfloat \<times> pyfloat) dict \<Rightarrow> hazard_curve" where
  "hazard_curve_from M probabilities =
     (let rates = foldl (\<lambda>rates (m, probability, horizon).
            if horizon \<le> 0 then rates
            else dput m (fdiv (- em_log M (fsub 1 (np_clip probability 0 (fsub 1 (fl (1 / 10^9)))))) horizon) rates) [] probabilities
      in if rates = [] then \<lparr>hc_status = ''DATA_BLOCKED'', hc_rates = []\<rparr> else \<lparr>hc_status = ''OK'', hc_rates = rates\<rparr>)"

subsection \<open>Escape\<close>

record escape_estimate =
  ee_status :: string
  ee_probability :: pyfloat
  ee_fillable :: pyfloat
  ee_land :: pyfloat
  ee_latency :: pyfloat
  ee_detail :: string

definition blocked_escape :: "string \<Rightarrow> escape_estimate" where
  "blocked_escape why =
     \<lparr>ee_status = ''DATA_BLOCKED'', ee_probability = 0, ee_fillable = 0, ee_land = 0, ee_latency = 0, ee_detail = why\<rparr>"

definition escape_probability_of ::
    "escape_math \<Rightarrow> int \<Rightarrow> int option \<Rightarrow> pyfloat \<Rightarrow> hazard_curve \<Rightarrow> pyfloat \<Rightarrow> escape_estimate" where
  "escape_probability_of M position sellable latency hazard landing =
     (if position \<le> 0 then blocked_escape ''no position to escape''
      else case sellable of
        None \<Rightarrow> blocked_escape ''exit capacity not measured; escape is unknown''
      | Some s \<Rightarrow>
          if hc_status hazard \<noteq> ''OK'' then blocked_escape ''no hazard curve''
          else if latency < 0 then blocked_escape ''negative latency supplied''
          else
            let fillable = np_clip (int_div s position) 0 1;
                escapable = max 0 (fsub (total_rate M hazard) (unescapable_rate M hazard));
                survives = em_exp M (fmul (- escapable) (max 0 latency));
                land = np_clip landing 0 1
            in \<lparr>ee_status = ''OK'', ee_probability = fmul (fmul fillable survives) land, ee_fillable = fillable,
                ee_land = fmul land survives, ee_latency = latency, ee_detail = ''outruns the escapable hazard''\<rparr>)"

record ride_verdict =
  ri_status :: string
  ri_action :: string
  ri_ride :: pyfloat
  ri_reject :: pyfloat

definition ride_wealth :: "pyfloat \<Rightarrow> pyfloat \<Rightarrow> pyfloat" where
  "ride_wealth fraction multiple = fadd (fsub 1 fraction) (fmul fraction (max 0 multiple))"

definition ride_log :: "escape_math \<Rightarrow> pyfloat \<Rightarrow> pyfloat \<Rightarrow> pyfloat" where
  "ride_log M fraction multiple = em_log M (max (fl (1 / 10^12)) (ride_wealth fraction multiple))"

definition ride_or_reject ::
    "escape_math \<Rightarrow> pyfloat \<Rightarrow> pyfloat \<Rightarrow> hazard_curve \<Rightarrow> escape_estimate \<Rightarrow> pyfloat \<Rightarrow> pyfloat \<Rightarrow> pyfloat \<Rightarrow> ride_verdict" where
  "ride_or_reject M upside probability hazard escape fraction horizon residual =
     (let blocked = \<lparr>ri_status = ''DATA_BLOCKED'', ri_action = ''reject'', ri_ride = 0, ri_reject = 0\<rparr>
      in if hc_status hazard \<noteq> ''OK'' \<or> ee_status escape \<noteq> ''OK'' then blocked
         else if \<not> (0 < fraction \<and> fraction \<le> 1) \<or> horizon \<le> 0 \<or> upside \<le> 0 then blocked
         else case probability_within M hazard horizon of
           None \<Rightarrow> blocked
         | Some event \<Rightarrow>
             let survives = fsub 1 event; up = np_clip probability 0 1;
                 captured = fmul (fmul up survives) (ee_probability escape);
                 trapped = fmul (fmul up survives) (fsub 1 (ee_probability escape));
                 trapped_value = fadd (fmul (ee_fillable escape) upside) (fmul (fsub 1 (ee_fillable escape)) residual);
                 failed = max 0 (fsub (fsub 1 captured) trapped);
                 ride = fadd (fadd (fmul captured (ride_log M fraction upside)) (fmul trapped (ride_log M fraction trapped_value)))
                             (fmul failed (ride_log M fraction residual))
             in \<lparr>ri_status = ''OK'', ri_action = (if 0 < ride then ''ride'' else ''reject''), ri_ride = ride, ri_reject = 0\<rparr>)"

text \<open>The rungs: the share, its size and the estimate at that size.\<close>

definition liquidation_ladder ::
    "escape_math \<Rightarrow> int \<Rightarrow> frontier \<Rightarrow> hazard_curve \<Rightarrow> pyfloat \<Rightarrow> pyfloat list \<Rightarrow> pyfloat
     \<Rightarrow> string \<times> int option \<times> (pyfloat \<times> int \<times> escape_estimate) list" where
  "liquidation_ladder M position f hazard latency shares acceptable =
     (let sellable = (if frontier_ok f then size_at f acceptable else None);
          rung = \<lambda>share. let n = py_trunc (fmul (float_of_int position) share)
                          in (share, n, escape_probability_of M n sellable latency hazard 1)
      in (if sellable \<noteq> None \<and> hc_status hazard = ''OK'' then ''OK'' else ''DATA_BLOCKED'', sellable, map rung shares))"

subsection \<open>Ways of dying, from signals\<close>

definition TRIGGER_MECHANISMS :: "(string, hazard_mechanism \<times> pyfloat) dict" where
  "TRIGGER_MECHANISMS =
     [(''creator_transfer'', CREATOR_SELLING, 30), (''dev_wallet_activation'', CREATOR_SELLING, 30),
      (''insider_sell'', INSIDER_CLUSTER_EXIT, 300), (''smart_wallet_exit'', INSIDER_CLUSTER_EXIT, 300),
      (''bundle_detection'', FUNDER_LINKED_SELLING, 300), (''holder_distribution'', FUNDER_LINKED_SELLING, 300),
      (''concentration_change'', FUNDER_LINKED_SELLING, 300), (''liquidity_withdrawal'', LIQUIDITY_REMOVAL, 30),
      (''route_degradation'', SELLABILITY_LOSS, 30), (''failed_migration'', MIGRATION_FAILURE, 300)]"

record hazard_signal =
  hs_trigger :: "string option"
  hs_strength :: pyfloat
  hs_confidence :: pyfloat

definition signal_evidence :: "hazard_signal \<Rightarrow> pyfloat" where
  "signal_evidence s =
     np_clip (fmul (np_clip (hs_strength s) 0 1) (np_clip (hs_confidence s) 0 1)) 0 (fl (99 / 100))"

record decomposition =
  dm_survival :: "(hazard_mechanism, pyfloat \<times> pyfloat) dict"
  dm_unattributed :: "string list"
  dm_contributing :: int

definition weigh_signal :: "decomposition \<Rightarrow> hazard_signal \<Rightarrow> decomposition" where
  "weigh_signal d s =
     (case hs_trigger s of
        None \<Rightarrow> d
      | Some trigger \<Rightarrow>
          (case dget TRIGGER_MECHANISMS trigger of
             None \<Rightarrow> d\<lparr>dm_unattributed := dm_unattributed d @ [trigger]\<rparr>
           | Some (m, horizon) \<Rightarrow>
               if signal_evidence s \<le> 0 then d
               else
                 let (alive, h) = dget_or (dm_survival d) m (1, horizon)
                 in d\<lparr>dm_contributing := dm_contributing d + 1,
                      dm_survival := dput m (fmul alive (fsub 1 (signal_evidence s)), min h horizon) (dm_survival d)\<rparr>))"

text \<open>Each mechanism with its probability and horizon.\<close>

definition mechanisms_from_signals ::
    "hazard_signal list \<Rightarrow> bool \<Rightarrow> bool \<Rightarrow> (hazard_mechanism, pyfloat \<times> pyfloat) dict \<times> string list \<times> int" where
  "mechanisms_from_signals signals authority_live sellability_lost =
     (let d = foldl weigh_signal \<lparr>dm_survival = [], dm_unattributed = [], dm_contributing = 0\<rparr> signals;
          ms = map (\<lambda>(m, alive, h). (m, fsub 1 alive, h)) (dm_survival d);
          ms = (if authority_live then dput AUTHORITY_ABUSE (fl (99 / 100), 30) ms else ms);
          ms = (if sellability_lost
                then dput SELLABILITY_LOSS (max (1 / 2) (fst (dget_or ms SELLABILITY_LOSS (0, 30))), 30) ms else ms)
      in (ms, dm_unattributed d, dm_contributing d))"

subsection \<open>How long a sale takes\<close>

record landing_latency =
  ll_capacity :: nat
  ll_minimum :: nat
  ll_observations :: "pyfloat list"

definition new_landing_latency :: "int \<Rightarrow> int \<Rightarrow> landing_latency" where
  "new_landing_latency capacity minimum = \<lparr>ll_capacity = nat (max 1 capacity), ll_minimum = nat (max 1 minimum), ll_observations = []\<rparr>"

text \<open>\<open>None\<close>: the latency is not a number, or not a finite one.\<close>

definition record_latency :: "pyfloat option \<Rightarrow> bool \<Rightarrow> bool \<Rightarrow> landing_latency \<Rightarrow> landing_latency \<times> bool" where
  "record_latency latency_ms landed simulated L =
     (if simulated \<or> \<not> landed then (L, False)
      else case latency_ms of
        None \<Rightarrow> (L, False)
      | Some ms \<Rightarrow>
          let seconds = fdiv ms 1000
          in if seconds \<le> 0 then (L, False)
             else (let xs = ll_observations L @ [seconds]
                   in L\<lparr>ll_observations := drop (length xs - ll_capacity L) xs\<rparr>, True))"

definition estimate_latency :: "escape_math \<Rightarrow> landing_latency \<Rightarrow> pyfloat option" where
  "estimate_latency M L =
     (if length (ll_observations L) < ll_minimum L then None
      else Some (em_quantile M (ll_observations L) (fl (9 / 10))))"

subsection \<open>The desk's estimate\<close>

text \<open>
  What is known of the token: its signals (none: no hazard state), whether one of the last twenty observations is
  an infeasible route, and whether the mint or freeze authority is live (unknown counts as not).
\<close>

record token_risk =
  tk_signals :: "hazard_signal list option"
  tk_unroutable :: bool
  tk_authority :: bool

definition estimate_escape ::
    "escape_math \<Rightarrow> token_risk \<Rightarrow> curve_state option \<Rightarrow> pool_state option \<Rightarrow> int \<Rightarrow> pyfloat \<Rightarrow> pyfloat \<Rightarrow> pyfloat \<Rightarrow> pyfloat
     \<Rightarrow> landing_latency \<Rightarrow> int \<Rightarrow> escape_estimate" where
  "estimate_escape M x curve amm fee_bps max_age_s now acceptable assumed L held =
     (case tk_signals x of
        None \<Rightarrow> blocked_escape ''no hazard state for this token''
      | Some signals \<Rightarrow>
          let (ms, rest) = mechanisms_from_signals signals (tk_authority x) (tk_unroutable x);
              hazard = hazard_curve_from M ms
          in if hc_status hazard \<noteq> ''OK'' then blocked_escape ''hazard could not be decomposed''
             else
               let sellable =
                     (case curve of
                        Some s \<Rightarrow> size_at (tb_exit (curve_tradeability s fee_bps DEFAULT_IMPACT_BOUNDS)) acceptable
                      | None \<Rightarrow>
                          (case amm of
                             None \<Rightarrow> None
                           | Some p \<Rightarrow>
                               if pool_blocked_reason p max_age_s now \<noteq> None then None
                               else size_at (tb_exit (pool_tradeability p max_age_s now DEFAULT_IMPACT_BOUNDS)) acceptable));
                   latency = (case estimate_latency M L of None \<Rightarrow> assumed | Some seconds \<Rightarrow> seconds)
               in escape_probability_of M held sellable latency hazard 1)"


subsection \<open>What an escape is worth\<close>

text \<open>What \<open>math.exp\<close> documents for arguments that are not positive: doubles between zero and one, in order.\<close>

definition decays :: "escape_math \<Rightarrow> bool" where
  "decays M \<longleftrightarrow> em_exp M 0 = 1 \<and> (\<forall>x\<le>0. 0 \<le> em_exp M x \<and> em_exp M x \<le> 1) \<and> (\<forall>x y. x \<le> y \<longrightarrow> em_exp M x \<le> em_exp M y)"

lemma np_clip_range: "least \<le> most \<Longrightarrow> least \<le> np_clip x least most \<and> np_clip x least most \<le> most"
  by (simp add: np_clip_def)

lemma np_clip_mono: "x \<le> y \<Longrightarrow> np_clip x least most \<le> np_clip y least most"
  by (simp add: np_clip_def min.coboundedI1 min_def max_def)

lemma np_clip_double: "is_double x \<Longrightarrow> is_double least \<Longrightarrow> is_double most \<Longrightarrow> is_double (np_clip x least most)"
  by (simp add: np_clip_def min_def max_def)

lemma double_01 [simp]: "is_double 0" "is_double 1"
  using is_double_of_int [of 0] is_double_of_int [of 1] by simp_all

lemma shrink_le: "is_double a \<Longrightarrow> 0 \<le> a \<Longrightarrow> 0 \<le> b \<Longrightarrow> b \<le> 1 \<Longrightarrow> 0 \<le> fmul a b \<and> fmul a b \<le> a"
  unfolding fmul_def using fl_le_double [of a "a * b"] by (simp add: mult_left_le)

lemma product_mono: "0 \<le> a \<Longrightarrow> a \<le> a' \<Longrightarrow> 0 \<le> b \<Longrightarrow> b \<le> b' \<Longrightarrow> fmul a b \<le> fmul a' b'"
  unfolding fmul_def by (intro fl_mono mult_mono) auto


subsection \<open>What a signal adds\<close>

definition sound_survival :: "(hazard_mechanism, pyfloat \<times> pyfloat) dict \<Rightarrow> bool" where
  "sound_survival d \<longleftrightarrow> (\<forall>m alive h. dget d m = Some (alive, h) \<longrightarrow> 0 \<le> alive \<and> alive \<le> 1 \<and> is_double alive
     \<and> m \<noteq> AUTHORITY_ABUSE \<and> (m = SELLABILITY_LOSS \<longrightarrow> h = 30))"

text \<open>A reading that is at least as grave: no mechanism is less likely, and none is further away.\<close>

definition graver :: "(hazard_mechanism \<Rightarrow> (pyfloat \<times> pyfloat) option) \<Rightarrow> (hazard_mechanism \<Rightarrow> (pyfloat \<times> pyfloat) option) \<Rightarrow> bool" where
  "graver d d' \<longleftrightarrow> (\<forall>m p h. d m = Some (p, h) \<longrightarrow> (\<exists>p' h'. d' m = Some (p', h') \<and> p \<le> p' \<and> h' \<le> h))"

lemma evidence_range: "0 \<le> signal_evidence s \<and> signal_evidence s \<le> fl (99 / 100)"
  unfolding signal_evidence_def by (intro np_clip_range) simp

lemma evidence_complement: "0 \<le> fsub 1 (signal_evidence s) \<and> fsub 1 (signal_evidence s) \<le> 1"
proof -
  have "fl (99 / 100) \<le> 1" by (rule fl_le_double) simp_all
  then have "0 \<le> 1 - signal_evidence s" "1 - signal_evidence s \<le> 1" using evidence_range [of s] by linarith+
  then show ?thesis unfolding fsub_def by (simp add: fl_le_double)
qed

lemma trigger_horizon:
  "dget TRIGGER_MECHANISMS t = Some (m, h) \<Longrightarrow> m \<noteq> AUTHORITY_ABUSE \<and> (m = SELLABILITY_LOSS \<longrightarrow> h = 30)"
  by (auto simp: TRIGGER_MECHANISMS_def split: if_splits)

lemma weigh_sound:
  assumes "sound_survival (dm_survival d)"
  shows "sound_survival (dm_survival (weigh_signal d s))
    \<and> (\<forall>m alive h. dget (dm_survival d) m = Some (alive, h) \<longrightarrow>
         (\<exists>alive' h'. dget (dm_survival (weigh_signal d s)) m = Some (alive', h') \<and> alive' \<le> alive \<and> h' \<le> h))"
proof -
  have old: "0 \<le> fst (dget_or (dm_survival d) m (1, h)) \<and> fst (dget_or (dm_survival d) m (1, h)) \<le> 1 \<and> is_double (fst (dget_or (dm_survival d) m (1, h)))"
    for m h using assms by (auto simp: sound_survival_def dget_or_def split: option.split)
  have new: "0 \<le> fmul (fst (dget_or (dm_survival d) m (1, h))) (fsub 1 (signal_evidence s))
      \<and> fmul (fst (dget_or (dm_survival d) m (1, h))) (fsub 1 (signal_evidence s)) \<le> fst (dget_or (dm_survival d) m (1, h))" for m h
    using old evidence_complement by (intro shrink_le) blast+
  show ?thesis
  proof (cases "hs_trigger s = None \<or> dget TRIGGER_MECHANISMS (the (hs_trigger s)) = None \<or> signal_evidence s \<le> 0")
    case True
    then have "dm_survival (weigh_signal d s) = dm_survival d"
      by (auto simp: weigh_signal_def split: option.split)
    then show ?thesis using assms by auto
  next
    case False
    then obtain t m horizon where t: "hs_trigger s = Some t" "dget TRIGGER_MECHANISMS t = Some (m, horizon)" "\<not> signal_evidence s \<le> 0"
      by auto
    obtain alive h where o1: "dget_or (dm_survival d) m (1, horizon) = (alive, h)" by fastforce
    have w: "dm_survival (weigh_signal d s) = dput m (fmul alive (fsub 1 (signal_evidence s)), min h horizon) (dm_survival d)"
      using t o1 by (simp add: weigh_signal_def)
    have "is_double (fmul alive (fsub 1 (signal_evidence s)))" by (simp add: fmul_def)
    then show ?thesis
      using assms new [of m horizon] old [of m horizon] o1 trigger_horizon [OF t(2)]
      unfolding w sound_survival_def by (auto simp: dget_or_def min_def split: option.splits)
  qed
qed


lemma signals_sound:
  assumes "sound_survival (dm_survival d)"
  shows "sound_survival (dm_survival (foldl weigh_signal d signals))
    \<and> (\<forall>m alive h. dget (dm_survival d) m = Some (alive, h) \<longrightarrow>
         (\<exists>alive' h'. dget (dm_survival (foldl weigh_signal d signals)) m = Some (alive', h') \<and> alive' \<le> alive \<and> h' \<le> h))"
  using assms
proof (induction signals arbitrary: d)
  case (Cons s signals)
  from weigh_sound [OF Cons.prems, of s] have w: "sound_survival (dm_survival (weigh_signal d s))" by blast
  from Cons.IH [OF w] weigh_sound [OF Cons.prems, of s] show ?case
    by simp (meson order.trans)
qed auto

lemma dget_map_value: "dget (map (\<lambda>(k, v). (k, g k v)) d) m = map_option (g m) (dget d m)"
  by (induction d) auto

lemma mechanisms_lookup:
  "dget (fst (mechanisms_from_signals signals authority lost)) m =
     (let d = foldl weigh_signal \<lparr>dm_survival = [], dm_unattributed = [], dm_contributing = 0\<rparr> signals;
          found = (if authority \<and> m = AUTHORITY_ABUSE then Some (fl (99 / 100), 30)
                   else map_option (\<lambda>(alive, h). (fsub 1 alive, h)) (dget (dm_survival d) m))
      in if lost \<and> m = SELLABILITY_LOSS then Some (max (1 / 2) (case found of None \<Rightarrow> 0 | Some (p, h) \<Rightarrow> p), 30) else found)"
proof -
  have ms: "map (\<lambda>(m, alive, h). (m, fsub 1 alive, h)) d = map (\<lambda>(k, v). (k, (\<lambda>_ (alive, h). (fsub 1 alive, h)) k v)) d"
    for d :: "(hazard_mechanism, pyfloat \<times> pyfloat) dict" by (simp add: case_prod_unfold)
  show ?thesis
    unfolding mechanisms_from_signals_def ms Let_def
    by (auto simp: dget_map_value dget_or_def split: option.split)
qed

text \<open>
  Evidence only adds.  Every probability the signals of a token amount to lies between zero and one, and one
  more signal, a live authority or a lost route makes no way of dying less likely nor further away: all that was
  held against the token before still is, at least as gravely.
\<close>
lemma evidence_only_adds:
  assumes "lost \<longrightarrow> lost'" "authority \<longrightarrow> authority'"
  shows "graver (dget (fst (mechanisms_from_signals signals authority lost)))
      (dget (fst (mechanisms_from_signals (signals @ later) authority' lost')))
    \<and> (\<forall>m p h. dget (fst (mechanisms_from_signals signals authority lost)) m = Some (p, h) \<longrightarrow> 0 \<le> p \<and> p \<le> 1)"
proof -
  let ?d0 = "\<lparr>dm_survival = [], dm_unattributed = [], dm_contributing = 0\<rparr>"
  define d where "d = foldl weigh_signal ?d0 signals"
  define d' where "d' = foldl weigh_signal ?d0 (signals @ later)"
  have "sound_survival (dm_survival ?d0)" by (simp add: sound_survival_def)
  then have sound: "sound_survival (dm_survival d)" using signals_sound unfolding d_def by blast
  have grown: "\<exists>alive' h'. dget (dm_survival d') m = Some (alive', h') \<and> alive' \<le> alive \<and> h' \<le> h"
    if "dget (dm_survival d) m = Some (alive, h)" for m alive h
    using signals_sound [OF sound, of later] that by (auto simp: d'_def d_def)
  have sound': "sound_survival (dm_survival d')"
    using signals_sound [OF sound, of later] by (simp add: d'_def d_def)
  have range: "0 \<le> fsub 1 alive \<and> fsub 1 alive \<le> 1" if "0 \<le> alive" "alive \<le> 1" for alive
    unfolding fsub_def using that by (simp add: fl_le_double)
  have "fl (99 / 100) \<le> 1" by (rule fl_le_double) simp_all
  then have unit: "0 \<le> p \<and> p \<le> 1" if "dget (fst (mechanisms_from_signals signals authority lost)) m = Some (p, h)" for m p h
    using that sound range unfolding mechanisms_lookup d_def [symmetric] Let_def
    by (auto simp: sound_survival_def split: if_splits option.splits)
  have "\<exists>p' h'. dget (fst (mechanisms_from_signals (signals @ later) authority' lost')) m = Some (p', h') \<and> p \<le> p' \<and> h' \<le> h"
    if found: "dget (fst (mechanisms_from_signals signals authority lost)) m = Some (p, h)" for m p h
  proof (cases "dget (dm_survival d) m")
    case None
    then show ?thesis
      using found assms unfolding mechanisms_lookup d_def [symmetric] d'_def [symmetric] Let_def
      by (cases m; auto split: if_splits)
  next
    case (Some x)
    then obtain alive h0 where x: "dget (dm_survival d) m = Some (alive, h0)" by (cases x) auto
    from grown [OF x] obtain alive' h' where g: "dget (dm_survival d') m = Some (alive', h')" "alive' \<le> alive" "h' \<le> h0" by blast
    have "fsub 1 alive \<le> fsub 1 alive'" unfolding fsub_def using g(2) by (intro fl_mono) simp
    moreover have "m \<noteq> AUTHORITY_ABUSE \<and> (m = SELLABILITY_LOSS \<longrightarrow> h0 = 30)" using sound x by (auto simp: sound_survival_def)
    ultimately show ?thesis
      using found assms g x unfolding mechanisms_lookup d_def [symmetric] d'_def [symmetric] Let_def
      by (auto split: if_splits intro: max.coboundedI2)
  qed
  then show ?thesis using unit by (simp add: graver_def)
qed


subsection \<open>What has no hazard, and what no speed helps against\<close>

text \<open>
  A token no trigger speaks of has no mechanism, and its escape is not known; the same token with a live mint or
  freeze authority has one that the race leaves out, and its escape is whatever the venue absorbs.
\<close>

lemma quiet_token_cannot_escape:
  assumes "signals = [] \<or> list_all (\<lambda>s. hs_trigger s \<in> {Some ''buy_deceleration'', Some ''volume_collapse'', Some ''sell_acceleration''}) signals"
  shows "ee_status (estimate_escape M \<lparr>tk_signals = Some signals, tk_unroutable = False, tk_authority = False\<rparr>
      curve amm fee_bps max_age_s now acceptable assumed L held) = ''DATA_BLOCKED''"
proof -
  have "dm_survival (foldl weigh_signal d signals) = dm_survival d" for d
    using assms by (induction signals arbitrary: d) (auto simp: weigh_signal_def TRIGGER_MECHANISMS_def)
  then have "fst (mechanisms_from_signals signals False False) = []"
    by (simp add: mechanisms_from_signals_def Let_def)
  then show ?thesis
    by (simp add: estimate_escape_def case_prod_unfold hazard_curve_from_def blocked_escape_def)
qed

lemma live_authority_always_escapes:
  assumes "decays M" "\<And>x. em_sum M [x] = x" "em_sum M [] = 0"
    and "escape_probability_of M held (Some sellable) latency (hazard_curve_from M (fst (mechanisms_from_signals [] True False))) 1 = e"
    and "0 < held" "0 \<le> latency"
  shows "ee_status e = ''OK'' \<and> ee_probability e = ee_fillable e"
proof -
  obtain r where "hazard_curve_from M (fst (mechanisms_from_signals [] True False)) = \<lparr>hc_status = ''OK'', hc_rates = [(AUTHORITY_ABUSE, r)]\<rparr>"
    by (simp add: hazard_curve_from_def mechanisms_from_signals_def Let_def)
  then have e: "ee_status e = ''OK''" "ee_probability e = fmul (fmul (np_clip (int_div sellable held) 0 1) (em_exp M 0)) (np_clip 1 0 1)"
    "ee_fillable e = np_clip (int_div sellable held) 0 1"
    using assms(2-6)
    by (auto simp: escape_probability_of_def total_rate_def unescapable_rate_def UNESCAPABLE_MECHANISMS_def fsub_def fmul_def Let_def)
  have "is_double (np_clip (int_div sellable held) 0 1)" by (intro np_clip_double) (simp_all add: int_div_def)
  then show ?thesis using assms(1) e by (simp add: decays_def fmul_def fl_double np_clip_def)
qed

subsection \<open>Witnesses\<close>

definition plain_math :: escape_math where
  "plain_math = \<lparr>em_exp = (\<lambda>x. if x < 0 then 0 else 1), em_log = (\<lambda>x. - 1), em_sum = (\<lambda>xs. foldl fadd 0 xs), em_quantile = (\<lambda>xs q. 1)\<rparr>"

definition seller_hazard :: hazard_curve where
  "seller_hazard = \<lparr>hc_status = ''OK'', hc_rates = [(CREATOR_SELLING, 1)]\<rparr>"


end
