(* ===== verification/Reentry.thy ===== *)
theory Reentry
  imports ActionValue OpportunityAllocator Escape
begin

text \<open>
  \<open>strategies/reentry.py\<close>: the book of tokens the desk has left and may buy back, its gates and the
  premium a return has to pay, priced by the action values and handed on as an opportunity of the allocator.
  Of a detail text the part without numbers is kept; the metadata of an opportunity are left out.
\<close>

subsection \<open>Exits\<close>

datatype exit_disposition = BANKED_STRENGTH | DISPLACED | DISTRIBUTED | HAZARD_ESCAPE | CATASTROPHIC | UNKNOWN_EXIT

definition disposition_value :: "exit_disposition \<Rightarrow> string" where
  "disposition_value d =
     (case d of BANKED_STRENGTH \<Rightarrow> ''banked_strength'' | DISPLACED \<Rightarrow> ''displaced'' | DISTRIBUTED \<Rightarrow> ''distribution''
      | HAZARD_ESCAPE \<Rightarrow> ''hazard_escape'' | CATASTROPHIC \<Rightarrow> ''catastrophic'' | UNKNOWN_EXIT \<Rightarrow> ''unknown'')"

definition BARRED_DISPOSITIONS :: "exit_disposition list" where
  "BARRED_DISPOSITIONS = [CATASTROPHIC]"

definition EVIDENCE_REQUIRED :: "exit_disposition list" where
  "EVIDENCE_REQUIRED = [HAZARD_ESCAPE, DISTRIBUTED]"

text \<open>A disposition the table does not name pays the premium of an unknown one.\<close>

definition DISPOSITION_PREMIUM :: "exit_disposition \<Rightarrow> pyfloat" where
  "DISPOSITION_PREMIUM d =
     (case d of BANKED_STRENGTH \<Rightarrow> 1 | DISPLACED \<Rightarrow> 1 | UNKNOWN_EXIT \<Rightarrow> 3 | DISTRIBUTED \<Rightarrow> 3 | HAZARD_ESCAPE \<Rightarrow> 5
      | CATASTROPHIC \<Rightarrow> 3)"

definition mentions :: "string list \<Rightarrow> string \<Rightarrow> bool" where
  "mentions words text1 \<longleftrightarrow> list_ex (\<lambda>w. contains_text w text1) words"

definition classify_exit :: "string \<Rightarrow> exit_disposition" where
  "classify_exit reason =
     (let text1 = py_lower reason
      in if mentions [''catastrophic''] text1 then CATASTROPHIC
         else if starts_text ''rug_hazard'' text1 \<or> mentions [''hazard'', ''escape''] text1 then HAZARD_ESCAPE
         else if mentions [''distribution'', ''dump'', ''insider''] text1 then DISTRIBUTED
         else if mentions [''displace'', ''replace'', ''contest''] text1 then DISPLACED
         else if mentions [''ratchet'', ''bank''] text1 \<or> starts_text ''action_'' text1
              \<or> mentions [''trail'', ''monster_'', ''harvest''] text1 then BANKED_STRENGTH
         else UNKNOWN_EXIT)"

subsection \<open>The book\<close>

record reentry_policy =
  cooldown_seconds :: pyfloat
  window_seconds :: pyfloat
  max_reentries :: int
  min_hazard_improvement :: pyfloat
  absolute_floor :: pyfloat

definition premium_multiplier :: "exit_disposition \<Rightarrow> int \<Rightarrow> pyfloat" where
  "premium_multiplier d reentries = fmul (DISPOSITION_PREMIUM d) (fadd 1 (float_of_int (max 0 reentries)))"

record exit_record =
  ex_token :: string
  exited_at :: pyfloat
  ex_disposition :: exit_disposition
  ex_reason :: string
  ex_multiple :: pyfloat
  ex_pnl :: pyfloat
  hazard_at_exit :: "pyfloat option"
  mechanism_at_exit :: "hazard_mechanism option"
  ex_reentries :: int

record reentry_verdict =
  rv_token :: string
  rv_status :: string
  rv_detail :: string
  rv_disposition :: exit_disposition
  rv_q :: "pyfloat option"
  rv_required :: "pyfloat option"
  rv_reentries :: int
  rv_opportunity :: "opportunity option"

definition admitted_verdict :: "reentry_verdict \<Rightarrow> bool" where
  "admitted_verdict v \<longleftrightarrow> rv_status v = ''OK''"

record reentry_book =
  rb_policy :: reentry_policy
  rb_capacity :: nat
  rb_actions :: action_policy
  rb_records :: "(string, exit_record) dict"

definition new_reentry_book :: "reentry_policy \<Rightarrow> int \<Rightarrow> action_policy \<Rightarrow> reentry_book" where
  "new_reentry_book P room A = \<lparr>rb_policy = P, rb_capacity = nat (max 1 room), rb_actions = A, rb_records = []\<rparr>"

definition oldest_exit :: "(string, exit_record) dict \<Rightarrow> string" where
  "oldest_exit d = fst (first_max (\<lambda>kv. - exited_at (snd kv)) d)"

lemma oldest_exit_in: "d \<noteq> [] \<Longrightarrow> oldest_exit d \<in> set (dkeys d)"
  using first_max_in [of d "\<lambda>kv. - exited_at (snd kv)"] by (simp add: oldest_exit_def)

function trim_records :: "nat \<Rightarrow> (string, exit_record) dict \<Rightarrow> (string, exit_record) dict" where
  "trim_records room d = (if length d \<le> room then d else trim_records room (dpop (oldest_exit d) d))"
  by pat_completeness auto
termination
  by (relation "measure (\<lambda>(room, d). length d)") (auto intro!: length_dpop_less oldest_exit_in simp del: set_map)

declare trim_records.simps [simp del]

definition prune_book :: "pyfloat \<Rightarrow> reentry_book \<Rightarrow> reentry_book" where
  "prune_book now B =
     (let stale = \<lambda>r. window_seconds (rb_policy B) < fsub now (exited_at r);
          live = filter (\<lambda>kv. \<not> stale (snd kv)) (rb_records B)
      in B\<lparr>rb_records := trim_records (rb_capacity B) live\<rparr>)"

definition record_exit ::
    "string \<Rightarrow> string \<Rightarrow> pyfloat \<Rightarrow> pyfloat \<Rightarrow> pyfloat \<Rightarrow> pyfloat option \<Rightarrow> hazard_mechanism option \<Rightarrow> reentry_book \<Rightarrow> reentry_book" where
  "record_exit token reason now multiple pnl hazard mechanism B =
     prune_book now (B\<lparr>rb_records := dput token
       \<lparr>ex_token = token, exited_at = now, ex_disposition = classify_exit reason, ex_reason = reason, ex_multiple = multiple,
        ex_pnl = pnl, hazard_at_exit = hazard, mechanism_at_exit = mechanism,
        ex_reentries = (case dget (rb_records B) token of None \<Rightarrow> 0 | Some r \<Rightarrow> ex_reentries r)\<rparr> (rb_records B)\<rparr>)"

definition note_reentry :: "string \<Rightarrow> reentry_book \<Rightarrow> reentry_book" where
  "note_reentry token B =
     (case dget (rb_records B) token of
        None \<Rightarrow> B
      | Some r \<Rightarrow> B\<lparr>rb_records := dput token (r\<lparr>ex_reentries := ex_reentries r + 1\<rparr>) (rb_records B)\<rparr>)"

definition forget_exit :: "string \<Rightarrow> reentry_book \<Rightarrow> reentry_book" where
  "forget_exit token B = B\<lparr>rb_records := dpop token (rb_records B)\<rparr>"

definition reentry_candidates :: "pyfloat \<Rightarrow> reentry_book \<Rightarrow> reentry_book \<times> exit_record list" where
  "reentry_candidates now B =
     (let B = prune_book now B
      in (B, filter (\<lambda>r. ex_disposition r \<notin> set BARRED_DISPOSITIONS) (map snd (rb_records B))))"

definition plain_verdict :: "string \<Rightarrow> string \<Rightarrow> reentry_verdict" where
  "plain_verdict token detail =
     \<lparr>rv_token = token, rv_status = ''OK'', rv_detail = detail, rv_disposition = UNKNOWN_EXIT, rv_q = None, rv_required = None,
      rv_reentries = 0, rv_opportunity = None\<rparr>"

definition record_verdict :: "exit_record \<Rightarrow> string \<Rightarrow> string \<Rightarrow> string \<Rightarrow> reentry_verdict" where
  "record_verdict r token status detail =
     (plain_verdict token detail)\<lparr>rv_status := status, rv_disposition := ex_disposition r, rv_reentries := ex_reentries r\<rparr>"

definition unescapable :: "hazard_mechanism option \<Rightarrow> bool" where
  "unescapable m \<longleftrightarrow> (case m of None \<Rightarrow> False | Some x \<Rightarrow> x \<in> set UNESCAPABLE_MECHANISMS)"

definition admits ::
    "string \<Rightarrow> pyfloat \<Rightarrow> pyfloat option \<Rightarrow> hazard_mechanism option \<Rightarrow> reentry_book \<Rightarrow> reentry_book \<times> reentry_verdict" where
  "admits token now hazard_now mechanism_now B =
     (case dget (rb_records B) token of
        None \<Rightarrow> (B, plain_verdict token ''not a post-exit candidate'')
      | Some r \<Rightarrow>
          let P = rb_policy B; age = fsub now (exited_at r)
          in if ex_disposition r \<in> set BARRED_DISPOSITIONS
             then (B, record_verdict r token ''REJECTED'' (disposition_value (ex_disposition r) @ '' exits are never re-entered''))
             else if unescapable (mechanism_at_exit r) \<or> unescapable mechanism_now
             then (B, record_verdict r token ''REJECTED'' ''is unescapable'')
             else if window_seconds P < age
             then (forget_exit token B, plain_verdict token ''re-entry window closed'')
             else if age < cooldown_seconds P
             then (B, record_verdict r token ''REJECTED'' ''inside our own exit impact'')
             else if max_reentries P \<le> ex_reentries r
             then (B, record_verdict r token ''REJECTED'' (''already re-entered '' @ int_str (ex_reentries r) @ '' times''))
             else if ex_disposition r \<notin> set EVIDENCE_REQUIRED
             then (B, record_verdict r token ''OK'' ''admitted for re-evaluation'')
             else case hazard_at_exit r of
               None \<Rightarrow> (B, record_verdict r token ''DATA_BLOCKED''
                           ''exited on evidence that was never quantified; nothing to show has improved'')
             | Some h \<Rightarrow>
                 (case hazard_now of
                    None \<Rightarrow> (B, record_verdict r token ''DATA_BLOCKED'' ''hazard not re-measured since the exit'')
                  | Some x \<Rightarrow>
                      if fmul h (fsub 1 (min_hazard_improvement P)) < x
                      then (B, record_verdict r token ''REJECTED'' ''hazard has not fallen; the reason we left still holds'')
                      else (B, record_verdict r token ''OK'' ''admitted for re-evaluation'')))"

subsection \<open>Pricing\<close>

record reentry_offer =
  of_bins :: return_bins
  of_size :: pyfloat
  of_capital :: pyfloat
  of_hold :: "pyfloat option"
  of_liquidity :: "pyfloat option"
  of_capacity :: "pyfloat option"
  of_escape :: "pyfloat option"
  of_prediction_at :: pyfloat
  of_entry_cost :: pyfloat
  of_exit_cost :: pyfloat

definition reentry_state :: "reentry_offer \<Rightarrow> position_state" where
  "reentry_state x =
     \<lparr>held_fraction = 0, current_multiple = 1, forward_bins = of_bins x, exit_cost = of_exit_cost x,
      entry_cost = of_entry_cost x, exit_capacity_ratio = of_capacity x, escape_probability = of_escape x,
      expected_remaining_seconds = None, alternative_growth = None, add_fraction = Some (of_size x),
      add_capacity_fraction = None, probe_fraction = None, reentry_bins = Some (of_bins x), replacement_bins = None,
      replacement_fraction = None\<rparr>"

definition required_edge :: "reentry_policy \<Rightarrow> exit_record \<Rightarrow> reentry_offer \<Rightarrow> pyfloat" where
  "required_edge P r x =
     max (absolute_floor P)
       (fmul (fmul (of_size x) (fadd (of_entry_cost x) (of_exit_cost x))) (premium_multiplier (ex_disposition r) (ex_reentries r)))"

definition reentry_opportunity :: "string \<Rightarrow> reentry_offer \<Rightarrow> pyfloat \<Rightarrow> opportunity" where
  "reentry_opportunity token x edge =
     \<lparr>op_token = token, op_elogw = Finite edge, op_capital = Finite (of_capital x), op_hold = map_option Finite (of_hold x),
      op_liquidity = map_option Finite (of_liquidity x), op_sleeve = ''reentry'', op_open = False, op_held_multiple = 1,
      op_kind = None, op_elogw_at = None\<rparr>"

definition price_reentry ::
    "(pyfloat list \<Rightarrow> pyfloat) \<Rightarrow> (pyfloat \<Rightarrow> pyfloat) \<Rightarrow> string \<Rightarrow> reentry_offer \<Rightarrow> reentry_book \<Rightarrow> reentry_verdict" where
  "price_reentry sum_of log_of token x B =
     (case dget (rb_records B) token of
        None \<Rightarrow> plain_verdict token ''not a post-exit candidate''
      | Some r \<Rightarrow>
          let blocked = record_verdict r token ''DATA_BLOCKED''
          in if of_prediction_at x \<le> exited_at r
             then blocked ''prediction predates the exit; re-entry may not inherit the conviction the exit contradicted''
             else if of_size x \<le> 0 then blocked ''no re-entry size''
             else if of_capacity x = None then blocked ''exit capacity not measured''
             else if of_escape x = None then blocked ''escape probability not measured''
             else
               let d = score_actions sum_of log_of (rb_actions B) (reentry_state x)
               in if ad_status d \<noteq> ''OK'' then blocked (''unpriceable: '' @ ad_detail d)
                  else case score_of d REENTER of
                    None \<Rightarrow> blocked (''re-entry unpriceable: ''
                        @ (case List.find (\<lambda>s. sc_action s = REENTER) (ad_scores d) of None \<Rightarrow> ''no score'' | Some s \<Rightarrow> sc_detail s))
                  | Some q \<Rightarrow>
                      let required = required_edge (rb_policy B) r x
                      in if q \<le> required
                         then (record_verdict r token ''REJECTED'' ''re-entry edge does not clear the bar'')
                                \<lparr>rv_q := Some q, rv_required := Some required\<rparr>
                         else (record_verdict r token ''OK'' (''re-entry clears the '' @ disposition_value (ex_disposition r) @ '' bar''))
                                \<lparr>rv_q := Some q, rv_required := Some required,
                                  rv_opportunity := Some (reentry_opportunity token x (fsub q required))\<rparr>)"


subsection \<open>The book over events\<close>

text \<open>\<open>Bought\<close>: the desk asks the gates, and a purchase they admit is counted.\<close>

datatype book_event =
  Exited string string pyfloat pyfloat pyfloat "pyfloat option" "hazard_mechanism option"
| Bought string pyfloat "pyfloat option" "hazard_mechanism option"
| Asked string pyfloat "pyfloat option" "hazard_mechanism option"
| Listed pyfloat

fun book_step :: "reentry_book \<Rightarrow> book_event \<Rightarrow> reentry_book" where
  "book_step B (Exited token reason now multiple pnl hazard mechanism) = record_exit token reason now multiple pnl hazard mechanism B"
| "book_step B (Bought token now hazard mechanism) =
     (case admits token now hazard mechanism B of (B', v) \<Rightarrow> if admitted_verdict v then note_reentry token B' else B')"
| "book_step B (Asked token now hazard mechanism) = fst (admits token now hazard mechanism B)"
| "book_step B (Listed now) = fst (reentry_candidates now B)"

lemma trim_records_ok: "length (trim_records room d) \<le> room \<and> set (trim_records room d) \<subseteq> set d
    \<and> (distinct (dkeys d) \<longrightarrow> distinct (dkeys (trim_records room d)))"
proof (induction room d rule: trim_records.induct)
  case (1 room d)
  show ?case
  proof (cases "length d \<le> room")
    case False
    have "set (dpop (oldest_exit d) d) \<subseteq> set d" unfolding AList.delete_eq by (rule filter_is_subset)
    then show ?thesis using 1 [OF False] False by (subst (1 2 3) trim_records.simps) (auto simp: distinct_dpop)
  qed (simp add: trim_records.simps)
qed

definition book_inv :: "reentry_policy \<Rightarrow> nat \<Rightarrow> reentry_book \<Rightarrow> bool" where
  "book_inv P room B \<longleftrightarrow> rb_policy B = P \<and> rb_capacity B = room \<and> distinct (dkeys (rb_records B)) \<and> length (rb_records B) \<le> room
     \<and> (\<forall>(t, r)\<in>set (rb_records B). 0 \<le> ex_reentries r \<and> ex_reentries r \<le> max 0 (max_reentries P))"

lemma prune_inv:
  assumes "rb_policy B = P" "rb_capacity B = room" "distinct (dkeys (rb_records B))"
    and "\<forall>(t, r)\<in>set (rb_records B). 0 \<le> ex_reentries r \<and> ex_reentries r \<le> max 0 (max_reentries P)"
  shows "book_inv P room (prune_book now B)"
proof -
  define live where "live = filter (\<lambda>kv. \<not> window_seconds P < fsub now (exited_at (snd kv))) (rb_records B)"
  have "distinct (dkeys live)" unfolding live_def using assms(3) by (rule distinct_map_filter)
  moreover have "set live \<subseteq> set (rb_records B)" unfolding live_def by (rule filter_is_subset)
  moreover have "prune_book now B = B\<lparr>rb_records := trim_records room live\<rparr>"
    using assms(1,2) by (simp add: prune_book_def live_def Let_def)
  ultimately show ?thesis using trim_records_ok [of room live] assms unfolding book_inv_def by auto
qed

lemma dget_inv: "book_inv P room B \<Longrightarrow> dget (rb_records B) token = Some r \<Longrightarrow>
    0 \<le> ex_reentries r \<and> ex_reentries r \<le> max 0 (max_reentries P)"
  unfolding book_inv_def by (fastforce dest: map_of_SomeD)

lemma record_exit_inv: "book_inv P room B \<Longrightarrow> book_inv P room (record_exit token reason now multiple pnl hazard mechanism B)"
proof -
  assume B: "book_inv P room B"
  let ?n = "case dget (rb_records B) token of None \<Rightarrow> 0 | Some r \<Rightarrow> ex_reentries r"
  have n: "0 \<le> ?n \<and> ?n \<le> max 0 (max_reentries P)" using dget_inv [OF B] by (auto split: option.split)
  show ?thesis
    unfolding record_exit_def
    using B n by (intro prune_inv) (auto simp: book_inv_def dest!: set_dputD)
qed

lemma admits_cases:
  assumes "admits token now hazard mechanism B = (B', v)"
  shows "(B' = B \<or> B' = forget_exit token B)
    \<and> (admitted_verdict v \<longrightarrow> (case dget (rb_records B') token of
          None \<Rightarrow> True
        | Some r \<Rightarrow> B' = B \<and> ex_disposition r \<notin> set BARRED_DISPOSITIONS \<and> \<not> unescapable (mechanism_at_exit r) \<and> \<not> unescapable mechanism
            \<and> cooldown_seconds (rb_policy B) \<le> fsub now (exited_at r) \<and> fsub now (exited_at r) \<le> window_seconds (rb_policy B)
            \<and> ex_reentries r < max_reentries (rb_policy B)
            \<and> (ex_disposition r \<in> set EVIDENCE_REQUIRED \<longrightarrow> (\<exists>h x. hazard_at_exit r = Some h \<and> hazard = Some x
                 \<and> x \<le> fmul h (fsub 1 (min_hazard_improvement (rb_policy B)))))))"
proof (cases "dget (rb_records B) token")
  case None
  then show ?thesis using assms by (auto simp: admits_def)
next
  case (Some r)
  then show ?thesis
    using assms unfolding admits_def Let_def admitted_verdict_def
    by (auto simp: record_verdict_def plain_verdict_def forget_exit_def not_less not_le split: if_splits option.splits)
qed

lemma forget_inv: "book_inv P room B \<Longrightarrow> book_inv P room (forget_exit token B)"
proof -
  assume B: "book_inv P room B"
  have sub: "set (dpop token (rb_records B)) \<subseteq> set (rb_records B)" unfolding AList.delete_eq by (rule filter_is_subset)
  moreover have "length (dpop token (rb_records B)) \<le> length (rb_records B)" by (rule length_delete_le)
  ultimately show ?thesis using B by (auto simp: book_inv_def forget_exit_def)
qed

lemma note_reentry_inv:
  assumes "book_inv P room B" "case dget (rb_records B) token of None \<Rightarrow> True | Some r \<Rightarrow> ex_reentries r < max_reentries P"
  shows "book_inv P room (note_reentry token B)"
proof (cases "dget (rb_records B) token")
  case None
  then show ?thesis using assms(1) by (simp add: note_reentry_def)
next
  case (Some r)
  have "token \<in> set (dkeys (rb_records B))" using Some by (metis dget_None_iff option.distinct(1))
  then show ?thesis
    using assms dget_inv [OF assms(1) Some] Some
    by (auto simp: note_reentry_def book_inv_def length_dput dest!: set_dputD)
qed

lemma book_step_inv: "book_inv P room B \<Longrightarrow> book_inv P room (book_step B ev)"
proof (cases ev)
  case (Bought token now hazard mechanism)
  assume B: "book_inv P room B"
  obtain B' v where a: "admits token now hazard mechanism B = (B', v)" by fastforce
  note c = admits_cases [OF a]
  have B': "book_inv P room B'" using c B forget_inv by blast
  show ?thesis
  proof (cases "admitted_verdict v")
    case True
    have "case dget (rb_records B') token of None \<Rightarrow> True | Some r \<Rightarrow> ex_reentries r < max_reentries P"
      using c True B by (auto simp: book_inv_def split: option.splits)
    then show ?thesis using note_reentry_inv [OF B'] Bought a True by simp
  qed (use B' Bought a in simp)
next
  case (Asked token now hazard mechanism)
  assume B: "book_inv P room B"
  obtain B' v where a: "admits token now hazard mechanism B = (B', v)" by fastforce
  then show ?thesis using admits_cases [OF a] forget_inv [OF B] B Asked by auto
next
  case (Listed now)
  assume B: "book_inv P room B"
  then have "book_inv P room (prune_book now B)" by (intro prune_inv) (simp_all add: book_inv_def)
  then show ?thesis using Listed by (simp add: reentry_candidates_def Let_def)
qed (use record_exit_inv in simp)

interpretation reentries: machine book_step "book_inv P room" for P room
  by unfold_locales (rule book_step_inv)

subsection \<open>Properties\<close>


lemma score_of_feasible:
  "score_of d a = Some q \<Longrightarrow> \<exists>sc\<in>set (ad_scores d). sc_action sc = a \<and> feasible_score sc \<and> sc_q sc = Some q"
  by (auto simp: score_of_def find_Some_iff split: option.splits if_splits dest: nth_mem)

text \<open>
  A return that is priced as worth taking was predicted after the exit, is offered to the allocator at what
  it earns beyond the premium only, and pays at least the round trip of its size times the multiplier of its exit
  and of the returns so far.  Without a trained model what it earns is the expected log wealth of a flat book
  that buys this size, less that of staying flat, and no outcome it is priced on leaves the book without wealth.
\<close>
lemma reentry_pays_its_premium:
  assumes "price_reentry sum_of log_of token x B = v" "admitted_verdict v" "dget (rb_records B) token = Some r"
    and "loaded_model (rb_actions B) = None"
  shows "exited_at r < of_prediction_at x
    \<and> (\<exists>q worth baseline. rv_q v = Some q
        \<and> fmul (fmul (of_size x) (fadd (of_entry_cost x) (of_exit_cost x))) (premium_multiplier (ex_disposition r) (ex_reentries r)) < q
        \<and> absolute_floor (rb_policy B) < q
        \<and> rv_opportunity v = Some (reentry_opportunity token x (fsub q (required_edge (rb_policy B) r x)))
        \<and> expected_log log_of (of_bins x) (entry_wealth (reentry_state x) (of_size x)) = Some worth
        \<and> hold_value log_of (reentry_state x) = Some baseline \<and> q = fsub worth baseline
        \<and> list_all (\<lambda>(p, gross). 0 < entry_wealth (reentry_state x) (of_size x) gross) (of_bins x))"
proof -
  let ?s = "reentry_state x"
  define d where "d = score_actions sum_of log_of (rb_actions B) ?s"
  obtain q where q: "score_of d REENTER = Some q" "required_edge (rb_policy B) r x < q" "ad_status d = ''OK''"
      "exited_at r < of_prediction_at x" "rv_q v = Some q"
      "rv_opportunity v = Some (reentry_opportunity token x (fsub q (required_edge (rb_policy B) r x)))"
    using assms(1-3) unfolding price_reentry_def Let_def d_def [symmetric] admitted_verdict_def
    by (auto simp: record_verdict_def plain_verdict_def not_le split: if_splits option.splits)
  from analytic_choice [OF d_def [symmetric] assms(4) q(3)] obtain baseline where h: "hold_value log_of ?s = Some baseline"
    and c: "d = settle_choice (min_edge (rb_actions B)) (idle_action ?s)
        (filter feasible_score (analytic_scores log_of (rb_actions B) ?s baseline)) (analytic_scores log_of (rb_actions B) ?s baseline)"
    and ne: "filter feasible_score (analytic_scores log_of (rb_actions B) ?s baseline) \<noteq> []" by metis
  have scores: "ad_scores d = analytic_scores log_of (rb_actions B) ?s baseline"
    using settle_choice_cases [OF c [symmetric] ne] by blast
  obtain sc where sc: "sc \<in> set (analytic_scores log_of (rb_actions B) ?s baseline)" "sc_action sc = REENTER" "feasible_score sc" "sc_q sc = Some q"
    using score_of_feasible [OF q(1)] unfolding scores by blast
  from analytic_meaning [OF sc(1,3)] sc(2,4) obtain worth where worth:
    "expected_log log_of (action_bins ?s REENTER) (action_wealth ?s REENTER) = Some worth" "q = fsub worth baseline"
    by (auto simp: meaning_def)
  have "action_bins ?s REENTER = of_bins x" "action_wealth ?s REENTER = entry_wealth ?s (of_size x)"
    by (simp_all add: action_bins_def action_wealth_def reentry_state_def)
  then have w: "expected_log log_of (of_bins x) (entry_wealth ?s (of_size x)) = Some worth" using worth(1) by simp
  show ?thesis using q h w worth(2) expected_log_survives [OF w] unfolding required_edge_def by auto
qed

text \<open>
  The count of returns is documented to survive a new exit, so that a token that cycles the desk does not look
  like a first-timer.  It does not survive the window: once it has passed, the next exit starts at zero.
\<close>

lemma window_forgets_returns:
  assumes "dget (rb_records B) token = Some r" "window_seconds (rb_policy B) < fsub now (exited_at r)"
    and "ex_disposition r \<notin> set BARRED_DISPOSITIONS" "\<not> unescapable (mechanism_at_exit r)"
  shows "dget (rb_records (fst (admits token now None None B))) token = None"
  using assms by (simp add: admits_def Let_def unescapable_def forget_exit_def)


subsection \<open>Witnesses\<close>

definition sample_policy :: reentry_policy where
  "sample_policy = \<lparr>cooldown_seconds = 1, window_seconds = 2, max_reentries = 1, min_hazard_improvement = 0, absolute_floor = 0\<rparr>"

definition sample_record :: exit_record where
  "sample_record = \<lparr>ex_token = ''T'', exited_at = 0, ex_disposition = BANKED_STRENGTH, ex_reason = ''bank'', ex_multiple = 2,
     ex_pnl = 1, hazard_at_exit = None, mechanism_at_exit = None, ex_reentries = 0\<rparr>"

definition sample_offer :: reentry_offer where
  "sample_offer = \<lparr>of_bins = [(1, 1)], of_size = 1, of_capital = 1, of_hold = Some 1, of_liquidity = None, of_capacity = Some 1,
     of_escape = Some 1, of_prediction_at = 1, of_entry_cost = 0, of_exit_cost = 0\<rparr>"

definition sample_book :: reentry_book where
  "sample_book = run book_step (new_reentry_book sample_policy 4 (new_action_policy 0 0))
     [Exited ''T'' ''bank'' 0 2 1 None None]"

lemma classify_bank: "classify_exit ''bank'' = BANKED_STRENGTH"
  by code_simp

lemma sample_book_eq: "sample_book = \<lparr>rb_policy = sample_policy, rb_capacity = 4, rb_actions = new_action_policy 0 0,
    rb_records = [(''T'', sample_record)]\<rparr>"
  by (simp add: sample_book_def new_reentry_book_def record_exit_def prune_book_def classify_bank sample_record_def sample_policy_def
      trim_records.simps fsub_def Let_def)

lemma sample_admitted:
  "admits ''T'' 1 None None sample_book = (sample_book, record_verdict sample_record ''T'' ''OK'' ''admitted for re-evaluation'')"
  by (simp add: sample_book_eq admits_def sample_policy_def sample_record_def BARRED_DISPOSITIONS_def EVIDENCE_REQUIRED_def
      unescapable_def fsub_def Let_def)


lemma sample_scores: "score_of (score_actions (\<lambda>xs. 1) step_log (new_action_policy 0 0) (reentry_state sample_offer)) REENTER = Some 1
    \<and> ad_status (score_actions (\<lambda>xs. 1) step_log (new_action_policy 0 0) (reentry_state sample_offer)) = ''OK''"
  by (simp add: score_actions_def state_blocked_def is_close_def model_scores_def new_action_policy_def sample_offer_def
      reentry_state_def hold_value_def expected_log_def hold_wealth_def marked_def capture_def clip01_def step_log_def
      analytic_scores_def plain_score_def gated_score_def less_than_def bank_value_def bank_wealth_def redeploy_bonus_def
      replace_value_def add_value_def add_ceiling_def reenter_value_def probe_value_def entry_wealth_def settle_choice_def
      feasible_score_def first_max_def score_key_def score_of_def fsub_def fadd_def fmul_def Let_def)

end
