(* ===== verification/ExitPolicy.thy ===== *)
theory ExitPolicy
  imports PyFloat Interfaces
begin

text \<open>
  \<open>strategies/exit_policy.py\<close>: the thresholds that close a position, and their use by
  \<open>MemecoinQuantDesk._manage_positions\<close> (\<open>main.py\<close>) for a position the action values could not price.
  A decision is a reason and the share to sell.
\<close>

subsection \<open>The policy\<close>

record exit_policy =
  hard_stop_multiple :: pyfloat
  cost_recovery_trigger :: pyfloat
  bank_trigger_1 :: pyfloat
  bank_fraction_1 :: pyfloat
  bank_trigger_2 :: pyfloat
  bank_fraction_2 :: pyfloat
  continuation_threshold :: pyfloat
  tight_trail_threshold :: pyfloat
  trail_ratio_wide :: pyfloat
  trail_ratio_tight :: pyfloat
  trail_ratio_mid :: pyfloat
  trail_floor_below_2x :: pyfloat
  trail_floor_above_2x :: pyfloat
  trail_activation :: pyfloat
  max_hold_seconds :: pyfloat
  max_conviction_hold_seconds :: pyfloat
  conviction_trail_ratio :: pyfloat

definition default_exit_policy :: exit_policy where
  "default_exit_policy =
     \<lparr>hard_stop_multiple = fl (7 / 10), cost_recovery_trigger = 2, bank_trigger_1 = 5, bank_fraction_1 = 1 / 4,
      bank_trigger_2 = 10, bank_fraction_2 = fl (1 / 5), continuation_threshold = fl (3 / 20), tight_trail_threshold = 5,
      trail_ratio_wide = fl (39 / 50), trail_ratio_tight = fl (17 / 25), trail_ratio_mid = fl (29 / 50),
      trail_floor_below_2x = fl (7 / 10), trail_floor_above_2x = fl (11 / 10), trail_activation = 3 / 2,
      max_hold_seconds = 3600, max_conviction_hold_seconds = 0, conviction_trail_ratio = fl (9 / 20)\<rparr>"

definition trail_ratio :: "exit_policy \<Rightarrow> pyfloat \<Rightarrow> pyfloat \<Rightarrow> pyfloat" where
  "trail_ratio P high_water continuation =
     (if continuation < continuation_threshold P then trail_ratio_wide P
      else if tight_trail_threshold P \<le> high_water then trail_ratio_tight P
      else trail_ratio_mid P)"

definition base_floor :: "exit_policy \<Rightarrow> pyfloat \<Rightarrow> pyfloat" where
  "base_floor P high_water = (if 2 \<le> high_water then trail_floor_above_2x P else trail_floor_below_2x P)"

definition trail_floor :: "exit_policy \<Rightarrow> pyfloat \<Rightarrow> pyfloat \<Rightarrow> pyfloat" where
  "trail_floor P high_water continuation = max (base_floor P high_water) (fmul high_water (trail_ratio P high_water continuation))"

definition conviction_trail_floor :: "exit_policy \<Rightarrow> pyfloat \<Rightarrow> pyfloat" where
  "conviction_trail_floor P high_water = max (base_floor P high_water) (fmul high_water (conviction_trail_ratio P))"

definition NEVER_SUPPRESSED :: "string list" where
  "NEVER_SUPPRESSED = [''hard_stop_loss'', ''time_stop'', ''conviction_trailing_stop'']"

type_synonym exit_decision = "string \<times> pyfloat"

text \<open>The profit ratchet, which conviction stands down.\<close>

definition ratchet_decision :: "exit_policy \<Rightarrow> pyfloat \<Rightarrow> string list \<Rightarrow> exit_decision option" where
  "ratchet_decision P multiple stages =
     (if cost_recovery_trigger P \<le> multiple \<and> ''cost_recovery'' \<notin> set stages
      then Some (''profit_ratchet_cost_recovery'', min (1 / 2) (fdiv 1 multiple))
      else if bank_trigger_1 P \<le> multiple \<and> ''bank_5x'' \<notin> set stages then Some (''profit_ratchet_5x'', bank_fraction_1 P)
      else if bank_trigger_2 P \<le> multiple \<and> ''bank_10x'' \<notin> set stages then Some (''profit_ratchet_10x'', bank_fraction_2 P)
      else None)"

definition hold_ceiling :: "exit_policy \<Rightarrow> bool \<Rightarrow> pyfloat" where
  "hold_ceiling P conviction =
     (if conviction \<and> max_hold_seconds P < max_conviction_hold_seconds P then max_conviction_hold_seconds P
      else max_hold_seconds P)"

definition evaluate_exit ::
    "exit_policy \<Rightarrow> pyfloat \<Rightarrow> pyfloat \<Rightarrow> pyfloat \<Rightarrow> string list \<Rightarrow> pyfloat \<Rightarrow> bool \<Rightarrow> exit_decision option" where
  "evaluate_exit P multiple high_water continuation stages elapsed conviction =
     (if multiple \<le> hard_stop_multiple P then Some (''hard_stop_loss'', 1)
      else case (if conviction then None else ratchet_decision P multiple stages) of
        Some d \<Rightarrow> Some d
      | None \<Rightarrow>
          let activated = trail_activation P \<le> high_water
          in if conviction \<and> multiple \<le> conviction_trail_floor P high_water \<and> activated
             then Some (''conviction_trailing_stop'', 1)
             else if \<not> conviction \<and> multiple \<le> trail_floor P high_water continuation \<and> activated
             then Some (''adaptive_profit_trailing_stop'', 1)
             else if hold_ceiling P conviction \<le> elapsed then Some (''time_stop'', 1)
             else None)"

subsection \<open>Artifacts\<close>

text \<open>
  A policy file as it parses: its version, the status of its validation report and the policy, or nothing
  when it cannot be read.  The files come newest first.
\<close>

record exit_artifact =
  artifact_version :: int
  artifact_status :: string
  artifact_policy :: exit_policy

definition acceptable_artifact :: "exit_artifact \<Rightarrow> bool" where
  "acceptable_artifact a \<longleftrightarrow> artifact_version a = 1 \<and> artifact_status a = ''PASSED''"

fun load_latest_exit_policy :: "exit_artifact option list \<Rightarrow> exit_policy option" where
  "load_latest_exit_policy [] = None"
| "load_latest_exit_policy (None # rest) = load_latest_exit_policy rest"
| "load_latest_exit_policy (Some a # rest) =
     (if acceptable_artifact a then Some (artifact_policy a) else load_latest_exit_policy rest)"

definition save_exit_policy :: "exit_policy \<Rightarrow> string \<Rightarrow> exit_artifact option" where
  "save_exit_policy P status =
     (if status \<noteq> ''PASSED'' then None else Some \<lparr>artifact_version = 1, artifact_status = status, artifact_policy = P\<rparr>)"

subsection \<open>One management cycle of an unpriced position\<close>

record exit_reading =
  rd_multiple :: pyfloat
  rd_high_water :: pyfloat
  rd_continuation :: pyfloat
  rd_elapsed :: pyfloat
  rd_conviction :: bool
  rd_recycler :: bool

record exit_outcome =
  oc_executed :: "exit_decision option"
  oc_stages :: "string list"
  oc_suppressed :: "string list"
  oc_vetoes :: "string list"

definition stage_name :: "string \<Rightarrow> string option" where
  "stage_name reason =
     (if reason = ''profit_ratchet_cost_recovery'' then Some ''cost_recovery''
      else if reason = ''profit_ratchet_5x'' then Some ''bank_5x''
      else if reason = ''profit_ratchet_10x'' then Some ''bank_10x''
      else None)"

text \<open>
  The veto of the opening cohort and the suppression inside a monster state: what is left to execute, the
  reason suppressed and the reason the cohort vetoed.
\<close>

definition stand_down :: "exit_reading \<Rightarrow> exit_decision option \<Rightarrow> exit_decision option \<times> string list \<times> string list" where
  "stand_down r decision =
     (case decision of
        None \<Rightarrow> (None, [], [])
      | Some (reason, part) \<Rightarrow>
          if rd_recycler r \<and> rd_conviction r then (decision, [], [reason])
          else if reason \<notin> set NEVER_SUPPRESSED \<and> rd_conviction r then (None, [reason], [])
          else (decision, [], []))"

text \<open>\<open>oc_executed = None\<close>: nothing is sold and a scale-in is considered.\<close>

definition unpriced_cycle :: "exit_policy \<Rightarrow> exit_reading \<Rightarrow> string list \<Rightarrow> exit_outcome" where
  "unpriced_cycle P r stages =
     (let ask = evaluate_exit P (rd_multiple r) (rd_high_water r) (rd_continuation r) stages (rd_elapsed r);
          decision = ask (rd_conviction r);
          ordinary = ask False;
          stood = (if rd_conviction r \<and> ordinary \<noteq> None \<and> ordinary \<noteq> decision then [fst (the ordinary)] else []);
          (executed, suppressed, vetoes) = stand_down r decision
      in \<lparr>oc_executed = executed,
          oc_stages = (case executed of
              None \<Rightarrow> stages
            | Some (reason, _) \<Rightarrow> (case stage_name reason of None \<Rightarrow> stages | Some s \<Rightarrow> stages @ [s])),
          oc_suppressed = stood @ suppressed, oc_vetoes = vetoes\<rparr>)"

subsection \<open>What a decision means\<close>

lemmas exit_defs = evaluate_exit_def ratchet_decision_def Let_def

text \<open>Under conviction every decision is one nothing may suppress.\<close>

lemma conviction_decisions: "evaluate_exit P m h c st t True = Some (reason, part) \<Longrightarrow> reason \<in> set NEVER_SUPPRESSED \<and> part = 1"
  by (auto simp: evaluate_exit_def Let_def NEVER_SUPPRESSED_def split: if_splits)

abbreviation asked :: "exit_policy \<Rightarrow> exit_reading \<Rightarrow> string list \<Rightarrow> exit_decision option" where
  "asked P r stages \<equiv>
     evaluate_exit P (rd_multiple r) (rd_high_water r) (rd_continuation r) stages (rd_elapsed r) (rd_conviction r)"

lemma stand_down_executes: "fst (stand_down r (asked P r st)) = asked P r st"
proof (cases "asked P r st")
  case (Some d)
  obtain reason part where d: "d = (reason, part)" by fastforce
  have "rd_conviction r \<Longrightarrow> reason \<in> set NEVER_SUPPRESSED" using conviction_decisions Some unfolding d by metis
  then show ?thesis using Some d by (auto simp: stand_down_def)
qed (simp add: stand_down_def)

lemma cycle_outcome:
  "oc_executed (unpriced_cycle P r st) = asked P r st"
  "oc_stages (unpriced_cycle P r st) =
    (case asked P r st of None \<Rightarrow> st | Some (reason, _) \<Rightarrow> (case stage_name reason of None \<Rightarrow> st | Some s \<Rightarrow> st @ [s]))"
  "oc_vetoes (unpriced_cycle P r st) = snd (snd (stand_down r (asked P r st)))"
proof -
  obtain suppressed vetoes where sd: "stand_down r (asked P r st) = (asked P r st, suppressed, vetoes)"
    using stand_down_executes by (metis prod.collapse)
  show "oc_executed (unpriced_cycle P r st) = asked P r st"
    "oc_stages (unpriced_cycle P r st) =
      (case asked P r st of None \<Rightarrow> st | Some (reason, _) \<Rightarrow> (case stage_name reason of None \<Rightarrow> st | Some s \<Rightarrow> st @ [s]))"
    "oc_vetoes (unpriced_cycle P r st) = snd (snd (stand_down r (asked P r st)))"
    unfolding unpriced_cycle_def Let_def sd prod.case by simp_all
qed

text \<open>
  The cohort veto is documented to cancel a suppression of the ratchet.  The ratchet is stood down before a
  decision exists, so the veto changes nothing that is sold: only decisions no conviction suppresses meet it.
\<close>

lemma cohort_veto_sells_nothing:
  "oc_executed (unpriced_cycle P (r\<lparr>rd_recycler := b\<rparr>) st) = oc_executed (unpriced_cycle P r st)"
  unfolding cycle_outcome(1) by simp

lemma cohort_veto_reasons: "reason \<in> set (oc_vetoes (unpriced_cycle P r st)) \<Longrightarrow> reason \<in> set NEVER_SUPPRESSED"
proof -
  assume "reason \<in> set (oc_vetoes (unpriced_cycle P r st))"
  then have "rd_conviction r \<and> (\<exists>part. asked P r st = Some (reason, part))"
    by (auto simp: cycle_outcome(3) stand_down_def split: option.splits if_splits)
  then show ?thesis using conviction_decisions by metis
qed

subsection \<open>Properties\<close>


text \<open>The stages, each recorded when its bank is executed, and never executed again.\<close>

definition STAGES :: "string list" where
  "STAGES = [''cost_recovery'', ''bank_5x'', ''bank_10x'']"

lemma partial_sale_stage:
  assumes "asked P r st = Some (reason, part)"
  shows "part = 1 \<and> reason \<in> {''hard_stop_loss'', ''conviction_trailing_stop'', ''adaptive_profit_trailing_stop'', ''time_stop''}
      \<and> stage_name reason = None
    \<or> (\<exists>s. stage_name reason = Some s \<and> s \<in> set STAGES \<and> s \<notin> set st)"
  using assms by (auto simp: evaluate_exit_def ratchet_decision_def Let_def stage_name_def STAGES_def split: if_splits)

text \<open>The cycles of one position until it is sold whole: what each executes, with the stages carried along.\<close>

fun cycles :: "exit_policy \<Rightarrow> exit_reading list \<Rightarrow> string list \<Rightarrow> exit_decision option list" where
  "cycles P [] st = []"
| "cycles P (r # rs) st =
     (let o1 = unpriced_cycle P r st
      in case oc_executed o1 of
           Some (reason, part) \<Rightarrow>
             if stage_name reason = None then [Some (reason, part)]
             else Some (reason, part) # cycles P rs (oc_stages o1)
         | None \<Rightarrow> None # cycles P rs (oc_stages o1))"

definition open_stages :: "string list \<Rightarrow> nat" where
  "open_stages st = card (set STAGES - set st)"

lemma overdue_asked: "max (max_hold_seconds P) (max_conviction_hold_seconds P) \<le> rd_elapsed r \<Longrightarrow> asked P r st \<noteq> None"
  by (auto simp: evaluate_exit_def Let_def hold_ceiling_def split: option.split)

lemma overdue_cycles:
  assumes "\<And>r. r \<in> set rs \<Longrightarrow> max (max_hold_seconds P) (max_conviction_hold_seconds P) \<le> rd_elapsed r"
    and "open_stages st < length rs"
  shows "\<exists>reason. last (cycles P rs st) = Some (reason, 1) \<and> stage_name reason = None \<and> cycles P rs st \<noteq> []
    \<and> length (cycles P rs st) \<le> Suc (open_stages st)"
  using assms
proof (induction rs arbitrary: st)
  case (Cons r rs)
  obtain reason part where d: "asked P r st = Some (reason, part)"
    using overdue_asked [of P r st] Cons.prems(1) [of r] by auto
  show ?case
  proof (cases "stage_name reason")
    case None
    then show ?thesis using partial_sale_stage [OF d] d by (auto simp: cycle_outcome(1))
  next
    case (Some s)
    then have s: "s \<in> set STAGES" "s \<notin> set st" using partial_sale_stage [OF d] by auto
    have st': "oc_stages (unpriced_cycle P r st) = st @ [s]" using d Some by (simp add: cycle_outcome(2))
    have "set STAGES - set (st @ [s]) = (set STAGES - set st) - {s}" by auto
    then have less: "Suc (open_stages (st @ [s])) = open_stages st"
      unfolding open_stages_def using s by (simp only: card_Suc_Diff1 finite_Diff List.finite_set Diff_iff simp_thms)
    then have "open_stages (st @ [s]) < length rs" using Cons.prems(2) by simp
    from Cons.IH [OF _ this] Cons.prems(1) obtain reason' where
      "last (cycles P rs (st @ [s])) = Some (reason', 1)" "stage_name reason' = None" "cycles P rs (st @ [s]) \<noteq> []"
      "length (cycles P rs (st @ [s])) \<le> Suc (open_stages (st @ [s]))" by auto
    then show ?thesis using d Some st' less by (simp add: cycle_outcome(1))
  qed
qed simp

text \<open>
  A position past both time ceilings is sold whole within four management cycles, whatever its price,
  continuation, conviction and cohort do: at most the three banks come before, each at most once.
\<close>
lemma overdue_position_is_closed:
  assumes "\<And>r. r \<in> set rs \<Longrightarrow> max (max_hold_seconds P) (max_conviction_hold_seconds P) \<le> rd_elapsed r"
    and "4 \<le> length rs"
  shows "length (cycles P rs st) \<le> 4 \<and> (\<exists>reason. last (cycles P rs st) = Some (reason, 1) \<and> stage_name reason = None)"
proof -
  have "card (set STAGES - set st) \<le> card (set STAGES)" by (rule card_mono) auto
  also have "\<dots> \<le> 3" unfolding STAGES_def by (rule order.trans [OF card_length]) simp
  finally have "open_stages st \<le> 3" unfolding open_stages_def .
  then show ?thesis using overdue_cycles [of rs P st, OF assms(1)] assms(2) by fastforce
qed

text \<open>What is loaded is the newest readable policy that passed its validation, and only such a one is saved.\<close>

lemma loaded_policy_was_validated:
  "load_latest_exit_policy arts =
     map_option artifact_policy (List.find acceptable_artifact (concat (map (\<lambda>x. case x of None \<Rightarrow> [] | Some a \<Rightarrow> [a]) arts)))"
  by (induction arts rule: load_latest_exit_policy.induct) simp_all

lemma saved_policy_loads:
  "save_exit_policy P status = Some a \<Longrightarrow> status = ''PASSED'' \<and> load_latest_exit_policy (Some a # arts) = Some P"
  by (auto simp: save_exit_policy_def acceptable_artifact_def split: if_splits)

subsection \<open>Witnesses\<close>

definition steady_reading :: exit_reading where
  "steady_reading = \<lparr>rd_multiple = 3, rd_high_water = 2, rd_continuation = 0, rd_elapsed = 0, rd_conviction = False,
     rd_recycler = False\<rparr>"


end
