(* ===== verification/Monster.thy ===== *)
theory Monster
  imports PyText Interfaces
begin

text \<open>
  \<open>strategies/monster.py\<close>: the state machine that lets a position ride a large move.  The logarithm is an
  argument.  \<open>monster_step\<close> is the machine over the events of all positions.
\<close>

subsection \<open>States, evidence, values\<close>

datatype monster_state =
  NORMAL | PUMP_DETECTED | EARLY_CONFIRMATION | MONSTER_CANDIDATE | MONSTER_HOLD | MASS_FOMO | SATURATION | DISTRIBUTION

definition monster_value :: "monster_state \<Rightarrow> string" where
  "monster_value s =
     (case s of NORMAL \<Rightarrow> ''normal'' | PUMP_DETECTED \<Rightarrow> ''pump_detected'' | EARLY_CONFIRMATION \<Rightarrow> ''early_confirmation''
      | MONSTER_CANDIDATE \<Rightarrow> ''monster_candidate'' | MONSTER_HOLD \<Rightarrow> ''monster_hold'' | MASS_FOMO \<Rightarrow> ''mass_fomo''
      | SATURATION \<Rightarrow> ''saturation'' | DISTRIBUTION \<Rightarrow> ''distribution'')"

definition state_order :: "monster_state \<Rightarrow> nat" where
  "state_order s =
     (case s of NORMAL \<Rightarrow> 0 | PUMP_DETECTED \<Rightarrow> 1 | EARLY_CONFIRMATION \<Rightarrow> 2 | MONSTER_CANDIDATE \<Rightarrow> 3 | MONSTER_HOLD \<Rightarrow> 4
      | MASS_FOMO \<Rightarrow> 5 | SATURATION \<Rightarrow> 6 | DISTRIBUTION \<Rightarrow> 7)"

definition MONSTER_STATES :: "monster_state list" where
  "MONSTER_STATES = [MONSTER_CANDIDATE, MONSTER_HOLD, MASS_FOMO]"

record monster_evidence =
  monster_probability :: "pyfloat option"
  monster_calibrated :: bool
  buyer_acceleration :: "pyfloat option"
  smart_accumulation :: "pyfloat option"
  buyer_quality :: "pyfloat option"
  sell_absorption :: "pyfloat option"
  liquidity_expansion :: "pyfloat option"
  source_discovery :: "pyfloat option"
  audience_penetration :: "pyfloat option"
  distribution_probability :: "pyfloat option"
  distribution_calibrated :: bool
  catastrophic_hazard :: bool

record hold_exit_value =
  he_status :: string
  v_hold :: pyfloat
  v_exit :: pyfloat
  he_survival :: pyfloat

definition should_exit :: "hold_exit_value \<Rightarrow> bool" where
  "should_exit v \<longleftrightarrow> he_status v = ''OK'' \<and> v_hold v < v_exit v"

definition blocked_value :: hold_exit_value where
  "blocked_value = \<lparr>he_status = ''DATA_BLOCKED'', v_hold = 0, v_exit = 0, he_survival = 0\<rparr>"

definition hold_versus_exit ::
    "(pyfloat \<Rightarrow> pyfloat) \<Rightarrow> pyfloat \<Rightarrow> pyfloat \<Rightarrow> pyfloat \<Rightarrow> pyfloat \<Rightarrow> pyfloat \<Rightarrow> pyfloat \<Rightarrow> hold_exit_value" where
  "hold_versus_exit log_of upside distribution_p rug_p exit_capacity alternative seconds =
     (if upside \<le> 0 \<or> seconds \<le> 0 then blocked_value
      else if \<not> (0 \<le> distribution_p \<and> distribution_p \<le> 1) \<or> \<not> (0 \<le> rug_p \<and> rug_p \<le> 1) then blocked_value
      else
        let room = max 0 (min 1 exit_capacity)
        in if room \<le> 0 then blocked_value
           else
             let survival = fmul (fsub 1 rug_p) (fsub 1 distribution_p);
                 captured = fadd 1 (fmul (fsub upside 1) room);
                 hold = fadd (fadd (fmul survival (log_of (max captured (fl (1 / 10^9)))))
                                   (fmul (fmul (fsub 1 rug_p) distribution_p) (log_of 1)))
                             (fmul rug_p (log_of (fl (1 / 50))));
                 leave = fmul (max 0 alternative) seconds
             in \<lparr>he_status = ''OK'', v_hold = hold, v_exit = leave, he_survival = survival\<rparr>)"

subsection \<open>The machine\<close>

record monster_machine =
  hold_threshold :: pyfloat
  candidate_threshold :: pyfloat
  degrade_confirmations :: nat
  min_degrade_dimensions :: nat
  bank_fractions :: "(monster_state, pyfloat) dict"
  position_states :: "(string, monster_state) dict"
  degrade_streaks :: "(string, nat) dict"
  banked_states :: "(string, monster_state list) dict"

definition DEFAULT_BANK_FRACTIONS :: "(monster_state, pyfloat) dict" where
  "DEFAULT_BANK_FRACTIONS = [(MASS_FOMO, fl (3 / 20)), (SATURATION, fl (7 / 20)), (DISTRIBUTION, fl (4 / 5))]"

definition new_monster_machine :: "pyfloat \<Rightarrow> pyfloat \<Rightarrow> int \<Rightarrow> int \<Rightarrow> (monster_state, pyfloat) dict \<Rightarrow> monster_machine" where
  "new_monster_machine hold candidate confirmations dimensions fractions =
     \<lparr>hold_threshold = hold, candidate_threshold = candidate, degrade_confirmations = nat (max 1 confirmations),
      min_degrade_dimensions = nat (max 1 dimensions),
      bank_fractions = (if fractions = [] then DEFAULT_BANK_FRACTIONS else fractions),
      position_states = [], degrade_streaks = [], banked_states = []\<rparr>"

definition state_of :: "monster_machine \<Rightarrow> string \<Rightarrow> monster_state" where
  "state_of M token = dget_or (position_states M) token NORMAL"

definition streak_of :: "monster_machine \<Rightarrow> string \<Rightarrow> nat" where
  "streak_of M token = dget_or (degrade_streaks M) token 0"

definition reset_position :: "monster_machine \<Rightarrow> string \<Rightarrow> monster_machine" where
  "reset_position M token =
     M\<lparr>position_states := dpop token (position_states M), degrade_streaks := dpop token (degrade_streaks M),
       banked_states := dpop token (banked_states M)\<rparr>"

definition below :: "pyfloat option \<Rightarrow> pyfloat \<Rightarrow> bool" where
  "below x c \<longleftrightarrow> (case x of None \<Rightarrow> False | Some v \<Rightarrow> v < c)"

definition or_zero :: "pyfloat option \<Rightarrow> pyfloat" where
  "or_zero x = (case x of None \<Rightarrow> 0 | Some v \<Rightarrow> v)"

definition degrade_dimensions :: "monster_evidence \<Rightarrow> string list" where
  "degrade_dimensions e =
     (if below (smart_accumulation e) 0 then [''smart_wallet_outflow''] else [])
     @ (if below (buyer_quality e) 0 then [''buyer_quality_deterioration''] else [])
     @ (if below (buyer_acceleration e) 0 then [''acceleration_rollover''] else [])
     @ (if below (sell_absorption e) (fl (2 / 5)) then [''absorption_failure''] else [])
     @ (if below (liquidity_expansion e) 0 then [''liquidity_contraction''] else [])"

definition target_state :: "monster_machine \<Rightarrow> monster_evidence \<Rightarrow> monster_state" where
  "target_state M e =
     (if catastrophic_hazard e then DISTRIBUTION
      else if distribution_calibrated e \<and> fl (3 / 5) \<le> or_zero (distribution_probability e) then DISTRIBUTION
      else
        case (if monster_calibrated e then monster_probability e else None) of
          None \<Rightarrow> NORMAL
        | Some p \<Rightarrow>
            if audience_penetration e \<noteq> None \<and> fl (17 / 20) \<le> or_zero (audience_penetration e) then SATURATION
            else
              let accelerating = 0 < or_zero (buyer_acceleration e);
                  accumulating = 0 < or_zero (smart_accumulation e);
                  broadening = 0 < or_zero (source_discovery e)
              in if hold_threshold M \<le> p
                 then (if broadening \<and> 1 / 2 \<le> or_zero (audience_penetration e) then MASS_FOMO
                       else if accelerating \<or> accumulating then MONSTER_HOLD
                       else MONSTER_CANDIDATE)
                 else if candidate_threshold M \<le> p
                 then (if accelerating \<and> accumulating then MONSTER_CANDIDATE else EARLY_CONFIRMATION)
                 else if accelerating then PUMP_DETECTED else NORMAL)"

record monster_decision =
  md_state :: monster_state
  md_previous :: monster_state
  md_action :: string
  md_fraction :: pyfloat
  md_reason :: string
  md_value :: "hold_exit_value option"
  md_streak :: nat
  md_dimensions :: "string list"

text \<open>The part after the hysteresis: the state is the target, and the action follows.\<close>

definition act_on_target ::
    "monster_machine \<Rightarrow> string \<Rightarrow> monster_state \<Rightarrow> monster_state \<Rightarrow> monster_evidence \<Rightarrow> hold_exit_value option
       \<Rightarrow> monster_machine \<times> monster_decision" where
  "act_on_target M token current target e v =
     (let M = M\<lparr>position_states := dput token target (position_states M)\<rparr>;
          d = \<lparr>md_state = target, md_previous = current, md_action = ''hold'', md_fraction = 0,
               md_reason = ''holding in '' @ monster_value target, md_value = v, md_streak = streak_of M token,
               md_dimensions = degrade_dimensions e\<rparr>;
          banked = dget_or (banked_states M) token [];
          M' = (if dget (bank_fractions M) target \<noteq> None
                then M\<lparr>banked_states := dput token (if target \<in> set banked then banked else banked @ [target]) (banked_states M)\<rparr>
                else M)
      in if target = DISTRIBUTION
         then (M, d\<lparr>md_action := ''bank'', md_fraction := dget_or (bank_fractions M) target (fl (4 / 5)), md_reason := ''distribution''\<rparr>)
         else if v \<noteq> None \<and> should_exit (the v) \<and> target \<notin> set MONSTER_STATES
         then (M, d\<lparr>md_action := ''exit'', md_fraction := 1, md_reason := ''redeploying beats holding''\<rparr>)
         else if dget (bank_fractions M) target \<noteq> None \<and> target \<notin> set banked
         then (M', d\<lparr>md_action := ''bank'', md_fraction := dget_or (bank_fractions M) target 0,
                   md_reason := ''staged banking at '' @ monster_value target\<rparr>)
         else if state_order current < state_order target \<and> target \<in> set MONSTER_STATES
         then (M', d\<lparr>md_action := ''add'', md_reason := ''conviction advanced to '' @ monster_value target\<rparr>)
         else (M', d))"

definition monster_update ::
    "monster_machine \<Rightarrow> string \<Rightarrow> monster_evidence \<Rightarrow> hold_exit_value option \<Rightarrow> monster_machine \<times> monster_decision" where
  "monster_update M token e v =
     (let current = state_of M token; target = target_state M e; dimensions = degrade_dimensions e
      in if catastrophic_hazard e
         then (M\<lparr>position_states := dput token DISTRIBUTION (position_states M),
                 degrade_streaks := dput token 0 (degrade_streaks M)\<rparr>,
               \<lparr>md_state = DISTRIBUTION, md_previous = current, md_action = ''emergency_exit'', md_fraction = 1,
                md_reason = ''catastrophic_hazard'', md_value = v, md_streak = 0, md_dimensions = dimensions\<rparr>)
         else if current \<in> set MONSTER_STATES \<and> state_order target < state_order current
         then
           let streak = (if min_degrade_dimensions M \<le> length dimensions then streak_of M token + 1 else 0);
               M = M\<lparr>degrade_streaks := dput token streak (degrade_streaks M)\<rparr>
           in if streak < degrade_confirmations M
              then (M, \<lparr>md_state = current, md_previous = current, md_action = ''hold'', md_fraction = 0,
                        md_reason = ''degrade evidence not persistent: '' @ int_str (int streak) @ ''/''
                          @ int_str (int (degrade_confirmations M)) @ '' confirmations across ''
                          @ int_str (int (length dimensions)) @ '' dimensions'',
                        md_value = v, md_streak = streak, md_dimensions = dimensions\<rparr>)
              else act_on_target M token current target e v
         else act_on_target (M\<lparr>degrade_streaks := dput token 0 (degrade_streaks M)\<rparr>) token current target e v)"

definition overrides_ordinary_exit :: "monster_machine \<Rightarrow> string \<Rightarrow> bool" where
  "overrides_ordinary_exit M token \<longleftrightarrow> state_of M token \<in> set MONSTER_STATES"

definition tail_capture_ratio :: "pyfloat \<Rightarrow> pyfloat \<Rightarrow> pyfloat option" where
  "tail_capture_ratio realised feasible = (if feasible \<le> 0 then None else Some (fdiv (max 0 realised) feasible))"

definition premature_exit_rate :: "(pyfloat \<times> pyfloat) list \<Rightarrow> pyfloat \<Rightarrow> pyfloat \<Rightarrow> pyfloat option" where
  "premature_exit_rate trades opportunity least =
     (let eligible = filter (\<lambda>(feasible, realised). opportunity \<le> feasible) trades
      in if eligible = [] then None
         else Some (int_div (int (length (filter (\<lambda>(feasible, realised). realised < least) eligible))) (int (length eligible))))"

subsection \<open>The machine over events\<close>

datatype monster_event = Updated string monster_evidence "hold_exit_value option" | Forgotten string

fun monster_step :: "monster_machine \<Rightarrow> monster_event \<Rightarrow> monster_machine" where
  "monster_step M (Updated token e v) = fst (monster_update M token e v)"
| "monster_step M (Forgotten token) = reset_position M token"

text \<open>The evidence a position was updated with since it was last forgotten, oldest first.\<close>

fun evidence_since :: "string \<Rightarrow> monster_event list \<Rightarrow> monster_evidence list \<Rightarrow> monster_evidence list" where
  "evidence_since token [] es = es"
| "evidence_since token (Updated t e v # events) es = evidence_since token events (if t = token then es @ [e] else es)"
| "evidence_since token (Forgotten t # events) es = evidence_since token events (if t = token then [] else es)"

abbreviation evidence_of :: "string \<Rightarrow> monster_event list \<Rightarrow> monster_evidence list" where
  "evidence_of token events \<equiv> evidence_since token events []"

definition believed :: "pyfloat \<Rightarrow> monster_evidence \<Rightarrow> bool" where
  "believed least e \<longleftrightarrow> \<not> catastrophic_hazard e \<and> monster_calibrated e
     \<and> (\<exists>p. monster_probability e = Some p \<and> least \<le> p)"

text \<open>What the machine remembers of a position, against the evidence it saw.\<close>

definition remembers :: "monster_machine \<Rightarrow> string \<Rightarrow> monster_evidence list \<Rightarrow> bool" where
  "remembers M token es \<longleftrightarrow>
     streak_of M token \<le> length es
     \<and> list_all (\<lambda>e. min_degrade_dimensions M \<le> length (degrade_dimensions e)) (drop (length es - streak_of M token) es)
     \<and> (state_of M token \<in> set MONSTER_STATES \<longrightarrow>
          (\<exists>e\<in>set es. believed (min (hold_threshold M) (candidate_threshold M)) e))"

definition same_settings :: "monster_machine \<Rightarrow> monster_machine \<Rightarrow> bool" where
  "same_settings M M' \<longleftrightarrow> hold_threshold M' = hold_threshold M \<and> candidate_threshold M' = candidate_threshold M
     \<and> degrade_confirmations M' = degrade_confirmations M \<and> min_degrade_dimensions M' = min_degrade_dimensions M
     \<and> bank_fractions M' = bank_fractions M"

lemma act_keeps:
  "same_settings M (fst (act_on_target M token current target e v))"
  "state_of (fst (act_on_target M token current target e v)) t = (if t = token then target else state_of M t)"
  "streak_of (fst (act_on_target M token current target e v)) t = streak_of M t"
  by (simp_all add: act_on_target_def same_settings_def state_of_def streak_of_def dget_or_def Let_def)

lemma target_believed:
  "target_state M e \<in> set MONSTER_STATES \<Longrightarrow> believed (min (hold_threshold M) (candidate_threshold M)) e"
  by (auto simp: target_state_def MONSTER_STATES_def believed_def Let_def min_def split: if_splits option.splits)

definition degrading :: "monster_machine \<Rightarrow> string \<Rightarrow> monster_evidence \<Rightarrow> bool" where
  "degrading M token e \<longleftrightarrow> \<not> catastrophic_hazard e \<and> state_of M token \<in> set MONSTER_STATES
     \<and> state_order (target_state M e) < state_order (state_of M token)"

definition next_streak :: "monster_machine \<Rightarrow> string \<Rightarrow> monster_evidence \<Rightarrow> nat" where
  "next_streak M token e =
     (if degrading M token e \<and> min_degrade_dimensions M \<le> length (degrade_dimensions e) then streak_of M token + 1 else 0)"

lemma streak_put:
  "streak_of (M\<lparr>degrade_streaks := dput token k (degrade_streaks M)\<rparr>) t = (if t = token then k else streak_of M t)"
  "state_of (M\<lparr>degrade_streaks := dput token k (degrade_streaks M)\<rparr>) t = state_of M t"
  "same_settings (M\<lparr>degrade_streaks := d\<rparr>) N = same_settings M N"
  by (simp_all add: streak_of_def state_of_def dget_or_def same_settings_def)

lemma update_cases:
  "fst (monster_update M token e v) =
     (if catastrophic_hazard e
      then M\<lparr>position_states := dput token DISTRIBUTION (position_states M), degrade_streaks := dput token 0 (degrade_streaks M)\<rparr>
      else let M1 = M\<lparr>degrade_streaks := dput token (next_streak M token e) (degrade_streaks M)\<rparr>
           in if degrading M token e \<and> next_streak M token e < degrade_confirmations M then M1
              else fst (act_on_target M1 token (state_of M token) (target_state M e) e v))"
proof (cases "catastrophic_hazard e")
  case False
  have d: "(state_of M token \<in> set MONSTER_STATES \<and> state_order (target_state M e) < state_order (state_of M token)) = degrading M token e"
    using False by (simp add: degrading_def)
  show ?thesis
    by (cases "degrading M token e") (simp_all add: monster_update_def Let_def d next_streak_def False)
qed (simp add: monster_update_def Let_def)

lemma update_state:
  "same_settings M (fst (monster_update M token e v))"
  "state_of (fst (monster_update M token e v)) t =
     (if t \<noteq> token then state_of M t
      else if degrading M token e \<and> next_streak M token e < degrade_confirmations M then state_of M token
      else target_state M e)"
  "streak_of (fst (monster_update M token e v)) t = (if t \<noteq> token then streak_of M t else next_streak M token e)"
proof -
  have settings: "same_settings M (fst (act_on_target (M\<lparr>degrade_streaks := d\<rparr>) tk c target e v))" for d tk c target
    using act_keeps(1) [of "M\<lparr>degrade_streaks := d\<rparr>" tk c target e v] by (simp only: streak_put)
  have refl: "same_settings M M" "same_settings M (M\<lparr>degrade_streaks := d\<rparr>)" for d by (simp_all add: same_settings_def)
  show "same_settings M (fst (monster_update M token e v))"
    unfolding update_cases Let_def using settings refl by (simp add: same_settings_def)
  have t: "target_state M e = DISTRIBUTION" "\<not> degrading M token e" "next_streak M token e = 0" if "catastrophic_hazard e"
    using that by (simp_all add: target_state_def degrading_def next_streak_def)
  show "state_of (fst (monster_update M token e v)) t =
     (if t \<noteq> token then state_of M t
      else if degrading M token e \<and> next_streak M token e < degrade_confirmations M then state_of M token
      else target_state M e)"
  proof (cases "catastrophic_hazard e")
    case True
    then show ?thesis using t unfolding update_cases by (simp add: state_of_def dget_or_def)
  qed (simp add: update_cases Let_def act_keeps(2) streak_put(2))
  show "streak_of (fst (monster_update M token e v)) t = (if t \<noteq> token then streak_of M t else next_streak M token e)"
  proof (cases "catastrophic_hazard e")
    case True
    then show ?thesis using t unfolding update_cases by (simp add: streak_of_def dget_or_def)
  qed (simp add: update_cases Let_def act_keeps(3) streak_put(1))
qed

text \<open>An update extends what is remembered, a forgotten position starts afresh.\<close>

lemma update_remembers:
  assumes "remembers M t es"
  shows "remembers (fst (monster_update M token e v)) t (if t = token then es @ [e] else es)"
proof -
  let ?M = "fst (monster_update M token e v)"
  have settings: "hold_threshold ?M = hold_threshold M" "candidate_threshold ?M = candidate_threshold M"
    "min_degrade_dimensions ?M = min_degrade_dimensions M"
    using update_state(1) [of M token e v] by (simp_all add: same_settings_def)
  show ?thesis
  proof (cases "t = token")
    case True
    have streak: "streak_of ?M token = next_streak M token e" by (simp add: update_state(3))
    have "next_streak M token e \<le> length es + 1"
      "list_all (\<lambda>e. min_degrade_dimensions M \<le> length (degrade_dimensions e)) (drop (length es + 1 - next_streak M token e) (es @ [e]))"
      using assms True by (auto simp: next_streak_def remembers_def Suc_diff_le)
    moreover have "\<exists>x\<in>set (es @ [e]). believed (min (hold_threshold M) (candidate_threshold M)) x"
      if "state_of ?M token \<in> set MONSTER_STATES"
      using that assms True target_believed [of M e] by (auto simp: update_state(2) remembers_def split: if_splits)
    ultimately show ?thesis using True by (simp add: remembers_def settings streak)
  next
    case False
    then show ?thesis using assms by (simp add: remembers_def settings update_state(2,3))
  qed
qed

lemma reset_remembers: "remembers M t es \<Longrightarrow> remembers (reset_position M token) t (if t = token then [] else es)"
  by (simp add: remembers_def reset_position_def streak_of_def state_of_def dget_or_def MONSTER_STATES_def)

lemma run_remembers:
  "remembers M t es \<Longrightarrow> remembers (run monster_step M events) t (evidence_since t events es)"
proof (induction events arbitrary: M es)
  case (Cons ev events)
  show ?case
  proof (cases ev)
    case (Updated token e v)
    show ?thesis using Cons.IH [OF update_remembers [OF Cons.prems, of token e v]] Updated by (simp only: run_simps monster_step.simps evidence_since.simps eq_commute)
  next
    case (Forgotten token)
    show ?thesis using Cons.IH [OF reset_remembers [OF Cons.prems, of token]] Forgotten by (simp only: run_simps monster_step.simps evidence_since.simps eq_commute)
  qed
qed simp


subsection \<open>Banking and saturation\<close>

text \<open>A staged bank is recorded, and a recorded stage never banks again before the position is forgotten.\<close>

lemma staged_bank_once:
  assumes "act_on_target M token current target e v = (M', d)" "target \<noteq> DISTRIBUTION"
  shows "md_action d = ''bank'' \<Longrightarrow> target \<notin> set (dget_or (banked_states M) token []) \<and> target \<in> set (dget_or (banked_states M') token [])"
    and "set (dget_or (banked_states M) token []) \<subseteq> set (dget_or (banked_states M') token [])"
  using assms by (auto simp: act_on_target_def Let_def dget_or_def split: if_splits)

text \<open>
  Hysteresis is documented for every downgrade out of a monster state, and one signal once to be noise.
  Saturation and distribution are ordered above the monster states, so a single calibrated reading leaves
  them at once, without any degrading dimension, and the position banks.
\<close>

lemma saturation_skips_hysteresis:
  assumes "state_of M token \<in> set MONSTER_STATES" "\<not> catastrophic_hazard e" "target_state M e = SATURATION"
  shows "state_of (fst (monster_update M token e v)) token = SATURATION
    \<and> \<not> overrides_ordinary_exit (fst (monster_update M token e v)) token"
proof -
  have "\<not> degrading M token e"
    using assms by (auto simp: degrading_def MONSTER_STATES_def state_order_def)
  then show ?thesis using assms(3) by (simp add: update_state(2) overrides_ordinary_exit_def MONSTER_STATES_def)
qed

lemma one_reading_saturates:
  "target_state M \<lparr>monster_probability = Some 1, monster_calibrated = True, buyer_acceleration = None, smart_accumulation = None,
     buyer_quality = None, sell_absorption = None, liquidity_expansion = None, source_discovery = None,
     audience_penetration = Some 1, distribution_probability = None, distribution_calibrated = False, catastrophic_hazard = False\<rparr>
   = SATURATION"
  using is_double_of_int [of 1] fl_le_double [of 1 "17 / 20"] by (simp add: target_state_def or_zero_def)

subsection \<open>Properties\<close>

lemma new_machine_remembers: "remembers (new_monster_machine hold candidate confirmations dimensions fractions) t []"
  by (simp add: remembers_def new_monster_machine_def streak_of_def state_of_def dget_or_def MONSTER_STATES_def)

lemma run_settings: "same_settings M (run monster_step M events)"
proof (induction events arbitrary: M)
  case (Cons ev events)
  have "same_settings M (monster_step M ev)"
    by (cases ev) (simp_all add: update_state(1), simp add: same_settings_def reset_position_def)
  with Cons.IH [of "monster_step M ev"] show ?case by (simp add: same_settings_def)
qed (simp add: same_settings_def)

text \<open>
  Whatever happens to whichever positions in whatever order, the ordinary exits of a position are stood
  down only if, since it was last forgotten, it was updated with a calibrated monster probability of at least
  the lower threshold and without a catastrophic hazard; and one catastrophic reading sells it whole and ends
  that, from any state.
\<close>
lemma riding_needs_calibrated_belief:
  assumes "M = run monster_step (new_monster_machine hold candidate confirmations dimensions fractions) events"
    and "overrides_ordinary_exit M token"
  shows "(\<exists>e\<in>set (evidence_of token events). believed (min hold candidate) e)
    \<and> (catastrophic_hazard e \<longrightarrow> md_action (snd (monster_update M token e v)) = ''emergency_exit''
         \<and> md_fraction (snd (monster_update M token e v)) = 1
         \<and> \<not> overrides_ordinary_exit (fst (monster_update M token e v)) token)"
proof -
  let ?N = "new_monster_machine hold candidate confirmations dimensions fractions"
  have "remembers M token (evidence_of token events)"
    unfolding assms(1) by (rule run_remembers [OF new_machine_remembers])
  moreover have "hold_threshold M = hold" "candidate_threshold M = candidate"
    using run_settings [of ?N events] unfolding assms(1) by (simp_all add: same_settings_def new_monster_machine_def)
  moreover have "catastrophic_hazard e \<Longrightarrow> \<not> overrides_ordinary_exit (fst (monster_update M token e v)) token"
    by (simp add: overrides_ordinary_exit_def update_state(2) degrading_def target_state_def MONSTER_STATES_def)
  ultimately show ?thesis
    using assms(2) by (simp add: remembers_def overrides_ordinary_exit_def monster_update_def Let_def)
qed

lemma evidence_since_snoc: "evidence_since token (events @ [Updated token e v]) es = evidence_since token events es @ [e]"
  by (induction token events es rule: evidence_since.induct) simp_all

text \<open>
  C40: A position in a monster state falls back to a lower state only when each of its last readings, as many as
  the confirmations asked for, showed at least the required number of independent degrading dimensions.
\<close>
theorem conviction_is_not_lost_on_noise:
  assumes "M = run monster_step (new_monster_machine hold candidate confirmations dimensions fractions) events"
    and "state_of M token \<in> set MONSTER_STATES"
    and "state_order (state_of (fst (monster_update M token e v)) token) < state_order (state_of M token)"
  shows "\<exists>earlier recent. evidence_of token (events @ [Updated token e v]) = earlier @ recent
    \<and> nat (max 1 confirmations) \<le> length recent
    \<and> list_all (\<lambda>e. nat (max 1 dimensions) \<le> length (degrade_dimensions e)) recent"
proof -
  let ?N = "new_monster_machine hold candidate confirmations dimensions fractions"
    and ?M = "fst (monster_update M token e v)" and ?es = "evidence_of token (events @ [Updated token e v])"
  have "remembers M token (evidence_of token events)"
    unfolding assms(1) by (rule run_remembers [OF new_machine_remembers])
  from update_remembers [OF this, of token e v] have "remembers ?M token ?es" by (simp add: evidence_since_snoc)
  moreover have set: "min_degrade_dimensions ?M = nat (max 1 dimensions)" "degrade_confirmations M = nat (max 1 confirmations)"
    using run_settings [of ?N events] update_state(1) [of M token e v] unfolding assms(1)
    by (simp_all add: same_settings_def new_monster_machine_def)
  moreover have "\<not> catastrophic_hazard e"
    using assms(2,3) by (auto simp: update_state(2) degrading_def target_state_def state_order_def MONSTER_STATES_def split: if_splits)
  then have "degrading M token e" using assms(2,3) by (auto simp: update_state(2) degrading_def split: if_splits)
  then have "nat (max 1 confirmations) \<le> streak_of ?M token"
    using assms(3) set(2) by (auto simp: update_state(2,3) split: if_splits)
  ultimately show ?thesis
    by (intro exI [of _ "take (length ?es - streak_of ?M token) ?es"] exI [of _ "drop (length ?es - streak_of ?M token) ?es"])
       (simp add: remembers_def)
qed

subsection \<open>Witnesses\<close>

definition sample_belief :: monster_evidence where
  "sample_belief = \<lparr>monster_probability = Some 1, monster_calibrated = True, buyer_acceleration = None, smart_accumulation = None,
     buyer_quality = None, sell_absorption = None, liquidity_expansion = None, source_discovery = None,
     audience_penetration = None, distribution_probability = None, distribution_calibrated = False, catastrophic_hazard = False\<rparr>"

definition sample_doubt :: monster_evidence where
  "sample_doubt = sample_belief\<lparr>monster_calibrated := False, buyer_quality := Some (- 1)\<rparr>"

definition riding :: monster_machine where
  "riding = run monster_step (new_monster_machine 1 1 1 1 []) [Updated ''T'' sample_belief None]"

lemma riding_state: "state_of riding ''T'' = MONSTER_CANDIDATE" "min_degrade_dimensions riding = 1" "degrade_confirmations riding = 1"
  using update_state(1) [of "new_monster_machine 1 1 1 1 []" "''T''" sample_belief None]
  by (simp_all add: riding_def update_state(2) same_settings_def)
     (simp_all add: degrading_def target_state_def sample_belief_def new_monster_machine_def or_zero_def state_of_def dget_or_def
        MONSTER_STATES_def)

theorem conviction_is_not_lost_on_noise_witness:
  "\<exists>earlier recent. evidence_of ''T'' ([Updated ''T'' sample_belief None] @ [Updated ''T'' sample_doubt None]) = earlier @ recent
    \<and> nat (max 1 1) \<le> length recent \<and> list_all (\<lambda>e. nat (max 1 1) \<le> length (degrade_dimensions e)) recent"
proof -
  have "target_state riding sample_doubt = NORMAL" "length (degrade_dimensions sample_doubt) = 1"
    by (simp_all add: target_state_def sample_doubt_def sample_belief_def or_zero_def degrade_dimensions_def below_def)
  then have "state_of (fst (monster_update riding ''T'' sample_doubt None)) ''T'' = NORMAL"
    by (simp add: update_state(2) next_streak_def degrading_def riding_state MONSTER_STATES_def state_order_def sample_doubt_def
        sample_belief_def)
  then show ?thesis
    using conviction_is_not_lost_on_noise [OF riding_def, of "''T''" sample_doubt None] riding_state
    by (simp add: MONSTER_STATES_def state_order_def)
qed

end
