(* ===== verification/DeskExit.thy ===== *)
theory DeskExit
  imports MegaEvent Reentry DecisionSnapshot ExitPolicy Monster
begin

text \<open>
  What the desk (\<open>main.py\<close>) does with a position it holds: the valuation of the book, the execution and accounting
  of exits, additions, and the order in which a management cycle decides.  Quotes, balances, fills, clocks and
  the answers of other components are arguments; a fill is one atomic event.  Staging of exits, latency, mechanism
  statistics and the counterfactual laboratory are left out.
\<close>

subsection \<open>The desk\<close>

record exit_attempt =
  at_token :: string
  at_status :: string
  at_reason :: string
  at_sold :: int
  at_left :: int
  at_cost :: pyfloat
  at_pnl :: pyfloat

record trade_outcome =
  to_token :: string
  to_pnl :: pyfloat
  to_multiple :: pyfloat
  to_fraction :: pyfloat
  to_wealth :: pyfloat
  to_reason :: string
  to_rugged :: bool

record desk =
  dk_engine :: elogw_engine
  dk_book :: reentry_book
  dk_sequencer :: sequencer
  dk_dry_run :: bool
  dk_paper_equity :: pyfloat
  dk_reserve :: event_reserve
  dk_event_probability :: "pyfloat option"
  dk_event_authenticated :: bool
  dk_equity :: pyfloat
  dk_sol_price :: pyfloat
  dk_equity_status :: string
  dk_total_pnl :: pyfloat
  dk_successful_exits :: nat
  dk_closed_pnl :: "(string, pyfloat) dict"
  dk_attempts :: "exit_attempt list"
  dk_outcomes :: "trade_outcome list"

definition new_desk :: "elogw_engine \<Rightarrow> reentry_book \<Rightarrow> bool \<Rightarrow> pyfloat \<Rightarrow> event_reserve \<Rightarrow> desk" where
  "new_desk E B dry paper R =
     \<lparr>dk_engine = E, dk_book = B, dk_sequencer = [], dk_dry_run = dry, dk_paper_equity = paper, dk_reserve = R,
      dk_event_probability = None, dk_event_authenticated = False, dk_equity = 0, dk_sol_price = 0,
      dk_equity_status = ''DATA_BLOCKED'', dk_total_pnl = 0, dk_successful_exits = 0, dk_closed_pnl = [], dk_attempts = [],
      dk_outcomes = []\<rparr>"

subsection \<open>Valuation\<close>

text \<open>The answers of the quotes (raw output amounts) and of the balance, in lamports.\<close>

record book_valuation =
  va_online :: bool
  va_sol_quote :: "int option"
  va_balance :: int
  va_marks :: "string \<Rightarrow> int \<Rightarrow> int option"

definition marked_positions :: "book_valuation \<Rightarrow> (string, book_position) dict \<Rightarrow> pyfloat" where
  "marked_positions v positions =
     foldl (\<lambda>total (token, pos). case va_marks v token (size_tokens pos) of
         None \<Rightarrow> total | Some out \<Rightarrow> fadd total (int_div out 1000000)) 0 positions"

definition refresh_portfolio :: "book_valuation \<Rightarrow> desk \<Rightarrow> desk" where
  "refresh_portfolio v D =
     (if \<not> va_online v then D\<lparr>dk_equity_status := ''DATA_BLOCKED''\<rparr>
      else case va_sol_quote v of
        None \<Rightarrow> D\<lparr>dk_equity_status := ''DATA_BLOCKED''\<rparr>
      | Some out \<Rightarrow>
          if out \<le> 0 then D\<lparr>dk_equity_status := ''DATA_BLOCKED''\<rparr>
          else
            let price = int_div out 1000000;
                equity = (if dk_dry_run D then fadd (dk_paper_equity D) (dk_total_pnl D)
                          else fadd (fmul (fdiv (float_of_int (va_balance v)) (10^9)) price)
                                 (marked_positions v (open_positions (dk_engine D))));
                decision = reserve_decide (dk_event_probability D) (dk_event_authenticated D) (dk_reserve D)
            in D\<lparr>dk_sol_price := price, dk_equity := equity, dk_equity_status := ''OK'',
                 dk_engine := (dk_engine D)\<lparr>portfolio_value := deployable_equity equity decision\<rparr>\<rparr>)"

subsection \<open>Exits\<close>

text \<open>\<open>int(tokens * min(max(pct, 0), 1))\<close>: a share above one is the exact integer one, any other a double.\<close>

definition exit_tokens :: "int \<Rightarrow> pyfloat \<Rightarrow> int" where
  "exit_tokens current pct =
     min current (max 1 (if 1 < pct then current else if pct < 0 then 0 else py_trunc (fmul (float_of_int current) pct)))"

definition urgent_reason :: "string \<Rightarrow> bool" where
  "urgent_reason reason \<longleftrightarrow> mentions [''rug_hazard'', ''escape'', ''emergency'', ''sellability'', ''authority''] reason"

definition exit_edge_usd :: "pyfloat option \<Rightarrow> book_position \<Rightarrow> pyfloat \<Rightarrow> pyfloat \<Rightarrow> string \<Rightarrow> pyfloat \<Rightarrow> pyfloat \<Rightarrow> pyfloat" where
  "exit_edge_usd supplied pos multiple pct reason q equity =
     (case supplied of
        Some x \<Rightarrow> max 0 x
      | None \<Rightarrow>
          let part = fmul (fmul (max 0 (remaining_cost pos)) (max 0 multiple)) (min (max pct 0) 1)
          in if urgent_reason reason then part else max 0 (fmul q (max equity 0)))"

record desk_fill =
  df_success :: bool
  df_simulated :: bool
  df_input :: int
  df_output :: int
  df_native_delta :: int

definition exit_proceeds :: "desk_fill \<Rightarrow> pyfloat \<Rightarrow> pyfloat" where
  "exit_proceeds f sol_price =
     fadd (int_div (df_output f) 1000000) (fmul (fdiv (float_of_int (df_native_delta f)) (10^9)) sol_price)"

definition allocated_cost :: "book_position \<Rightarrow> int \<Rightarrow> pyfloat" where
  "allocated_cost pos sold = fdiv (fmul (remaining_cost pos) (float_of_int sold)) (float_of_int (max (size_tokens pos) 1))"

definition refused_attempt :: "string \<Rightarrow> string \<Rightarrow> string \<Rightarrow> int \<Rightarrow> exit_attempt" where
  "refused_attempt token status reason left =
     \<lparr>at_token = token, at_status = status, at_reason = reason, at_sold = 0, at_left = left, at_cost = 0, at_pnl = 0\<rparr>"

definition closing_outcome :: "string \<Rightarrow> string \<Rightarrow> book_position \<Rightarrow> pyfloat \<Rightarrow> pyfloat \<Rightarrow> pyfloat \<Rightarrow> trade_outcome" where
  "closing_outcome token reason pos realized pnl equity =
     \<lparr>to_token = token, to_pnl = realized,
      to_multiple = max 0 (fadd 1 (fdiv pnl (max (initial_cost pos) (fl (1 / 10^9))))),
      to_fraction = fdiv (initial_cost pos) (max equity (fl (1 / 10^9))),
      to_wealth = fadd 1 (fdiv pnl (max equity (fl (1 / 10^9)))),
      to_reason = reason, to_rugged = starts_text ''rug_hazard'' reason \<or> starts_text ''monster_catastrophic'' reason\<rparr>"

text \<open>
  \<open>Inl\<close>: the token is not held (\<open>KeyError\<close>).  \<open>hazard\<close> is the reading recorded with a full exit.
\<close>

definition execute_exit ::
    "string \<Rightarrow> string \<Rightarrow> desk_fill \<Rightarrow> int \<Rightarrow> pyfloat \<Rightarrow> pyfloat option \<Rightarrow> desk \<Rightarrow> string + desk" where
  "execute_exit token reason f today now hazard D =
     (case dget (open_positions (dk_engine D)) token of
        None \<Rightarrow> Inl token
      | Some pos \<Rightarrow>
          let current = size_tokens pos; sold = df_input f
          in if \<not> df_success f then Inr (D\<lparr>dk_attempts := dk_attempts D @ [refused_attempt token ''FAILED'' reason current]\<rparr>)
             else if sold \<le> 0 \<or> current < sold
             then Inr (D\<lparr>dk_attempts := dk_attempts D @ [refused_attempt token ''DATA_BLOCKED_ACCOUNTING'' reason current]\<rparr>)
             else
               let cost = allocated_cost pos sold; pnl = fsub (exit_proceeds f (dk_sol_price D)) cost
               in case reduce_position token sold cost (update_pnl today pnl (dk_engine D)) of
                    None \<Rightarrow> Inl token
                  | Some E \<Rightarrow>
                      let left = size_tokens (reduced_position sold cost pos);
                          realized = fadd (dget_or (dk_closed_pnl D) token 0) pnl;
                          D = D\<lparr>dk_engine := E, dk_total_pnl := fadd (dk_total_pnl D) pnl,
                                dk_successful_exits := dk_successful_exits D + (if 0 < pnl then 1 else 0),
                                dk_attempts := dk_attempts D @ [\<lparr>at_token = token, at_status = ''OK'', at_reason = reason,
                                  at_sold = sold, at_left = left, at_cost = cost, at_pnl = pnl\<rparr>]\<rparr>
                      in if 0 < left
                         then Inr (D\<lparr>dk_closed_pnl := dput token realized (dk_closed_pnl D)\<rparr>)
                         else Inr (D\<lparr>dk_book := record_exit token reason now (high_water pos) realized hazard None (dk_book D),
                                     dk_closed_pnl := dpop token (dk_closed_pnl D),
                                     dk_outcomes := dk_outcomes D @ [closing_outcome token reason pos realized pnl (dk_equity D)]\<rparr>))"

subsection \<open>Additions\<close>

record scale_in_view =
  sv_trained :: bool
  sv_champion_live :: bool
  sv_prediction :: "prediction option"
  sv_liquidity :: pyfloat
  sv_multiple :: pyfloat
  sv_now :: pyfloat

text \<open>What is to be bought: the lamports, the dollars they stand for and the gain; and the desk once asked.\<close>

definition scale_in_order ::
    "numerics \<Rightarrow> scale_in_view \<Rightarrow> string \<Rightarrow> book_position \<Rightarrow> decision_snapshot option \<Rightarrow> book_valuation \<Rightarrow> desk
     \<Rightarrow> desk \<times> (int \<times> pyfloat \<times> pyfloat) option" where
  "scale_in_order N x token pos snapshot v D =
     (if \<not> sv_trained x \<or> (\<not> dk_dry_run D \<and> \<not> sv_champion_live x) then (D, None)
      else case sv_prediction x of
        None \<Rightarrow> (D, None)
      | Some p \<Rightarrow>
          if sv_liquidity x \<le> 0 \<or> fl (40 / 100) < p_rug_30s p \<or> fl (50 / 100) < p_rug_5m p then (D, None)
          else case snapshot of
            Some s \<Rightarrow>
              if \<not> fst (decision_guard s (dk_sequencer D) (sv_now x)) then (D, None)
              else if ds_size s \<le> 0 \<or> dk_sol_price D \<le> 0 then (D, None)
              else (D, Some (ds_size s, fmul (fdiv (float_of_int (ds_size s)) (10^9)) (dk_sol_price D), ds_q s))
          | None \<Rightarrow>
              let D = refresh_portfolio v D;
                  (E, fraction, gain) =
                    plan_scale_in N p (remaining_cost pos) (sv_multiple x) (sv_liquidity x) (Some (dk_equity D)) (dk_engine D);
                  D = D\<lparr>dk_engine := E\<rparr>
              in if fraction \<le> 0 \<or> gain \<le> 0 \<or> dk_sol_price D \<le> 0 then (D, None)
                 else
                   let usd = fmul (dk_equity D) fraction; lamports = py_trunc (fmul (fdiv usd (dk_sol_price D)) (10^9))
                   in if lamports \<le> 0 then (D, None) else (D, Some (lamports, usd, gain)))"

definition added_cost :: "desk_fill \<Rightarrow> pyfloat \<Rightarrow> pyfloat \<Rightarrow> pyfloat option" where
  "added_cost f usd sol_price =
     (if df_simulated f then Some usd
      else
        let spent = fmul (fdiv (float_of_int (max 0 (- df_native_delta f))) (10^9)) sol_price;
            cost = (if spent = 0 then usd else spent)
        in if cost \<le> 0 then None else Some cost)"

definition grown_position :: "desk_fill \<Rightarrow> pyfloat \<Rightarrow> book_position \<Rightarrow> book_position" where
  "grown_position f cost pos =
     pos\<lparr>size_tokens := size_tokens pos + df_output f, initial_size_tokens := initial_size_tokens pos + df_output f,
         remaining_cost := fadd (remaining_cost pos) cost, initial_cost := fadd (initial_cost pos) cost\<rparr>"

definition consider_scale_in ::
    "numerics \<Rightarrow> scale_in_view \<Rightarrow> string \<Rightarrow> decision_snapshot option \<Rightarrow> book_valuation \<Rightarrow> desk_fill \<Rightarrow> desk \<Rightarrow> desk" where
  "consider_scale_in N x token snapshot v f D =
     (case dget (open_positions (dk_engine D)) token of
        None \<Rightarrow> D
      | Some pos \<Rightarrow>
          (case scale_in_order N x token pos snapshot v D of
             (D, None) \<Rightarrow> D
           | (D, Some (lamports, usd, gain)) \<Rightarrow>
               if \<not> df_success f then D
               else case added_cost f usd (dk_sol_price D) of
                 None \<Rightarrow> D
               | Some cost \<Rightarrow>
                   D\<lparr>dk_engine := (dk_engine D)\<lparr>open_positions :=
                       dput token (grown_position f cost pos) (open_positions (dk_engine D))\<rparr>\<rparr>))"


subsection \<open>One management cycle\<close>

text \<open>\<open>_freeze_decision\<close>: size and limit are those of the instant of the decision.\<close>

definition freeze_decision ::
    "string \<Rightarrow> action \<Rightarrow> pyfloat \<Rightarrow> pyfloat option \<Rightarrow> book_position \<Rightarrow> pyfloat \<Rightarrow> int \<Rightarrow> pyfloat \<Rightarrow> pyfloat \<Rightarrow> desk \<Rightarrow> decision_snapshot" where
  "freeze_decision token a q fraction pos multiple slippage expiry now D =
     (let (size, bound) =
            (if a = ADD
             then let usd = fmul (max (dk_equity D) 0) (case fraction of None \<Rightarrow> 0 | Some x \<Rightarrow> x);
                      size = py_trunc (fmul (fdiv usd (max (dk_sol_price D) (fl (1 / 10^9)))) (10^9))
                  in (size, py_trunc (fmul (float_of_int size) (fadd 1 (int_div slippage 10000))))
             else let size = py_trunc (fmul (float_of_int (size_tokens pos)) (bank_fraction a))
                  in (size, py_trunc (fmul (fmul (float_of_int size) (max 0 multiple)) (fsub 1 (int_div slippage 10000)))))
      in \<lparr>ds_token = token, ds_action = action_text a, ds_state_seq = current_seq (dk_sequencer D) token, ds_size = max 0 size,
          ds_limit = bound, ds_created_at = now, ds_expiry = expiry, ds_q = q, ds_fraction = fraction, ds_slippage_bps = slippage,
          ds_consumed = False\<rparr>)"

datatype cycle_move = Sells pyfloat string | Adds bool | Keeps

text \<open>\<open>_apply_action\<close>: an addition carries the frozen decision; an action that sells nothing is not handled.\<close>

definition apply_action :: "action \<Rightarrow> cycle_move option" where
  "apply_action a =
     (if a = ADD then Some (Adds True)
      else if bank_fraction a \<le> 0 then None
      else Some (Sells (bank_fraction a) (''action_'' @ action_text a)))"

text \<open>
  What the modules answer in one cycle: the veto (none: no risk report is held), the hazard that asks for an exit,
  the mark, the monster machine, the priced decision and, for a state it cannot price, the reading of the exit policy.
\<close>

record cycle_view =
  cv_veto :: "(string \<times> string list) option"
  cv_hazard :: "(string \<times> pyfloat) option"
  cv_mark :: "pyfloat option"
  cv_monster :: monster_decision
  cv_decision :: action_decision
  cv_reading :: exit_reading

fun comma_joined :: "string list \<Rightarrow> string" where
  "comma_joined [] = ''''"
| "comma_joined [x] = x"
| "comma_joined (x # xs) = x @ '','' @ comma_joined xs"

definition unpriced_move :: "exit_policy \<Rightarrow> exit_reading \<Rightarrow> string list \<Rightarrow> cycle_move \<times> string list" where
  "unpriced_move P r stages =
     (let o1 = unpriced_cycle P r stages
      in (case oc_executed o1 of None \<Rightarrow> Adds False | Some (reason, part) \<Rightarrow> Sells part reason, oc_stages o1))"

definition after_veto :: "exit_policy \<Rightarrow> cycle_view \<Rightarrow> string list \<Rightarrow> cycle_move \<times> string list" where
  "after_veto P v stages =
     (case cv_hazard v of
        Some (urgency, pct) \<Rightarrow> (Sells pct (''rug_hazard_'' @ urgency), stages)
      | None \<Rightarrow>
          if cv_mark v = None then (Keeps, stages)
          else if md_action (cv_monster v) = ''emergency_exit'' then (Sells 1 (''monster_'' @ md_reason (cv_monster v)), stages)
          else if ad_status (cv_decision v) \<noteq> ''OK'' then unpriced_move P (cv_reading v) stages
          else if ad_action (cv_decision v) = HOLD then (Keeps, stages)
          else case apply_action (ad_action (cv_decision v)) of
            Some move \<Rightarrow> (move, stages)
          | None \<Rightarrow> unpriced_move P (cv_reading v) stages)"

definition manage_cycle :: "exit_policy \<Rightarrow> cycle_view \<Rightarrow> string list \<Rightarrow> cycle_move \<times> string list" where
  "manage_cycle P v stages =
     (case cv_veto v of
        Some (status, reasons) \<Rightarrow>
          if status = ''VETO'' then (Sells 1 (''hard_safety_veto:'' @ comma_joined reasons), stages) else after_veto P v stages
      | None \<Rightarrow> after_veto P v stages)"

definition mark_position :: "string \<Rightarrow> pyfloat \<Rightarrow> desk \<Rightarrow> desk" where
  "mark_position token multiple D =
     (case dget (open_positions (dk_engine D)) token of
        None \<Rightarrow> D
      | Some pos \<Rightarrow> D\<lparr>dk_engine := (dk_engine D)\<lparr>open_positions :=
          dput token (pos\<lparr>high_water := max (high_water pos) multiple\<rparr>) (open_positions (dk_engine D))\<rparr>\<rparr>)"


subsection \<open>Entries\<close>

text \<open>
  What \<open>_evaluate_candidate\<close> does with a fill: the cost is what left the wallet, a paper fill costs what was
  intended, and a landed buy with no verifiable cost is not recorded.  \<open>Inl\<close>: the token is held already
  (\<open>ValueError\<close>).
\<close>

definition acquisition_cost :: "desk_fill \<Rightarrow> pyfloat \<Rightarrow> pyfloat \<Rightarrow> pyfloat option" where
  "acquisition_cost f intended sol_price =
     (if df_simulated f then Some intended
      else
        let spent = fmul (fdiv (float_of_int (max 0 (- df_native_delta f))) (10^9)) sol_price;
            token_input = fmul (fdiv (float_of_int (df_input f)) (10^9)) sol_price;
            cost = (if spent = 0 then token_input else spent)
        in if cost \<le> 0 then None else Some cost)"

definition entry_position :: "desk_fill \<Rightarrow> pyfloat \<Rightarrow> pyfloat \<Rightarrow> book_position" where
  "entry_position f cost risk =
     \<lparr>size_tokens = df_output f, remaining_cost = cost, risk_contribution = risk, initial_size_tokens = df_output f,
      initial_risk = risk, initial_cost = cost, high_water = 1\<rparr>"

definition execute_entry :: "string \<Rightarrow> desk_fill \<Rightarrow> pyfloat \<Rightarrow> pyfloat \<Rightarrow> desk \<Rightarrow> string + desk" where
  "execute_entry token f intended risk D =
     (if \<not> df_success f then Inr D
      else case acquisition_cost f intended (dk_sol_price D) of
        None \<Rightarrow> Inr D
      | Some cost \<Rightarrow>
          case update_position token (entry_position f cost risk) (dk_engine D) of
            Inl e \<Rightarrow> Inl e
          | Inr E \<Rightarrow>
              Inr (D\<lparr>dk_engine := E,
                     dk_book := (if dget (rb_records (dk_book D)) token = None then dk_book D else note_reentry token (dk_book D))\<rparr>))"

subsection \<open>The accounts of a history\<close>

text \<open>
  A token's life runs from the purchase that opens it to the sale that leaves nothing.  The reference book keeps
  the slices of the lives still open and, in order of closing, those of the lives that ended.
\<close>

type_synonym reference_book = "(string \<Rightarrow> exit_attempt list) \<times> (string \<times> exit_attempt list) list"

definition slice_settled :: "exit_attempt \<Rightarrow> bool" where
  "slice_settled a \<longleftrightarrow> at_status a = ''OK''"

fun enter_slice :: "reference_book \<Rightarrow> exit_attempt \<Rightarrow> reference_book" where
  "enter_slice (live, ended) a =
     (let life = live (at_token a) @ [a]
      in if \<not> slice_settled a then (live, ended)
         else if 0 < at_left a then (live(at_token a := life), ended)
         else (live(at_token a := []), ended @ [(at_token a, life)]))"

definition reference_of :: "exit_attempt list \<Rightarrow> reference_book" where
  "reference_of attempts = foldl enter_slice (\<lambda>_. [], []) attempts"

definition booked :: "exit_attempt list \<Rightarrow> pyfloat" where
  "booked slices = foldl fadd 0 (map at_pnl slices)"

text \<open>A raising call leaves the desk as it was.\<close>

datatype desk_event =
  Bought string desk_fill pyfloat pyfloat
| Sold string string desk_fill int pyfloat "pyfloat option"
| Grown numerics scale_in_view string "decision_snapshot option" book_valuation desk_fill
| Refreshed book_valuation
| Watched string pyfloat
| Questioned bool int prediction pyfloat pyfloat pyfloat
| Progressed string

fun desk_step :: "desk \<Rightarrow> desk_event \<Rightarrow> desk" where
  "desk_step D (Bought token f intended risk) = (case execute_entry token f intended risk D of Inl _ \<Rightarrow> D | Inr D' \<Rightarrow> D')"
| "desk_step D (Sold token reason f today now hazard) =
     (case execute_exit token reason f today now hazard D of Inl _ \<Rightarrow> D | Inr D' \<Rightarrow> D')"
| "desk_step D (Grown N x token snapshot v f) = consider_scale_in N x token snapshot v f D"
| "desk_step D (Refreshed v) = refresh_portfolio v D"
| "desk_step D (Watched token multiple) = mark_position token multiple D"
| "desk_step D (Questioned trained today p sol_price liquidity equity) =
     D\<lparr>dk_engine := fst (admissible trained today p sol_price liquidity equity (dk_engine D))\<rparr>"
| "desk_step D (Progressed token) = D\<lparr>dk_sequencer := bump_seq token (dk_sequencer D)\<rparr>"

text \<open>How much of a held position has been sold; buying more does not change it.\<close>

definition sold_so_far :: "desk \<Rightarrow> string \<Rightarrow> int option" where
  "sold_so_far D token = map_option (\<lambda>pos. initial_size_tokens pos - size_tokens pos) (dget (open_positions (dk_engine D)) token)"

definition accounts_agree :: "desk \<Rightarrow> bool" where
  "accounts_agree D \<longleftrightarrow>
     (let (live, ended) = reference_of (dk_attempts D); slices = filter slice_settled (dk_attempts D)
      in map (\<lambda>x. (to_token x, to_pnl x)) (dk_outcomes D) = map (\<lambda>(token, life). (token, booked life)) ended
         \<and> (\<forall>token. dget_or (dk_closed_pnl D) token 0 = booked (live token))
         \<and> dk_total_pnl D = booked slices
         \<and> dk_successful_exits D = length (filter (\<lambda>a. 0 < at_pnl a) slices)
         \<and> (\<forall>token. case sold_so_far D token of None \<Rightarrow> live token = [] | Some n \<Rightarrow> sum_list (map at_sold (live token)) = n))"

lemma reference_snoc: "reference_of (attempts @ [a]) = enter_slice (reference_of attempts) a"
  by (simp add: reference_of_def)

lemma booked_snoc: "booked (slices @ [a]) = fadd (booked slices) (at_pnl a)"
  by (simp add: booked_def)


definition same_accounts :: "desk \<Rightarrow> desk \<Rightarrow> bool" where
  "same_accounts D D' \<longleftrightarrow>
     dk_attempts D' = dk_attempts D \<and> dk_outcomes D' = dk_outcomes D \<and> dk_closed_pnl D' = dk_closed_pnl D
     \<and> dk_total_pnl D' = dk_total_pnl D \<and> dk_successful_exits D' = dk_successful_exits D
     \<and> (\<forall>token. sold_so_far D' token = sold_so_far D token \<or> sold_so_far D token = None \<and> sold_so_far D' token = Some 0)"

lemma same_accounts_agree:
  assumes "same_accounts D D'" "accounts_agree D"
  shows "accounts_agree D'"
proof -
  obtain live ended where r: "reference_of (dk_attempts D) = (live, ended)" by fastforce
  have "case sold_so_far D' token of None \<Rightarrow> live token = [] | Some n \<Rightarrow> sum_list (map at_sold (live token)) = n" for token
  proof -
    have "case sold_so_far D token of None \<Rightarrow> live token = [] | Some n \<Rightarrow> sum_list (map at_sold (live token)) = n"
      using assms(2) r by (simp add: accounts_agree_def)
    moreover have "sold_so_far D' token = sold_so_far D token \<or> sold_so_far D token = None \<and> sold_so_far D' token = Some 0"
      using assms(1) by (simp add: same_accounts_def)
    ultimately show ?thesis by auto
  qed
  then show ?thesis using assms r by (simp add: accounts_agree_def same_accounts_def)
qed

lemma same_accounts_refl: "same_accounts D D"
  by (simp add: same_accounts_def)

lemma admissible_positions: "open_positions (fst (admissible trained today p sol_price liquidity equity E)) = open_positions E"
  by (simp add: admissible_def roll_day_def Let_def)

lemma plan_positions: "open_positions (fst (plan_scale_in N p held multiple liquidity equity E)) = open_positions E"
  using same_book_fields [OF plan_same [where equity = equity and E = E]] by (simp split: option.splits)

lemma refresh_same: "same_accounts D (refresh_portfolio v D)"
  by (simp add: refresh_portfolio_def same_accounts_def sold_so_far_def Let_def split: option.split)

lemma mark_same: "same_accounts D (mark_position token multiple D)"
  by (auto simp: mark_position_def same_accounts_def sold_so_far_def split: option.split)

lemma entry_same:
  assumes "execute_entry token f intended risk D = Inr D'"
  shows "same_accounts D D'"
proof (cases "token \<in> set (dkeys (open_positions (dk_engine D)))")
  case True
  then show ?thesis
    using assms by (simp add: execute_entry_def update_position_def same_accounts_refl split: if_splits option.splits)
next
  case False
  then have "dget (open_positions (dk_engine D)) token = None" by (subst dget_None_iff) assumption
  then show ?thesis
    using assms False
    by (simp add: execute_entry_def update_position_def same_accounts_refl split: if_splits option.splits)
      (auto simp: same_accounts_def sold_so_far_def entry_position_def split: if_splits)
qed

lemma order_same: "same_accounts D (fst (scale_in_order N x token pos snapshot v D))
    \<and> open_positions (dk_engine (fst (scale_in_order N x token pos snapshot v D))) = open_positions (dk_engine D)"
proof -
  have ask: "same_accounts D (D'\<lparr>dk_engine := fst (plan_scale_in N p held multiple liquidity equity (dk_engine D'))\<rparr>)"
    if "same_accounts D D'" for D' p held multiple liquidity equity
    using that by (simp add: same_accounts_def sold_so_far_def plan_positions)
  have fresh: "open_positions (dk_engine (refresh_portfolio v D)) = open_positions (dk_engine D)"
    by (simp add: refresh_portfolio_def Let_def split: option.split)
  show ?thesis
    by (simp add: scale_in_order_def Let_def case_prod_unfold same_accounts_refl ask refresh_same plan_positions fresh split: option.split)
qed

lemma scale_in_same: "same_accounts D (consider_scale_in N x token snapshot v f D)"
proof (cases "dget (open_positions (dk_engine D)) token")
  case (Some pos)
  obtain D' answer where o1: "scale_in_order N x token pos snapshot v D = (D', answer)" by fastforce
  then have s: "same_accounts D D'" and "open_positions (dk_engine D') = open_positions (dk_engine D)"
    using order_same [of D N x token pos snapshot v] by simp_all
  then have held: "dget (open_positions (dk_engine D')) token = Some pos" using Some by simp
  have "sold_so_far (D'\<lparr>dk_engine := (dk_engine D')\<lparr>open_positions :=
      dput token (grown_position f cost pos) (open_positions (dk_engine D'))\<rparr>\<rparr>) = sold_so_far D'" for cost
    by (rule ext) (simp add: sold_so_far_def grown_position_def held)
  then have "same_accounts D (D'\<lparr>dk_engine := (dk_engine D')\<lparr>open_positions :=
      dput token (grown_position f cost pos) (open_positions (dk_engine D'))\<rparr>\<rparr>)" for cost
    using s by (simp add: same_accounts_def)
  then show ?thesis using s Some o1 by (auto simp: consider_scale_in_def split: option.split)
qed (simp add: consider_scale_in_def same_accounts_refl)

lemma update_pnl_positions [simp]: "open_positions (update_pnl today pnl E) = open_positions E"
  by (simp add: update_pnl_def roll_day_def Let_def split: option.split)

lemma refused_agrees:
  assumes "accounts_agree D" "at_status a \<noteq> ''OK''"
  shows "accounts_agree (D\<lparr>dk_attempts := dk_attempts D @ [a]\<rparr>)"
proof -
  obtain live ended where "reference_of (dk_attempts D) = (live, ended)" by fastforce
  then show ?thesis using assms by (simp add: accounts_agree_def sold_so_far_def reference_snoc slice_settled_def)
qed

text \<open>What a settled sale writes, in the terms of the accounts.\<close>

definition writes_slice :: "string \<Rightarrow> desk \<Rightarrow> exit_attempt \<Rightarrow> book_position \<Rightarrow> desk \<Rightarrow> bool" where
  "writes_slice token D part pos D' \<longleftrightarrow>
     slice_settled part \<and> at_token part = token \<and> dget (open_positions (dk_engine D)) token = Some pos
     \<and> at_left part = size_tokens pos - at_sold part \<and> 0 \<le> at_left part
     \<and> dk_attempts D' = dk_attempts D @ [part] \<and> dk_total_pnl D' = fadd (dk_total_pnl D) (at_pnl part)
     \<and> dk_successful_exits D' = dk_successful_exits D + (if 0 < at_pnl part then 1 else 0)
     \<and> (let realized = fadd (dget_or (dk_closed_pnl D) token 0) (at_pnl part) in
          if 0 < at_left part
          then dk_closed_pnl D' = dput token realized (dk_closed_pnl D) \<and> dk_outcomes D' = dk_outcomes D
            \<and> sold_so_far D' = (sold_so_far D)(token := Some (initial_size_tokens pos - at_left part))
          else dk_closed_pnl D' = dpop token (dk_closed_pnl D)
            \<and> (\<exists>r. dk_outcomes D' = dk_outcomes D @ [r] \<and> to_token r = token \<and> to_pnl r = realized)
            \<and> sold_so_far D' = (sold_so_far D)(token := None))"

lemma exit_cases:
  assumes "execute_exit token reason f today now hazard D = Inr D'"
  shows "(\<exists>status left. status \<noteq> ''OK'' \<and> D' = D\<lparr>dk_attempts := dk_attempts D @ [refused_attempt token status reason left]\<rparr>)
    \<or> (\<exists>part pos. writes_slice token D part pos D')"
proof -
  obtain pos where pos: "dget (open_positions (dk_engine D)) token = Some pos"
    using assms by (auto simp: execute_exit_def split: option.splits)
  show ?thesis
  proof (cases "df_success f \<and> \<not> (df_input f \<le> 0 \<or> size_tokens pos < df_input f)")
    case False
    define status where "status = (if df_success f then ''DATA_BLOCKED_ACCOUNTING'' else ''FAILED'')"
    have "D' = D\<lparr>dk_attempts := dk_attempts D @ [refused_attempt token status reason (size_tokens pos)]\<rparr>"
      using assms pos False by (auto simp: execute_exit_def status_def Let_def split: if_splits)
    moreover have "status \<noteq> ''OK''" by (simp add: status_def)
    ultimately show ?thesis by blast
  next
    case True
    let ?left = "size_tokens pos - df_input f"
    have left: "size_tokens (reduced_position (df_input f) c pos) = ?left" "0 \<le> ?left"
      "initial_size_tokens (reduced_position (df_input f) c pos) = initial_size_tokens pos" for c
      using True by (simp_all add: reduced_position_def Let_def)
    define part where "part = \<lparr>at_token = token, at_status = ''OK'', at_reason = reason, at_sold = df_input f, at_left = ?left,
      at_cost = allocated_cost pos (df_input f),
      at_pnl = fsub (exit_proceeds f (dk_sol_price D)) (allocated_cost pos (df_input f))\<rparr>"
    show ?thesis
    proof (rule disjI2, rule exI [of _ part], rule exI [of _ pos])
      show "writes_slice token D part pos D'"
        using assms True pos left
        by (cases "?left = 0")
          (auto simp: execute_exit_def reduce_position_def close_position_def part_def slice_settled_def closing_outcome_def
            writes_slice_def sold_so_far_def fun_eq_iff Let_def)
    qed
  qed
qed

lemma exit_agrees:
  assumes "accounts_agree D" "execute_exit token reason f today now hazard D = Inr D'"
  shows "accounts_agree D'"
proof -
  obtain live ended where r: "reference_of (dk_attempts D) = (live, ended)" by fastforce
  from exit_cases [OF assms(2)] show ?thesis
  proof (elim disjE exE conjE)
    fix status left assume "status \<noteq> ''OK''" "D' = D\<lparr>dk_attempts := dk_attempts D @ [refused_attempt token status reason left]\<rparr>"
    then show ?thesis using assms(1) refused_agrees by (simp add: refused_attempt_def)
  next
    fix part pos
    assume a: "writes_slice token D part pos D'"
    then have held: "dget (open_positions (dk_engine D)) token = Some pos" by (simp add: writes_slice_def)
    have live: "sum_list (map at_sold (live token)) = initial_size_tokens pos - size_tokens pos"
      using assms(1) held r by (auto simp: accounts_agree_def sold_so_far_def dest: spec [of _ token])
    have others: "sold_so_far D t = None \<Longrightarrow> live t = []" "sold_so_far D t = Some n \<Longrightarrow> sum_list (map at_sold (live t)) = n" for t n
      using assms(1) r by (auto simp: accounts_agree_def dest: spec [of _ t])
    show ?thesis
    proof (cases "0 < at_left part")
      case True
      then show ?thesis
        using assms(1) a live r others
        by (auto simp: accounts_agree_def writes_slice_def reference_snoc booked_snoc dget_or_def Let_def split: option.split)
    next
      case False
      then show ?thesis
        using assms(1) a live r others
        by (auto simp: accounts_agree_def writes_slice_def reference_snoc booked_snoc dget_or_def booked_def Let_def split: option.split)
    qed
  qed
qed


lemma desk_step_agrees: "accounts_agree D \<Longrightarrow> accounts_agree (desk_step D e)"
proof (cases e)
  case (Bought token f intended risk)
  then show "accounts_agree D \<Longrightarrow> ?thesis" by (auto split: sum.split intro: same_accounts_agree entry_same)
next
  case (Sold token reason f today now hazard)
  then show "accounts_agree D \<Longrightarrow> ?thesis" by (auto split: sum.split intro: exit_agrees)
next
  case (Grown N x token snapshot v f)
  then show "accounts_agree D \<Longrightarrow> ?thesis" using same_accounts_agree [OF scale_in_same] by simp
next
  case (Refreshed v)
  then show "accounts_agree D \<Longrightarrow> ?thesis" using same_accounts_agree [OF refresh_same] by simp
next
  case (Watched token multiple)
  then show "accounts_agree D \<Longrightarrow> ?thesis" using same_accounts_agree [OF mark_same] by simp
next
  case (Questioned trained today p sol_price liquidity equity)
  then show "accounts_agree D \<Longrightarrow> ?thesis"
    by (auto intro!: same_accounts_agree [of D] simp: same_accounts_def sold_so_far_def admissible_positions)
next
  case (Progressed token)
  then show "accounts_agree D \<Longrightarrow> ?thesis"
    by (auto intro!: same_accounts_agree [of D] simp: same_accounts_def sold_so_far_def)
qed

interpretation accounts: machine desk_step accounts_agree
  by unfold_locales (rule desk_step_agrees)



subsection \<open>What the outcome says of a trade\<close>

text \<open>
  The multiple and the wealth of a reported outcome are those of its last slice: a position of eight dollars whose
  first half returns thirty-six and whose second half returns nothing has gained twenty-eight and is reported as
  a half.
\<close>

definition paper_desk :: desk where
  "paper_desk = (new_desk (plain_engine\<lparr>open_positions :=
       [(''T'', \<lparr>size_tokens = 8, remaining_cost = 8, risk_contribution = 1, initial_size_tokens = 8, initial_risk = 1,
                 initial_cost = 8, high_water = 1\<rparr>)]\<rparr>)
     (new_reentry_book \<lparr>cooldown_seconds = 1, window_seconds = 1, max_reentries = 1, min_hazard_improvement = 1, absolute_floor = 1\<rparr> 1
        (new_action_policy 0 0)) True 8 (new_event_reserve 0 0 0))\<lparr>dk_sol_price := 1, dk_equity := 8\<rparr>"

definition sells :: "int \<Rightarrow> int \<Rightarrow> desk_event" where
  "sells tokens usd = Sold ''T'' ''action_bank_50''
     \<lparr>df_success = True, df_simulated = True, df_input = tokens, df_output = usd * 1000000, df_native_delta = 0\<rparr> 0 1 None"

lemma outcome_forgets_earlier_slices:
  "map (\<lambda>x. (to_token x, to_pnl x, to_multiple x)) (dk_outcomes (run desk_step paper_desk [sells 4 36, sells 4 0])) = [(''T'', 28, 1 / 2)]"
proof -
  have small: "max 8 (fl (1 / 10^9)) = 8" using fl_le_double [of 8 "1 / 10^9"] is_double_of_int [of 8] by (simp add: max_def)
  show ?thesis
    by (simp add: paper_desk_def new_desk_def sells_def execute_exit_def reduce_position_def reduced_position_def close_position_def
        closing_outcome_def allocated_cost_def exit_proceeds_def int_div_def float_of_int_def fadd_def fsub_def fmul_def fdiv_def
        plain_engine_def new_engine_def fl_exact small [simplified] dget_or_def Let_def)
qed

text \<open>An emergency exit is priced as an ordinary bank, a rug exit by the whole slice.\<close>

lemma emergency_exit_is_not_urgent:
  "exit_edge_usd None pos multiple 1 ''monster_catastrophic_hazard'' q equity = max 0 (fmul q (max equity 0))
   \<and> exit_edge_usd None pos multiple 1 ''rug_hazard_high'' q equity
       = fmul (fmul (max 0 (remaining_cost pos)) (max 0 multiple)) 1"
  by (simp add: exit_edge_usd_def urgent_reason_def mentions_def)

text \<open>
  A bank of a whole position multiplies by the double one: with more than \<open>2 ^ 53\<close> base units one may be left behind.
\<close>

lemma full_bank_leaves_dust: "exit_tokens (2 ^ 53 + 1) 1 = 2 ^ 53"
proof -
  have "ilog2 9007199254740993 = 53" by (rule ilog2_eqI) (simp_all add: power_int_def)
  then have "fl 9007199254740993 = 9007199254740992"
    using floor_unique [of 4503599627370496 "9007199254740993 / 2 :: rat"] by (simp add: fl_def fl_pos_def round_half_even_def Let_def)
  moreover from this have "fl 9007199254740992 = 9007199254740992" by (metis fl_idem)
  ultimately show ?thesis by (simp add: exit_tokens_def float_of_int_def fmul_def py_trunc_def)
qed

text \<open>
  An addition is made under a frozen decision whatever the kill switch of the engine says, and the risk the
  book carries stays the one of the entry.
\<close>

lemma addition_ignores_kill_switch:
  "consider_scale_in N x token (Some s) v f (D\<lparr>dk_engine := (dk_engine D)\<lparr>kill_switch_active := b\<rparr>\<rparr>)
     = (let D' = consider_scale_in N x token (Some s) v f D in D'\<lparr>dk_engine := (dk_engine D')\<lparr>kill_switch_active := b\<rparr>\<rparr>)
   \<and> (\<forall>t. map_option risk_contribution (dget (open_positions (dk_engine (consider_scale_in N x token (Some s) v f D))) t)
       = map_option risk_contribution (dget (open_positions (dk_engine D)) t))"
  by (auto simp: consider_scale_in_def scale_in_order_def grown_position_def Let_def split: option.split)


end
