(* ===== verification/ScreenPolicy.thy ===== *)
theory ScreenPolicy
  imports PyText PyFloat Interfaces
begin

text \<open>
  \<open>strategies/screen_policy.py\<close>: every screen against a launch composed into one size multiplier or one refusal, and
  the counters that say what each screen costs.  Of a reason the part without numbers is kept.
\<close>

datatype screen_verdict = FULL | REDUCED | UNECONOMIC | VETOED

record screen_reading =
  sr_name :: string
  sr_multiplier :: pyfloat
  sr_veto :: bool
  sr_reason :: string
  sr_confidence :: pyfloat

definition unit_clip :: "pyfloat \<Rightarrow> pyfloat" where
  "unit_clip x = max 0 (min 1 x)"

definition effective :: "screen_reading \<Rightarrow> pyfloat" where
  "effective r =
     (if sr_veto r then 0
      else fsub 1 (fmul (fsub 1 (unit_clip (sr_multiplier r))) (unit_clip (sr_confidence r))))"

record screen_outcome =
  so_verdict :: screen_verdict
  so_multiplier :: pyfloat
  so_readings :: "screen_reading list"
  so_reason :: string

definition screen_rejected :: "screen_outcome \<Rightarrow> bool" where
  "screen_rejected s \<longleftrightarrow> so_verdict s \<in> {UNECONOMIC, VETOED}"

text \<open>Python's \<open>min\<close> with a key: the first of the least.\<close>

definition worst_reading :: "screen_reading list \<Rightarrow> screen_reading" where
  "worst_reading rows = first_max (\<lambda>r. - effective r) rows"

definition census_reason :: "screen_outcome \<Rightarrow> string" where
  "census_reason s =
     (if \<not> screen_rejected s then ''''
      else case filter sr_veto (so_readings s) of
        r # _ \<Rightarrow> ''veto_'' @ sr_name r
      | [] \<Rightarrow> if so_readings s = [] then ''uneconomic'' else ''uneconomic_'' @ sr_name (worst_reading (so_readings s)))"

definition graded :: "string \<Rightarrow> pyfloat option \<Rightarrow> pyfloat \<Rightarrow> pyfloat \<Rightarrow> pyfloat \<Rightarrow> pyfloat \<Rightarrow> screen_reading" where
  "graded name reading benign severe least confidence =
     (case reading of
        None \<Rightarrow> \<lparr>sr_name = name, sr_multiplier = 1, sr_veto = False, sr_reason = name @ '' unmeasured; not treated as benign'',
                 sr_confidence = 0\<rparr>
      | Some x \<Rightarrow>
          let span = fsub severe benign;
              share = (if \<bar>span\<bar> < fl (1 / 10^12) then if severe \<le> x then 1 else 0 else fdiv (fsub x benign) span);
              share = max 0 (min 1 share)
          in \<lparr>sr_name = name, sr_multiplier = fsub 1 (fmul share (fsub 1 least)), sr_veto = False, sr_reason = name,
              sr_confidence = confidence\<rparr>)"

definition screen_veto :: "string \<Rightarrow> string \<Rightarrow> screen_reading" where
  "screen_veto name reason = \<lparr>sr_name = name, sr_multiplier = 0, sr_veto = True, sr_reason = reason, sr_confidence = 1\<rparr>"

record screen_policy =
  size_floor :: pyfloat
  full_count :: nat
  reduced_count :: nat
  uneconomic_count :: nat
  vetoed_count :: nat
  forgone :: "(string, pyfloat) dict"
  touched :: "(string, nat) dict"

definition new_screen_policy :: "pyfloat \<Rightarrow> screen_policy" where
  "new_screen_policy least =
     \<lparr>size_floor = least, full_count = 0, reduced_count = 0, uneconomic_count = 0, vetoed_count = 0, forgone = [], touched = []\<rparr>"

definition touch :: "screen_policy \<Rightarrow> screen_reading \<Rightarrow> screen_policy" where
  "touch P r =
     P\<lparr>touched := dput (sr_name r) (dget_or (touched P) (sr_name r) 0 + 1) (touched P),
       forgone := dput (sr_name r) (fadd (dget_or (forgone P) (sr_name r) 0) (fsub 1 (effective r))) (forgone P)\<rparr>"

definition composed :: "screen_reading list \<Rightarrow> pyfloat" where
  "composed rows = foldl (\<lambda>m r. fmul m (effective r)) 1 rows"

definition screen :: "screen_reading list \<Rightarrow> screen_policy \<Rightarrow> screen_policy \<times> screen_outcome" where
  "screen rows P =
     (let P = foldl touch P rows; multiplier = composed rows
      in case filter sr_veto rows of
        r # _ \<Rightarrow> (P\<lparr>vetoed_count := vetoed_count P + 1\<rparr>,
                 \<lparr>so_verdict = VETOED, so_multiplier = 0, so_readings = rows, so_reason = ''untradeable at any size: '' @ sr_reason r\<rparr>)
      | [] \<Rightarrow>
          if multiplier < size_floor P
          then (P\<lparr>uneconomic_count := uneconomic_count P + 1\<rparr>,
                \<lparr>so_verdict = UNECONOMIC, so_multiplier = multiplier, so_readings = rows, so_reason = ''no size clears its own execution cost''\<rparr>)
          else if fl (999 / 1000) \<le> multiplier
          then (P\<lparr>full_count := full_count P + 1\<rparr>,
                \<lparr>so_verdict = FULL, so_multiplier = 1, so_readings = rows, so_reason = ''no screen reduced this''\<rparr>)
          else (P\<lparr>reduced_count := reduced_count P + 1\<rparr>,
                \<lparr>so_verdict = REDUCED, so_multiplier = multiplier, so_readings = rows,
                 so_reason = ''reduced, chiefly by '' @ sr_name (worst_reading rows)\<rparr>))"

subsection \<open>Every factor lies between zero and one\<close>

lemma unit_clip_range: "0 \<le> unit_clip x \<and> unit_clip x \<le> 1"
  by (simp add: unit_clip_def)

lemma fl_unit: "0 \<le> x \<Longrightarrow> x \<le> 1 \<Longrightarrow> 0 \<le> fl x \<and> fl x \<le> 1"
  using is_double_of_int [of 1] by (simp add: fl_le_double)

lemma unit_mult: "0 \<le> a \<Longrightarrow> a \<le> 1 \<Longrightarrow> 0 \<le> b \<Longrightarrow> b \<le> 1 \<Longrightarrow> 0 \<le> fmul a b \<and> fmul a b \<le> 1"
  unfolding fmul_def by (intro fl_unit) (simp_all add: mult_le_one)

lemma unit_complement: "0 \<le> a \<Longrightarrow> a \<le> 1 \<Longrightarrow> 0 \<le> fsub 1 a \<and> fsub 1 a \<le> 1"
  unfolding fsub_def by (intro fl_unit) simp_all

lemma effective_range: "0 \<le> effective r \<and> effective r \<le> 1"
proof (cases "sr_veto r")
  case False
  have "0 \<le> fmul (fsub 1 (unit_clip (sr_multiplier r))) (unit_clip (sr_confidence r))
      \<and> fmul (fsub 1 (unit_clip (sr_multiplier r))) (unit_clip (sr_confidence r)) \<le> 1"
    using unit_clip_range unit_complement by (intro unit_mult) blast+
  then show ?thesis using False unit_complement by (simp add: effective_def)
qed (simp add: effective_def)

lemma composed_snoc [simp]: "composed (rows @ [r]) = fmul (composed rows) (effective r)"
  by (simp add: composed_def)

lemma composed_range: "0 \<le> composed rows \<and> composed rows \<le> 1"
proof (induction rows rule: rev_induct)
  case (snoc r rows)
  then show ?case using effective_range [of r] unit_mult [of "composed rows" "effective r"] by simp
qed (simp add: composed_def)

lemma fmul_mono: "0 \<le> a \<Longrightarrow> a \<le> a' \<Longrightarrow> 0 \<le> b \<Longrightarrow> b \<le> b' \<Longrightarrow> fmul a b \<le> fmul a' b'"
  unfolding fmul_def by (intro fl_mono mult_mono) auto

text \<open>One reading is at least as severe as another.\<close>

definition harsher :: "screen_reading \<Rightarrow> screen_reading \<Rightarrow> bool" where
  "harsher r r' \<longleftrightarrow> effective r \<le> effective r' \<and> (sr_veto r' \<longrightarrow> sr_veto r)"

lemma composed_mono: "list_all2 harsher rows rows' \<Longrightarrow> composed rows \<le> composed rows'"
proof (induction rows arbitrary: rows' rule: rev_induct)
  case Nil
  then show ?case by simp
next
  case (snoc r rows)
  then obtain r' rest where "rows' = rest @ [r']" "list_all2 harsher rows rest" "harsher r r'"
    by (auto simp: list_all2_append1 list_all2_Cons1)
  moreover from this have "composed rows \<le> composed rest" "effective r \<le> effective r'" by (auto intro: snoc.IH simp: harsher_def)
  ultimately show ?case using composed_range [of rows] effective_range [of r] by (simp add: fmul_mono)
qed

lemma vetoes_mono: "list_all2 harsher rows rows' \<Longrightarrow> filter sr_veto rows = [] \<Longrightarrow> filter sr_veto rows' = []"
  by (induction rule: list_all2_induct) (auto simp: harsher_def split: if_splits)

lemma touch_floor [simp]: "size_floor (foldl touch P rows) = size_floor P"
  by (induction rows arbitrary: P) (simp_all add: touch_def)

definition passes :: "screen_reading list \<Rightarrow> screen_policy \<Rightarrow> bool" where
  "passes rows P \<longleftrightarrow> filter sr_veto rows = [] \<and> size_floor P \<le> composed rows"

lemma screen_result:
  "screen_rejected (snd (screen rows P)) \<longleftrightarrow> \<not> passes rows P"
  "so_multiplier (snd (screen rows P)) =
     (if filter sr_veto rows \<noteq> [] then 0
      else if size_floor P \<le> composed rows \<and> fl (999 / 1000) \<le> composed rows then 1 else composed rows)"
  by (auto simp: screen_def passes_def screen_rejected_def Let_def not_less split: list.split)


lemma graded_range: "0 \<le> least \<Longrightarrow> least \<le> 1 \<Longrightarrow> sr_multiplier (graded name reading benign severe least confidence) \<le> 1"
  by (cases reading) (auto simp: graded_def Let_def intro!: unit_complement [THEN conjunct2] unit_mult [THEN conjunct1]
      unit_mult [THEN conjunct2] unit_complement [THEN conjunct1])

text \<open>A reading nobody took leaves the size alone.\<close>

lemma unmeasured_is_neutral: "effective (graded name None benign severe least confidence) = 1"
  by (simp add: effective_def graded_def unit_clip_def fsub_def fmul_def)


end
