(* ===== verification/RiskVeto.thy ===== *)
theory RiskVeto
  imports PyText
begin

text \<open>
  \<open>strategies/risk_veto.py\<close>: the fail-closed safety authority.  A report is read through
  \<open>getattr\<close> with defaults; the fields below are what those reads give.
\<close>

definition DANGEROUS_EXTENSIONS :: "string list" where
  "DANGEROUS_EXTENSIONS =
     [''transfer_fee_config'', ''default_account_state'', ''non_transferable'', ''permanent_delegate'',
      ''transfer_hook'', ''confidential_transfer_mint'', ''confidential_transfer_fee_config'',
      ''confidential_mint_burn'', ''pausable'']"

record veto_evidence =
  ev_risk_level :: "string option"
  ev_risk_score :: "pyfloat option"
  dangerous_extensions :: "string list"
  route_feasible :: "bool option"
  route_price_impact_pct :: "pyfloat option"
  ev_position_value :: "pyfloat option"
  ev_liquidity :: "pyfloat option"
  measured_exit_depth :: "pyfloat option"
  ev_exit_capacity :: "pyfloat option"
  ev_connected_holder_pct :: "pyfloat option"

datatype veto_status = VETO | DATA_BLOCKED | CLEAR

record veto_result =
  veto_status :: veto_status
  reasons :: "string list"
  unmeasured_checks :: "string list"
  veto_evidence :: veto_evidence

definition clear :: "veto_result \<Rightarrow> bool" where "clear v \<longleftrightarrow> veto_status v = CLEAR"

record risk_veto =
  require_complete_safety :: bool
  max_exit_impact_pct :: pyfloat
  max_liquidity_fraction :: pyfloat

definition new_risk_veto :: "bool \<Rightarrow> pyfloat \<Rightarrow> pyfloat \<Rightarrow> risk_veto" where
  "new_risk_veto need_all impact share =
     \<lparr>require_complete_safety = need_all, max_exit_impact_pct = max 0 impact, max_liquidity_fraction = max 0 share\<rparr>"

record safety_report =
  risk_level :: "string option"
  risk_score :: "pyfloat option"
  data_status :: string
  blocked_checks :: "string list"
  can_mint :: bool
  can_freeze :: bool
  token_extensions :: "string list"
  sell_route_feasible :: "bool option"
  price_impact :: "pyfloat option"

text \<open>The keyword arguments of a call.\<close>

record veto_call =
  hard_vetoes :: "string list"
  position_value_usd :: "pyfloat option"
  liquidity_usd :: "pyfloat option"
  depth_usd :: "pyfloat option"
  exit_capacity_ratio :: "pyfloat option"
  connected_holder_pct :: "pyfloat option"
  max_connected_holder_pct :: pyfloat

definition bare_call :: veto_call where
  "bare_call = \<lparr>hard_vetoes = [], position_value_usd = None, liquidity_usd = None, depth_usd = None,
     exit_capacity_ratio = None, connected_holder_pct = None, max_connected_holder_pct = 80\<rparr>"

definition sorted_set :: "string list \<Rightarrow> string list" where
  "sorted_set xs = sort (remdups xs)"

subsection \<open>Evaluation\<close>

definition dangerous :: "safety_report \<Rightarrow> string list" where
  "dangerous r = sorted_set (filter (\<lambda>e. e \<in> set DANGEROUS_EXTENSIONS) (token_extensions r))"

text \<open>Reasons and unmeasured checks, in the order the code appends them.\<close>

type_synonym veto_lists = "string list \<times> string list"

definition native_checks :: "safety_report \<Rightarrow> veto_lists" where
  "native_checks r =
     ((if can_mint r then [''mint_authority_active''] else [])
        @ (if can_freeze r then [''freeze_authority_active''] else [])
        @ map (\<lambda>e. ''dangerous_token_extension:'' @ e) (dangerous r),
      if data_status r \<noteq> ''OK'' then (if blocked_checks r = [] then [''safety_report''] else blocked_checks r) else [])"

definition route_checks :: "risk_veto \<Rightarrow> safety_report \<Rightarrow> veto_lists" where
  "route_checks V r =
     ((if sell_route_feasible r = Some False then [''sell_route_unavailable''] else [])
        @ (case price_impact r of
             None \<Rightarrow> []
           | Some i \<Rightarrow> if max_exit_impact_pct V < i then [''catastrophic_exit_price_impact''] else []),
      if sell_route_feasible r = None then [''sell_route''] else [])"

definition level_checks :: "safety_report \<Rightarrow> veto_call \<Rightarrow> veto_lists" where
  "level_checks r c =
     ((case risk_level r of
         None \<Rightarrow> []
       | Some level \<Rightarrow>
           if data_status r = ''OK'' \<and> level \<in> set [''high'', ''critical'', ''honeypot'', ''rugged'']
           then [''native_risk_level:'' @ level] else [])
        @ map (\<lambda>reason. ''developer:'' @ reason) (hard_vetoes c), [])"

definition holder_checks :: "veto_call \<Rightarrow> veto_lists" where
  "holder_checks c =
     (case connected_holder_pct c of
        None \<Rightarrow> ([], [''connected_holder_concentration''])
      | Some p \<Rightarrow> (if max_connected_holder_pct c \<le> p then [''extreme_connected_holder_concentration''] else [], []))"

definition depth_checks :: "risk_veto \<Rightarrow> veto_call \<Rightarrow> pyfloat \<Rightarrow> veto_lists" where
  "depth_checks V c position =
     (case depth_usd c of
        Some d \<Rightarrow>
          if 0 < d then (if d < position then [''position_exceeds_measured_exit_depth''] else [], [])
          else (case liquidity_usd c of
            None \<Rightarrow> ([], [''exit_liquidity''])
          | Some l \<Rightarrow>
              if l \<le> 0 then ([], [''exit_liquidity''])
              else (if fmul l (max_liquidity_fraction V) < position then [''position_exceeds_exit_liquidity_limit''] else [], []))
      | None \<Rightarrow>
          (case liquidity_usd c of
            None \<Rightarrow> ([], [''exit_liquidity''])
          | Some l \<Rightarrow>
              if l \<le> 0 then ([], [''exit_liquidity''])
              else (if fmul l (max_liquidity_fraction V) < position then [''position_exceeds_exit_liquidity_limit''] else [], [])))"

definition capacity_checks :: "veto_call \<Rightarrow> veto_lists" where
  "capacity_checks c =
     (case exit_capacity_ratio c of
        None \<Rightarrow> ([], [''exit_capacity_ratio''])
      | Some q \<Rightarrow> (if q < 1 then [''full_position_not_executable_at_impact_limit''] else [], []))"

definition position_checks :: "risk_veto \<Rightarrow> veto_call \<Rightarrow> veto_lists" where
  "position_checks V c =
     (case position_value_usd c of
        None \<Rightarrow> ([], [])
      | Some position \<Rightarrow>
          (fst (depth_checks V c position) @ fst (capacity_checks c), snd (depth_checks V c position) @ snd (capacity_checks c)))"

definition veto_evaluate :: "risk_veto \<Rightarrow> safety_report \<Rightarrow> veto_call \<Rightarrow> veto_result" where
  "veto_evaluate V r c =
     (let checks = [native_checks r, route_checks V r, level_checks r c, holder_checks c, position_checks V c];
          why = sorted_set (concat (map fst checks));
          blind = concat (map snd checks);
          blind = sorted_set (filter (\<lambda>u. u \<notin> set (blocked_checks r)) blind) @ sorted_set (blocked_checks r);
          evidence = \<lparr>ev_risk_level = risk_level r, ev_risk_score = risk_score r, dangerous_extensions = dangerous r,
            route_feasible = sell_route_feasible r, route_price_impact_pct = price_impact r,
            ev_position_value = position_value_usd c, ev_liquidity = liquidity_usd c, measured_exit_depth = depth_usd c,
            ev_exit_capacity = exit_capacity_ratio c, ev_connected_holder_pct = connected_holder_pct c\<rparr>
      in \<lparr>veto_status = (if why \<noteq> [] then VETO else if blind \<noteq> [] \<and> require_complete_safety V then DATA_BLOCKED else CLEAR),
          reasons = why, unmeasured_checks = blind, veto_evidence = evidence\<rparr>)"

subsection \<open>What a clear result means\<close>

text \<open>Every danger the reads could show, absent; and what has to have been measured, measured.\<close>

definition no_danger_seen :: "risk_veto \<Rightarrow> safety_report \<Rightarrow> veto_call \<Rightarrow> bool" where
  "no_danger_seen V r c \<longleftrightarrow>
     \<not> can_mint r \<and> \<not> can_freeze r \<and> set (token_extensions r) \<inter> set DANGEROUS_EXTENSIONS = {}
     \<and> sell_route_feasible r \<noteq> Some False
     \<and> (\<forall>i. price_impact r = Some i \<longrightarrow> i \<le> max_exit_impact_pct V)
     \<and> (data_status r = ''OK'' \<longrightarrow> risk_level r \<notin> Some ` {''high'', ''critical'', ''honeypot'', ''rugged''})
     \<and> hard_vetoes c = []
     \<and> (\<forall>p. connected_holder_pct c = Some p \<longrightarrow> p < max_connected_holder_pct c)
     \<and> (\<forall>position. position_value_usd c = Some position \<longrightarrow>
          (\<forall>d. depth_usd c = Some d \<and> 0 < d \<longrightarrow> position \<le> d)
          \<and> (\<forall>l. liquidity_usd c = Some l \<and> 0 < l \<and> \<not> (\<exists>d. depth_usd c = Some d \<and> 0 < d)
               \<longrightarrow> position \<le> fmul l (max_liquidity_fraction V))
          \<and> (\<forall>q. exit_capacity_ratio c = Some q \<longrightarrow> 1 \<le> q))"

definition all_measured :: "safety_report \<Rightarrow> veto_call \<Rightarrow> bool" where
  "all_measured r c \<longleftrightarrow>
     data_status r = ''OK'' \<and> blocked_checks r = [] \<and> sell_route_feasible r \<noteq> None \<and> connected_holder_pct c \<noteq> None
     \<and> (position_value_usd c \<noteq> None \<longrightarrow>
          ((\<exists>d. depth_usd c = Some d \<and> 0 < d) \<or> (\<exists>l. liquidity_usd c = Some l \<and> 0 < l))
          \<and> exit_capacity_ratio c \<noteq> None)"

lemma sorted_set_Nil [simp]: "sorted_set xs = [] \<longleftrightarrow> xs = []"
  by (metis set_empty set_remdups set_sort sorted_set_def)

lemma set_sorted_set [simp]: "set (sorted_set xs) = set xs"
  by (simp add: sorted_set_def)

lemma dangerous_Nil: "dangerous r = [] \<longleftrightarrow> set (token_extensions r) \<inter> set DANGEROUS_EXTENSIONS = {}"
  by (auto simp: dangerous_def filter_empty_conv)

lemma depth_reasons:
  "fst (depth_checks V c p) = [] \<longleftrightarrow> (\<forall>d. depth_usd c = Some d \<and> 0 < d \<longrightarrow> p \<le> d)
     \<and> (\<forall>l. liquidity_usd c = Some l \<and> 0 < l \<and> \<not> (\<exists>d. depth_usd c = Some d \<and> 0 < d) \<longrightarrow> p \<le> fmul l (max_liquidity_fraction V))"
  by (auto simp: depth_checks_def split: option.split)

lemma depth_blind:
  "snd (depth_checks V c p) = [] \<longleftrightarrow> (\<exists>d. depth_usd c = Some d \<and> 0 < d) \<or> (\<exists>l. liquidity_usd c = Some l \<and> 0 < l)"
  by (auto simp: depth_checks_def split: option.split)

lemma capacity_reasons: "fst (capacity_checks c) = [] \<longleftrightarrow> (\<forall>q. exit_capacity_ratio c = Some q \<longrightarrow> 1 \<le> q)"
  by (auto simp: capacity_checks_def split: option.split)

lemma capacity_blind: "snd (capacity_checks c) = [] \<longleftrightarrow> exit_capacity_ratio c \<noteq> None"
  by (auto simp: capacity_checks_def split: option.split)

lemma reasons_Nil: "reasons (veto_evaluate V r c) = [] \<longleftrightarrow> no_danger_seen V r c"
  unfolding no_danger_seen_def
  by (auto simp: veto_evaluate_def Let_def native_checks_def route_checks_def level_checks_def holder_checks_def
      position_checks_def depth_reasons capacity_reasons dangerous_Nil split: option.splits)

lemma unmeasured_Nil: "unmeasured_checks (veto_evaluate V r c) = [] \<longleftrightarrow> all_measured r c"
  unfolding all_measured_def
  by (auto simp: veto_evaluate_def Let_def native_checks_def route_checks_def level_checks_def holder_checks_def
      position_checks_def depth_blind capacity_blind filter_empty_conv split: option.splits)

subsection \<open>Properties\<close>

text \<open>
  C26: the authority fails closed: with complete safety required a result is clear exactly when no
  danger was seen and nothing required went unmeasured, it is a veto exactly when a danger was seen,
  measured or not, and then it names a reason.
\<close>

theorem veto_fails_closed:
  "let v = veto_evaluate V r c in
     clear v = (if require_complete_safety V then no_danger_seen V r c \<and> all_measured r c else no_danger_seen V r c)
     \<and> (veto_status v = VETO) = (\<not> no_danger_seen V r c)
     \<and> (reasons v = []) = no_danger_seen V r c
     \<and> (unmeasured_checks v = []) = all_measured r c"
proof -
  have "veto_status (veto_evaluate V r c) =
      (if reasons (veto_evaluate V r c) \<noteq> [] then VETO
       else if unmeasured_checks (veto_evaluate V r c) \<noteq> [] \<and> require_complete_safety V then DATA_BLOCKED else CLEAR)"
    by (simp add: veto_evaluate_def Let_def)
  then show ?thesis by (simp add: Let_def clear_def reasons_Nil unmeasured_Nil)
qed

end
