(* ===== verification/T0Kernel.thy ===== *)
theory T0Kernel
  imports ActionValue
begin

text \<open>
  \<open>strategies/t0_kernel.py\<close>: the decision kernel of the native extension, which may decide in place of the
  Python policy after a run of agreements with it, and the later check of what it decided alone.  The policy and
  the extension are arguments, either of which may raise; of a reason the part without numbers is kept.
\<close>

subsection \<open>Decisions and their provenance\<close>

datatype t0_mode = T0_OFF | T0_SHADOW | T0_AUTO | T0_RUST

text \<open>An unknown mode falls back to shadow.\<close>

definition t0_mode_of :: "string \<Rightarrow> t0_mode" where
  "t0_mode_of name =
     (case dget [(''off'', T0_OFF), (''shadow'', T0_SHADOW), (''auto'', T0_AUTO), (''rust'', T0_RUST)] (py_lower name) of
        None \<Rightarrow> T0_SHADOW | Some m \<Rightarrow> m)"

text \<open>A float as the extension may return it.\<close>

datatype native_float = Plain pyfloat | PlusInfinity | MinusInfinity | NotANumber

record t0_outcome =
  ko_source :: string
  ko_compared :: bool
  ko_agreed :: bool
  ko_reason :: string
  ko_python_action :: string
  ko_rust_action :: string
  ko_python_q :: "native_float option"
  ko_rust_q :: "native_float option"

definition plain_outcome :: "string \<Rightarrow> string \<Rightarrow> t0_outcome" where
  "plain_outcome source reason =
     \<lparr>ko_source = source, ko_compared = False, ko_agreed = True, ko_reason = reason, ko_python_action = '''', ko_rust_action = '''',
      ko_python_q = None, ko_rust_q = None\<rparr>"

record t0_decision =
  td_status :: string
  td_action :: action
  td_q :: native_float
  td_detail :: string

record survival_inputs =
  su_levels :: "pyfloat list"
  su_p_rug_30s :: pyfloat
  su_p_rug_5m :: pyfloat
  su_feasible_multiple :: pyfloat

text \<open>What one call passes on to the extension.\<close>

record t0_question =
  tq_state :: position_state
  tq_survival :: survival_inputs
  tq_age :: pyfloat
  tq_virtual_sol :: int
  tq_virtual_token :: int
  tq_min_edge :: pyfloat
  tq_max_add :: pyfloat

type_synonym t0_policy = "position_state \<Rightarrow> string + t0_decision"
type_synonym t0_native = "t0_question \<Rightarrow> string + (string \<times> native_float)"

definition action_of_text :: "string \<Rightarrow> action option" where
  "action_of_text name = List.find (\<lambda>a. action_text a = name) ALL_ACTIONS"

definition rust_score :: "t0_native \<Rightarrow> t0_question \<Rightarrow> string + t0_decision" where
  "rust_score native question =
     (case native question of
        Inl e \<Rightarrow> Inl e
      | Inr (name, q) \<Rightarrow>
          (case action_of_text name of
             None \<Rightarrow> Inl (name @ '' is not a valid Action'')
           | Some a \<Rightarrow> Inr \<lparr>td_status = ''OK'', td_action = a, td_q = q, td_detail = ''rust t0 kernel''\<rparr>))"

text \<open>
  \<open>_close\<close>.  The difference of a finite number and an infinite one is infinite, and so is the tolerance scaled
  by the larger of them unless the tolerance is zero, when the product is not a number, or negative.
\<close>

fun t0_close :: "pyfloat \<Rightarrow> native_float \<Rightarrow> native_float \<Rightarrow> bool" where
  "t0_close tolerance (Plain l) (Plain r) \<longleftrightarrow> \<bar>fsub l r\<bar> \<le> fmul tolerance (max 1 (max \<bar>l\<bar> \<bar>r\<bar>))"
| "t0_close tolerance NotANumber r \<longleftrightarrow> False"
| "t0_close tolerance l NotANumber \<longleftrightarrow> False"
| "t0_close tolerance (Plain l) r \<longleftrightarrow> 0 < tolerance"
| "t0_close tolerance l (Plain r) \<longleftrightarrow> 0 < tolerance"
| "t0_close tolerance l r \<longleftrightarrow> l = r"

definition t0_compare :: "pyfloat \<Rightarrow> t0_decision \<Rightarrow> t0_decision \<Rightarrow> t0_outcome" where
  "t0_compare tolerance p r =
     (let x = (plain_outcome ''rust'' '''')\<lparr>ko_compared := True, ko_python_action := action_text (td_action p),
              ko_rust_action := action_text (td_action r), ko_python_q := Some (td_q p), ko_rust_q := Some (td_q r)\<rparr>
      in if td_status p \<noteq> ''OK'' then x\<lparr>ko_compared := False, ko_reason := ''python status '' @ td_status p\<rparr>
         else if td_action p \<noteq> td_action r
         then x\<lparr>ko_agreed := False, ko_reason := ''action: python '' @ action_text (td_action p) @ '', rust '' @ action_text (td_action r)\<rparr>
         else if \<not> t0_close tolerance (td_q p) (td_q r)
         then x\<lparr>ko_agreed := False, ko_reason := ''Q on '' @ action_text (td_action p)\<rparr>
         else x)"

subsection \<open>The kernel\<close>

record parity_item =
  pi_question :: t0_question
  pi_decision :: t0_decision

record t0_kernel =
  t0_kernel_mode :: t0_mode
  t0_promote_after :: int
  t0_tolerance :: pyfloat
  t0_native_status :: "string option"
  t0_compared :: int
  t0_agreements :: int
  t0_divergences :: int
  t0_consecutive :: int
  t0_not_expressible :: int
  t0_no_survival :: int
  t0_rust_errors :: int
  t0_rust_decisions :: int
  t0_python_decisions :: int
  t0_demoted :: string
  t0_examples :: "t0_outcome list"
  t0_queue :: "parity_item list"
  t0_queue_room :: int
  t0_queued :: int
  t0_checked :: int
  t0_dropped :: int

text \<open>\<open>problem\<close>: why the extension cannot be used, if it cannot.\<close>

definition new_t0_kernel :: "string \<Rightarrow> int \<Rightarrow> pyfloat \<Rightarrow> int \<Rightarrow> string option \<Rightarrow> t0_kernel" where
  "new_t0_kernel mode after tolerance room problem =
     \<lparr>t0_kernel_mode = t0_mode_of mode, t0_promote_after = max 1 after, t0_tolerance = tolerance, t0_native_status = problem,
      t0_compared = 0, t0_agreements = 0, t0_divergences = 0, t0_consecutive = 0, t0_not_expressible = 0, t0_no_survival = 0,
      t0_rust_errors = 0, t0_rust_decisions = 0, t0_python_decisions = 0, t0_demoted = '''', t0_examples = [], t0_queue = [],
      t0_queue_room = max 1 room, t0_queued = 0, t0_checked = 0, t0_dropped = 0\<rparr>"

definition t0_available :: "t0_kernel \<Rightarrow> bool" where
  "t0_available K \<longleftrightarrow> t0_native_status K = None"

definition t0_authoritative :: "t0_kernel \<Rightarrow> bool" where
  "t0_authoritative K \<longleftrightarrow>
     t0_available K \<and> t0_demoted K = ''''
     \<and> (t0_kernel_mode K = T0_RUST \<or> t0_kernel_mode K = T0_AUTO \<and> t0_promote_after K \<le> t0_consecutive K)"

definition NO_SURVIVAL :: string where
  "NO_SURVIVAL = ''caller supplied no raw survival inputs''"

definition not_expressible :: "survival_inputs option \<Rightarrow> int \<Rightarrow> int \<Rightarrow> string" where
  "not_expressible survival virtual_sol virtual_token =
     (if survival = None then NO_SURVIVAL
      else if virtual_sol \<le> 0 \<or> virtual_token \<le> 0 then ''no curve reserves supplied; the kernel cannot price this market''
      else '''')"

definition t0_record_comparison :: "bool \<Rightarrow> t0_decision \<Rightarrow> t0_decision \<Rightarrow> t0_kernel \<Rightarrow> t0_kernel \<times> t0_outcome" where
  "t0_record_comparison authoritative p r K =
     (let x = t0_compare (t0_tolerance K) p r; K = K\<lparr>t0_compared := t0_compared K + 1\<rparr>
      in if ko_agreed x
         then (K\<lparr>t0_agreements := t0_agreements K + 1, t0_consecutive := t0_consecutive K + 1\<rparr>, x)
         else (K\<lparr>t0_divergences := t0_divergences K + 1, t0_consecutive := 0,
                 t0_demoted := (if authoritative \<and> t0_demoted K = '''' then ko_reason x else t0_demoted K),
                 t0_examples := (if length (t0_examples K) < 20 then t0_examples K @ [x] else t0_examples K)\<rparr>, x))"

text \<open>A deque of limited room: the oldest item goes.\<close>

definition enqueue_parity :: "parity_item \<Rightarrow> t0_kernel \<Rightarrow> t0_kernel" where
  "enqueue_parity x K =
     (let full = (t0_queue_room K \<le> int (length (t0_queue K)))
      in K\<lparr>t0_dropped := t0_dropped K + (if full then 1 else 0),
           t0_queue := (if full then tl (t0_queue K) else t0_queue K) @ [x], t0_queued := t0_queued K + 1\<rparr>)"

definition raised_kernel :: "t0_kernel \<Rightarrow> t0_kernel" where
  "raised_kernel K =
     K\<lparr>t0_rust_errors := t0_rust_errors K + 1, t0_consecutive := 0, t0_python_decisions := t0_python_decisions K + 1\<rparr>"

type_synonym t0_answer = "string + (t0_decision \<times> t0_outcome)"

definition tagged :: "t0_outcome \<Rightarrow> string + t0_decision \<Rightarrow> t0_answer" where
  "tagged x answer = (case answer of Inl e \<Rightarrow> Inl e | Inr d \<Rightarrow> Inr (d, x))"

definition score_promoted :: "t0_policy \<Rightarrow> t0_native \<Rightarrow> t0_question \<Rightarrow> t0_kernel \<Rightarrow> t0_kernel \<times> t0_answer" where
  "score_promoted policy native question K =
     (case rust_score native question of
        Inl e \<Rightarrow> (raised_kernel K, tagged (plain_outcome ''python'' (''rust raised: '' @ e)) (policy (tq_state question)))
      | Inr r \<Rightarrow>
          (let K = enqueue_parity \<lparr>pi_question = question, pi_decision = r\<rparr> K
           in (K\<lparr>t0_rust_decisions := t0_rust_decisions K + 1\<rparr>,
               Inr (r, (plain_outcome ''rust'' ''python parity deferred off the decision path'')
                         \<lparr>ko_rust_action := action_text (td_action r), ko_rust_q := Some (td_q r)\<rparr>))))"

definition score_shadowed :: "t0_policy \<Rightarrow> t0_native \<Rightarrow> t0_question \<Rightarrow> t0_kernel \<Rightarrow> t0_kernel \<times> t0_answer" where
  "score_shadowed policy native question K =
     (case policy (tq_state question) of
        Inl e \<Rightarrow> (K, Inl e)
      | Inr p \<Rightarrow>
          (case rust_score native question of
             Inl e \<Rightarrow> (raised_kernel K, Inr (p, plain_outcome ''python'' (''rust raised: '' @ e)))
           | Inr r \<Rightarrow>
               (case t0_record_comparison False p r K of
                  (K, x) \<Rightarrow> (K\<lparr>t0_python_decisions := t0_python_decisions K + 1\<rparr>, Inr (p, x\<lparr>ko_source := ''python''\<rparr>)))))"

text \<open>The policy's own edge and add limit go where the caller gives none.\<close>

definition t0_score ::
    "t0_policy \<Rightarrow> t0_native \<Rightarrow> action_policy \<Rightarrow> position_state \<Rightarrow> survival_inputs option \<Rightarrow> pyfloat \<Rightarrow> int \<Rightarrow> int \<Rightarrow> t0_kernel
     \<Rightarrow> t0_kernel \<times> t0_answer" where
  "t0_score policy native P s survival age virtual_sol virtual_token K =
     (let blocked = not_expressible survival virtual_sol virtual_token
      in if t0_kernel_mode K = T0_OFF \<or> \<not> t0_available K \<or> blocked \<noteq> ''''
         then (K\<lparr>t0_no_survival := t0_no_survival K + (if blocked = NO_SURVIVAL then 1 else 0),
                 t0_not_expressible := t0_not_expressible K + (if blocked \<noteq> NO_SURVIVAL \<and> blocked \<noteq> '''' then 1 else 0),
                 t0_python_decisions := t0_python_decisions K + 1\<rparr>,
               tagged (plain_outcome ''python''
                 (if blocked \<noteq> '''' then blocked else case t0_native_status K of None \<Rightarrow> ''OK'' | Some problem \<Rightarrow> problem)) (policy s))
         else
           let question = \<lparr>tq_state = s, tq_survival = the survival, tq_age = age, tq_virtual_sol = virtual_sol,
                           tq_virtual_token = virtual_token, tq_min_edge = min_edge P, tq_max_add = max_add_fraction P\<rparr>
           in if t0_authoritative K then score_promoted policy native question K
              else score_shadowed policy native question K)"

text \<open>\<open>drain_parity\<close>; an item whose policy raises is counted as checked and otherwise skipped.\<close>

definition check_parity :: "t0_policy \<Rightarrow> parity_item \<Rightarrow> t0_kernel \<Rightarrow> t0_kernel" where
  "check_parity policy x K =
     (let K = K\<lparr>t0_checked := t0_checked K + 1\<rparr>
      in case policy (tq_state (pi_question x)) of
        Inl e \<Rightarrow> K
      | Inr p \<Rightarrow> fst (t0_record_comparison True p (pi_decision x) K))"

fun drain_items :: "t0_policy \<Rightarrow> nat \<Rightarrow> t0_kernel \<Rightarrow> t0_kernel \<times> int" where
  "drain_items policy 0 K = (K, 0)"
| "drain_items policy (Suc n) K =
     (case t0_queue K of
        [] \<Rightarrow> (K, 0)
      | x # rest \<Rightarrow> (case drain_items policy n (check_parity policy x (K\<lparr>t0_queue := rest\<rparr>)) of (K, done) \<Rightarrow> (K, done + 1)))"

definition drain_parity :: "t0_policy \<Rightarrow> int \<Rightarrow> t0_kernel \<Rightarrow> t0_kernel \<times> int" where
  "drain_parity policy budget K = drain_items policy (nat (max 1 budget)) K"


subsection \<open>A session\<close>

datatype t0_event =
  Decided t0_policy t0_native action_policy position_state "survival_inputs option" pyfloat int int
| Drained t0_policy int

fun t0_step :: "t0_kernel \<Rightarrow> t0_event \<Rightarrow> t0_kernel" where
  "t0_step K (Decided policy native P s survival age virtual_sol virtual_token) =
     fst (t0_score policy native P s survival age virtual_sol virtual_token K)"
| "t0_step K (Drained policy budget) = fst (drain_parity policy budget K)"

text \<open>
  What a session learns of the extension, in order: whether a comparison was about a decision the extension had
  made alone, and whether it agreed; a call that raises counts as a disagreement about nothing.
\<close>

definition parity_finding :: "pyfloat \<Rightarrow> t0_policy \<Rightarrow> parity_item \<Rightarrow> (bool \<times> bool) list" where
  "parity_finding tolerance policy x =
     (case policy (tq_state (pi_question x)) of
        Inl e \<Rightarrow> [] | Inr p \<Rightarrow> [(True, ko_agreed (t0_compare tolerance p (pi_decision x)))])"

definition score_finding :: "t0_policy \<Rightarrow> t0_native \<Rightarrow> t0_question \<Rightarrow> t0_kernel \<Rightarrow> (bool \<times> bool) list" where
  "score_finding policy native question K =
     (case rust_score native question of
        Inl e \<Rightarrow> if t0_authoritative K \<or> (\<exists>p. policy (tq_state question) = Inr p) then [(False, False)] else []
      | Inr r \<Rightarrow>
          if t0_authoritative K then []
          else case policy (tq_state question) of
            Inl e \<Rightarrow> [] | Inr p \<Rightarrow> [(False, ko_agreed (t0_compare (t0_tolerance K) p r))])"

fun event_findings :: "t0_kernel \<Rightarrow> t0_event \<Rightarrow> (bool \<times> bool) list" where
  "event_findings K (Decided policy native P s survival age virtual_sol virtual_token) =
     (if t0_kernel_mode K = T0_OFF \<or> \<not> t0_available K \<or> not_expressible survival virtual_sol virtual_token \<noteq> '''' then []
      else score_finding policy native
        \<lparr>tq_state = s, tq_survival = the survival, tq_age = age, tq_virtual_sol = virtual_sol, tq_virtual_token = virtual_token,
         tq_min_edge = min_edge P, tq_max_add = max_add_fraction P\<rparr> K)"
| "event_findings K (Drained policy budget) =
     concat (map (parity_finding (t0_tolerance K) policy) (take (nat (max 1 budget)) (t0_queue K)))"

fun t0_findings :: "t0_kernel \<Rightarrow> t0_event list \<Rightarrow> (bool \<times> bool) list" where
  "t0_findings K [] = []"
| "t0_findings K (e # es) = event_findings K e @ t0_findings (t0_step K e) es"

definition learned :: "t0_kernel \<Rightarrow> (bool \<times> bool) list \<Rightarrow> t0_kernel \<Rightarrow> bool" where
  "learned K0 seen K \<longleftrightarrow>
     t0_consecutive K = int (length (takeWhile snd (rev seen)))
     \<and> (t0_demoted K = '''' \<longleftrightarrow> (True, False) \<notin> set seen)
     \<and> t0_kernel_mode K = t0_kernel_mode K0 \<and> t0_native_status K = t0_native_status K0
     \<and> t0_promote_after K = t0_promote_after K0 \<and> t0_tolerance K = t0_tolerance K0 \<and> t0_queue_room K = t0_queue_room K0"

definition parity_adds_up :: "t0_kernel \<Rightarrow> bool" where
  "parity_adds_up K \<longleftrightarrow>
     t0_queued K = t0_rust_decisions K \<and> t0_queued K = t0_checked K + t0_dropped K + int (length (t0_queue K))
     \<and> int (length (t0_queue K)) \<le> t0_queue_room K \<and> 1 \<le> t0_queue_room K
     \<and> t0_compared K = t0_agreements K + t0_divergences K \<and> 0 \<le> t0_dropped K \<and> 0 \<le> t0_checked K"

lemma disagreement_has_reason: "\<not> ko_agreed (t0_compare tolerance p r) \<Longrightarrow> ko_reason (t0_compare tolerance p r) \<noteq> ''''"
  by (auto simp: t0_compare_def plain_outcome_def Let_def)

lemma comparison_learned:
  assumes "learned K0 seen K"
  shows "learned K0 (seen @ [(authoritative, ko_agreed (t0_compare (t0_tolerance K) p r))]) (fst (t0_record_comparison authoritative p r K))"
  using assms disagreement_has_reason [of "t0_tolerance K" p r]
  by (auto simp: learned_def t0_record_comparison_def Let_def)

lemma comparison_keeps:
  "parity_adds_up K \<Longrightarrow> parity_adds_up (fst (t0_record_comparison authoritative p r K))"
  by (simp add: parity_adds_up_def t0_record_comparison_def Let_def)

lemma check_learned:
  assumes "learned K0 seen K"
  shows "learned K0 (seen @ parity_finding (t0_tolerance K) policy x) (check_parity policy x (K\<lparr>t0_queue := rest\<rparr>))"
proof (cases "policy (tq_state (pi_question x))")
  case (Inl e)
  then show ?thesis using assms by (simp add: parity_finding_def check_parity_def learned_def)
next
  case (Inr p)
  have "learned K0 seen (K\<lparr>t0_queue := rest, t0_checked := t0_checked K + 1\<rparr>)" using assms by (simp add: learned_def)
  from comparison_learned [OF this, of True p "pi_decision x"] show ?thesis
    using Inr by (simp add: parity_finding_def check_parity_def)
qed

lemma check_fields [simp]:
  "t0_queue (check_parity policy x K) = t0_queue K" "t0_tolerance (check_parity policy x K) = t0_tolerance K"
  by (simp_all add: check_parity_def t0_record_comparison_def Let_def split: sum.split)

lemma check_keeps:
  assumes "parity_adds_up K" "t0_queue K = x # rest"
  shows "parity_adds_up (check_parity policy x (K\<lparr>t0_queue := rest\<rparr>))"
proof -
  have "parity_adds_up (K\<lparr>t0_queue := rest, t0_checked := t0_checked K + 1\<rparr>)"
    using assms by (simp add: parity_adds_up_def)
  then show ?thesis using comparison_keeps by (simp add: check_parity_def Let_def split: sum.split)
qed

lemma drain_learned:
  "learned K0 seen K \<Longrightarrow> parity_adds_up K \<Longrightarrow>
     learned K0 (seen @ concat (map (parity_finding (t0_tolerance K) policy) (take n (t0_queue K)))) (fst (drain_items policy n K))
     \<and> parity_adds_up (fst (drain_items policy n K))"
proof (induction policy n K arbitrary: seen rule: drain_items.induct)
  case (2 policy n K)
  show ?case
  proof (cases "t0_queue K")
    case (Cons x rest)
    from "2.IH" [OF Cons check_learned [OF "2.prems"(1)] check_keeps [OF "2.prems"(2) Cons]] Cons
    show ?thesis by (simp add: case_prod_unfold)
  qed (use 2 in simp)
qed simp

lemma score_learned:
  assumes "learned K0 seen K" "parity_adds_up K"
  shows "learned K0 (seen @ event_findings K (Decided policy native P s survival age virtual_sol virtual_token))
      (fst (t0_score policy native P s survival age virtual_sol virtual_token K))
    \<and> parity_adds_up (fst (t0_score policy native P s survival age virtual_sol virtual_token K))"
proof (cases "t0_kernel_mode K = T0_OFF \<or> \<not> t0_available K \<or> not_expressible survival virtual_sol virtual_token \<noteq> ''''")
  case True
  then show ?thesis using assms by (simp add: t0_score_def learned_def parity_adds_up_def Let_def)
next
  case False
  define question where "question = \<lparr>tq_state = s, tq_survival = the survival, tq_age = age, tq_virtual_sol = virtual_sol,
    tq_virtual_token = virtual_token, tq_min_edge = min_edge P, tq_max_add = max_add_fraction P\<rparr>"
  have raised: "learned K0 (seen @ [(False, False)]) (raised_kernel K) \<and> parity_adds_up (raised_kernel K)"
    using assms by (simp add: learned_def parity_adds_up_def raised_kernel_def)
  have promoted: "learned K0 seen (fst (score_promoted policy native question K)) \<and> parity_adds_up (fst (score_promoted policy native question K))"
    if "rust_score native question = Inr r" for r
  proof -
    have "int (length (tl (t0_queue K))) = int (length (t0_queue K)) - 1" if "t0_queue_room K \<le> int (length (t0_queue K))"
      using that assms(2) by (cases "t0_queue K") (simp_all add: parity_adds_up_def)
    then show ?thesis
      using that assms by (auto simp: score_promoted_def enqueue_parity_def learned_def parity_adds_up_def Let_def)
  qed
  have shadowed: "learned K0 (seen @ [(False, ko_agreed (t0_compare (t0_tolerance K) p r))]) (fst (score_shadowed policy native question K))
      \<and> parity_adds_up (fst (score_shadowed policy native question K))"
    if "rust_score native question = Inr r" "policy s = Inr p" for r p
    using that comparison_learned [OF assms(1), of False p r] comparison_keeps [OF assms(2), of False p r]
    by (auto simp: score_shadowed_def question_def case_prod_unfold learned_def parity_adds_up_def)
  have "fst (t0_score policy native P s survival age virtual_sol virtual_token K)
      = fst (if t0_authoritative K then score_promoted policy native question K else score_shadowed policy native question K)"
    "event_findings K (Decided policy native P s survival age virtual_sol virtual_token) = score_finding policy native question K"
    using False by (simp_all add: t0_score_def question_def Let_def)
  moreover have "tq_state question = s" by (simp add: question_def)
  ultimately show ?thesis
    using assms raised promoted shadowed
    by (cases "rust_score native question"; cases "policy s"; cases "t0_authoritative K")
      (simp_all add: score_finding_def, simp_all add: score_promoted_def score_shadowed_def)
qed

lemma step_learned:
  assumes "learned K0 seen K" "parity_adds_up K"
  shows "learned K0 (seen @ event_findings K e) (t0_step K e) \<and> parity_adds_up (t0_step K e)"
proof (cases e)
  case (Drained policy budget)
  then show ?thesis using drain_learned [OF assms] by (simp add: drain_parity_def)
qed (use score_learned [OF assms] in simp)

lemma run_learned:
  "learned K0 seen K \<Longrightarrow> parity_adds_up K \<Longrightarrow> learned K0 (seen @ t0_findings K es) (run t0_step K es) \<and> parity_adds_up (run t0_step K es)"
proof (induction es arbitrary: seen K)
  case (Cons e es)
  from step_learned [OF Cons.prems, of e] have "learned K0 (seen @ event_findings K e) (t0_step K e)" "parity_adds_up (t0_step K e)" by auto
  from Cons.IH [OF this] show ?case by simp
qed simp

lemma new_learned: "learned (new_t0_kernel mode after tolerance room problem) [] (new_t0_kernel mode after tolerance room problem)
    \<and> parity_adds_up (new_t0_kernel mode after tolerance room problem)"
  by (simp add: learned_def parity_adds_up_def new_t0_kernel_def)

text \<open>
  C19: The extension decides alone only on a run of agreements.  Whatever has been asked and checked in a session, a
  decision that comes from it is given by a kernel that has the extension, in which no later check has ever found
  a decision of its own to differ, and which either was told to use it or has seen, last of all, as many agreements
  as the promotion asks for, with no disagreement and no failed call among them.
\<close>
theorem native_decides_on_agreement:
  assumes "K = run t0_step (new_t0_kernel mode after tolerance room problem) es"
    and "seen = t0_findings (new_t0_kernel mode after tolerance room problem) es"
    and "t0_score policy native P s survival age virtual_sol virtual_token K = (K', Inr (d, x))" "ko_source x = ''rust''"
  shows "problem = None \<and> (True, False) \<notin> set seen
    \<and> (t0_mode_of mode = T0_RUST
       \<or> t0_mode_of mode = T0_AUTO
         \<and> (\<exists>earlier latest. seen = earlier @ latest \<and> max 1 after \<le> int (length latest) \<and> list_all snd latest))"
proof -
  let ?K0 = "new_t0_kernel mode after tolerance room problem"
  have l: "learned ?K0 seen K" using run_learned [of ?K0 "[]" ?K0 es] new_learned assms(1,2) by simp
  have auth: "t0_authoritative K"
    using assms(3,4)
    by (auto simp: t0_score_def score_shadowed_def tagged_def plain_outcome_def t0_record_comparison_def Let_def
        split: if_splits sum.splits prod.splits)
  have "seen = rev (dropWhile snd (rev seen)) @ rev (takeWhile snd (rev seen))" by (metis rev_append rev_rev_ident takeWhile_dropWhile_id)
  moreover have "list_all snd (rev (takeWhile snd (rev seen)))" by (auto simp: list_all_iff dest: set_takeWhileD)
  moreover have long: "max 1 after \<le> int (length (rev (takeWhile snd (rev seen))))" if "t0_mode_of mode \<noteq> T0_RUST"
    using l auth that by (auto simp: learned_def t0_authoritative_def new_t0_kernel_def)
  ultimately have "\<exists>earlier latest. seen = earlier @ latest \<and> max 1 after \<le> int (length latest) \<and> list_all snd latest"
    if "t0_mode_of mode \<noteq> T0_RUST" using that by blast
  then show ?thesis
    using l auth by (auto simp only: learned_def t0_authoritative_def t0_available_def new_t0_kernel_def t0_kernel.simps)
qed

text \<open>
  Every decision the extension makes alone is accounted for: it is checked, dropped for want of room, or
  still waiting, no more of them wait than there is room for, and every comparison is an agreement or a divergence.
\<close>
lemma deferred_parity_adds_up:
  "let K = run t0_step (new_t0_kernel mode after tolerance room problem) es
   in t0_rust_decisions K = t0_checked K + t0_dropped K + int (length (t0_queue K)) \<and> int (length (t0_queue K)) \<le> max 1 room
      \<and> 0 \<le> t0_checked K \<and> 0 \<le> t0_dropped K \<and> t0_compared K = t0_agreements K + t0_divergences K"
proof -
  let ?K0 = "new_t0_kernel mode after tolerance room problem"
  have "learned ?K0 (t0_findings ?K0 es) (run t0_step ?K0 es) \<and> parity_adds_up (run t0_step ?K0 es)"
    using run_learned [of ?K0 "[]" ?K0 es] new_learned by simp
  then show ?thesis by (simp add: learned_def parity_adds_up_def new_t0_kernel_def Let_def)
qed


subsection \<open>What counts as an agreement\<close>

text \<open>
  A state the policy declines to price is recorded as an agreement: a kernel that has compared nothing is promoted,
  and then answers for the states the policy would refuse.  An infinite value agrees with any finite one.
\<close>

definition declines :: t0_policy where
  "declines s = Inr \<lparr>td_status = ''DATA_BLOCKED'', td_action = HOLD, td_q = Plain 0, td_detail = ''exit capacity not measured''\<rparr>"

definition asks :: "t0_policy \<Rightarrow> t0_event" where
  "asks policy = Decided policy (\<lambda>_. Inr (''hold'', Plain 0)) (new_action_policy 0 0) flat_state
     (Some \<lparr>su_levels = [], su_p_rug_30s = 0, su_p_rug_5m = 0, su_feasible_multiple = 0\<rparr>) 0 1 1"

lemma auto_mode: "t0_mode_of ''auto'' = T0_AUTO"
  by (simp add: t0_mode_of_def py_lower_def lower_char_def)

lemma asks_shadowed:
  assumes "\<not> t0_authoritative K" "t0_kernel_mode K = T0_AUTO" "t0_native_status K = None" "policy flat_state = Inr p"
  shows "t0_step K (asks policy)
      = (fst (t0_record_comparison False p \<lparr>td_status = ''OK'', td_action = HOLD, td_q = Plain 0, td_detail = ''rust t0 kernel''\<rparr> K))
          \<lparr>t0_python_decisions := t0_python_decisions K + 1\<rparr>"
    "event_findings K (asks policy)
      = [(False, ko_agreed (t0_compare (t0_tolerance K) p \<lparr>td_status = ''OK'', td_action = HOLD, td_q = Plain 0, td_detail = ''rust t0 kernel''\<rparr>))]"
  using assms
  by (simp_all add: asks_def t0_score_def not_expressible_def t0_available_def score_shadowed_def score_finding_def rust_score_def
      action_of_text_def ALL_ACTIONS_def action_text_def case_prod_unfold t0_record_comparison_def Let_def)

lemma unpriced_states_promote:
  "let K = run t0_step (new_t0_kernel ''auto'' 2 tolerance 1 None) [asks declines, asks declines]
   in t0_authoritative K \<and> t0_agreements K = 2 \<and> t0_compared K = 2"
proof -
  let ?K0 = "new_t0_kernel ''auto'' 2 tolerance 1 None"
  let ?r = "\<lparr>td_status = ''OK'', td_action = HOLD, td_q = Plain 0, td_detail = ''rust t0 kernel''\<rparr>"
  obtain p where p: "declines flat_state = Inr p" "td_status p \<noteq> ''OK''" by (auto simp: declines_def)
  have agreed: "ko_agreed (t0_compare t p ?r)" for t using p(2) by (simp add: t0_compare_def plain_outcome_def Let_def)
  have "t0_step ?K0 (asks declines) = ?K0\<lparr>t0_compared := 1, t0_agreements := 1, t0_consecutive := 1, t0_python_decisions := 1\<rparr>"
    using asks_shadowed(1) [of ?K0 declines p] p(1) agreed auto_mode
    by (simp add: new_t0_kernel_def t0_authoritative_def t0_record_comparison_def Let_def)
  moreover have "t0_step (?K0\<lparr>t0_compared := 1, t0_agreements := 1, t0_consecutive := 1, t0_python_decisions := 1\<rparr>) (asks declines)
      = ?K0\<lparr>t0_compared := 2, t0_agreements := 2, t0_consecutive := 2, t0_python_decisions := 2\<rparr>"
    using asks_shadowed(1) [of "?K0\<lparr>t0_compared := 1, t0_agreements := 1, t0_consecutive := 1, t0_python_decisions := 1\<rparr>" declines p] p(1)
      agreed auto_mode
    by (simp add: new_t0_kernel_def t0_authoritative_def t0_record_comparison_def Let_def)
  ultimately show ?thesis using auto_mode by (simp add: new_t0_kernel_def t0_authoritative_def t0_available_def)
qed

lemma infinity_agrees:
  "0 < tolerance \<Longrightarrow> ko_agreed (t0_compare tolerance \<lparr>td_status = ''OK'', td_action = a, td_q = Plain q, td_detail = c\<rparr>
     \<lparr>td_status = ''OK'', td_action = a, td_q = PlusInfinity, td_detail = d\<rparr>)"
  by (simp add: t0_compare_def plain_outcome_def Let_def)

subsection \<open>Witnesses\<close>

definition holds :: t0_policy where
  "holds s = Inr \<lparr>td_status = ''OK'', td_action = HOLD, td_q = Plain 0, td_detail = ''''\<rparr>"

theorem native_decides_on_agreement_witness:
  "\<exists>earlier latest. t0_findings (new_t0_kernel ''auto'' 1 1 1 None) [asks holds] = earlier @ latest
     \<and> 1 \<le> int (length latest) \<and> list_all snd latest"
proof -
  let ?K0 = "new_t0_kernel ''auto'' 1 1 1 None"
  let ?r = "\<lparr>td_status = ''OK'', td_action = HOLD, td_q = Plain 0, td_detail = ''rust t0 kernel''\<rparr>"
  have agreed: "ko_agreed (t0_compare 1 \<lparr>td_status = ''OK'', td_action = HOLD, td_q = Plain 0, td_detail = ''''\<rparr> ?r)"
    by (simp add: t0_compare_def plain_outcome_def fsub_def fmul_def Let_def)
  have K: "run t0_step ?K0 [asks holds] = ?K0\<lparr>t0_compared := 1, t0_agreements := 1, t0_consecutive := 1, t0_python_decisions := 1\<rparr>"
    using asks_shadowed(1) [of ?K0 holds] agreed auto_mode
    by (simp add: holds_def new_t0_kernel_def t0_authoritative_def t0_record_comparison_def Let_def)
  obtain K' d x where "t0_score holds (\<lambda>_. Inr (''hold'', Plain 0)) (new_action_policy 0 0) flat_state
      (Some \<lparr>su_levels = [], su_p_rug_30s = 0, su_p_rug_5m = 0, su_feasible_multiple = 0\<rparr>) 0 1 1 (run t0_step ?K0 [asks holds])
      = (K', Inr (d, x))" "ko_source x = ''rust''"
    unfolding K using auto_mode
    by (simp add: t0_score_def not_expressible_def t0_available_def t0_authoritative_def new_t0_kernel_def score_promoted_def
        rust_score_def action_of_text_def ALL_ACTIONS_def action_text_def plain_outcome_def Let_def)
  from native_decides_on_agreement [OF refl refl this] show ?thesis using auto_mode by (simp add: t0_mode_of_def py_lower_def lower_char_def)
qed

end
