(* ===== verification/PumpFeeConfig.thy ===== *)
theory PumpFeeConfig
  imports PyText Interfaces
begin

text \<open>
  \<open>chains/pump_fee_config.py\<close>: the on-chain \<open>FeeConfig\<close> account and the tier selection over it.
  The account is Borsh: a header, three 64-bit fees, and two length-prefixed vectors of tiers.
  \<open>IDL_STATUS\<close> (whether the address library could be imported) and \<open>str(Pubkey(..))\<close> are arguments.
\<close>

definition FEE_CONFIG_DISCRIMINATOR :: bytes where
  "FEE_CONFIG_DISCRIMINATOR = [0x8f, 0x34, 0x92, 0xbb, 0xdb, 0x7b, 0x4c, 0x9b]"

record fees =
  lp_fee :: int
  protocol_fee :: int
  creator_fee :: int

definition fees_total_bps :: "fees \<Rightarrow> int" where
  "fees_total_bps f = lp_fee f + protocol_fee f + creator_fee f"

record fee_tier =
  tier_threshold :: int
  tier_fees :: fees

record fee_config =
  config_status :: string
  config_admin :: string
  flat_fees :: fees
  fee_tiers :: "fee_tier list"
  stable_fee_tiers :: "fee_tier list"
  config_detail :: string

definition config_ok :: "fee_config \<Rightarrow> bool" where
  "config_ok c \<longleftrightarrow> config_status c = ''OK''"

definition no_fees :: fees where
  "no_fees = \<lparr>lp_fee = 0, protocol_fee = 0, creator_fee = 0\<rparr>"

definition config_blocked :: "string \<Rightarrow> fee_config" where
  "config_blocked detail =
     \<lparr>config_status = ''DATA_BLOCKED'', config_admin = '''', flat_fees = no_fees, fee_tiers = [],
      stable_fee_tiers = [], config_detail = detail\<rparr>"

definition read_fees :: "bytes \<Rightarrow> nat \<Rightarrow> fees \<times> nat" where
  "read_fees data offset =
     (\<lparr>lp_fee = le_val (slice offset (offset + 8) data),
       protocol_fee = le_val (slice (offset + 8) (offset + 16) data),
       creator_fee = le_val (slice (offset + 16) (offset + 24) data)\<rparr>, offset + 24)"

fun read_tier_rows :: "nat \<Rightarrow> bytes \<Rightarrow> nat \<Rightarrow> fee_tier list \<times> nat" where
  "read_tier_rows 0 data offset = ([], offset)"
| "read_tier_rows (Suc n) data offset =
     (let threshold = le_val (slice offset (offset + 16) data);
          (row_fees, after_fees) = read_fees data (offset + 16);
          (rest, end_offset) = read_tier_rows n data after_fees
      in (\<lparr>tier_threshold = threshold, tier_fees = row_fees\<rparr> # rest, end_offset))"

definition read_tiers :: "bytes \<Rightarrow> nat \<Rightarrow> string + fee_tier list \<times> nat" where
  "read_tiers data offset =
     (if length data < offset + 4 then Inl ''truncated before tier count''
      else
        let n = nat (le_val (slice offset (offset + 4) data))
        in if 4096 < n
           then Inl (''implausible tier count '' @ nat_str n @ ''; layout is out of step'')
           else if length data < offset + 4 + n * 40
           then Inl (''account holds '' @ nat_str (length data) @ '' bytes, '' @ nat_str n
                     @ '' tiers need more'')
           else Inr (read_tier_rows n data (offset + 4)))"

definition parse_fee_config :: "string \<Rightarrow> (bytes \<Rightarrow> string) \<Rightarrow> bytes \<Rightarrow> fee_config" where
  "parse_fee_config idl_status pubkey_str data =
     (if idl_status \<noteq> ''OK'' then config_blocked idl_status
      else if length data < 41 + 24 + 8
      then config_blocked (''account is '' @ nat_str (length data) @ '' bytes, too short for FeeConfig'')
      else if slice 0 8 data \<noteq> FEE_CONFIG_DISCRIMINATOR
      then config_blocked (''discriminator '' @ hex_str (slice 0 8 data) @ '' is not a FeeConfig'')
      else
        let (flat, offset) = read_fees data 41
        in case read_tiers data offset of
             Inl exc \<Rightarrow> config_blocked (''malformed FeeConfig: '' @ exc)
           | Inr (tiers, offset') \<Rightarrow>
               (case read_tiers data offset' of
                  Inl exc \<Rightarrow> config_blocked (''malformed FeeConfig: '' @ exc)
                | Inr (stables, _) \<Rightarrow>
                    if tiers = [] then config_blocked ''FeeConfig carries no tiers''
                    else \<lparr>config_status = ''OK'', config_admin = pubkey_str (slice 9 41 data),
                          flat_fees = flat, fee_tiers = tiers, stable_fee_tiers = stables,
                          config_detail = ''''\<rparr>))"

definition bonding_curve_market_cap :: "int \<Rightarrow> int \<Rightarrow> int \<Rightarrow> int option" where
  "bonding_curve_market_cap mint_supply vsol vtoken =
     (if vtoken \<le> 0 \<or> mint_supply \<le> 0 \<or> vsol < 0 then None
      else Some ((vsol * mint_supply) div vtoken))"

definition pool_market_cap :: "int \<Rightarrow> int \<Rightarrow> int \<Rightarrow> int option" where
  "pool_market_cap base_mint_supply base_reserve quote_reserve =
     (if base_reserve \<le> 0 \<or> base_mint_supply \<le> 0 \<or> quote_reserve < 0 then None
      else Some ((quote_reserve * base_mint_supply) div base_reserve))"

definition calculate_fee_tier :: "fee_tier list \<Rightarrow> int \<Rightarrow> fees option" where
  "calculate_fee_tier tiers market_cap =
     (case tiers of [] \<Rightarrow> None
      | first # _ \<Rightarrow>
          if market_cap < tier_threshold first then Some (tier_fees first)
          else case find (\<lambda>t. tier_threshold t \<le> market_cap) (rev tiers) of
                 Some t \<Rightarrow> Some (tier_fees t)
               | None \<Rightarrow> Some (tier_fees first))"

subsection \<open>The tier row as a codec\<close>

definition encode_fees :: "fees \<Rightarrow> bytes" where
  "encode_fees f = le_bytes 8 (lp_fee f) @ le_bytes 8 (protocol_fee f) @ le_bytes 8 (creator_fee f)"

definition encode_tier :: "fee_tier \<Rightarrow> bytes" where
  "encode_tier t = le_bytes 16 (tier_threshold t) @ encode_fees (tier_fees t)"

definition fees_valid :: "fees \<Rightarrow> bool" where
  "fees_valid f \<longleftrightarrow> (\<forall>v \<in> {lp_fee f, protocol_fee f, creator_fee f}. 0 \<le> v \<and> v < 256 ^ 8)"

definition tier_valid :: "fee_tier \<Rightarrow> bool" where
  "tier_valid t \<longleftrightarrow> 0 \<le> tier_threshold t \<and> tier_threshold t < 256 ^ 16 \<and> fees_valid (tier_fees t)"

text \<open>One row read off the front of the data, by the code's own readers.\<close>

definition decode_tier :: "bytes \<Rightarrow> (fee_tier \<times> bytes) option" where
  "decode_tier data =
     (if length data < 40 then None
      else Some (hd (fst (read_tier_rows 1 data 0)), drop 40 data))"

lemma length_encode_fees [simp]: "length (encode_fees f) = 24"
  by (simp add: encode_fees_def)

lemma length_encode_tier [simp]: "length (encode_tier t) = 40"
  by (simp add: encode_tier_def)

lemma slice_drop: "slice i j (drop k xs) = slice (k + i) (k + j) xs"
  by (simp add: slice_def add.commute)

lemma read_fees_drop:
  "fst (read_fees (drop k data) i) = fst (read_fees data (k + i))"
  by (simp add: read_fees_def slice_drop add.assoc)

lemma snd_read_fees [simp]: "snd (read_fees data i) = i + 24"
  by (simp add: read_fees_def)

lemma read_fees_encode:
  assumes "fees_valid f" "length pre = i"
  shows "fst (read_fees (pre @ encode_fees f @ rest) i) = f"
  using assms by (simp add: read_fees_def encode_fees_def fees_valid_def byte_simps le_val_le_bytes)

lemma read_tier_rows_Suc:
  "read_tier_rows (Suc n) data i =
     (\<lparr>tier_threshold = le_val (slice i (i + 16) data), tier_fees = fst (read_fees data (i + 16))\<rparr>
        # fst (read_tier_rows n data (i + 40)), snd (read_tier_rows n data (i + 40)))"
  by (cases "read_tier_rows n data (i + 40)") (simp add: Let_def read_fees_def add.commute)

interpretation tier_rows: stream_codec encode_tier decode_tier tier_valid
proof
  fix t rest assume v: "tier_valid t"
  have "fst (read_fees (encode_tier t @ rest) 16) = tier_fees t"
    using read_fees_encode [of "tier_fees t" "le_bytes 16 (tier_threshold t)" 16 rest] v
    by (simp add: tier_valid_def encode_tier_def)
  moreover have "le_val (slice 0 16 (encode_tier t @ rest)) = tier_threshold t"
    using v by (simp add: tier_valid_def encode_tier_def byte_simps le_val_le_bytes)
  ultimately show "decode_tier (encode_tier t @ rest) = Some (t, rest)"
    by (simp add: decode_tier_def read_tier_rows_Suc del: read_tier_rows.simps(2))
qed

text \<open>The loop over the rows is the row decoder run that many times.\<close>

lemma read_tier_rows_dec_n:
  "i + n * 40 \<le> length data \<Longrightarrow>
     tier_rows.dec_n n (drop i data)
       = Some (fst (read_tier_rows n data i), drop (i + n * 40) data)"
proof (induction n arbitrary: i)
  case (Suc n)
  have "decode_tier (drop i data)
      = Some (\<lparr>tier_threshold = le_val (slice i (i + 16) data),
               tier_fees = fst (read_fees data (i + 16))\<rparr>, drop (i + 40) data)"
    using Suc.prems
    by (simp add: decode_tier_def read_tier_rows_Suc read_fees_drop slice_drop drop_drop add.commute
        del: read_tier_rows.simps(2))
  moreover have "tier_rows.dec_n n (drop (i + 40) data)
      = Some (fst (read_tier_rows n data (i + 40)), drop (i + 40 + n * 40) data)"
    using Suc.prems by (intro Suc.IH) simp
  ultimately show ?case by (simp add: read_tier_rows_Suc add_ac del: read_tier_rows.simps(2))
qed simp

lemma snd_read_tier_rows: "snd (read_tier_rows n data i) = i + n * 40"
  by (induction n arbitrary: i) (simp_all add: read_tier_rows_Suc del: read_tier_rows.simps(2))

lemma length_read_tier_rows: "length (fst (read_tier_rows n data i)) = n"
  by (induction n arbitrary: i) (simp_all add: read_tier_rows_Suc del: read_tier_rows.simps(2))

definition encode_tiers :: "fee_tier list \<Rightarrow> bytes" where
  "encode_tiers ts = le_bytes 4 (int (length ts)) @ concat (map encode_tier ts)"

lemma length_concat_tiers: "length (concat (map encode_tier ts)) = length ts * 40"
  by (induction ts) simp_all

lemma read_tiers_encode:
  assumes "list_all tier_valid ts" "length ts \<le> 4096" "length pre = i"
  shows "read_tiers (pre @ encode_tiers ts @ rest) i = Inr (ts, i + 4 + length ts * 40)"
proof -
  let ?data = "pre @ encode_tiers ts @ rest"
  have n: "nat (le_val (slice i (i + 4) ?data)) = length ts"
    using assms by (simp add: encode_tiers_def byte_simps le_val_le_bytes)
  have len: "i + 4 + length ts * 40 \<le> length ?data"
    using assms by (simp add: encode_tiers_def length_concat_tiers)
  have "drop (i + 4) ?data = concat (map encode_tier ts) @ rest"
    using assms by (simp add: encode_tiers_def)
  then have "fst (read_tier_rows (length ts) ?data (i + 4)) = ts"
    using read_tier_rows_dec_n [OF len] tier_rows.dec_n_concat [OF assms(1), of rest] by simp
  then have "read_tier_rows (length ts) ?data (i + 4) = (ts, i + 4 + length ts * 40)"
    using snd_read_tier_rows [of "length ts" ?data "i + 4"] by (metis prod.collapse)
  then show ?thesis using assms(2) len by (simp add: read_tiers_def Let_def n)
qed

text \<open>The published account layout.\<close>

definition fee_config_account :: "u8 \<Rightarrow> bytes \<Rightarrow> fee_config \<Rightarrow> bytes" where
  "fee_config_account bump admin_key c =
     FEE_CONFIG_DISCRIMINATOR @ [bump] @ admin_key @ encode_fees (flat_fees c)
     @ encode_tiers (fee_tiers c) @ encode_tiers (stable_fee_tiers c)"

lemma parse_fee_config_account:
  assumes "length key = 32" "fees_valid (flat_fees c)" "config_ok c" "fee_tiers c \<noteq> []"
    "list_all tier_valid (fee_tiers c)" "length (fee_tiers c) \<le> 4096"
    "list_all tier_valid (stable_fee_tiers c)" "length (stable_fee_tiers c) \<le> 4096"
  shows "parse_fee_config ''OK'' pk (fee_config_account bump key c @ rest)
           = c\<lparr>config_admin := pk key, config_detail := ''''\<rparr>"
proof -
  define head where "head = FEE_CONFIG_DISCRIMINATOR @ [bump] @ key"
  define data where "data = fee_config_account bump key c @ rest"
  have data: "data = head @ encode_fees (flat_fees c) @ encode_tiers (fee_tiers c)
      @ encode_tiers (stable_fee_tiers c) @ rest"
    by (simp add: data_def head_def fee_config_account_def)
  have head: "length head = 41" using assms(1) by (simp add: head_def FEE_CONFIG_DISCRIMINATOR_def)
  have len: "length data = 41 + 24 + (4 + length (fee_tiers c) * 40)
      + (4 + length (stable_fee_tiers c) * 40) + length rest"
    by (simp add: data head encode_tiers_def length_concat_tiers)
  have disc: "slice 0 8 data = FEE_CONFIG_DISCRIMINATOR" and admin: "slice 9 41 data = key"
    using assms(1)
    by (simp_all add: data head_def slice_def FEE_CONFIG_DISCRIMINATOR_def)
  have flat: "read_fees data 41 = (flat_fees c, 65)"
    using read_fees_encode [OF assms(2) head] snd_read_fees [of data 41]
    by (metis data prod.collapse numeral_plus_numeral add_num_simps)
  have t1: "read_tiers data 65 = Inr (fee_tiers c, 69 + length (fee_tiers c) * 40)"
    using read_tiers_encode [OF assms(5,6), of "head @ encode_fees (flat_fees c)" 65
        "encode_tiers (stable_fee_tiers c) @ rest"] head
    by (simp add: data)
  have t2: "read_tiers data (69 + length (fee_tiers c) * 40)
      = Inr (stable_fee_tiers c, 73 + length (fee_tiers c) * 40 + length (stable_fee_tiers c) * 40)"
    using read_tiers_encode [OF assms(7,8), of "head @ encode_fees (flat_fees c) @ encode_tiers (fee_tiers c)"
        "69 + length (fee_tiers c) * 40" rest] head
    by (simp add: data encode_tiers_def length_concat_tiers)
  show ?thesis
    unfolding data_def [symmetric] parse_fee_config_def
    using assms(3,4) len by (simp add: disc admin flat t1 t2 config_ok_def)
qed


subsection \<open>Properties\<close>

lemma find_rev_last:
  assumes "find P (rev xs) = Some x"
  shows "\<exists>i<length xs. xs ! i = x \<and> P x \<and> (\<forall>j. i < j \<and> j < length xs \<longrightarrow> \<not> P (xs ! j))"
proof -
  obtain k where k: "k < length xs" "P (rev xs ! k)" "x = rev xs ! k" "\<And>j. j < k \<Longrightarrow> \<not> P (rev xs ! j)"
    using assms by (auto simp: find_Some_iff)
  let ?i = "length xs - Suc k"
  have "\<not> P (xs ! j)" if "?i < j" "j < length xs" for j
  proof -
    have "length xs - Suc j < k" using that k(1) by linarith
    then have "\<not> P (rev xs ! (length xs - Suc j))" by (rule k(4))
    moreover have "rev xs ! (length xs - Suc j) = xs ! j"
      using that by (subst rev_nth) (auto simp: Suc_diff_Suc)
    ultimately show ?thesis by simp
  qed
  moreover have "xs ! ?i = x" using k(1,3) by (simp add: rev_nth)
  ultimately show ?thesis using k(1,2,3) by (intro exI [of _ ?i]) auto
qed

text \<open>
  On an ascending table the selected fees are those of the highest tier the market cap has
  reached, or of the first tier when it has reached none: every later tier lies above the cap.
\<close>

lemma calculate_fee_tier_highest:
  assumes "tiers \<noteq> []" "sorted (map tier_threshold tiers)"
  shows "\<exists>i < length tiers. calculate_fee_tier tiers cap = Some (tier_fees (tiers ! i))
    \<and> (tier_threshold (tiers ! i) \<le> cap \<or> i = 0)
    \<and> (\<forall>j. i < j \<and> j < length tiers \<longrightarrow> cap < tier_threshold (tiers ! j))"
proof -
  obtain first others where tiers: "tiers = first # others" using assms(1) by (cases tiers) auto
  show ?thesis
  proof (cases "cap < tier_threshold first")
    case True
    have "cap < tier_threshold (tiers ! j)" if "j < length tiers" for j
    proof -
      have "map tier_threshold tiers ! 0 \<le> map tier_threshold tiers ! j"
        using that by (intro sorted_nth_mono [OF assms(2)]) auto
      then have "tier_threshold (tiers ! 0) \<le> tier_threshold (tiers ! j)"
        using that by (simp only: nth_map length_map tiers length_Cons zero_less_Suc)
      then show ?thesis using True by (simp add: tiers)
    qed
    then have "\<forall>j. 0 < j \<and> j < length tiers \<longrightarrow> cap < tier_threshold (tiers ! j)" by blast
    moreover have "calculate_fee_tier tiers cap = Some (tier_fees (tiers ! 0))" "0 < length tiers"
      using True by (simp_all add: calculate_fee_tier_def tiers)
    ultimately show ?thesis by blast
  next
    case False
    let ?P = "\<lambda>t. tier_threshold t \<le> cap"
    have "find ?P (rev tiers) \<noteq> None" using False by (auto simp: find_None_iff tiers)
    then obtain t where t: "find ?P (rev tiers) = Some t" by blast
    have "calculate_fee_tier tiers cap = Some (tier_fees t)"
      using False t by (simp add: calculate_fee_tier_def tiers)
    moreover obtain i where "i < length tiers" "tiers ! i = t" "?P t"
      "\<forall>j. i < j \<and> j < length tiers \<longrightarrow> \<not> ?P (tiers ! j)"
      using find_rev_last [OF t] by blast
    ultimately show ?thesis by (intro exI [of _ i]) auto
  qed
qed

text \<open>
  An account in the published layout, with up to 4096 tiers in each table and at least one in
  the first, decodes to the configuration it was written from, whatever follows it in the account.
\<close>

lemma parse_fee_config_roundtrip:
  assumes "length key = 32" "fees_valid (flat_fees c)" "config_ok c" "fee_tiers c \<noteq> []"
    "list_all tier_valid (fee_tiers c)" "length (fee_tiers c) \<le> 4096"
    "list_all tier_valid (stable_fee_tiers c)" "length (stable_fee_tiers c) \<le> 4096"
  shows "parse_fee_config ''OK'' pk (fee_config_account bump key c @ rest)
           = c\<lparr>config_admin := pk key, config_detail := ''''\<rparr>"
  using assms by (rule parse_fee_config_account)

end
