(* ===== verification/PumpFees.thy ===== *)
theory PumpFees
  imports PumpCurve PumpFeeConfig "HOL-Library.Product_Lexorder"
begin

text \<open>
  \<open>execution/pump_fees.py\<close> and \<open>pump_curve.resolve_fee_bps\<close>: the one fee function.  A fee is a number
  with its schedule, or an explicit refusal.  The operator's tier file arrives as the rows its JSON
  holds (\<open>None\<close> when it cannot be read); the clock is an argument.
\<close>

definition FEE_SCHEDULE_VERSION :: string where "FEE_SCHEDULE_VERSION = ''pump-fees-v2''"
definition LEGACY_TOTAL_FEE_BPS :: int where "LEGACY_TOTAL_FEE_BPS = 100"
definition VENUE_BONDING_CURVE :: string where "VENUE_BONDING_CURVE = ''pump_bonding_curve''"

text \<open>2026-09-01 20:00:00 UTC.\<close>

definition DYNAMIC_FEE_ACTIVATION_UTC :: pyfloat where
  "DYNAMIC_FEE_ACTIVATION_UTC = 1788292800"

record cap_tier =
  max_market_cap_lamports :: "int option"
  tier_protocol_bps :: int
  tier_creator_bps :: int
  tier_lp_bps :: int

definition tier_total_bps :: "cap_tier \<Rightarrow> int" where
  "tier_total_bps t = tier_protocol_bps t + tier_creator_bps t + tier_lp_bps t"

record fee_quote =
  fee_status :: string
  quote_total_bps :: int
  quote_protocol_bps :: int
  quote_creator_bps :: int
  quote_lp_bps :: int
  schedule_version :: string
  tier_index :: "nat option"
  fee_reason :: string

definition fee_ok :: "fee_quote \<Rightarrow> bool" where
  "fee_ok q \<longleftrightarrow> fee_status q = ''OK''"

definition fee_lamports :: "fee_quote \<Rightarrow> int \<Rightarrow> string + int" where
  "fee_lamports q notional =
     (if \<not> fee_ok q then Inl (''fee is '' @ fee_status q @ '': '' @ fee_reason q)
      else Inr ((notional * quote_total_bps q) div 10000))"

definition fee_blocked :: "string \<Rightarrow> string \<Rightarrow> fee_quote" where
  "fee_blocked reason version =
     \<lparr>fee_status = ''DATA_BLOCKED'', quote_total_bps = 0, quote_protocol_bps = 0, quote_creator_bps = 0,
      quote_lp_bps = 0, schedule_version = version, tier_index = None, fee_reason = reason\<rparr>"

record fee_schedule =
  dynamic_tiers :: "(string, cap_tier list) dict"
  activation_utc :: pyfloat
  fee_version :: string
  fee_source :: string
  chain_tiers :: "fee_tier list"
  chain_source :: string

definition default_schedule :: fee_schedule where
  "default_schedule =
     \<lparr>dynamic_tiers = [], activation_utc = DYNAMIC_FEE_ACTIVATION_UTC, fee_version = FEE_SCHEDULE_VERSION,
      fee_source = ''builtin-legacy-only'', chain_tiers = [], chain_source = ''''\<rparr>"

text \<open>A row of the tier file; an absent key is \<open>None\<close>.\<close>

record tier_row =
  row_max :: "int option"
  row_protocol :: "int option"
  row_creator :: "int option"
  row_lp :: "int option"

definition int_or_0 :: "int option \<Rightarrow> int" where
  "int_or_0 v = (case v of None \<Rightarrow> 0 | Some n \<Rightarrow> n)"

definition cap_tier_of_row :: "tier_row \<Rightarrow> cap_tier" where
  "cap_tier_of_row row =
     \<lparr>max_market_cap_lamports = row_max row, tier_protocol_bps = int_or_0 (row_protocol row),
      tier_creator_bps = int_or_0 (row_creator row), tier_lp_bps = int_or_0 (row_lp row)\<rparr>"

definition tier_sort_key :: "cap_tier \<Rightarrow> bool \<times> int" where
  "tier_sort_key t = (max_market_cap_lamports t = None, int_or_0 (max_market_cap_lamports t))"

definition add_venue :: "(string, cap_tier list) dict \<Rightarrow> string \<times> tier_row list \<Rightarrow> (string, cap_tier list) dict" where
  "add_venue tiers item =
     (let parsed = sort_key tier_sort_key (map cap_tier_of_row (snd item))
      in if parsed \<noteq> [] then dput (fst item) parsed tiers else tiers)"

definition tiers_of_rows :: "(string, tier_row list) dict \<Rightarrow> (string, cap_tier list) dict" where
  "tiers_of_rows raw = foldl add_venue [] raw"

definition load_schedule ::
    "(string \<Rightarrow> (string, tier_row list) dict option) \<Rightarrow> string option \<Rightarrow> string \<Rightarrow> fee_schedule" where
  "load_schedule read_json path env_path =
     (let location = (case path of None \<Rightarrow> env_path | Some p \<Rightarrow> if p = '''' then env_path else p)
      in if location = '''' then default_schedule
         else case read_json location of
                None \<Rightarrow> default_schedule
              | Some raw \<Rightarrow> default_schedule\<lparr>dynamic_tiers := tiers_of_rows raw, fee_source := location\<rparr>)"

definition adopt_chain_config :: "fee_schedule \<Rightarrow> fee_config option \<Rightarrow> string \<Rightarrow> fee_schedule \<times> bool" where
  "adopt_chain_config s config source =
     (case config of
        None \<Rightarrow> (s, False)
      | Some c \<Rightarrow>
          if \<not> config_ok c \<or> fee_tiers c = [] then (s, False)
          else (s\<lparr>chain_tiers := fee_tiers c, chain_source := source\<rparr>, True))"

definition is_dynamic :: "fee_schedule \<Rightarrow> pyfloat \<Rightarrow> bool" where
  "is_dynamic s at_utc \<longleftrightarrow> activation_utc s \<le> at_utc"

definition cap_unobserved :: "int option \<Rightarrow> bool" where
  "cap_unobserved cap = (case cap of None \<Rightarrow> True | Some c \<Rightarrow> c < 0)"

definition below_tier :: "int \<Rightarrow> cap_tier \<Rightarrow> bool" where
  "below_tier cap t = (case max_market_cap_lamports t of None \<Rightarrow> True | Some m \<Rightarrow> cap < m)"

text \<open>The loop over the file's brackets: the first one the market cap is below.\<close>

fun quote_brackets :: "string \<Rightarrow> int \<Rightarrow> nat \<Rightarrow> cap_tier list \<Rightarrow> fee_quote" where
  "quote_brackets version cap index [] =
     fee_blocked ''market cap above every loaded tier and no open-ended tier exists'' version"
| "quote_brackets version cap index (t # ts) =
     (if below_tier cap t
      then \<lparr>fee_status = ''OK'', quote_total_bps = tier_total_bps t, quote_protocol_bps = tier_protocol_bps t,
            quote_creator_bps = tier_creator_bps t, quote_lp_bps = tier_lp_bps t,
            schedule_version = version @ '':dynamic'', tier_index = Some index, fee_reason = ''''\<rparr>
      else quote_brackets version cap (Suc index) ts)"

definition legacy_quote :: "fee_schedule \<Rightarrow> fee_quote" where
  "legacy_quote s =
     \<lparr>fee_status = ''OK'', quote_total_bps = LEGACY_TOTAL_FEE_BPS, quote_protocol_bps = LEGACY_TOTAL_FEE_BPS,
      quote_creator_bps = 0, quote_lp_bps = 0,
      schedule_version = fee_version s @ '':legacy_flat_'' @ int_str LEGACY_TOTAL_FEE_BPS @ ''bps'',
      tier_index = None, fee_reason = ''''\<rparr>"

definition chain_quote :: "fee_schedule \<Rightarrow> fees \<Rightarrow> fee_quote" where
  "chain_quote s selected =
     \<lparr>fee_status = ''OK'', quote_total_bps = fees_total_bps selected, quote_protocol_bps = protocol_fee selected,
      quote_creator_bps = creator_fee selected, quote_lp_bps = lp_fee selected,
      schedule_version = fee_version s @ '':chain:'' @ chain_source s, tier_index = None, fee_reason = ''''\<rparr>"

definition fee_quote_at :: "fee_schedule \<Rightarrow> string \<Rightarrow> int option \<Rightarrow> pyfloat option \<Rightarrow> fee_quote" where
  "fee_quote_at s venue cap at_utc =
     (case at_utc of
        None \<Rightarrow> fee_blocked ''no_timestamp_supplied'' (fee_version s)
      | Some t \<Rightarrow>
          if \<not> is_dynamic s t then legacy_quote s
          else if chain_tiers s \<noteq> [] then
            (if cap_unobserved cap
             then fee_blocked ''market cap not observed; dynamic fee depends on it'' (fee_version s)
             else case calculate_fee_tier (chain_tiers s) (int_or_0 cap) of
                    None \<Rightarrow> fee_blocked ''on-chain fee config carries no tiers'' (fee_version s)
                  | Some selected \<Rightarrow> chain_quote s selected)
          else
            let tiers = dget_or (dynamic_tiers s) venue []
            in if tiers = [] then
                 fee_blocked (''dynamic schedule active for '' @ venue @ '' but no tiers available; ''
                   @ ''read the on-chain FeeConfig account (the source of truth) and ''
                   @ ''pass it to adopt_chain_config, or set PUMP_FEE_TIERS_PATH'') (fee_version s)
               else if cap_unobserved cap
               then fee_blocked ''market cap not observed; dynamic fee depends on it'' (fee_version s)
               else quote_brackets (fee_version s) (int_or_0 cap) 0 tiers)"

definition round_trip_bps ::
    "fee_schedule \<Rightarrow> string \<Rightarrow> int option \<Rightarrow> int option \<Rightarrow> pyfloat option \<Rightarrow> pyfloat option
       \<Rightarrow> string \<times> int \<times> fee_quote \<times> fee_quote" where
  "round_trip_bps s venue entry_cap exit_cap entry_utc exit_utc =
     (let entry = fee_quote_at s venue entry_cap entry_utc;
          exit_leg = fee_quote_at s venue exit_cap exit_utc
      in if \<not> fee_ok entry then (''DATA_BLOCKED'', 0, entry, exit_leg)
         else if \<not> fee_ok exit_leg then (''DATA_BLOCKED'', 0, entry, exit_leg)
         else (''OK'', quote_total_bps entry + quote_total_bps exit_leg, entry, exit_leg))"

record trip_cost =
  cost_status :: string
  cost_assumed :: bool
  entry_cost :: pyfloat
  exit_cost :: pyfloat
  cost_bps :: "int option"
  cost_reason :: "string option"
  cost_version :: string
  cost_market_cap :: "int option"

definition curve_market_cap :: "curve_state option \<Rightarrow> int option" where
  "curve_market_cap state =
     (case state of
        None \<Rightarrow> None
      | Some c \<Rightarrow>
          if 0 < virtual_sol_reserves c
          then Some ((token_total_supply c * virtual_sol_reserves c) div max 1 (virtual_token_reserves c))
          else None)"

definition round_trip_cost ::
    "fee_schedule \<Rightarrow> curve_state option \<Rightarrow> pyfloat option \<Rightarrow> pyfloat \<Rightarrow> pyfloat \<Rightarrow> pyfloat \<Rightarrow> trip_cost" where
  "round_trip_cost s state at_utc now assumed_entry assumed_exit =
     (let utc = (case at_utc of None \<Rightarrow> now | Some t \<Rightarrow> t);
          cap = curve_market_cap state;
          (status, bps, entry, exit_leg) = round_trip_bps s VENUE_BONDING_CURVE cap cap (Some utc) (Some utc)
      in if status = ''OK'' then
           let leg = fdiv (int_div bps 2) 10000
           in \<lparr>cost_status = ''OK'', cost_assumed = False, entry_cost = leg, exit_cost = leg,
               cost_bps = Some bps, cost_reason = None, cost_version = schedule_version entry,
               cost_market_cap = cap\<rparr>
         else
           \<lparr>cost_status = ''DATA_BLOCKED_FEE_SCHEDULE'', cost_assumed = True, entry_cost = assumed_entry,
            exit_cost = assumed_exit, cost_bps = None,
            cost_reason = Some (if fee_reason entry \<noteq> '''' then fee_reason entry else fee_reason exit_leg),
            cost_version = fee_version s, cost_market_cap = cap\<rparr>)"

text \<open>\<open>pump_curve.resolve_fee_bps\<close>.\<close>

definition resolve_fee_bps :: "fee_schedule \<Rightarrow> pyfloat option \<Rightarrow> int option \<Rightarrow> string \<Rightarrow> string \<times> int \<times> string" where
  "resolve_fee_bps s at_utc cap venue =
     (let q = fee_quote_at s venue cap at_utc
      in if fee_ok q then (''OK'', quote_total_bps q, schedule_version q)
         else (fee_status q, 0, fee_reason q))"


subsection \<open>Loaded tables\<close>

definition well_loaded :: "(string, cap_tier list) dict \<Rightarrow> bool" where
  "well_loaded d \<longleftrightarrow> (\<forall>venue tiers. dget d venue = Some tiers \<longrightarrow>
      tiers \<noteq> [] \<and> sorted (map tier_sort_key tiers))"

lemma well_loaded_tiers_of_rows: "well_loaded (tiers_of_rows raw)"
proof -
  have put: "well_loaded (dput venue ts d)"
    if "well_loaded d" "ts \<noteq> []" "sorted (map tier_sort_key ts)" for d venue ts
    unfolding well_loaded_def
  proof (intro allI impI)
    fix v tiers assume "dget (dput venue ts d) v = Some tiers"
    then show "tiers \<noteq> [] \<and> sorted (map tier_sort_key tiers)"
      using that by (cases "v = venue") (simp_all add: well_loaded_def)
  qed
  have step: "well_loaded (add_venue d item)" if "well_loaded d" for d item
  proof (cases "sort_key tier_sort_key (map cap_tier_of_row (snd item)) = []")
    case True
    then show ?thesis using that by (simp only: add_venue_def Let_def if_True if_False simp_thms)
  next
    case False
    then have "well_loaded (dput (fst item) (sort_key tier_sort_key (map cap_tier_of_row (snd item))) d)"
      by (rule put [OF that]) (rule sorted_sort_key)
    then show ?thesis using False by (simp only: add_venue_def Let_def if_True simp_thms)
  qed
  have "well_loaded (foldl add_venue d raw)" if "well_loaded d" for d
    using that by (induction raw arbitrary: d) (simp_all add: step)
  moreover have "well_loaded []" by (simp add: well_loaded_def)
  ultimately show ?thesis unfolding tiers_of_rows_def by blast
qed

lemma load_schedule_facts:
  "well_loaded (dynamic_tiers (load_schedule rd path env))" "chain_tiers (load_schedule rd path env) = []"
proof -
  have "well_loaded []" by (simp add: well_loaded_def)
  then show "well_loaded (dynamic_tiers (load_schedule rd path env))"
    by (auto simp: load_schedule_def Let_def default_schedule_def well_loaded_tiers_of_rows split: option.split)
  show "chain_tiers (load_schedule rd path env) = []"
    by (auto simp: load_schedule_def Let_def default_schedule_def split: option.split)
qed

lemma quote_brackets_ok:
  assumes "fee_ok (quote_brackets v cap k ts)"
  shows "\<exists>i < length ts. tier_index (quote_brackets v cap k ts) = Some (k + i)
     \<and> quote_total_bps (quote_brackets v cap k ts) = tier_total_bps (ts ! i)
     \<and> below_tier cap (ts ! i) \<and> (\<forall>j < i. \<not> below_tier cap (ts ! j))"
  using assms
proof (induction v cap k ts rule: quote_brackets.induct)
  case (1 v cap k)
  then show ?case by (simp add: fee_ok_def fee_blocked_def)
next
  case (2 v cap k t ts)
  show ?case
  proof (cases "below_tier cap t")
    case True
    then show ?thesis by (intro exI [of _ 0]) simp
  next
    case False
    then have eq: "quote_brackets v cap k (t # ts) = quote_brackets v cap (Suc k) ts" by simp
    then obtain i where i: "i < length ts" "tier_index (quote_brackets v cap (Suc k) ts) = Some (Suc k + i)"
      "quote_total_bps (quote_brackets v cap (Suc k) ts) = tier_total_bps (ts ! i)"
      "below_tier cap (ts ! i)" "\<forall>j < i. \<not> below_tier cap (ts ! j)"
      using 2 False by auto
    have "\<not> below_tier cap ((t # ts) ! j)" if "j < Suc i" for j
      using i(5) False that by (cases j) auto
    then show ?thesis unfolding eq using i by (intro exI [of _ "Suc i"]) simp
  qed
qed

lemma fee_quote_at_legs:
  assumes "fee_ok (fee_quote_at s venue cap at_utc)"
  shows "quote_total_bps (fee_quote_at s venue cap at_utc)
           = quote_protocol_bps (fee_quote_at s venue cap at_utc)
             + quote_creator_bps (fee_quote_at s venue cap at_utc)
             + quote_lp_bps (fee_quote_at s venue cap at_utc)"
proof -
  have brackets: "quote_total_bps (quote_brackets v c k ts) = quote_protocol_bps (quote_brackets v c k ts)
      + quote_creator_bps (quote_brackets v c k ts) + quote_lp_bps (quote_brackets v c k ts)" for v c k ts
    by (induction v c k ts rule: quote_brackets.induct) (auto simp: fee_blocked_def tier_total_bps_def)
  show ?thesis
    by (auto simp: fee_quote_at_def legacy_quote_def chain_quote_def fees_total_bps_def fee_blocked_def
        Let_def brackets split: option.split)
qed

lemma fee_quote_at_observed:
  assumes "fee_ok (fee_quote_at s venue cap (Some t))" "activation_utc s \<le> t"
  shows "\<not> cap_unobserved cap"
  using assms by (auto simp: fee_quote_at_def is_dynamic_def fee_blocked_def fee_ok_def Let_def
      split: if_splits)

subsection \<open>Properties\<close>

text \<open>
  From the activation instant on, the fee quoted off an operator's table is that of the tightest
  bracket the market cap is below, in whatever order the file listed the brackets.
\<close>

lemma loaded_bracket_tightest:
  assumes "s = load_schedule read_json path env_path" "activation_utc s \<le> t"
    and "fee_ok (fee_quote_at s venue (Some cap) (Some t))"
  shows "\<exists>tiers i. dget (dynamic_tiers s) venue = Some tiers \<and> i < length tiers
    \<and> tier_index (fee_quote_at s venue (Some cap) (Some t)) = Some i
    \<and> quote_total_bps (fee_quote_at s venue (Some cap) (Some t)) = tier_total_bps (tiers ! i)
    \<and> below_tier cap (tiers ! i)
    \<and> (\<forall>b \<in> set tiers. below_tier cap b \<longrightarrow> tier_sort_key (tiers ! i) \<le> tier_sort_key b)"
proof -
  have chain: "chain_tiers s = []" and load: "well_loaded (dynamic_tiers s)"
    using load_schedule_facts assms(1) by simp_all
  define tiers where "tiers = dget_or (dynamic_tiers s) venue []"
  have ne: "tiers \<noteq> []" and cap: "0 \<le> cap"
    and q: "fee_quote_at s venue (Some cap) (Some t) = quote_brackets (fee_version s) cap 0 tiers"
    using assms(2,3) chain
    by (auto simp: fee_quote_at_def is_dynamic_def Let_def cap_unobserved_def int_or_0_def fee_blocked_def
        fee_ok_def tiers_def split: if_splits)
  have get: "dget (dynamic_tiers s) venue = Some tiers"
    using ne by (auto simp: tiers_def dget_or_def split: option.splits)
  then have sorted: "sorted (map tier_sort_key tiers)" using load by (auto simp: well_loaded_def)
  obtain i where i: "i < length tiers" "tier_index (quote_brackets (fee_version s) cap 0 tiers) = Some i"
    "quote_total_bps (quote_brackets (fee_version s) cap 0 tiers) = tier_total_bps (tiers ! i)"
    "below_tier cap (tiers ! i)" "\<forall>j < i. \<not> below_tier cap (tiers ! j)"
    using quote_brackets_ok [OF assms(3) [unfolded q]] by auto
  have "tier_sort_key (tiers ! i) \<le> tier_sort_key (tiers ! j)" if "j < length tiers" "below_tier cap (tiers ! j)" for j
  proof -
    have "i \<le> j" using i(5) that(2) by (meson not_le)
    then show ?thesis using sorted_nth_mono [OF sorted] that(1) i(1) by (metis length_map nth_map)
  qed
  then have "\<forall>b \<in> set tiers. below_tier cap b \<longrightarrow> tier_sort_key (tiers ! i) \<le> tier_sort_key b"
    by (metis in_set_conv_nth)
  with get i show ?thesis unfolding q by blast
qed

definition sample_rows :: "(string, tier_row list) dict" where
  "sample_rows =
     [(''pump_bonding_curve'',
        [\<lparr>row_max = None, row_protocol = Some 30, row_creator = None, row_lp = None\<rparr>,
         \<lparr>row_max = Some 1000000, row_protocol = Some 95, row_creator = Some 5, row_lp = None\<rparr>])]"

definition sample_schedule :: fee_schedule where
  "sample_schedule = load_schedule (\<lambda>_. Some sample_rows) (Some ''tiers.json'') ''''"

lemma sample_schedule_eq:
  "sample_schedule = default_schedule\<lparr>fee_source := ''tiers.json'', dynamic_tiers :=
     [(''pump_bonding_curve'',
        [\<lparr>max_market_cap_lamports = Some 1000000, tier_protocol_bps = 95, tier_creator_bps = 5, tier_lp_bps = 0\<rparr>,
         \<lparr>max_market_cap_lamports = None, tier_protocol_bps = 30, tier_creator_bps = 0, tier_lp_bps = 0\<rparr>])]\<rparr>"
  by (simp add: sample_schedule_def load_schedule_def sample_rows_def tiers_of_rows_def add_venue_def cap_tier_of_row_def
      tier_sort_key_def int_or_0_def less_eq_prod_def)

lemma sample_schedule_quote:
  "fee_ok (fee_quote_at sample_schedule ''pump_bonding_curve'' (Some 5) (Some 2000000000))"
  by (simp add: sample_schedule_eq default_schedule_def fee_quote_at_def is_dynamic_def fee_ok_def
      DYNAMIC_FEE_ACTIVATION_UTC_def cap_unobserved_def int_or_0_def dget_or_def below_tier_def)

text \<open>
  A round trip has a cost only when both legs were priced, and then it is the sum of all three
  fees of each leg; a leg priced from the activation instant on had an observed market cap.
\<close>

lemma round_trip_priced:
  assumes "round_trip_bps s venue cap_in cap_out (Some t_in) (Some t_out) = (''OK'', bps, entry, exit_leg)"
  shows "fee_ok entry \<and> fee_ok exit_leg
    \<and> bps = quote_protocol_bps entry + quote_creator_bps entry + quote_lp_bps entry
            + (quote_protocol_bps exit_leg + quote_creator_bps exit_leg + quote_lp_bps exit_leg)
    \<and> (activation_utc s \<le> t_in \<longrightarrow> \<not> cap_unobserved cap_in)
    \<and> (activation_utc s \<le> t_out \<longrightarrow> \<not> cap_unobserved cap_out)"
proof -
  have E: "entry = fee_quote_at s venue cap_in (Some t_in)" "exit_leg = fee_quote_at s venue cap_out (Some t_out)"
    "fee_ok entry" "fee_ok exit_leg" "bps = quote_total_bps entry + quote_total_bps exit_leg"
    using assms by (auto simp: round_trip_bps_def Let_def split: if_splits)
  then show ?thesis
    using fee_quote_at_legs [of s venue cap_in "Some t_in"] fee_quote_at_legs [of s venue cap_out "Some t_out"]
      fee_quote_at_observed [of s venue cap_in t_in] fee_quote_at_observed [of s venue cap_out t_out]
    by simp
qed

lemma legacy_round_trip:
  "round_trip_bps default_schedule venue None None (Some 0) (Some 0)
     = (''OK'', 200, legacy_quote default_schedule, legacy_quote default_schedule)"
  by (simp add: round_trip_bps_def fee_quote_at_def is_dynamic_def default_schedule_def fee_ok_def Let_def
      DYNAMIC_FEE_ACTIVATION_UTC_def legacy_quote_def LEGACY_TOTAL_FEE_BPS_def)

end
