(* ===== verification/DeskEntry.thy ===== *)
theory DeskEntry
  imports DeskExit ScreenPolicy RiskVeto Escape T0Kernel PumpFees
begin

text \<open>
  How the desk (\<open>main.py\<close>, \<open>runtime/capital_runtime.py\<close>) decides whether to enter a launch: the gates in
  their order, the size, the price of the entry and of a re-entry, and the contest for capital when the book is
  full.  What is known of the launch and what the market answers are arguments; the records written about a
  decision and the shadow runs are left out.
\<close>

subsection \<open>What is known of a launch\<close>

record launch_view =
  lv_chain :: string
  lv_token :: string
  lv_now :: pyfloat
  lv_today :: int
  lv_hazard_30s :: "pyfloat option"
  lv_p_rug_5m :: "pyfloat option"
  lv_report :: safety_report
  lv_dev_vetoes :: "string list"
  lv_connected :: "pyfloat option"
  lv_trained :: bool
  lv_liquidity :: pyfloat
  lv_prediction :: "prediction option"
  lv_champion_live :: bool
  lv_shrink :: "pyfloat option"
  lv_curve :: "curve_state option"
  lv_pool :: "pool_state option"
  lv_risk :: token_risk
  lv_latency :: landing_latency
  lv_entry_cost :: pyfloat
  lv_exit_cost :: pyfloat
  lv_sleeve :: string

text \<open>The arithmetic, the policies and the configured numbers a decision uses.\<close>

record desk_tools =
  to_numerics :: numerics
  to_math :: escape_math
  to_log1p :: "pyfloat \<Rightarrow> pyfloat"
  to_sum :: "pyfloat list \<Rightarrow> pyfloat"
  to_policy :: t0_policy
  to_native :: t0_native
  to_actions :: action_policy
  to_allocator :: allocator
  to_veto :: risk_veto
  to_acceptable_impact :: pyfloat
  to_assumed_latency :: pyfloat
  to_entry_cost :: pyfloat
  to_exit_cost :: pyfloat
  to_max_state_age :: pyfloat

record entry_desk =
  ed_desk :: desk
  ed_screens :: screen_policy
  ed_kernel :: t0_kernel

subsection \<open>Screens\<close>

definition VETO_RISK_LEVELS :: "string list" where
  "VETO_RISK_LEVELS = [''honeypot'', ''rugged'', ''critical'']"

definition RISK_LEVEL_SIZE :: "(string, pyfloat) dict" where
  "RISK_LEVEL_SIZE = [(''safe'', 1), (''low'', 1), (''medium'', fl (6 / 10)), (''high'', 1 / 4)]"

definition screen_readings :: "string \<Rightarrow> string \<Rightarrow> pyfloat option \<Rightarrow> screen_reading list" where
  "screen_readings level status p_rug =
     (if level \<in> set VETO_RISK_LEVELS then [screen_veto ''safety'' (''risk level '' @ level)]
      else if level \<noteq> ''''
      then [\<lparr>sr_name = ''safety'', sr_multiplier = dget_or RISK_LEVEL_SIZE level (1 / 2), sr_veto = False,
             sr_reason = ''risk level '' @ level, sr_confidence = 1\<rparr>]
      else [])
     @ (if status = ''DATA_BLOCKED''
        then [\<lparr>sr_name = ''safety_unmeasured'', sr_multiplier = fl (35 / 100), sr_veto = False,
               sr_reason = ''safety checks could not complete in time'', sr_confidence = 1\<rparr>]
        else [])
     @ [graded ''rug_hazard'' p_rug (fl (5 / 100)) (fl (60 / 100)) (fl (15 / 100)) (if p_rug = None then 0 else 1)]"

definition screen_entry :: "launch_view \<Rightarrow> screen_policy \<Rightarrow> screen_policy \<times> screen_outcome" where
  "screen_entry x P =
     screen (screen_readings (case risk_level (lv_report x) of None \<Rightarrow> '''' | Some level \<Rightarrow> level) (data_status (lv_report x))
       (lv_p_rug_5m x)) P"

definition apply_screen_size :: "sized_trade \<Rightarrow> screen_outcome \<Rightarrow> sized_trade" where
  "apply_screen_size t s =
     (if fl (999 / 1000) \<le> so_multiplier s then t
      else t\<lparr>tr_size_sol := fmul (tr_size_sol t) (so_multiplier s), tr_value_usd := fmul (tr_value_usd t) (so_multiplier s),
             tr_risk := fmul (tr_risk t) (so_multiplier s)\<rparr>)"

subsection \<open>The price of an entry\<close>

definition forward_of :: "desk_tools \<Rightarrow> prediction \<Rightarrow> return_bins" where
  "forward_of T p = map (\<lambda>(_, probability, gross). (probability, gross)) (probability_bins (to_numerics T) p)"

text \<open>The holding a size in SOL would give on the streamed curve.\<close>

definition probe_tokens :: "launch_view \<Rightarrow> pyfloat \<Rightarrow> int option" where
  "probe_tokens x size_sol =
     (case lv_curve x of
        None \<Rightarrow> None
      | Some s \<Rightarrow>
          let q = quote_buy s (py_trunc (fmul size_sol (10^9))) LEGACY_TOTAL_FEE_BPS
          in if output_amount q \<le> 0 \<or> \<not> quote_ok q then None else Some (output_amount q))"

definition probe_capacity :: "desk_tools \<Rightarrow> launch_view \<Rightarrow> int \<Rightarrow> pyfloat option" where
  "probe_capacity T x tokens =
     (case exit_capacity (lv_curve x) (lv_pool x) LEGACY_TOTAL_FEE_BPS (to_max_state_age T) (lv_now x) tokens (to_acceptable_impact T) of
        (status, ratio) \<Rightarrow> if starts_text ''OK'' status then Some ratio else None)"

text \<open>A probe carries no risk report, so no authority is known to be live.\<close>

definition probe_escape :: "desk_tools \<Rightarrow> launch_view \<Rightarrow> int \<Rightarrow> pyfloat option" where
  "probe_escape T x tokens =
     (let e = estimate_escape (to_math T) ((lv_risk x)\<lparr>tk_authority := False\<rparr>) (lv_curve x) (lv_pool x) LEGACY_TOTAL_FEE_BPS
                (to_max_state_age T) (lv_now x) (to_acceptable_impact T) (to_assumed_latency T) (lv_latency x) tokens
      in if ee_status e = ''OK'' then Some (ee_probability e) else None)"

text \<open>The costs are those of the fee schedule for the token; a re-entry pays the assumed ones.\<close>

definition probe_state :: "desk_tools \<Rightarrow> launch_view \<Rightarrow> prediction \<Rightarrow> pyfloat \<Rightarrow> int \<Rightarrow> position_state" where
  "probe_state T x p fraction tokens =
     \<lparr>held_fraction = 0, current_multiple = 1, forward_bins = forward_of T p, exit_cost = lv_exit_cost x, entry_cost = lv_entry_cost x,
      exit_capacity_ratio = probe_capacity T x tokens, escape_probability = probe_escape T x tokens, expected_remaining_seconds = None,
      alternative_growth = None, add_fraction = None, add_capacity_fraction = None, probe_fraction = Some fraction, reentry_bins = None,
      replacement_bins = None, replacement_fraction = None\<rparr>"

definition survival_of :: "prediction \<Rightarrow> survival_inputs" where
  "survival_of p =
     \<lparr>su_levels = map (\<lambda>(_, level, _). level p) SURVIVAL_LEVELS, su_p_rug_30s = p_rug_30s p, su_p_rug_5m = p_rug_5m p,
      su_feasible_multiple = feasible_multiple p\<rparr>"

text \<open>\<open>None\<close> in the answer: the entry is not priceable.  A policy that raises ends the evaluation (\<open>Inl\<close>).\<close>

definition score_entry ::
    "desk_tools \<Rightarrow> launch_view \<Rightarrow> prediction \<Rightarrow> sized_trade \<Rightarrow> pyfloat \<Rightarrow> t0_kernel \<Rightarrow> t0_kernel \<times> (string + t0_decision option)" where
  "score_entry T x p t equity K =
     (let book = max equity (fl (1 / 10^9))
      in if forward_of T p = [] \<or> tr_value_usd t \<le> 0 then (K, Inr None)
         else if lv_curve x = None \<or> tr_size_sol t \<le> 0 then (K, Inr None)
         else case probe_tokens x (tr_size_sol t) of
           None \<Rightarrow> (K, Inr None)
         | Some tokens \<Rightarrow>
             (case t0_score (to_policy T) (to_native T) (to_actions T)
                     (probe_state T x p (min 1 (fdiv (tr_value_usd t) book)) tokens) (Some (survival_of p)) 0
                     (virtual_sol_reserves (the (lv_curve x))) (virtual_token_reserves (the (lv_curve x))) K of
                (K, Inl e) \<Rightarrow> (K, Inl e)
              | (K, Inr (d, _)) \<Rightarrow> (K, Inr (Some d))))"

definition price_reentry_at :: "desk_tools \<Rightarrow> launch_view \<Rightarrow> prediction \<Rightarrow> sized_trade \<Rightarrow> pyfloat \<Rightarrow> reentry_book \<Rightarrow> reentry_verdict" where
  "price_reentry_at T x p t equity B =
     (let blocked = \<lambda>why. (plain_verdict (lv_token x) why)\<lparr>rv_status := ''DATA_BLOCKED''\<rparr>; book = max equity (fl (1 / 10^9))
      in if forward_of T p = [] \<or> tr_size_sol t \<le> 0 then blocked ''no sized forward distribution''
         else if lv_curve x = None then blocked ''no curve state; re-entry capacity unmeasurable''
         else case probe_tokens x (tr_size_sol t) of
           None \<Rightarrow> blocked ''re-entry buy unquotable''
         | Some tokens \<Rightarrow>
             price_reentry (to_sum T) (np_log (to_numerics T)) (lv_token x)
               \<lparr>of_bins = forward_of T p, of_size = min 1 (fdiv (tr_value_usd t) book), of_capital = tr_value_usd t,
                of_hold = (if expected_hold_time p = 0 then None else Some (expected_hold_time p)),
                of_liquidity = (if lv_liquidity x = 0 then None else Some (lv_liquidity x)),
                of_capacity = probe_capacity T x tokens, of_escape = probe_escape T x tokens, of_prediction_at = lv_now x,
                of_entry_cost = to_entry_cost T, of_exit_cost = to_exit_cost T\<rparr> B)"


subsection \<open>The contest for capital\<close>

text \<open>What is known of the held tokens: the prediction, the depth and the time held; and the market's answers.\<close>

record book_view =
  bv_prediction :: "string \<Rightarrow> prediction option"
  bv_liquidity :: "string \<Rightarrow> pyfloat option"
  bv_elapsed :: "string \<Rightarrow> pyfloat"
  bv_sleeve :: "string \<Rightarrow> string"
  bv_fill :: desk_fill
  bv_hazard :: "pyfloat option"
  bv_valuation :: book_valuation

definition reading_of :: "pyfloat option \<Rightarrow> reading" where
  "reading_of g = (case g of None \<Rightarrow> Nonfinite | Some x \<Rightarrow> Finite x)"

definition incumbent_opportunity :: "numerics \<Rightarrow> book_view \<Rightarrow> elogw_engine \<Rightarrow> string \<times> book_position \<Rightarrow> opportunity option" where
  "incumbent_opportunity N b E = (\<lambda>(token, pos).
     (case bv_prediction b token of
        None \<Rightarrow> None
      | Some p \<Rightarrow>
          if remaining_cost pos \<le> 0 then None
          else
            let multiple = (if high_water pos = 0 then 1 else high_water pos);
                held = (if 0 < portfolio_value E then fdiv (remaining_cost pos) (portfolio_value E) else 0);
                hold = expected_hold_time p
            in Some \<lparr>op_token = token, op_elogw = reading_of (marginal_log_growth N (settings E) p held multiple 0),
                 op_capital = Finite (remaining_cost pos),
                 op_hold = (if 0 < hold then Some (Finite (max 1 (fsub hold (max 0 (bv_elapsed b token))))) else None),
                 op_liquidity = (case bv_liquidity b token of None \<Rightarrow> None | Some l \<Rightarrow> if l = 0 then None else Some (Finite l)),
                 op_sleeve = bv_sleeve b token, op_open = True, op_held_multiple = multiple, op_kind = None, op_elogw_at = None\<rparr>))"

definition incumbent_opportunities :: "numerics \<Rightarrow> book_view \<Rightarrow> elogw_engine \<Rightarrow> opportunity list" where
  "incumbent_opportunities N b E =
     concat (map (\<lambda>kv. case incumbent_opportunity N b E kv of None \<Rightarrow> [] | Some x \<Rightarrow> [x]) (open_positions E))"

definition challenger_opportunity :: "numerics \<Rightarrow> launch_view \<Rightarrow> prediction \<Rightarrow> pyfloat \<Rightarrow> pyfloat \<Rightarrow> desk \<Rightarrow> opportunity" where
  "challenger_opportunity N x p growth size_sol D =
     (let book = max (dk_equity D) (fl (1 / 10^9)); cap = snd (exposure_cap (lv_liquidity x) None (dk_engine D))
      in \<lparr>op_token = lv_token x, op_elogw = Finite growth, op_capital = Finite (fmul size_sol (dk_sol_price D)),
          op_hold = (if 0 < expected_hold_time p then Some (Finite (expected_hold_time p)) else None),
          op_liquidity = Some (Finite (lv_liquidity x)), op_sleeve = lv_sleeve x, op_open = False, op_held_multiple = 1, op_kind = None,
          op_elogw_at = Some (\<lambda>usd. reading_of (log_growth_at_fraction N (settings (dk_engine D)) p (min (fdiv usd book) cap)))\<rparr>)"

text \<open>\<open>_feed_opportunity_quality\<close>.\<close>

definition feed_opportunity_quality :: "slate \<Rightarrow> elogw_engine \<Rightarrow> elogw_engine" where
  "feed_opportunity_quality s E =
     (let ranked = int (length (sl_ranked s)); blocked = int (length (sl_blocked s)); total = ranked + blocked
      in case slate_best s of
        None \<Rightarrow> observe_opportunity_set None 0 E
      | Some best \<Rightarrow>
          observe_opportunity_set
            (Some (fdiv (finite_or_0 (op_elogw best)) (max (fdiv (min_edge_bps (settings E)) 10000) (fl (1 / 10^9)))))
            (fdiv (float_of_int blocked) (float_of_int total)) E)"

text \<open>
  \<open>_contest_for_capital\<close>.  The counters of the ceilings that re-pricing moves are left out; \<open>Inl\<close> is a
  refusal.
\<close>

definition contest_for_capital ::
    "desk_tools \<Rightarrow> launch_view \<Rightarrow> book_view \<Rightarrow> prediction \<Rightarrow> desk \<Rightarrow> desk \<times> (string + sized_trade)" where
  "contest_for_capital T x b p D =
     (let N = to_numerics T;
          (E, growth, fraction, size_sol) = calculate_expected_log_growth N p (dk_sol_price D) (lv_liquidity x) None (dk_engine D);
          D = D\<lparr>dk_engine := E\<rparr>
      in case growth of
        None \<Rightarrow> (D, Inl ''DATA_BLOCKED_CHALLENGER_ELOGW'')
      | Some g \<Rightarrow>
          if size_sol \<le> 0 then (D, Inl ''DATA_BLOCKED_CHALLENGER_ELOGW'')
          else
            let challenger = challenger_opportunity N x p g size_sol D;
                incumbents = incumbent_opportunities N b E;
                cash = max 0 (fsub (dk_equity D) (py_sum N (map (\<lambda>i. fmul (finite_or_0 (op_capital i)) (op_held_multiple i)) incumbents)));
                s = rank (to_log1p T) (to_allocator T) (incumbents @ [challenger]) (Some (Finite cash)) (op_hold challenger);
                D = D\<lparr>dk_engine := feed_opportunity_quality s E\<rparr>
            in case List.find (\<lambda>d. op_token (dp_challenger d) = lv_token x) (sl_displacements s) of
                 None \<Rightarrow> (D, Inl ''no_incumbent_worth_displacing'')
               | Some move \<Rightarrow>
                   let held = op_token (dp_incumbent move)
                   in case execute_exit held (''displaced_by_'' @ lv_token x) (bv_fill b) (lv_today x) (lv_now x) (bv_hazard b) D of
                        Inl e \<Rightarrow> (D, Inl ''incumbent_closed_before_displacement'')
                      | Inr D \<Rightarrow>
                          if held \<in> set (dkeys (open_positions (dk_engine D))) then (D, Inl ''displacement_exit_did_not_fill'')
                          else
                            let D = refresh_portfolio (bv_valuation b) D;
                                (E, answer) = should_trade N (lv_trained x) (lv_today x) p (dk_sol_price D) (lv_liquidity x) (dk_equity D)
                                                (dk_engine D)
                            in (D\<lparr>dk_engine := E\<rparr>, answer))"

subsection \<open>The decision\<close>

definition CAPACITY_REJECTIONS :: "string list" where
  "CAPACITY_REJECTIONS = [''max_concurrent_positions'', ''total_exposure_limit'', ''portfolio_risk_limit'']"

text \<open>Not a candidate; refused by a gate; priced and declined; entered, after a contest or not; or a policy raised.\<close>

datatype entry_verdict = Skipped | Refused string | Declined string | Enters sized_trade bool | Raised string

definition veto_reason :: "veto_result \<Rightarrow> string" where
  "veto_reason v =
     (if veto_status v = VETO then ''safety_veto:'' @ comma_joined (reasons v)
      else ''DATA_BLOCKED_safety:'' @ comma_joined (unmeasured_checks v))"

definition launch_call :: "launch_view \<Rightarrow> veto_call" where
  "launch_call x = bare_call\<lparr>hard_vetoes := lv_dev_vetoes x, connected_holder_pct := lv_connected x\<rparr>"

definition measured_depth :: "desk_tools \<Rightarrow> launch_view \<Rightarrow> desk \<Rightarrow> pyfloat option" where
  "measured_depth T x D = curve_depth_usd (lv_curve x) (to_acceptable_impact T) (dk_sol_price D) LEGACY_TOTAL_FEE_BPS"

text \<open>The second question to the veto, at the size: the exit capacity of the size is not among its arguments.\<close>

definition sized_call :: "launch_view \<Rightarrow> sized_trade option \<Rightarrow> pyfloat option \<Rightarrow> veto_call" where
  "sized_call x t depth =
     (launch_call x)\<lparr>position_value_usd := map_option tr_value_usd t,
        liquidity_usd := (if 0 < lv_liquidity x then Some (lv_liquidity x) else None),
        depth_usd := (if t = None then None else depth)\<rparr>"

text \<open>Why the desk does not want the entry (none: it does), and at what size (none: not admitted to sizing).\<close>

type_synonym entry_stand = "string option \<times> sized_trade option"

definition size_launch :: "desk_tools \<Rightarrow> launch_view \<Rightarrow> prediction \<Rightarrow> screen_outcome \<Rightarrow> desk \<Rightarrow> desk \<times> entry_stand" where
  "size_launch T x p s D =
     (case admissible (lv_trained x) (lv_today x) p (dk_sol_price D) (lv_liquidity x) (dk_equity D) (dk_engine D) of
        (E, Some reason) \<Rightarrow> (D\<lparr>dk_engine := E\<rparr>, Some reason, None)
      | (E, None) \<Rightarrow>
          (let (E, t) = size_candidate (to_numerics T) p (dk_sol_price D) (lv_liquidity x) (lv_shrink x) (measured_depth T x D) E;
               t = apply_screen_size t s
           in (D\<lparr>dk_engine := E\<rparr>, portfolio_room (to_numerics T) t E, Some t)))"

definition price_launch ::
    "desk_tools \<Rightarrow> launch_view \<Rightarrow> prediction \<Rightarrow> entry_stand \<Rightarrow> entry_desk \<Rightarrow> entry_desk \<times> (string + entry_stand)" where
  "price_launch T x p stand S =
     (case stand of
        (None, Some t) \<Rightarrow>
          (case score_entry T x p t (dk_equity (ed_desk S)) (ed_kernel S) of
             (K, Inl e) \<Rightarrow> (S\<lparr>ed_kernel := K\<rparr>, Inl e)
           | (K, Inr None) \<Rightarrow> (S\<lparr>ed_kernel := K\<rparr>, Inr (Some ''entry_q_data_blocked'', Some t))
           | (K, Inr (Some d)) \<Rightarrow>
               (S\<lparr>ed_kernel := K\<rparr>,
                Inr (if td_status d \<noteq> ''OK'' then (Some ''entry_q_data_blocked'', Some t)
                     else if td_action d = IGNORE then (Some ''action_value_ignore'', Some t)
                     else if dget (rb_records (dk_book (ed_desk S))) (lv_token x) = None then (None, Some t)
                     else
                       let v = price_reentry_at T x p t (dk_equity (ed_desk S)) (dk_book (ed_desk S))
                       in if admitted_verdict v then (None, Some t) else (Some (''reentry_'' @ py_lower (rv_status v)), Some t))))
      | stand \<Rightarrow> (S, Inr stand))"

text \<open>The last question, for a launch declined by the limits of the book only.\<close>

definition settle_launch ::
    "desk_tools \<Rightarrow> launch_view \<Rightarrow> book_view \<Rightarrow> prediction \<Rightarrow> entry_stand \<Rightarrow> entry_desk \<Rightarrow> entry_desk \<times> entry_verdict" where
  "settle_launch T x b p stand S =
     (case stand of
        (None, Some t) \<Rightarrow> (S, Enters t False)
      | (None, None) \<Rightarrow> (S, Declined '''')
      | (Some why, t) \<Rightarrow>
          if why \<in> set CAPACITY_REJECTIONS
          then (case contest_for_capital T x b p (ed_desk S) of
                  (D, Inr t) \<Rightarrow> (S\<lparr>ed_desk := D\<rparr>, Enters t True)
                | (D, Inl reason) \<Rightarrow> (S\<lparr>ed_desk := D\<rparr>, Declined reason))
          else (S, Declined why))"

text \<open>A candidate that has reached its size: the size, the veto at the size, the price, the contest.\<close>

definition judge_launch ::
    "desk_tools \<Rightarrow> launch_view \<Rightarrow> book_view \<Rightarrow> prediction \<Rightarrow> screen_outcome \<Rightarrow> entry_desk \<Rightarrow> entry_desk \<times> entry_verdict" where
  "judge_launch T x b p s S =
     (let (D, stand) = size_launch T x p s (ed_desk S);
          sized = veto_evaluate (to_veto T) (lv_report x) (sized_call x (snd stand) (measured_depth T x (ed_desk S)));
          S = S\<lparr>ed_desk := D\<rparr>
      in if \<not> clear sized then (S, Refused (veto_reason sized))
         else case price_launch T x p stand S of
           (S, Inl e) \<Rightarrow> (S, Raised e)
         | (S, Inr stand) \<Rightarrow> settle_launch T x b p stand S)"

definition evaluate_candidate ::
    "desk_tools \<Rightarrow> launch_view \<Rightarrow> book_view \<Rightarrow> entry_desk \<Rightarrow> entry_desk \<times> entry_verdict" where
  "evaluate_candidate T x b S =
     (let token = lv_token x; D = ed_desk S
      in if lv_chain x \<noteq> ''solana'' \<or> token = '''' then (S, Skipped)
         else if token \<in> set (dkeys (open_positions (dk_engine D))) then (S, Skipped)
         else
           let (B, gate) = admits token (lv_now x) (lv_hazard_30s x) None (dk_book D);
               D = D\<lparr>dk_book := B\<rparr>; S = S\<lparr>ed_desk := D\<rparr>;
               hard = veto_evaluate (to_veto T) (lv_report x) (launch_call x);
               (P, s) = screen_entry x (ed_screens S)
           in if \<not> admitted_verdict gate then (S, Refused (''reentry_'' @ py_lower (rv_status gate)))
              else if \<not> clear hard then (S, Refused (veto_reason hard))
              else
                let S = S\<lparr>ed_screens := P\<rparr>
                in if screen_rejected s then (S, Refused (census_reason s))
                   else if \<not> lv_trained x then (S, Refused ''DATA_BLOCKED_prediction_model'')
                   else if lv_liquidity x \<le> 0 then (S, Refused ''DATA_BLOCKED_liquidity'')
                   else case lv_prediction x of
                     None \<Rightarrow> (S, Refused ''DATA_BLOCKED_prediction_model'')
                   | Some p \<Rightarrow>
                       if \<not> dk_dry_run D \<and> \<not> lv_champion_live x then (S, Refused ''champion_not_promoted_for_live_authority'')
                       else judge_launch T x b p s S)"

subsection \<open>What an entry has passed\<close>

text \<open>The limits of the book that an entry of this size is still within.\<close>

definition within_limits :: "numerics \<Rightarrow> sized_trade \<Rightarrow> elogw_engine \<Rightarrow> bool" where
  "within_limits N t E \<longleftrightarrow>
     \<not> kill_switch_active E \<and> 0 < portfolio_value E \<and> int (length (open_positions E)) < max_concurrent_positions (settings E)
     \<and> fadd (book_exposure N E) (tr_value_usd t) \<le> fmul (portfolio_value E) (max_total_exposure_pct (settings E))
     \<and> fadd (book_risk N E) (tr_risk t) \<le> max_portfolio_risk (settings E)"

definition open_for_trade :: "elogw_engine \<Rightarrow> bool" where
  "open_for_trade E \<longleftrightarrow>
     \<not> kill_switch_active E \<and> 0 < portfolio_value E \<and> int (length (open_positions E)) < max_concurrent_positions (settings E)"

lemma within_limits_room: "within_limits N t E \<longleftrightarrow> open_for_trade E \<and> portfolio_room N t E = None"
  by (auto simp: within_limits_def open_for_trade_def portfolio_room_def)

lemma admissible_fields:
  "open_positions (fst (admissible trained today p sol_price liquidity equity E)) = open_positions E
   \<and> settings (fst (admissible trained today p sol_price liquidity equity E)) = settings E"
proof -
  define R where "R = roll_day today (E\<lparr>portfolio_value := max 0 equity\<rparr>)"
  have "settings R = settings E" "open_positions R = open_positions E" by (simp_all add: R_def roll_day_def)
  then show ?thesis by (simp add: admissible_def R_def [symmetric] Let_def)
qed

lemma admissible_open: "admissible trained today p sol_price liquidity equity E = (E', None) \<Longrightarrow> open_for_trade E'"
  by (auto simp: admissible_def open_for_trade_def Let_def split: if_splits)

lemma same_book_open: "same_book E E' \<Longrightarrow> open_for_trade E \<Longrightarrow> open_for_trade E'"
  using same_book_fields by (simp add: open_for_trade_def)

lemma should_trade_within:
  assumes "should_trade N trained today p sol_price liquidity equity E = (E', Inr t)"
  shows "within_limits N t E' \<and> open_positions E' = open_positions E \<and> settings E' = settings E \<and> tr_shrink t = 1"
proof -
  obtain E1 where a: "admissible trained today p sol_price liquidity equity E = (E1, None)"
    using assms by (auto simp: should_trade_def split: prod.splits option.splits)
  obtain E2 t2 where z: "size_candidate N p sol_price liquidity None None E1 = (E2, t2)" by fastforce
  have same: "same_book E1 E2" using size_same [of E1 N p sol_price liquidity None None] z by simp
  have "E' = E2 \<and> t = t2 \<and> portfolio_room N t2 E2 = None"
    using assms a z by (auto simp: should_trade_def Let_def split: if_splits option.splits)
  moreover have "tr_shrink t2 = 1" using z by (auto simp: size_candidate_def Let_def split: prod.splits)
  moreover have "open_positions E1 = open_positions E" "settings E1 = settings E"
    using a admissible_fields [of trained today p sol_price liquidity equity E] by simp_all
  ultimately show ?thesis
    using same_book_fields [OF same] same_book_open [OF same admissible_open [OF a]] by (simp add: within_limits_room)
qed

lemma should_trade_fields:
  "open_positions (fst (should_trade N trained today p sol_price liquidity equity E)) = open_positions E
   \<and> settings (fst (should_trade N trained today p sol_price liquidity equity E)) = settings E"
proof -
  obtain E1 answer where a: "admissible trained today p sol_price liquidity equity E = (E1, answer)" by fastforce
  obtain E2 t2 where z: "size_candidate N p sol_price liquidity None None E1 = (E2, t2)" by fastforce
  have same: "same_book E1 E2" using size_same [of E1 N p sol_price liquidity None None] z by simp
  show ?thesis
    using admissible_fields [of trained today p sol_price liquidity equity E] a z same_book_fields [OF same]
    by (simp add: should_trade_def Let_def split: option.split)
qed

lemma size_launch_within:
  assumes "size_launch T x p s D = (D', None, Some t)"
  shows "within_limits (to_numerics T) t (dk_engine D')"
proof -
  obtain E1 where a: "admissible (lv_trained x) (lv_today x) p (dk_sol_price D) (lv_liquidity x) (dk_equity D) (dk_engine D) = (E1, None)"
    using assms by (auto simp: size_launch_def split: prod.splits option.splits)
  obtain E2 t2 where z: "size_candidate (to_numerics T) p (dk_sol_price D) (lv_liquidity x) (lv_shrink x) (measured_depth T x D) E1 = (E2, t2)"
    by fastforce
  have same: "same_book E1 E2"
    using size_same [of E1 "to_numerics T" p "dk_sol_price D" "lv_liquidity x" "lv_shrink x" "measured_depth T x D"] z by simp
  show ?thesis
    using assms a z same_book_open [OF same admissible_open [OF a]] by (auto simp: size_launch_def within_limits_room Let_def)
qed

lemma size_launch_fields:
  "open_positions (dk_engine (fst (size_launch T x p s D))) = open_positions (dk_engine D)
   \<and> settings (dk_engine (fst (size_launch T x p s D))) = settings (dk_engine D)
   \<and> dk_book (fst (size_launch T x p s D)) = dk_book D \<and> dk_equity (fst (size_launch T x p s D)) = dk_equity D"
proof -
  obtain E1 answer where a: "admissible (lv_trained x) (lv_today x) p (dk_sol_price D) (lv_liquidity x) (dk_equity D) (dk_engine D) = (E1, answer)"
    by fastforce
  obtain E2 t2 where z: "size_candidate (to_numerics T) p (dk_sol_price D) (lv_liquidity x) (lv_shrink x) (measured_depth T x D) E1 = (E2, t2)"
    by fastforce
  have same: "same_book E1 E2"
    using size_same [of E1 "to_numerics T" p "dk_sol_price D" "lv_liquidity x" "lv_shrink x" "measured_depth T x D"] z by simp
  show ?thesis
    using admissible_fields [of "lv_trained x" "lv_today x" p "dk_sol_price D" "lv_liquidity x" "dk_equity D" "dk_engine D"] a z
      same_book_fields [OF same]
    by (simp add: size_launch_def Let_def split: option.split)
qed

definition priced_entry :: "desk_tools \<Rightarrow> launch_view \<Rightarrow> prediction \<Rightarrow> sized_trade \<Rightarrow> entry_desk \<Rightarrow> bool" where
  "priced_entry T x p t S \<longleftrightarrow>
     (\<exists>K d. score_entry T x p t (dk_equity (ed_desk S)) (ed_kernel S) = (K, Inr (Some d)) \<and> td_status d = ''OK'' \<and> td_action d \<noteq> IGNORE)
     \<and> (dget (rb_records (dk_book (ed_desk S))) (lv_token x) \<noteq> None \<longrightarrow>
          admitted_verdict (price_reentry_at T x p t (dk_equity (ed_desk S)) (dk_book (ed_desk S))))"

lemma price_launch_priced:
  assumes "price_launch T x p stand S = (S', Inr (None, Some t))"
  shows "stand = (None, Some t) \<and> ed_desk S' = ed_desk S \<and> priced_entry T x p t S"
proof -
  obtain reason size1 where st: "stand = (reason, size1)" by fastforce
  have r: "reason = None" using assms st by (cases reason) (simp_all add: price_launch_def)
  then obtain t1 where t1: "stand = (None, Some t1)" using assms st by (cases size1) (simp_all add: price_launch_def)
  obtain K answer where k: "score_entry T x p t1 (dk_equity (ed_desk S)) (ed_kernel S) = (K, answer)" by fastforce
  obtain d where d: "answer = Inr (Some d)"
    using assms t1 k by (cases answer; auto simp: price_launch_def split: option.splits)
  have "S' = S\<lparr>ed_kernel := K\<rparr> \<and> td_status d = ''OK'' \<and> td_action d \<noteq> IGNORE \<and> t1 = t
    \<and> (dget (rb_records (dk_book (ed_desk S))) (lv_token x) \<noteq> None \<longrightarrow>
        admitted_verdict (price_reentry_at T x p t1 (dk_equity (ed_desk S)) (dk_book (ed_desk S))))"
    using assms unfolding t1 price_launch_def prod.case option.case k d sum.case Let_def
    by (simp split: if_splits)
  then show ?thesis using t1 k d by (auto simp: priced_entry_def)
qed

lemma price_launch_desk: "price_launch T x p stand S = (S', answer) \<Longrightarrow> ed_desk S' = ed_desk S"
  by (auto simp: price_launch_def split: prod.splits option.splits sum.splits)


subsection \<open>How many positions there can be\<close>

text \<open>Nothing but a purchase adds a position, and nothing changes the settings.\<close>

definition no_wider :: "desk \<Rightarrow> desk \<Rightarrow> bool" where
  "no_wider D D' \<longleftrightarrow>
     length (open_positions (dk_engine D')) \<le> length (open_positions (dk_engine D)) \<and> settings (dk_engine D') = settings (dk_engine D)"

lemma no_wider_refl: "no_wider D D"
  by (simp add: no_wider_def)

lemma no_wider_trans: "no_wider D D' \<Longrightarrow> no_wider D' D'' \<Longrightarrow> no_wider D D''"
  by (simp add: no_wider_def)

lemma length_dput_held: "dget d k = Some v \<Longrightarrow> length (dput k w d) = length d"
  using dget_None_iff [of d k] by (simp add: length_dput)

lemma update_pnl_settings: "settings (update_pnl today pnl E) = settings E"
proof -
  define R where "R = roll_day today E"
  have "settings R = settings E" by (simp add: R_def roll_day_def)
  then show ?thesis by (simp add: update_pnl_def R_def [symmetric] Let_def split: option.split)
qed

lemma refresh_no_wider: "no_wider D (refresh_portfolio v D)"
  by (simp add: refresh_portfolio_def no_wider_def Let_def split: option.split)

lemma mark_no_wider: "no_wider D (mark_position token multiple D)"
  by (auto simp: mark_position_def no_wider_def length_dput_held split: option.split)

lemma exit_no_wider:
  assumes "execute_exit token reason f today now hazard D = Inr D'"
  shows "no_wider D D'"
proof -
  obtain pos where pos: "dget (open_positions (dk_engine D)) token = Some pos"
    using assms by (auto simp: execute_exit_def split: option.splits)
  have len: "length (dpop token (dput token q (open_positions (dk_engine D)))) \<le> length (open_positions (dk_engine D))" for q
    using length_dput_held [OF pos, of q] length_delete_le [of token "dput token q (open_positions (dk_engine D))"] by simp
  have "\<exists>E. reduce_position token sold cost (update_pnl today pnl (dk_engine D)) = Some E
      \<and> length (open_positions E) \<le> length (open_positions (dk_engine D)) \<and> settings E = settings (dk_engine D)" for sold cost pnl
    using pos len length_dput_held [OF pos]
    by (simp add: reduce_position_def close_position_def update_pnl_settings Let_def)
  then obtain E where e: "reduce_position token (df_input f) (allocated_cost pos (df_input f))
        (update_pnl today (fsub (exit_proceeds f (dk_sol_price D)) (allocated_cost pos (df_input f))) (dk_engine D)) = Some E"
      "length (open_positions E) \<le> length (open_positions (dk_engine D))" "settings E = settings (dk_engine D)"
    by blast
  show ?thesis
    using assms pos e by (auto simp: execute_exit_def no_wider_def Let_def split: if_splits)
qed

lemma scale_in_no_wider: "no_wider D (consider_scale_in N x token snapshot v f D)"
proof (cases "dget (open_positions (dk_engine D)) token")
  case (Some pos)
  obtain D' answer where o1: "scale_in_order N x token pos snapshot v D = (D', answer)" by fastforce
  then have p: "open_positions (dk_engine D') = open_positions (dk_engine D)"
    using order_same [of D N x token pos snapshot v] by simp
  have fresh: "settings (dk_engine (refresh_portfolio v D)) = settings (dk_engine D)"
    using refresh_no_wider by (simp add: no_wider_def)
  have plan: "settings (fst (plan_scale_in N q held multiple liquidity equity E)) = settings E" for q held multiple liquidity equity E
    using same_book_fields [OF plan_same [where equity = equity and E = E]] by (simp split: option.splits)
  have "settings (dk_engine (fst (scale_in_order N x token pos snapshot v D))) = settings (dk_engine D)"
    by (simp add: scale_in_order_def Let_def case_prod_unfold fresh plan split: option.split)
  then have "settings (dk_engine D') = settings (dk_engine D)" using o1 by simp
  then show ?thesis
    using Some o1 p by (auto simp: consider_scale_in_def no_wider_def length_dput_held split: option.split)
qed (simp add: consider_scale_in_def no_wider_refl)

definition is_purchase :: "desk_event \<Rightarrow> bool" where
  "is_purchase e \<longleftrightarrow> (case e of DeskExit.Bought _ _ _ _ \<Rightarrow> True | _ \<Rightarrow> False)"

lemma desk_step_no_wider: "\<not> is_purchase e \<Longrightarrow> no_wider D (desk_step D e)"
proof (cases e)
  case (Questioned trained today p sol_price liquidity equity)
  then show ?thesis
    using admissible_fields [of trained today p sol_price liquidity equity "dk_engine D"] by (simp add: no_wider_def)
next
  case (Sold token reason f today now hazard)
  then show ?thesis by (auto simp: no_wider_refl split: sum.split intro: exit_no_wider)
next
  case (Progressed token)
  then show ?thesis by (simp add: no_wider_def)
qed (simp_all add: is_purchase_def refresh_no_wider mark_no_wider scale_in_no_wider)

lemma entry_one_wider:
  assumes "execute_entry token f intended risk D = Inr D'"
  shows "length (open_positions (dk_engine D')) \<le> Suc (length (open_positions (dk_engine D))) \<and> settings (dk_engine D') = settings (dk_engine D)"
  using assms by (auto simp: execute_entry_def update_position_def length_dput split: if_splits option.splits)

lemma contest_outcome:
  assumes "contest_for_capital T x b p D = (D', answer)"
  shows "no_wider D D' \<and> (\<forall>t. answer = Inr t \<longrightarrow> within_limits (to_numerics T) t (dk_engine D') \<and> tr_shrink t = 1)"
proof -
  let ?N = "to_numerics T"
  obtain E growth fraction size_sol
    where c: "calculate_expected_log_growth ?N p (dk_sol_price D) (lv_liquidity x) None (dk_engine D) = (E, growth, fraction, size_sol)"
    by (metis prod.exhaust)
  have same: "same_book (dk_engine D) E"
    using calculate_same [of "dk_engine D" ?N p "dk_sol_price D" "lv_liquidity x" None] c by simp
  define D1 where "D1 = D\<lparr>dk_engine := E\<rparr>"
  have n1: "no_wider D D1" using same_book_fields [OF same] by (simp add: no_wider_def D1_def)
  show ?thesis
  proof (cases "growth = None \<or> size_sol \<le> 0")
    case True
    then show ?thesis using assms c n1 by (auto simp: contest_for_capital_def D1_def Let_def split: option.splits if_splits)
  next
    case False
    then obtain g where g: "growth = Some g" "\<not> size_sol \<le> 0" by auto
    define challenger where "challenger = challenger_opportunity ?N x p g size_sol D1"
    define incumbents where "incumbents = incumbent_opportunities ?N b E"
    define s where "s = rank (to_log1p T) (to_allocator T) (incumbents @ [challenger])
      (Some (Finite (max 0 (fsub (dk_equity D1) (py_sum ?N (map (\<lambda>i. fmul (finite_or_0 (op_capital i)) (op_held_multiple i)) incumbents))))))
      (op_hold challenger)"
    define D2 where "D2 = D1\<lparr>dk_engine := feed_opportunity_quality s E\<rparr>"
    have "settings (feed_opportunity_quality s E) = settings E \<and> open_positions (feed_opportunity_quality s E) = open_positions E"
      by (simp add: feed_opportunity_quality_def observe_opportunity_set_def Let_def split: option.split)
    then have n2: "no_wider D D2" using n1 by (simp add: no_wider_def D1_def D2_def)
    let ?after = "\<lambda>D. (let D = refresh_portfolio (bv_valuation b) D;
        (E, answer) = should_trade ?N (lv_trained x) (lv_today x) p (dk_sol_price D) (lv_liquidity x) (dk_equity D) (dk_engine D)
      in (D\<lparr>dk_engine := E\<rparr>, answer))"
    have r: "contest_for_capital T x b p D =
       (case List.find (\<lambda>d. op_token (dp_challenger d) = lv_token x) (sl_displacements s) of
          None \<Rightarrow> (D2, Inl ''no_incumbent_worth_displacing'')
        | Some move \<Rightarrow>
            let held = op_token (dp_incumbent move)
            in case execute_exit held (''displaced_by_'' @ lv_token x) (bv_fill b) (lv_today x) (lv_now x) (bv_hazard b) D2 of
                 Inl e \<Rightarrow> (D2, Inl ''incumbent_closed_before_displacement'')
               | Inr D \<Rightarrow> if held \<in> set (dkeys (open_positions (dk_engine D))) then (D, Inl ''displacement_exit_did_not_fill'') else ?after D)"
      unfolding contest_for_capital_def c prod.case Let_def g(1) option.case D2_def s_def challenger_def incumbents_def D1_def
      by (simp only: g(2) if_False)
    have a: "no_wider D3 (fst (?after D3)) \<and> (\<forall>t. snd (?after D3) = Inr t \<longrightarrow> within_limits ?N t (dk_engine (fst (?after D3))) \<and> tr_shrink t = 1)"
      for D3
    proof -
      define D4 where "D4 = refresh_portfolio (bv_valuation b) D3"
      have n4: "no_wider D3 D4" unfolding D4_def by (rule refresh_no_wider)
      obtain E5 answer where e5: "should_trade ?N (lv_trained x) (lv_today x) p (dk_sol_price D4) (lv_liquidity x) (dk_equity D4) (dk_engine D4) = (E5, answer)"
        by fastforce
      have f: "?after D3 = (D4\<lparr>dk_engine := E5\<rparr>, answer)" by (simp only: D4_def [symmetric] Let_def e5 prod.case)
      have "no_wider D4 (D4\<lparr>dk_engine := E5\<rparr>)"
        using should_trade_fields [of ?N "lv_trained x" "lv_today x" p "dk_sol_price D4" "lv_liquidity x" "dk_equity D4" "dk_engine D4"] e5
        by (simp add: no_wider_def)
      then show ?thesis unfolding f using n4 should_trade_within e5 by (auto intro: no_wider_trans)
    qed
    show ?thesis
    proof (cases "List.find (\<lambda>d. op_token (dp_challenger d) = lv_token x) (sl_displacements s)")
      case None
      then show ?thesis using assms n2 unfolding r by auto
    next
      case (Some move)
      let ?held = "op_token (dp_incumbent move)"
      let ?exit = "execute_exit ?held (''displaced_by_'' @ lv_token x) (bv_fill b) (lv_today x) (lv_now x) (bv_hazard b) D2"
      show ?thesis
      proof (cases ?exit)
        case (Inl e)
        then show ?thesis using assms n2 Some unfolding r by auto
      next
        case (Inr D3)
        have n3: "no_wider D D3" using no_wider_trans [OF n2 exit_no_wider [OF Inr]] .
        show ?thesis
        proof (cases "?held \<in> set (dkeys (open_positions (dk_engine D3)))")
          case True
          then show ?thesis using assms n3 Some Inr unfolding r by auto
        next
          case False
          then have "?after D3 = (D', answer)" using assms Some Inr unfolding r by (simp del: set_map add: Let_def)
          then show ?thesis using a [of D3] n3 by (auto intro: no_wider_trans)
        qed
      qed
    qed
  qed
qed


text \<open>The state a candidate is sized in: the gate has looked at the book of exits, the screens have been counted.\<close>

definition screened :: "launch_view \<Rightarrow> entry_desk \<Rightarrow> entry_desk" where
  "screened x S =
     S\<lparr>ed_desk := (ed_desk S)\<lparr>dk_book := fst (admits (lv_token x) (lv_now x) (lv_hazard_30s x) None (dk_book (ed_desk S)))\<rparr>,
       ed_screens := fst (screen_entry x (ed_screens S))\<rparr>"

definition sized_in :: "desk_tools \<Rightarrow> launch_view \<Rightarrow> prediction \<Rightarrow> entry_desk \<Rightarrow> desk \<times> entry_stand" where
  "sized_in T x p S = size_launch T x p (snd (screen_entry x (ed_screens S))) (ed_desk (screened x S))"

lemma evaluate_enters:
  assumes "evaluate_candidate T x b S = (S', Enters t contested)"
  shows "lv_chain x = ''solana'' \<and> lv_token x \<notin> set (dkeys (open_positions (dk_engine (ed_desk S))))
    \<and> admitted_verdict (snd (admits (lv_token x) (lv_now x) (lv_hazard_30s x) None (dk_book (ed_desk S))))
    \<and> clear (veto_evaluate (to_veto T) (lv_report x) (launch_call x))
    \<and> \<not> screen_rejected (snd (screen_entry x (ed_screens S))) \<and> lv_trained x \<and> 0 < lv_liquidity x
    \<and> (\<exists>p S1 stand. lv_prediction x = Some p \<and> (dk_dry_run (ed_desk S) \<or> lv_champion_live x)
         \<and> clear (veto_evaluate (to_veto T) (lv_report x) (sized_call x (snd (snd (sized_in T x p S))) (measured_depth T x (ed_desk (screened x S)))))
         \<and> price_launch T x p (snd (sized_in T x p S)) ((screened x S)\<lparr>ed_desk := fst (sized_in T x p S)\<rparr>) = (S1, Inr stand)
         \<and> settle_launch T x b p stand S1 = (S', Enters t contested))"
proof -
  obtain B gate where g: "admits (lv_token x) (lv_now x) (lv_hazard_30s x) None (dk_book (ed_desk S)) = (B, gate)" by fastforce
  obtain P s where s: "screen_entry x (ed_screens S) = (P, s)" by fastforce
  define S0 where "S0 = S\<lparr>ed_desk := (ed_desk S)\<lparr>dk_book := B\<rparr>, ed_screens := P\<rparr>"
  have S0: "screened x S = S0" by (simp add: screened_def S0_def g s)
  have early: "lv_chain x = ''solana'' \<and> lv_token x \<noteq> '''' \<and> lv_token x \<notin> set (dkeys (open_positions (dk_engine (ed_desk S))))
    \<and> admitted_verdict gate \<and> clear (veto_evaluate (to_veto T) (lv_report x) (launch_call x)) \<and> \<not> screen_rejected s
    \<and> lv_trained x \<and> \<not> lv_liquidity x \<le> 0"
    using assms unfolding evaluate_candidate_def Let_def g s prod.case by (simp add: s del: set_map split: if_splits)
  then obtain p where p: "lv_prediction x = Some p"
    using assms unfolding evaluate_candidate_def Let_def g s prod.case by (simp add: s del: set_map split: option.splits)
  have live: "dk_dry_run (ed_desk S) \<or> lv_champion_live x"
    using assms early p unfolding evaluate_candidate_def Let_def g s prod.case by (simp add: s del: set_map split: if_splits)
  have j: "judge_launch T x b p s S0 = (S', Enters t contested)"
    using assms early live p unfolding evaluate_candidate_def Let_def g s prod.case by (simp add: s S0_def del: set_map split: if_splits)
  obtain D1 stand where z: "size_launch T x p s (ed_desk S0) = (D1, stand)" by (rule prod.exhaust)
  have "clear (veto_evaluate (to_veto T) (lv_report x) (sized_call x (snd stand) (measured_depth T x (ed_desk S0))))
    \<and> (\<exists>S1 stand'. price_launch T x p stand (S0\<lparr>ed_desk := D1\<rparr>) = (S1, Inr stand')
      \<and> settle_launch T x b p stand' S1 = (S', Enters t contested))"
    using j unfolding judge_launch_def z prod.case Let_def
    by (simp split: if_splits prod.splits sum.splits) (metis prod.collapse)
  moreover have "sized_in T x p S = (D1, stand)" by (simp add: sized_in_def S0 s z)
  ultimately show ?thesis
    using early live p by (simp add: g s S0 del: set_map)
qed

lemma entry_within:
  assumes "price_launch T x p (snd (sized_in T x p S)) ((screened x S)\<lparr>ed_desk := fst (sized_in T x p S)\<rparr>) = (S1, Inr stand)"
    "settle_launch T x b p stand S1 = (S', Enters t contested)"
  shows "within_limits (to_numerics T) t (dk_engine (ed_desk S')) \<and> (contested \<longrightarrow> tr_shrink t = 1) \<and>
      (\<not> contested \<longrightarrow> snd (sized_in T x p S) = (None, Some t) \<and> priced_entry T x p t ((screened x S)\<lparr>ed_desk := fst (sized_in T x p S)\<rparr>))"
proof (cases "fst stand")
  case None
  then have st: "stand = (None, Some t) \<and> S' = S1 \<and> \<not> contested"
    using assms(2) by (cases stand; cases "snd stand") (auto simp: settle_launch_def)
  then have "price_launch T x p (snd (sized_in T x p S)) ((screened x S)\<lparr>ed_desk := fst (sized_in T x p S)\<rparr>) = (S1, Inr (None, Some t))"
    using assms(1) by simp
  note priced = price_launch_priced [OF this]
  have "size_launch T x p (snd (screen_entry x (ed_screens S))) (ed_desk (screened x S)) = (fst (sized_in T x p S), None, Some t)"
    using priced by (metis prod.collapse sized_in_def)
  from size_launch_within [OF this] show ?thesis using priced st by simp
next
  case (Some why)
  then obtain D where "contest_for_capital T x b p (ed_desk S1) = (D, Inr t)" "S' = S1\<lparr>ed_desk := D\<rparr>" "contested"
    using assms(2) by (cases stand) (auto simp: settle_launch_def split: if_splits prod.splits sum.splits)
  then show ?thesis using contest_outcome by force
qed



subsection \<open>Entries in flight\<close>

text \<open>
  Several candidates are evaluated at once, as many as the semaphore (\<open>max_candidate_concurrency\<close>) lets in, and
  one the desk enters is in flight until its swap has come back; the limits have been looked at before.
\<close>

record flight =
  fd_state :: entry_desk
  fd_inflight :: "(string \<times> sized_trade) list"

datatype flight_event = Evaluated launch_view book_view | Landed nat desk_fill | Meanwhile desk_event

fun flight_step :: "nat \<Rightarrow> desk_tools \<Rightarrow> flight \<Rightarrow> flight_event \<Rightarrow> flight" where
  "flight_step permits T F (Evaluated x b) =
     (if permits \<le> length (fd_inflight F) then F
      else case evaluate_candidate T x b (fd_state F) of
        (S, Enters t _) \<Rightarrow> F\<lparr>fd_state := S, fd_inflight := fd_inflight F @ [(lv_token x, t)]\<rparr>
      | (S, _) \<Rightarrow> F\<lparr>fd_state := S\<rparr>)"
| "flight_step permits T F (Landed n f) =
     (if length (fd_inflight F) \<le> n then F
      else
        let (token, t) = fd_inflight F ! n; S = fd_state F;
            F = F\<lparr>fd_inflight := take n (fd_inflight F) @ drop (Suc n) (fd_inflight F)\<rparr>
        in case execute_entry token f (tr_value_usd t) (tr_risk t) (ed_desk S) of
             Inl _ \<Rightarrow> F | Inr D \<Rightarrow> F\<lparr>fd_state := S\<lparr>ed_desk := D\<rparr>\<rparr>)"
| "flight_step permits T F (Meanwhile e) =
     (if is_purchase e then F else F\<lparr>fd_state := (fd_state F)\<lparr>ed_desk := desk_step (ed_desk (fd_state F)) e\<rparr>\<rparr>)"

definition flight_bounded :: "nat \<Rightarrow> int \<Rightarrow> flight \<Rightarrow> bool" where
  "flight_bounded permits most F \<longleftrightarrow>
     max_concurrent_positions (settings (dk_engine (ed_desk (fd_state F)))) = most \<and> length (fd_inflight F) \<le> permits
     \<and> int (length (open_positions (dk_engine (ed_desk (fd_state F))))) + int (length (fd_inflight F)) \<le> max 0 (most - 1) + int permits"

lemma price_no_wider: "price_launch T x p stand S = (S', answer) \<Longrightarrow> no_wider (ed_desk S) (ed_desk S')"
  using price_launch_desk by (simp add: no_wider_def)

lemma settle_no_wider: "settle_launch T x b p stand S = (S', v) \<Longrightarrow> no_wider (ed_desk S) (ed_desk S')"
  by (auto simp: settle_launch_def no_wider_refl dest: contest_outcome split: if_splits prod.splits sum.splits option.splits)

lemma judge_no_wider: "judge_launch T x b p s S = (S', v) \<Longrightarrow> no_wider (ed_desk S) (ed_desk S')"
proof -
  assume j: "judge_launch T x b p s S = (S', v)"
  obtain D1 stand where z: "size_launch T x p s (ed_desk S) = (D1, stand)" by (rule prod.exhaust)
  have n1: "no_wider (ed_desk S) D1" using size_launch_fields [of T x p s "ed_desk S"] z by (simp add: no_wider_def)
  obtain S1 answer where q: "price_launch T x p stand (S\<lparr>ed_desk := D1\<rparr>) = (S1, answer)" by (rule prod.exhaust)
  have n2: "no_wider (ed_desk S) (ed_desk S1)" using no_wider_trans [OF n1] price_no_wider [OF q] by simp
  show ?thesis
    using j n1 n2 settle_no_wider no_wider_trans [OF n2]
    unfolding judge_launch_def z prod.case Let_def q by (auto split: if_splits sum.splits)
qed

lemma evaluate_no_wider: "evaluate_candidate T x b S = (S', v) \<Longrightarrow> no_wider (ed_desk S) (ed_desk S')"
proof -
  assume e: "evaluate_candidate T x b S = (S', v)"
  obtain B gate where g: "admits (lv_token x) (lv_now x) (lv_hazard_30s x) None (dk_book (ed_desk S)) = (B, gate)" by fastforce
  obtain P s where s: "screen_entry x (ed_screens S) = (P, s)" by fastforce
  have same: "no_wider (ed_desk S) ((ed_desk S)\<lparr>dk_book := B\<rparr>)" by (simp add: no_wider_def)
  have j: "no_wider (ed_desk S) (ed_desk S1)"
    if "judge_launch T x b p s (S\<lparr>ed_desk := (ed_desk S)\<lparr>dk_book := B\<rparr>, ed_screens := P\<rparr>) = (S1, v)" for p S1
    using no_wider_trans [OF same] judge_no_wider [OF that] by simp
  show ?thesis
    using e same unfolding evaluate_candidate_def Let_def g s prod.case
    by (simp add: s no_wider_refl del: set_map split: if_splits option.splits) (auto simp: no_wider_refl dest: j)
qed


lemma flight_step_bounded: "flight_bounded permits most F \<Longrightarrow> flight_bounded permits most (flight_step permits T F e)"
proof (cases e)
  case (Evaluated x b)
  assume F: "flight_bounded permits most F"
  obtain S v where v: "evaluate_candidate T x b (fd_state F) = (S, v)" by fastforce
  note n = evaluate_no_wider [OF v, unfolded no_wider_def]
  show ?thesis
  proof (cases "permits \<le> length (fd_inflight F)")
    case False
    show ?thesis
    proof (cases v)
      case (Enters t contested)
      have "within_limits (to_numerics T) t (dk_engine (ed_desk S))"
        using evaluate_enters [of T x b "fd_state F" S t contested] entry_within v Enters by blast
      then have "int (length (open_positions (dk_engine (ed_desk S)))) < max_concurrent_positions (settings (dk_engine (ed_desk S)))"
        by (simp add: within_limits_def)
      then show ?thesis using F n v Enters False Evaluated by (auto simp: flight_bounded_def)
    qed (use F n v False Evaluated in \<open>auto simp: flight_bounded_def\<close>)
  qed (use F Evaluated in simp)
next
  case (Landed k f)
  assume F: "flight_bounded permits most F"
  show ?thesis
  proof (cases "length (fd_inflight F) \<le> k")
    case False
    obtain token t where t: "fd_inflight F ! k = (token, t)" by fastforce
    show ?thesis
    proof (cases "execute_entry token f (tr_value_usd t) (tr_risk t) (ed_desk (fd_state F))")
      case (Inr D)
      then show ?thesis using F False t entry_one_wider [OF Inr] Landed by (auto simp: flight_bounded_def Let_def)
    qed (use F False t Landed in \<open>auto simp: flight_bounded_def Let_def\<close>)
  qed (use F Landed in simp)
next
  case (Meanwhile d)
  assume F: "flight_bounded permits most F"
  then show ?thesis using desk_step_no_wider [of d "ed_desk (fd_state F)"] Meanwhile by (auto simp: flight_bounded_def no_wider_def)
qed

interpretation flights: machine "flight_step permits T" "flight_bounded permits most" for permits T most
  by unfold_locales (rule flight_step_bounded)

text \<open>
  C13: How far the position limit can be overshot.  The limit is looked at when a candidate is decided and nothing is
  reserved for it, so it does not bound the positions; the semaphore does: starting with nothing held, held and
  in-flight positions together never exceed one less than the limit plus the candidates evaluated at once, whatever
  is decided, filled, sold or added in between.
\<close>
theorem positions_bounded_by_limit_and_permits:
  assumes "open_positions (dk_engine (ed_desk S)) = []" "most = max_concurrent_positions (settings (dk_engine (ed_desk S)))"
    and "F = run (flight_step permits T) \<lparr>fd_state = S, fd_inflight = []\<rparr> events"
  shows "int (length (open_positions (dk_engine (ed_desk (fd_state F))))) + int (length (fd_inflight F)) \<le> max 0 (most - 1) + int permits
    \<and> max_concurrent_positions (settings (dk_engine (ed_desk (fd_state F)))) = most"
proof -
  have "flight_bounded permits most \<lparr>fd_state = S, fd_inflight = []\<rparr>" using assms(1,2) by (simp add: flight_bounded_def)
  then have "flight_bounded permits most F" unfolding assms(3) by (rule flights.run_inv)
  then show ?thesis by (simp add: flight_bounded_def)
qed

subsection \<open>What the gates do not see\<close>

text \<open>
  With complete safety required no size is ever clear: the exit capacity the veto then asks for is not passed.
  Without it the capacity is not looked at.
\<close>

lemma sized_veto_never_complete:
  "''exit_capacity_ratio'' \<notin> set (blocked_checks r) \<Longrightarrow> require_complete_safety V \<Longrightarrow> \<not> clear (veto_evaluate V r (sized_call x (Some t) depth))"
  by (auto simp: veto_evaluate_def clear_def sized_call_def launch_call_def bare_call_def position_checks_def capacity_checks_def Let_def)

text \<open>The quarter size of a high risk level is for reports that could not be completed only: the veto refuses the others.\<close>

lemma high_risk_is_vetoed:
  "risk_level (lv_report x) = Some ''high'' \<Longrightarrow> data_status (lv_report x) = ''OK'' \<Longrightarrow>
     snd (evaluate_candidate T x b S) \<noteq> Enters t contested"
proof -
  assume r: "risk_level (lv_report x) = Some ''high''" "data_status (lv_report x) = ''OK''"
  then have "\<not> clear (veto_evaluate (to_veto T) (lv_report x) (launch_call x))"
    by (auto simp: veto_evaluate_def clear_def level_checks_def Let_def)
  then show ?thesis using evaluate_enters by (metis prod.collapse)
qed

text \<open>A contested entry takes the size of the engine as it is: the views' disagreement has not shrunk it.\<close>

lemma contested_entry_is_not_shrunk:
  assumes "evaluate_candidate T x b S = (S', Enters t True)"
  shows "tr_shrink t = 1"
  using evaluate_enters [OF assms] entry_within by blast


subsection \<open>Witnesses\<close>

definition calm_report :: safety_report where
  "calm_report = \<lparr>risk_level = None, risk_score = None, data_status = ''OK'', blocked_checks = [], can_mint = False, can_freeze = False,
     token_extensions = [], sell_route_feasible = Some True, price_impact = None\<rparr>"

definition young_curve :: curve_state where
  "young_curve = \<lparr>virtual_token_reserves = 8, virtual_sol_reserves = 1, real_token_reserves = 0, real_sol_reserves = 0,
     token_total_supply = 8, complete = False, creator = ''''\<rparr>"

definition calm_launch :: launch_view where
  "calm_launch = \<lparr>lv_chain = ''solana'', lv_token = ''T'', lv_now = 0, lv_today = 0, lv_hazard_30s = None, lv_p_rug_5m = None,
     lv_report = calm_report, lv_dev_vetoes = [], lv_connected = None, lv_trained = True, lv_liquidity = 5000,
     lv_prediction = Some sure_double, lv_champion_live = True, lv_shrink = None, lv_curve = Some young_curve, lv_pool = None,
     lv_risk = \<lparr>tk_signals = None, tk_unroutable = False, tk_authority = False\<rparr>, lv_latency = new_landing_latency 1 1,
     lv_entry_cost = 0, lv_exit_cost = 0, lv_sleeve = ''t0_sniper''\<rparr>"

definition plain_tools :: desk_tools where
  "plain_tools = \<lparr>to_numerics = plain_numerics, to_math = plain_math, to_log1p = (\<lambda>x. x), to_sum = (\<lambda>xs. 1),
     to_policy = (\<lambda>s. Inr \<lparr>td_status = ''OK'', td_action = PROBE, td_q = Plain 1, td_detail = ''''\<rparr>), to_native = (\<lambda>q. Inl ''absent''),
     to_actions = new_action_policy 0 0, to_allocator = new_allocator 0 1 1, to_veto = new_risk_veto False 1 1,
     to_acceptable_impact = 1, to_assumed_latency = 1, to_entry_cost = 0, to_exit_cost = 0, to_max_state_age = 30\<rparr>"

definition idle_book :: book_view where
  "idle_book = \<lparr>bv_prediction = (\<lambda>_. None), bv_liquidity = (\<lambda>_. None), bv_elapsed = (\<lambda>_. 0), bv_sleeve = (\<lambda>_. ''''),
     bv_fill = \<lparr>df_success = False, df_simulated = False, df_input = 0, df_output = 0, df_native_delta = 0\<rparr>, bv_hazard = None,
     bv_valuation = \<lparr>va_online = False, va_sol_quote = None, va_balance = 0, va_marks = (\<lambda>_ _. None)\<rparr>\<rparr>"

definition ready_engine :: elogw_engine where
  "ready_engine = plain_engine\<lparr>day_start_equity := 8\<rparr>"

definition idle_desk :: entry_desk where
  "idle_desk = \<lparr>ed_desk = (new_desk ready_engine (dk_book paper_desk) True 8 (dk_reserve paper_desk))\<lparr>dk_sol_price := 1, dk_equity := 8\<rparr>,
     ed_screens = new_screen_policy 0, ed_kernel = new_t0_kernel ''off'' 1 1 1 None\<rparr>"

lemma calm_fields:
  "lv_trained calm_launch" "lv_today calm_launch = 0" "lv_liquidity calm_launch = 5000" "lv_shrink calm_launch = None"
  "lv_token calm_launch = ''T''" "lv_chain calm_launch = ''solana''" "lv_prediction calm_launch = Some sure_double"
  "lv_curve calm_launch = Some young_curve" "to_numerics plain_tools = plain_numerics"
  by (simp_all add: calm_launch_def plain_tools_def)

lemma calm_veto: "clear (veto_evaluate (to_veto plain_tools) (lv_report calm_launch) (launch_call calm_launch))"
  "tr_value_usd t \<le> 8 \<Longrightarrow> clear (veto_evaluate (to_veto plain_tools) (lv_report calm_launch) (sized_call calm_launch (Some t) None))"
  by (simp_all add: clear_def veto_evaluate_def plain_tools_def new_risk_veto_def calm_launch_def calm_report_def launch_call_def sized_call_def
      bare_call_def native_checks_def dangerous_def sorted_set_def route_checks_def level_checks_def holder_checks_def position_checks_def
      depth_checks_def capacity_checks_def fmul_def fl_exact Let_def)

lemma calm_screen:
  obtains P where "screen_entry calm_launch (new_screen_policy 0)
    = (P, \<lparr>so_verdict = FULL, so_multiplier = 1, so_readings = [graded ''rug_hazard'' None (fl (5 / 100)) (fl (60 / 100)) (fl (15 / 100)) 0],
           so_reason = ''no screen reduced this''\<rparr>)"
proof -
  have "fl (999 / 1000) \<le> 1" by (rule fl_le_double) simp_all
  then show ?thesis
    using that
    by (simp add: screen_entry_def screen_readings_def VETO_RISK_LEVELS_def calm_launch_def calm_report_def screen_def composed_def
        effective_def unit_clip_def graded_def fmul_def fsub_def touch_def new_screen_policy_def Let_def)
qed

lemma calm_size:
  obtains D t where "size_launch plain_tools calm_launch sure_double
      \<lparr>so_verdict = FULL, so_multiplier = 1, so_readings = rows, so_reason = why\<rparr> ((ed_desk idle_desk)\<lparr>dk_book := B\<rparr>) = (D, None, Some t)"
    "tr_value_usd t = 2" "tr_size_sol t = 2" "dk_equity D = 8" "dk_book D = B"
proof -
  obtain E' where c: "calculate_expected_log_growth plain_numerics sure_double 1 5000 None ready_engine = (E', Some (- (3 / 4)), 1 / 4, 2)"
    by (rule sized_example [of ready_engine]) (simp_all add: ready_engine_def plain_engine_fields)
  have same: "same_book ready_engine E'"
    using calculate_same [of ready_engine plain_numerics sure_double 1 5000 None] c by simp
  have "fl (999 / 1000) \<le> 1" by (rule fl_le_double) simp_all
  moreover have a: "admissible True 0 sure_double 1 5000 8 ready_engine = (ready_engine, None)"
    by (simp add: admissible_def roll_day_def ready_engine_def plain_engine_def new_engine_def normal_settings_def plain_settings_def daily_loss_limit_def
        sure_double_def Let_def)
  moreover have "measured_depth plain_tools calm_launch D = None" for D
    by (simp add: measured_depth_def curve_depth_usd_def calm_launch_def young_curve_def)
  moreover obtain t where z: "size_candidate plain_numerics sure_double 1 5000 None None ready_engine = (E', t)" "tr_value_usd t = 2"
      "tr_size_sol t = 2" "tr_risk t = 0"
    using c by (simp add: size_candidate_def sure_double_def fmul_def fl_exact Let_def)
  moreover have "portfolio_room plain_numerics t E' = None"
    using z(2,4) same_book_fields [OF same]
    by (simp add: portfolio_room_def book_exposure_def book_risk_def plain_numerics_def ready_engine_def plain_engine_def new_engine_def
        normal_settings_def plain_settings_def fadd_def fmul_def fl_exact)
  ultimately have "size_launch plain_tools calm_launch sure_double
      \<lparr>so_verdict = FULL, so_multiplier = 1, so_readings = rows, so_reason = why\<rparr> ((ed_desk idle_desk)\<lparr>dk_book := B\<rparr>)
      = ((ed_desk idle_desk)\<lparr>dk_book := B, dk_engine := E'\<rparr>, None, Some t)"
    by (simp add: size_launch_def idle_desk_def new_desk_def apply_screen_size_def calm_fields Let_def)
  then show ?thesis using that z by (simp add: idle_desk_def)
qed


lemma calm_price:
  assumes "tr_value_usd t = 2" "tr_size_sol t = 2" "dk_equity (ed_desk S) = 8" "ed_kernel S = ed_kernel idle_desk"
    "rb_records (dk_book (ed_desk S)) = []"
  obtains S' where "price_launch plain_tools calm_launch sure_double (None, Some t) S = (S', Inr (None, Some t))" "ed_desk S' = ed_desk S"
proof -
  have "forward_of plain_tools sure_double \<noteq> []"
    using sure_bins(2) by (simp add: forward_of_def calm_fields)
  moreover have "probe_tokens calm_launch 2 = Some 7"
    by (simp add: probe_tokens_def calm_fields young_curve_def quote_buy_def tradeable_def quote_ok_def fmul_def fl_exact py_trunc_def
        LEGACY_TOTAL_FEE_BPS_def Let_def)
  moreover have "t0_kernel_mode (ed_kernel idle_desk) = T0_OFF"
    by (simp add: idle_desk_def new_t0_kernel_def t0_mode_of_def py_lower_def lower_char_def)
  ultimately obtain K d where "score_entry plain_tools calm_launch sure_double t 8 (ed_kernel S) = (K, Inr (Some d))" "td_status d = ''OK''"
      "td_action d = PROBE"
    using assms(1,2,4)
    by (simp add: score_entry_def calm_fields t0_score_def tagged_def plain_tools_def split_beta Let_def)
  then show ?thesis using that assms by (simp add: price_launch_def)
qed


theorem positions_bounded_by_limit_and_permits_witness:
  "int (length (open_positions (dk_engine (ed_desk (fd_state
      (run (flight_step 2 plain_tools) \<lparr>fd_state = idle_desk, fd_inflight = []\<rparr> [Evaluated calm_launch idle_book, Landed 0 (bv_fill idle_book)])))))) \<le> 2"
proof -
  have s: "open_positions (dk_engine (ed_desk idle_desk)) = []" "max_concurrent_positions (settings (dk_engine (ed_desk idle_desk))) = 1"
    by (simp_all add: idle_desk_def new_desk_def ready_engine_def plain_engine_def new_engine_def normal_settings_def plain_settings_def)
  show ?thesis
    using positions_bounded_by_limit_and_permits [OF s(1) refl refl, of 2 plain_tools "[Evaluated calm_launch idle_book, Landed 0 (bv_fill idle_book)]"]
    unfolding s(2) by simp
qed

end
