(* ===== verification/Idl.thy ===== *)
theory Idl
  imports PyText Interfaces
begin

text \<open>
  \<open>chains/idl.py\<close>: account lists, discriminators and arguments read out of the vendored IDLs.  The
  files are an argument (what \<open>load_idl\<close> returns), and so are the key library and the digest; an
  operation of the key library gives \<open>None\<close> when it raises, which is not an \<open>IdlError\<close>.
\<close>

subsection \<open>What an IDL holds\<close>

datatype idl_seed = Seed_const bytes | Seed_path string | Seed_other string
datatype idl_program = Program_const bytes | Program_account string | Program_other string

record idl_pda =
  pda_seeds :: "idl_seed list"
  pda_program :: "idl_program option"

record idl_account =
  acc_name :: string
  acc_address :: "string option"
  acc_pda :: "idl_pda option"
  acc_signer :: bool
  acc_writable :: bool

record idl_instruction =
  ins_name :: string
  ins_discriminator :: bytes
  ins_accounts :: "idl_account list"
  ins_args :: "string list"

record idl =
  idl_address :: "string option"
  idl_instructions :: "idl_instruction list"

record account_meta =
  pubkey :: string
  is_signer :: bool
  is_writable :: bool

text \<open>The errors, by what they name; \<open>Key_error\<close> is an exception of the key library.\<close>

datatype idl_error =
    Unavailable string
  | No_address string
  | No_instruction string string
  | Discriminator_mismatch string string bytes bytes
  | Seed_not_supplied string
  | Unsupported_seed string
  | Program_not_supplied string
  | Unsupported_program string
  | Not_supplied string string string
  | Cannot_resolve string string "string list"
  | Argument_count string string nat nat
  | Argument_range int
  | Key_error

record key_library =
  key_bytes :: "string \<Rightarrow> bytes option"
  key_text :: "bytes \<Rightarrow> string option"
  find_program_address :: "bytes list \<Rightarrow> string \<Rightarrow> string option"
  sha256 :: "bytes \<Rightarrow> bytes"

definition of_key :: "'a option \<Rightarrow> idl_error + 'a" where
  "of_key r = (case r of None \<Rightarrow> Inl Key_error | Some a \<Rightarrow> Inr a)"

definition program_id :: "(string \<Rightarrow> idl) \<Rightarrow> string \<Rightarrow> idl_error + string" where
  "program_id load name =
     (case idl_address (load name) of
        None \<Rightarrow> Inl (No_address name)
      | Some a \<Rightarrow> if a = '''' then Inl (No_address name) else Inr a)"

definition instruction :: "(string \<Rightarrow> idl) \<Rightarrow> string \<Rightarrow> string \<Rightarrow> idl_error + idl_instruction" where
  "instruction load idl_name instruction_name =
     (case List.find (\<lambda>e. ins_name e = instruction_name) (idl_instructions (load idl_name)) of
        None \<Rightarrow> Inl (No_instruction idl_name instruction_name)
      | Some e \<Rightarrow> Inr e)"

definition discriminator :: "key_library \<Rightarrow> (string \<Rightarrow> idl) \<Rightarrow> string \<Rightarrow> string \<Rightarrow> idl_error + bytes" where
  "discriminator lib load idl_name instruction_name =
     rbind (instruction load idl_name instruction_name) (\<lambda>e.
       let published = ins_discriminator e;
           derived = take 8 (sha256 lib (text_bytes (''global:'' @ instruction_name)))
       in if published \<noteq> derived then Inl (Discriminator_mismatch idl_name instruction_name published derived)
          else Inr published)"

definition account_names :: "(string \<Rightarrow> idl) \<Rightarrow> string \<Rightarrow> string \<Rightarrow> idl_error + string list" where
  "account_names load idl_name instruction_name =
     rbind (instruction load idl_name instruction_name) (\<lambda>e. Inr (map acc_name (ins_accounts e)))"

subsection \<open>Seeds and programs of a derived address\<close>

type_synonym keys = "(string, string) dict"

text \<open>\<open>supplied.get(path) or resolved.get(path)\<close>: an empty supplied value does not count.\<close>

definition lookup_path :: "keys \<Rightarrow> keys \<Rightarrow> string \<Rightarrow> string option" where
  "lookup_path supplied resolved path =
     (case dget supplied path of
        Some v \<Rightarrow> if v \<noteq> '''' then Some v else dget resolved path
      | None \<Rightarrow> dget resolved path)"

definition seed_bytes :: "key_library \<Rightarrow> keys \<Rightarrow> keys \<Rightarrow> idl_seed \<Rightarrow> idl_error + bytes" where
  "seed_bytes lib supplied resolved seed =
     (case seed of
        Seed_const b \<Rightarrow> Inr b
      | Seed_path path \<Rightarrow>
          (case lookup_path supplied resolved path of
             None \<Rightarrow> Inl (Seed_not_supplied path)
           | Some v \<Rightarrow> of_key (key_bytes lib v))
      | Seed_other kind \<Rightarrow> Inl (Unsupported_seed kind))"

definition pda_program_of :: "key_library \<Rightarrow> idl_pda \<Rightarrow> string \<Rightarrow> keys \<Rightarrow> keys \<Rightarrow> idl_error + string" where
  "pda_program_of lib pda own supplied resolved =
     (case pda_program pda of
        None \<Rightarrow> Inr own
      | Some (Program_const b) \<Rightarrow> of_key (key_text lib b)
      | Some (Program_account path) \<Rightarrow>
          (case lookup_path supplied resolved path of
             None \<Rightarrow> Inl (Program_not_supplied path)
           | Some v \<Rightarrow> Inr v)
      | Some (Program_other kind) \<Rightarrow> Inl (Unsupported_program kind))"

fun rmap :: "('a \<Rightarrow> 'e + 'b) \<Rightarrow> 'a list \<Rightarrow> 'e + 'b list" where
  "rmap f [] = Inr []"
| "rmap f (x # xs) = rbind (f x) (\<lambda>y. rbind (rmap f xs) (\<lambda>ys. Inr (y # ys)))"

definition derive :: "key_library \<Rightarrow> string \<Rightarrow> keys \<Rightarrow> keys \<Rightarrow> idl_pda \<Rightarrow> idl_error + bytes list \<times> string" where
  "derive lib own supplied resolved pda =
     rbind (pda_program_of lib pda own supplied resolved) (\<lambda>program.
       rbind (rmap (seed_bytes lib supplied resolved) (pda_seeds pda)) (\<lambda>seeds. Inr (seeds, program)))"

subsection \<open>Resolving the accounts\<close>

type_synonym pda_account = "string \<times> idl_pda"

text \<open>Sorting the accounts once: supplied, pinned, or waiting for derivation.\<close>

fun sort_accounts ::
    "string \<Rightarrow> string \<Rightarrow> keys \<Rightarrow> idl_account list \<Rightarrow> keys \<Rightarrow> pda_account list \<Rightarrow> idl_error + keys \<times> pda_account list" where
  "sort_accounts idl_name ins supplied [] resolved pending = Inr (resolved, pending)"
| "sort_accounts idl_name ins supplied (a # as) resolved pending =
     (case dget supplied (acc_name a) of
        Some v \<Rightarrow> sort_accounts idl_name ins supplied as (dput (acc_name a) v resolved) pending
      | None \<Rightarrow>
          (case acc_address a of
             Some v \<Rightarrow> sort_accounts idl_name ins supplied as (dput (acc_name a) v resolved) pending
           | None \<Rightarrow>
               (case acc_pda a of
                  Some p \<Rightarrow> sort_accounts idl_name ins supplied as resolved (pending @ [(acc_name a, p)])
                | None \<Rightarrow> Inl (Not_supplied idl_name ins (acc_name a)))))"

text \<open>One pass over the waiting accounts; an \<open>IdlError\<close> defers the account, any other one escapes.\<close>

fun resolve_pass ::
    "key_library \<Rightarrow> string \<Rightarrow> keys \<Rightarrow> pda_account list \<Rightarrow> keys \<Rightarrow> pda_account list \<Rightarrow> idl_error + keys \<times> pda_account list" where
  "resolve_pass lib own supplied [] resolved deferred = Inr (resolved, deferred)"
| "resolve_pass lib own supplied ((name, pda) # pending) resolved deferred =
     (case derive lib own supplied resolved pda of
        Inl Key_error \<Rightarrow> Inl Key_error
      | Inl _ \<Rightarrow> resolve_pass lib own supplied pending resolved (deferred @ [(name, pda)])
      | Inr (seeds, program) \<Rightarrow>
          (case find_program_address lib seeds program of
             None \<Rightarrow> Inl Key_error
           | Some address \<Rightarrow> resolve_pass lib own supplied pending (dput name address resolved) deferred))"

lemma resolve_pass_length:
  "resolve_pass lib own supplied pending resolved deferred = Inr (r, d)
     \<Longrightarrow> length d \<le> length deferred + length pending"
proof (induction lib own supplied pending resolved deferred rule: resolve_pass.induct)
  case (2 lib own supplied name pda pending resolved deferred)
  then show ?case by (fastforce split: sum.splits idl_error.splits option.splits prod.splits)
qed simp

function resolve_loop ::
    "key_library \<Rightarrow> string \<Rightarrow> string \<Rightarrow> string \<Rightarrow> keys \<Rightarrow> pda_account list \<Rightarrow> keys \<Rightarrow> idl_error + keys" where
  "resolve_loop lib idl_name ins own supplied pending resolved =
     (if pending = [] then Inr resolved
      else case resolve_pass lib own supplied pending resolved [] of
        Inl e \<Rightarrow> Inl e
      | Inr (resolved', deferred) \<Rightarrow>
          if length deferred = length pending
          then Inl (Cannot_resolve idl_name ins (sort (map fst deferred)))
          else resolve_loop lib idl_name ins own supplied deferred resolved')"
  by pat_completeness auto
termination
  by (relation "measure (\<lambda>(_, _, _, _, _, pending, _). length pending)")
    (auto dest: resolve_pass_length simp: le_neq_implies_less)

declare resolve_loop.simps [simp del]

definition meta_of :: "keys \<Rightarrow> idl_account \<Rightarrow> account_meta" where
  "meta_of resolved a =
     \<lparr>pubkey = the (dget resolved (acc_name a)), is_signer = acc_signer a, is_writable = acc_writable a\<rparr>"

definition build_accounts ::
    "key_library \<Rightarrow> string \<Rightarrow> (string \<Rightarrow> idl) \<Rightarrow> string \<Rightarrow> string \<Rightarrow> keys \<Rightarrow> idl_error + account_meta list" where
  "build_accounts lib status load idl_name ins supplied =
     (if status \<noteq> ''OK'' then Inl (Unavailable status)
      else rbind (instruction load idl_name ins) (\<lambda>entry.
        rbind (program_id load idl_name) (\<lambda>own.
          rbind (sort_accounts idl_name ins supplied (ins_accounts entry) [] []) (\<lambda>(resolved, pending).
            rbind (resolve_loop lib idl_name ins own supplied pending resolved) (\<lambda>resolved.
              Inr (map (meta_of resolved) (ins_accounts entry)))))))"

definition unresolvable :: "(string \<Rightarrow> idl) \<Rightarrow> string \<Rightarrow> string \<Rightarrow> keys \<Rightarrow> idl_error + string list" where
  "unresolvable load idl_name ins supplied =
     rbind (instruction load idl_name ins) (\<lambda>entry.
       Inr (map acc_name (filter (\<lambda>a. dget supplied (acc_name a) = None \<and> acc_address a = None \<and> acc_pda a = None)
              (ins_accounts entry))))"

subsection \<open>Arguments\<close>

fun encode_values :: "int list \<Rightarrow> idl_error + bytes" where
  "encode_values [] = Inr []"
| "encode_values (v # vs) =
     (if v < 0 \<or> 2 ^ 64 \<le> v then Inl (Argument_range v)
      else rbind (encode_values vs) (\<lambda>bs. Inr (le_bytes 8 v @ bs)))"

definition encode_u64_args :: "key_library \<Rightarrow> (string \<Rightarrow> idl) \<Rightarrow> string \<Rightarrow> string \<Rightarrow> int list \<Rightarrow> idl_error + bytes" where
  "encode_u64_args lib load idl_name ins values =
     rbind (instruction load idl_name ins) (\<lambda>entry.
       let u64_args = filter (\<lambda>t. t = ''u64'') (ins_args entry)
       in if length values \<noteq> length u64_args
          then Inl (Argument_count idl_name ins (length u64_args) (length values))
          else rbind (discriminator lib load idl_name ins) (\<lambda>disc.
            rbind (encode_values values) (\<lambda>bs. Inr (disc @ bs))))"

subsection \<open>What can be derived\<close>

text \<open>
  The specification of the resolution: the least set of names closed under the derivations whose
  seed paths and program are available.
\<close>

definition available :: "keys \<Rightarrow> string set \<Rightarrow> string \<Rightarrow> bool" where
  "available supplied K p \<longleftrightarrow> (\<exists>v. dget supplied p = Some v \<and> v \<noteq> '''') \<or> p \<in> K"

definition seed_ready :: "keys \<Rightarrow> string set \<Rightarrow> idl_seed \<Rightarrow> bool" where
  "seed_ready supplied K s =
     (case s of Seed_const _ \<Rightarrow> True | Seed_path p \<Rightarrow> available supplied K p | Seed_other _ \<Rightarrow> False)"

definition program_ready :: "keys \<Rightarrow> string set \<Rightarrow> idl_program option \<Rightarrow> bool" where
  "program_ready supplied K p =
     (case p of Some (Program_account path) \<Rightarrow> available supplied K path | Some (Program_other _) \<Rightarrow> False | _ \<Rightarrow> True)"

definition pda_ready :: "keys \<Rightarrow> string set \<Rightarrow> idl_pda \<Rightarrow> bool" where
  "pda_ready supplied K pda \<longleftrightarrow>
     program_ready supplied K (pda_program pda) \<and> list_all (seed_ready supplied K) (pda_seeds pda)"

inductive derivable :: "keys \<Rightarrow> string set \<Rightarrow> pda_account list \<Rightarrow> string \<Rightarrow> bool"
  for supplied base pdas where
  given: "n \<in> base \<Longrightarrow> derivable supplied base pdas n"
| derived: "(n, pda) \<in> set pdas \<Longrightarrow> pda_ready supplied K pda \<Longrightarrow> (\<And>k. k \<in> K \<Longrightarrow> derivable supplied base pdas k)
    \<Longrightarrow> derivable supplied base pdas n"

abbreviation names_of :: "keys \<Rightarrow> string set" where "names_of r \<equiv> dom (dget r)"

lemma available_mono: "available supplied K p \<Longrightarrow> K \<subseteq> L \<Longrightarrow> available supplied L p"
  by (auto simp: available_def)

lemma pda_ready_mono: "pda_ready supplied K pda \<Longrightarrow> K \<subseteq> L \<Longrightarrow> pda_ready supplied L pda"
  unfolding pda_ready_def program_ready_def seed_ready_def
  by (auto simp: list_all_iff intro: available_mono split: idl_seed.splits idl_program.splits option.splits)

lemma lookup_available:
  "lookup_path supplied r p = Some v \<Longrightarrow> available supplied (names_of r) p"
  "lookup_path supplied r p = None \<Longrightarrow> \<not> available supplied (names_of r) p"
  by (auto simp: lookup_path_def available_def split: option.splits if_splits)

lemma lookup_stable:
  "lookup_path supplied r p = Some v \<Longrightarrow> k \<notin> names_of r \<Longrightarrow> lookup_path supplied (dput k x r) p = Some v"
  by (auto simp: lookup_path_def split: option.splits if_splits)

lemma of_key_Inr [simp]: "of_key r = Inr a \<longleftrightarrow> r = Some a"
  and of_key_Inl [simp]: "of_key r = Inl e \<longleftrightarrow> r = None \<and> e = Key_error"
  by (auto simp: of_key_def split: option.splits)

lemma seed_bytes_ready:
  "seed_bytes lib supplied r s = Inr b \<Longrightarrow> seed_ready supplied (names_of r) s"
  "seed_bytes lib supplied r s = Inl e \<Longrightarrow> e \<noteq> Key_error \<Longrightarrow> \<not> seed_ready supplied (names_of r) s"
  by (auto simp: seed_bytes_def seed_ready_def lookup_available split: idl_seed.splits option.splits)

lemma program_of_ready:
  "pda_program_of lib pda own supplied r = Inr b \<Longrightarrow> program_ready supplied (names_of r) (pda_program pda)"
  "pda_program_of lib pda own supplied r = Inl e \<Longrightarrow> e \<noteq> Key_error \<Longrightarrow> \<not> program_ready supplied (names_of r) (pda_program pda)"
  by (auto simp: pda_program_of_def program_ready_def lookup_available split: idl_program.splits option.splits)

lemma rmap_Inr: "rmap f xs = Inr ys \<longleftrightarrow> list_all2 (\<lambda>x y. f x = Inr y) xs ys"
proof (induction xs arbitrary: ys)
  case (Cons x xs)
  then show ?case by (cases ys) (auto simp: rbind_Inr_iff)
qed auto

lemma rmap_Inl: "rmap f xs = Inl e \<Longrightarrow> \<exists>x \<in> set xs. f x = Inl e"
proof (induction xs)
  case (Cons x xs)
  then show ?case by (cases "f x"; cases "rmap f xs") auto
qed simp

lemma derive_ready: "derive lib own supplied r pda = Inr x \<Longrightarrow> pda_ready supplied (names_of r) pda"
proof -
  assume "derive lib own supplied r pda = Inr x"
  then obtain p bs where p: "pda_program_of lib pda own supplied r = Inr p"
    and bs: "list_all2 (\<lambda>s b. seed_bytes lib supplied r s = Inr b) (pda_seeds pda) bs"
    by (auto simp: derive_def rbind_Inr_iff rmap_Inr)
  have "list_all (seed_ready supplied (names_of r)) (pda_seeds pda)"
    using bs by (induction rule: list_all2_induct) (auto intro: seed_bytes_ready(1))
  then show ?thesis unfolding pda_ready_def using program_of_ready(1) [OF p] by simp
qed

lemma derive_deferred:
  "derive lib own supplied r pda = Inl e \<Longrightarrow> e \<noteq> Key_error \<Longrightarrow> \<not> pda_ready supplied (names_of r) pda"
proof -
  assume d: "derive lib own supplied r pda = Inl e" and e: "e \<noteq> Key_error"
  show ?thesis
  proof (cases "pda_program_of lib pda own supplied r")
    case (Inl e')
    then have "e' = e" using d by (simp add: derive_def)
    then show ?thesis using program_of_ready(2) [OF Inl] e by (simp add: pda_ready_def)
  next
    case (Inr p)
    then have "rmap (seed_bytes lib supplied r) (pda_seeds pda) = Inl e"
      using d by (cases "rmap (seed_bytes lib supplied r) (pda_seeds pda)") (auto simp: derive_def)
    then obtain s where s: "s \<in> set (pda_seeds pda)" "seed_bytes lib supplied r s = Inl e"
      using rmap_Inl [of "seed_bytes lib supplied r"] by metis
    have "\<not> seed_ready supplied (names_of r) s" by (rule seed_bytes_ready(2) [OF s(2) e])
    then show ?thesis using s(1) by (auto simp: pda_ready_def list_all_iff)
  qed
qed

lemma derive_stable:
  assumes "derive lib own supplied r pda = Inr x" "k \<notin> names_of r"
  shows "derive lib own supplied (dput k v r) pda = Inr x"
proof -
  have s: "seed_bytes lib supplied (dput k v r) s = Inr b" if "seed_bytes lib supplied r s = Inr b" for s b
    using that lookup_stable [OF _ assms(2), of supplied]
    by (auto simp: seed_bytes_def split: idl_seed.splits option.splits)
  have p: "pda_program_of lib pda own supplied (dput k v r) = Inr b" if "pda_program_of lib pda own supplied r = Inr b" for b
    using that lookup_stable [OF _ assms(2), of supplied]
    by (auto simp: pda_program_of_def split: idl_program.splits option.splits)
  obtain a bs where a: "pda_program_of lib pda own supplied r = Inr a"
    and bs: "list_all2 (\<lambda>s b. seed_bytes lib supplied r s = Inr b) (pda_seeds pda) bs" and x: "x = (bs, a)"
    using assms(1) by (auto simp: derive_def rbind_Inr_iff rmap_Inr)
  from bs have "list_all2 (\<lambda>s b. seed_bytes lib supplied (dput k v r) s = Inr b) (pda_seeds pda) bs"
    by (rule list_all2_mono) (rule s)
  then show ?thesis using p [OF a] x by (simp add: derive_def rbind_Inr_iff rmap_Inr)
qed

subsection \<open>The loop computes the least fixed point\<close>

text \<open>An account whose address in \<open>r\<close> is its derivation under \<open>r\<close> itself.\<close>

definition closed_in :: "key_library \<Rightarrow> string \<Rightarrow> keys \<Rightarrow> keys \<Rightarrow> pda_account \<Rightarrow> bool" where
  "closed_in lib own supplied r x \<longleftrightarrow>
     (\<exists>seeds program. derive lib own supplied r (snd x) = Inr (seeds, program)
        \<and> find_program_address lib seeds program \<noteq> None
        \<and> dget r (fst x) = find_program_address lib seeds program)"

lemma closed_in_put:
  "closed_in lib own supplied r x \<Longrightarrow> k \<notin> names_of r \<Longrightarrow> closed_in lib own supplied (dput k v r) x"
proof -
  assume "closed_in lib own supplied r x" and k: "k \<notin> names_of r"
  then obtain seeds program where c: "derive lib own supplied r (snd x) = Inr (seeds, program)"
      "find_program_address lib seeds program \<noteq> None" "dget r (fst x) = find_program_address lib seeds program"
    unfolding closed_in_def by blast
  then have "fst x \<noteq> k" using k by auto
  then show ?thesis unfolding closed_in_def using c derive_stable [OF c(1) k] by auto
qed

lemma pass_cases:
  assumes "resolve_pass lib own supplied (x # pending) r d = Inr res"
  obtains (deferred) "\<not> pda_ready supplied (names_of r) (snd x)" "resolve_pass lib own supplied pending r (d @ [x]) = Inr res"
  | (resolved) seeds program a where "derive lib own supplied r (snd x) = Inr (seeds, program)"
      "find_program_address lib seeds program = Some a"
      "resolve_pass lib own supplied pending (dput (fst x) a r) d = Inr res"
proof (cases "derive lib own supplied r (snd x)")
  case (Inl e)
  then have "e \<noteq> Key_error" using assms by (cases x) auto
  then have "resolve_pass lib own supplied pending r (d @ [x]) = Inr res"
    using assms Inl by (cases x; cases e) auto
  then show thesis using deferred derive_deferred [OF Inl \<open>e \<noteq> Key_error\<close>] by blast
next
  case (Inr y)
  obtain seeds program where "y = (seeds, program)" by fastforce
  then show thesis using resolved [of seeds program] assms Inr by (cases x) (auto split: option.splits)
qed

definition fresh :: "keys \<Rightarrow> pda_account list \<Rightarrow> bool" where
  "fresh r xs \<longleftrightarrow> distinct (map fst xs) \<and> (\<forall>x \<in> set xs. fst x \<notin> names_of r)"

lemma fresh_defer: "fresh r (x # pending @ d) \<Longrightarrow> fresh r (pending @ d @ [x])"
  by (auto simp: fresh_def)

lemma names_of_dput: "names_of (dput k v r) = insert k (names_of r)"
  by auto

lemma fresh_put: "fresh r (x # xs) \<Longrightarrow> fresh (dput (fst x) a r) xs"
  unfolding fresh_def names_of_dput by (auto simp: image_iff)

lemma pass_keeps:
  assumes "resolve_pass lib own supplied pending r d = Inr (r', d')" "fresh r (pending @ d)"
  shows "fresh r' d'" "set d' \<subseteq> set (pending @ d)" "map_le (dget r) (dget r')"
    "closed_in lib own supplied r y \<Longrightarrow> closed_in lib own supplied r' y"
    "\<forall>x \<in> set (pending @ d). x \<in> set d' \<or> closed_in lib own supplied r' x"
proof -
  have "fresh r' d' \<and> set d' \<subseteq> set (pending @ d) \<and> map_le (dget r) (dget r')
    \<and> (\<forall>y. closed_in lib own supplied r y \<longrightarrow> closed_in lib own supplied r' y)
    \<and> (\<forall>x \<in> set (pending @ d). x \<in> set d' \<or> closed_in lib own supplied r' x)"
    using assms
  proof (induction pending arbitrary: r d)
    case Nil
    then show ?case by simp
  next
    case (Cons x pending)
    from Cons.prems(1) show ?case
    proof (cases rule: pass_cases)
      case deferred
      have "fresh r (pending @ d @ [x])" using fresh_defer Cons.prems(2) by simp
      from Cons.IH [OF deferred(2) this] show ?thesis by auto
    next
      case (resolved seeds program a)
      have x: "fst x \<notin> names_of r" using Cons.prems(2) by (simp add: fresh_def)
      have "closed_in lib own supplied (dput (fst x) a r) x"
        unfolding closed_in_def using derive_stable [OF resolved(1) x] resolved(2) by auto
      moreover have "fresh (dput (fst x) a r) (pending @ d)" using fresh_put Cons.prems(2) by simp
      note IH = Cons.IH [OF resolved(3) this]
      moreover have "closed_in lib own supplied r' y" if "closed_in lib own supplied r y" for y
        using IH closed_in_put [OF that x] by blast
      ultimately have "closed_in lib own supplied r' x"
        "\<forall>y. closed_in lib own supplied r y \<longrightarrow> closed_in lib own supplied r' y"
        by blast+
      moreover have "map_le (dget r) (dget (dput (fst x) a r))" using x by (auto simp: map_le_def)
      then have "map_le (dget r) (dget r')" using IH map_le_trans by blast
      ultimately show ?thesis using IH by auto
    qed
  qed
  then show "fresh r' d'" "set d' \<subseteq> set (pending @ d)" "map_le (dget r) (dget r')"
    "closed_in lib own supplied r y \<Longrightarrow> closed_in lib own supplied r' y"
    "\<forall>x \<in> set (pending @ d). x \<in> set d' \<or> closed_in lib own supplied r' x"
    by blast+
qed

lemma pass_derivable:
  assumes "resolve_pass lib own supplied pending r d = Inr (r', d')" "set pending \<subseteq> set pdas"
    "\<And>n. n \<in> names_of r \<Longrightarrow> derivable supplied base pdas n" "n \<in> names_of r'"
  shows "derivable supplied base pdas n"
  using assms
proof (induction pending arbitrary: r d)
  case Nil
  then show ?case by simp
next
  case (Cons x pending)
  from Cons.prems(1) show ?case
  proof (cases rule: pass_cases)
    case deferred
    then show ?thesis using Cons.IH [OF deferred(2)] Cons.prems by auto
  next
    case (resolved seeds program a)
    have "derivable supplied base pdas (fst x)"
      using derived [of "fst x" "snd x" pdas supplied "names_of r" base] Cons.prems(2,3) derive_ready [OF resolved(1)] by auto
    then have D: "derivable supplied base pdas n" if "n \<in> names_of (dput (fst x) a r)" for n
      using that Cons.prems(3) unfolding names_of_dput by blast
    show ?thesis by (rule Cons.IH [OF resolved(3) _ D Cons.prems(4)]) (use Cons.prems(2) in simp)
  qed
qed

lemma pass_stuck:
  assumes "resolve_pass lib own supplied pending r d = Inr (r', d')" "length d' = length pending + length d"
  shows "r' = r \<and> d' = d @ pending \<and> (\<forall>x \<in> set pending. \<not> pda_ready supplied (names_of r) (snd x))"
  using assms
proof (induction pending arbitrary: d)
  case (Cons x pending)
  from Cons.prems(1) show ?case
  proof (cases rule: pass_cases)
    case deferred
    then show ?thesis using Cons.IH [OF deferred(2)] Cons.prems(2) by simp
  next
    case (resolved seeds program a)
    from resolve_pass_length [OF resolved(3)] show ?thesis using Cons.prems(2) by simp
  qed
qed simp

text \<open>What holds between the passes: everything not waiting is closed, and nothing is resolved that is not derivable.\<close>

definition loop_inv :: "key_library \<Rightarrow> string \<Rightarrow> keys \<Rightarrow> keys \<Rightarrow> pda_account list \<Rightarrow> pda_account list \<Rightarrow> keys \<Rightarrow> bool" where
  "loop_inv lib own supplied givens pdas pending r \<longleftrightarrow>
     fresh r pending \<and> set pending \<subseteq> set pdas \<and> map_le (dget givens) (dget r)
     \<and> (\<forall>x \<in> set pdas. x \<in> set pending \<or> closed_in lib own supplied r x)
     \<and> (\<forall>n \<in> names_of r. derivable supplied (names_of givens) pdas n)"

lemma loop_inv_pass:
  assumes "loop_inv lib own supplied givens pdas pending r" "resolve_pass lib own supplied pending r [] = Inr (r', d')"
  shows "loop_inv lib own supplied givens pdas d' r'"
proof -
  have f: "fresh r (pending @ [])" using assms(1) by (simp add: loop_inv_def)
  note k = pass_keeps [OF assms(2) f]
  have "derivable supplied (names_of givens) pdas n" if "n \<in> names_of r'" for n
    using pass_derivable [OF assms(2) _ _ that, of pdas "names_of givens"] assms(1) by (simp add: loop_inv_def)
  moreover have "x \<in> set d' \<or> closed_in lib own supplied r' x" if "x \<in> set pdas" for x
  proof -
    have "x \<in> set pending \<or> closed_in lib own supplied r x" using that assms(1) by (simp add: loop_inv_def)
    then show ?thesis using k(4) [of x] k(5) by auto
  qed
  moreover have "set d' \<subseteq> set pdas" using k(2) assms(1) unfolding loop_inv_def by auto
  moreover have "map_le (dget givens) (dget r')"
    using k(3) assms(1) map_le_trans unfolding loop_inv_def by blast
  ultimately show ?thesis using k(1) unfolding loop_inv_def by blast
qed

lemma stuck_underivable:
  assumes "loop_inv lib own supplied givens pdas pending r" "\<forall>x \<in> set pending. \<not> pda_ready supplied (names_of r) (snd x)"
  shows "derivable supplied (names_of givens) pdas n \<longleftrightarrow> n \<in> names_of r"
proof
  show "n \<in> names_of r \<Longrightarrow> derivable supplied (names_of givens) pdas n" using assms(1) by (simp add: loop_inv_def)
  assume "derivable supplied (names_of givens) pdas n"
  then show "n \<in> names_of r"
  proof induction
    case (given n)
    then show ?case using assms(1) map_le_implies_dom_le unfolding loop_inv_def by blast
  next
    case (derived n pda K)
    have "pda_ready supplied (names_of r) pda" by (rule pda_ready_mono [OF derived.hyps(2)]) (use derived.IH in blast)
    then have "(n, pda) \<notin> set pending" using assms(2) by auto
    then have "closed_in lib own supplied r (n, pda)" using assms(1) derived.hyps(1) unfolding loop_inv_def by blast
    then show ?case by (auto simp: closed_in_def)
  qed
qed

text \<open>What the loop returns: the closed table, or exactly the names that cannot be derived.\<close>

definition least_solution ::
    "key_library \<Rightarrow> string \<Rightarrow> keys \<Rightarrow> keys \<Rightarrow> pda_account list \<Rightarrow> keys \<Rightarrow> bool" where
  "least_solution lib own supplied givens pdas r \<longleftrightarrow>
     list_all (closed_in lib own supplied r) pdas \<and> map_le (dget givens) (dget r)
     \<and> (\<forall>n. derivable supplied (names_of givens) pdas n \<longleftrightarrow> n \<in> names_of r)"


lemma pass_error: "resolve_pass lib own supplied pending r d = Inl e \<Longrightarrow> e = Key_error"
  by (induction lib own supplied pending r d rule: resolve_pass.induct)
    (auto split: sum.splits idl_error.splits option.splits prod.splits)

lemma stuck_names:
  assumes "loop_inv lib own supplied givens pdas pending r" "\<forall>x \<in> set pending. \<not> pda_ready supplied (names_of r) (snd x)"
  shows "fst ` set pending = {n \<in> fst ` set pdas. \<not> derivable supplied (names_of givens) pdas n}"
proof -
  have "fst x \<notin> names_of r" if "x \<in> set pending" for x
    using assms(1) that by (simp add: loop_inv_def fresh_def)
  moreover have "x \<in> set pending" if "x \<in> set pdas" "fst x \<notin> names_of r" for x
    using assms(1) that unfolding loop_inv_def closed_in_def by fastforce
  moreover have "set pending \<subseteq> set pdas" using assms(1) by (simp add: loop_inv_def)
  ultimately show ?thesis unfolding stuck_underivable [OF assms] by blast
qed

lemma resolve_loop_spec:
  assumes "loop_inv lib own supplied givens pdas pending r"
  shows "case resolve_loop lib idl_name ins own supplied pending r of
      Inr r' \<Rightarrow> least_solution lib own supplied givens pdas r'
    | Inl (Cannot_resolve i s names) \<Rightarrow> i = idl_name \<and> s = ins \<and> names \<noteq> [] \<and> distinct names
        \<and> set names = {n \<in> fst ` set pdas. \<not> derivable supplied (names_of givens) pdas n}
    | Inl e \<Rightarrow> e = Key_error"
  using assms
proof (induction lib idl_name ins own supplied pending r rule: resolve_loop.induct)
  case (1 lib idl_name ins own supplied pending r)
  show ?case
  proof (cases "pending = []")
    case True
    then have "least_solution lib own supplied givens pdas r"
      using 1(2) stuck_underivable [OF 1(2)] by (auto simp: least_solution_def loop_inv_def list_all_iff)
    then show ?thesis using True by (simp add: resolve_loop.simps)
  next
    case pending: False
    show ?thesis
    proof (cases "resolve_pass lib own supplied pending r []")
      case (Inl e)
      then show ?thesis using pass_error [OF Inl] pending by (simp add: resolve_loop.simps)
    next
      case (Inr p)
      obtain r' d where p: "resolve_pass lib own supplied pending r [] = Inr (r', d)" using Inr by (cases p) auto
      show ?thesis
      proof (cases "length d = length pending")
        case True
        then have "d = pending" and stuck: "\<forall>x \<in> set pending. \<not> pda_ready supplied (names_of r) (snd x)"
          using pass_stuck [OF p] by simp_all
        then have "resolve_loop lib idl_name ins own supplied pending r
            = Inl (Cannot_resolve idl_name ins (sort (map fst pending)))"
          using p pending by (simp add: resolve_loop.simps)
        moreover have "distinct (sort (map fst pending))" using 1(2) by (simp add: loop_inv_def fresh_def)
        moreover have "sort (map fst pending) \<noteq> []" using pending by (metis list.map_disc_iff set_empty set_sort)
        ultimately show ?thesis using stuck_names [OF 1(2) stuck] by simp
      next
        case False
        then have "resolve_loop lib idl_name ins own supplied pending r = resolve_loop lib idl_name ins own supplied d r'"
          using p pending by (simp add: resolve_loop.simps [of lib idl_name ins own supplied pending r])
        then show ?thesis using 1(1) [OF pending p refl False loop_inv_pass [OF 1(2) p]] by simp
      qed
    qed
  qed
qed

subsection \<open>From the declared accounts to the loop\<close>

text \<open>What an account is given without derivation; a supplied value comes before a pinned address.\<close>

definition given_value :: "keys \<Rightarrow> idl_account \<Rightarrow> string option" where
  "given_value supplied a = (case dget supplied (acc_name a) of Some v \<Rightarrow> Some v | None \<Rightarrow> acc_address a)"

definition pdas_of :: "keys \<Rightarrow> idl_account list \<Rightarrow> pda_account list" where
  "pdas_of supplied as =
     map (\<lambda>a. (acc_name a, the (acc_pda a))) (filter (\<lambda>a. given_value supplied a = None \<and> acc_pda a \<noteq> None) as)"

definition given_names :: "keys \<Rightarrow> idl_account list \<Rightarrow> string set" where
  "given_names supplied as = {acc_name a |a. a \<in> set as \<and> given_value supplied a \<noteq> None}"

lemma sort_accounts_Cons:
  "sort_accounts i s supplied (a # as) r p =
     (case given_value supplied a of
        Some v \<Rightarrow> sort_accounts i s supplied as (dput (acc_name a) v r) p
      | None \<Rightarrow> (case acc_pda a of
          Some q \<Rightarrow> sort_accounts i s supplied as r (p @ [(acc_name a, q)])
        | None \<Rightarrow> Inl (Not_supplied i s (acc_name a))))"
  by (simp add: given_value_def split: option.split)

lemma sort_accounts_error:
  "sort_accounts i s supplied as r p = Inl e
     \<Longrightarrow> \<exists>a \<in> set as. e = Not_supplied i s (acc_name a) \<and> given_value supplied a = None \<and> acc_pda a = None"
  by (induction as arbitrary: r p) (auto simp: sort_accounts_Cons simp del: sort_accounts.simps(2) split: option.splits)

lemma sort_accounts_spec:
  assumes "sort_accounts i s supplied as r p = Inr (r', p')" "distinct (map acc_name as)"
    "\<forall>a \<in> set as. acc_name a \<notin> names_of r"
  shows "p' = p @ pdas_of supplied as" "\<And>a. a \<in> set as \<Longrightarrow> dget r' (acc_name a) = given_value supplied a"
    "\<And>n. n \<notin> acc_name ` set as \<Longrightarrow> dget r' n = dget r n"
    "\<And>a. a \<in> set as \<Longrightarrow> given_value supplied a = None \<Longrightarrow> acc_pda a \<noteq> None"
proof -
  have "p' = p @ pdas_of supplied as \<and> (\<forall>a \<in> set as. dget r' (acc_name a) = given_value supplied a)
    \<and> (\<forall>n. n \<notin> acc_name ` set as \<longrightarrow> dget r' n = dget r n)
    \<and> (\<forall>a \<in> set as. given_value supplied a = None \<longrightarrow> acc_pda a \<noteq> None)"
    using assms
  proof (induction as arbitrary: r p)
    case (Cons a as)
    have d: "distinct (map acc_name as)" "acc_name a \<notin> acc_name ` set as" using Cons.prems(2) by auto
    show ?case
    proof (cases "given_value supplied a")
      case None
      then obtain q where q: "acc_pda a = Some q" "sort_accounts i s supplied as r (p @ [(acc_name a, q)]) = Inr (r', p')"
        using Cons.prems(1) by (auto simp: sort_accounts_Cons simp del: sort_accounts.simps(2) split: option.splits)
      have "acc_name a \<notin> names_of r" using Cons.prems(3) by simp
      then show ?thesis using Cons.IH [OF q(2) d(1)] Cons.prems(3) None q(1) d(2) by (auto simp: pdas_of_def)
    next
      case (Some v)
      then have s: "sort_accounts i s supplied as (dput (acc_name a) v r) p = Inr (r', p')"
        using Cons.prems(1) by (simp add: sort_accounts_Cons del: sort_accounts.simps(2))
      have fr: "\<forall>b \<in> set as. acc_name b \<notin> names_of (dput (acc_name a) v r)"
        using Cons.prems(3) d(2) unfolding names_of_dput by (auto simp: image_iff)
      from Cons.IH [OF s d(1) fr] show ?thesis using Some d(2) by (auto simp: pdas_of_def)
    qed
  qed (simp add: pdas_of_def)
  then show "p' = p @ pdas_of supplied as" "\<And>a. a \<in> set as \<Longrightarrow> dget r' (acc_name a) = given_value supplied a"
    "\<And>n. n \<notin> acc_name ` set as \<Longrightarrow> dget r' n = dget r n"
    "\<And>a. a \<in> set as \<Longrightarrow> given_value supplied a = None \<Longrightarrow> acc_pda a \<noteq> None"
    by blast+
qed

lemma sorted_accounts_inv:
  assumes "sort_accounts i s supplied as [] [] = Inr (r, p)" "distinct (map acc_name as)"
  shows "loop_inv lib own supplied r (pdas_of supplied as) p r" "names_of r = given_names supplied as"
proof -
  note spec = sort_accounts_spec [OF assms]
  have spec': "dget r (acc_name a) = given_value supplied a" if "a \<in> set as" for a using spec(2) that by simp
  have out: "dget r n = None" if "n \<notin> acc_name ` set as" for n using spec(3) that by simp
  have p: "p = pdas_of supplied as" using spec(1) by simp
  have "distinct (map acc_name (filter Q as))" for Q using assms(2) by (metis distinct_map_filter)
  then have "fresh r p"
    by (auto simp: fresh_def p pdas_of_def comp_def spec')
  then show "loop_inv lib own supplied r (pdas_of supplied as) p r"
    by (auto simp: loop_inv_def p intro: derivable.given)
  show "names_of r = given_names supplied as"
  proof (rule set_eqI)
    fix n
    show "n \<in> names_of r \<longleftrightarrow> n \<in> given_names supplied as"
    proof (cases "n \<in> acc_name ` set as")
      case True
      then obtain a where a: "a \<in> set as" "n = acc_name a" by blast
      have same: "b = a" if "b \<in> set as" "acc_name b = acc_name a" for b
        using assms(2) that a(1) by (auto simp: distinct_map inj_on_def)
      show ?thesis
        unfolding given_names_def domIff mem_Collect_eq a(2) spec' [OF a(1)] using a(1) same by metis
    next
      case False
      then show ?thesis using out [OF False] by (auto simp: given_names_def)
    qed
  qed
qed

text \<open>The caller's value wins over an address the IDL pins.\<close>

lemma caller_overrides_pinned:
  "dget supplied (acc_name a) = Some v \<Longrightarrow> acc_address a = Some pinned \<Longrightarrow> given_value supplied a = Some v"
  by (simp add: given_value_def)

lemma encode_values_length: "encode_values vs = Inr bs \<Longrightarrow> length bs = 8 * length vs"
  by (induction vs arbitrary: bs) (auto simp: rbind_Inr_iff split: if_splits)

text \<open>Each argument is read back from its eight bytes.\<close>

lemma encode_values_read:
  "encode_values vs = Inr bs \<Longrightarrow> i < length vs \<Longrightarrow> le_val (slice (8 * i) (8 * i + 8) bs) = vs ! i"
proof (induction vs arbitrary: bs i)
  case (Cons v vs)
  then obtain cs where cs: "encode_values vs = Inr cs" "bs = le_bytes 8 v @ cs" "0 \<le> v" "v < 2 ^ 64"
    by (auto simp: rbind_Inr_iff split: if_splits)
  show ?case
  proof (cases i)
    case 0
    then show ?thesis using cs by (simp add: byte_simps le_val_le_bytes)
  next
    case (Suc j)
    then show ?thesis using Cons.IH [OF cs(1), of j] Cons.prems(2) cs(2) by (simp add: byte_simps add.commute)
  qed
qed simp

subsection \<open>Properties\<close>

text \<open>
  C22: the account resolution computes the least fixed point: when it succeeds every account has its
  supplied or pinned value or else the address derived from the resolved table itself; when it gives
  up it names exactly the accounts no order of derivations can reach, or one that has no source; and
  otherwise only an exception of the key library leaves it.
\<close>

theorem accounts_least_fixed_point:
  assumes "instruction load idl_name ins = Inr entry" "program_id load idl_name = Inr own"
    and "distinct (map acc_name (ins_accounts entry))"
  shows "case build_accounts lib ''OK'' load idl_name ins supplied of
      Inr metas \<Rightarrow> (\<exists>r. metas = map (meta_of r) (ins_accounts entry)
        \<and> list_all (\<lambda>a. case given_value supplied a of
              Some v \<Rightarrow> dget r (acc_name a) = Some v
            | None \<Rightarrow> acc_pda a \<noteq> None \<and> closed_in lib own supplied r (acc_name a, the (acc_pda a))) (ins_accounts entry)
        \<and> list_all (\<lambda>a. derivable supplied (given_names supplied (ins_accounts entry))
              (pdas_of supplied (ins_accounts entry)) (acc_name a)) (ins_accounts entry))
    | Inl (Cannot_resolve i s names) \<Rightarrow> names \<noteq> [] \<and> distinct names
        \<and> set names = {n \<in> fst ` set (pdas_of supplied (ins_accounts entry)).
             \<not> derivable supplied (given_names supplied (ins_accounts entry)) (pdas_of supplied (ins_accounts entry)) n}
    | Inl (Not_supplied i s n) \<Rightarrow>
        n \<in> acc_name ` {a \<in> set (ins_accounts entry). given_value supplied a = None \<and> acc_pda a = None}
    | Inl e \<Rightarrow> e = Key_error"
proof (cases "sort_accounts idl_name ins supplied (ins_accounts entry) [] []")
  case (Inl e)
  then show ?thesis using sort_accounts_error [OF Inl] assms by (auto simp: build_accounts_def)
next
  case (Inr rp)
  obtain r p where rp: "sort_accounts idl_name ins supplied (ins_accounts entry) [] [] = Inr (r, p)"
    using Inr by (cases rp) auto
  note inv = sorted_accounts_inv [OF rp assms(3)]
  note spec = sort_accounts_spec [OF rp assms(3)]
  have build: "build_accounts lib ''OK'' load idl_name ins supplied =
      rbind (resolve_loop lib idl_name ins own supplied p r) (\<lambda>r. Inr (map (meta_of r) (ins_accounts entry)))"
    using assms rp by (simp add: build_accounts_def)
  note loop = resolve_loop_spec [OF inv(1) [of lib own], of idl_name ins]
  show ?thesis
  proof (cases "resolve_loop lib idl_name ins own supplied p r")
    case (Inl e)
    then show ?thesis using loop build inv(2) by (cases e) auto
  next
    case (Inr r')
    then have least: "list_all (closed_in lib own supplied r') (pdas_of supplied (ins_accounts entry))"
        "map_le (dget r) (dget r')"
        "\<And>n. derivable supplied (names_of r) (pdas_of supplied (ins_accounts entry)) n \<longleftrightarrow> n \<in> names_of r'"
      using loop by (simp_all add: least_solution_def)
    have each: "(case given_value supplied a of
              Some v \<Rightarrow> dget r' (acc_name a) = Some v
            | None \<Rightarrow> acc_pda a \<noteq> None \<and> closed_in lib own supplied r' (acc_name a, the (acc_pda a)))"
      if a: "a \<in> set (ins_accounts entry)" for a
    proof (cases "given_value supplied a")
      case None
      then have "acc_pda a \<noteq> None" using spec(4) a by simp
      then show ?thesis using None least(1) a by (auto simp: pdas_of_def list_all_iff)
    next
      case (Some v)
      then have "dget r (acc_name a) = Some v" using spec(2) a by simp
      then have "dget r' (acc_name a) = Some v" using least(2) by (metis domI map_le_def)
      then show ?thesis using Some by simp
    qed
    moreover have "acc_name a \<in> names_of r'" if "a \<in> set (ins_accounts entry)" for a
      using each [OF that] by (auto simp: closed_in_def split: option.splits)
    ultimately show ?thesis using Inr build least(3) unfolding inv(2) by (auto simp: list_all_iff)
  qed
qed

text \<open>A small program whose accounts are declared before the ones they depend on.\<close>

definition toy_account :: "string \<Rightarrow> idl_pda option \<Rightarrow> idl_account" where
  "toy_account name pda = \<lparr>acc_name = name, acc_address = None, acc_pda = pda, acc_signer = False, acc_writable = True\<rparr>"

definition toy_instruction :: idl_instruction where
  "toy_instruction =
     \<lparr>ins_name = ''sell'', ins_discriminator = [],
      ins_accounts = [toy_account ''vault_ata'' (Some \<lparr>pda_seeds = [Seed_path ''vault''], pda_program = None\<rparr>),
                      toy_account ''vault'' (Some \<lparr>pda_seeds = [Seed_const [1], Seed_path ''user''], pda_program = None\<rparr>),
                      toy_account ''user'' None],
      ins_args = []\<rparr>"

definition toy_idl :: "string \<Rightarrow> idl" where
  "toy_idl name = \<lparr>idl_address = Some ''prog'', idl_instructions = [toy_instruction]\<rparr>"

definition toy_lib :: key_library where
  "toy_lib = \<lparr>key_bytes = (\<lambda>s. Some (text_bytes s)), key_text = (\<lambda>b. Some (bytes_text b)),
     find_program_address = (\<lambda>seeds p. Some (p @ bytes_text (concat seeds))), sha256 = (\<lambda>b. b)\<rparr>"

theorem accounts_least_fixed_point_witness:
  "\<exists>r. build_accounts toy_lib ''OK'' toy_idl ''toy'' ''sell'' [(''user'', ''u'')] = Inr (map (meta_of r) (ins_accounts toy_instruction))
    \<and> dget r ''user'' = Some ''u''"
proof -
  have i: "instruction toy_idl ''toy'' ''sell'' = Inr toy_instruction"
    by (simp add: instruction_def toy_idl_def toy_instruction_def)
  have o: "program_id toy_idl ''toy'' = Inr ''prog''" by (simp add: program_id_def toy_idl_def)
  have d: "distinct (map acc_name (ins_accounts toy_instruction))" by (simp add: toy_instruction_def toy_account_def)
  have "\<exists>metas. build_accounts toy_lib ''OK'' toy_idl ''toy'' ''sell'' [(''user'', ''u'')] = Inr metas"
    by (simp add: build_accounts_def i o) (simp add: toy_instruction_def toy_account_def resolve_loop.simps
        derive_def pda_program_of_def seed_bytes_def lookup_path_def toy_lib_def of_key_def)
  then obtain metas where m: "build_accounts toy_lib ''OK'' toy_idl ''toy'' ''sell'' [(''user'', ''u'')] = Inr metas" by blast
  show ?thesis
    using accounts_least_fixed_point [OF i o d, where lib = toy_lib and supplied = "[(''user'', ''u'')]"] unfolding m
    by (auto simp: toy_instruction_def toy_account_def given_value_def)
qed

end
