(* ===== verification/PumpRoute.thy ===== *)
theory PumpRoute
  imports Idl
begin

text \<open>
  \<open>chains/pump_route.py\<close>: the local route on the bonding curve.  The published recipients are parsed
  from the lines of the vendored document (an argument, \<open>None\<close> when it cannot be read); the IDLs and
  the key library are those of \<open>Idl\<close>, and \<open>error_text\<close> is \<open>str\<close> of an exception.
\<close>

definition PUBLISHED_GLOBAL :: string where "PUBLISHED_GLOBAL = ''4wTV1YmiEkRvAtNtsSGPtUrqRYQMe5SKy2uB4Jjaxnjf''"
definition WSOL_MINT :: string where "WSOL_MINT = ''So11111111111111111111111111111111111111112''"
definition SYSTEM_PROGRAM_ID :: string where "SYSTEM_PROGRAM_ID = ''11111111111111111111111111111111''"
definition ASSOCIATED_TOKEN_PROGRAM :: string where
  "ASSOCIATED_TOKEN_PROGRAM = ''ATokenGPvbdGVxr1b2hvZbsiqW5xWH25efTNsLJA8knL''"
definition TOKEN_2022_PROGRAM :: string where
  "TOKEN_2022_PROGRAM = ''TokenzQdBNbLqP5VEhdkAS6EPFLC1PHnBqCXEpPxuEb''"
definition TOKEN_PROGRAM :: string where "TOKEN_PROGRAM = ''TokenkegQfeZyiNwAJbNbGKPFXCWuBvf9Ss623VQ5DA''"
definition PUMP_IDL :: string where "PUMP_IDL = ''pump''"
definition PUMP_AMM_IDL :: string where "PUMP_AMM_IDL = ''pump_amm''"
definition PUMP_FEES_IDL :: string where "PUMP_FEES_IDL = ''pump_fees''"

subsection \<open>The published recipients\<close>

text \<open>\<open>needle in hay\<close>.\<close>

fun py_in :: "string \<Rightarrow> string \<Rightarrow> bool" where
  "py_in needle [] = (needle = [])"
| "py_in needle (c # cs) = (take (length needle) (c # cs) = needle \<or> py_in needle cs)"

definition base58_chars :: string where
  "base58_chars = ''123456789ABCDEFGHJKLMNPQRSTUVWXYZabcdefghijkmnopqrstuvwxyz''"

text \<open>The first match of an address of 32 to 44 characters between backquotes.\<close>

fun search_address :: "string \<Rightarrow> string option" where
  "search_address [] = None"
| "search_address (c # cs) =
     (let body = takeWhile (\<lambda>x. x \<in> set base58_chars) cs; rest = dropWhile (\<lambda>x. x \<in> set base58_chars) cs
      in if c = CHR 0x60 \<and> 32 \<le> length body \<and> length body \<le> 44 \<and> take 1 rest = [CHR 0x60] then Some body
         else search_address cs)"

datatype recipient_group = Normal | Reserved | Buyback

record recipients =
  normal_recipients :: "string list"
  reserved_recipients :: "string list"
  buyback_recipients :: "string list"

definition group_of :: "recipients \<Rightarrow> recipient_group \<Rightarrow> string list" where
  "group_of r g =
     (case g of Normal \<Rightarrow> normal_recipients r | Reserved \<Rightarrow> reserved_recipients r | Buyback \<Rightarrow> buyback_recipients r)"

definition add_recipient :: "recipient_group \<Rightarrow> string \<Rightarrow> recipients \<Rightarrow> recipients" where
  "add_recipient g a r =
     (case g of
        Normal \<Rightarrow> r\<lparr>normal_recipients := normal_recipients r @ [a]\<rparr>
      | Reserved \<Rightarrow> r\<lparr>reserved_recipients := reserved_recipients r @ [a]\<rparr>
      | Buyback \<Rightarrow> r\<lparr>buyback_recipients := buyback_recipients r @ [a]\<rparr>)"

definition heading_group :: "string \<Rightarrow> recipient_group option" where
  "heading_group lowered =
     (if py_in ''normal'' lowered then Some Normal
      else if py_in ''reserved'' lowered then Some Reserved
      else if py_in ''buyback'' lowered then Some Buyback else None)"

fun parse_recipients :: "string list \<Rightarrow> recipient_group option \<Rightarrow> recipients \<Rightarrow> recipients" where
  "parse_recipients [] current groups = groups"
| "parse_recipients (line # ls) current groups =
     (let lowered = py_lower line
      in if take 3 lowered = ''## '' then parse_recipients ls (heading_group lowered) groups
         else case (current, search_address line) of
           (Some g, Some a) \<Rightarrow> parse_recipients ls current (add_recipient g a groups)
         | _ \<Rightarrow> parse_recipients ls current groups)"

definition no_recipients :: recipients where
  "no_recipients = \<lparr>normal_recipients = [], reserved_recipients = [], buyback_recipients = []\<rparr>"

definition fee_recipients :: "string list option \<Rightarrow> recipients" where
  "fee_recipients doc = (case doc of None \<Rightarrow> no_recipients | Some ls \<Rightarrow> parse_recipients ls None no_recipients)"

definition byte_sum :: "string \<Rightarrow> nat" where "byte_sum s = sum_list (map of_char s)"

definition pick_recipient :: "string list \<Rightarrow> string \<Rightarrow> string" where
  "pick_recipient published mint =
     (if published = [] then '''' else published ! (byte_sum mint mod length published))"

definition select_fee_recipient :: "recipients \<Rightarrow> string \<Rightarrow> bool \<Rightarrow> string" where
  "select_fee_recipient r mint mayhem = pick_recipient (group_of r (if mayhem then Reserved else Normal)) mint"

definition select_buyback_recipient :: "recipients \<Rightarrow> string \<Rightarrow> string" where
  "select_buyback_recipient r mint = pick_recipient (group_of r Buyback) mint"

subsection \<open>The route\<close>

record route_env =
  key_lib :: key_library
  idl_status :: string
  idls :: "string \<Rightarrow> idl"
  recipient_doc :: "string list option"
  error_text :: "idl_error \<Rightarrow> string"

definition published :: "route_env \<Rightarrow> recipients" where "published E = fee_recipients (recipient_doc E)"

definition associated_token_address :: "key_library \<Rightarrow> string \<Rightarrow> string \<Rightarrow> string \<Rightarrow> idl_error + string" where
  "associated_token_address lib owner mint token_program =
     rbind (of_key (key_bytes lib owner)) (\<lambda>o_key.
       rbind (of_key (key_bytes lib token_program)) (\<lambda>p_key.
         rbind (of_key (key_bytes lib mint)) (\<lambda>m_key.
           of_key (find_program_address lib [o_key, p_key, m_key] ASSOCIATED_TOKEN_PROGRAM))))"

definition pump_program :: "route_env \<Rightarrow> string" where
  "pump_program E =
     (if idl_status E = ''OK'' then (case program_id (idls E) PUMP_IDL of Inr p \<Rightarrow> p | Inl _ \<Rightarrow> '''') else '''')"

definition derived_global :: "route_env \<Rightarrow> string option" where
  "derived_global E = find_program_address (key_lib E) [text_bytes ''global''] (pump_program E)"

text \<open>The status the module ends its import with; a failing derivation stops the import itself.\<close>

definition route_status :: "route_env \<Rightarrow> string" where
  "route_status E =
     (if idl_status E \<noteq> ''OK'' then idl_status E
      else case derived_global E of
        None \<Rightarrow> ''DATA_BLOCKED: import''
      | Some g \<Rightarrow>
          if g \<noteq> PUBLISHED_GLOBAL
          then ''DATA_BLOCKED: derived global '' @ g @ '' does not match the published '' @ PUBLISHED_GLOBAL
          else ''OK'')"

record route_config =
  base_token_program :: string
  quote_token_program :: string
  route_quote_mint :: string
  route_mayhem :: bool

definition default_route_config :: route_config where
  "default_route_config = \<lparr>base_token_program = TOKEN_2022_PROGRAM, quote_token_program = TOKEN_PROGRAM,
     route_quote_mint = WSOL_MINT, route_mayhem = False\<rparr>"

definition blocked_reason :: "route_env \<Rightarrow> string option" where
  "blocked_reason E =
     (if route_status E \<noteq> ''OK'' then Some (route_status E)
      else if group_of (published E) Normal = [] \<or> group_of (published E) Buyback = []
      then Some ''published fee recipients unreadable'' else None)"

record prepared =
  prep_status :: string
  prep_program :: string
  prep_accounts :: "account_meta list"
  prep_data :: bytes
  prep_detail :: string
  expected_accounts :: nat
  prep_venue :: string

definition not_prepared :: "string \<Rightarrow> string \<Rightarrow> prepared" where
  "not_prepared status detail =
     \<lparr>prep_status = status, prep_program = '''', prep_accounts = [], prep_data = [], prep_detail = detail,
      expected_accounts = 0, prep_venue = ''pump_curve''\<rparr>"

definition prep_ok :: "prepared \<Rightarrow> bool" where "prep_ok p \<longleftrightarrow> prep_status p = ''OK''"

record pump_route =
  route_cfg :: route_config
  cache_size :: nat
  account_cache :: "(string list, account_meta list) dict"
  warm_hits :: nat
  warm_misses :: nat

definition new_route :: "route_config \<Rightarrow> nat \<Rightarrow> pump_route" where
  "new_route cfg n = \<lparr>route_cfg = cfg, cache_size = max 1 n, account_cache = [], warm_hits = 0, warm_misses = 0\<rparr>"

definition cache_key :: "route_config \<Rightarrow> string \<Rightarrow> string \<Rightarrow> string \<Rightarrow> string \<Rightarrow> string list" where
  "cache_key cfg name base_mint creator user =
     [name, base_mint, creator, user, route_quote_mint cfg, base_token_program cfg, quote_token_program cfg,
      if route_mayhem cfg then ''True'' else ''False'']"

definition derive_accounts ::
    "route_env \<Rightarrow> route_config \<Rightarrow> string \<Rightarrow> string \<Rightarrow> string \<Rightarrow> string \<Rightarrow> idl_error + account_meta list" where
  "derive_accounts E cfg name base_mint creator user =
     rbind (program_id (idls E) PUMP_FEES_IDL) (\<lambda>fee_program.
       rbind (associated_token_address (key_lib E) user base_mint (base_token_program cfg)) (\<lambda>base_user.
         build_accounts (key_lib E) (idl_status E) (idls E) PUMP_IDL name
           [(''base_mint'', base_mint), (''quote_mint'', route_quote_mint cfg),
            (''base_token_program'', base_token_program cfg), (''quote_token_program'', quote_token_program cfg),
            (''associated_token_program'', ASSOCIATED_TOKEN_PROGRAM), (''system_program'', SYSTEM_PROGRAM_ID),
            (''fee_program'', fee_program), (''user'', user),
            (''fee_recipient'', select_fee_recipient (published E) base_mint (route_mayhem cfg)),
            (''buyback_fee_recipient'', select_buyback_recipient (published E) base_mint),
            (''bonding_curve.creator'', creator), (''associated_base_user'', base_user)]))"

definition evict_accounts :: "pump_route \<Rightarrow> pump_route" where
  "evict_accounts r = r\<lparr>account_cache := evict_oldest (cache_size r) (account_cache r)\<rparr>"

definition warm_name :: "route_env \<Rightarrow> string \<Rightarrow> string \<Rightarrow> string \<Rightarrow> string \<Rightarrow> pump_route \<times> nat \<Rightarrow> pump_route \<times> nat" where
  "warm_name E base_mint creator user name rw =
     (let (r, warmed) = rw; key = cache_key (route_cfg r) name base_mint creator user
      in if key \<in> set (dkeys (account_cache r)) then (r, warmed)
         else case derive_accounts E (route_cfg r) name base_mint creator user of
           Inl _ \<Rightarrow> (r, warmed)
         | Inr metas \<Rightarrow> (r\<lparr>account_cache := dput key metas (account_cache r)\<rparr>, warmed + 1))"

definition warm :: "route_env \<Rightarrow> pump_route \<Rightarrow> string \<Rightarrow> string \<Rightarrow> string \<Rightarrow> pump_route \<times> nat" where
  "warm E r base_mint creator user =
     (let (r, warmed) = fold (warm_name E base_mint creator user) [''buy_v2'', ''sell_v2''] (r, 0)
      in (evict_accounts r, warmed))"

text \<open>The accounts from the cache, or derived and cached.\<close>

definition cached_accounts ::
    "route_env \<Rightarrow> pump_route \<Rightarrow> string \<Rightarrow> string \<Rightarrow> string \<Rightarrow> string \<Rightarrow> pump_route \<times> (idl_error + account_meta list)" where
  "cached_accounts E r name base_mint creator user =
     (let key = cache_key (route_cfg r) name base_mint creator user
      in case dget (account_cache r) key of
           Some metas \<Rightarrow> (r\<lparr>warm_hits := warm_hits r + 1\<rparr>, Inr metas)
         | None \<Rightarrow>
             let r = r\<lparr>warm_misses := warm_misses r + 1\<rparr>
             in case derive_accounts E (route_cfg r) name base_mint creator user of
                  Inl e \<Rightarrow> (r, Inl e)
                | Inr metas \<Rightarrow> (evict_accounts (r\<lparr>account_cache := dput key metas (account_cache r)\<rparr>), Inr metas))"

text \<open>What a build makes of the accounts.\<close>

definition finish_build :: "route_env \<Rightarrow> string \<Rightarrow> int \<Rightarrow> int \<Rightarrow> idl_error + account_meta list \<Rightarrow> prepared" where
  "finish_build E name first second accounts =
     (case rbind accounts (\<lambda>metas.
             rbind (encode_u64_args (key_lib E) (idls E) PUMP_IDL name [first, second]) (\<lambda>data. Inr (metas, data))) of
        Inl e \<Rightarrow> not_prepared ''REJECTED'' (''unbuildable: '' @ error_text E e)
      | Inr (metas, data) \<Rightarrow>
          let expected = (case account_names (idls E) PUMP_IDL name of Inl _ \<Rightarrow> 0 | Inr names \<Rightarrow> length names)
          in if length metas \<noteq> expected
             then (not_prepared ''REJECTED'' (''built '' @ nat_str (length metas) @ '' accounts, '' @ name @ '' takes ''
                    @ nat_str expected))\<lparr>expected_accounts := expected\<rparr>
             else \<lparr>prep_status = ''OK'', prep_program = pump_program E, prep_accounts = metas, prep_data = data,
                   prep_detail = '''', expected_accounts = expected, prep_venue = ''pump_curve''\<rparr>)"

definition refused_build :: "route_env \<Rightarrow> string \<Rightarrow> int \<Rightarrow> int \<Rightarrow> prepared option" where
  "refused_build E creator first second =
     (case blocked_reason E of
        Some reason \<Rightarrow> Some (not_prepared ''DATA_BLOCKED'' reason)
      | None \<Rightarrow>
          if first \<le> 0 then Some (not_prepared ''REJECTED'' ''non-positive amount'')
          else if second \<le> 0
          then Some (not_prepared ''REJECTED'' ''no protective bound; an unbounded trade is not a trade'')
          else if creator = ''''
          then Some (not_prepared ''DATA_BLOCKED'' ''no curve creator; creator_vault is underivable'')
          else None)"

definition route_build ::
    "route_env \<Rightarrow> pump_route \<Rightarrow> string \<Rightarrow> string \<Rightarrow> string \<Rightarrow> string \<Rightarrow> int \<Rightarrow> int \<Rightarrow> pump_route \<times> prepared" where
  "route_build E r name base_mint creator user first second =
     (case refused_build E creator first second of
        Some p \<Rightarrow> (r, p)
      | None \<Rightarrow>
          let (r, accounts) = cached_accounts E r name base_mint creator user
          in (r, finish_build E name first second accounts))"

definition build_buy :: "route_env \<Rightarrow> pump_route \<Rightarrow> string \<Rightarrow> string \<Rightarrow> string \<Rightarrow> int \<Rightarrow> int \<Rightarrow> pump_route \<times> prepared" where
  "build_buy E r base_mint creator user amount max_sol_cost =
     route_build E r ''buy_v2'' base_mint creator user amount max_sol_cost"

definition build_sell_v2 :: "route_env \<Rightarrow> pump_route \<Rightarrow> string \<Rightarrow> string \<Rightarrow> string \<Rightarrow> int \<Rightarrow> int \<Rightarrow> pump_route \<times> prepared" where
  "build_sell_v2 E r base_mint creator user amount min_sol_output =
     route_build E r ''sell_v2'' base_mint creator user amount min_sol_output"

subsection \<open>The cache holds derivations\<close>

definition cache_inv :: "route_env \<Rightarrow> route_config \<Rightarrow> nat \<Rightarrow> pump_route \<Rightarrow> bool" where
  "cache_inv E cfg n r \<longleftrightarrow> route_cfg r = cfg \<and> cache_size r = n \<and> length (account_cache r) \<le> n
     \<and> distinct (dkeys (account_cache r))
     \<and> (\<forall>k metas. (k, metas) \<in> set (account_cache r) \<longrightarrow>
          (\<exists>name mint creator user. k = cache_key cfg name mint creator user
             \<and> derive_accounts E cfg name mint creator user = Inr metas))"

text \<open>The same without the bound: what holds between an insertion and the eviction after it.\<close>

definition cache_sound :: "route_env \<Rightarrow> pump_route \<Rightarrow> bool" where
  "cache_sound E r \<longleftrightarrow> distinct (dkeys (account_cache r))
     \<and> (\<forall>k metas. (k, metas) \<in> set (account_cache r) \<longrightarrow>
          (\<exists>name mint creator user. k = cache_key (route_cfg r) name mint creator user
             \<and> derive_accounts E (route_cfg r) name mint creator user = Inr metas))"

lemma cache_inv_sound: "cache_inv E cfg n r \<Longrightarrow> cache_sound E r"
  by (auto simp: cache_inv_def cache_sound_def)

lemma cache_key_inj:
  "cache_key cfg name mint creator user = cache_key cfg name' mint' creator' user'
     \<Longrightarrow> name = name' \<and> mint = mint' \<and> creator = creator' \<and> user = user'"
  by (simp add: cache_key_def)

lemma cache_sound_put:
  assumes "cache_sound E r" "derive_accounts E (route_cfg r) name mint creator user = Inr metas"
  shows "cache_sound E (r\<lparr>account_cache := dput (cache_key (route_cfg r) name mint creator user) metas (account_cache r)\<rparr>)"
proof -
  have "\<exists>name mint creator user. k = cache_key (route_cfg r) name mint creator user
      \<and> derive_accounts E (route_cfg r) name mint creator user = Inr v"
    if "(k, v) \<in> set (dput (cache_key (route_cfg r) name mint creator user) metas (account_cache r))" for k v
    using set_dputD [OF that] assms unfolding cache_sound_def by blast
  then show ?thesis using assms(1) by (simp add: cache_sound_def)
qed

lemma cache_sound_evict:
  "cache_sound E r \<Longrightarrow> cache_inv E (route_cfg r) (cache_size r) (evict_accounts r)"
  using set_evict_oldest [of "cache_size r" "account_cache r"]
  by (auto simp: cache_sound_def cache_inv_def evict_accounts_def map_evict_oldest)

lemma cached_lookup:
  assumes "cache_sound E r" "dget (account_cache r) (cache_key (route_cfg r) name mint creator user) = Some metas"
  shows "derive_accounts E (route_cfg r) name mint creator user = Inr metas"
proof -
  have "(cache_key (route_cfg r) name mint creator user, metas) \<in> set (account_cache r)" using assms(2) by (rule map_of_SomeD)
  then obtain name' mint' creator' user'
    where k: "cache_key (route_cfg r) name mint creator user = cache_key (route_cfg r) name' mint' creator' user'"
      and d: "derive_accounts E (route_cfg r) name' mint' creator' user' = Inr metas"
    using assms(1) unfolding cache_sound_def by blast
  from cache_key_inj [OF k] d show ?thesis by simp
qed

text \<open>A lookup is the derivation, whatever has been cached.\<close>

lemma cached_accounts_exact:
  assumes "cache_sound E r"
  shows "snd (cached_accounts E r name mint creator user) = derive_accounts E (route_cfg r) name mint creator user"
proof (cases "dget (account_cache r) (cache_key (route_cfg r) name mint creator user)")
  case None
  then show ?thesis by (simp add: cached_accounts_def Let_def split: sum.split)
next
  case (Some metas)
  then show ?thesis using cached_lookup [OF assms Some] by (simp add: cached_accounts_def Let_def)
qed

lemma cache_inv_counters [simp]:
  "cache_inv E cfg n (r\<lparr>warm_hits := h\<rparr>) \<longleftrightarrow> cache_inv E cfg n r"
  "cache_inv E cfg n (r\<lparr>warm_misses := m\<rparr>) \<longleftrightarrow> cache_inv E cfg n r"
  by (simp_all add: cache_inv_def)

lemma cached_accounts_inv:
  assumes inv: "cache_inv E cfg n r" shows "cache_inv E cfg n (fst (cached_accounts E r name mint creator user))"
proof -
  let ?r = "r\<lparr>warm_misses := warm_misses r + 1\<rparr>"
  have cfg: "route_cfg r = cfg" "cache_size r = n" using inv by (simp_all add: cache_inv_def)
  have s: "cache_sound E ?r" using inv by (intro cache_inv_sound [of E cfg n]) simp
  have "cache_inv E cfg n (evict_accounts (?r\<lparr>account_cache := dput (cache_key cfg name mint creator user) metas (account_cache ?r)\<rparr>))"
    if "derive_accounts E cfg name mint creator user = Inr metas" for metas
    using cache_sound_evict [OF cache_sound_put [OF s, of name mint creator user metas]] that cfg by simp
  then show ?thesis using inv cfg by (simp add: cached_accounts_def Let_def split: option.split sum.split)
qed

lemma warm_name_sound:
  assumes "cache_sound E (fst rw)"
  shows "cache_sound E (fst (warm_name E mint creator user name rw))
    \<and> route_cfg (fst (warm_name E mint creator user name rw)) = route_cfg (fst rw)
    \<and> cache_size (fst (warm_name E mint creator user name rw)) = cache_size (fst rw)"
proof (cases rw)
  case (Pair r w)
  then show ?thesis using assms cache_sound_put [of E r name mint creator user]
    by (cases "derive_accounts E (route_cfg r) name mint creator user") (auto simp: warm_name_def Let_def)
qed

lemma warm_inv: "cache_inv E cfg n r \<Longrightarrow> cache_inv E cfg n (fst (warm E r mint creator user))"
proof -
  assume inv: "cache_inv E cfg n r"
  let ?rw = "warm_name E mint creator user ''sell_v2'' (warm_name E mint creator user ''buy_v2'' (r, 0))"
  have "cache_sound E (fst (r, 0 :: nat))" using cache_inv_sound [OF inv] by simp
  from warm_name_sound [OF this, of mint creator user "''buy_v2''"]
  have s: "cache_sound E (fst ?rw)" "route_cfg (fst ?rw) = route_cfg r" "cache_size (fst ?rw) = cache_size r"
    using warm_name_sound [of E "warm_name E mint creator user ''buy_v2'' (r, 0)" mint creator user "''sell_v2''"] by auto
  have "fst (warm E r mint creator user) = evict_accounts (fst ?rw)"
    by (simp add: warm_def Let_def split: prod.split)
  then show ?thesis using cache_sound_evict [OF s(1)] s(2,3) inv by (simp add: cache_inv_def)
qed

datatype route_event = Warmed string string string | Built string string string string int int

definition route_step :: "route_env \<Rightarrow> pump_route \<Rightarrow> route_event \<Rightarrow> pump_route" where
  "route_step E r ev =
     (case ev of
        Warmed mint creator user \<Rightarrow> fst (warm E r mint creator user)
      | Built name mint creator user first second \<Rightarrow> fst (route_build E r name mint creator user first second))"

interpretation routes: machine "route_step E" "cache_inv E cfg n" for E cfg n
proof
  fix r ev assume inv: "cache_inv E cfg n r"
  show "cache_inv E cfg n (route_step E r ev)"
  proof (cases ev)
    case (Warmed mint creator user)
    then show ?thesis using warm_inv [OF inv] by (simp add: route_step_def)
  next
    case (Built name mint creator user first second)
    have "fst (route_build E r name mint creator user first second) = r
        \<or> fst (route_build E r name mint creator user first second) = fst (cached_accounts E r name mint creator user)"
      by (simp add: route_build_def split: option.split prod.split)
    then show ?thesis using inv cached_accounts_inv [OF inv] by (auto simp: Built route_step_def)
  qed
qed

lemma new_route_inv: "cache_inv E cfg (max 1 n) (new_route cfg n)"
  by (simp add: cache_inv_def new_route_def)

text \<open>What an argument list encodes to.\<close>

lemma encode_u64_argsD:
  assumes "encode_u64_args lib load idl_name ins values = Inr data"
  shows "\<exists>bs. data = take 8 (sha256 lib (text_bytes (''global:'' @ ins))) @ bs \<and> encode_values values = Inr bs"
  using assms
  by (auto simp: encode_u64_args_def discriminator_def Let_def rbind_Inr_iff split: if_splits)

lemma encode_two:
  "encode_values [a, b] = Inr bs \<Longrightarrow> bs = le_bytes 8 a @ le_bytes 8 b \<and> 0 \<le> a \<and> a < 2 ^ 64 \<and> 0 \<le> b \<and> b < 2 ^ 64"
  by (auto split: if_splits)

lemma pick_recipient_in: "xs \<noteq> [] \<Longrightarrow> pick_recipient xs mint \<in> set xs"
  by (simp add: pick_recipient_def)

text \<open>A finished build carries its accounts, the discriminator and the two amounts.\<close>

lemma finish_build_ok:
  assumes "prep_ok (finish_build E name first second accounts)"
  shows "accounts = Inr (prep_accounts (finish_build E name first second accounts))
    \<and> prep_data (finish_build E name first second accounts)
        = take 8 (sha256 (key_lib E) (text_bytes (''global:'' @ name))) @ le_bytes 8 first @ le_bytes 8 second
    \<and> first < 2 ^ 64 \<and> second < 2 ^ 64 \<and> prep_venue (finish_build E name first second accounts) = ''pump_curve''"
proof (cases "rbind accounts (\<lambda>metas.
    rbind (encode_u64_args (key_lib E) (idls E) PUMP_IDL name [first, second]) (\<lambda>data. Inr (metas, data)))")
  case (Inl e)
  then show ?thesis using assms by (simp add: finish_build_def prep_ok_def not_prepared_def)
next
  case (Inr md)
  then obtain metas data where md: "md = (metas, data)" "accounts = Inr metas"
      "encode_u64_args (key_lib E) (idls E) PUMP_IDL name [first, second] = Inr data"
    by (auto simp: rbind_Inr_iff)
  obtain bs where "data = take 8 (sha256 (key_lib E) (text_bytes (''global:'' @ name))) @ bs" "encode_values [first, second] = Inr bs"
    using encode_u64_argsD [OF md(3)] by blast
  then show ?thesis
    using assms Inr md encode_two [of first second bs]
    by (auto simp: finish_build_def prep_ok_def not_prepared_def Let_def split: if_splits)
qed

lemma finish_build_refused:
  "\<not> prep_ok (finish_build E name first second accounts)
     \<Longrightarrow> prep_accounts (finish_build E name first second accounts) = [] \<and> prep_data (finish_build E name first second accounts) = []"
  by (auto simp: finish_build_def prep_ok_def not_prepared_def Let_def split: sum.splits prod.splits if_splits)

lemma refused_build_None:
  "refused_build E creator first second = None
     \<Longrightarrow> blocked_reason E = None \<and> 0 < first \<and> 0 < second \<and> creator \<noteq> ''''"
  by (auto simp: refused_build_def split: option.splits if_splits)

lemma refused_build_Some:
  "refused_build E creator first second = Some p \<Longrightarrow> \<not> prep_ok p \<and> prep_accounts p = [] \<and> prep_data p = []"
  by (auto simp: refused_build_def prep_ok_def not_prepared_def split: option.splits if_splits)

text \<open>An accepted build, whatever the cache held.\<close>

lemma route_build_ok:
  assumes "prep_ok (snd (route_build E r name mint creator user first second))"
  shows "prep_data (snd (route_build E r name mint creator user first second))
      = take 8 (sha256 (key_lib E) (text_bytes (''global:'' @ name))) @ le_bytes 8 first @ le_bytes 8 second
    \<and> 0 < first \<and> 0 < second \<and> prep_venue (snd (route_build E r name mint creator user first second)) = ''pump_curve''"
proof (cases "refused_build E creator first second")
  case (Some p)
  then show ?thesis using assms refused_build_Some [OF Some] by (simp add: route_build_def)
next
  case None
  obtain r' accounts where "cached_accounts E r name mint creator user = (r', accounts)" by fastforce
  then show ?thesis using assms None refused_build_None [OF None] finish_build_ok by (simp add: route_build_def)
qed

subsection \<open>Properties\<close>

text \<open>
  C9: warming and caching never change a transaction: after any history of warms and builds a build
  gives what a cold route gives; an accepted instruction carries the accounts derived for exactly its
  mint, creator and user, the discriminator and the two amounts, both positive 64-bit values; a refused
  one carries nothing; and the cache stays within its size.
\<close>

theorem cached_build_is_cold_build:
  "let r = run (route_step E) (new_route cfg n) evs;
       p = snd (route_build E r name mint creator user first second)
   in p = snd (route_build E (new_route cfg n) name mint creator user first second)
      \<and> length (account_cache r) \<le> max 1 n
      \<and> (if prep_ok p
         then derive_accounts E cfg name mint creator user = Inr (prep_accounts p)
           \<and> prep_data p = take 8 (sha256 (key_lib E) (text_bytes (''global:'' @ name))) @ le_bytes 8 first @ le_bytes 8 second
           \<and> 0 < first \<and> first < 2 ^ 64 \<and> 0 < second \<and> second < 2 ^ 64 \<and> creator \<noteq> ''''
           \<and> select_buyback_recipient (published E) mint \<in> set (buyback_recipients (published E))
         else prep_accounts p = [] \<and> prep_data p = [])"
proof -
  define r where "r = run (route_step E) (new_route cfg n) evs"
  have inv: "cache_inv E cfg (max 1 n) r" unfolding r_def by (rule routes.run_inv [OF new_route_inv])
  have exact: "snd (cached_accounts E s name mint creator user) = derive_accounts E cfg name mint creator user"
    if "cache_inv E cfg (max 1 n) s" for s
    using cached_accounts_exact [OF cache_inv_sound [OF that], of name mint creator user] that by (simp add: cache_inv_def)
  have build: "snd (route_build E s name mint creator user first second) =
      (case refused_build E creator first second of
         Some p \<Rightarrow> p
       | None \<Rightarrow> finish_build E name first second (derive_accounts E cfg name mint creator user))"
    if "cache_inv E cfg (max 1 n) s" for s
    using exact [OF that] by (simp add: route_build_def split: option.split prod.split) (metis snd_conv)
  define p where "p = snd (route_build E r name mint creator user first second)"
  have same: "p = snd (route_build E (new_route cfg n) name mint creator user first second)"
    unfolding p_def build [OF inv] build [OF new_route_inv] ..
  have len: "length (account_cache r) \<le> max 1 n" using inv by (simp add: cache_inv_def)
  have content: "if prep_ok p
         then derive_accounts E cfg name mint creator user = Inr (prep_accounts p)
           \<and> prep_data p = take 8 (sha256 (key_lib E) (text_bytes (''global:'' @ name))) @ le_bytes 8 first @ le_bytes 8 second
           \<and> 0 < first \<and> first < 2 ^ 64 \<and> 0 < second \<and> second < 2 ^ 64 \<and> creator \<noteq> ''''
           \<and> select_buyback_recipient (published E) mint \<in> set (buyback_recipients (published E))
         else prep_accounts p = [] \<and> prep_data p = []"
  proof (cases "refused_build E creator first second")
    case (Some q)
    then show ?thesis using refused_build_Some [OF Some] by (simp add: p_def build [OF inv])
  next
    case None
    note ok = refused_build_None [OF None]
    then have "buyback_recipients (published E) \<noteq> []"
      by (auto simp: blocked_reason_def group_of_def split: if_splits)
    then have bb: "select_buyback_recipient (published E) mint \<in> set (buyback_recipients (published E))"
      by (simp add: select_buyback_recipient_def group_of_def pick_recipient_in)
    have p: "p = finish_build E name first second (derive_accounts E cfg name mint creator user)"
      using None by (simp add: p_def build [OF inv])
    show ?thesis
    proof (cases "prep_ok p")
      case True
      then show ?thesis using finish_build_ok [of E name first second] ok bb unfolding p by simp
    next
      case False
      then show ?thesis using finish_build_refused [of E name first second] unfolding p by simp
    qed
  qed
  show ?thesis using same len content unfolding r_def p_def Let_def by blast
qed

end
