(* ===== verification/PumpSwapRoute.thy ===== *)
theory PumpSwapRoute
  imports PumpRoute
begin

text \<open>
  \<open>chains/pumpswap_route.py\<close>: decoding a pool account and building \<open>buy\<close> and \<open>sell\<close> against it.
  The native builder is an argument: absent, or a function that may raise.  The environment (IDLs, key
  library, published recipients) is that of \<open>PumpRoute\<close>.
\<close>

subsection \<open>The pool account\<close>

definition POOL_DISCRIMINATOR :: bytes where "POOL_DISCRIMINATOR = [0xf1, 0x9a, 0x6d, 0x04, 0x11, 0xb1, 0x6d, 0xbc]"

type_synonym layout = "(string \<times> nat \<times> string) list"

definition POOL_LAYOUT :: layout where
  "POOL_LAYOUT =
     [(''pool_bump'', 1, ''u8''), (''index'', 2, ''u16''), (''creator'', 32, ''pubkey''),
      (''base_mint'', 32, ''pubkey''), (''quote_mint'', 32, ''pubkey''), (''lp_mint'', 32, ''pubkey''),
      (''pool_base_token_account'', 32, ''pubkey''), (''pool_quote_token_account'', 32, ''pubkey''),
      (''lp_supply'', 8, ''u64''), (''coin_creator'', 32, ''pubkey''), (''is_mayhem_mode'', 1, ''bool''),
      (''is_cashback_coin'', 1, ''bool''), (''virtual_quote_reserves'', 16, ''i128'')]"

definition POOL_SIZE :: nat where "POOL_SIZE = 8 + sum_list (map (\<lambda>(_, width, _). width) POOL_LAYOUT)"

datatype field_value = Key_val string | Bool_val bool | Int_val int

record decoded_pool =
  pool_status :: string
  pool_address :: string
  pool_index :: int
  pool_creator :: string
  pool_base_mint :: string
  pool_quote_mint :: string
  lp_mint :: string
  pool_base_token_account :: string
  pool_quote_token_account :: string
  lp_supply :: int
  coin_creator :: string
  is_mayhem_mode :: bool
  is_cashback_coin :: bool
  virtual_quote_reserves :: int
  pool_detail :: string

definition no_pool :: "string \<Rightarrow> decoded_pool" where
  "no_pool detail =
     \<lparr>pool_status = ''DATA_BLOCKED'', pool_address = '''', pool_index = 0, pool_creator = '''', pool_base_mint = '''',
      pool_quote_mint = '''', lp_mint = '''', pool_base_token_account = '''', pool_quote_token_account = '''',
      lp_supply = 0, coin_creator = '''', is_mayhem_mode = False, is_cashback_coin = False,
      virtual_quote_reserves = 0, pool_detail = detail\<rparr>"

definition pool_ok :: "decoded_pool \<Rightarrow> bool" where "pool_ok p \<longleftrightarrow> pool_status p = ''OK''"

definition field_of :: "key_library \<Rightarrow> string \<Rightarrow> bytes \<Rightarrow> idl_error + field_value" where
  "field_of lib kind chunk =
     (if kind = ''pubkey'' then rbind (of_key (key_text lib chunk)) (\<lambda>a. Inr (Key_val a))
      else if kind = ''bool'' then Inr (Bool_val (chunk ! 0 \<noteq> 0))
      else if kind = ''i128'' then Inr (Int_val (le_sval chunk))
      else Inr (Int_val (le_val chunk)))"

text \<open>The loop over the layout; \<open>data\<close> is what is left from the current offset on.\<close>

fun read_fields :: "key_library \<Rightarrow> layout \<Rightarrow> bytes \<Rightarrow> idl_error + (string, field_value) dict" where
  "read_fields lib [] data = Inr []"
| "read_fields lib ((name, width, kind) # fs) data =
     rbind (field_of lib kind (take width data)) (\<lambda>v.
       rbind (read_fields lib fs (drop width data)) (\<lambda>values. Inr ((name, v) # values)))"

definition key_at :: "(string, field_value) dict \<Rightarrow> string \<Rightarrow> string" where
  "key_at values name = (case dget values name of Some (Key_val a) \<Rightarrow> a | _ \<Rightarrow> '''')"
definition bool_at :: "(string, field_value) dict \<Rightarrow> string \<Rightarrow> bool" where
  "bool_at values name = (case dget values name of Some (Bool_val b) \<Rightarrow> b | _ \<Rightarrow> False)"
definition int_at :: "(string, field_value) dict \<Rightarrow> string \<Rightarrow> int" where
  "int_at values name = (case dget values name of Some (Int_val v) \<Rightarrow> v | _ \<Rightarrow> 0)"

definition pool_of_values :: "string \<Rightarrow> (string, field_value) dict \<Rightarrow> decoded_pool" where
  "pool_of_values address values =
     \<lparr>pool_status = ''OK'', pool_address = address, pool_index = int_at values ''index'',
      pool_creator = key_at values ''creator'', pool_base_mint = key_at values ''base_mint'',
      pool_quote_mint = key_at values ''quote_mint'', lp_mint = key_at values ''lp_mint'',
      pool_base_token_account = key_at values ''pool_base_token_account'',
      pool_quote_token_account = key_at values ''pool_quote_token_account'',
      lp_supply = int_at values ''lp_supply'', coin_creator = key_at values ''coin_creator'',
      is_mayhem_mode = bool_at values ''is_mayhem_mode'', is_cashback_coin = bool_at values ''is_cashback_coin'',
      virtual_quote_reserves = int_at values ''virtual_quote_reserves'', pool_detail = ''''\<rparr>"

definition parse_pool :: "route_env \<Rightarrow> bytes \<Rightarrow> string \<Rightarrow> idl_error + decoded_pool" where
  "parse_pool E data address =
     (if idl_status E \<noteq> ''OK'' then Inr (no_pool (idl_status E))
      else if length data < POOL_SIZE
      then Inr (no_pool (''account is '' @ nat_str (length data) @ '' bytes, Pool needs '' @ nat_str POOL_SIZE))
      else if take 8 data \<noteq> POOL_DISCRIMINATOR
      then Inr (no_pool (''discriminator '' @ hex_str (take 8 data) @ '' is not a Pool''))
      else rbind (read_fields (key_lib E) POOL_LAYOUT (drop 8 data)) (\<lambda>values. Inr (pool_of_values address values)))"

subsection \<open>Addresses under the PumpSwap program\<close>

definition pumpswap_program :: "route_env \<Rightarrow> string" where
  "pumpswap_program E =
     (if idl_status E = ''OK'' then (case program_id (idls E) PUMP_AMM_IDL of Inr p \<Rightarrow> p | Inl _ \<Rightarrow> '''') else '''')"

text \<open>\<open>None\<close> when the index does not fit two bytes or the key library raises.\<close>

definition derive_pool :: "route_env \<Rightarrow> int \<Rightarrow> string \<Rightarrow> string \<Rightarrow> string \<Rightarrow> string option" where
  "derive_pool E index creator base_mint quote_mint =
     (if index < 0 \<or> 2 ^ 16 \<le> index then None
      else case (key_bytes (key_lib E) creator, key_bytes (key_lib E) base_mint, key_bytes (key_lib E) quote_mint) of
        (Some c, Some b, Some q) \<Rightarrow>
          find_program_address (key_lib E) [text_bytes ''pool'', le_bytes 2 index, c, b, q] (pumpswap_program E)
      | _ \<Rightarrow> None)"

definition auxiliary_pda :: "route_env \<Rightarrow> string \<Rightarrow> string \<Rightarrow> idl_error + string" where
  "auxiliary_pda E seed key =
     rbind (of_key (key_bytes (key_lib E) key)) (\<lambda>k.
       of_key (find_program_address (key_lib E) [text_bytes seed, k] (pumpswap_program E)))"

definition meta :: "string \<Rightarrow> bool \<Rightarrow> bool \<Rightarrow> account_meta" where
  "meta key signer writable = \<lparr>pubkey = key, is_signer = signer, is_writable = writable\<rparr>"

definition cashback_accounts :: "route_env \<Rightarrow> string \<Rightarrow> decoded_pool \<Rightarrow> string \<Rightarrow> string \<Rightarrow> idl_error + account_meta list" where
  "cashback_accounts E name pool user quote_program =
     (if is_cashback_coin pool
      then rbind (auxiliary_pda E ''user_volume_accumulator'' user) (\<lambda>accumulator.
        rbind (associated_token_address (key_lib E) accumulator (pool_quote_mint pool) quote_program) (\<lambda>ata.
          Inr (meta ata False True # (if name = ''sell'' then [meta accumulator False True] else []))))
      else Inr [])"

definition pool_v2_accounts :: "route_env \<Rightarrow> decoded_pool \<Rightarrow> idl_error + account_meta list" where
  "pool_v2_accounts E pool =
     (if coin_creator pool \<noteq> SYSTEM_PROGRAM_ID
      then rbind (auxiliary_pda E ''pool-v2'' (pool_base_mint pool)) (\<lambda>a. Inr [meta a False False])
      else Inr [])"

definition remaining_accounts :: "route_env \<Rightarrow> string \<Rightarrow> decoded_pool \<Rightarrow> string \<Rightarrow> string \<Rightarrow> idl_error + account_meta list" where
  "remaining_accounts E name pool user quote_program =
     rbind (cashback_accounts E name pool user quote_program) (\<lambda>cashback.
       rbind (pool_v2_accounts E pool) (\<lambda>v2.
         let recipient = select_buyback_recipient (published E) (pool_base_mint pool)
         in if recipient = '''' then Inl (Unavailable ''published buyback recipients unavailable'')
            else rbind (associated_token_address (key_lib E) recipient (pool_quote_mint pool) quote_program) (\<lambda>ata.
              Inr (cashback @ v2 @ [meta recipient False False, meta ata False True]))))"

subsection \<open>The instruction\<close>

record swap_config =
  swap_base_program :: string
  swap_quote_program :: string

definition default_swap_config :: swap_config where
  "default_swap_config = \<lparr>swap_base_program = TOKEN_2022_PROGRAM, swap_quote_program = TOKEN_PROGRAM\<rparr>"

definition swap_blocked_reason :: "route_env \<Rightarrow> string option" where
  "swap_blocked_reason E = (if idl_status E = ''OK'' then None else Some (idl_status E))"

definition pumpswap_result :: "string \<Rightarrow> string \<Rightarrow> prepared" where
  "pumpswap_result status detail = (not_prepared status detail)\<lparr>prep_venue := ''pumpswap''\<rparr>"

text \<open>What the caller supplies to the resolution; the derivations here stand outside the \<open>try\<close>.\<close>

definition swap_supplied :: "route_env \<Rightarrow> swap_config \<Rightarrow> decoded_pool \<Rightarrow> string \<Rightarrow> idl_error + keys" where
  "swap_supplied E cfg pool user =
     rbind (of_key (find_program_address (key_lib E) [text_bytes ''global_config''] (pumpswap_program E))) (\<lambda>global_config.
       rbind (program_id (idls E) PUMP_FEES_IDL) (\<lambda>fee_program.
         rbind (associated_token_address (key_lib E) user (pool_base_mint pool) (swap_base_program cfg)) (\<lambda>user_base.
           rbind (associated_token_address (key_lib E) user (pool_quote_mint pool) (swap_quote_program cfg)) (\<lambda>user_quote.
             Inr [(''pool'', pool_address pool), (''user'', user), (''global_config'', global_config),
                  (''base_mint'', pool_base_mint pool), (''quote_mint'', pool_quote_mint pool),
                  (''base_token_program'', swap_base_program cfg), (''quote_token_program'', swap_quote_program cfg),
                  (''system_program'', SYSTEM_PROGRAM_ID), (''associated_token_program'', ASSOCIATED_TOKEN_PROGRAM),
                  (''fee_program'', fee_program),
                  (''protocol_fee_recipient'', select_fee_recipient (published E) (pool_base_mint pool) (is_mayhem_mode pool)),
                  (''user_base_token_account'', user_base), (''user_quote_token_account'', user_quote),
                  (''pool_base_token_account'', pool_base_token_account pool),
                  (''pool_quote_token_account'', pool_quote_token_account pool),
                  (''pool.coin_creator'', coin_creator pool)]))))"

definition swap_prefix :: "route_env \<Rightarrow> string \<Rightarrow> keys \<Rightarrow> int \<Rightarrow> int \<Rightarrow> idl_error + account_meta list \<times> bytes" where
  "swap_prefix E name supplied first second =
     rbind (build_accounts (key_lib E) (idl_status E) (idls E) PUMP_AMM_IDL name supplied) (\<lambda>accounts.
       rbind (encode_u64_args (key_lib E) (idls E) PUMP_AMM_IDL name [first, second]) (\<lambda>data.
         Inr (accounts, if name = ''buy'' then data @ [0] else data)))"

text \<open>The native extension, when it is there: \<open>None\<close> from a builder is an exception.\<close>

type_synonym native_instruction = "bytes \<times> (bytes \<times> bool \<times> bool) list \<times> bytes"
type_synonym native_builders = "(string \<Rightarrow> bytes list \<Rightarrow> int \<Rightarrow> int \<Rightarrow> native_instruction option) option"

definition native_meta :: "key_library \<Rightarrow> bytes \<times> bool \<times> bool \<Rightarrow> idl_error + account_meta" where
  "native_meta lib row = (case row of (key, signer, writable) \<Rightarrow>
     rbind (of_key (key_text lib key)) (\<lambda>a. Inr (meta a signer writable)))"

definition native_build ::
    "key_library \<Rightarrow> (string \<Rightarrow> bytes list \<Rightarrow> int \<Rightarrow> int \<Rightarrow> native_instruction option) \<Rightarrow> string \<Rightarrow> account_meta list
       \<Rightarrow> int \<Rightarrow> int \<Rightarrow> idl_error + string \<times> account_meta list \<times> bytes" where
  "native_build lib builder name accounts first second =
     rbind (rmap (\<lambda>m. of_key (key_bytes lib (pubkey m))) accounts) (\<lambda>raw_keys.
       rbind (of_key (builder name raw_keys first second)) (\<lambda>(program, rows, data).
         rbind (of_key (key_text lib program)) (\<lambda>native_program.
           rbind (rmap (native_meta lib) rows) (\<lambda>native_accounts. Inr (native_program, native_accounts, data)))))"

text \<open>The parity check: the instruction to use, or why the build is refused.\<close>

definition native_parity ::
    "route_env \<Rightarrow> native_builders \<Rightarrow> string \<Rightarrow> account_meta list \<Rightarrow> bytes \<Rightarrow> int \<Rightarrow> int \<Rightarrow> string + account_meta list \<times> bytes" where
  "native_parity E native name accounts data first second =
     (case native of
        None \<Rightarrow> Inr (accounts, data)
      | Some builder \<Rightarrow>
          (case native_build (key_lib E) builder name accounts first second of
             Inl e \<Rightarrow> Inl (''native PumpSwap construction failed closed: '' @ error_text E e)
           | Inr (native_program, native_accounts, native_data) \<Rightarrow>
               let shape = (\<lambda>m :: account_meta. (pubkey m, is_signer m, is_writable m))
               in if native_program \<noteq> pumpswap_program E \<or> map shape native_accounts \<noteq> map shape accounts
                     \<or> native_data \<noteq> data
                  then Inl ''native/Python PumpSwap instruction parity mismatch''
                  else Inr (native_accounts, native_data)))"

definition refused_swap :: "route_env \<Rightarrow> decoded_pool \<Rightarrow> int \<Rightarrow> int \<Rightarrow> prepared option" where
  "refused_swap E pool first second =
     (case swap_blocked_reason E of
        Some reason \<Rightarrow> Some (pumpswap_result ''DATA_BLOCKED'' reason)
      | None \<Rightarrow>
          if \<not> pool_ok pool then Some (not_prepared ''DATA_BLOCKED'' (''pool not decoded: '' @ pool_detail pool))
          else if pool_address pool = ''''
          then Some (not_prepared ''DATA_BLOCKED'' ''pool address unknown; it is an input, never derived from the mint'')
          else if first \<le> 0 then Some (not_prepared ''REJECTED'' ''non-positive amount'')
          else if second \<le> 0
          then Some (not_prepared ''REJECTED'' ''no protective bound; an unbounded trade is not a trade'')
          else None)"

definition finish_swap ::
    "route_env \<Rightarrow> swap_config \<Rightarrow> native_builders \<Rightarrow> string \<Rightarrow> decoded_pool \<Rightarrow> string \<Rightarrow> int \<Rightarrow> int \<Rightarrow> keys \<Rightarrow> prepared" where
  "finish_swap E cfg native name pool user first second supplied =
     (case swap_prefix E name supplied first second of
        Inl e \<Rightarrow> not_prepared ''REJECTED'' (''unbuildable: '' @ error_text E e)
      | Inr (accounts, data) \<Rightarrow>
          (case native_parity E native name accounts data first second of
             Inl detail \<Rightarrow> pumpswap_result ''DATA_BLOCKED'' detail
           | Inr (accounts, data) \<Rightarrow>
               (case remaining_accounts E name pool user (swap_quote_program cfg) of
                  Inl e \<Rightarrow> pumpswap_result ''DATA_BLOCKED'' (''current runtime accounts unavailable: '' @ error_text E e)
                | Inr rest \<Rightarrow>
                    \<lparr>prep_status = ''OK'', prep_program = pumpswap_program E, prep_accounts = accounts @ rest,
                     prep_data = data, prep_detail = '''', expected_accounts = length (accounts @ rest),
                     prep_venue = ''pumpswap''\<rparr>)))"

definition swap_build ::
    "route_env \<Rightarrow> swap_config \<Rightarrow> native_builders \<Rightarrow> string \<Rightarrow> decoded_pool \<Rightarrow> string \<Rightarrow> int \<Rightarrow> int \<Rightarrow> idl_error + prepared" where
  "swap_build E cfg native name pool user first second =
     (case refused_swap E pool first second of
        Some p \<Rightarrow> Inr p
      | None \<Rightarrow> rbind (swap_supplied E cfg pool user) (\<lambda>supplied.
          Inr (finish_swap E cfg native name pool user first second supplied)))"

definition swap_buy ::
    "route_env \<Rightarrow> swap_config \<Rightarrow> native_builders \<Rightarrow> decoded_pool \<Rightarrow> string \<Rightarrow> int \<Rightarrow> int \<Rightarrow> idl_error + prepared" where
  "swap_buy E cfg native pool user base_amount_out max_quote_amount_in =
     swap_build E cfg native ''buy'' pool user base_amount_out max_quote_amount_in"

definition swap_sell ::
    "route_env \<Rightarrow> swap_config \<Rightarrow> native_builders \<Rightarrow> decoded_pool \<Rightarrow> string \<Rightarrow> int \<Rightarrow> int \<Rightarrow> idl_error + prepared" where
  "swap_sell E cfg native pool user base_amount_in min_quote_amount_out =
     swap_build E cfg native ''sell'' pool user base_amount_in min_quote_amount_out"

subsection \<open>Writing an account\<close>

text \<open>
  The specification of the layout: a field written the way the program stores it.  A negative value is
  written in two's complement, which is what \<open>le_bytes\<close> does.
\<close>

definition field_bytes :: "key_library \<Rightarrow> nat \<Rightarrow> field_value \<Rightarrow> bytes" where
  "field_bytes lib width v =
     (case v of
        Key_val a \<Rightarrow> (case key_bytes lib a of Some bs \<Rightarrow> bs | None \<Rightarrow> [])
      | Bool_val b \<Rightarrow> [if b then 1 else 0]
      | Int_val n \<Rightarrow> le_bytes width n)"

text \<open>An address the key library reads back from the bytes it gives for it.\<close>

definition is_key :: "key_library \<Rightarrow> string \<Rightarrow> bool" where
  "is_key lib a \<longleftrightarrow> (case key_bytes lib a of None \<Rightarrow> False | Some bs \<Rightarrow> length bs = 32 \<and> key_text lib bs = Some a)"

definition field_fits :: "key_library \<Rightarrow> nat \<Rightarrow> string \<Rightarrow> field_value \<Rightarrow> bool" where
  "field_fits lib width kind v =
     (case v of
        Key_val a \<Rightarrow> kind = ''pubkey'' \<and> width = 32 \<and> is_key lib a
      | Bool_val b \<Rightarrow> kind = ''bool'' \<and> width = 1
      | Int_val n \<Rightarrow> kind \<noteq> ''pubkey'' \<and> kind \<noteq> ''bool'' \<and>
          (if kind = ''i128'' then - (256 ^ width) \<le> 2 * n \<and> 2 * n < 256 ^ width else 0 \<le> n \<and> n < 256 ^ width))"

fun write_fields :: "key_library \<Rightarrow> layout \<Rightarrow> (string, field_value) dict \<Rightarrow> bytes" where
  "write_fields lib ((name, width, kind) # fs) ((name', v) # vs) = field_bytes lib width v @ write_fields lib fs vs"
| "write_fields lib _ _ = []"

fun fields_fit :: "key_library \<Rightarrow> layout \<Rightarrow> (string, field_value) dict \<Rightarrow> bool" where
  "fields_fit lib [] [] = True"
| "fields_fit lib ((name, width, kind) # fs) ((name', v) # vs) = (name' = name \<and> field_fits lib width kind v \<and> fields_fit lib fs vs)"
| "fields_fit lib _ _ = False"

lemma field_bytes_length: "field_fits lib width kind v \<Longrightarrow> length (field_bytes lib width v) = width"
  by (auto simp: field_fits_def field_bytes_def is_key_def split: field_value.splits option.splits)

lemma field_of_bytes: "field_fits lib width kind v \<Longrightarrow> field_of lib kind (field_bytes lib width v) = Inr v"
  by (auto simp: field_fits_def field_bytes_def is_key_def field_of_def le_val_le_bytes le_sval_le_bytes of_key_def
      split: field_value.splits option.splits if_splits)

text \<open>Any layout reads back what was written for it, whatever follows.\<close>

lemma read_write_fields:
  "fields_fit lib fs vs \<Longrightarrow> read_fields lib fs (write_fields lib fs vs @ rest) = Inr vs"
  by (induction lib fs vs rule: fields_fit.induct) (auto simp: field_bytes_length field_of_bytes)

lemma write_fields_length:
  "fields_fit lib fs vs \<Longrightarrow> length (write_fields lib fs vs) = sum_list (map (\<lambda>(_, width, _). width) fs)"
  by (induction lib fs vs rule: fields_fit.induct) (auto simp: field_bytes_length)

definition pool_values :: "int \<Rightarrow> decoded_pool \<Rightarrow> (string, field_value) dict" where
  "pool_values bump p =
     [(''pool_bump'', Int_val bump), (''index'', Int_val (pool_index p)), (''creator'', Key_val (pool_creator p)),
      (''base_mint'', Key_val (pool_base_mint p)), (''quote_mint'', Key_val (pool_quote_mint p)),
      (''lp_mint'', Key_val (lp_mint p)), (''pool_base_token_account'', Key_val (pool_base_token_account p)),
      (''pool_quote_token_account'', Key_val (pool_quote_token_account p)), (''lp_supply'', Int_val (lp_supply p)),
      (''coin_creator'', Key_val (coin_creator p)), (''is_mayhem_mode'', Bool_val (is_mayhem_mode p)),
      (''is_cashback_coin'', Bool_val (is_cashback_coin p)),
      (''virtual_quote_reserves'', Int_val (virtual_quote_reserves p))]"

definition pool_account :: "key_library \<Rightarrow> int \<Rightarrow> decoded_pool \<Rightarrow> bytes" where
  "pool_account lib bump p = POOL_DISCRIMINATOR @ write_fields lib POOL_LAYOUT (pool_values bump p)"

text \<open>A pool an account can hold: every value in its width, every address one of the key library's.\<close>

definition storable :: "key_library \<Rightarrow> decoded_pool \<Rightarrow> bool" where
  "storable lib p \<longleftrightarrow> pool_status p = ''OK'' \<and> pool_detail p = '''' \<and> 0 \<le> pool_index p \<and> pool_index p < 2 ^ 16
     \<and> 0 \<le> lp_supply p \<and> lp_supply p < 2 ^ 64
     \<and> - (2 ^ 127) \<le> virtual_quote_reserves p \<and> virtual_quote_reserves p < 2 ^ 127
     \<and> (\<forall>a \<in> {pool_creator p, pool_base_mint p, pool_quote_mint p, lp_mint p, pool_base_token_account p,
              pool_quote_token_account p, coin_creator p}. is_key lib a)"

lemma storable_fits:
  "storable lib p \<Longrightarrow> 0 \<le> bump \<Longrightarrow> bump < 256 \<Longrightarrow> fields_fit lib POOL_LAYOUT (pool_values bump p)"
  by (simp add: POOL_LAYOUT_def pool_values_def storable_def field_fits_def)

lemma pool_of_own_values:
  "pool_status p = ''OK'' \<Longrightarrow> pool_detail p = '''' \<Longrightarrow> pool_of_values (pool_address p) (pool_values bump p) = p"
  by (cases p) (simp add: pool_of_values_def pool_values_def key_at_def bool_at_def int_at_def)

text \<open>
  A Pool account in the published layout decodes to exactly the pool it was written from, with the
  fee creator read from its own field, both flags and the signed virtual reserves, whatever bytes follow.
\<close>

lemma pool_account_roundtrip:
  assumes "idl_status E = ''OK''" "storable (key_lib E) p" "0 \<le> bump" "bump < 256"
  shows "parse_pool E (pool_account (key_lib E) bump p @ rest) (pool_address p) = Inr p"
proof -
  have fits: "fields_fit (key_lib E) POOL_LAYOUT (pool_values bump p)" using assms(2-4) by (rule storable_fits)
  have p: "pool_status p = ''OK''" "pool_detail p = ''''" using assms(2) by (simp_all add: storable_def)
  have "length POOL_DISCRIMINATOR = 8" by (simp add: POOL_DISCRIMINATOR_def)
  then show ?thesis
    using assms(1) write_fields_length [OF fits]
    by (simp add: parse_pool_def pool_account_def POOL_SIZE_def read_write_fields [OF fits] pool_of_own_values [OF p])
qed

subsection \<open>What an accepted instruction is\<close>

lemma cashback_accounts_length:
  "cashback_accounts E name pool user q = Inr xs
     \<Longrightarrow> length xs = (if is_cashback_coin pool then if name = ''sell'' then 2 else 1 else 0)"
  by (auto simp: cashback_accounts_def rbind_Inr_iff split: if_splits)

lemma pool_v2_accounts_length:
  "pool_v2_accounts E pool = Inr xs \<Longrightarrow> length xs = (if coin_creator pool = SYSTEM_PROGRAM_ID then 0 else 1)"
  by (auto simp: pool_v2_accounts_def rbind_Inr_iff split: if_splits)

lemma native_parity_same:
  assumes "native_parity E native name accounts data first second = Inr (accounts', data')"
  shows "accounts' = accounts \<and> data' = data"
proof -
  have "inj (\<lambda>m :: account_meta. (pubkey m, is_signer m, is_writable m))"
    by (rule injI) (simp add: account_meta.equality)
  then show ?thesis using assms
    by (auto simp: native_parity_def Let_def dest: map_injective split: option.splits sum.splits if_splits)
qed

lemma swap_prefix_parts:
  assumes "swap_prefix E name supplied first second = Inr (accounts, data)"
  shows "build_accounts (key_lib E) (idl_status E) (idls E) PUMP_AMM_IDL name supplied = Inr accounts
    \<and> data = take 8 (sha256 (key_lib E) (text_bytes (''global:'' @ name))) @ le_bytes 8 first @ le_bytes 8 second
        @ (if name = ''buy'' then [0] else [])
    \<and> first < 2 ^ 64 \<and> second < 2 ^ 64"
proof -
  obtain raw where b: "build_accounts (key_lib E) (idl_status E) (idls E) PUMP_AMM_IDL name supplied = Inr accounts"
    and raw: "encode_u64_args (key_lib E) (idls E) PUMP_AMM_IDL name [first, second] = Inr raw"
    and d: "data = (if name = ''buy'' then raw @ [0] else raw)"
    using assms by (auto simp: swap_prefix_def rbind_Inr_iff)
  obtain bs where "raw = take 8 (sha256 (key_lib E) (text_bytes (''global:'' @ name))) @ bs" "encode_values [first, second] = Inr bs"
    using encode_u64_argsD [OF raw] by blast
  then show ?thesis using b d encode_two [of first second bs] by simp
qed

lemma remaining_accounts_parts:
  assumes "remaining_accounts E name pool user q = Inr rest"
  obtains cashback v2 ata where
    "rest = cashback @ v2 @ [meta (select_buyback_recipient (published E) (pool_base_mint pool)) False False, meta ata False True]"
    "cashback_accounts E name pool user q = Inr cashback" "pool_v2_accounts E pool = Inr v2"
    "select_buyback_recipient (published E) (pool_base_mint pool) \<noteq> ''''"
    "associated_token_address (key_lib E) (select_buyback_recipient (published E) (pool_base_mint pool)) (pool_quote_mint pool) q = Inr ata"
  using assms by (auto simp: remaining_accounts_def rbind_Inr_iff Let_def split: if_splits)

text \<open>The remaining accounts in the order the program reads them.\<close>

lemma remaining_accounts_layout:
  assumes "remaining_accounts E name pool user q = Inr rest"
  shows "\<exists>cashback v2 recipient ata. rest = cashback @ v2 @ [meta recipient False False, meta ata False True]
    \<and> length cashback = (if is_cashback_coin pool then if name = ''sell'' then 2 else 1 else 0)
    \<and> length v2 = (if coin_creator pool = SYSTEM_PROGRAM_ID then 0 else 1)
    \<and> recipient \<in> set (buyback_recipients (published E))
    \<and> associated_token_address (key_lib E) recipient (pool_quote_mint pool) q = Inr ata"
proof -
  let ?recipient = "select_buyback_recipient (published E) (pool_base_mint pool)"
  obtain cashback v2 ata where
    r: "rest = cashback @ v2 @ [meta ?recipient False False, meta ata False True]"
      "cashback_accounts E name pool user q = Inr cashback" "pool_v2_accounts E pool = Inr v2" "?recipient \<noteq> ''''"
      "associated_token_address (key_lib E) ?recipient (pool_quote_mint pool) q = Inr ata"
    using assms by (rule remaining_accounts_parts)
  have "?recipient \<in> set (buyback_recipients (published E))"
    using r(4) by (auto simp: select_buyback_recipient_def group_of_def pick_recipient_def split: if_splits)
  then show ?thesis using r(1,5) cashback_accounts_length [OF r(2)] pool_v2_accounts_length [OF r(3)] by blast
qed

text \<open>A finished build, with the native builder or without.\<close>

lemma finish_swap_ok:
  assumes "prep_ok (finish_swap E cfg native name pool user first second supplied)"
  obtains accounts data rest where
    "swap_prefix E name supplied first second = Inr (accounts, data)"
    "remaining_accounts E name pool user (swap_quote_program cfg) = Inr rest"
    "finish_swap E cfg native name pool user first second supplied =
       \<lparr>prep_status = ''OK'', prep_program = pumpswap_program E, prep_accounts = accounts @ rest,
        prep_data = data, prep_detail = '''', expected_accounts = length (accounts @ rest), prep_venue = ''pumpswap''\<rparr>"
    "finish_swap E cfg native name pool user first second supplied = finish_swap E cfg None name pool user first second supplied"
proof -
  obtain accounts data accounts' data' rest where
    s: "swap_prefix E name supplied first second = Inr (accounts, data)"
      "native_parity E native name accounts data first second = Inr (accounts', data')"
      "remaining_accounts E name pool user (swap_quote_program cfg) = Inr rest"
    using assms
    by (auto simp: finish_swap_def prep_ok_def not_prepared_def pumpswap_result_def split: sum.splits prod.splits)
  have "accounts' = accounts" "data' = data" using native_parity_same [OF s(2)] by simp_all
  moreover have "native_parity E None name accounts data first second = Inr (accounts, data)"
    by (simp add: native_parity_def)
  ultimately show thesis using that [OF s(1,3)] s by (simp add: finish_swap_def)
qed

lemma finish_swap_refused:
  "\<not> prep_ok (finish_swap E cfg native name pool user first second supplied)
     \<Longrightarrow> prep_accounts (finish_swap E cfg native name pool user first second supplied) = []
       \<and> prep_data (finish_swap E cfg native name pool user first second supplied) = []"
  by (auto simp: finish_swap_def prep_ok_def not_prepared_def pumpswap_result_def split: sum.splits prod.splits)

lemma swap_build_ok:
  assumes "swap_build E cfg native name pool user first second = Inr p" "prep_ok p"
  shows "prep_data p = take 8 (sha256 (key_lib E) (text_bytes (''global:'' @ name))) @ le_bytes 8 first @ le_bytes 8 second
      @ (if name = ''buy'' then [0] else [])
    \<and> 0 < first \<and> 0 < second \<and> prep_venue p = ''pumpswap''"
proof (cases "refused_swap E pool first second")
  case (Some q)
  then have "prep_status q \<noteq> ''OK''"
    by (auto simp: refused_swap_def pumpswap_result_def not_prepared_def split: option.splits if_splits)
  then show ?thesis using assms Some by (simp add: swap_build_def prep_ok_def)
next
  case None
  then have pos: "0 < first" "0 < second" by (auto simp: refused_swap_def split: option.splits if_splits)
  obtain supplied where p: "p = finish_swap E cfg native name pool user first second supplied"
    using assms(1) None by (auto simp: swap_build_def rbind_Inr_iff)
  obtain accounts data rest where "swap_prefix E name supplied first second = Inr (accounts, data)"
    "p = \<lparr>prep_status = ''OK'', prep_program = pumpswap_program E, prep_accounts = accounts @ rest,
      prep_data = data, prep_detail = '''', expected_accounts = length (accounts @ rest), prep_venue = ''pumpswap''\<rparr>"
    using assms(2) unfolding p by (rule finish_swap_ok)
  then show ?thesis using pos swap_prefix_parts by simp
qed

text \<open>An exception leaves the build, although every other failure is a result: \<open>_build\<close> derives before its \<open>try\<close>.\<close>

lemma unreadable_user_raises:
  assumes "refused_swap E pool first second = None" "key_bytes (key_lib E) user = None"
  shows "\<exists>e. swap_build E cfg native name pool user first second = Inl e"
  using assms
  by (cases "find_program_address (key_lib E) [text_bytes ''global_config''] (pumpswap_program E)";
      cases "program_id (idls E) PUMP_FEES_IDL")
    (simp_all add: swap_build_def swap_supplied_def associated_token_address_def of_key_def)

text \<open>
  C8: the native builder never decides: whatever it returns, an accepted build is the one made without
  it and a build that raises, raises without it; an accepted instruction carries the accounts the IDL
  declares, then the cashback accounts exactly for a cashback coin, then pool-v2 exactly for a coin with a
  creator, then a published buyback recipient and its quote account, and the discriminator, the two
  positive 64-bit amounts and the tracking byte of a buy; a refused one carries nothing.
\<close>

theorem native_builder_never_decides:
  "case swap_build E cfg native name pool user first second of
     Inl e \<Rightarrow> swap_build E cfg None name pool user first second = Inl e
   | Inr p \<Rightarrow>
       if prep_ok p
       then swap_build E cfg None name pool user first second = Inr p \<and> prep_venue p = ''pumpswap''
         \<and> (\<exists>supplied prefix cashback v2 recipient ata.
              swap_supplied E cfg pool user = Inr supplied
              \<and> build_accounts (key_lib E) (idl_status E) (idls E) PUMP_AMM_IDL name supplied = Inr prefix
              \<and> prep_accounts p = prefix @ cashback @ v2 @ [meta recipient False False, meta ata False True]
              \<and> length cashback = (if is_cashback_coin pool then if name = ''sell'' then 2 else 1 else 0)
              \<and> length v2 = (if coin_creator pool = SYSTEM_PROGRAM_ID then 0 else 1)
              \<and> recipient \<in> set (buyback_recipients (published E))
              \<and> associated_token_address (key_lib E) recipient (pool_quote_mint pool) (swap_quote_program cfg) = Inr ata)
         \<and> prep_data p = take 8 (sha256 (key_lib E) (text_bytes (''global:'' @ name))) @ le_bytes 8 first @ le_bytes 8 second
             @ (if name = ''buy'' then [0] else [])
         \<and> 0 < first \<and> first < 2 ^ 64 \<and> 0 < second \<and> second < 2 ^ 64
         \<and> pool_status pool = ''OK'' \<and> pool_address pool \<noteq> ''''
       else prep_accounts p = [] \<and> prep_data p = []"
proof (cases "refused_swap E pool first second")
  case (Some p)
  then have "prep_status p \<noteq> ''OK'' \<and> prep_accounts p = [] \<and> prep_data p = []"
    by (auto simp: refused_swap_def pumpswap_result_def not_prepared_def split: option.splits if_splits)
  then show ?thesis using Some by (simp add: swap_build_def prep_ok_def)
next
  case None
  then have pool: "pool_status pool = ''OK''" "pool_address pool \<noteq> ''''" "0 < first" "0 < second"
    by (auto simp: refused_swap_def pool_ok_def split: option.splits if_splits)
  show ?thesis
  proof (cases "swap_supplied E cfg pool user")
    case (Inl e)
    then show ?thesis using None by (simp add: swap_build_def)
  next
    case (Inr supplied)
    let ?p = "finish_swap E cfg native name pool user first second supplied"
    have build: "swap_build E cfg nat' name pool user first second = Inr (finish_swap E cfg nat' name pool user first second supplied)" for nat'
      using None Inr by (simp add: swap_build_def)
    show ?thesis
    proof (cases "prep_ok ?p")
      case True
      then obtain accounts data rest where
        s: "swap_prefix E name supplied first second = Inr (accounts, data)"
          "remaining_accounts E name pool user (swap_quote_program cfg) = Inr rest"
          "?p = \<lparr>prep_status = ''OK'', prep_program = pumpswap_program E, prep_accounts = accounts @ rest,
            prep_data = data, prep_detail = '''', expected_accounts = length (accounts @ rest), prep_venue = ''pumpswap''\<rparr>"
          "?p = finish_swap E cfg None name pool user first second supplied"
        by (rule finish_swap_ok)
      obtain cashback v2 recipient ata where
        r: "rest = cashback @ v2 @ [meta recipient False False, meta ata False True]"
          "length cashback = (if is_cashback_coin pool then if name = ''sell'' then 2 else 1 else 0)"
          "length v2 = (if coin_creator pool = SYSTEM_PROGRAM_ID then 0 else 1)"
          "recipient \<in> set (buyback_recipients (published E))"
          "associated_token_address (key_lib E) recipient (pool_quote_mint pool) (swap_quote_program cfg) = Inr ata"
        using remaining_accounts_layout [OF s(2)] by blast
      have ex: "\<exists>supplied prefix cashback v2 recipient ata.
              swap_supplied E cfg pool user = Inr supplied
              \<and> build_accounts (key_lib E) (idl_status E) (idls E) PUMP_AMM_IDL name supplied = Inr prefix
              \<and> prep_accounts ?p = prefix @ cashback @ v2 @ [meta recipient False False, meta ata False True]
              \<and> length cashback = (if is_cashback_coin pool then if name = ''sell'' then 2 else 1 else 0)
              \<and> length v2 = (if coin_creator pool = SYSTEM_PROGRAM_ID then 0 else 1)
              \<and> recipient \<in> set (buyback_recipients (published E))
              \<and> associated_token_address (key_lib E) recipient (pool_quote_mint pool) (swap_quote_program cfg) = Inr ata"
        using Inr swap_prefix_parts [OF s(1)] s(3) r
        by (intro exI [of _ supplied] exI [of _ accounts] exI [of _ cashback] exI [of _ v2] exI [of _ recipient] exI [of _ ata]) simp
      show ?thesis
        using True ex pool swap_prefix_parts [OF s(1)] s(3,4) by (simp add: build)
    next
      case False
      then show ?thesis using finish_swap_refused [OF False] by (simp add: build)
    qed
  qed
qed

end
