(* ===== verification/NativeRoute.thy ===== *)
theory NativeRoute
  imports PumpSwapCurve PumpSwapRoute PumpFees
begin

text \<open>
  The native route of \<open>ExecutionEngine\<close> (\<open>execution/jupiter_jito.py\<close>): which venue prices and builds a
  trade, and with which protective bound.  The providers of curve and pool state are arguments (\<open>None\<close>
  when not wired or without an answer).
\<close>

definition USDC_MINT :: string where "USDC_MINT = ''EPjFWdd5AufqSSqeM2qN1xzybapC8G4wEGGkZwyTDt1v''"
definition DEFAULT_FEE_BPS :: int where "DEFAULT_FEE_BPS = LEGACY_TOTAL_FEE_BPS"
definition DEFAULT_MAX_STATE_AGE_S :: pyfloat where "DEFAULT_MAX_STATE_AGE_S = 30"

record market =
  route_world :: route_env
  curve_of :: "string \<Rightarrow> curve_state option"
  reserves_of :: "string \<Rightarrow> pool_state option"
  account_of :: "string \<Rightarrow> decoded_pool option"
  native_swap :: native_builders
  market_clock :: pyfloat

text \<open>\<open>int(amount * (1 + slippage_bps / 10_000))\<close>, and the same with a minus.\<close>

definition bound_above :: "int \<Rightarrow> int \<Rightarrow> int" where
  "bound_above amount slippage_bps = py_trunc (fmul (float_of_int amount) (fadd 1 (int_div slippage_bps 10000)))"

definition bound_below :: "int \<Rightarrow> int \<Rightarrow> int" where
  "bound_below amount slippage_bps = py_trunc (fmul (float_of_int amount) (fsub 1 (int_div slippage_bps 10000)))"

definition priced :: "curve_quote \<Rightarrow> bool" where
  "priced q \<longleftrightarrow> quote_ok q \<and> 0 < output_amount q"

text \<open>A route that is not configured gives no instruction; the curve route keeps its account cache.\<close>

definition prepare_curve_route ::
    "market \<Rightarrow> pump_route option \<Rightarrow> string \<Rightarrow> string \<Rightarrow> curve_state \<Rightarrow> bool \<Rightarrow> int \<Rightarrow> int \<Rightarrow> pump_route option \<times> prepared option" where
  "prepare_curve_route M route user mint curve buying amount slippage_bps =
     (case route of
        None \<Rightarrow> (None, None)
      | Some r \<Rightarrow>
          if creator curve = ''''
          then (route, Some (not_prepared ''DATA_BLOCKED'' ''curve state carries no creator; creator_vault underivable''))
          else if buying then
            (let quote = quote_buy curve amount DEFAULT_FEE_BPS
             in if \<not> priced quote
                then (route, Some (not_prepared ''DATA_BLOCKED'' (''local buy quote: '' @ quote_reason quote)))
                else case build_buy (route_world M) r mint (creator curve) user (output_amount quote)
                            (bound_above amount slippage_bps) of
                       (r, p) \<Rightarrow> (Some r, Some p))
          else
            (let quote = quote_sell curve amount DEFAULT_FEE_BPS
             in if \<not> priced quote
                then (route, Some (not_prepared ''DATA_BLOCKED'' (''local sell quote: '' @ quote_reason quote)))
                else case build_sell_v2 (route_world M) r mint (creator curve) user amount
                            (bound_below (output_amount quote) slippage_bps) of
                       (r, p) \<Rightarrow> (Some r, Some p)))"

text \<open>\<open>None\<close>: this route has no answer; \<open>Inl\<close>: an exception left the build.\<close>

definition prepare_pool_route ::
    "market \<Rightarrow> swap_config option \<Rightarrow> string \<Rightarrow> string \<Rightarrow> bool \<Rightarrow> int \<Rightarrow> int \<Rightarrow> idl_error + prepared option" where
  "prepare_pool_route M route user mint buying amount slippage_bps =
     (case (route, reserves_of M mint) of
        (Some cfg, Some reserves) \<Rightarrow>
          if base_mint reserves \<noteq> mint \<or> quote_mint reserves \<noteq> WSOL_MINT then Inr None
          else
            (case account_of M mint of
               None \<Rightarrow> Inr (Some (pumpswap_result ''DATA_BLOCKED'' ''pool account not decoded; vaults and coin_creator unavailable''))
             | Some account \<Rightarrow>
                 if \<not> pool_ok account
                 then Inr (Some (pumpswap_result ''DATA_BLOCKED'' ''pool account not decoded; vaults and coin_creator unavailable''))
                 else if pool_base_mint account \<noteq> mint \<or> pool_quote_mint account \<noteq> WSOL_MINT
                         \<or> pool_address account \<noteq> pool reserves
                 then Inr (Some (pumpswap_result ''DATA_BLOCKED'' ''pool account assets do not match requested SOL pair''))
                 else if buying then
                   (let quote = pool_quote_buy reserves amount DEFAULT_MAX_STATE_AGE_S (market_clock M)
                    in if \<not> priced quote
                       then Inr (Some (pumpswap_result ''DATA_BLOCKED'' (''local pool buy quote: '' @ quote_reason quote)))
                       else
                         let amm_leg = max 1 (amount - fee_amount quote)
                         in map_sum id Some (swap_buy (route_world M) cfg (native_swap M) account user (output_amount quote)
                              (bound_above amm_leg slippage_bps)))
                 else
                   (let quote = pool_quote_sell reserves amount DEFAULT_MAX_STATE_AGE_S (market_clock M)
                    in if \<not> priced quote
                       then Inr (Some (pumpswap_result ''DATA_BLOCKED'' (''local pool sell quote: '' @ quote_reason quote)))
                       else map_sum id Some (swap_sell (route_world M) cfg (native_swap M) account user amount
                              (bound_below (output_amount quote) slippage_bps))))
      | _ \<Rightarrow> Inr None)"

definition sol_pair :: "string \<Rightarrow> string \<Rightarrow> bool" where
  "sol_pair input_mint output_mint \<longleftrightarrow> input_mint \<noteq> output_mint \<and> WSOL_MINT \<in> {input_mint, output_mint}"

definition traded_mint :: "string \<Rightarrow> string \<Rightarrow> string" where
  "traded_mint input_mint output_mint = (if input_mint = WSOL_MINT then output_mint else input_mint)"

definition prepare_native_route ::
    "market \<Rightarrow> pump_route option \<Rightarrow> swap_config option \<Rightarrow> string \<Rightarrow> string \<Rightarrow> string \<Rightarrow> int \<Rightarrow> int
       \<Rightarrow> pump_route option \<times> (idl_error + prepared option)" where
  "prepare_native_route M route swap user input_mint output_mint amount slippage_bps =
     (if \<not> sol_pair input_mint output_mint then (route, Inr None)
      else
        let buying = (input_mint = WSOL_MINT); mint = traded_mint input_mint output_mint
        in case curve_of M mint of
             Some curve \<Rightarrow>
               (case prepare_curve_route M route user mint curve buying amount slippage_bps of (route, p) \<Rightarrow> (route, Inr p))
           | None \<Rightarrow> (route, prepare_pool_route M swap user mint buying amount slippage_bps))"

text \<open>The quote behind a prepared instruction, for the venue it names.\<close>

definition native_quote :: "market \<Rightarrow> string \<Rightarrow> string \<Rightarrow> int \<Rightarrow> string \<Rightarrow> curve_quote option" where
  "native_quote M input_mint output_mint amount venue =
     (if \<not> sol_pair input_mint output_mint then None
      else
        let buying = (input_mint = WSOL_MINT); mint = traded_mint input_mint output_mint
        in if venue = ''pumpswap'' then
             (case reserves_of M mint of
                None \<Rightarrow> None
              | Some reserves \<Rightarrow>
                  if base_mint reserves \<noteq> mint \<or> quote_mint reserves \<noteq> WSOL_MINT then None
                  else
                    let quote = (if buying then pool_quote_buy reserves amount DEFAULT_MAX_STATE_AGE_S (market_clock M)
                                 else pool_quote_sell reserves amount DEFAULT_MAX_STATE_AGE_S (market_clock M))
                    in if priced quote then Some quote else None)
           else
             (case curve_of M mint of
                None \<Rightarrow> None
              | Some curve \<Rightarrow>
                  let quote = (if buying then quote_buy curve amount DEFAULT_FEE_BPS
                               else quote_sell curve amount DEFAULT_FEE_BPS)
                  in if priced quote then Some quote else None))"

subsection \<open>The protective bound\<close>

text \<open>
  Three roundings (the rate, the factor, the product) move the bound by less than half a unit for every
  amount below \<open>2 ^ 50\<close>, which is more than the base units of any curve's supply.
\<close>

lemma scaled_error:
  assumes "0 \<le> a" "a < 2 ^ 50" "\<bar>v\<bar> \<le> 1 / 5" "\<bar>u - v\<bar> \<le> (1 / 5) / 2 ^ 53"
  shows "\<bar>fmul (float_of_int a) (fl (1 + u)) - of_int a * (1 + v)\<bar> \<le> 1 / 2" "0 \<le> fmul (float_of_int a) (fl (1 + u))"
proof -
  define r f where "r = (of_int a :: rat)" and "f = fl (1 + u)"
  have r: "0 \<le> r" "r \<le> 2 ^ 50" using assms(1,2) by (simp_all add: r_def)
  have a: "float_of_int a = r" using assms(1,2) fl_of_int [of a] by (simp add: float_of_int_def r_def)
  have "\<bar>u\<bar> \<le> \<bar>u - v\<bar> + \<bar>v\<bar>" "(1 / 5) / 2 ^ 53 \<le> (1 / 20 :: rat)" by simp_all
  then have u: "\<bar>u\<bar> \<le> 1 / 4" using assms(3,4) by linarith
  then have u1: "0 \<le> 1 + u" "1 + u \<le> 5 / 4" by linarith+
  have "\<bar>f - (1 + u)\<bar> \<le> \<bar>1 + u\<bar> / 2 ^ 53" unfolding f_def by (rule fl_relative_error)
  also have "\<dots> \<le> (5 / 4) / 2 ^ 53" using u1 by (intro divide_right_mono) simp_all
  finally have f1: "\<bar>f - (1 + u)\<bar> \<le> (5 / 4) / 2 ^ 53" .
  moreover have "(5 / 4) / 2 ^ 53 \<le> (1 / 4 :: rat)" by simp
  ultimately have "f \<le> 3 / 2" using u1(2) by linarith
  moreover have "0 \<le> f" using u1(1) by (simp add: f_def)
  ultimately have f: "0 \<le> f" "f \<le> 3 / 2" by simp_all
  have rf: "0 \<le> r * f" "r * f \<le> 2 ^ 50 * (3 / 2)" using r f by (simp, intro mult_mono) simp_all
  have "\<bar>fl (r * f) - r * f\<bar> \<le> \<bar>r * f\<bar> / 2 ^ 53" by (rule fl_relative_error)
  also have "\<dots> \<le> 2 ^ 50 * (3 / 2) / 2 ^ 53" using rf by (intro divide_right_mono) simp_all
  finally have e1: "\<bar>fl (r * f) - r * f\<bar> \<le> 3 / 16" by simp
  have "\<bar>f - (1 + v)\<bar> \<le> (5 / 4) / 2 ^ 53 + (1 / 5) / 2 ^ 53" using f1 assms(4) by linarith
  then have "r * \<bar>f - (1 + v)\<bar> \<le> 2 ^ 50 * ((5 / 4) / 2 ^ 53 + (1 / 5) / 2 ^ 53)"
    using r by (intro mult_mono) simp_all
  then have e2: "\<bar>r * f - r * (1 + v)\<bar> \<le> 29 / 160"
    using r(1) by (simp add: abs_mult right_diff_distrib [symmetric])
  have "\<bar>fl (r * f) - r * (1 + v)\<bar> \<le> 1 / 2" using e1 e2 by linarith
  then show "\<bar>fmul (float_of_int a) (fl (1 + u)) - of_int a * (1 + v)\<bar> \<le> 1 / 2"
    unfolding a fmul_def by (simp add: f_def r_def)
  show "0 \<le> fmul (float_of_int a) (fl (1 + u))" unfolding a fmul_def using rf(1) by (simp add: f_def)
qed

lemma trunc_near:
  assumes "\<bar>x - y\<bar> \<le> 1 / 2" "0 \<le> x"
  shows "of_int (py_trunc x) \<le> y + 1 / 2" "y - 3 / 2 < of_int (py_trunc x)"
proof -
  have "x - y \<le> 1 / 2" "y - x \<le> 1 / 2" using assms(1) by linarith+
  moreover have "of_int (py_trunc x) \<le> x" "x < of_int (py_trunc x) + 1"
    using assms(2) floor_correct [of x] by (simp_all add: py_trunc_def)
  ultimately show "of_int (py_trunc x) \<le> y + 1 / 2" "y - 3 / 2 < of_int (py_trunc x)" by linarith+
qed

lemma rate_error:
  assumes "0 < s" "s \<le> 2000"
  shows "\<bar>of_int s / 10000 :: rat\<bar> \<le> 1 / 5" "\<bar>int_div s 10000 - of_int s / 10000\<bar> \<le> (1 / 5) / 2 ^ 53"
proof -
  show t: "\<bar>of_int s / 10000 :: rat\<bar> \<le> 1 / 5" using assms by simp
  have "\<bar>int_div s 10000 - of_int s / 10000\<bar> \<le> \<bar>of_int s / 10000\<bar> / 2 ^ 53"
    unfolding int_div_def using fl_relative_error [of "of_int s / 10000"] by simp
  also have "\<dots> \<le> (1 / 5) / 2 ^ 53" using t by (intro divide_right_mono) simp_all
  finally show "\<bar>int_div s 10000 - of_int s / 10000\<bar> \<le> (1 / 5) / 2 ^ 53" .
qed

lemma bound_above_near:
  assumes "0 \<le> a" "a < 2 ^ 50" "0 < s" "s \<le> 2000"
  shows "10000 * bound_above a s \<le> a * (10000 + s) + 5000" "a * (10000 + s) - 15000 < 10000 * bound_above a s"
proof -
  have e: "\<bar>fmul (float_of_int a) (fadd 1 (int_div s 10000)) - of_int a * (1 + of_int s / 10000)\<bar> \<le> 1 / 2"
    "0 \<le> fmul (float_of_int a) (fadd 1 (int_div s 10000))"
    unfolding fadd_def using assms(1,2) rate_error [OF assms(3,4)] by (rule scaled_error)+
  have y: "of_int a * (1 + of_int s / 10000) = (of_int (a * (10000 + s)) / 10000 :: rat)" by (simp add: field_simps)
  have "of_int (10000 * bound_above a s) \<le> (of_int (a * (10000 + s) + 5000) :: rat)"
    "(of_int (a * (10000 + s) - 15000) :: rat) < of_int (10000 * bound_above a s)"
    using trunc_near [OF e] unfolding y bound_above_def [symmetric] by (simp_all add: field_simps)
  then show "10000 * bound_above a s \<le> a * (10000 + s) + 5000" "a * (10000 + s) - 15000 < 10000 * bound_above a s"
    by (simp_all only: of_int_le_iff of_int_less_iff)
qed

lemma bound_below_near:
  assumes "0 \<le> a" "a < 2 ^ 50" "0 < s" "s \<le> 2000"
  shows "10000 * bound_below a s \<le> a * (10000 - s) + 5000" "a * (10000 - s) - 15000 < 10000 * bound_below a s"
proof -
  have r: "\<bar>- (of_int s / 10000) :: rat\<bar> \<le> 1 / 5" "\<bar>- int_div s 10000 - - (of_int s / 10000)\<bar> \<le> (1 / 5) / 2 ^ 53"
    using rate_error [OF assms(3,4)] by (simp_all only: minus_diff_minus abs_minus_cancel)
  have e: "\<bar>fmul (float_of_int a) (fsub 1 (int_div s 10000)) - of_int a * (1 + - (of_int s / 10000))\<bar> \<le> 1 / 2"
    "0 \<le> fmul (float_of_int a) (fsub 1 (int_div s 10000))"
    using scaled_error [OF assms(1,2) r] by (simp_all add: fsub_def)
  have y: "of_int a * (1 + - (of_int s / 10000)) = (of_int (a * (10000 - s)) / 10000 :: rat)" by (simp add: field_simps)
  have "of_int (10000 * bound_below a s) \<le> (of_int (a * (10000 - s) + 5000) :: rat)"
    "(of_int (a * (10000 - s) - 15000) :: rat) < of_int (10000 * bound_below a s)"
    using trunc_near [OF e] unfolding y bound_below_def [symmetric] by (simp_all add: field_simps)
  then show "10000 * bound_below a s \<le> a * (10000 - s) + 5000" "a * (10000 - s) - 15000 < 10000 * bound_below a s"
    by (simp_all only: of_int_le_iff of_int_less_iff)
qed

subsection \<open>What a prepared instruction trades\<close>

text \<open>The two amounts of an instruction, for a purchase and for a sale.\<close>

definition amounts_of :: "bool \<Rightarrow> int \<Rightarrow> int \<Rightarrow> int \<Rightarrow> curve_quote \<Rightarrow> int \<times> int" where
  "amounts_of buying spend amount slippage_bps q =
     (if buying then (output_amount q, bound_above spend slippage_bps)
      else (amount, bound_below (output_amount q) slippage_bps))"

lemma not_ok_results [simp]: "\<not> prep_ok (not_prepared ''DATA_BLOCKED'' d)" "\<not> prep_ok (pumpswap_result ''DATA_BLOCKED'' d)"
  by (simp_all add: prep_ok_def pumpswap_result_def not_prepared_def)

lemma prepared_curve:
  assumes "prepare_curve_route M route user mint curve buying amount s = (route', Some p)" "prep_ok p"
    and "q = (if buying then quote_buy curve amount DEFAULT_FEE_BPS else quote_sell curve amount DEFAULT_FEE_BPS)"
    and "(first, second) = amounts_of buying amount amount s q"
  shows "priced q \<and> prep_venue p = ''pump_curve'' \<and> 0 < first \<and> 0 < second
    \<and> prep_data p = take 8 (sha256 (key_lib (route_world M)) (text_bytes (''global:'' @ (if buying then ''buy_v2'' else ''sell_v2''))))
        @ le_bytes 8 first @ le_bytes 8 second"
proof -
  obtain r where r: "priced q"
      "p = snd (route_build (route_world M) r (if buying then ''buy_v2'' else ''sell_v2'') mint (creator curve) user first second)"
  proof (cases buying)
    case True
    then show thesis using assms that
      by (auto simp: prepare_curve_route_def amounts_of_def build_buy_def Let_def split: option.splits if_splits prod.splits)
        (metis snd_conv)
  next
    case False
    then show thesis using assms that
      by (auto simp: prepare_curve_route_def amounts_of_def build_sell_v2_def Let_def split: option.splits if_splits prod.splits)
        (metis snd_conv)
  qed
  then show ?thesis using route_build_ok assms(2) by blast
qed

lemma prepared_pool:
  assumes "prepare_pool_route M route user mint buying amount s = Inr (Some p)" "prep_ok p"
    and "(first, second) = amounts_of buying (max 1 (amount - fee_amount q)) amount s q"
    and "\<And>reserves. reserves_of M mint = Some reserves \<Longrightarrow>
      q = (if buying then pool_quote_buy reserves amount DEFAULT_MAX_STATE_AGE_S (market_clock M)
           else pool_quote_sell reserves amount DEFAULT_MAX_STATE_AGE_S (market_clock M))"
  shows "\<exists>reserves account. reserves_of M mint = Some reserves \<and> account_of M mint = Some account
    \<and> base_mint reserves = mint \<and> quote_mint reserves = WSOL_MINT
    \<and> pool_base_mint account = mint \<and> pool_quote_mint account = WSOL_MINT \<and> pool_address account = pool reserves
    \<and> priced q \<and> prep_venue p = ''pumpswap'' \<and> 0 < first \<and> 0 < second
    \<and> prep_data p = take 8 (sha256 (key_lib (route_world M)) (text_bytes (''global:'' @ (if buying then ''buy'' else ''sell''))))
        @ le_bytes 8 first @ le_bytes 8 second @ (if buying then [0] else [])"
proof -
  obtain cfg reserves account where
    m: "reserves_of M mint = Some reserves" "account_of M mint = Some account"
      "base_mint reserves = mint" "quote_mint reserves = WSOL_MINT" "pool_base_mint account = mint"
      "pool_quote_mint account = WSOL_MINT" "pool_address account = pool reserves"
    and p: "priced q" "swap_build (route_world M) cfg (native_swap M) (if buying then ''buy'' else ''sell'') account user first second = Inr p"
  proof (cases buying)
    case True
    then show thesis using assms that
      by (auto simp: prepare_pool_route_def amounts_of_def swap_buy_def Let_def map_sum_def split: option.splits if_splits sum.splits)
  next
    case False
    then show thesis using assms that
      by (auto simp: prepare_pool_route_def amounts_of_def swap_sell_def Let_def map_sum_def split: option.splits if_splits sum.splits)
  qed
  show ?thesis using m p(1) swap_build_ok [OF p(2) assms(2)] by (intro exI [of _ reserves] exI [of _ account]) simp
qed

text \<open>The cap of a purchase is set on the budget on the curve and on the pool's own leg on a pool.\<close>

definition spend_cap :: "string \<Rightarrow> int \<Rightarrow> curve_quote \<Rightarrow> int" where
  "spend_cap venue amount q = (if venue = ''pumpswap'' then max 1 (amount - fee_amount q) else amount)"

lemma prepared_native:
  assumes "snd (prepare_native_route M route swap user input_mint output_mint amount s) = Inr (Some p)" "prep_ok p"
  shows "\<exists>q first second. sol_pair input_mint output_mint
    \<and> native_quote M input_mint output_mint amount (prep_venue p) = Some q \<and> priced q
    \<and> (first, second) = amounts_of (input_mint = WSOL_MINT) (spend_cap (prep_venue p) amount q) amount s q
    \<and> 0 < first \<and> 0 < second
    \<and> (\<exists>name tail. prep_data p = take 8 (sha256 (key_lib (route_world M)) (text_bytes (''global:'' @ name)))
          @ le_bytes 8 first @ le_bytes 8 second @ tail)
    \<and> (prep_venue p = ''pumpswap'' \<longrightarrow>
         (\<exists>reserves account. reserves_of M (traded_mint input_mint output_mint) = Some reserves
            \<and> account_of M (traded_mint input_mint output_mint) = Some account \<and> pool_address account = pool reserves
            \<and> pool_base_mint account = traded_mint input_mint output_mint \<and> pool_quote_mint account = WSOL_MINT))"
proof -
  let ?mint = "traded_mint input_mint output_mint" and ?buying = "input_mint = WSOL_MINT"
  have pair: "sol_pair input_mint output_mint" using assms(1) by (auto simp: prepare_native_route_def split: if_splits)
  show ?thesis
  proof (cases "curve_of M ?mint")
    case (Some curve)
    define q where "q = (if ?buying then quote_buy curve amount DEFAULT_FEE_BPS else quote_sell curve amount DEFAULT_FEE_BPS)"
    obtain first second where fs: "(first, second) = amounts_of ?buying amount amount s q" by (metis surj_pair)
    obtain route' where "prepare_curve_route M route user ?mint curve ?buying amount s = (route', Some p)"
      using assms(1) pair Some by (auto simp: prepare_native_route_def Let_def split: prod.splits)
    note c = prepared_curve [OF this assms(2) q_def fs]
    then have "native_quote M input_mint output_mint amount (prep_venue p) = Some q"
      using pair Some by (simp add: native_quote_def Let_def q_def)
    moreover have "\<exists>name tail. prep_data p = take 8 (sha256 (key_lib (route_world M)) (text_bytes (''global:'' @ name)))
        @ le_bytes 8 first @ le_bytes 8 second @ tail" using c by (metis append_Nil2)
    moreover have "(first, second) = amounts_of ?buying (spend_cap (prep_venue p) amount q) amount s q"
      using fs c by (simp add: spend_cap_def)
    moreover have "prep_venue p \<noteq> ''pumpswap''" using c by simp
    ultimately show ?thesis using pair c by blast
  next
    case None
    have p: "prepare_pool_route M swap user ?mint ?buying amount s = Inr (Some p)"
      using assms(1) pair None by (simp add: prepare_native_route_def Let_def)
    define q where "q = (case reserves_of M ?mint of None \<Rightarrow> blocked_quote '''' | Some reserves \<Rightarrow>
      if ?buying then pool_quote_buy reserves amount DEFAULT_MAX_STATE_AGE_S (market_clock M)
      else pool_quote_sell reserves amount DEFAULT_MAX_STATE_AGE_S (market_clock M))"
    obtain first second where fs: "(first, second) = amounts_of ?buying (max 1 (amount - fee_amount q)) amount s q"
      by (metis surj_pair)
    obtain reserves account where
      m: "reserves_of M ?mint = Some reserves" "account_of M ?mint = Some account"
        "base_mint reserves = ?mint" "quote_mint reserves = WSOL_MINT"
        "pool_base_mint account = ?mint" "pool_quote_mint account = WSOL_MINT" "pool_address account = pool reserves"
        "priced q" "prep_venue p = ''pumpswap''" "0 < first" "0 < second"
        "prep_data p = take 8 (sha256 (key_lib (route_world M)) (text_bytes (''global:'' @ (if ?buying then ''buy'' else ''sell''))))
          @ le_bytes 8 first @ le_bytes 8 second @ (if ?buying then [0] else [])"
      using prepared_pool [OF p assms(2) fs] by (auto simp: q_def)
    have q: "native_quote M input_mint output_mint amount (prep_venue p) = Some q"
      using pair m(1,3,4,8,9) by (simp add: native_quote_def Let_def q_def)
    have "\<exists>name tail. prep_data p = take 8 (sha256 (key_lib (route_world M)) (text_bytes (''global:'' @ name)))
        @ le_bytes 8 first @ le_bytes 8 second @ tail" using m(12) by blast
    moreover have "(first, second) = amounts_of ?buying (spend_cap (prep_venue p) amount q) amount s q"
      using fs m(9) by (simp add: spend_cap_def)
    ultimately show ?thesis using pair q m by blast
  qed
qed

text \<open>
  C7: a prepared native instruction trades what was asked within the slippage asked for: one side is
  SOL; a purchase buys exactly the quoted tokens and its cap is the budget (on a pool, the budget less
  its fee) plus the slippage, to half a unit above and one and a half below; a sale sells exactly the
  amount for at least the quoted proceeds less the slippage, to the same precision; the quote is the one
  of the venue the instruction names; and a pool instruction is for the pool the reserves are of.
\<close>

theorem native_route_protects:
  assumes "snd (prepare_native_route M route swap user input_mint output_mint amount s) = Inr (Some p)" "prep_ok p"
    and "0 < s" "s \<le> 2000" "0 < amount"
  shows "\<exists>q first second name tail. input_mint \<noteq> output_mint \<and> WSOL_MINT \<in> {input_mint, output_mint}
    \<and> native_quote M input_mint output_mint amount (prep_venue p) = Some q
    \<and> prep_data p = take 8 (sha256 (key_lib (route_world M)) (text_bytes (''global:'' @ name)))
        @ le_bytes 8 first @ le_bytes 8 second @ tail
    \<and> (if input_mint = WSOL_MINT
       then first = output_amount q \<and> 0 < first
         \<and> (let cap = (if prep_venue p = ''pumpswap'' then max 1 (amount - fee_amount q) else amount)
            in cap < 2 ^ 50 \<longrightarrow>
                 10000 * second \<le> cap * (10000 + s) + 5000 \<and> cap * (10000 + s) - 15000 < 10000 * second)
       else first = amount \<and> 0 < second
         \<and> (output_amount q < 2 ^ 50 \<longrightarrow>
              10000 * second \<le> output_amount q * (10000 - s) + 5000
              \<and> output_amount q * (10000 - s) - 15000 < 10000 * second))
    \<and> (prep_venue p = ''pumpswap'' \<longrightarrow>
         (\<exists>reserves account. reserves_of M (traded_mint input_mint output_mint) = Some reserves
            \<and> account_of M (traded_mint input_mint output_mint) = Some account \<and> pool_address account = pool reserves
            \<and> pool_base_mint account = traded_mint input_mint output_mint \<and> pool_quote_mint account = WSOL_MINT))"
proof -
  obtain q first second name tail where
    n: "sol_pair input_mint output_mint" "native_quote M input_mint output_mint amount (prep_venue p) = Some q" "priced q"
      "(first, second) = amounts_of (input_mint = WSOL_MINT) (spend_cap (prep_venue p) amount q) amount s q"
      "0 < first" "0 < second"
      "prep_data p = take 8 (sha256 (key_lib (route_world M)) (text_bytes (''global:'' @ name)))
        @ le_bytes 8 first @ le_bytes 8 second @ tail"
      "prep_venue p = ''pumpswap'' \<longrightarrow>
         (\<exists>reserves account. reserves_of M (traded_mint input_mint output_mint) = Some reserves
            \<and> account_of M (traded_mint input_mint output_mint) = Some account \<and> pool_address account = pool reserves
            \<and> pool_base_mint account = traded_mint input_mint output_mint \<and> pool_quote_mint account = WSOL_MINT)"
    using prepared_native [OF assms(1,2)] by blast
  have "0 \<le> spend_cap (prep_venue p) amount q" using assms(5) by (auto simp: spend_cap_def)
  note up = bound_above_near [OF this _ assms(3,4)]
  have "0 \<le> output_amount q" using n(3) by (simp add: priced_def)
  note down = bound_below_near [OF this _ assms(3,4)]
  have "if input_mint = WSOL_MINT
       then first = output_amount q \<and> 0 < first
         \<and> (let cap = (if prep_venue p = ''pumpswap'' then max 1 (amount - fee_amount q) else amount)
            in cap < 2 ^ 50 \<longrightarrow>
                 10000 * second \<le> cap * (10000 + s) + 5000 \<and> cap * (10000 + s) - 15000 < 10000 * second)
       else first = amount \<and> 0 < second
         \<and> (output_amount q < 2 ^ 50 \<longrightarrow>
              10000 * second \<le> output_amount q * (10000 - s) + 5000
              \<and> output_amount q * (10000 - s) - 15000 < 10000 * second)"
    using n(4,5,6) up down by (auto simp: amounts_of_def spend_cap_def Let_def split: if_splits)
  then show ?thesis using n(1,2,7,8) unfolding sol_pair_def by blast
qed

text \<open>A concrete market for the witness.\<close>

definition market_doc :: "string list" where
  "market_doc =
     [''## Normal'', ''`11111111111111111111111111111111`'', ''## Buyback'', ''`11111111111111111111111111111111`'']"

definition market_env :: route_env where
  "market_env =
     \<lparr>key_lib = \<lparr>key_bytes = (\<lambda>_. Some [1]), key_text = (\<lambda>_. None),
        find_program_address = (\<lambda>_ _. Some PUBLISHED_GLOBAL), sha256 = (\<lambda>_. [])\<rparr>,
      idl_status = ''OK'',
      idls = (\<lambda>_. \<lparr>idl_address = Some ''P'', idl_instructions =
        [\<lparr>ins_name = ''buy_v2'', ins_discriminator = [], ins_accounts = [], ins_args = [''u64'', ''u64'']\<rparr>]\<rparr>),
      recipient_doc = Some market_doc,
      error_text = (\<lambda>_. '''')\<rparr>"

definition sample_market :: market where
  "sample_market = \<lparr>route_world = market_env, curve_of = (\<lambda>_. Some (sample_curve\<lparr>creator := ''C''\<rparr>)),
     reserves_of = (\<lambda>_. None), account_of = (\<lambda>_. None), native_swap = None, market_clock = 0\<rparr>"

lemma market_blocked: "blocked_reason market_env = None"
proof -
  have "normal_recipients (fee_recipients (Some market_doc)) \<noteq> [] \<and> buyback_recipients (fee_recipients (Some market_doc)) \<noteq> []"
    by code_simp
  moreover have "route_status market_env = ''OK''" by (simp add: route_status_def derived_global_def market_env_def)
  ultimately show ?thesis by (simp add: blocked_reason_def group_of_def published_def) (simp add: market_env_def)
qed

lemma market_derives: "derive_accounts market_env default_route_config ''buy_v2'' mint cr user = Inr []"
  by (simp add: derive_accounts_def market_env_def program_id_def associated_token_address_def of_key_def build_accounts_def
      instruction_def resolve_loop.simps)

lemma market_finishes: "prep_ok (finish_build market_env ''buy_v2'' 34277831558567 1010000000 (Inr []))"
  by (simp add: finish_build_def market_env_def encode_u64_args_def instruction_def discriminator_def account_names_def
      prep_ok_def Let_def)

lemma market_builds:
  "prep_ok (snd (build_buy market_env (new_route default_route_config 4) ''M'' ''C'' ''U'' 34277831558567 1010000000))"
proof -
  obtain r accounts where c: "cached_accounts market_env (new_route default_route_config 4) ''buy_v2'' ''M'' ''C'' ''U'' = (r, accounts)"
    by fastforce
  then have "accounts = Inr []"
    using market_derives by (auto simp: cached_accounts_def new_route_def Let_def)
  then show ?thesis
    using market_finishes c by (simp add: build_buy_def route_build_def refused_build_def market_blocked)
qed

lemma market_quote:
  "quote_ok (quote_buy (sample_curve\<lparr>creator := ''C''\<rparr>) 1000000000 100)"
  "output_amount (quote_buy (sample_curve\<lparr>creator := ''C''\<rparr>) 1000000000 100) = 34277831558567"
  by (simp_all add: quote_buy_def sample_curve_def tradeable_def quote_ok_def Let_def)

lemma market_bound: "bound_above 1000000000 100 = 1010000000"
  by code_simp

lemma market_prepares:
  obtains p where "snd (prepare_native_route sample_market (Some (new_route default_route_config 4)) None ''U'' WSOL_MINT ''M''
     1000000000 100) = Inr (Some p)" "prep_ok p"
proof -
  obtain r p where b: "build_buy market_env (new_route default_route_config 4) ''M'' ''C'' ''U'' 34277831558567 1010000000 = (r, p)"
    by fastforce
  then have "prep_ok p" using market_builds by simp
  moreover have "snd (prepare_native_route sample_market (Some (new_route default_route_config 4)) None ''U'' WSOL_MINT ''M''
     1000000000 100) = Inr (Some p)"
    using market_quote market_bound b
    by (simp add: prepare_native_route_def sol_pair_def traded_mint_def WSOL_MINT_def sample_market_def prepare_curve_route_def
        priced_def DEFAULT_FEE_BPS_def LEGACY_TOTAL_FEE_BPS_def Let_def)
  ultimately show thesis using that by blast
qed

theorem native_route_protects_witness:
  "\<exists>venue q. native_quote sample_market WSOL_MINT ''M'' 1000000000 venue = Some q \<and> 0 < output_amount q"
proof -
  obtain p where p: "snd (prepare_native_route sample_market (Some (new_route default_route_config 4)) None ''U'' WSOL_MINT ''M''
     1000000000 100) = Inr (Some p)" "prep_ok p" by (rule market_prepares)
  show ?thesis using native_route_protects [OF p] by (simp split: if_splits) blast
qed

end
