(* ===== verification/TxKernel.thy ===== *)
theory TxKernel
  imports PyText Interfaces
begin

text \<open>
  \<open>execution/tx_kernel.py\<close>: the promotion of the native transaction builder.  The extension and the
  solders builder are arguments (a function of what they are given, \<open>None\<close> when they raise), and so is
  the random draw of an audit.  Base64 is the standard library's strict decoder.
\<close>

datatype tx_mode = OFF | SHADOW | AUTO | RUST

definition mode_of_name :: "string \<Rightarrow> tx_mode option" where
  "mode_of_name s =
     dget [(''off'', OFF), (''shadow'', SHADOW), (''auto'', AUTO), (''rust'', RUST)] (py_lower s)"

definition DEFAULT_PROMOTE_AFTER :: int where "DEFAULT_PROMOTE_AFTER = 200"
definition DEFAULT_AUDIT_RATE :: pyfloat where "DEFAULT_AUDIT_RATE = fl (2 / 100)"
definition SIGNATURE_LEN :: nat where "SIGNATURE_LEN = 64"

subsection \<open>The extension\<close>

type_synonym raw_instruction = "bytes \<times> (bytes \<times> bool \<times> bool) list \<times> bytes"

record sol_meta =
  sm_pubkey :: bytes
  sm_signer :: bool
  sm_writable :: bool

record sol_instruction =
  si_program :: bytes
  si_accounts :: "sol_meta list"
  si_data :: bytes

definition raw_instructions :: "sol_instruction list \<Rightarrow> raw_instruction list" where
  "raw_instructions instrs =
     map (\<lambda>i. (si_program i, map (\<lambda>a. (sm_pubkey a, sm_signer a, sm_writable a)) (si_accounts i), si_data i)) instrs"

record native_ext =
  attributes :: "string list"
  compile_v0_message :: "bytes \<Rightarrow> raw_instruction list \<Rightarrow> bytes \<Rightarrow> bytes option"
  assemble_transaction :: "bytes \<Rightarrow> bytes list \<Rightarrow> string option"

text \<open>The import gives the module, or the text of its \<open>ImportError\<close>.\<close>

definition load_native :: "string + native_ext \<Rightarrow> native_ext option \<times> string" where
  "load_native imported =
     (case imported of
        Inl exc \<Rightarrow> (None, ''native extension unavailable: '' @ exc)
      | Inr ext \<Rightarrow>
          (case List.find (\<lambda>a. a \<notin> set (attributes ext)) [''compile_v0_message'', ''assemble_transaction''] of
             Some a \<Rightarrow> (None, ''extension present but carries no '' @ a)
           | None \<Rightarrow> (Some ext, ''OK'')))"

subsection \<open>The kernel\<close>

record divergence =
  python_prefix :: string
  rust_prefix :: string
  python_len :: nat
  rust_len :: nat

record tx_kernel =
  kernel_mode :: tx_mode
  promote_after :: int
  audit_rate :: pyfloat
  native :: "native_ext option"
  native_status :: string
  compared :: nat
  agreements :: nat
  divergences :: nat
  consecutive_agreements :: nat
  rust_builds :: nat
  python_builds :: nat
  rust_errors :: nat
  audits :: nat
  invariant_failures :: nat
  demoted_reason :: string
  divergence_example :: "divergence option"

definition new_kernel :: "string \<Rightarrow> int \<Rightarrow> pyfloat \<Rightarrow> string + native_ext \<Rightarrow> tx_kernel" where
  "new_kernel mode after rate imported =
     \<lparr>kernel_mode = (case mode_of_name mode of None \<Rightarrow> SHADOW | Some m \<Rightarrow> m), promote_after = max 1 after,
      audit_rate = min 1 (max 0 rate), native = fst (load_native imported), native_status = snd (load_native imported),
      compared = 0, agreements = 0, divergences = 0, consecutive_agreements = 0, rust_builds = 0, python_builds = 0,
      rust_errors = 0, audits = 0, invariant_failures = 0, demoted_reason = '''', divergence_example = None\<rparr>"

definition rust_available :: "tx_kernel \<Rightarrow> bool" where
  "rust_available k \<longleftrightarrow> native k \<noteq> None"

definition rust_authoritative :: "tx_kernel \<Rightarrow> bool" where
  "rust_authoritative k =
     (if \<not> rust_available k \<or> demoted_reason k \<noteq> '''' then False
      else case kernel_mode k of
        RUST \<Rightarrow> True
      | AUTO \<Rightarrow> promote_after k \<le> int (consecutive_agreements k)
      | _ \<Rightarrow> False)"

definition message_invariant_failure :: "bytes \<Rightarrow> bytes \<Rightarrow> bytes \<Rightarrow> nat \<Rightarrow> string" where
  "message_invariant_failure message payer blockhash instruction_count =
     (if length message < 5 + 32 + 32 then ''too short to be a v0 message ('' @ nat_str (length message) @ '' bytes)''
      else if message ! 0 \<noteq> 0x80 then ''first byte is 0x'' @ hex_str [message ! 0] @ '', not the v0 prefix''
      else if uint (message ! 1) < 1 then ''no required signatures''
      else let count = nat (uint (message ! 4)) in
        if 128 \<le> count then ''account count is multi-byte; not a shape this desk builds''
        else if count < 1 then ''no account keys''
        else let keys_end = 5 + count * 32 in
          if length message < keys_end + 32 + 1
          then ''truncated: '' @ nat_str count @ '' keys do not fit in '' @ nat_str (length message) @ '' bytes''
          else if slice 5 37 message \<noteq> payer then ''account zero is not the fee payer''
          else if slice keys_end (keys_end + 32) message \<noteq> blockhash
          then ''the blockhash is not where the account list says it is''
          else if uint (message ! (keys_end + 32)) \<noteq> int instruction_count
          then ''instruction count is '' @ int_str (uint (message ! (keys_end + 32))) @ '', expected '' @ nat_str instruction_count
          else '''')"

definition should_audit :: "tx_kernel \<Rightarrow> pyfloat \<Rightarrow> bool" where
  "should_audit k draw \<longleftrightarrow> 0 < audit_rate k \<and> draw < audit_rate k"

text \<open>Only the first reason is kept.\<close>

definition demote_kernel :: "string \<Rightarrow> tx_kernel \<Rightarrow> tx_kernel" where
  "demote_kernel reason k = (if demoted_reason k = '''' then k\<lparr>demoted_reason := reason\<rparr> else k)"

definition record_comparison :: "tx_kernel \<Rightarrow> bytes \<Rightarrow> bytes \<Rightarrow> tx_kernel" where
  "record_comparison k python_bytes rust_bytes =
     (let k = k\<lparr>compared := compared k + 1\<rparr>
      in if python_bytes = rust_bytes
         then k\<lparr>agreements := agreements k + 1, consecutive_agreements := consecutive_agreements k + 1\<rparr>
         else
           let k = k\<lparr>divergences := divergences k + 1, consecutive_agreements := 0\<rparr>
           in if demoted_reason k = '''' then
                k\<lparr>demoted_reason := ''rust and solders produced different bytes ('' @ nat_str (length rust_bytes)
                     @ '' vs '' @ nat_str (length python_bytes) @ '')'',
                  divergence_example := Some
                    \<lparr>python_prefix = hex_str (take 64 python_bytes), rust_prefix = hex_str (take 64 rust_bytes),
                     python_len = length python_bytes, rust_len = length rust_bytes\<rparr>\<rparr>
              else k)"

text \<open>The result is \<open>None\<close> when the solders builder raises.\<close>

definition compile_message ::
    "tx_kernel \<Rightarrow> bytes \<Rightarrow> sol_instruction list \<Rightarrow> bytes \<Rightarrow> bytes option \<Rightarrow> pyfloat \<Rightarrow> tx_kernel \<times> bytes option" where
  "compile_message k payer instructions blockhash python draw =
     (case (if kernel_mode k = OFF then None else native k) of
        None \<Rightarrow> (k\<lparr>python_builds := python_builds k + 1\<rparr>, python)
      | Some ext \<Rightarrow>
          (case compile_v0_message ext payer (raw_instructions instructions) blockhash of
             None \<Rightarrow> (k\<lparr>rust_errors := rust_errors k + 1, consecutive_agreements := 0,
                        python_builds := python_builds k + 1\<rparr>, python)
           | Some rust_bytes \<Rightarrow>
               let authoritative = rust_authoritative k;
                   failure = message_invariant_failure rust_bytes payer blockhash (length instructions)
               in if failure \<noteq> '''' then
                    let k = demote_kernel (''compiled message failed its invariant: '' @ failure)
                              (k\<lparr>invariant_failures := invariant_failures k + 1, consecutive_agreements := 0\<rparr>)
                    in (k\<lparr>python_builds := python_builds k + 1\<rparr>, python)
                  else if authoritative \<and> \<not> should_audit k draw then (k\<lparr>rust_builds := rust_builds k + 1\<rparr>, Some rust_bytes)
                  else case python of
                    None \<Rightarrow> (k, None)
                  | Some python_bytes \<Rightarrow>
                      let k = (if authoritative then k\<lparr>audits := audits k + 1\<rparr> else k);
                          k = record_comparison k python_bytes rust_bytes
                      in if authoritative \<and> demoted_reason k = ''''
                         then (k\<lparr>rust_builds := rust_builds k + 1\<rparr>, Some rust_bytes)
                         else (k\<lparr>python_builds := python_builds k + 1\<rparr>, Some python_bytes)))"

subsection \<open>Assembling\<close>

definition b64_alphabet :: string where
  "b64_alphabet = ''ABCDEFGHIJKLMNOPQRSTUVWXYZabcdefghijklmnopqrstuvwxyz0123456789+/''"

fun position :: "'a \<Rightarrow> 'a list \<Rightarrow> nat option" where
  "position x [] = None"
| "position x (y # ys) = (if x = y then Some 0 else map_option Suc (position x ys))"

fun b64_values :: "string \<Rightarrow> nat list option" where
  "b64_values [] = Some []"
| "b64_values (c # cs) =
     (case (position c b64_alphabet, b64_values cs) of (Some v, Some vs) \<Rightarrow> Some (v # vs) | _ \<Rightarrow> None)"

definition b64_quad :: "nat \<Rightarrow> nat \<Rightarrow> nat \<Rightarrow> nat \<Rightarrow> bytes" where
  "b64_quad a b c d =
     (let n = ((a * 64 + b) * 64 + c) * 64 + d
      in [word_of_nat (n div 65536), word_of_nat (n div 256 mod 256), word_of_nat (n mod 256)])"

fun b64_groups :: "nat list \<Rightarrow> nat \<Rightarrow> bytes option" where
  "b64_groups [] pad = (if pad = 0 then Some [] else None)"
| "b64_groups (a # b # c # d # vs) pad = map_option ((@) (b64_quad a b c d)) (b64_groups vs pad)"
| "b64_groups [a, b, c] pad = (if pad = 1 then Some (take 2 (b64_quad a b c 0)) else None)"
| "b64_groups [a, b] pad = (if pad = 2 then Some (take 1 (b64_quad a b 0 0)) else None)"
| "b64_groups [a] pad = None"

text \<open>\<open>base64.b64decode(s, validate=True)\<close>: whole groups of four, padding only at the end.\<close>

definition b64decode :: "string \<Rightarrow> bytes option" where
  "b64decode s =
     (let body = takeWhile (\<lambda>c. c \<noteq> CHR ''='') s; pad = dropWhile (\<lambda>c. c \<noteq> CHR ''='') s
      in if pad \<noteq> replicate (length pad) (CHR ''='') then None
         else case b64_values body of None \<Rightarrow> None | Some vs \<Rightarrow> b64_groups vs (length pad))"

definition py_endswith :: "'a list \<Rightarrow> 'a list \<Rightarrow> bool" where
  "py_endswith xs ys \<longleftrightarrow> length ys \<le> length xs \<and> drop (length xs - length ys) xs = ys"

text \<open>\<open>b64_error\<close> is the text of the decoder's exception.\<close>

definition invariant_failure :: "(string \<Rightarrow> string) \<Rightarrow> string \<Rightarrow> bytes \<Rightarrow> nat \<Rightarrow> string" where
  "invariant_failure b64_error encoded message_bytes signature_count =
     (case b64decode encoded of
        None \<Rightarrow> ''not valid base64: '' @ b64_error encoded
      | Some raw \<Rightarrow>
          let expected_len = 1 + signature_count * SIGNATURE_LEN + length message_bytes
          in if raw = [] then ''empty transaction''
             else if uint (raw ! 0) \<noteq> int signature_count
             then ''signature count byte is '' @ int_str (uint (raw ! 0)) @ '', expected '' @ nat_str signature_count
             else if length raw \<noteq> expected_len
             then ''length '' @ nat_str (length raw) @ '', expected '' @ nat_str expected_len
             else if \<not> py_endswith raw message_bytes then ''the transaction does not end with the signed message''
             else '''')"

definition assemble ::
    "(string \<Rightarrow> string) \<Rightarrow> tx_kernel \<Rightarrow> bytes \<Rightarrow> bytes list \<Rightarrow> string option \<Rightarrow> tx_kernel \<times> string option" where
  "assemble b64_error k message_bytes signatures python =
     (case (if kernel_mode k = OFF then None else native k) of
        None \<Rightarrow> (k, python)
      | Some ext \<Rightarrow>
          (case assemble_transaction ext message_bytes signatures of
             None \<Rightarrow> (k\<lparr>rust_errors := rust_errors k + 1\<rparr>, python)
           | Some encoded \<Rightarrow>
               let failure = invariant_failure b64_error encoded message_bytes (length signatures)
               in if failure \<noteq> '''' then
                    (demote_kernel (''assembled transaction failed its invariant: '' @ failure)
                       (k\<lparr>invariant_failures := invariant_failures k + 1\<rparr>), python)
                  else if \<not> rust_authoritative k then
                    (case python of
                       None \<Rightarrow> (k, None)
                     | Some expected \<Rightarrow> (record_comparison k (text_bytes expected) (text_bytes encoded), Some expected))
                  else (k, Some encoded)))"

subsection \<open>What the checks establish\<close>

definition v0_message :: "bytes \<Rightarrow> bytes \<Rightarrow> bytes \<Rightarrow> nat \<Rightarrow> bool" where
  "v0_message m payer blockhash n \<longleftrightarrow>
     (\<exists>signatures ro_signed ro_unsigned keys tail count.
        m = [0x80, signatures, ro_signed, ro_unsigned, word_of_nat count] @ payer @ keys @ blockhash @ [word_of_nat n] @ tail
        \<and> signatures \<noteq> 0 \<and> 1 \<le> count \<and> count < 128 \<and> n < 256
        \<and> length payer = 32 \<and> length keys = 32 * (count - 1) \<and> length blockhash = 32)"


lemma byte_of_count: "uint (b :: u8) = int n \<Longrightarrow> b = word_of_nat n"
  by (metis of_int_of_nat_eq word_of_int_uint)

lemma drop_slice: "i \<le> j \<Longrightarrow> drop i xs = slice i j xs @ drop j xs"
  by (metis add.commute append_take_drop_id drop_drop le_add_diff_inverse2 slice_def)

lemma message_checked:
  assumes "message_invariant_failure m payer blockhash n = ''''" shows "v0_message m payer blockhash n"
proof -
  define count where "count = nat (uint (m ! 4))"
  let ?ke = "5 + count * 32"
  have pass: "69 \<le> length m" "m ! 0 = 0x80" "1 \<le> uint (m ! 1)" "count < 128" "1 \<le> count"
      "?ke + 33 \<le> length m" "slice 5 37 m = payer" "slice ?ke (?ke + 32) m = blockhash" "uint (m ! (?ke + 32)) = int n"
    using assms unfolding message_invariant_failure_def Let_def count_def [symmetric] by (auto split: if_splits)
  obtain a b c d e rest where m: "m = a # b # c # d # e # rest"
    using pass(1) by (auto simp: numeral_eq_Suc Suc_le_length_iff)
  have e: "e = word_of_nat count" by (rule byte_of_count) (simp add: count_def m)
  have "uint (m ! (?ke + 32)) < 256" using uint_lt2p [of "m ! (?ke + 32)"] by simp
  then have n: "n < 256" using pass(9) by simp
  have last: "m ! (?ke + 32) = word_of_nat n" by (rule byte_of_count) (rule pass(9))
  have "rest = drop 5 m" by (simp add: m)
  also have "\<dots> = payer @ slice 37 ?ke m @ blockhash @ drop (?ke + 32) m"
    using drop_slice [of 5 37 m] drop_slice [of 37 ?ke m] drop_slice [of ?ke "?ke + 32" m] pass(5,7,8) by simp
  also have "drop (?ke + 32) m = word_of_nat n # drop (?ke + 33) m"
    using pass(6) last by (subst Cons_nth_drop_Suc [symmetric]) auto
  finally have "m = [0x80, b, c, d, word_of_nat count] @ payer @ slice 37 ?ke m @ blockhash @ [word_of_nat n] @ drop (?ke + 33) m"
    using e pass(2) by (simp add: m)
  moreover have "b \<noteq> 0" using pass(3) by (auto simp: m)
  moreover have "length payer = 32" "length blockhash = 32" "length (slice 37 ?ke m) = 32 * (count - 1)"
    using pass(1,5,6,7,8) by (auto simp: length_slice)
  ultimately show ?thesis unfolding v0_message_def using pass(4,5) n by blast
qed

text \<open>The checks refuse no well-formed message of ours.\<close>

lemma checked_message:
  assumes "v0_message m payer blockhash n" shows "message_invariant_failure m payer blockhash n = ''''"
proof -
  obtain s r u keys tail count where m:
      "m = [0x80, s, r, u, word_of_nat count] @ payer @ keys @ blockhash @ [word_of_nat n] @ tail"
    and h: "s \<noteq> 0" "1 \<le> count" "count < 128" "n < 256" "length payer = 32" "length keys = 32 * (count - 1)"
      "length blockhash = 32"
    using assms unfolding v0_message_def by blast
  let ?ke = "5 + count * 32"
  have c: "nat (uint (m ! 4)) = count" using h(3) by (simp add: m unsigned_of_nat take_bit_eq_mod)
  have len: "?ke + 33 \<le> length m" using h by (simp add: m)
  have "uint s \<noteq> 0" using h(1) by (simp add: uint_0_iff)
  then have s: "\<not> uint s < 1" using uint_ge_0 [of s] by linarith
  have "slice 5 37 m = payer" using h(5) by (simp add: m slice_def)
  moreover define pre where "pre = [0x80, s, r, u, word_of_nat count] @ payer @ keys"
  have pre: "m = pre @ blockhash @ [word_of_nat n] @ tail" "length pre = ?ke"
    using h(2,5,6) by (simp_all add: m pre_def)
  have "slice (length pre) (length pre + 32) m = blockhash" using h(7) by (simp add: pre(1) slice_def)
  then have "slice ?ke (?ke + 32) m = blockhash" by (simp only: pre(2))
  moreover have "m ! (length pre + 32) = word_of_nat n" using h(7) by (simp add: pre(1) nth_append)
  then have "uint (m ! (?ke + 32)) = int n"
    using h(4) by (simp only: pre(2)) (simp add: unsigned_of_nat take_bit_eq_mod)
  ultimately show ?thesis
    using len c s h(2,3) unfolding message_invariant_failure_def Let_def c by (auto simp: m)
qed

lemma assembly_checked:
  assumes "invariant_failure err encoded m n = ''''"
  shows "\<exists>signatures. b64decode encoded = Some (word_of_nat n # signatures @ m) \<and> length signatures = 64 * n \<and> n < 256"
proof -
  obtain raw where raw: "b64decode encoded = Some raw" "raw \<noteq> []" "uint (raw ! 0) = int n"
      "length raw = 1 + n * 64 + length m" "drop (length raw - length m) raw = m"
    using assms unfolding invariant_failure_def Let_def SIGNATURE_LEN_def py_endswith_def
    by (auto split: option.splits if_splits)
  then obtain b rest where b: "raw = b # rest" by (cases raw) auto
  have "b = word_of_nat n" by (rule byte_of_count) (use raw(3) b in simp)
  moreover have "rest = take (64 * n) rest @ m"
    using raw(4,5) b append_take_drop_id [of "64 * n" rest] by (simp add: mult.commute)
  moreover have "length (take (64 * n) rest) = 64 * n" using raw(4) b by simp
  moreover have "n < 256" using raw(3) uint_lt2p [of "raw ! 0"] by simp
  ultimately show ?thesis using raw(1) b by metis
qed

subsection \<open>What leaves the kernel\<close>

lemma authoritative_clean: "rust_authoritative k \<Longrightarrow> demoted_reason k = ''''"
  by (auto simp: rust_authoritative_def split: if_splits)

lemma compile_leaves:
  assumes "compile_message k payer instrs blockhash python draw = (k', Some m)"
  shows "python = Some m \<or> rust_authoritative k \<and> demoted_reason k' = '''' \<and> v0_message m payer blockhash (length instrs)"
proof (cases "if kernel_mode k = OFF then None else native k")
  case None
  then show ?thesis using assms by (simp add: compile_message_def)
next
  case (Some ext)
  note ext = this
  show ?thesis
  proof (cases "compile_v0_message ext payer (raw_instructions instrs) blockhash")
    case None
    then show ?thesis using assms ext by (simp add: compile_message_def)
  next
    case (Some rust)
    show ?thesis
    proof (cases "message_invariant_failure rust payer blockhash (length instrs) = ''''")
      case False
      then show ?thesis using assms Some ext by (simp add: compile_message_def Let_def)
    next
      case True
      then show ?thesis
        using assms message_checked [OF True] Some ext authoritative_clean [of k]
        by (auto simp: compile_message_def Let_def split: if_splits option.splits)
    qed
  qed
qed

lemma assemble_leaves:
  assumes "assemble err k m sigs python = (k', Some encoded)"
  shows "python = Some encoded \<or> rust_authoritative k \<and> demoted_reason k' = ''''
    \<and> (\<exists>signatures. b64decode encoded = Some (word_of_nat (length sigs) # signatures @ m)
         \<and> length signatures = 64 * length sigs \<and> length sigs < 256)"
proof (cases "if kernel_mode k = OFF then None else native k")
  case None
  then show ?thesis using assms by (simp add: assemble_def)
next
  case (Some ext)
  note ext = this
  show ?thesis
  proof (cases "assemble_transaction ext m sigs")
    case None
    then show ?thesis using assms ext by (simp add: assemble_def)
  next
    case (Some enc)
    show ?thesis
    proof (cases "invariant_failure err enc m (length sigs) = ''''")
      case False
      then show ?thesis using assms Some ext by (simp add: assemble_def Let_def)
    next
      case True
      then show ?thesis
        using assms assembly_checked [OF True] Some ext authoritative_clean [of k]
        by (auto simp: assemble_def Let_def split: if_splits option.splits)
    qed
  qed
qed

subsection \<open>Histories\<close>

datatype kernel_event =
    Compiles bytes "sol_instruction list" bytes "bytes option" pyfloat
  | Assembles bytes "bytes list" "string option"

definition kernel_step :: "(string \<Rightarrow> string) \<Rightarrow> tx_kernel \<Rightarrow> kernel_event \<Rightarrow> tx_kernel" where
  "kernel_step b64_error k ev =
     (case ev of
        Compiles payer instrs blockhash python draw \<Rightarrow> fst (compile_message k payer instrs blockhash python draw)
      | Assembles m sigs python \<Rightarrow> fst (assemble b64_error k m sigs python))"

definition kernel_inv :: "tx_mode \<Rightarrow> int \<Rightarrow> tx_kernel \<Rightarrow> bool" where
  "kernel_inv mode after k \<longleftrightarrow> kernel_mode k = mode \<and> promote_after k = after
     \<and> (demoted_reason k = '''' \<longrightarrow> divergences k = 0 \<and> invariant_failures k = 0)
     \<and> consecutive_agreements k \<le> agreements k \<and> compared k = agreements k + divergences k"

text \<open>Two kernels with the same evidence agree on the invariant: the build counters play no part.\<close>

lemma kernel_inv_builds [simp]:
  "kernel_inv mode after (k\<lparr>python_builds := a\<rparr>) \<longleftrightarrow> kernel_inv mode after k"
  "kernel_inv mode after (k\<lparr>rust_builds := b\<rparr>) \<longleftrightarrow> kernel_inv mode after k"
  "kernel_inv mode after (k\<lparr>audits := c\<rparr>) \<longleftrightarrow> kernel_inv mode after k"
  "kernel_inv mode after (k\<lparr>rust_errors := d\<rparr>) \<longleftrightarrow> kernel_inv mode after k"
  by (simp_all add: kernel_inv_def)

lemma kernel_inv_reset [simp]: "kernel_inv mode after k \<Longrightarrow> kernel_inv mode after (k\<lparr>consecutive_agreements := 0\<rparr>)"
  by (simp add: kernel_inv_def)

lemma kernel_inv_record: "kernel_inv mode after k \<Longrightarrow> kernel_inv mode after (record_comparison k p r)"
  by (auto simp: record_comparison_def kernel_inv_def Let_def)

lemma kernel_inv_demote:
  "reason \<noteq> '''' \<Longrightarrow> kernel_inv mode after k
     \<Longrightarrow> kernel_inv mode after (demote_kernel reason (k\<lparr>invariant_failures := n, consecutive_agreements := 0\<rparr>))
       \<and> kernel_inv mode after (demote_kernel reason (k\<lparr>invariant_failures := n\<rparr>))"
  by (auto simp: demote_kernel_def kernel_inv_def)

lemma compile_inv: "kernel_inv mode after k \<Longrightarrow> kernel_inv mode after (fst (compile_message k payer instrs bh python draw))"
proof -
  assume inv: "kernel_inv mode after k"
  have "kernel_inv mode after (k\<lparr>rust_errors := e, consecutive_agreements := 0, python_builds := p\<rparr>)" for e p
    using inv by (simp add: kernel_inv_def)
  then show ?thesis
    using inv kernel_inv_demote [OF _ inv] kernel_inv_record [OF inv]
      kernel_inv_record [of mode after "k\<lparr>audits := audits k + 1\<rparr>"]
    by (simp add: compile_message_def Let_def split: option.splits)
qed

lemma assemble_inv: "kernel_inv mode after k \<Longrightarrow> kernel_inv mode after (fst (assemble err k m sigs python))"
  using kernel_inv_demote [of _ mode after k] kernel_inv_record [of mode after k]
  by (simp add: assemble_def Let_def split: option.splits)

interpretation kernels: machine "kernel_step err" "kernel_inv mode after" for err mode after
proof
  show "kernel_inv mode after k \<Longrightarrow> kernel_inv mode after (kernel_step err k ev)" for k ev
    by (cases ev) (simp_all add: kernel_step_def compile_inv assemble_inv)
qed

lemma new_kernel_inv:
  "mode_of_name name = Some mode \<Longrightarrow> kernel_inv mode (max 1 after) (new_kernel name after rate imported)"
  by (simp add: kernel_inv_def new_kernel_def)

text \<open>
  A comparison made while assembling counts as a build that agreed, so one transaction brings the
  promotion two builds closer.
\<close>

lemma assembly_counts_as_build:
  assumes "kernel_mode k \<noteq> OFF" "native k = Some ext" "assemble_transaction ext m sigs = Some enc"
    "invariant_failure err enc m (length sigs) = ''''" "\<not> rust_authoritative k"
  shows "consecutive_agreements (fst (assemble err k m sigs (Some enc))) = consecutive_agreements k + 1"
  using assms by (simp add: assemble_def record_comparison_def Let_def)

subsection \<open>Properties\<close>

text \<open>
  What leaves the kernel was checked: a message is the solders one, or comes from an authoritative
  kernel that is still not demoted and has the v0 layout with the payer at account zero, the blockhash
  behind the keys and the instruction count asked for.
\<close>

lemma message_leaves_checked:
  assumes "compile_message k payer instrs blockhash python draw = (k', Some m)"
    and "python \<noteq> Some m"
  shows "rust_authoritative k \<and> demoted_reason k' = ''''
    \<and> (\<exists>signatures ro_signed ro_unsigned keys tail count.
        m = [0x80, signatures, ro_signed, ro_unsigned, word_of_nat count] @ payer @ keys @ blockhash
              @ [word_of_nat (length instrs)] @ tail
        \<and> signatures \<noteq> 0 \<and> 1 \<le> count \<and> count < 128 \<and> length payer = 32
        \<and> length keys = 32 * (count - 1) \<and> length blockhash = 32)"
  using compile_leaves [OF assms(1)] assms(2) unfolding v0_message_def by blast

text \<open>
  C18: the native builder is promoted on evidence and demoted for good: in AUTO mode, after any history
  of compiles and assemblies, bytes that are not the solders answer leave the kernel (as a message or
  as an assembled transaction that ends in exactly the signed message) only when at least
  \<open>promote_after\<close> comparisons agreed, none ever differed and no check ever failed.
\<close>

theorem promoted_on_evidence:
  assumes "mode_of_name name = Some AUTO"
    and "k = run (kernel_step err) (new_kernel name after rate imported) evs"
    and "(if compiling then compile_message k payer instrs blockhash python draw = (k', Some out) \<and> python \<noteq> Some out
          else assemble err k m sigs python' = (k', Some enc) \<and> python' \<noteq> Some enc)"
  shows "after \<le> int (agreements k) \<and> 1 \<le> agreements k \<and> divergences k = 0 \<and> invariant_failures k = 0
    \<and> compared k = agreements k
    \<and> (if compiling then True
       else \<exists>signatures. b64decode enc = Some (word_of_nat (length sigs) # signatures @ m)
              \<and> length signatures = 64 * length sigs)"
proof -
  have inv: "kernel_inv AUTO (max 1 after) k"
    unfolding assms(2) by (rule kernels.run_inv [OF new_kernel_inv [OF assms(1)]])
  have "rust_authoritative k \<and> (if compiling then True
       else \<exists>signatures. b64decode enc = Some (word_of_nat (length sigs) # signatures @ m)
              \<and> length signatures = 64 * length sigs)"
  proof (cases compiling)
    case True
    then show ?thesis using assms(3) compile_leaves [of k payer instrs blockhash python draw k' out] by auto
  next
    case False
    then show ?thesis using assms(3) assemble_leaves [of err k m sigs python' k' enc] by auto
  qed
  moreover from this have "max 1 after \<le> int (consecutive_agreements k)" "demoted_reason k = ''''"
    using inv by (auto simp: rust_authoritative_def kernel_inv_def split: if_splits)
  ultimately show ?thesis using inv by (simp add: kernel_inv_def)
qed

text \<open>A concrete extension for the witnesses.\<close>

definition zero_message :: bytes where
  "zero_message = [0x80, 1, 0, 0, word_of_nat 1] @ replicate 32 0 @ [] @ replicate 32 0 @ [word_of_nat 0] @ []"

definition zero_ext :: native_ext where
  "zero_ext = \<lparr>attributes = [''compile_v0_message'', ''assemble_transaction''],
     compile_v0_message = (\<lambda>_ _ _. Some zero_message), assemble_transaction = (\<lambda>_ _. None)\<rparr>"

definition promoted_kernel :: tx_kernel where
  "promoted_kernel = run (kernel_step id) (new_kernel ''auto'' 1 0 (Inr zero_ext))
     [Compiles (replicate 32 0) [] (replicate 32 0) (Some zero_message) 1]"

lemma zero_checked: "message_invariant_failure zero_message (replicate 32 0) (replicate 32 0) 0 = ''''"
proof (rule checked_message)
  have "v0_message ([0x80, 1, 0, 0, word_of_nat 1] @ replicate 32 0 @ [] @ replicate 32 0 @ [word_of_nat 0] @ [])
      (replicate 32 0) (replicate 32 0) 0"
    unfolding v0_message_def
    by (intro exI [of _ "1 :: u8"] exI [of _ "0 :: u8"] exI [of _ "[] :: bytes"] exI [of _ "1 :: nat"] conjI refl)
      simp_all
  then show "v0_message zero_message (replicate 32 0) (replicate 32 0) 0" by (simp only: zero_message_def)
qed

lemma auto_name: "mode_of_name ''auto'' = Some AUTO"
  by (simp add: mode_of_name_def py_lower_def lower_char_def Let_def)

lemma promoted_kernel_compiles:
  "\<exists>k'. compile_message promoted_kernel (replicate 32 0) [] (replicate 32 0) None 1 = (k', Some zero_message)"
  using zero_checked
  by (simp add: promoted_kernel_def kernel_step_def new_kernel_def compile_message_def Let_def zero_ext_def auto_name
      load_native_def rust_authoritative_def rust_available_def record_comparison_def should_audit_def)

theorem promoted_on_evidence_witness: "1 \<le> agreements promoted_kernel \<and> divergences promoted_kernel = 0"
proof -
  obtain k' where k': "compile_message promoted_kernel (replicate 32 0) [] (replicate 32 0) None 1 = (k', Some zero_message)"
    using promoted_kernel_compiles by blast
  show ?thesis
    using promoted_on_evidence [OF auto_name promoted_kernel_def, of True "replicate 32 0" "[]" "replicate 32 0" None 1 k'
        zero_message] k' by simp
qed

end
