(* ===== verification/SignerProtocol.thy ===== *)
theory SignerProtocol
  imports PyText Interfaces
begin

text \<open>
  \<open>execution/signer_protocol.py\<close>: length-prefixed frames on a held connection.  A stream is the bytes
  still to be read; \<open>readexactly\<close> fails when fewer are left.  A raised \<open>ValueError\<close> is its message.
\<close>

definition PROTOCOL_VERSION :: nat where "PROTOCOL_VERSION = 1"
definition MAGIC :: bytes where "MAGIC = [0x4D, 0x43, 0x53]"
definition HANDSHAKE :: bytes where "HANDSHAKE = MAGIC @ [of_nat PROTOCOL_VERSION]"
definition HANDSHAKE_SIZE :: nat where "HANDSHAKE_SIZE = length HANDSHAKE"
definition OP_PUBKEY :: u8 where "OP_PUBKEY = 1"
definition OP_SIGN :: u8 where "OP_SIGN = 2"
definition OP_PING :: u8 where "OP_PING = 3"
definition STATUS_OK :: u8 where "STATUS_OK = 0"
definition STATUS_REFUSED :: u8 where "STATUS_REFUSED = 1"
definition STATUS_ERROR :: u8 where "STATUS_ERROR = 2"
definition MAX_FRAME :: nat where "MAX_FRAME = 65536"
definition HEADER_SIZE :: nat where "HEADER_SIZE = 5"

text \<open>\<open>_HEADER.pack(length, code)\<close>, \<open>"<IB"\<close>.\<close>

definition pack_header :: "nat \<Rightarrow> u8 \<Rightarrow> bytes" where
  "pack_header n code = le_bytes 4 (int n) @ [code]"

definition frame_bytes :: "u8 \<times> bytes \<Rightarrow> bytes" where
  "frame_bytes f = pack_header (length (snd f) + 1) (fst f) @ snd f"

definition encode_request :: "u8 \<Rightarrow> bytes \<Rightarrow> string + bytes" where
  "encode_request op payload =
     (if MAX_FRAME < length payload + 1
      then Inl (''payload of '' @ nat_str (length payload) @ '' exceeds the frame limit'')
      else Inr (frame_bytes (op, payload)))"

definition encode_response :: "u8 \<Rightarrow> bytes \<Rightarrow> string + bytes" where
  "encode_response status payload =
     (if MAX_FRAME < length payload + 1
      then Inl (''payload of '' @ nat_str (length payload) @ '' exceeds the frame limit'')
      else Inr (frame_bytes (status, payload)))"

definition decode_header :: "bytes \<Rightarrow> string + nat \<times> u8" where
  "decode_header header =
     (if length header \<noteq> HEADER_SIZE
      then Inl (''header must be '' @ nat_str HEADER_SIZE @ '' bytes'')
      else
        let n = nat (le_val (slice 0 4 header)); code = header ! 4
        in if n < 1 \<or> MAX_FRAME < n
           then Inl (''frame length '' @ nat_str n @ '' outside 1..'' @ nat_str MAX_FRAME)
           else Inr (n - 1, code))"

definition read_exactly :: "nat \<Rightarrow> bytes \<Rightarrow> (bytes \<times> bytes) option" where
  "read_exactly n stream = (if length stream < n then None else Some (take n stream, drop n stream))"

text \<open>
  What one \<open>read_frame\<close> gives: the frame and the rest of the stream, a clean end (no whole header),
  a rejected header (\<open>ValueError\<close>), or a payload cut short (\<open>IncompleteReadError\<close>).
\<close>

datatype frame_read = Frame u8 bytes bytes | Clean_end | Bad_header string | Cut_short

definition read_frame :: "bytes \<Rightarrow> frame_read" where
  "read_frame stream =
     (case read_exactly HEADER_SIZE stream of
        None \<Rightarrow> Clean_end
      | Some (header, body) \<Rightarrow>
          (case decode_header header of
             Inl exc \<Rightarrow> Bad_header exc
           | Inr (n, code) \<Rightarrow>
               (case read_exactly n body of
                  None \<Rightarrow> Cut_short
                | Some (payload, rest) \<Rightarrow> Frame code payload rest)))"

definition parse_handshake :: "bytes \<Rightarrow> string + nat" where
  "parse_handshake handshake =
     (if length handshake \<noteq> HANDSHAKE_SIZE
      then Inl (''handshake must be '' @ nat_str HANDSHAKE_SIZE @ '' bytes'')
      else if take (length MAGIC) handshake \<noteq> MAGIC
      then Inl (''not a signer connection: '' @ bytes_repr handshake)
      else Inr (unat (handshake ! length MAGIC)))"

lemmas protocol_consts =
  PROTOCOL_VERSION_def MAGIC_def HANDSHAKE_def HANDSHAKE_SIZE_def OP_PUBKEY_def OP_SIGN_def OP_PING_def
  STATUS_OK_def STATUS_REFUSED_def STATUS_ERROR_def MAX_FRAME_def HEADER_SIZE_def

subsection \<open>Frames are a stream codec\<close>

definition frame_valid :: "u8 \<times> bytes \<Rightarrow> bool" where
  "frame_valid f \<longleftrightarrow> length (snd f) + 1 \<le> MAX_FRAME"

definition take_frame :: "bytes \<Rightarrow> ((u8 \<times> bytes) \<times> bytes) option" where
  "take_frame stream = (case read_frame stream of Frame code payload rest \<Rightarrow> Some ((code, payload), rest) | _ \<Rightarrow> None)"

lemma length_pack_header [simp]: "length (pack_header n code) = HEADER_SIZE"
  by (simp add: pack_header_def HEADER_SIZE_def)

lemma decode_pack_header:
  assumes "0 < n" "n \<le> MAX_FRAME"
  shows "decode_header (pack_header n code) = Inr (n - 1, code)"
proof -
  have "le_val (slice 0 4 (pack_header n code)) = int n"
    using assms by (simp add: pack_header_def byte_simps le_val_le_bytes MAX_FRAME_def)
  moreover have "pack_header n code ! 4 = code" by (simp add: pack_header_def nth_append)
  ultimately show ?thesis using assms by (simp add: decode_header_def Let_def)
qed

lemma read_frame_frame_bytes:
  assumes "frame_valid f"
  shows "read_frame (frame_bytes f @ rest) = Frame (fst f) (snd f) rest"
proof -
  have "read_exactly HEADER_SIZE (frame_bytes f @ rest)
      = Some (pack_header (length (snd f) + 1) (fst f), snd f @ rest)"
    by (simp add: read_exactly_def frame_bytes_def)
  then show ?thesis
    using assms decode_pack_header [of "length (snd f) + 1" "fst f"]
    by (simp add: read_frame_def frame_valid_def read_exactly_def)
qed

interpretation frames: stream_codec frame_bytes take_frame frame_valid
  by unfold_locales (simp add: take_frame_def read_frame_frame_bytes)

lemma encode_valid:
  "encode_request op payload = Inr out \<longleftrightarrow> frame_valid (op, payload) \<and> out = frame_bytes (op, payload)"
  "encode_response op payload = Inr out \<longleftrightarrow> frame_valid (op, payload) \<and> out = frame_bytes (op, payload)"
  by (auto simp: encode_request_def encode_response_def frame_valid_def)

text \<open>Whatever a frame is read from, what is left is shorter: a reading loop ends.\<close>

lemma read_frame_shrinks: "read_frame stream = Frame code payload rest \<Longrightarrow> length rest < length stream"
proof -
  have ex: "length r + n = length s" if "read_exactly n s = Some (a, r)" for n s a r
    using that by (auto simp: read_exactly_def split: if_splits)
  show "read_frame stream = Frame code payload rest \<Longrightarrow> length rest < length stream"
    by (auto simp: read_frame_def HEADER_SIZE_def dest!: ex split: option.splits sum.splits)
qed

text \<open>A binary connection is told from a JSON one by its first byte.\<close>

lemma handshake_not_json: "hd HANDSHAKE \<noteq> 0x7B"
  by (simp add: protocol_consts)

subsection \<open>Properties\<close>

text \<open>
  C33: any sequence of frames written back to back is read back as exactly those frames, whatever
  bytes the payloads hold and whatever follows, so a held connection never desynchronises.
\<close>

theorem frames_in_sync:
  assumes "list_all frame_valid fs"
  shows "frames.dec_n (length fs) (concat (map frame_bytes fs) @ rest) = Some (fs, rest)
    \<and> (\<forall>f \<in> set fs. encode_request (fst f) (snd f) = Inr (frame_bytes f)
        \<and> encode_response (fst f) (snd f) = Inr (frame_bytes f))"
  using frames.dec_n_concat [OF assms] assms by (auto simp: list_all_iff encode_valid)

theorem frames_in_sync_witness:
  "frames.dec_n 2 (concat (map frame_bytes [(OP_SIGN, replicate 122 10), (OP_PING, [])]) @ [7])
     = Some ([(OP_SIGN, replicate 122 10), (OP_PING, [])], [7])"
  using frames_in_sync [of "[(OP_SIGN, replicate 122 10), (OP_PING, [])]" "[7]"]
  by (simp add: frame_valid_def MAX_FRAME_def numeral_2_eq_2)

end
