(* ===== verification/Signer.thy ===== *)
theory Signer
  imports SignerProtocol PyFloat
begin

text \<open>
  \<open>execution/signer.py\<close>: the isolated signer.  It decodes the message itself, judges it against its
  policy, and signs or refuses; the server serves framed requests on a held connection, the client
  retries a dead connection once and never a refusal.  The message decoder (\<open>solders\<close>), the key, the
  kill file, the environment variable and the clock are arguments.
\<close>

definition SYSTEM_PROGRAM :: string where
  "SYSTEM_PROGRAM = ''11111111111111111111111111111111''"

definition DEFAULT_ALLOWED_PROGRAMS :: "string list" where
  "DEFAULT_ALLOWED_PROGRAMS =
     [''11111111111111111111111111111111'', ''TokenkegQfeZyiNwAJbNbGKPFXCWuBvf9Ss623VQ5DA'',
      ''ATokenGPvbdGVxr1b2hvZbsiqW5xWH25efTNsLJA8knL'', ''ComputeBudget111111111111111111111111111111'',
      ''6EF8rrecthR5Dkzon8Nwu78hRvfCKubJ14M5uBEwF6P'', ''pAMMBay6oceH9fJKBRHGP5D4bD4sWpmSwMn52FMfXEA'',
      ''JUP6LkbZbjS1jKKwapdHNy74zcZ3tLUZoi5QNyVTaV4'']"

definition LIVE_ACK_VALUE :: string where "LIVE_ACK_VALUE = ''yes-i-understand''"

record signer_policy =
  allowed_programs :: "string list"
  max_transfer_lamports :: int
  rate_limit_per_minute :: int
  kill_file :: string
  require_live_ack :: bool

definition default_policy :: signer_policy where
  "default_policy =
     \<lparr>allowed_programs = DEFAULT_ALLOWED_PROGRAMS, max_transfer_lamports = 2000000000,
      rate_limit_per_minute = 30, kill_file = ''data/state/HALT_SIGNING'', require_live_ack = True\<rparr>"

record decision =
  allowed :: bool
  decision_reason :: string
  decision_programs :: "string list"
  transfer_lamports :: int
  decision_payer :: string

definition refusal :: "string \<Rightarrow> decision" where
  "refusal reason = \<lparr>allowed = False, decision_reason = reason, decision_programs = [],
     transfer_lamports = 0, decision_payer = ''''\<rparr>"

record compiled_instruction =
  program_id_index :: nat
  instruction_data :: bytes

record decoded_message =
  account_keys :: "string list"
  message_instructions :: "compiled_instruction list"

definition system_transfer_lamports :: "string \<Rightarrow> bytes \<Rightarrow> int" where
  "system_transfer_lamports program_id data =
     (if program_id \<noteq> SYSTEM_PROGRAM then 0
      else if length data < 12 then 0
      else if le_val (slice 0 4 data) \<noteq> 2 then 0
      else le_val (slice 4 12 data))"

subsection \<open>The inspector\<close>

definition strip_version :: "bytes \<Rightarrow> bytes" where
  "strip_version raw = (if raw \<noteq> [] \<and> and (hd raw) 0x80 \<noteq> 0 then tl raw else raw)"

text \<open>The loop over the instructions; \<open>None\<close> is the early return of an unidentifiable program.\<close>

fun scan_instructions ::
    "string list \<Rightarrow> compiled_instruction list \<Rightarrow> string list \<Rightarrow> int \<Rightarrow> (string list \<times> int) option" where
  "scan_instructions keys [] programs moved = Some (programs, moved)"
| "scan_instructions keys (i # is) programs moved =
     (if length keys \<le> program_id_index i then None
      else
        let program_id = keys ! program_id_index i
        in scan_instructions keys is (programs @ [program_id])
             (moved + system_transfer_lamports program_id (instruction_data i)))"

definition judge :: "signer_policy \<Rightarrow> string \<Rightarrow> decision \<Rightarrow> decision" where
  "judge policy expected_payer d =
     (if decision_payer d \<noteq> expected_payer
      then d\<lparr>allowed := False, decision_reason :=
             ''fee payer '' @ take 8 (decision_payer d) @ ''... is not this signer's account''\<rparr>
      else
        let unknown = filter (\<lambda>p. p \<notin> set (allowed_programs policy)) (decision_programs d)
        in if unknown \<noteq> []
           then d\<lparr>allowed := False, decision_reason := ''instruction against unlisted program '' @ hd unknown\<rparr>
           else if max_transfer_lamports policy < transfer_lamports d
           then d\<lparr>allowed := False, decision_reason :=
                  ''moves '' @ int_str (transfer_lamports d) @ '' lamports, above the ''
                  @ int_str (max_transfer_lamports policy) @ '' ceiling''\<rparr>
           else d)"

definition inspect ::
    "(bytes \<Rightarrow> string + decoded_message) \<Rightarrow> signer_policy \<Rightarrow> bytes \<Rightarrow> string \<Rightarrow> decision" where
  "inspect decode policy raw expected_payer =
     (case decode (strip_version raw) of
        Inl exc \<Rightarrow> refusal (''message did not decode: '' @ exc)
      | Inr message \<Rightarrow>
          (case account_keys message of
             [] \<Rightarrow> refusal ''message carries no account keys''
           | payer # _ \<Rightarrow>
               (case scan_instructions (account_keys message) (message_instructions message) [] 0 of
                  None \<Rightarrow> (refusal (''instruction references a program outside the ''
                             @ ''static key set; it cannot be identified here''))\<lparr>decision_payer := payer\<rparr>
                | Some (programs, moved) \<Rightarrow>
                    judge policy expected_payer
                      \<lparr>allowed = True, decision_reason = '''', decision_programs = programs,
                       transfer_lamports = moved, decision_payer = payer\<rparr>)))"

subsection \<open>The service\<close>

record signer_service =
  policy :: signer_policy
  public_key :: string
  recent :: "pyfloat list"
  signed :: nat
  refused :: nat
  refusals :: "(pyfloat \<times> decision) list"

text \<open>What the process reads outside itself during one call.\<close>

record sign_env =
  kill_present :: bool
  live_ack :: string
  wall_clock :: pyfloat

definition halted :: "signer_policy \<Rightarrow> sign_env \<Rightarrow> string" where
  "halted p e =
     (if kill_present e then ''halt file present at '' @ kill_file p
      else if require_live_ack p \<and> py_lower (py_strip (live_ack e)) \<noteq> LIVE_ACK_VALUE
      then ''ALLOW_LIVE_TRADING is not set to the acknowledgement; the ''
           @ ''signer will not sign for an unacknowledged desk''
      else '''')"

definition prune_recent :: "pyfloat \<Rightarrow> pyfloat list \<Rightarrow> pyfloat list" where
  "prune_recent now ts = dropWhile (\<lambda>t. 60 < fsub now t) ts"

definition rate_limited :: "signer_service \<Rightarrow> pyfloat \<Rightarrow> signer_service \<times> string" where
  "rate_limited s now =
     (let s = s\<lparr>recent := prune_recent now (recent s)\<rparr>
      in if rate_limit_per_minute (policy s) \<le> int (length (recent s))
         then (s, nat_str (length (recent s)) @ '' signatures in the last minute is at ''
                  @ ''the limit of '' @ int_str (rate_limit_per_minute (policy s)))
         else (s, ''''))"

definition record_refusal :: "signer_service \<Rightarrow> pyfloat \<Rightarrow> decision \<Rightarrow> signer_service" where
  "record_refusal s at_time d =
     s\<lparr>refused := refused s + 1, refusals := push_bounded 100 (at_time, d) (refusals s)\<rparr>"

definition sign ::
    "(bytes \<Rightarrow> string + decoded_message) \<Rightarrow> (bytes \<Rightarrow> bytes) \<Rightarrow> sign_env \<Rightarrow> signer_service \<Rightarrow> bytes
       \<Rightarrow> pyfloat option \<Rightarrow> signer_service \<times> bytes option \<times> decision" where
  "sign decode key_sign e s raw now =
     (let moment = (case now of None \<Rightarrow> wall_clock e | Some t \<Rightarrow> t)
      in if halted (policy s) e \<noteq> '''' then
           let d = refusal (halted (policy s) e) in (record_refusal s (wall_clock e) d, None, d)
         else
           let (s, limited) = rate_limited s moment
           in if limited \<noteq> '''' then
                let d = refusal limited in (record_refusal s (wall_clock e) d, None, d)
              else
                let d = inspect decode (policy s) raw (public_key s)
                in if \<not> allowed d then (record_refusal s moment d, None, d)
                   else (s\<lparr>recent := recent s @ [moment], signed := signed s + 1\<rparr>, Some (key_sign raw), d))"

subsection \<open>The server\<close>

text \<open>One request on a binary connection: the frame it is answered with, or what was raised.\<close>

definition answer ::
    "(bytes \<Rightarrow> string + decoded_message) \<Rightarrow> (bytes \<Rightarrow> bytes) \<Rightarrow> sign_env \<Rightarrow> signer_service \<Rightarrow> u8 \<Rightarrow> bytes
       \<Rightarrow> signer_service \<times> (string + bytes)" where
  "answer decode key_sign e s op payload =
     (if op = OP_PUBKEY then (s, encode_response STATUS_OK (text_bytes (public_key s)))
      else if op = OP_PING then (s, encode_response STATUS_OK [])
      else if op = OP_SIGN then
        (case sign decode key_sign e s payload None of
           (s', Some signature, d) \<Rightarrow> (s', encode_response STATUS_OK signature)
         | (s', None, d) \<Rightarrow>
             (s', encode_response STATUS_REFUSED (take 4096 (text_bytes (decision_reason d)))))
      else (s, encode_response STATUS_ERROR (text_bytes (''unknown op '' @ nat_str (unat op)))))"

text \<open>\<open>except Exception\<close>: one error frame, if it can be encoded.\<close>

definition error_frames :: "string \<Rightarrow> bytes list" where
  "error_frames exc =
     (case encode_response STATUS_ERROR (text_bytes (''ValueError: '' @ exc)) of Inl _ \<Rightarrow> [] | Inr f \<Rightarrow> [f])"

function serve_binary ::
    "(bytes \<Rightarrow> string + decoded_message) \<Rightarrow> (bytes \<Rightarrow> bytes) \<Rightarrow> (nat \<Rightarrow> sign_env) \<Rightarrow> nat \<Rightarrow> signer_service
       \<Rightarrow> bytes \<Rightarrow> signer_service \<times> bytes list" where
  "serve_binary decode key_sign env k s stream =
     (case read_frame stream of
        Clean_end \<Rightarrow> (s, [])
      | Cut_short \<Rightarrow> (s, [])
      | Bad_header exc \<Rightarrow> (s, error_frames exc)
      | Frame op payload rest \<Rightarrow>
          (case answer decode key_sign (env k) s op payload of
             (s', Inl exc) \<Rightarrow> (s', error_frames exc)
           | (s', Inr out) \<Rightarrow>
               let (s'', outs) = serve_binary decode key_sign env (Suc k) s' rest in (s'', out # outs)))"
  by pat_completeness auto
termination
  by (relation "measure (\<lambda>(_, _, _, _, _, stream). length stream)") (auto dest: read_frame_shrinks)

declare serve_binary.simps [simp del]

text \<open>
  The connection handler.  The JSON line protocol's parsing (with its base64 decoding) is an
  argument; what it is answered with is the response object.
\<close>

datatype json_request = J_pubkey | J_sign bytes | J_other
datatype reply = Wire bytes | J_public_key string | J_signature "bytes option" decision | J_error string

record signer_server =
  service :: signer_service
  bad_handshakes :: nat
  version_mismatches :: nat

definition read_line :: "bytes \<Rightarrow> bytes" where
  "read_line bs = takeWhile (\<lambda>b. b \<noteq> 10) bs @ (if 10 \<in> set bs then [10] else [])"

definition wire_error :: "string \<Rightarrow> reply list" where
  "wire_error text = (case encode_response STATUS_ERROR (text_bytes text) of Inl exc \<Rightarrow> [J_error (''ValueError: '' @ exc)]
     | Inr f \<Rightarrow> [Wire f])"

definition handle_json ::
    "(bytes \<Rightarrow> string + json_request) \<Rightarrow> (bytes \<Rightarrow> string + decoded_message) \<Rightarrow> (bytes \<Rightarrow> bytes) \<Rightarrow> sign_env
       \<Rightarrow> signer_server \<Rightarrow> bytes \<Rightarrow> signer_server \<times> reply list" where
  "handle_json parse_json decode key_sign e srv raw =
     (case parse_json raw of
        Inl exc \<Rightarrow> (srv, [J_error exc])
      | Inr J_pubkey \<Rightarrow> (srv, [J_public_key (public_key (service srv))])
      | Inr (J_sign message) \<Rightarrow>
          let (s, signature, d) = sign decode key_sign e (service srv) message None
          in (srv\<lparr>service := s\<rparr>, [J_signature signature d])
      | Inr J_other \<Rightarrow> (srv, [J_error ''unknown op'']))"

definition handle ::
    "(bytes \<Rightarrow> string + json_request) \<Rightarrow> (bytes \<Rightarrow> string + decoded_message) \<Rightarrow> (bytes \<Rightarrow> bytes)
       \<Rightarrow> (nat \<Rightarrow> sign_env) \<Rightarrow> signer_server \<Rightarrow> bytes \<Rightarrow> signer_server \<times> reply list" where
  "handle parse_json decode key_sign env srv stream =
     (case stream of
        [] \<Rightarrow> (srv, [])
      | first # after \<Rightarrow>
          if [first] = take 1 MAGIC then
            (case read_exactly (HANDSHAKE_SIZE - 1) after of
               None \<Rightarrow> (srv, [J_error (''IncompleteReadError: '' @ nat_str (length after)
                          @ '' bytes read on a total of '' @ nat_str (HANDSHAKE_SIZE - 1) @ '' expected bytes'')])
             | Some (magic_rest, body) \<Rightarrow>
                 (case parse_handshake (first # magic_rest) of
                    Inl exc \<Rightarrow> (srv, wire_error exc)
                  | Inr version \<Rightarrow>
                      if version \<noteq> PROTOCOL_VERSION
                      then (srv\<lparr>version_mismatches := version_mismatches srv + 1\<rparr>,
                            wire_error (''protocol version '' @ nat_str version @ '' but this signer speaks ''
                              @ nat_str PROTOCOL_VERSION))
                      else
                        let (s, outs) = serve_binary decode key_sign env 0 (service srv) body
                        in (srv\<lparr>service := s\<rparr>, map Wire outs)))
          else if first \<noteq> 0x7B
          then (srv\<lparr>bad_handshakes := bad_handshakes srv + 1\<rparr>,
                wire_error ''expected a JSON object or the binary handshake'')
          else handle_json parse_json decode key_sign (env 0) srv (first # read_line after))"

subsection \<open>The client\<close>

record signer_client =
  conn_open :: bool
  client_public_key :: "string option"
  client_signed :: nat
  client_refusals :: nat
  last_refusal :: string
  reconnects :: nat
  client_frames :: nat

text \<open>
  What one attempt meets: a frame, a closed connection, a connection-class exception
  (\<open>ConnectionError\<close>, \<open>IncompleteReadError\<close>, \<open>OSError\<close>), or any other exception.
\<close>

datatype io_result = Io_frame u8 bytes | Io_closed | Io_connection string | Io_other string
datatype attempt_result = Got u8 bytes | Dead string | Raised string

definition drop_connection :: "signer_client \<Rightarrow> signer_client" where
  "drop_connection c = c\<lparr>conn_open := False\<rparr>"

definition attempt ::
    "nat \<Rightarrow> string option \<Rightarrow> io_result \<Rightarrow> u8 \<Rightarrow> bytes \<Rightarrow> signer_client \<Rightarrow> signer_client \<times> attempt_result" where
  "attempt n connect io op payload c =
     (if \<not> conn_open c \<and> connect \<noteq> None then (c, Dead (the connect))
      else
        let c = (if conn_open c then c
                 else c\<lparr>conn_open := True, reconnects := (if n > 0 then reconnects c + 1 else reconnects c)\<rparr>)
        in case encode_request op payload of
             Inl exc \<Rightarrow> (c, Raised exc)
           | Inr _ \<Rightarrow>
               (case io of
                  Io_frame code body \<Rightarrow> (c\<lparr>client_frames := client_frames c + 1\<rparr>, Got code body)
                | Io_closed \<Rightarrow> (c, Dead ''signer closed the connection'')
                | Io_connection exc \<Rightarrow> (c, Dead exc)
                | Io_other exc \<Rightarrow> (c, Raised exc)))"

definition client_frame ::
    "(nat \<Rightarrow> string option) \<Rightarrow> (nat \<Rightarrow> io_result) \<Rightarrow> u8 \<Rightarrow> bytes \<Rightarrow> signer_client
       \<Rightarrow> signer_client \<times> (string + u8 \<times> bytes)" where
  "client_frame connect io op payload c =
     (case attempt 0 (connect 0) (io 0) op payload c of
        (c, Got code body) \<Rightarrow> (c, Inr (code, body))
      | (c, Raised exc) \<Rightarrow> (c, Inl exc)
      | (c, Dead _) \<Rightarrow>
          (case attempt 1 (connect 1) (io 1) op payload (drop_connection c) of
             (c, Got code body) \<Rightarrow> (c, Inr (code, body))
           | (c, Raised exc) \<Rightarrow> (c, Inl exc)
           | (c, Dead exc) \<Rightarrow> (drop_connection c, Inl exc)))"

datatype signer_error = Permission_error string | Runtime_error string | Io_error string

definition client_pubkey ::
    "(bytes \<Rightarrow> string) \<Rightarrow> (nat \<Rightarrow> string option) \<Rightarrow> (nat \<Rightarrow> io_result) \<Rightarrow> signer_client
       \<Rightarrow> signer_client \<times> (signer_error + string)" where
  "client_pubkey utf8 connect io c =
     (case client_public_key c of
        Some key \<Rightarrow> (c, Inr key)
      | None \<Rightarrow>
          (case client_frame connect io OP_PUBKEY [] c of
             (c, Inl exc) \<Rightarrow> (c, Inl (Io_error exc))
           | (c, Inr (status, payload)) \<Rightarrow>
               if status \<noteq> STATUS_OK
               then (c, Inl (Runtime_error (''signer unreachable: '' @ utf8 payload)))
               else (c\<lparr>client_public_key := Some (bytes_text payload)\<rparr>, Inr (bytes_text payload))))"

definition sign_message ::
    "(bytes \<Rightarrow> string) \<Rightarrow> (nat \<Rightarrow> string option) \<Rightarrow> (nat \<Rightarrow> io_result) \<Rightarrow> bytes \<Rightarrow> signer_client
       \<Rightarrow> signer_client \<times> (signer_error + bytes)" where
  "sign_message utf8 connect io message c =
     (case client_frame connect io OP_SIGN message c of
        (c, Inl exc) \<Rightarrow> (c, Inl (Io_error exc))
      | (c, Inr (status, payload)) \<Rightarrow>
          if status \<noteq> STATUS_OK then
            let reason = (if utf8 payload = '''' then ''unknown'' else utf8 payload)
            in (c\<lparr>client_refusals := client_refusals c + 1, last_refusal := reason\<rparr>,
                Inl (Permission_error (''signer refused: '' @ reason)))
          else if length payload \<noteq> 64
          then (c, Inl (Runtime_error (''signer returned '' @ nat_str (length payload)
                  @ '' bytes where a signature belongs'')))
          else (c\<lparr>client_signed := client_signed c + 1\<rparr>, Inr payload))"

text \<open>\<open>signer_from_env\<close>: which signer the desk holds; a missing variable raises \<open>KeyError\<close>.\<close>

datatype signer_choice = Phantom_signer string string | Isolated_signer string | Local_signer

definition signer_from_env ::
    "(string \<Rightarrow> string option) \<Rightarrow> string option \<Rightarrow> string + signer_choice" where
  "signer_from_env env socket_path =
     (let get = (\<lambda>k d. case env k of None \<Rightarrow> d | Some v \<Rightarrow> v)
      in if py_strip (get ''MEMECOIN_WALLET_MODE'' '''') = ''phantom'' then
           (case env ''MEMECOIN_PHANTOM_TOKEN_FILE'' of
              None \<Rightarrow> Inl ''MEMECOIN_PHANTOM_TOKEN_FILE''
            | Some token_file \<Rightarrow>
                Inr (Phantom_signer (get ''MEMECOIN_PHANTOM_URL'' ''http://127.0.0.1:18082'') token_file))
         else
           let configured = (case socket_path of Some p \<Rightarrow> p | None \<Rightarrow> py_strip (get ''MEMECOIN_SIGNER_SOCKET'' ''''))
           in if configured \<noteq> '''' then Inr (Isolated_signer configured) else Inr Local_signer)"


subsection \<open>What the policy authorises\<close>

definition authorised ::
    "(bytes \<Rightarrow> string + decoded_message) \<Rightarrow> signer_policy \<Rightarrow> string \<Rightarrow> bytes \<Rightarrow> bool" where
  "authorised decode p pk raw \<longleftrightarrow>
     (case decode (strip_version raw) of
        Inl _ \<Rightarrow> False
      | Inr m \<Rightarrow>
          account_keys m \<noteq> [] \<and> hd (account_keys m) = pk
          \<and> (\<forall>i \<in> set (message_instructions m).
               program_id_index i < length (account_keys m)
               \<and> account_keys m ! program_id_index i \<in> set (allowed_programs p))
          \<and> sum_list (map (\<lambda>i. system_transfer_lamports (account_keys m ! program_id_index i) (instruction_data i))
               (message_instructions m)) \<le> max_transfer_lamports p)"

lemma scan_instructions_eq:
  "scan_instructions keys is programs moved =
     (if \<forall>i \<in> set is. program_id_index i < length keys
      then Some (programs @ map (\<lambda>i. keys ! program_id_index i) is,
                 moved + sum_list (map (\<lambda>i. system_transfer_lamports (keys ! program_id_index i) (instruction_data i)) is))
      else None)"
  by (induction keys "is" programs moved rule: scan_instructions.induct) (auto simp: Let_def)

lemma judge_allowed:
  "allowed (judge p pk d) \<longleftrightarrow> decision_payer d = pk \<and> set (decision_programs d) \<subseteq> set (allowed_programs p)
     \<and> transfer_lamports d \<le> max_transfer_lamports p \<and> allowed d"
  by (auto simp: judge_def Let_def filter_empty_conv)

lemma inspect_allowed_iff: "allowed (inspect decode p raw pk) \<longleftrightarrow> authorised decode p pk raw"
proof (cases "decode (strip_version raw)")
  case (Inl exc)
  then show ?thesis by (simp add: inspect_def authorised_def refusal_def)
next
  case (Inr m)
  show ?thesis
  proof (cases "account_keys m")
    case Nil
    with Inr show ?thesis by (simp add: inspect_def authorised_def refusal_def)
  next
    case (Cons payer others)
    then show ?thesis
      using Inr by (auto simp: inspect_def authorised_def refusal_def scan_instructions_eq judge_allowed)
  qed
qed

lemma rate_limited_eq:
  "rate_limited s now = (s', limited) \<Longrightarrow>
     s' = s\<lparr>recent := prune_recent now (recent s)\<rparr>
     \<and> (limited = '''' \<longleftrightarrow> int (length (prune_recent now (recent s))) < rate_limit_per_minute (policy s))"
  by (auto simp: rate_limited_def Let_def split: if_splits)

lemma record_refusal_simps [simp]:
  "policy (record_refusal s t d) = policy s" "public_key (record_refusal s t d) = public_key s"
  "recent (record_refusal s t d) = recent s" "signed (record_refusal s t d) = signed s"
  by (simp_all add: record_refusal_def)

lemma sign_keeps:
  assumes "sign decode key_sign e s raw now = (s', r, d)"
  shows "policy s' = policy s \<and> public_key s' = public_key s"
  using assms by (auto simp: sign_def Let_def split: if_splits prod.splits dest!: rate_limited_eq)

lemma sign_Some:
  assumes "sign decode key_sign e s raw now = (s', Some signature, d)"
  shows "halted (policy s) e = ''''" "authorised decode (policy s) (public_key s) raw"
    "signature = key_sign raw"
  using assms
  by (auto simp: sign_def Let_def inspect_allowed_iff split: if_splits prod.splits dest!: rate_limited_eq)

lemma sign_recent:
  assumes "sign decode key_sign e s raw (Some t) = (s', r, d)"
  shows "r \<noteq> None \<Longrightarrow> int (length (prune_recent t (recent s))) < rate_limit_per_minute (policy s)
           \<and> recent s' = prune_recent t (recent s) @ [t]"
    and "r = None \<Longrightarrow> recent s' = recent s \<or> recent s' = prune_recent t (recent s)"
  using assms
  by (auto simp: sign_def Let_def split: if_splits prod.splits dest!: rate_limited_eq)

subsection \<open>The service over time\<close>

text \<open>
  A service with the clock it has seen and, as a ghost, the times of all its signatures.  The kill
  file, the environment and the message may differ at every step; the clock does not run backwards.
\<close>

inductive signer_step ::
    "(bytes \<Rightarrow> string + decoded_message) \<Rightarrow> (bytes \<Rightarrow> bytes) \<Rightarrow> signer_service \<times> pyfloat \<times> pyfloat list
       \<Rightarrow> signer_service \<times> pyfloat \<times> pyfloat list \<Rightarrow> bool"
  for decode key_sign where
  sign_granted: "clock \<le> t \<Longrightarrow> sign decode key_sign e s raw (Some t) = (s', Some signature, d)
     \<Longrightarrow> signer_step decode key_sign (s, clock, sigs) (s', t, sigs @ [t])"
| sign_refused: "clock \<le> t \<Longrightarrow> sign decode key_sign e s raw (Some t) = (s', None, d)
     \<Longrightarrow> signer_step decode key_sign (s, clock, sigs) (s', t, sigs)"

inductive_cases signer_stepE: "signer_step decode key_sign (s, clock, sigs) (s', clock', sigs')"

definition spaced :: "nat \<Rightarrow> pyfloat list \<Rightarrow> bool" where
  "spaced n sigs \<longleftrightarrow> (\<forall>i. i + n < length sigs \<longrightarrow> 60 < sigs ! (i + n) - sigs ! i)"

definition rate_inv :: "signer_policy \<Rightarrow> signer_service \<times> pyfloat \<times> pyfloat list \<Rightarrow> bool" where
  "rate_inv p = (\<lambda>(s, clock, sigs). policy s = p
     \<and> (\<exists>old. sigs = old @ recent s \<and> (\<forall>x \<in> set old. 60 < clock - x))
     \<and> spaced (nat (rate_limit_per_minute p)) sigs)"

lemma prune_recent_split:
  obtains dropped where "ts = dropped @ prune_recent now ts" "\<forall>x \<in> set dropped. 60 < now - x"
proof -
  have "60 < now - x" if "60 < fsub now x" for x
    using that fl_le_double [OF is_double_of_int [of 60], of "now - x"] by (force simp: fsub_def)
  then have "\<forall>x \<in> set (takeWhile (\<lambda>t. 60 < fsub now t) ts). 60 < now - x"
    by (auto dest: set_takeWhileD)
  then show ?thesis by (intro that [of "takeWhile (\<lambda>t. 60 < fsub now t) ts"]) (simp_all add: prune_recent_def)
qed

lemma rate_inv_step:
  assumes "signer_step decode key_sign st st'" "rate_inv p st" shows "rate_inv p st'"
proof -
  obtain s clock sigs s' t sigs' where st: "st = (s, clock, sigs)" "st' = (s', t, sigs')" by (metis prod_cases3)
  let ?n = "nat (rate_limit_per_minute p)"
  obtain old where I: "policy s = p" "sigs = old @ recent s" "\<forall>x \<in> set old. 60 < clock - x" "spaced ?n sigs"
    using assms(2) by (auto simp: st rate_inv_def)
  obtain dropped where D: "recent s = dropped @ prune_recent t (recent s)" "\<forall>x \<in> set dropped. 60 < t - x"
    by (rule prune_recent_split)
  from assms(1) [unfolded st] show ?thesis
  proof (cases rule: signer_stepE [consumes 1, case_names 1 2])
    case (1 e raw signature d)
    have old': "\<forall>x \<in> set (old @ dropped). 60 < t - x" using I(3) D(2) 1(2) by fastforce
    note R = sign_recent(1) [OF 1(3), simplified, unfolded I(1)]
    have sigs: "sigs = (old @ dropped) @ prune_recent t (recent s)" using I(2) D(1) by (metis append.assoc)
    have "60 < (sigs @ [t]) ! (i + ?n) - (sigs @ [t]) ! i" if i: "i + ?n < length (sigs @ [t])" for i
    proof (cases "i + ?n < length sigs")
      case True
      then show ?thesis using I(4) by (simp add: spaced_def nth_append)
    next
      case False
      then have "i + ?n = length sigs" using i by simp
      moreover have "length (prune_recent t (recent s)) < ?n" using R by linarith
      ultimately have "i < length (old @ dropped)" using arg_cong [OF sigs, of length] by simp
      then have "sigs ! i \<in> set (old @ dropped)" by (metis sigs nth_append nth_mem)
      then show ?thesis using old' \<open>i + ?n = length sigs\<close> \<open>i < length (old @ dropped)\<close> sigs
        by (metis nth_append nth_append_length length_append trans_less_add1)
    qed
    then have "spaced ?n sigs'" using 1(1) by (simp add: spaced_def)
    moreover have "sigs' = (old @ dropped) @ recent s'" using R sigs 1(1) by simp
    ultimately show ?thesis
      using old' sign_keeps [OF 1(3)] I(1) unfolding st rate_inv_def by blast
  next
    case (2 e raw d)
    have "60 < t - x" if "x \<in> set old" for x using I(3) 2(2) that by fastforce
    then have old': "\<forall>x \<in> set (old @ dropped). 60 < t - x" "\<forall>x \<in> set old. 60 < t - x"
      using D(2) by auto
    have "\<exists>old. sigs = old @ recent s' \<and> (\<forall>x \<in> set old. 60 < t - x)"
      using sign_recent(2) [OF 2(3) refl]
    proof
      assume "recent s' = recent s"
      then show ?thesis using I(2) old'(2) by (intro exI [of _ old]) simp
    next
      assume "recent s' = prune_recent t (recent s)"
      then have "sigs = (old @ dropped) @ recent s'" using I(2) D(1) by (metis append.assoc)
      then show ?thesis using old'(1) by blast
    qed
    then show ?thesis using I(1,4) sign_keeps [OF 2(3)] 2(1) unfolding st rate_inv_def by simp
  qed
qed

lemma rate_inv_reachable:
  assumes "(signer_step decode key_sign)\<^sup>*\<^sup>* (s0, t0, []) st" "recent s0 = []"
  shows "rate_inv (policy s0) st"
  using assms(1)
proof (induction rule: rtranclp_induct)
  case base
  then show ?case using assms(2) by (simp add: rate_inv_def spaced_def)
next
  case (step y z)
  then show ?case by (blast intro: rate_inv_step)
qed


subsection \<open>The server and the client\<close>

lemma answer_frame:
  assumes "\<And>m. length (key_sign m) < MAX_FRAME" "length (public_key s) < MAX_FRAME"
    and "answer decode key_sign e s op payload = (s', r)"
  shows "\<exists>status body. r = Inr (frame_bytes (status, body)) \<and> policy s' = policy s \<and> public_key s' = public_key s
    \<and> (op = OP_SIGN \<and> status = STATUS_OK \<longrightarrow>
         halted (policy s) e = '''' \<and> authorised decode (policy s) (public_key s) payload \<and> body = key_sign payload)"
proof -
  have enc: "encode_response st b = Inr (frame_bytes (st, b))" if "length b < MAX_FRAME" for st b
    using that by (simp add: encode_valid frame_valid_def)
  have short: "length (take 4096 (text_bytes t)) < MAX_FRAME" for t
    by (simp add: MAX_FRAME_def min_def)
  have distinct: "OP_PUBKEY \<noteq> OP_SIGN" "OP_PING \<noteq> OP_SIGN" "STATUS_REFUSED \<noteq> STATUS_OK"
    by (simp_all add: protocol_consts)
  consider "op = OP_PUBKEY" | "op = OP_PING" | "op = OP_SIGN" | "op \<notin> {OP_PUBKEY, OP_PING, OP_SIGN}" by blast
  then show ?thesis
  proof cases
    case 1
    then have "r = encode_response STATUS_OK (text_bytes (public_key s))" "s' = s"
      using assms(3) by (auto simp: answer_def)
    then show ?thesis
      using enc assms(2) 1 distinct
      by (intro exI [of _ STATUS_OK] exI [of _ "text_bytes (public_key s)"]) simp
  next
    case 2
    then have "r = encode_response STATUS_OK []" "s' = s"
      using assms(3) distinct by (auto simp: answer_def protocol_consts)
    then show ?thesis
      using enc [of "[]"] 2 distinct
      by (intro exI [of _ STATUS_OK] exI [of _ "[]"]) (simp add: MAX_FRAME_def)
  next
    case 3
    obtain s'' sig d where S: "sign decode key_sign e s payload None = (s'', sig, d)" by (metis prod_cases3)
    note K = sign_keeps [OF S]
    have A: "answer decode key_sign e s op payload =
        (case sig of Some signature \<Rightarrow> (s'', encode_response STATUS_OK signature)
         | None \<Rightarrow> (s'', encode_response STATUS_REFUSED (take 4096 (text_bytes (decision_reason d)))))"
      using 3 distinct by (simp add: answer_def S OP_PUBKEY_def OP_PING_def OP_SIGN_def split: option.split)
    show ?thesis
    proof (cases sig)
      case None
      then have "r = encode_response STATUS_REFUSED (take 4096 (text_bytes (decision_reason d)))" "s' = s''"
        using assms(3) A by simp_all
      then show ?thesis
        using enc [OF short] K distinct
        by (intro exI [of _ STATUS_REFUSED] exI [of _ "take 4096 (text_bytes (decision_reason d))"]) simp
    next
      case (Some signature)
      note G = sign_Some [OF S [unfolded Some]]
      have "r = encode_response STATUS_OK signature" "s' = s''" using assms(3) A Some by simp_all
      then show ?thesis
        using enc [OF assms(1), of STATUS_OK payload] G K by (intro exI [of _ STATUS_OK] exI [of _ signature]) simp
    qed
  next
    case 4
    then have "r = encode_response STATUS_ERROR (text_bytes (''unknown op '' @ nat_str (unat op)))" "s' = s"
      using assms(3) by (auto simp: answer_def)
    moreover have "unat op < 2 ^ LENGTH(8)" by (rule unsigned_less)
    then have "length (text_bytes (''unknown op '' @ nat_str (unat op))) < MAX_FRAME"
      using length_nat_str [of "unat op"] by (simp add: MAX_FRAME_def)
    ultimately show ?thesis
      using enc 4
      by (intro exI [of _ STATUS_ERROR] exI [of _ "text_bytes (''unknown op '' @ nat_str (unat op))"]) simp
  qed
qed

lemma serve_binary_frames:
  assumes "list_all frame_valid fs" "\<And>m. length (key_sign m) < MAX_FRAME" "length (public_key s) < MAX_FRAME"
  shows "\<exists>resps. length resps = length fs
    \<and> snd (serve_binary decode key_sign env k s (concat (map frame_bytes fs))) = map frame_bytes resps
    \<and> (\<forall>i < length fs. fst (fs ! i) = OP_SIGN \<and> fst (resps ! i) = STATUS_OK \<longrightarrow>
         halted (policy s) (env (k + i)) = ''''
         \<and> authorised decode (policy s) (public_key s) (snd (fs ! i))
         \<and> snd (resps ! i) = key_sign (snd (fs ! i)))"
  using assms(1,3)
proof (induction fs arbitrary: k s)
  case Nil
  have "read_frame [] = Clean_end" by (simp add: read_frame_def read_exactly_def HEADER_SIZE_def)
  then show ?case by (simp add: serve_binary.simps [of _ _ _ _ _ "[]"])
next
  case (Cons f fs)
  let ?rest = "concat (map frame_bytes fs)"
  obtain s' r where A: "answer decode key_sign (env k) s (fst f) (snd f) = (s', r)" by fastforce
  obtain status body where R: "r = Inr (frame_bytes (status, body))" "policy s' = policy s"
    "public_key s' = public_key s"
    "fst f = OP_SIGN \<and> status = STATUS_OK \<longrightarrow> halted (policy s) (env k) = ''''
       \<and> authorised decode (policy s) (public_key s) (snd f) \<and> body = key_sign (snd f)"
    using answer_frame [OF assms(2) Cons.prems(2) A] by blast
  have "list_all frame_valid fs" "length (public_key s') < MAX_FRAME" using Cons.prems R by simp_all
  from Cons.IH [OF this, of "Suc k"] obtain resps where I: "length resps = length fs"
    "snd (serve_binary decode key_sign env (Suc k) s' ?rest) = map frame_bytes resps"
    "\<forall>i < length fs. fst (fs ! i) = OP_SIGN \<and> fst (resps ! i) = STATUS_OK \<longrightarrow>
         halted (policy s) (env (Suc k + i)) = ''''
         \<and> authorised decode (policy s) (public_key s) (snd (fs ! i))
         \<and> snd (resps ! i) = key_sign (snd (fs ! i))"
    unfolding R(2,3) by blast
  have "read_frame (frame_bytes f @ ?rest) = Frame (fst f) (snd f) ?rest"
    using Cons.prems by (simp add: read_frame_frame_bytes)
  then have "snd (serve_binary decode key_sign env k s (concat (map frame_bytes (f # fs))))
      = map frame_bytes ((status, body) # resps)"
    using A R(1) I(2)
    by (subst serve_binary.simps) (simp add: Let_def split_beta)
  moreover have "\<forall>i < length (f # fs). fst ((f # fs) ! i) = OP_SIGN \<and> fst (((status, body) # resps) ! i) = STATUS_OK \<longrightarrow>
         halted (policy s) (env (k + i)) = ''''
         \<and> authorised decode (policy s) (public_key s) (snd ((f # fs) ! i))
         \<and> snd (((status, body) # resps) ! i) = key_sign (snd ((f # fs) ! i))"
    using R(4) I(3) by (auto simp: nth_Cons split: nat.split)
  ultimately show ?case using I(1) by (intro exI [of _ "(status, body) # resps"]) simp
qed

lemma client_frame_Got:
  assumes "client_frame connect io op payload c = (c', Inr (status, body))"
  shows "io 0 = Io_frame status body \<or> io 1 = Io_frame status body
      \<and> ((\<not> conn_open c \<and> connect 0 \<noteq> None) \<or> io 0 = Io_closed \<or> (\<exists>exc. io 0 = Io_connection exc))"
  using assms
  by (auto simp: client_frame_def attempt_def Let_def
      split: prod.splits attempt_result.splits if_splits sum.splits io_result.splits)


lemma client_frame_signed:
  assumes "client_frame connect io op payload c = (c', r)"
  shows "client_signed c' = client_signed c"
proof -
  have att: "client_signed (fst (attempt n conn i op payload c)) = client_signed c" for n conn i c
    by (auto simp: attempt_def Let_def split: sum.split io_result.split)
  have "client_signed (drop_connection c) = client_signed c" for c by (simp add: drop_connection_def)
  then show ?thesis
    using assms att [of 0 "connect 0" "io 0" c] att [of 1 "connect 1" "io 1" "drop_connection (fst (attempt 0 (connect 0) (io 0) op payload c))"]
    by (auto simp: client_frame_def split: prod.splits attempt_result.splits)
qed

subsection \<open>Properties\<close>

text \<open>
  Over any history of requests, with a clock that does not run backwards, the signature that
  comes \<open>n\<close> signatures after another comes more than sixty seconds after it, where \<open>n\<close> is the
  policy's limit: no closed minute ever holds more than the limit.
\<close>

lemma signatures_rate_limited:
  assumes "(signer_step decode key_sign)\<^sup>*\<^sup>* (s0, t0, []) (s, t, sigs)" "recent s0 = []"
    and "i + nat (rate_limit_per_minute (policy s0)) < length sigs"
  shows "60 < sigs ! (i + nat (rate_limit_per_minute (policy s0))) - sigs ! i"
  using rate_inv_reachable [OF assms(1,2)] assms(3) by (auto simp: rate_inv_def spaced_def)

definition sample_message :: decoded_message where
  "sample_message =
     \<lparr>account_keys = [''payer'', SYSTEM_PROGRAM],
      message_instructions = [\<lparr>program_id_index = 1, instruction_data = le_bytes 4 2 @ le_bytes 8 1000\<rparr>]\<rparr>"

definition sample_decode :: "bytes \<Rightarrow> string + decoded_message" where
  "sample_decode raw = (if raw = [1, 2, 3] then Inr sample_message else Inl ''ValueError'')"

definition sample_service :: "signer_service" where
  "sample_service =
     \<lparr>policy = default_policy\<lparr>rate_limit_per_minute := 1\<rparr>, public_key = ''payer'', recent = [], signed = 0,
      refused = 0, refusals = []\<rparr>"

definition sample_env :: sign_env where
  "sample_env = \<lparr>kill_present = False, live_ack = ''yes-i-understand'', wall_clock = 0\<rparr>"

definition sample_sign :: "bytes \<Rightarrow> bytes" where
  "sample_sign m = replicate 64 7"

lemma sample_authorised: "authorised sample_decode default_policy ''payer'' [0x80, 1, 2, 3]"
  by (simp add: authorised_def sample_decode_def strip_version_def sample_message_def default_policy_def
      DEFAULT_ALLOWED_PROGRAMS_def SYSTEM_PROGRAM_def system_transfer_lamports_def slice_def le_val_le_bytes)

lemma authorised_rate [simp]: "authorised decode (p\<lparr>rate_limit_per_minute := n\<rparr>) = authorised decode p"
  by (simp add: authorised_def fun_eq_iff split: sum.split)

lemma sample_not_halted: "halted (default_policy\<lparr>rate_limit_per_minute := 1\<rparr>) sample_env = ''''"
  by (simp add: halted_def default_policy_def sample_env_def) code_simp

lemma sample_granted:
  assumes "prune_recent t (recent s) = []" "policy s = policy sample_service" "public_key s = ''payer''"
  shows "\<exists>d. sign sample_decode sample_sign sample_env s [0x80, 1, 2, 3] (Some t)
     = (s\<lparr>recent := [t], signed := signed s + 1\<rparr>, Some (replicate 64 7), d)"
proof -
  have "authorised sample_decode (policy s) ''payer'' [0x80, 1, 2, 3]"
    using sample_authorised by (simp add: authorised_rate assms(2) sample_service_def)
  then show ?thesis
    using assms sample_not_halted
    by (simp add: sign_def Let_def rate_limited_def inspect_allowed_iff sample_service_def sample_sign_def)
qed

text \<open>
  C10: a served connection answers every request with exactly one well-formed frame in order, and
  every signature it ever writes is over the very bytes of a request the policy authorises: decoded,
  paid by this key, only listed programs, System transfers within the ceiling, and not halted.
\<close>

theorem served_signatures_authorised:
  assumes "list_all frame_valid fs" "\<And>m. length (key_sign m) < MAX_FRAME" "length (public_key s) < MAX_FRAME"
  shows "\<exists>resps. length resps = length fs
    \<and> snd (serve_binary decode key_sign env k s (concat (map frame_bytes fs))) = map frame_bytes resps
    \<and> (\<forall>i < length fs. fst (fs ! i) = OP_SIGN \<and> fst (resps ! i) = STATUS_OK \<longrightarrow>
         halted (policy s) (env (k + i)) = ''''
         \<and> authorised decode (policy s) (public_key s) (snd (fs ! i))
         \<and> snd (resps ! i) = key_sign (snd (fs ! i)))"
  using assms by (rule serve_binary_frames)

theorem served_signatures_authorised_witness:
  "\<exists>resps. length resps = 2
    \<and> snd (serve_binary sample_decode sample_sign (\<lambda>_. sample_env) 0 sample_service
        (concat (map frame_bytes [(OP_SIGN, [0x80, 1, 2, 3]), (OP_SIGN, [9])]))) = map frame_bytes resps"
proof -
  have "list_all frame_valid [(OP_SIGN, [0x80, 1, 2, 3]), (OP_SIGN, [9])]"
    by (simp add: frame_valid_def MAX_FRAME_def)
  moreover have "length (sample_sign m) < MAX_FRAME" for m by (simp add: sample_sign_def MAX_FRAME_def)
  moreover have "length (public_key sample_service) < MAX_FRAME" by (simp add: sample_service_def MAX_FRAME_def)
  ultimately obtain resps where "length resps = length [(OP_SIGN, [0x80, 1, 2, 3]), (OP_SIGN, [9 :: u8])]"
    "snd (serve_binary sample_decode sample_sign (\<lambda>_. sample_env) 0 sample_service
        (concat (map frame_bytes [(OP_SIGN, [0x80, 1, 2, 3]), (OP_SIGN, [9])]))) = map frame_bytes resps"
    using served_signatures_authorised by blast
  then show ?thesis by (intro exI [of _ resps]) (simp only: list.size, simp)
qed

text \<open>
  C34: what the client hands on as a signature is 64 bytes the signer sent under \<open>STATUS_OK\<close>; the
  second attempt is only ever used when the first met a dead connection, so a refusal is final.
\<close>

theorem client_signature_sound:
  assumes "sign_message utf8 connect io message c = (c', Inr signature)"
  shows "length signature = 64 \<and> client_signed c' = client_signed c + 1
    \<and> (io 0 = Io_frame STATUS_OK signature \<or> io 1 = Io_frame STATUS_OK signature
        \<and> ((\<not> conn_open c \<and> connect 0 \<noteq> None) \<or> io 0 = Io_closed \<or> (\<exists>exc. io 0 = Io_connection exc)))"
proof -
  obtain c1 status where F: "client_frame connect io OP_SIGN message c = (c1, Inr (status, signature))"
    "status = STATUS_OK" "length signature = 64" "c' = c1\<lparr>client_signed := client_signed c1 + 1\<rparr>"
    using assms by (auto simp: sign_message_def Let_def split: prod.splits sum.splits if_splits)
  then show ?thesis
    using client_frame_Got [OF F(1)] client_frame_signed [OF F(1)] by simp
qed

definition idle_client :: signer_client where
  "idle_client = \<lparr>conn_open = False, client_public_key = None, client_signed = 0, client_refusals = 0,
     last_refusal = '''', reconnects = 0, client_frames = 0\<rparr>"

theorem client_signature_sound_witness:
  "client_signed (fst (sign_message bytes_text (\<lambda>n. None)
      (\<lambda>n. if n = 0 then Io_closed else Io_frame STATUS_OK (replicate 64 7)) [1] idle_client)) = 1"
proof -
  let ?io = "\<lambda>n. if n = (0 :: nat) then Io_closed else Io_frame STATUS_OK (replicate 64 7)"
  have "\<exists>c'. sign_message bytes_text (\<lambda>n. None) ?io [1] idle_client = (c', Inr (replicate 64 7))"
    by (simp add: sign_message_def client_frame_def attempt_def idle_client_def drop_connection_def
        encode_request_def MAX_FRAME_def Let_def)
  then obtain c' where "sign_message bytes_text (\<lambda>n. None) ?io [1] idle_client = (c', Inr (replicate 64 7))" ..
  then show ?thesis using client_signature_sound by (fastforce simp: idle_client_def)
qed

text \<open>
  What the ceiling does not see: a System \<open>TransferWithSeed\<close> (discriminant 11), or a
  \<open>CreateAccount\<close> (0), of any size counts as no lamports at all.
\<close>

lemma other_system_transfers_uncounted:
  assumes "d = 11 \<or> d = 0"
  shows "system_transfer_lamports SYSTEM_PROGRAM (le_bytes 4 d @ rest) = 0"
proof -
  have "le_val (slice 0 4 (le_bytes 4 d @ rest)) = d"
    using assms by (auto simp: byte_simps le_val_le_bytes)
  then show ?thesis using assms by (auto simp: system_transfer_lamports_def)
qed

end
