(* ===== verification/TxBuilder.thy ===== *)
theory TxBuilder
  imports Blockhash TxKernel Signer
begin

text \<open>
  \<open>SolanaTransactionBuilder\<close> of \<open>execution/jupiter_jito.py\<close>: the composition of the blockhash cache, the
  transaction kernel and a signer.  The signer is an interface (a locale); what \<open>solders\<close> computes is an
  argument, \<open>None\<close> when it raises.
\<close>

subsection \<open>The signer a builder holds\<close>

text \<open>A signer answers with its new state and a 64-byte signature, or an exception.\<close>

locale message_signer =
  fixes sign_with :: "'s \<Rightarrow> bytes \<Rightarrow> 's \<times> (signer_error + bytes)"
  assumes signature_length: "sign_with s m = (s', Inr signature) \<Longrightarrow> length signature = 64"

subsection \<open>Base64\<close>

text \<open>\<open>base64.b64encode\<close>: the six-bit values of the bytes and the number of padding characters.\<close>

fun b64_sextets :: "bytes \<Rightarrow> nat list \<times> nat" where
  "b64_sextets [] = ([], 0)"
| "b64_sextets [a] = (let n = unat a * 65536 in ([n div 262144, n div 4096 mod 64], 2))"
| "b64_sextets [a, b] = (let n = unat a * 65536 + unat b * 256 in ([n div 262144, n div 4096 mod 64, n div 64 mod 64], 1))"
| "b64_sextets (a # b # c # bs) =
     (let n = unat a * 65536 + unat b * 256 + unat c; (vs, pad) = b64_sextets bs
      in ([n div 262144, n div 4096 mod 64, n div 64 mod 64, n mod 64] @ vs, pad))"

definition b64encode :: "bytes \<Rightarrow> string" where
  "b64encode bs = (let (vs, pad) = b64_sextets bs in map (\<lambda>v. b64_alphabet ! v) vs @ replicate pad (CHR ''=''))"

lemma position_nth: "distinct xs \<Longrightarrow> i < length xs \<Longrightarrow> position (xs ! i) xs = Some i"
proof (induction xs arbitrary: i)
  case (Cons x xs)
  then show ?case by (cases i) auto
qed simp

lemma alphabet_facts: "distinct b64_alphabet" "length b64_alphabet = 64" "CHR ''='' \<notin> set b64_alphabet"
  by (simp_all add: b64_alphabet_def)

lemma b64_values_nth: "list_all (\<lambda>v. v < 64) vs \<Longrightarrow> b64_values (map (\<lambda>v. b64_alphabet ! v) vs) = Some vs"
  by (induction vs) (simp_all add: position_nth alphabet_facts)

lemma byte_lt: "unat (a :: u8) < 256"
  using unsigned_less [of a, where ?'a = nat] by simp

lemma sextet_digits: "((n div 262144 * 64 + n div 4096 mod 64) * 64 + n div 64 mod 64) * 64 + n mod (64 :: nat) = n"
proof -
  have d: "n div 4096 = n div 64 div 64" "n div 262144 = n div 4096 div 64" by (simp_all flip: div_mult2_eq)
  have "n div 262144 * 64 + n div 4096 mod 64 = n div 4096" unfolding d(2) by (rule div_mult_mod_eq)
  moreover have "n div 4096 * 64 + n div 64 mod 64 = n div 64" unfolding d(1) by (rule div_mult_mod_eq)
  ultimately show ?thesis by (simp only: div_mult_mod_eq)
qed

lemma byte_digits:
  assumes "y < 256" "z < (256 :: nat)"
  shows "(x * 65536 + y * 256 + z) div 65536 = x" "(x * 65536 + y * 256 + z) div 256 mod 256 = y"
    "(x * 65536 + y * 256 + z) mod 256 = z"
proof -
  have n: "x * 65536 + y * 256 + z = z + 256 * (y + 256 * x)" by simp
  have q: "(x * 65536 + y * 256 + z) div 256 = y + 256 * x" unfolding n using assms(2) by simp
  then show "(x * 65536 + y * 256 + z) div 256 mod 256 = y" using assms(1) by simp
  have "(x * 65536 + y * 256 + z) div 65536 = (x * 65536 + y * 256 + z) div 256 div 256" by (simp flip: div_mult2_eq)
  then show "(x * 65536 + y * 256 + z) div 65536 = x" unfolding q using assms(1) by simp
  show "(x * 65536 + y * 256 + z) mod 256 = z" unfolding n mod_mult_self2 using assms(2) by simp
qed

lemma quad_bytes:
  assumes "n = unat a * 65536 + unat b * 256 + unat (c :: u8)"
  shows "b64_quad (n div 262144) (n div 4096 mod 64) (n div 64 mod 64) (n mod 64) = [a, b, c]"
  unfolding b64_quad_def Let_def sextet_digits assms byte_digits [OF byte_lt byte_lt] by simp

lemma b64_sextets_small: "list_all (\<lambda>v. v < 64) (fst (b64_sextets bs))"
proof (induction bs rule: b64_sextets.induct)
  case (2 a)
  then show ?case using byte_lt [of a] by (simp add: Let_def less_mult_imp_div_less)
next
  case (3 a b)
  then show ?case using byte_lt [of a] byte_lt [of b] by (simp add: Let_def less_mult_imp_div_less)
next
  case (4 a b c bs)
  then show ?case using byte_lt [of a] byte_lt [of b] byte_lt [of c]
    by (cases "b64_sextets bs") (simp add: Let_def less_mult_imp_div_less)
qed simp

lemma b64_groups_sextets: "b64_groups (fst (b64_sextets bs)) (snd (b64_sextets bs)) = Some bs"
proof (induction bs rule: b64_sextets.induct)
  case (2 a)
  have n: "unat a * 65536 = 64 * (64 * (unat a * 16))" by simp
  have "(unat a * 65536) div 64 mod 64 = 0" "(unat a * 65536) mod 64 = 0" unfolding n by simp_all
  then show ?case using quad_bytes [of "unat a * 65536" a 0 0] by (simp add: Let_def)
next
  case (3 a b)
  have n: "unat a * 65536 + unat b * 256 = 64 * (unat a * 1024 + unat b * 4)" by simp
  have "(unat a * 65536 + unat b * 256) mod 64 = 0" unfolding n by simp
  then show ?case using quad_bytes [of "unat a * 65536 + unat b * 256" a b 0] by (simp add: Let_def)
next
  case (4 a b c bs)
  then show ?case using quad_bytes [of _ a b c] by (cases "b64_sextets bs") (simp add: Let_def)
qed simp

lemma b64decode_encode: "b64decode (b64encode bs) = Some bs"
proof -
  obtain vs pad where s: "b64_sextets bs = (vs, pad)" by fastforce
  have small: "list_all (\<lambda>v. v < 64) vs" using b64_sextets_small [of bs] s by simp
  have "\<forall>c \<in> set (map (\<lambda>v. b64_alphabet ! v) vs). c \<noteq> CHR ''=''"
    using small alphabet_facts nth_mem by (fastforce simp: list_all_iff)
  then have "takeWhile (\<lambda>c. c \<noteq> CHR ''='') (b64encode bs) = map (\<lambda>v. b64_alphabet ! v) vs"
    "dropWhile (\<lambda>c. c \<noteq> CHR ''='') (b64encode bs) = replicate pad (CHR ''='')"
    by (simp_all add: b64encode_def s takeWhile_append dropWhile_append takeWhile_eq_Nil_iff dropWhile_eq_self_iff)
  then show ?thesis
    using b64_values_nth [OF small] b64_groups_sextets [of bs] by (simp add: b64decode_def Let_def s)
qed

subsection \<open>The builder\<close>

text \<open>
  What \<open>solders\<close> gives the builder: addresses and hashes as bytes, the two compute budget instructions,
  the bytes of a compiled version 0 message, and the bytes of a transaction made of a message (without
  its version byte) and one signature.
\<close>

record sol_library =
  address_bytes :: "string \<Rightarrow> bytes option"
  hash_bytes :: "string \<Rightarrow> bytes option"
  unit_limit :: "int \<Rightarrow> sol_instruction option"
  unit_price :: "int \<Rightarrow> sol_instruction option"
  compile_v0 :: "bytes \<Rightarrow> sol_instruction list \<Rightarrow> bytes \<Rightarrow> bytes option"
  populate :: "bytes \<Rightarrow> bytes \<Rightarrow> bytes option"
  decode_error :: "string \<Rightarrow> string"

record tx_builder =
  builder_key :: string
  hash_cache :: blockhash_cache
  kernel :: tx_kernel
  blockhash_fallbacks :: nat
  last_blockhash_status :: string
  last_blockhash_age_slots :: "int option"

definition new_builder :: "string \<Rightarrow> blockhash_cache \<Rightarrow> tx_kernel \<Rightarrow> tx_builder" where
  "new_builder key cache k =
     \<lparr>builder_key = key, hash_cache = cache, kernel = k, blockhash_fallbacks = 0, last_blockhash_status = '''',
      last_blockhash_age_slots = None\<rparr>"

datatype build_error =
    No_blockhash
  | Rpc_failed string
  | Library_error
  | Unsigned signer_error

text \<open>What the world answers during one build: the RPC reply, the clock and the audit draw.\<close>

record build_world =
  rpc_answer :: rpc_reply
  build_clock :: pyfloat
  audit_draw :: pyfloat

definition of_library :: "'a option \<Rightarrow> build_error + 'a" where
  "of_library r = (case r of None \<Rightarrow> Inl Library_error | Some a \<Rightarrow> Inr a)"

text \<open>A state of the cache has no \<open>age_slots\<close>, so the attribute read with a default is always the default.\<close>

definition recent_blockhash :: "sol_library \<Rightarrow> tx_builder \<Rightarrow> build_world \<Rightarrow> tx_builder \<times> (build_error + bytes)" where
  "recent_blockhash lib b w =
     (let (cache, state) = current (hash_cache b) (build_clock w);
          b = b\<lparr>hash_cache := cache, last_blockhash_status := bh_status state\<rparr>
      in if bh_status state = ''OK''
         then (b\<lparr>last_blockhash_age_slots := None\<rparr>, of_library (hash_bytes lib (bh_hash state)))
         else
           let b = b\<lparr>blockhash_fallbacks := blockhash_fallbacks b + 1\<rparr>
           in case rpc_answer w of
                Rpc_raised exc \<Rightarrow> (b, Inl (Rpc_failed exc))
              | Reply h _ \<Rightarrow> (b, if h = '''' then Inl No_blockhash else of_library (hash_bytes lib h)))"

definition program_instructions :: "sol_library \<Rightarrow> sol_instruction list \<Rightarrow> int \<Rightarrow> int \<Rightarrow> build_error + sol_instruction list" where
  "program_instructions lib instructions limit price =
     rbind (if limit > 0 then rbind (of_library (unit_limit lib limit)) (\<lambda>i. Inr [i]) else Inr []) (\<lambda>limits.
       rbind (if price > 0 then rbind (of_library (unit_price lib price)) (\<lambda>i. Inr [i]) else Inr []) (\<lambda>prices.
         Inr (limits @ prices @ instructions)))"

definition assemble_with_solders :: "sol_library \<Rightarrow> bytes \<Rightarrow> bytes \<Rightarrow> string option" where
  "assemble_with_solders lib message signature =
     map_option b64encode (populate lib (if take 1 message = [0x80] then drop 1 message else message) signature)"

definition compile_signed ::
    "sol_library \<Rightarrow> ('s \<Rightarrow> bytes \<Rightarrow> 's \<times> (signer_error + bytes)) \<Rightarrow> tx_builder \<Rightarrow> 's \<Rightarrow> build_world \<Rightarrow> bytes \<Rightarrow> bytes
       \<Rightarrow> sol_instruction list \<Rightarrow> tx_builder \<times> 's \<times> (build_error + string)" where
  "compile_signed lib sign_with b s w blockhash payer instructions =
     (case compile_message (kernel b) payer instructions blockhash (compile_v0 lib payer instructions blockhash) (audit_draw w) of
        (k, None) \<Rightarrow> (b\<lparr>kernel := k\<rparr>, s, Inl Library_error)
      | (k, Some message) \<Rightarrow>
          (case sign_with s message of
             (s, Inl e) \<Rightarrow> (b\<lparr>kernel := k\<rparr>, s, Inl (Unsigned e))
           | (s, Inr signature) \<Rightarrow>
               (case assemble (decode_error lib) k message [signature] (assemble_with_solders lib message signature) of
                  (k, encoded) \<Rightarrow> (b\<lparr>kernel := k\<rparr>, s, of_library encoded))))"

definition build_and_sign ::
    "sol_library \<Rightarrow> ('s \<Rightarrow> bytes \<Rightarrow> 's \<times> (signer_error + bytes)) \<Rightarrow> tx_builder \<Rightarrow> 's \<Rightarrow> build_world
       \<Rightarrow> sol_instruction list \<Rightarrow> int \<Rightarrow> int \<Rightarrow> tx_builder \<times> 's \<times> (build_error + string)" where
  "build_and_sign lib sign_with b s w instructions compute_unit_limit compute_unit_price =
     (case recent_blockhash lib b w of
        (b, Inl e) \<Rightarrow> (b, s, Inl e)
      | (b, Inr blockhash) \<Rightarrow>
          (case rbind (of_library (address_bytes lib (builder_key b))) (\<lambda>payer.
                  rbind (program_instructions lib instructions compute_unit_limit compute_unit_price) (\<lambda>is. Inr (payer, is))) of
             Inl e \<Rightarrow> (b, s, Inl e)
           | Inr (payer, is) \<Rightarrow> compile_signed lib sign_with b s w blockhash payer is))"

text \<open>Signing bytes composed elsewhere: the parsed transaction, what \<open>solders\<close> makes of it, and the index check.\<close>

record foreign_tx =
  foreign_message :: bytes
  foreign_keys :: "string list"
  required_signatures :: nat
  foreign_signatures :: "bytes list"

datatype foreign_error = Unparsed | Not_a_signer | Malformed_signatures | Foreign_unsigned signer_error | Verification_failed

text \<open>\<open>list.index\<close> is the first position.\<close>

definition sign_versioned_transaction ::
    "(bytes \<Rightarrow> foreign_tx option) \<Rightarrow> (bytes \<Rightarrow> bytes list \<Rightarrow> bytes) \<Rightarrow> (bytes \<Rightarrow> bytes list \<Rightarrow> nat \<Rightarrow> bool)
       \<Rightarrow> ('s \<Rightarrow> bytes \<Rightarrow> 's \<times> (signer_error + bytes)) \<Rightarrow> string \<Rightarrow> 's \<Rightarrow> bytes \<Rightarrow> 's \<times> (foreign_error + string)" where
  "sign_versioned_transaction parse serialise verify sign_with key s raw =
     (case parse raw of
        None \<Rightarrow> (s, Inl Unparsed)
      | Some tx \<Rightarrow>
          (case position key (take (required_signatures tx) (foreign_keys tx)) of
             None \<Rightarrow> (s, Inl Not_a_signer)
           | Some i \<Rightarrow>
               if length (foreign_signatures tx) \<noteq> required_signatures tx then (s, Inl Malformed_signatures)
               else
                 (case sign_with s (foreign_message tx) of
                    (s, Inl e) \<Rightarrow> (s, Inl (Foreign_unsigned e))
                  | (s, Inr signature) \<Rightarrow>
                      let signatures = (foreign_signatures tx)[i := signature]
                      in if \<not> verify (foreign_message tx) signatures i then (s, Inl Verification_failed)
                         else (s, Inr (b64encode (serialise (foreign_message tx) signatures))))))"

subsection \<open>What a build returns\<close>

text \<open>What the documentation of \<open>solders\<close> says of the two operations the result depends on.\<close>

definition lawful :: "sol_library \<Rightarrow> bool" where
  "lawful lib \<longleftrightarrow>
     (\<forall>payer is blockhash m. compile_v0 lib payer is blockhash = Some m \<longrightarrow> take 1 m = [0x80])
     \<and> (\<forall>body signature raw. populate lib body signature = Some raw \<longrightarrow> raw = 1 # signature @ 0x80 # body)"

text \<open>A hash the builder may use: vouched for by the cache's own rules, or the answer of the node.\<close>

definition vouched :: "blockhash_cache \<Rightarrow> build_world \<Rightarrow> string \<Rightarrow> bool" where
  "vouched c w h \<longleftrightarrow> h \<noteq> '''' \<and>
     (h = cached_hash c \<and> cache_age c (build_clock w) \<le> max_age_s c
        \<and> min_slots_remaining c \<le> remaining_slots (cache_age c (build_clock w))
      \<or> (\<exists>n. rpc_answer w = Reply h n))"

lemma of_library_Inr [simp]: "of_library r = Inr a \<longleftrightarrow> r = Some a"
  by (simp add: of_library_def split: option.split)

lemma recent_blockhash_vouched:
  assumes "recent_blockhash lib b w = (b', Inr blockhash)"
  shows "builder_key b' = builder_key b \<and> kernel b' = kernel b
    \<and> (\<exists>h. hash_bytes lib h = Some blockhash \<and> vouched (hash_cache b) w h)"
proof -
  obtain c st where cur: "current (hash_cache b) (build_clock w) = (c, st)" by fastforce
  show ?thesis
  proof (cases "bh_status st = ''OK''")
    case True
    have "bh_status (snd (current (hash_cache b) (build_clock w))) = ''OK''" using True cur by simp
    from current_ok [OF this] show ?thesis
      using assms cur True by (auto simp: recent_blockhash_def Let_def vouched_def)
  next
    case False
    then show ?thesis
      using assms cur by (auto simp: recent_blockhash_def Let_def vouched_def split: rpc_reply.splits if_splits)
  qed
qed

lemma build_keeps_key: "builder_key (fst (build_and_sign lib sign_with b s w instructions limit price)) = builder_key b"
proof -
  have r: "builder_key (fst (recent_blockhash lib b w)) = builder_key b"
    by (simp add: recent_blockhash_def Let_def split: prod.split rpc_reply.split)
  have "builder_key (fst (compile_signed lib sign_with b1 s w blockhash payer is)) = builder_key b1" for b1 blockhash payer "is"
    by (simp add: compile_signed_def split: prod.split option.split sum.split)
  moreover obtain b1 x where "recent_blockhash lib b w = (b1, x)" by fastforce
  ultimately show ?thesis using r by (cases x) (simp_all add: build_and_sign_def split: prod.split sum.split)
qed

lemma program_instructions_length:
  "program_instructions lib instructions limit price = Inr is
     \<Longrightarrow> \<exists>budget. is = budget @ instructions \<and> length budget = (if limit > 0 then 1 else 0) + (if price > 0 then 1 else 0)"
  by (auto simp: program_instructions_def rbind_Inr_iff split: if_splits)

text \<open>An authoritative assembly leaves the kernel as it is.\<close>

lemma assemble_authoritative:
  assumes "assemble err k m sigs python = (k', Some encoded)" "python \<noteq> Some encoded"
  shows "rust_authoritative k'"
  using assms
  by (auto simp: assemble_def Let_def split: option.splits if_splits)

lemma assembled_by_solders:
  assumes "lawful lib" "take 1 m = [0x80]" "assemble_with_solders lib m signature = Some encoded"
  shows "b64decode encoded = Some (1 # signature @ m)"
proof -
  obtain body where m: "m = 0x80 # body" using assms(2) by (cases m) auto
  obtain raw where "populate lib body signature = Some raw" "encoded = b64encode raw"
    using assms(3) by (auto simp: assemble_with_solders_def m)
  then show ?thesis using assms(1) by (simp add: lawful_def b64decode_encode m)
qed

context message_signer
begin

lemma compile_signed_exact:
  assumes "lawful lib" "compile_signed lib sign_with b s w blockhash payer is = (b', s', Inr tx)"
  shows "\<exists>m signature signatures. sign_with s m = (s', Inr signature)
    \<and> b64decode tx = Some (1 # signatures @ m) \<and> length signatures = 64
    \<and> (signatures = signature \<or> rust_authoritative (kernel b'))
    \<and> (compile_v0 lib payer is blockhash = Some m \<or> v0_message m payer blockhash (length is))"
proof -
  obtain k m signature k' where
    c: "compile_message (kernel b) payer is blockhash (compile_v0 lib payer is blockhash) (audit_draw w) = (k, Some m)"
    and sg: "sign_with s m = (s', Inr signature)"
    and a: "assemble (decode_error lib) k m [signature] (assemble_with_solders lib m signature) = (k', Some tx)"
    and b': "b' = b\<lparr>kernel := k'\<rparr>"
    using assms(2) by (auto simp: compile_signed_def split: prod.splits option.splits sum.splits)
  have m: "compile_v0 lib payer is blockhash = Some m \<or> v0_message m payer blockhash (length is)"
    using compile_leaves [OF c] by blast
  then have v: "take 1 m = [0x80]" using assms(1) by (auto simp: lawful_def v0_message_def)
  have "\<exists>signatures. b64decode tx = Some (1 # signatures @ m) \<and> length signatures = 64
      \<and> (signatures = signature \<or> rust_authoritative k')"
  proof (cases "assemble_with_solders lib m signature = Some tx")
    case True
    then show ?thesis using assembled_by_solders [OF assms(1) v True] signature_length [OF sg] by blast
  next
    case False
    then show ?thesis using assemble_leaves [OF a] assemble_authoritative [OF a] by auto
  qed
  then show ?thesis using sg m b' by auto
qed

lemma build_exact:
  assumes "lawful lib" "build_and_sign lib sign_with b s w instructions limit price = (b', s', Inr tx)"
  shows "\<exists>payer h blockhash budget m signature signatures.
    address_bytes lib (builder_key b) = Some payer
    \<and> hash_bytes lib h = Some blockhash \<and> vouched (hash_cache b) w h
    \<and> length budget = (if limit > 0 then 1 else 0) + (if price > 0 then 1 else 0)
    \<and> sign_with s m = (s', Inr signature)
    \<and> b64decode tx = Some (1 # signatures @ m) \<and> length signatures = 64
    \<and> (signatures = signature \<or> rust_authoritative (kernel b'))
    \<and> (compile_v0 lib payer (budget @ instructions) blockhash = Some m
        \<or> v0_message m payer blockhash (length (budget @ instructions)))"
proof -
  obtain b1 blockhash payer "is" where
    r: "recent_blockhash lib b w = (b1, Inr blockhash)" and
    p: "address_bytes lib (builder_key b1) = Some payer" "program_instructions lib instructions limit price = Inr is" and
    c: "compile_signed lib sign_with b1 s w blockhash payer is = (b', s', Inr tx)"
    using assms(2) by (auto simp: build_and_sign_def rbind_Inr_iff split: prod.splits sum.splits)
  show ?thesis
    using recent_blockhash_vouched [OF r] p(1) program_instructions_length [OF p(2)] compile_signed_exact [OF assms(1) c]
    by metis
qed

end

text \<open>The client of the isolated signer is such a signer.\<close>

interpretation isolated: message_signer "\<lambda>c m. sign_message utf8 connect io m c" for utf8 connect io
proof
  show "length signature = 64" if "sign_message utf8 connect io m c = (c', Inr signature)" for c m c' signature
    using that by (auto simp: sign_message_def Let_def split: prod.splits sum.splits if_splits)
qed

text \<open>
  A transaction composed elsewhere keeps its message and every other signature; the wallet signs in the
  first place its key has among the required ones, and what comes back verified there.
\<close>

lemma foreign_signed_in_place:
  assumes "sign_versioned_transaction parse serialise verify sign_with key s raw = (s', Inr encoded)"
  shows "\<exists>tx i signature signatures. parse raw = Some tx \<and> i < required_signatures tx
    \<and> foreign_keys tx ! i = key \<and> length (foreign_signatures tx) = required_signatures tx
    \<and> sign_with s (foreign_message tx) = (s', Inr signature)
    \<and> signatures = (foreign_signatures tx)[i := signature] \<and> verify (foreign_message tx) signatures i
    \<and> b64decode encoded = Some (serialise (foreign_message tx) signatures)"
proof -
  have pos: "position x xs = Some i \<Longrightarrow> i < length xs \<and> xs ! i = x" for x :: string and xs i
    by (induction x xs arbitrary: i rule: position.induct) (auto split: if_splits)
  obtain tx i signature where
    s: "parse raw = Some tx" "position key (take (required_signatures tx) (foreign_keys tx)) = Some i"
      "length (foreign_signatures tx) = required_signatures tx" "sign_with s (foreign_message tx) = (s', Inr signature)"
      "verify (foreign_message tx) ((foreign_signatures tx)[i := signature]) i"
      "encoded = b64encode (serialise (foreign_message tx) ((foreign_signatures tx)[i := signature]))"
    using assms
    by (auto simp: sign_versioned_transaction_def Let_def split: option.splits if_splits prod.splits sum.splits)
  then show ?thesis using pos [OF s(2)] b64decode_encode by fastforce
qed

subsection \<open>Properties\<close>

text \<open>
  C4: what the builder returns is what was signed: the transaction is one signature count, 64 signature
  bytes and exactly the message the isolated signer was given; the signature is the signer's unless an
  authoritative kernel assembled it; the message is the solders one or has the v0 layout for this payer,
  this blockhash and this many instructions with the budget ones first; and the blockhash was vouched
  for by the cache's limits or came from the node.
\<close>

theorem signed_transaction_exact:
  assumes "lawful lib"
    and "build_and_sign lib (\<lambda>c m. sign_message utf8 connect io m c) b c w instructions limit price = (b', c', Inr tx)"
  shows "\<exists>payer h blockhash budget m signature signatures.
    address_bytes lib (builder_key b) = Some payer
    \<and> hash_bytes lib h = Some blockhash \<and> vouched (hash_cache b) w h
    \<and> length budget = (if limit > 0 then 1 else 0) + (if price > 0 then 1 else 0)
    \<and> sign_message utf8 connect io m c = (c', Inr signature)
    \<and> b64decode tx = Some (1 # signatures @ m) \<and> length signatures = 64
    \<and> (signatures = signature \<or> rust_authoritative (kernel b'))
    \<and> (compile_v0 lib payer (budget @ instructions) blockhash = Some m
        \<or> v0_message m payer blockhash (length (budget @ instructions)))"
  using assms by (rule isolated.build_exact)

definition sample_library :: sol_library where
  "sample_library =
     \<lparr>address_bytes = (\<lambda>_. Some (replicate 32 1)), hash_bytes = (\<lambda>_. Some (replicate 32 2)), unit_limit = (\<lambda>_. None),
      unit_price = (\<lambda>_. None), compile_v0 = (\<lambda>payer is blockhash. Some (0x80 # payer @ blockhash)),
      populate = (\<lambda>body signature. Some (1 # signature @ 0x80 # body)), decode_error = (\<lambda>_. '''')\<rparr>"

definition sample_builder :: tx_builder where
  "sample_builder = new_builder ''K'' (new_cache 2 20 30) (new_kernel ''off'' 200 0 (Inl ''absent''))"

definition sample_world :: build_world where
  "sample_world = \<lparr>rpc_answer = Reply ''H'' 9, build_clock = 10, audit_draw = 1\<rparr>"

theorem signed_transaction_exact_witness:
  "\<exists>m. b64decode (b64encode (1 # replicate 64 7 @ 0x80 # replicate 32 1 @ replicate 32 2)) = Some (1 # replicate 64 7 @ m)"
proof -
  let ?io = "\<lambda>n :: nat. Io_frame STATUS_OK (replicate 64 7)"
  have lib: "lawful sample_library" by (simp add: lawful_def sample_library_def)
  have off: "mode_of_name ''off'' = Some OFF" by (simp add: mode_of_name_def py_lower_def lower_char_def Let_def)
  have "\<exists>b' c'. build_and_sign sample_library (\<lambda>c m. sign_message bytes_text (\<lambda>_. None) ?io m c) sample_builder idle_client
      sample_world [] 0 0 = (b', c', Inr (b64encode (1 # replicate 64 7 @ 0x80 # replicate 32 1 @ replicate 32 2)))"
    by (simp add: build_and_sign_def recent_blockhash_def sample_builder_def new_builder_def new_cache_def current_def
        sample_world_def sample_library_def of_library_def program_instructions_def compile_signed_def compile_message_def
        new_kernel_def off sign_message_def client_frame_def attempt_def idle_client_def encode_request_def MAX_FRAME_def
        assemble_def assemble_with_solders_def Let_def)
  then obtain b' c' where "build_and_sign sample_library (\<lambda>c m. sign_message bytes_text (\<lambda>_. None) ?io m c) sample_builder
      idle_client sample_world [] 0 0 = (b', c', Inr (b64encode (1 # replicate 64 7 @ 0x80 # replicate 32 1 @ replicate 32 2)))"
    by blast
  from signed_transaction_exact [OF lib this] obtain m signatures where
    d: "b64decode (b64encode (1 # replicate 64 7 @ 0x80 # replicate 32 1 @ replicate 32 2)) = Some (1 # signatures @ m)"
      "length signatures = 64" by blast
  then have "signatures = replicate 64 7" by (simp add: b64decode_encode)
  then show ?thesis using d by blast
qed

end
