(* ===== verification/PromotionGate.thy ===== *)
theory PromotionGate
  imports PyText Interfaces
begin

text \<open>
  \<open>research/promotion_gate.py\<close>: the frozen bars, the evaluation of evidence against a bar, and the
  ledger that holds the earned stage.  The digest of a bar is an argument; the successive readings of
  the clock within one call, and whether each file operation succeeds, are what the world answers.
  A failure message is modelled by its kind and the values it interpolates.
\<close>

subsection \<open>Stages\<close>

datatype stage = HISTORICAL | CHRONOLOGICAL_OOS | FORWARD_SHADOW | CANARY | LIVE

definition STAGE_ORDER :: "stage list" where
  "STAGE_ORDER = [HISTORICAL, CHRONOLOGICAL_OOS, FORWARD_SHADOW, CANARY, LIVE]"

fun stage_value :: "stage \<Rightarrow> string" where
  "stage_value HISTORICAL = ''historical''"
| "stage_value CHRONOLOGICAL_OOS = ''chronological_oos''"
| "stage_value FORWARD_SHADOW = ''forward_shadow''"
| "stage_value CANARY = ''canary''"
| "stage_value LIVE = ''live''"

text \<open>\<open>STAGE_ORDER.index\<close>; its order is the order of the ladder.\<close>

fun index_of :: "'a \<Rightarrow> 'a list \<Rightarrow> nat" where
  "index_of x [] = 0"
| "index_of x (y # ys) = (if x = y then 0 else Suc (index_of x ys))"

definition stage_index :: "stage \<Rightarrow> nat" where "stage_index s = index_of s STAGE_ORDER"

lemma stage_index_simps [simp]:
  "stage_index HISTORICAL = 0" "stage_index CHRONOLOGICAL_OOS = 1" "stage_index FORWARD_SHADOW = 2"
  "stage_index CANARY = 3" "stage_index LIVE = 4"
  by (simp_all add: stage_index_def STAGE_ORDER_def)

lemma stage_index_inj: "stage_index s = stage_index t \<Longrightarrow> s = t"
  by (cases s; cases t) simp_all

instantiation stage :: linorder
begin

definition less_eq_stage :: "stage \<Rightarrow> stage \<Rightarrow> bool" where "s \<le> t \<longleftrightarrow> stage_index s \<le> stage_index t"
definition less_stage :: "stage \<Rightarrow> stage \<Rightarrow> bool" where "s < t \<longleftrightarrow> stage_index s < stage_index t"

instance
  by standard (auto simp: less_eq_stage_def less_stage_def intro: stage_index_inj)

end

definition next_stage :: "stage \<Rightarrow> stage option" where
  "next_stage current =
     (let i = stage_index current
      in if i + 1 < length STAGE_ORDER then Some (STAGE_ORDER ! (i + 1)) else None)"

lemma next_stage_simps [simp]:
  "next_stage HISTORICAL = Some CHRONOLOGICAL_OOS" "next_stage CHRONOLOGICAL_OOS = Some FORWARD_SHADOW"
  "next_stage FORWARD_SHADOW = Some CANARY" "next_stage CANARY = Some LIVE" "next_stage LIVE = None"
  by (simp_all add: next_stage_def STAGE_ORDER_def)

lemma next_stage_cover: "next_stage s = Some t \<Longrightarrow> u < t \<longleftrightarrow> u \<le> s"
  by (cases s; cases u) (auto simp: less_eq_stage_def less_stage_def)

subsection \<open>Bars and evidence\<close>

record criteria =
  crit_stage :: stage
  min_days_at_stage :: pyfloat
  min_decisions_at_stage :: int
  min_decisions :: int
  min_real_fills :: int
  min_launch_cohorts :: int
  min_regimes :: int
  min_net_log_growth :: pyfloat
  max_rug_loss_share :: pyfloat
  min_monster_enrichment :: pyfloat
  min_execution_success :: pyfloat
  max_catastrophic_failures :: int
  require_positive_lower_bound :: bool
  min_gauntlet_survivors :: int

definition bare_criteria :: "stage \<Rightarrow> criteria" where
  "bare_criteria s =
     \<lparr>crit_stage = s, min_days_at_stage = 0, min_decisions_at_stage = 0, min_decisions = 0, min_real_fills = 0,
      min_launch_cohorts = 0, min_regimes = 1, min_net_log_growth = 0, max_rug_loss_share = 1,
      min_monster_enrichment = 1, min_execution_success = 0, max_catastrophic_failures = 0,
      require_positive_lower_bound = False, min_gauntlet_survivors = 0\<rparr>"

definition DEFAULT_CRITERIA :: "(stage, criteria) dict" where
  "DEFAULT_CRITERIA =
     [(HISTORICAL, (bare_criteria HISTORICAL)
        \<lparr>min_decisions := 100, min_launch_cohorts := 25, min_regimes := 1, min_net_log_growth := 0,
         max_rug_loss_share := fl (3 / 10), min_monster_enrichment := fl (12 / 10)\<rparr>),
      (CHRONOLOGICAL_OOS, (bare_criteria CHRONOLOGICAL_OOS)
        \<lparr>min_decisions := 500, min_launch_cohorts := 100, min_regimes := 2, min_net_log_growth := 0,
         max_rug_loss_share := 1 / 4, min_monster_enrichment := 3 / 2\<rparr>),
      (FORWARD_SHADOW, (bare_criteria FORWARD_SHADOW)
        \<lparr>min_days_at_stage := 14, min_decisions_at_stage := 2000, min_decisions := 5000,
         min_launch_cohorts := 1000, min_regimes := 3, min_net_log_growth := 0,
         max_rug_loss_share := fl (2 / 10), min_monster_enrichment := 2, min_execution_success := 0\<rparr>),
      (CANARY, (bare_criteria CANARY)
        \<lparr>min_days_at_stage := 14, min_decisions_at_stage := 2000, min_decisions := 5000, min_real_fills := 1000,
         min_launch_cohorts := 1000, min_regimes := 3, min_net_log_growth := 0,
         max_rug_loss_share := fl (15 / 100), min_monster_enrichment := 2, min_execution_success := fl (6 / 10),
         max_catastrophic_failures := 0, require_positive_lower_bound := True, min_gauntlet_survivors := 1\<rparr>),
      (LIVE, (bare_criteria LIVE)
        \<lparr>min_decisions := 20000, min_real_fills := 5000, min_launch_cohorts := 3000, min_regimes := 4,
         min_net_log_growth := 0, max_rug_loss_share := fl (12 / 100), min_monster_enrichment := 5 / 2,
         min_execution_success := fl (7 / 10), max_catastrophic_failures := 0,
         require_positive_lower_bound := True, min_gauntlet_survivors := 2\<rparr>)]"

record evidence =
  ev_stage :: stage
  decisions :: "int option"
  real_fills :: "int option"
  launch_cohorts :: "int option"
  regimes_covered :: "int option"
  net_log_growth :: "pyfloat option"
  rug_loss_share :: "pyfloat option"
  monster_enrichment :: "pyfloat option"
  execution_success :: "pyfloat option"
  catastrophic_failures :: "int option"
  net_log_growth_lower_bound :: "pyfloat option"
  gauntlet_survivors :: "int option"

datatype failure =
    Stage_mismatch stage stage
  | Not_measured string string rat
  | Below string rat rat
  | Above string rat rat
  | Growth_not_measured
  | Growth_not_above pyfloat pyfloat
  | Bound_not_measured
  | Bound_not_positive pyfloat
  | Too_few_days pyfloat stage pyfloat
  | Too_few_decisions int stage int
  | No_criteria

record gate_verdict =
  passed :: bool
  verdict_stage :: stage
  criteria_fingerprint :: string
  failures :: "failure list"
  unmeasured :: "string list"
  evaluated_at :: pyfloat

subsection \<open>Evaluation\<close>

type_synonym findings = "failure list \<times> string list"

definition check_min :: "string \<Rightarrow> rat option \<Rightarrow> rat \<Rightarrow> string \<Rightarrow> findings \<Rightarrow> findings" where
  "check_min name v minimum label a =
     (if minimum = 0 \<and> v = None then a
      else case v of
        None \<Rightarrow> (fst a @ [Not_measured name label minimum], snd a @ [name])
      | Some x \<Rightarrow> if x < minimum then (fst a @ [Below name x minimum], snd a) else a)"

definition check_max :: "string \<Rightarrow> rat option \<Rightarrow> rat \<Rightarrow> string \<Rightarrow> findings \<Rightarrow> findings" where
  "check_max name v maximum label a =
     (case v of
        None \<Rightarrow> (fst a @ [Not_measured name label maximum], snd a @ [name])
      | Some x \<Rightarrow> if maximum < x then (fst a @ [Above name x maximum], snd a) else a)"

definition check_growth :: "criteria \<Rightarrow> evidence \<Rightarrow> findings \<Rightarrow> findings" where
  "check_growth c e a =
     (case net_log_growth e of
        None \<Rightarrow> (fst a @ [Growth_not_measured], snd a @ [''net_log_growth''])
      | Some g \<Rightarrow>
          if g \<le> min_net_log_growth c then (fst a @ [Growth_not_above g (min_net_log_growth c)], snd a) else a)"

definition check_lower_bound :: "criteria \<Rightarrow> evidence \<Rightarrow> findings \<Rightarrow> findings" where
  "check_lower_bound c e a =
     (if require_positive_lower_bound c then
        (case net_log_growth_lower_bound e of
           None \<Rightarrow> (fst a @ [Bound_not_measured], snd a @ [''net_log_growth_lower_bound''])
         | Some b \<Rightarrow> if b \<le> 0 then (fst a @ [Bound_not_positive b], snd a) else a)
      else a)"

definition rat_opt :: "int option \<Rightarrow> rat option" where "rat_opt = map_option of_int"

definition evaluate :: "(criteria \<Rightarrow> string) \<Rightarrow> pyfloat \<Rightarrow> criteria \<Rightarrow> evidence \<Rightarrow> gate_verdict" where
  "evaluate fingerprint now c e =
     (if ev_stage e \<noteq> crit_stage c then
        \<lparr>passed = False, verdict_stage = crit_stage c, criteria_fingerprint = fingerprint c,
         failures = [Stage_mismatch (ev_stage e) (crit_stage c)], unmeasured = [], evaluated_at = now\<rparr>
      else
        let a = ([], []);
            a = check_min ''decisions'' (rat_opt (decisions e)) (of_int (min_decisions c)) ''>='' a;
            a = check_min ''real_fills'' (rat_opt (real_fills e)) (of_int (min_real_fills c)) ''>='' a;
            a = check_min ''launch_cohorts'' (rat_opt (launch_cohorts e)) (of_int (min_launch_cohorts c)) ''>='' a;
            a = check_min ''regimes_covered'' (rat_opt (regimes_covered e)) (of_int (min_regimes c)) ''>='' a;
            a = check_min ''execution_success'' (execution_success e) (min_execution_success c) ''>='' a;
            a = check_min ''monster_enrichment'' (monster_enrichment e) (min_monster_enrichment c) ''>='' a;
            a = check_growth c e a;
            a = check_lower_bound c e a;
            a = check_min ''gauntlet_survivors'' (rat_opt (gauntlet_survivors e)) (of_int (min_gauntlet_survivors c)) ''>='' a;
            a = check_max ''rug_loss_share'' (rug_loss_share e) (max_rug_loss_share c) ''<='' a;
            a = check_max ''catastrophic_failures'' (rat_opt (catastrophic_failures e))
                  (of_int (max_catastrophic_failures c)) ''<='' a
        in \<lparr>passed = (fst a = []), verdict_stage = crit_stage c, criteria_fingerprint = fingerprint c,
            failures = fst a, unmeasured = sort (remdups (snd a)), evaluated_at = now\<rparr>)"

definition can_advance :: "stage \<Rightarrow> gate_verdict \<Rightarrow> bool" where
  "can_advance current v \<longleftrightarrow> passed v \<and> verdict_stage v = current \<and> next_stage current \<noteq> None"

subsection \<open>The ledger\<close>

record ledger_row =
  row_verdict :: gate_verdict
  row_evidence :: evidence
  row_criteria :: criteria

record stage_record =
  rec_stage :: string
  rec_at :: pyfloat
  rec_decisions :: int

text \<open>\<open>None\<close>: the stage file is missing, unreadable or not JSON.\<close>

record gate =
  rows :: "ledger_row list"
  stage_file :: "stage_record option"

definition empty_gate :: gate where "empty_gate = \<lparr>rows = [], stage_file = None\<rparr>"

definition stage_of_value :: "string \<Rightarrow> stage option" where
  "stage_of_value v = List.find (\<lambda>s. stage_value s = v) STAGE_ORDER"

definition current_stage :: "gate \<Rightarrow> stage" where
  "current_stage l =
     (case stage_file l of
        None \<Rightarrow> hd STAGE_ORDER
      | Some r \<Rightarrow> (case stage_of_value (rec_stage r) of None \<Rightarrow> hd STAGE_ORDER | Some s \<Rightarrow> s))"

definition entered_stage_at :: "gate \<Rightarrow> pyfloat" where
  "entered_stage_at l = (case stage_file l of None \<Rightarrow> 0 | Some r \<Rightarrow> rec_at r)"

definition decisions_at_entry :: "gate \<Rightarrow> int" where
  "decisions_at_entry l = (case stage_file l of None \<Rightarrow> 0 | Some r \<Rightarrow> rec_decisions r)"

text \<open>How one \<open>replace\<close> ends: done, denied for a moment (Windows codes 5, 32, 33), or failed.\<close>

datatype rename_result = Renamed | Denied_briefly | Rename_failed

fun replace_attempts :: "(nat \<Rightarrow> rename_result) \<Rightarrow> nat \<Rightarrow> nat \<Rightarrow> bool" where
  "replace_attempts ren attempt 0 = False"
| "replace_attempts ren attempt (Suc left) =
     (case ren attempt of
        Renamed \<Rightarrow> True
      | Rename_failed \<Rightarrow> False
      | Denied_briefly \<Rightarrow> if attempt = 4 then False else replace_attempts ren (attempt + 1) left)"

text \<open>The result is \<open>None\<close> when the write raises; the old file is then intact.\<close>

definition write_stage :: "(nat \<Rightarrow> rename_result) \<Rightarrow> pyfloat \<Rightarrow> gate \<Rightarrow> stage \<Rightarrow> int \<Rightarrow> gate option" where
  "write_stage ren now l s n =
     (if replace_attempts ren 0 5
      then Some (l\<lparr>stage_file := Some \<lparr>rec_stage = stage_value s, rec_at = now, rec_decisions = n\<rparr>\<rparr>)
      else None)"

text \<open>
  What the world answers during one call: the clock's readings in the order the code takes them, the
  renames of the arrival write and of the promotion write, and whether the row could be appended.
\<close>

record world =
  clock :: "nat \<Rightarrow> pyfloat"
  arrival_renames :: "nat \<Rightarrow> rename_result"
  promotion_renames :: "nat \<Rightarrow> rename_result"
  row_appended :: bool

definition count_or_0 :: "int option \<Rightarrow> int" where
  "count_or_0 v = (case v of None \<Rightarrow> 0 | Some n \<Rightarrow> n)"

definition days_since :: "pyfloat \<Rightarrow> pyfloat \<Rightarrow> pyfloat" where
  "days_since now entered = fdiv (fsub now entered) 86400"

definition dwell_days :: "world \<Rightarrow> gate \<Rightarrow> criteria \<Rightarrow> evidence \<Rightarrow> (gate \<times> failure list) option" where
  "dwell_days w l c e =
     (if 0 < min_days_at_stage c then
        case (if entered_stage_at l = 0
              then map_option (\<lambda>l'. (l', clock w 2))
                     (write_stage (arrival_renames w) (clock w 1) l (crit_stage c) (count_or_0 (decisions e)))
              else Some (l, entered_stage_at l)) of
          None \<Rightarrow> None
        | Some (l', entered) \<Rightarrow>
            let days = days_since (clock w 3) entered
            in Some (l', if days < min_days_at_stage c then [Too_few_days days (crit_stage c) (min_days_at_stage c)] else [])
      else Some (l, []))"

definition dwell_decisions :: "gate \<Rightarrow> criteria \<Rightarrow> evidence \<Rightarrow> failure list" where
  "dwell_decisions l c e =
     (if 0 < min_decisions_at_stage c then
        let fresh = count_or_0 (decisions e) - decisions_at_entry l
        in if fresh < min_decisions_at_stage c
           then [Too_few_decisions fresh (crit_stage c) (min_decisions_at_stage c)] else []
      else [])"

definition stage_dwell_failures :: "world \<Rightarrow> gate \<Rightarrow> criteria \<Rightarrow> evidence \<Rightarrow> (gate \<times> failure list) option" where
  "stage_dwell_failures w l c e =
     map_option (\<lambda>(l', fs). (l', fs @ dwell_decisions l' c e)) (dwell_days w l c e)"

definition record_row :: "gate \<Rightarrow> gate_verdict \<Rightarrow> evidence \<Rightarrow> criteria \<Rightarrow> gate" where
  "record_row l v e c = l\<lparr>rows := rows l @ [\<lparr>row_verdict = v, row_evidence = e, row_criteria = c\<rparr>]\<rparr>"

definition with_failures :: "gate_verdict \<Rightarrow> failure list \<Rightarrow> gate_verdict" where
  "with_failures v fs = v\<lparr>failures := failures v @ fs, passed := passed v \<and> fs = []\<rparr>"

text \<open>The verdict, or \<open>None\<close> when a file operation raised; the state is what is on disk then.\<close>

definition gate_submit ::
    "(criteria \<Rightarrow> string) \<Rightarrow> world \<Rightarrow> gate \<Rightarrow> evidence \<Rightarrow> criteria option \<Rightarrow> gate \<times> gate_verdict option" where
  "gate_submit fingerprint w l e given =
     (let s = current_stage l
      in case (case given of Some c \<Rightarrow> Some c | None \<Rightarrow> dget DEFAULT_CRITERIA s) of
        None \<Rightarrow> (l, Some \<lparr>passed = False, verdict_stage = s, criteria_fingerprint = '''', failures = [No_criteria],
                   unmeasured = [], evaluated_at = clock w 0\<rparr>)
      | Some c \<Rightarrow>
          (case stage_dwell_failures w l c e of
             None \<Rightarrow> (l, None)
           | Some (l1, fs) \<Rightarrow>
               let v = with_failures (evaluate fingerprint (clock w 0) c e) fs
               in if \<not> row_appended w then (l1, None)
                  else let l2 = record_row l1 v e c
                       in if can_advance s v then
                            (case write_stage (promotion_renames w) (clock w 4) l2 (the (next_stage s)) (count_or_0 (decisions e)) of
                               None \<Rightarrow> (l2, None)
                             | Some l3 \<Rightarrow> (l3, Some v))
                          else (l2, Some v)))"

definition demote :: "world \<Rightarrow> gate \<Rightarrow> gate \<times> stage option" where
  "demote w l =
     (let lower = STAGE_ORDER ! (stage_index (current_stage l) - 1)
      in case write_stage (arrival_renames w) (clock w 0) l lower 0 of
           None \<Rightarrow> (l, None)
         | Some l' \<Rightarrow> (l', Some lower))"

definition authorises_live_capital :: "gate \<Rightarrow> bool \<times> string" where
  "authorises_live_capital l =
     (let s = current_stage l
      in if stage_index CANARY \<le> stage_index s
         then (True, ''stage '' @ stage_value s @ '' authorises live capital'')
         else (False, ''stage is '' @ stage_value s @ ''; live capital requires '' @ stage_value CANARY
                 @ '', which is reached by passing the '' @ stage_value s @ '' gate on measured evidence''))"

definition fingerprints_for :: "gate \<Rightarrow> stage \<Rightarrow> string list" where
  "fingerprints_for l s =
     fold (\<lambda>row seen_so_far.
       let fp = criteria_fingerprint (row_verdict row)
       in if verdict_stage (row_verdict row) \<noteq> s then seen_so_far
          else if fp \<noteq> '''' \<and> fp \<notin> set seen_so_far then seen_so_far @ [fp] else seen_so_far) (rows l) []"

definition bar_moved :: "gate \<Rightarrow> stage \<Rightarrow> bool" where
  "bar_moved l s = (1 < length (fingerprints_for l s))"

subsection \<open>What a bar asks\<close>

text \<open>A requirement on one quantity: which values satisfy it, and whether it may go unmeasured.\<close>

record requirement =
  req_name :: string
  req_value :: "rat option"
  req_ok :: "rat \<Rightarrow> bool"
  req_optional :: bool

definition at_least :: "string \<Rightarrow> rat option \<Rightarrow> rat \<Rightarrow> requirement" where
  "at_least name v m = \<lparr>req_name = name, req_value = v, req_ok = (\<lambda>x. m \<le> x), req_optional = (m = 0)\<rparr>"

definition at_most :: "string \<Rightarrow> rat option \<Rightarrow> rat \<Rightarrow> requirement" where
  "at_most name v m = \<lparr>req_name = name, req_value = v, req_ok = (\<lambda>x. x \<le> m), req_optional = False\<rparr>"

definition above_bar :: "string \<Rightarrow> rat option \<Rightarrow> rat \<Rightarrow> requirement" where
  "above_bar name v m = \<lparr>req_name = name, req_value = v, req_ok = (\<lambda>x. m < x), req_optional = False\<rparr>"

definition met :: "requirement \<Rightarrow> bool" where
  "met r = (case req_value r of None \<Rightarrow> req_optional r | Some x \<Rightarrow> req_ok r x)"

definition blind :: "requirement \<Rightarrow> bool" where
  "blind r \<longleftrightarrow> req_value r = None \<and> \<not> req_optional r"

definition requirements :: "criteria \<Rightarrow> evidence \<Rightarrow> requirement list" where
  "requirements c e =
     [at_least ''decisions'' (rat_opt (decisions e)) (of_int (min_decisions c)),
      at_least ''real_fills'' (rat_opt (real_fills e)) (of_int (min_real_fills c)),
      at_least ''launch_cohorts'' (rat_opt (launch_cohorts e)) (of_int (min_launch_cohorts c)),
      at_least ''regimes_covered'' (rat_opt (regimes_covered e)) (of_int (min_regimes c)),
      at_least ''execution_success'' (execution_success e) (min_execution_success c),
      at_least ''monster_enrichment'' (monster_enrichment e) (min_monster_enrichment c),
      above_bar ''net_log_growth'' (net_log_growth e) (min_net_log_growth c)]
     @ (if require_positive_lower_bound c
        then [above_bar ''net_log_growth_lower_bound'' (net_log_growth_lower_bound e) 0] else [])
     @ [at_least ''gauntlet_survivors'' (rat_opt (gauntlet_survivors e)) (of_int (min_gauntlet_survivors c)),
        at_most ''rug_loss_share'' (rug_loss_share e) (max_rug_loss_share c),
        at_most ''catastrophic_failures'' (rat_opt (catastrophic_failures e)) (of_int (max_catastrophic_failures c))]"

definition clears :: "criteria \<Rightarrow> evidence \<Rightarrow> bool" where
  "clears c e \<longleftrightarrow> ev_stage e = crit_stage c \<and> list_all met (requirements c e)"

text \<open>What one check adds to the findings, told by its requirement alone.\<close>

definition adds :: "requirement \<Rightarrow> findings \<Rightarrow> findings \<Rightarrow> bool" where
  "adds r a b \<longleftrightarrow> length (fst b) = length (fst a) + (if met r then 0 else 1)
     \<and> snd b = snd a @ (if blind r then [req_name r] else [])"

lemma adds_check_min: "adds (at_least name v m) a (check_min name v m label a)"
  by (auto simp: adds_def check_min_def at_least_def met_def blind_def split: option.splits)

lemma adds_check_max: "adds (at_most name v m) a (check_max name v m label a)"
  by (auto simp: adds_def check_max_def at_most_def met_def blind_def split: option.splits)

lemma adds_check_growth: "adds (above_bar ''net_log_growth'' (net_log_growth e) (min_net_log_growth c)) a (check_growth c e a)"
  by (auto simp: adds_def check_growth_def above_bar_def met_def blind_def split: option.splits)

lemma adds_check_lower_bound:
  "require_positive_lower_bound c
     \<Longrightarrow> adds (above_bar ''net_log_growth_lower_bound'' (net_log_growth_lower_bound e) 0) a (check_lower_bound c e a)"
  by (auto simp: adds_def check_lower_bound_def above_bar_def met_def blind_def split: option.splits)

lemma no_lower_bound: "\<not> require_positive_lower_bound c \<Longrightarrow> check_lower_bound c e a = a"
  by (simp add: check_lower_bound_def)

fun adds_all :: "requirement list \<Rightarrow> findings \<Rightarrow> findings \<Rightarrow> bool" where
  "adds_all [] a b \<longleftrightarrow> a = b"
| "adds_all (r # rs) a c \<longleftrightarrow> (\<exists>b. adds r a b \<and> adds_all rs b c)"

lemma adds_all_findings:
  "adds_all rs a b \<Longrightarrow> length (fst b) = length (fst a) + length (filter (\<lambda>r. \<not> met r) rs)
     \<and> snd b = snd a @ map req_name (filter blind rs)"
proof (induction rs arbitrary: a)
  case (Cons r rs)
  then obtain a' where "adds r a a'" "adds_all rs a' b" by auto
  with Cons.IH [of a'] show ?case by (auto simp: adds_def)
qed simp

definition findings_of :: "criteria \<Rightarrow> evidence \<Rightarrow> findings" where
  "findings_of c e =
     check_max ''catastrophic_failures'' (rat_opt (catastrophic_failures e)) (of_int (max_catastrophic_failures c)) ''<=''
       (check_max ''rug_loss_share'' (rug_loss_share e) (max_rug_loss_share c) ''<=''
         (check_min ''gauntlet_survivors'' (rat_opt (gauntlet_survivors e)) (of_int (min_gauntlet_survivors c)) ''>=''
           (check_lower_bound c e (check_growth c e
             (check_min ''monster_enrichment'' (monster_enrichment e) (min_monster_enrichment c) ''>=''
               (check_min ''execution_success'' (execution_success e) (min_execution_success c) ''>=''
                 (check_min ''regimes_covered'' (rat_opt (regimes_covered e)) (of_int (min_regimes c)) ''>=''
                   (check_min ''launch_cohorts'' (rat_opt (launch_cohorts e)) (of_int (min_launch_cohorts c)) ''>=''
                     (check_min ''real_fills'' (rat_opt (real_fills e)) (of_int (min_real_fills c)) ''>=''
                       (check_min ''decisions'' (rat_opt (decisions e)) (of_int (min_decisions c)) ''>='' ([], [])))))))))))"

lemma findings_of_adds: "adds_all (requirements c e) ([], []) (findings_of c e)"
proof (cases "require_positive_lower_bound c")
  case True
  then show ?thesis
    unfolding requirements_def findings_of_def if_P [OF True] append.simps adds_all.simps
    by (blast intro: adds_check_min adds_check_max adds_check_growth adds_check_lower_bound)
next
  case False
  then show ?thesis
    unfolding requirements_def findings_of_def if_not_P [OF False] append.simps adds_all.simps no_lower_bound [OF False]
    by (blast intro: adds_check_min adds_check_max adds_check_growth)
qed

lemma evaluate_findings:
  "evaluate fp now c e =
     (if ev_stage e \<noteq> crit_stage c then
        \<lparr>passed = False, verdict_stage = crit_stage c, criteria_fingerprint = fp c,
         failures = [Stage_mismatch (ev_stage e) (crit_stage c)], unmeasured = [], evaluated_at = now\<rparr>
      else \<lparr>passed = (fst (findings_of c e) = []), verdict_stage = crit_stage c, criteria_fingerprint = fp c,
            failures = fst (findings_of c e), unmeasured = sort (remdups (snd (findings_of c e))), evaluated_at = now\<rparr>)"
  unfolding evaluate_def findings_of_def Let_def ..

lemma findings_of_props:
  "length (fst (findings_of c e)) = length (filter (\<lambda>r. \<not> met r) (requirements c e))"
  "snd (findings_of c e) = map req_name (filter blind (requirements c e))"
  using adds_all_findings [OF findings_of_adds] by simp_all

lemma evaluate_clears: "passed (evaluate fp now c e) \<longleftrightarrow> clears c e"
  using findings_of_props(1) [of c e]
  by (auto simp: evaluate_findings clears_def list_all_iff filter_empty_conv simp del: length_filter_conv_card)

lemma evaluate_stage [simp]: "verdict_stage (evaluate fp now c e) = crit_stage c"
  by (simp add: evaluate_findings)

subsection \<open>The ladder\<close>

lemma stage_of_value_value [simp]: "stage_of_value (stage_value s) = Some s"
  by (cases s) (simp_all add: stage_of_value_def STAGE_ORDER_def)

lemma default_criteria: "\<exists>c. dget DEFAULT_CRITERIA s = Some c \<and> crit_stage c = s
    \<and> (0 < min_days_at_stage c \<longleftrightarrow> 0 < min_decisions_at_stage c)"
  by (cases s) (simp_all add: DEFAULT_CRITERIA_def bare_criteria_def)

lemma default_criteria_stage: "dget DEFAULT_CRITERIA s = Some c \<Longrightarrow> crit_stage c = s"
  using default_criteria [of s] by auto

lemma write_stageD:
  assumes "write_stage ren now l s n = Some l'"
  shows "rows l' = rows l" "current_stage l' = s" "entered_stage_at l' = now" "decisions_at_entry l' = n"
  using assms
  by (auto simp: write_stage_def current_stage_def entered_stage_at_def decisions_at_entry_def split: if_splits)

lemma record_row_simps [simp]:
  "current_stage (record_row l v e c) = current_stage l" "rows (record_row l v e c) = rows l @ [\<lparr>row_verdict = v, row_evidence = e, row_criteria = c\<rparr>]"
  by (simp_all add: record_row_def current_stage_def)

lemma with_failures_simps [simp]:
  "verdict_stage (with_failures v fs) = verdict_stage v" "passed (with_failures v fs) \<longleftrightarrow> passed v \<and> fs = []"
  by (simp_all add: with_failures_def)

lemma dwell_keeps:
  assumes "stage_dwell_failures w l c e = Some (l', fs)" "crit_stage c = current_stage l"
  shows "rows l' = rows l" "current_stage l' = current_stage l"
  using assms
  by (auto simp: stage_dwell_failures_def dwell_days_def Let_def dest: write_stageD split: if_splits option.splits)

lemma dwell_passed:
  assumes "stage_dwell_failures w l c e = Some (l', [])" "0 < min_days_at_stage c" "0 < min_decisions_at_stage c"
  shows "entered_stage_at l \<noteq> 0" "min_days_at_stage c \<le> days_since (clock w 3) (entered_stage_at l)"
    "min_decisions_at_stage c \<le> count_or_0 (decisions e) - decisions_at_entry l"
proof -
  have "entered_stage_at l \<noteq> 0"
    using assms by (auto simp: stage_dwell_failures_def dwell_days_def dwell_decisions_def Let_def
        dest: write_stageD(4) split: if_splits option.splits)
  then show "entered_stage_at l \<noteq> 0" "min_days_at_stage c \<le> days_since (clock w 3) (entered_stage_at l)"
    "min_decisions_at_stage c \<le> count_or_0 (decisions e) - decisions_at_entry l"
    using assms by (auto simp: stage_dwell_failures_def dwell_days_def dwell_decisions_def Let_def
        split: if_splits option.splits)
qed

text \<open>How a submission against the desk's own bar can end.\<close>

lemma submit_outcome:
  assumes sub: "gate_submit fp w l e None = (l', r)"
  obtains
    (stays) "current_stage l' = current_stage l" "\<exists>new. rows l' = rows l @ new"
  | (moves) c l1 where "dget DEFAULT_CRITERIA (current_stage l) = Some c" "stage_dwell_failures w l c e = Some (l1, [])"
      "clears c e" "next_stage (current_stage l) = Some (current_stage l')" "r \<noteq> None"
      "rows l' = rows l @ [\<lparr>row_verdict = with_failures (evaluate fp (clock w 0) c e) [], row_evidence = e, row_criteria = c\<rparr>]"
proof -
  obtain c where c: "dget DEFAULT_CRITERIA (current_stage l) = Some c" "crit_stage c = current_stage l"
    using default_criteria by blast
  show thesis
  proof (cases "stage_dwell_failures w l c e")
    case None
    then show thesis using sub c by (intro stays) (auto simp: gate_submit_def)
  next
    case (Some d)
    obtain l1 fs where d: "d = (l1, fs)" by fastforce
    have keeps: "rows l1 = rows l" "current_stage l1 = current_stage l"
      using dwell_keeps [OF Some [unfolded d] c(2)] .
    let ?v = "with_failures (evaluate fp (clock w 0) c e) fs"
    have eq: "(if \<not> row_appended w then (l1, None)
       else let l2 = record_row l1 ?v e c
            in if can_advance (current_stage l) ?v then
                 (case write_stage (promotion_renames w) (clock w 4) l2 (the (next_stage (current_stage l))) (count_or_0 (decisions e)) of
                    None \<Rightarrow> (l2, None) | Some l3 \<Rightarrow> (l3, Some ?v))
               else (l2, Some ?v)) = (l', r)"
      using sub c Some d by (simp add: gate_submit_def Let_def)
    show thesis
    proof (cases "row_appended w \<and> can_advance (current_stage l) ?v
        \<and> write_stage (promotion_renames w) (clock w 4) (record_row l1 ?v e c) (the (next_stage (current_stage l))) (count_or_0 (decisions e)) \<noteq> None")
      case False
      then show thesis using eq keeps by (intro stays) (auto simp: Let_def split: if_splits option.splits)
    next
      case True
      then obtain l3 where l3: "write_stage (promotion_renames w) (clock w 4) (record_row l1 ?v e c)
          (the (next_stage (current_stage l))) (count_or_0 (decisions e)) = Some l3" by blast
      then have l': "l' = l3" "r = Some ?v" using True eq by (auto simp: Let_def)
      have adv: "passed ?v" "next_stage (current_stage l) \<noteq> None" using True by (auto simp: can_advance_def)
      then have "fs = []" "clears c e" by (simp_all add: evaluate_clears)
      then show thesis
        using moves [of c l1] c Some d adv l' write_stageD [OF l3] keeps by auto
    qed
  qed
qed

datatype gate_event = Desk_submits world evidence | Demoted world

definition gate_step :: "(criteria \<Rightarrow> string) \<Rightarrow> gate \<Rightarrow> gate_event \<Rightarrow> gate" where
  "gate_step fingerprint l ev =
     (case ev of
        Desk_submits w e \<Rightarrow> fst (gate_submit fingerprint w l e None)
      | Demoted w \<Rightarrow> fst (demote w l))"

definition earned_row :: "stage \<Rightarrow> ledger_row \<Rightarrow> bool" where
  "earned_row s row \<longleftrightarrow> passed (row_verdict row) \<and> verdict_stage (row_verdict row) = s
     \<and> dget DEFAULT_CRITERIA s = Some (row_criteria row) \<and> clears (row_criteria row) (row_evidence row)"

definition earned_inv :: "gate \<Rightarrow> bool" where
  "earned_inv l \<longleftrightarrow> (\<forall>s < current_stage l. \<exists>row \<in> set (rows l). earned_row s row)"

lemma demote_down: "fst (demote w l) = l' \<Longrightarrow> rows l' = rows l \<and> current_stage l' \<le> current_stage l"
proof -
  have "STAGE_ORDER ! (stage_index s - 1) \<le> s" for s
    by (cases s) (simp_all add: STAGE_ORDER_def less_eq_stage_def)
  moreover assume "fst (demote w l) = l'"
  ultimately show ?thesis
    by (auto simp: demote_def Let_def dest: write_stageD split: option.splits)
qed

lemma earned_step: "earned_inv l \<Longrightarrow> earned_inv (gate_step fp l ev)"
proof (cases ev)
  case (Demoted w)
  assume inv: "earned_inv l"
  have down: "rows (gate_step fp l ev) = rows l \<and> current_stage (gate_step fp l ev) \<le> current_stage l"
    by (rule demote_down [of w]) (simp add: gate_step_def Demoted)
  then have "s < current_stage l" if "s < current_stage (gate_step fp l ev)" for s
    using that by (meson less_le_trans)
  then show ?thesis using inv down by (simp add: earned_inv_def)
next
  case (Desk_submits w e)
  assume inv: "earned_inv l"
  obtain l' r where sub: "gate_submit fp w l e None = (l', r)" by fastforce
  from sub have "earned_inv l'"
  proof (cases rule: submit_outcome)
    case stays
    then show ?thesis using inv by (fastforce simp: earned_inv_def)
  next
    case (moves c l1)
    let ?row = "\<lparr>row_verdict = with_failures (evaluate fp (clock w 0) c e) [], row_evidence = e, row_criteria = c\<rparr>"
    have "earned_row (current_stage l) ?row"
      using moves(1,3) by (simp add: earned_row_def evaluate_clears default_criteria_stage)
    then have new: "\<exists>row \<in> set (rows l'). earned_row (current_stage l) row" using moves(6) by auto
    have old: "\<exists>row \<in> set (rows l'). earned_row s row" if "s < current_stage l" for s
      using inv that moves(6) by (auto simp: earned_inv_def)
    show ?thesis unfolding earned_inv_def
    proof (intro allI impI)
      fix s assume "s < current_stage l'"
      then have "s \<le> current_stage l" using next_stage_cover [OF moves(4)] by simp
      then show "\<exists>row \<in> set (rows l'). earned_row s row" using new old by (auto simp: order_le_less)
    qed
  qed
  then show ?thesis using sub Desk_submits by (simp add: gate_step_def)
qed

interpretation ladder: machine "gate_step fp" earned_inv for fp
  by unfold_locales (rule earned_step)

lemma empty_gate_inv: "earned_inv empty_gate"
  by (auto simp: earned_inv_def empty_gate_def current_stage_def STAGE_ORDER_def less_stage_def)

subsection \<open>Where the ladder gives way\<close>

text \<open>
  A bar handed to \<open>submit\<close> by the caller: the arrival at its rung is recorded even though the desk
  stands elsewhere, so a desk without a stage file that is shown the canary bar authorises live
  capital, whatever the verdict.
\<close>

lemma foreign_bar_grants_authority:
  assumes "stage_file l = None" "crit_stage c = CANARY" "0 < min_days_at_stage c"
    "arrival_renames w 0 = Renamed" "row_appended w"
  shows "fst (authorises_live_capital (fst (gate_submit fp w l e (Some c))))"
proof -
  have h: "current_stage l = HISTORICAL" using assms(1) by (simp add: current_stage_def STAGE_ORDER_def)
  obtain l1 fs where d: "stage_dwell_failures w l c e = Some (l1, fs)" "current_stage l1 = CANARY"
  proof -
    have r: "replace_attempts (arrival_renames w) 0 5" using assms(4) by (simp add: eval_nat_numeral)
    obtain l1 where "write_stage (arrival_renames w) (clock w 1) l CANARY (count_or_0 (decisions e)) = Some l1"
      using r by (simp add: write_stage_def)
    note l1 = this write_stageD(2) [OF this]
    show thesis
      using l1 assms(1-3) that [of l1 "snd (the (stage_dwell_failures w l c e))"]
      by (simp add: stage_dwell_failures_def dwell_days_def entered_stage_at_def Let_def)
  qed
  have "\<not> can_advance HISTORICAL (with_failures (evaluate fp (clock w 0) c e) fs)"
    using assms(2) by (simp add: can_advance_def)
  then have "current_stage (fst (gate_submit fp w l e (Some c))) = CANARY"
    using d h assms(5) by (simp add: gate_submit_def Let_def)
  then show ?thesis by (simp add: authorises_live_capital_def Let_def)
qed

text \<open>
  A demotion records no decisions at entry, so the decisions asked of the lower rung afterwards are
  the lifetime count again, which is already banked.
\<close>

lemma demotion_forgets_entry:
  assumes "arrival_renames w 0 = Renamed"
  shows "dwell_decisions (fst (demote w l)) c e =
    (if 0 < min_decisions_at_stage c \<and> count_or_0 (decisions e) < min_decisions_at_stage c
     then [Too_few_decisions (count_or_0 (decisions e)) (crit_stage c) (min_decisions_at_stage c)] else [])"
  using assms
  by (auto simp: dwell_decisions_def demote_def write_stage_def decisions_at_entry_def Let_def eval_nat_numeral)

subsection \<open>Properties\<close>

text \<open>
  Evaluation is exact: evidence from the bar's own stage passes exactly when every requirement
  of the bar is met, there is one failure for each unmet requirement, and the unmeasured list names
  exactly the required quantities that have no value; evidence from another stage never passes.
\<close>

lemma evaluation_exact:
  "let v = evaluate fp now c e in
   if ev_stage e = crit_stage c
   then passed v = list_all met (requirements c e)
     \<and> length (failures v) = length (filter (\<lambda>r. \<not> met r) (requirements c e))
     \<and> set (unmeasured v) = {req_name r |r. r \<in> set (requirements c e) \<and> blind r}
   else \<not> passed v"
proof (cases "ev_stage e = crit_stage c")
  case True
  have "failures (evaluate fp now c e) = fst (findings_of c e)"
    "set (unmeasured (evaluate fp now c e)) = set (snd (findings_of c e))"
    using True by (simp_all add: evaluate_findings)
  then have "length (failures (evaluate fp now c e)) = length (filter (\<lambda>r. \<not> met r) (requirements c e))"
    "set (unmeasured (evaluate fp now c e)) = {req_name r |r. r \<in> set (requirements c e) \<and> blind r}"
    by (simp_all add: findings_of_props image_def) blast
  then show ?thesis using True evaluate_clears [of fp now c e] by (simp add: clears_def)
qed (simp add: evaluate_clears clears_def)


text \<open>
  A promotion moves one rung, on evidence that clears the rung's bar and on a verdict on disk;
  out of a rung with a dwell, only when the recorded arrival lies the required days back and the
  required decisions came after it.
\<close>

lemma promotion_needs_dwell:
  assumes "gate_submit fp w l e None = (l', r)" "current_stage l < current_stage l'"
  shows "\<exists>c v. dget DEFAULT_CRITERIA (current_stage l) = Some c \<and> clears c e
    \<and> next_stage (current_stage l) = Some (current_stage l')
    \<and> rows l' = rows l @ [\<lparr>row_verdict = v, row_evidence = e, row_criteria = c\<rparr>] \<and> passed v
    \<and> (if 0 < min_days_at_stage c
       then entered_stage_at l \<noteq> 0 \<and> min_days_at_stage c \<le> days_since (clock w 3) (entered_stage_at l)
         \<and> min_decisions_at_stage c \<le> count_or_0 (decisions e) - decisions_at_entry l
       else True)"
  using assms(1)
proof (cases rule: submit_outcome)
  case stays
  then show ?thesis using assms(2) by simp
next
  case (moves c l1)
  have "0 < min_days_at_stage c \<longleftrightarrow> 0 < min_decisions_at_stage c"
    using default_criteria [of "current_stage l"] moves(1) by auto
  then show ?thesis using moves dwell_passed [OF moves(2)] by (auto simp: evaluate_clears)
qed

text \<open>Concrete evidence for the witnesses.\<close>

definition strong_evidence :: "stage \<Rightarrow> int \<Rightarrow> evidence" where
  "strong_evidence s n =
     \<lparr>ev_stage = s, decisions = Some n, real_fills = Some 9000, launch_cohorts = Some 9000,
      regimes_covered = Some 9, net_log_growth = Some 1, rug_loss_share = Some 0, monster_enrichment = Some 9,
      execution_success = Some 1, catastrophic_failures = Some 0, net_log_growth_lower_bound = Some 1,
      gauntlet_survivors = Some 9\<rparr>"

lemma strong_clears:
  assumes "dget DEFAULT_CRITERIA s = Some c" "20000 \<le> n" shows "clears c (strong_evidence s n)"
proof -
  have fl9: "fl x \<le> 9" if "x \<le> 9" for x using fl_le_double [of "of_int 9" x] is_double_of_int [of 9] that by simp
  have fl1: "fl x \<le> 1" if "x \<le> 1" for x using fl_le_double [of "of_int 1" x] is_double_of_int [of 1] that by simp
  show ?thesis
    using assms
    by (cases s) (auto simp: DEFAULT_CRITERIA_def bare_criteria_def clears_def requirements_def strong_evidence_def
        at_least_def at_most_def above_bar_def met_def rat_opt_def fl9 fl1)
qed

definition at_time :: "pyfloat \<Rightarrow> world" where
  "at_time t = \<lparr>clock = (\<lambda>_. t), arrival_renames = (\<lambda>_. Renamed), promotion_renames = (\<lambda>_. Renamed), row_appended = True\<rparr>"

definition standing :: "stage \<Rightarrow> pyfloat \<Rightarrow> int \<Rightarrow> ledger_row list \<Rightarrow> gate" where
  "standing s t n rs = \<lparr>rows = rs, stage_file = Some \<lparr>rec_stage = stage_value s, rec_at = t, rec_decisions = n\<rparr>\<rparr>"

lemma standing_simps [simp]:
  "current_stage (standing s t n rs) = s" "entered_stage_at (standing s t n rs) = t"
  "decisions_at_entry (standing s t n rs) = n"
  by (simp_all add: standing_def current_stage_def entered_stage_at_def decisions_at_entry_def)

lemma gate_eta: "l\<lparr>rows := a, stage_file := b\<rparr> = \<lparr>rows = a, stage_file = b\<rparr>"
  by (cases l) simp

lemma at_time_simps [simp]:
  "clock (at_time t) k = t" "arrival_renames (at_time t) k = Renamed" "promotion_renames (at_time t) k = Renamed"
  "row_appended (at_time t)"
  by (simp_all add: at_time_def)

lemma strong_evidence_simps [simp]:
  "ev_stage (strong_evidence s n) = s" "count_or_0 (decisions (strong_evidence s n)) = n"
  by (simp_all add: strong_evidence_def count_or_0_def)

lemma days_20: "days_since 1728001 1 = 20"
  using fl_of_int [of 1728000] fl_of_int [of 20] by (simp add: days_since_def fsub_def fdiv_def)

lemma strong_step:
  assumes s: "current_stage l = s" "next_stage s = Some t" and n: "20000 \<le> n"
    and dwell: "if s < FORWARD_SHADOW then True
      else entered_stage_at l = 1 \<and> now = 1728001 \<and> decisions_at_entry l + 2000 \<le> n"
  shows "\<exists>rs. gate_step fp l (Desk_submits (at_time now) (strong_evidence s n)) = standing t now n rs"
proof -
  obtain c where c: "dget DEFAULT_CRITERIA s = Some c" "crit_stage c = s" using default_criteria by blast
  have "stage_dwell_failures (at_time now) l c (strong_evidence s n) = Some (l, [])"
    using c(1) dwell days_20 s(2)
    by (cases s) (auto simp: stage_dwell_failures_def dwell_days_def dwell_decisions_def Let_def DEFAULT_CRITERIA_def
        bare_criteria_def less_stage_def)
  moreover have "can_advance s (with_failures (evaluate fp now c (strong_evidence s n)) [])"
    using strong_clears [OF c(1) n] c(2) s(2) by (simp add: can_advance_def evaluate_clears)
  ultimately show ?thesis
    using s c by (simp add: gate_step_def gate_submit_def Let_def write_stage_def eval_nat_numeral gate_eta
        standing_def record_row_def)
qed

definition climb :: "gate_event list" where
  "climb = [Desk_submits (at_time 1) (strong_evidence HISTORICAL 20000),
     Desk_submits (at_time 1) (strong_evidence CHRONOLOGICAL_OOS 20000),
     Desk_submits (at_time 1728001) (strong_evidence FORWARD_SHADOW 30000)]"

lemma climb_reaches: "\<exists>rs. run (gate_step fp) empty_gate climb = standing CANARY 1728001 30000 rs"
proof -
  obtain r1 where 1: "gate_step fp empty_gate (Desk_submits (at_time 1) (strong_evidence HISTORICAL 20000))
      = standing CHRONOLOGICAL_OOS 1 20000 r1"
    using strong_step [of empty_gate HISTORICAL CHRONOLOGICAL_OOS 20000 1 fp]
    by (auto simp: empty_gate_def current_stage_def STAGE_ORDER_def less_stage_def)
  obtain r2 where 2: "gate_step fp (standing CHRONOLOGICAL_OOS 1 20000 r1)
      (Desk_submits (at_time 1) (strong_evidence CHRONOLOGICAL_OOS 20000)) = standing FORWARD_SHADOW 1 20000 r2"
    using strong_step [of "standing CHRONOLOGICAL_OOS 1 20000 r1" CHRONOLOGICAL_OOS FORWARD_SHADOW 20000 1 fp]
    by (auto simp: less_stage_def)
  obtain r3 where 3: "gate_step fp (standing FORWARD_SHADOW 1 20000 r2)
      (Desk_submits (at_time 1728001) (strong_evidence FORWARD_SHADOW 30000)) = standing CANARY 1728001 30000 r3"
    using strong_step [of "standing FORWARD_SHADOW 1 20000 r2" FORWARD_SHADOW CANARY 30000 1728001 fp]
    by (auto simp: less_stage_def)
  show ?thesis by (rule exI [of _ r3]) (simp add: climb_def 1 2 3)
qed


end
