(* ===== verification/ExecutionEngine.thy ===== *)
theory ExecutionEngine
  imports NativeRoute TxBuilder PromotionGate
begin

text \<open>
  \<open>ExecutionEngine\<close> of \<open>execution/jupiter_jito.py\<close>: the gates before a submission, the native and the
  routed path, and what is recorded.  Relays, the router and the chain are arguments that answer a call;
  \<open>sent\<close> is a ghost: every signed transaction handed to a relay, in order.
\<close>

subsection \<open>Results\<close>

datatype route_type =
  PUMP_NATIVE | PUMPSWAP_NATIVE | JUPITER_V1 | RAYDIUM_DIRECT | ORCA_DIRECT | METEORA_DLMM | JITO_BUNDLE | RAPTOR

datatype tx_status =
  QUOTED | SIMULATED | SUBMITTED | LANDED | FILLED | FAILED | TX_TIMEOUT | REJECTED

text \<open>Every field but \<open>measurement_context\<close>, which carries telemetry for the reports.\<close>

record exec_result =
  success :: bool
  result_status :: tx_status
  result_signature :: "string option"
  bundle_id :: "string option"
  result_input :: int
  actual_input :: int
  quoted_output :: int
  filled_output :: int
  native_delta :: int
  result_slippage :: int
  fees_paid :: int
  result_priority_fee :: int
  result_tip :: int
  latency_ms :: int
  result_route :: route_type
  result_error :: "string option"
  simulated :: bool
  submitted :: bool
  landed :: bool
  filled :: bool
  result_slot :: "int option"

text \<open>\<open>ExecutionResult(success, status)\<close> with every other field at its default.\<close>

definition result_of :: "bool \<Rightarrow> tx_status \<Rightarrow> exec_result" where
  "result_of ok status =
     \<lparr>success = ok, result_status = status, result_signature = None, bundle_id = None, result_input = 0,
      actual_input = 0, quoted_output = 0, filled_output = 0, native_delta = 0, result_slippage = 0, fees_paid = 0,
      result_priority_fee = 0, result_tip = 0, latency_ms = 0, result_route = JUPITER_V1, result_error = None,
      simulated = False, submitted = False, landed = False, filled = False, result_slot = None\<rparr>"

definition effective_output :: "exec_result \<Rightarrow> int" where
  "effective_output r =
     (if filled_output r \<noteq> 0 then filled_output r else if simulated r then quoted_output r else 0)"

definition rejected :: "string \<Rightarrow> exec_result" where
  "rejected e = (result_of False REJECTED)\<lparr>result_error := Some e\<rparr>"

subsection \<open>Balances of a landed transaction\<close>

record token_balance =
  tb_mint :: string
  tb_owner :: string
  tb_amount :: int

definition balance_total :: "string \<Rightarrow> string \<Rightarrow> token_balance list \<Rightarrow> int" where
  "balance_total mint owner entries =
     sum_list (map tb_amount (filter (\<lambda>e. tb_mint e = mint \<and> tb_owner e = owner) entries))"

record tx_meta =
  meta_err :: bool
  meta_fee :: int
  pre_tokens :: "token_balance list"
  post_tokens :: "token_balance list"
  pre_balances :: "int list"
  post_balances :: "int list"
  meta_keys :: "string list"
  meta_slot :: "int option"

definition token_balance_delta :: "tx_meta \<Rightarrow> string \<Rightarrow> string \<Rightarrow> int" where
  "token_balance_delta m mint owner = max 0 (balance_total mint owner (post_tokens m) - balance_total mint owner (pre_tokens m))"

definition token_balance_decrease :: "tx_meta \<Rightarrow> string \<Rightarrow> string \<Rightarrow> int" where
  "token_balance_decrease m mint owner = max 0 (balance_total mint owner (pre_tokens m) - balance_total mint owner (post_tokens m))"

definition native_balance_delta :: "tx_meta \<Rightarrow> string \<Rightarrow> int" where
  "native_balance_delta m owner =
     (case position owner (meta_keys m) of
        None \<Rightarrow> 0
      | Some i \<Rightarrow>
          if length (pre_balances m) \<le> i \<or> length (post_balances m) \<le> i then 0
          else post_balances m ! i - pre_balances m ! i)"

record fill =
  fill_landed :: bool
  fill_filled :: bool
  fill_output :: int
  fill_input :: int
  fill_native :: int
  fill_fee :: int
  fill_slot :: "int option"

definition no_fill :: "bool \<Rightarrow> fill" where
  "no_fill l = \<lparr>fill_landed = l, fill_filled = False, fill_output = 0, fill_input = 0, fill_native = 0, fill_fee = 0,
     fill_slot = None\<rparr>"

text \<open>
  \<open>_wait_for_fill\<close>: whether the landing was seen before the deadline, and the answers to the details
  call until then (\<open>None\<close>: no transaction yet, or an exception).
\<close>

fun first_details :: "tx_meta option list \<Rightarrow> tx_meta option" where
  "first_details [] = None"
| "first_details (None # rs) = first_details rs"
| "first_details (Some m # rs) = Some m"

definition wait_for_fill :: "bool \<Rightarrow> tx_meta option list \<Rightarrow> string \<Rightarrow> string \<Rightarrow> string \<Rightarrow> fill" where
  "wait_for_fill seen replies owner input_mint output_mint =
     (if \<not> seen then no_fill False
      else case first_details replies of
        None \<Rightarrow> no_fill True
      | Some m \<Rightarrow>
          if meta_err m then (no_fill True)\<lparr>fill_slot := meta_slot m, fill_fee := meta_fee m\<rparr>
          else
            let output = token_balance_delta m output_mint owner
            in \<lparr>fill_landed = True, fill_filled = (0 < output), fill_output = output,
                fill_input = token_balance_decrease m input_mint owner, fill_native = native_balance_delta m owner,
                fill_fee = meta_fee m, fill_slot = meta_slot m\<rparr>)"

subsection \<open>The engine\<close>

record route_stats =
  stat_total :: int
  stat_landed :: int
  stat_filled :: int
  stat_failed :: int
  avg_latency :: pyfloat

definition no_stats :: route_stats where
  "no_stats = \<lparr>stat_total = 0, stat_landed = 0, stat_filled = 0, stat_failed = 0, avg_latency = 0\<rparr>"

record engine =
  dry_run :: bool
  ledger :: "gate option"
  curve_route :: "pump_route option"
  pool_route :: "swap_config option"
  builder :: tx_builder
  signer :: signer_client
  native_unit_limit :: int
  route_attempts :: "(string, nat) dict"
  dry_failures :: "(string, nat) dict"
  simulation_reasons :: "(string, nat) dict"
  history :: "exec_result list"
  performance :: "(route_type, route_stats) dict"
  sent :: "string list"

text \<open>The outcome of offering one signed transaction to every landing route.\<close>

record race_result =
  race_submitted :: bool
  accepted :: "(string, string) dict"
  race_errors :: "(string, string) dict"

record engine_world =
  market :: market
  quote_clock :: pyfloat
  solders :: sol_library
  build_answers :: build_world
  utf8_text :: "bytes \<Rightarrow> string"
  signer_connect :: "nat \<Rightarrow> string option"
  signer_io :: "nat \<Rightarrow> io_result"
  live_flag :: string
  started :: pyfloat
  now_clock :: pyfloat
  build_error_text :: "build_error \<Rightarrow> string"
  build_error_type :: "build_error \<Rightarrow> string"
  foreign_error_text :: "foreign_error \<Rightarrow> string"
  landing_race :: "string \<Rightarrow> bool \<Rightarrow> race_result"
  bundle_signature :: "string \<Rightarrow> string option"
  landing_seen :: "string \<Rightarrow> bool"
  details :: "string \<Rightarrow> tx_meta option list"
  tip_floor :: "int option"
  bid :: "int \<Rightarrow> bool \<times> int"
  routed_quote :: "(int \<times> route_type) option"
  routed_swap :: "int \<Rightarrow> int \<Rightarrow> (bytes \<times> route_type) option"
  parse_foreign :: "bytes \<Rightarrow> foreign_tx option"
  serialise_foreign :: "bytes \<Rightarrow> bytes list \<Rightarrow> bytes"
  verify_foreign :: "bytes \<Rightarrow> bytes list \<Rightarrow> nat \<Rightarrow> bool"
  send_bundle :: "string \<Rightarrow> string option"
  send_raw :: "string \<Rightarrow> string option"

definition bump_key :: "string \<Rightarrow> (string, nat) dict \<Rightarrow> (string, nat) dict" where
  "bump_key key d = dput key (dget_or d key 0 + 1) d"

definition engine_signer :: "engine_world \<Rightarrow> signer_client \<Rightarrow> bytes \<Rightarrow> signer_client \<times> (signer_error + bytes)" where
  "engine_signer W c m = sign_message (utf8_text W) (signer_connect W) (signer_io W) m c"

definition latency_of :: "engine_world \<Rightarrow> int" where
  "latency_of W = py_trunc (fmul (fsub (now_clock W) (started W)) 1000)"

subsection \<open>The gates\<close>

definition live_capital_authorised :: "engine \<Rightarrow> bool \<times> string" where
  "live_capital_authorised e =
     (case ledger e of
        None \<Rightarrow> (False, ''no promotion ledger attached; live capital requires a recorded, earned stage'')
      | Some g \<Rightarrow> authorises_live_capital g)"

definition submission_blocked :: "engine \<Rightarrow> string option" where
  "submission_blocked e =
     (if dry_run e then Some ''dry_run''
      else case live_capital_authorised e of (ok, reason) \<Rightarrow> if ok then None else Some reason)"

text \<open>\<open>if blocked:\<close>, so an empty reason would not block.\<close>

definition blocks :: "string option \<Rightarrow> bool" where
  "blocks r = (case r of None \<Rightarrow> False | Some s \<Rightarrow> s \<noteq> '''')"

definition acknowledged :: "engine_world \<Rightarrow> bool" where
  "acknowledged W \<longleftrightarrow> py_lower (live_flag W) = ''yes-i-understand''"

subsection \<open>Recording\<close>

definition record_result :: "engine \<Rightarrow> exec_result \<Rightarrow> engine" where
  "record_result e r =
     (let perf = dget_or (performance e) (result_route r) no_stats;
          total = stat_total perf + 1;
          perf = \<lparr>stat_total = total, stat_landed = stat_landed perf + (if landed r then 1 else 0),
                  stat_filled = stat_filled perf + (if filled r then 1 else 0),
                  stat_failed = stat_failed perf + (if success r then 0 else 1),
                  avg_latency = fdiv (fadd (fmul (avg_latency perf) (float_of_int (total - 1))) (float_of_int (latency_ms r)))
                    (float_of_int total)\<rparr>
      in e\<lparr>history := push_bounded 10000 r (history e), performance := dput (result_route r) perf (performance e)\<rparr>)"

subsection \<open>The native path\<close>

definition meta_to_sol :: "sol_library \<Rightarrow> account_meta \<Rightarrow> build_error + sol_meta" where
  "meta_to_sol lib m =
     rbind (of_library (address_bytes lib (pubkey m))) (\<lambda>key.
       Inr \<lparr>sm_pubkey = key, sm_signer = is_signer m, sm_writable = is_writable m\<rparr>)"

definition instruction_of :: "sol_library \<Rightarrow> prepared \<Rightarrow> build_error + sol_instruction" where
  "instruction_of lib p =
     rbind (of_library (address_bytes lib (prep_program p))) (\<lambda>program.
       rbind (rmap (meta_to_sol lib) (prep_accounts p)) (\<lambda>accounts.
         Inr \<lparr>si_program = program, si_accounts = accounts, si_data = prep_data p\<rparr>))"

text \<open>One build for the dry and the live run; a bundle pays no compute price.\<close>

definition build_native_signed :: "engine_world \<Rightarrow> engine \<Rightarrow> prepared \<Rightarrow> bool \<Rightarrow> int \<Rightarrow> engine \<times> (build_error + string)" where
  "build_native_signed W e p use_jito priority_fee =
     (case instruction_of (solders W) p of
        Inl err \<Rightarrow> (e, Inl err)
      | Inr i \<Rightarrow>
          (case build_and_sign (solders W) (engine_signer W) (builder e) (signer e) (build_answers W) [i]
                  (native_unit_limit e) (if use_jito then 0 else priority_fee) of
             (b, c, r) \<Rightarrow> (e\<lparr>builder := b, signer := c\<rparr>, r)))"

definition status_of_fill :: "fill \<Rightarrow> tx_status" where
  "status_of_fill f = (if fill_filled f then FILLED else if fill_landed f then LANDED else TX_TIMEOUT)"

definition truthy :: "string option \<Rightarrow> string option" where
  "truthy s = (if s = Some '''' then None else s)"

definition join_errors :: "(string, string) dict \<Rightarrow> string" where
  "join_errors es = concat (map (\<lambda>(i, (name, why)). (if i = 0 then '''' else ''; '') @ name @ '': '' @ why) (enumerate 0 es))"

text \<open>What a confirmed fill makes of a result; \<open>tip\<close> and \<open>fee\<close> are what the caller says it paid.\<close>

definition filled_result ::
    "engine_world \<Rightarrow> fill \<Rightarrow> string \<Rightarrow> string option \<Rightarrow> int \<Rightarrow> int \<Rightarrow> int \<Rightarrow> int \<Rightarrow> route_type \<Rightarrow> exec_result" where
  "filled_result W f signature bundle amount slippage_bps fee tip route =
     (result_of (fill_filled f) (status_of_fill f))\<lparr>result_signature := Some signature, bundle_id := bundle,
        result_input := amount, actual_input := fill_input f, filled_output := fill_output f, native_delta := fill_native f,
        result_slippage := slippage_bps, fees_paid := fill_fee f, result_priority_fee := fee, result_tip := tip,
        latency_ms := latency_of W, result_route := route,
        result_error := (if fill_filled f then None else Some ''landed transaction had no verified output balance delta''),
        submitted := True, landed := fill_landed f, filled := fill_filled f, result_slot := fill_slot f\<rparr>"

definition unconfirmed :: "string option \<Rightarrow> exec_result" where
  "unconfirmed bundle = (result_of False TX_TIMEOUT)\<lparr>bundle_id := bundle, submitted := (truthy bundle \<noteq> None),
     result_error := Some ''submitted but no landed transaction was confirmed''\<rparr>"

definition fill_of :: "engine_world \<Rightarrow> engine \<Rightarrow> string \<Rightarrow> string \<Rightarrow> string \<Rightarrow> fill" where
  "fill_of W e signature input_mint output_mint =
     wait_for_fill (landing_seen W signature) (details W signature) (builder_key (builder e)) input_mint output_mint"

text \<open>What the landing model and the bid curve record of an attempt is their own state (\<open>EngineLearning\<close>).\<close>

definition submit_signed ::
    "engine_world \<Rightarrow> engine \<Rightarrow> string \<Rightarrow> int \<Rightarrow> int \<Rightarrow> int \<Rightarrow> bool \<Rightarrow> route_type \<Rightarrow> string \<Rightarrow> string \<Rightarrow> engine \<times> exec_result" where
  "submit_signed W e tx amount slippage_bps tip use_jito route input_mint output_mint =
     (let e = e\<lparr>sent := sent e @ [tx]\<rparr>; race = landing_race W tx use_jito
      in if \<not> race_submitted race
         then (e, (result_of False FAILED)\<lparr>result_error := Some (''every landing route refused: '' @ join_errors (race_errors race))\<rparr>)
         else
           let bundle = dget (accepted race) ''jito_bundle'';
               signature = (case truthy bundle of None \<Rightarrow> None | Some b \<Rightarrow> truthy (bundle_signature W b));
               signature = (case signature of
                   None \<Rightarrow> truthy (map_option snd (List.find (\<lambda>(name, _). name \<noteq> ''jito_bundle'') (accepted race)))
                 | Some s \<Rightarrow> Some s)
           in case signature of
                None \<Rightarrow> (e, unconfirmed bundle)
              | Some s \<Rightarrow> (e, filled_result W (fill_of W e s input_mint output_mint) s bundle amount slippage_bps 0
                  (if use_jito then tip else 0) (if use_jito then JITO_BUNDLE else route)))"

definition simulate_native ::
    "engine_world \<Rightarrow> engine \<Rightarrow> prepared \<Rightarrow> curve_quote \<Rightarrow> int \<Rightarrow> int \<Rightarrow> int \<Rightarrow> bool \<Rightarrow> route_type \<Rightarrow> string \<Rightarrow> engine \<times> exec_result" where
  "simulate_native W e p quote amount slippage_bps priority_fee use_jito route reason =
     (let (e, built) = build_native_signed W e p use_jito priority_fee;
          build_error = (case built of Inr _ \<Rightarrow> '''' | Inl err \<Rightarrow> build_error_type W err @ '': '' @ build_error_text W err);
          e = (case built of
                 Inr _ \<Rightarrow> e\<lparr>route_attempts := bump_key ''dry_built'' (route_attempts e)\<rparr>
               | Inl _ \<Rightarrow> e\<lparr>route_attempts := bump_key ''dry_build_failed'' (route_attempts e),
                             dry_failures := bump_key build_error (dry_failures e)\<rparr>);
          result = (result_of True SIMULATED)\<lparr>result_input := amount, actual_input := amount,
            quoted_output := output_amount quote, result_slippage := slippage_bps, latency_ms := latency_of W,
            result_route := route, simulated := True, result_error := Some build_error\<rparr>;
          e = e\<lparr>simulation_reasons := bump_key reason (simulation_reasons e),
                route_attempts := bump_key (''simulated:'' @ prep_venue p) (bump_key ''simulated'' (route_attempts e))\<rparr>
      in (record_result e result, result))"

definition execute_native ::
    "engine_world \<Rightarrow> engine \<Rightarrow> prepared \<Rightarrow> curve_quote \<Rightarrow> int \<Rightarrow> int \<Rightarrow> int \<Rightarrow> int \<Rightarrow> bool \<Rightarrow> string \<Rightarrow> string \<Rightarrow> engine \<times> exec_result" where
  "execute_native W e p quote amount slippage_bps priority_fee tip use_jito input_mint output_mint =
     (let route = (if prep_venue p = ''pumpswap'' then PUMPSWAP_NATIVE else PUMP_NATIVE); blocked = submission_blocked e
      in if blocks blocked then simulate_native W e p quote amount slippage_bps priority_fee use_jito route (the blocked)
         else if \<not> acknowledged W
         then (e, rejected ''live submission is locked; ALLOW_LIVE_TRADING acknowledgement absent'')
         else case build_native_signed W e p use_jito priority_fee of
           (e, Inl err) \<Rightarrow> (e\<lparr>route_attempts := bump_key ''build_failed'' (route_attempts e)\<rparr>,
                          rejected (''native build failed: '' @ build_error_text W err))
         | (e, Inr tx) \<Rightarrow>
             let e = e\<lparr>route_attempts := bump_key ''submitted'' (route_attempts e)\<rparr>;
                 (e, result) = submit_signed W e tx amount slippage_bps tip use_jito route input_mint output_mint;
                 result = result\<lparr>quoted_output := output_amount quote\<rparr>
             in (record_result e result, result))"

subsection \<open>The routed path and the whole swap\<close>

text \<open>What leaves a swap as an exception: a native build that raised, or a signer that refused a routed transaction.\<close>

datatype escaped = Native_raised idl_error | Signer_raised signer_error

definition simulate_routed :: "engine_world \<Rightarrow> engine \<Rightarrow> int \<Rightarrow> int \<Rightarrow> int \<Rightarrow> route_type \<Rightarrow> engine \<times> exec_result" where
  "simulate_routed W e amount slippage_bps output route =
     (let result = (result_of True SIMULATED)\<lparr>result_input := amount, actual_input := amount, quoted_output := output,
        result_slippage := slippage_bps, latency_ms := latency_of W, result_route := route, simulated := True\<rparr>
      in (record_result e result, result))"

text \<open>Sending a signed routed transaction: a bundle, or the ordinary endpoint.\<close>

definition send_routed ::
    "engine_world \<Rightarrow> engine \<Rightarrow> string \<Rightarrow> int \<Rightarrow> int \<Rightarrow> int \<Rightarrow> int \<Rightarrow> bool \<Rightarrow> route_type \<Rightarrow> int \<Rightarrow> string \<Rightarrow> string
       \<Rightarrow> engine \<times> exec_result" where
  "send_routed W e tx amount slippage_bps priority_fee tip use_jito route output input_mint output_mint =
     (let e = e\<lparr>sent := sent e @ [tx]\<rparr>; bundle = (if use_jito then truthy (send_bundle W tx) else None)
      in if use_jito \<and> bundle = None then (e, (result_of False FAILED)\<lparr>result_error := Some ''Jito bundle rejected''\<rparr>)
         else
           (case truthy (case bundle of Some b \<Rightarrow> bundle_signature W b | None \<Rightarrow> send_raw W tx) of
              None \<Rightarrow> (e, unconfirmed bundle)
            | Some s \<Rightarrow>
                let result = (filled_result W (fill_of W e s input_mint output_mint) s bundle amount slippage_bps
                      (if use_jito then 0 else priority_fee) (if use_jito then tip else 0)
                      (if use_jito then JITO_BUNDLE else route))\<lparr>quoted_output := output\<rparr>
                in (record_result e result, result)))"

definition execute_routed ::
    "engine_world \<Rightarrow> engine \<Rightarrow> int \<Rightarrow> int \<Rightarrow> int \<Rightarrow> int \<Rightarrow> bool \<Rightarrow> string \<Rightarrow> string \<Rightarrow> engine \<times> (escaped + exec_result)" where
  "execute_routed W e amount slippage_bps priority_fee tip use_jito input_mint output_mint =
     (case routed_quote W of
        None \<Rightarrow> (e, Inr (rejected ''no executable quote''))
      | Some (output, route) \<Rightarrow>
          if output \<le> 0 then (e, Inr (rejected ''no executable quote''))
          else if blocks (submission_blocked e)
          then (case simulate_routed W e amount slippage_bps output route of (e, r) \<Rightarrow> (e, Inr r))
          else if \<not> acknowledged W
          then (e, Inr (rejected ''live submission is locked; ALLOW_LIVE_TRADING acknowledgement absent''))
          else
            (case routed_swap W (if use_jito then 0 else priority_fee) (if use_jito then tip else 0) of
               None \<Rightarrow> (e, Inr (rejected ''transaction build failed''))
             | Some (raw, route) \<Rightarrow>
                 (case sign_versioned_transaction (parse_foreign W) (serialise_foreign W) (verify_foreign W) (engine_signer W)
                         (builder_key (builder e)) (signer e) raw of
                    (c, Inl (Foreign_unsigned err)) \<Rightarrow> (e\<lparr>signer := c\<rparr>, Inl (Signer_raised err))
                  | (c, Inl err) \<Rightarrow> (e\<lparr>signer := c\<rparr>, Inr (rejected (''signing failed: '' @ foreign_error_text W err)))
                  | (c, Inr tx) \<Rightarrow>
                      (case send_routed W (e\<lparr>signer := c\<rparr>) tx amount slippage_bps priority_fee tip use_jito route output
                              input_mint output_mint of
                         (e, r) \<Rightarrow> (e, Inr r)))))"

text \<open>The tip of a bundle: the observed floor and the bid may raise it, to at most \<open>5_000_000\<close>.\<close>

definition choose_tip :: "engine_world \<Rightarrow> bool \<Rightarrow> int \<Rightarrow> int" where
  "choose_tip W use_jito tip =
     (if \<not> use_jito then tip
      else
        let observed = (case tip_floor W of None \<Rightarrow> 0 | Some t \<Rightarrow> t);
            tip = (if observed \<noteq> 0 then min (max tip observed) 5000000 else tip);
            (measured, lamports) = bid W tip
        in if measured then min (max observed lamports) 5000000 else tip)"

definition count_prepared :: "prepared option \<Rightarrow> (string, nat) dict \<Rightarrow> (string, nat) dict" where
  "count_prepared prep d =
     (case prep of
        None \<Rightarrow> d
      | Some p \<Rightarrow>
          if prep_ok p then bump_key (''prepared:'' @ prep_venue p) (bump_key ''prepared'' d)
          else bump_key (''blocked:'' @ prep_venue p @ '':'' @ prep_status p) d)"

definition execute_swap ::
    "engine_world \<Rightarrow> engine \<Rightarrow> string \<Rightarrow> string \<Rightarrow> int \<Rightarrow> int \<Rightarrow> int \<Rightarrow> int \<Rightarrow> bool \<Rightarrow> engine \<times> (escaped + exec_result)" where
  "execute_swap W e input_mint output_mint amount slippage_bps priority_fee tip use_jito =
     (if amount \<le> 0 \<or> slippage_bps \<le> 0 \<or> slippage_bps > 2000
      then (e, Inr (rejected ''hard execution invariant failed''))
      else
        let tip = choose_tip W use_jito tip
        in case prepare_native_route (market W) (curve_route e) (pool_route e) (builder_key (builder e))
                  input_mint output_mint amount slippage_bps of
             (route, Inl err) \<Rightarrow> (e\<lparr>curve_route := route\<rparr>, Inl (Native_raised err))
           | (route, Inr prep) \<Rightarrow>
               let e = e\<lparr>curve_route := route, route_attempts := count_prepared prep (route_attempts e)\<rparr>
               in case prep of
                    Some p \<Rightarrow>
                      if prep_ok p then
                        (case native_quote ((market W)\<lparr>market_clock := quote_clock W\<rparr>) input_mint output_mint amount (prep_venue p) of
                           Some quote \<Rightarrow>
                             (case execute_native W e p quote amount slippage_bps priority_fee tip use_jito input_mint output_mint of
                                (e, r) \<Rightarrow> (e, Inr r))
                         | None \<Rightarrow>
                             execute_routed W (e\<lparr>route_attempts := bump_key ''blocked:no_local_quote'' (route_attempts e)\<rparr>)
                               amount slippage_bps priority_fee tip use_jito input_mint output_mint)
                      else execute_routed W e amount slippage_bps priority_fee tip use_jito input_mint output_mint
                  | None \<Rightarrow> execute_routed W e amount slippage_bps priority_fee tip use_jito input_mint output_mint)"

definition execute_sell ::
    "engine_world \<Rightarrow> engine \<Rightarrow> string \<Rightarrow> int \<Rightarrow> int \<Rightarrow> int \<Rightarrow> int \<Rightarrow> bool \<Rightarrow> engine \<times> (escaped + exec_result)" where
  "execute_sell W e token_mint amount slippage_bps priority_fee tip use_jito =
     execute_swap W e token_mint USDC_MINT amount slippage_bps priority_fee tip use_jito"

subsection \<open>What the gates allow\<close>

text \<open>Everything a submission needs.\<close>

definition may_send :: "engine_world \<Rightarrow> engine \<Rightarrow> bool" where
  "may_send W e \<longleftrightarrow> \<not> dry_run e \<and> acknowledged W
     \<and> (\<exists>g. ledger e = Some g \<and> stage_index CANARY \<le> stage_index (current_stage g))"

lemma authorised_reason: "authorises_live_capital g = (ok, reason) \<Longrightarrow> reason \<noteq> '''' \<and> (ok \<longleftrightarrow> stage_index CANARY \<le> stage_index (current_stage g))"
  by (auto simp: authorises_live_capital_def Let_def split: if_splits)

text \<open>A refusal always names a reason, so the truth of the reason is the refusal.\<close>

lemma blocks_iff: "\<not> blocks (submission_blocked e) \<longleftrightarrow>
    \<not> dry_run e \<and> (\<exists>g. ledger e = Some g \<and> stage_index CANARY \<le> stage_index (current_stage g))"
  by (auto simp: blocks_def submission_blocked_def live_capital_authorised_def
      dest: authorised_reason split: option.splits prod.splits if_splits)

text \<open>The parts of the state a call never touches.\<close>

definition same_gates :: "engine \<Rightarrow> engine \<Rightarrow> bool" where
  "same_gates e e' \<longleftrightarrow> dry_run e' = dry_run e \<and> ledger e' = ledger e \<and> native_unit_limit e' = native_unit_limit e
     \<and> builder_key (builder e') = builder_key (builder e)"

lemma record_result_simps [simp]:
  "sent (record_result e r) = sent e" "dry_run (record_result e r) = dry_run e" "ledger (record_result e r) = ledger e"
  "native_unit_limit (record_result e r) = native_unit_limit e" "builder (record_result e r) = builder e"
  "signer (record_result e r) = signer e"
  by (simp_all add: record_result_def Let_def)

lemma build_native_signed_keeps:
  assumes "build_native_signed W e p use_jito fee = (e', r)"
  shows "sent e' = sent e \<and> same_gates e e' \<and> market W = market W"
proof (cases "instruction_of (solders W) p")
  case (Inl err)
  then show ?thesis using assms by (simp add: build_native_signed_def same_gates_def)
next
  case (Inr i)
  let ?build = "build_and_sign (solders W) (engine_signer W) (builder e) (signer e) (build_answers W) [i]
      (native_unit_limit e) (if use_jito then 0 else fee)"
  obtain b c x where b: "?build = (b, c, x)" by (metis surj_pair)
  have "builder_key b = builder_key (builder e)"
    using build_keeps_key [of "solders W" "engine_signer W" "builder e" "signer e" "build_answers W" "[i]"
      "native_unit_limit e" "if use_jito then 0 else fee"] b by simp
  then show ?thesis using assms Inr b by (auto simp: build_native_signed_def same_gates_def)
qed

text \<open>A native transaction carries what the isolated signer signed.\<close>

definition signed_by_engine :: "engine_world \<Rightarrow> engine \<Rightarrow> string \<Rightarrow> bool" where
  "signed_by_engine W e tx \<longleftrightarrow>
     (\<exists>m c signature. sign_message (utf8_text W) (signer_connect W) (signer_io W) m (signer e) = (c, Inr signature)
        \<and> ((\<exists>signatures. b64decode tx = Some (1 # signatures @ m) \<and> length signatures = 64)
         \<or> (\<exists>raw f i. parse_foreign W raw = Some f \<and> m = foreign_message f \<and> foreign_keys f ! i = builder_key (builder e)
              \<and> b64decode tx = Some (serialise_foreign W m ((foreign_signatures f)[i := signature])))))"

lemma native_signed:
  assumes "lawful (solders W)" "build_native_signed W e p use_jito fee = (e', Inr tx)"
  shows "signed_by_engine W e tx"
proof -
  obtain i b c where
    "build_and_sign (solders W) (\<lambda>c m. sign_message (utf8_text W) (signer_connect W) (signer_io W) m c) (builder e) (signer e)
       (build_answers W) [i] (native_unit_limit e) (if use_jito then 0 else fee) = (b, c, Inr tx)"
    using assms(2) by (auto simp: build_native_signed_def engine_signer_def [abs_def] split: sum.splits prod.splits)
  from isolated.build_exact [OF assms(1) this] show ?thesis unfolding signed_by_engine_def by blast
qed

lemma submit_signed_sends:
  "sent (fst (submit_signed W e tx amount s tip use_jito route i ou)) = sent e @ [tx]"
  by (simp add: submit_signed_def Let_def split: option.split)

lemma simulate_native_quiet: "sent (fst (simulate_native W e p q amount s fee use_jito route reason)) = sent e"
proof -
  obtain e1 built where b: "build_native_signed W e p use_jito fee = (e1, built)" by fastforce
  then show ?thesis using build_native_signed_keeps [OF b] by (cases built) (simp_all add: simulate_native_def Let_def)
qed

text \<open>The native path sends at most one transaction, and only through every gate.\<close>

lemma execute_native_sends:
  assumes "lawful (solders W)" "sent (fst (execute_native W e p q amount s fee tip use_jito i ou)) \<noteq> sent e"
  shows "may_send W e \<and> (\<exists>tx. sent (fst (execute_native W e p q amount s fee tip use_jito i ou)) = sent e @ [tx]
    \<and> signed_by_engine W e tx)"
proof -
  have open_gates: "\<not> blocks (submission_blocked e)" "acknowledged W"
    using assms(2) simulate_native_quiet by (auto simp: execute_native_def Let_def split: if_splits)
  obtain e1 built where b: "build_native_signed W e p use_jito fee = (e1, built)" by fastforce
  have quiet: "sent e1 = sent e" using build_native_signed_keeps [OF b] by simp
  obtain tx where tx: "built = Inr tx"
    using assms(2) open_gates b quiet by (cases built) (simp_all add: execute_native_def Let_def)
  have "sent (fst (execute_native W e p q amount s fee tip use_jito i ou)) = sent e @ [tx]"
  proof -
    let ?e = "e1\<lparr>route_attempts := bump_key ''submitted'' (route_attempts e1)\<rparr>"
      and ?route = "if prep_venue p = ''pumpswap'' then PUMPSWAP_NATIVE else PUMP_NATIVE"
    obtain e2 r where sub: "submit_signed W ?e tx amount s tip use_jito ?route i ou = (e2, r)" by fastforce
    have "sent e2 = sent e @ [tx]" using submit_signed_sends [of W ?e tx amount s tip use_jito ?route i ou] sub quiet by simp
    then show ?thesis using open_gates b tx sub by (simp add: execute_native_def Let_def)
  qed
  then show ?thesis
    using open_gates blocks_iff native_signed [OF assms(1)] b tx unfolding may_send_def by blast
qed

lemma simulate_routed_quiet: "sent (fst (simulate_routed W e amount s output route)) = sent e"
  by (simp add: simulate_routed_def Let_def)

lemma send_routed_sends:
  "sent (fst (send_routed W e tx amount s fee tip use_jito route output i ou)) = sent e @ [tx]"
  by (simp add: send_routed_def Let_def split: option.split)

lemma routed_signed:
  assumes "sign_versioned_transaction (parse_foreign W) (serialise_foreign W) (verify_foreign W) (engine_signer W)
      (builder_key (builder e)) (signer e) raw = (c, Inr tx)"
  shows "signed_by_engine W e tx"
proof -
  obtain f i signature where "parse_foreign W raw = Some f" "foreign_keys f ! i = builder_key (builder e)"
    "engine_signer W (signer e) (foreign_message f) = (c, Inr signature)"
    "b64decode tx = Some (serialise_foreign W (foreign_message f) ((foreign_signatures f)[i := signature]))"
    using foreign_signed_in_place [OF assms] by blast
  then show ?thesis unfolding signed_by_engine_def engine_signer_def by blast
qed

lemma execute_routed_sends:
  assumes "sent (fst (execute_routed W e amount s fee tip use_jito i ou)) \<noteq> sent e"
  shows "may_send W e \<and> (\<exists>tx. sent (fst (execute_routed W e amount s fee tip use_jito i ou)) = sent e @ [tx]
    \<and> signed_by_engine W e tx)"
proof -
  obtain out route where q: "routed_quote W = Some (out, route)" "0 < out"
    using assms by (auto simp: execute_routed_def split: option.splits if_splits)
  have open_gates: "\<not> blocks (submission_blocked e)" "acknowledged W"
    using assms q simulate_routed_quiet [of W e amount s out route]
    by (auto simp: execute_routed_def split: if_splits prod.splits)
  obtain raw route' where x: "routed_swap W (if use_jito then 0 else fee) (if use_jito then tip else 0) = Some (raw, route')"
    using assms q open_gates by (auto simp: execute_routed_def split: option.splits)
  let ?sign = "sign_versioned_transaction (parse_foreign W) (serialise_foreign W) (verify_foreign W) (engine_signer W)
      (builder_key (builder e)) (signer e) raw"
  obtain c res where sg: "?sign = (c, res)" by fastforce
  obtain tx where tx: "res = Inr tx"
  proof (cases res)
    case (Inl err)
    then show thesis using assms q open_gates x sg by (cases err) (simp_all add: execute_routed_def)
  qed (rule that)
  obtain e2 r where sub: "send_routed W (e\<lparr>signer := c\<rparr>) tx amount s fee tip use_jito route' out i ou = (e2, r)" by fastforce
  have "sent e2 = sent e @ [tx]"
    using send_routed_sends [of W "e\<lparr>signer := c\<rparr>" tx amount s fee tip use_jito route' out i ou] sub by simp
  then have "sent (fst (execute_routed W e amount s fee tip use_jito i ou)) = sent e @ [tx]"
    using q open_gates x sg tx sub by (simp add: execute_routed_def)
  then show ?thesis using open_gates blocks_iff routed_signed sg tx unfolding may_send_def by blast
qed

text \<open>Neither gates nor signer depend on what preparing a route changes.\<close>

lemma prepared_same:
  "may_send W (e\<lparr>curve_route := r, route_attempts := a\<rparr>) \<longleftrightarrow> may_send W e"
  "signed_by_engine W (e\<lparr>curve_route := r, route_attempts := a\<rparr>) tx \<longleftrightarrow> signed_by_engine W e tx"
  by (simp_all add: may_send_def signed_by_engine_def)

lemma execute_swap_sends:
  assumes "lawful (solders W)" "sent (fst (execute_swap W e i ou amount s fee tip use_jito)) \<noteq> sent e"
  shows "0 < amount \<and> 0 < s \<and> s \<le> 2000 \<and> may_send W e
    \<and> (\<exists>tx. sent (fst (execute_swap W e i ou amount s fee tip use_jito)) = sent e @ [tx] \<and> signed_by_engine W e tx)"
proof -
  have hard: "0 < amount" "0 < s" "s \<le> 2000" using assms(2) by (auto simp: execute_swap_def split: if_splits)
  let ?tip = "choose_tip W use_jito tip"
  obtain route prep where prep: "prepare_native_route (market W) (curve_route e) (pool_route e) (builder_key (builder e))
      i ou amount s = (route, prep)" by fastforce
  obtain native where n: "prep = Inr native"
    using assms(2) prep hard by (cases prep) (simp_all add: execute_swap_def Let_def)
  define a where "a = count_prepared native (route_attempts e)"
  let ?e = "e\<lparr>curve_route := route, route_attempts := a\<rparr>"
  have routed: "may_send W e \<and> (\<exists>tx. sent (fst (execute_routed W (e\<lparr>curve_route := route, route_attempts := b\<rparr>)
        amount s fee ?tip use_jito i ou)) = sent e @ [tx] \<and> signed_by_engine W e tx)"
    if "sent (fst (execute_routed W (e\<lparr>curve_route := route, route_attempts := b\<rparr>) amount s fee ?tip use_jito i ou)) \<noteq> sent e" for b
    using execute_routed_sends [of W "e\<lparr>curve_route := route, route_attempts := b\<rparr>" amount s fee ?tip use_jito i ou] that
    by (simp add: prepared_same)
  have native': "may_send W e \<and> (\<exists>tx. sent (fst (execute_native W ?e p q amount s fee ?tip use_jito i ou)) = sent e @ [tx]
        \<and> signed_by_engine W e tx)"
    if "sent (fst (execute_native W ?e p q amount s fee ?tip use_jito i ou)) \<noteq> sent e" for p q
    using execute_native_sends [OF assms(1), of ?e p q amount s fee ?tip use_jito i ou] that by (simp add: prepared_same)
  consider (b) b where "execute_swap W e i ou amount s fee tip use_jito =
        execute_routed W (e\<lparr>curve_route := route, route_attempts := b\<rparr>) amount s fee ?tip use_jito i ou"
    | (p) p q where "fst (execute_swap W e i ou amount s fee tip use_jito) =
        fst (execute_native W ?e p q amount s fee ?tip use_jito i ou)"
  proof (cases native)
    case None
    then show thesis using b [of a] hard prep n by (simp add: execute_swap_def a_def)
  next
    case (Some x)
    show thesis
    proof (cases "prep_ok x")
      case False
      then show thesis using b [of a] Some hard prep n by (simp add: execute_swap_def a_def)
    next
      case True
      show thesis
      proof (cases "native_quote ((market W)\<lparr>market_clock := quote_clock W\<rparr>) i ou amount (prep_venue x)")
        case None
        then show thesis
          using b [of "bump_key ''blocked:no_local_quote'' a"] Some True hard prep n by (simp add: execute_swap_def a_def)
      next
        case (Some quote)
        then show thesis
          using p [of x quote] \<open>native = Some x\<close> True hard prep n by (simp add: execute_swap_def a_def split: prod.split)
      qed
    qed
  qed
  then show ?thesis
  proof cases
    case b
    then show ?thesis using routed hard assms(2) by simp
  next
    case p
    then show ?thesis using native' hard assms(2) by simp
  qed
qed

subsection \<open>What a success rests on\<close>

lemma filled_details:
  assumes "fill_filled (wait_for_fill seen replies owner i ou)"
  shows "seen \<and> (\<exists>m. Some m \<in> set replies \<and> \<not> meta_err m
    \<and> fill_output (wait_for_fill seen replies owner i ou) =
        balance_total ou owner (post_tokens m) - balance_total ou owner (pre_tokens m)
    \<and> 0 < fill_output (wait_for_fill seen replies owner i ou))"
proof -
  have first: "Some m \<in> set rs" if "first_details rs = Some m" for m rs
    using that by (induction rs rule: first_details.induct) auto
  show ?thesis using assms first
    by (auto simp: wait_for_fill_def no_fill_def Let_def token_balance_delta_def max_def split: if_splits option.splits)
qed

text \<open>What backs a result that claims a fill.\<close>

definition backed :: "engine_world \<Rightarrow> string \<Rightarrow> string \<Rightarrow> exec_result \<Rightarrow> bool" where
  "backed W owner ou r \<longleftrightarrow>
     (\<exists>signature m. result_signature r = Some signature \<and> landing_seen W signature
        \<and> Some m \<in> set (details W signature) \<and> \<not> meta_err m
        \<and> filled_output r = balance_total ou owner (post_tokens m) - balance_total ou owner (pre_tokens m)
        \<and> 0 < filled_output r)"

lemma backed_fill:
  assumes "success (filled_result W (fill_of W e s i ou) s b amount slip fee tip route)"
  shows "backed W (builder_key (builder e)) ou (filled_result W (fill_of W e s i ou) s b amount slip fee tip route)"
proof -
  have "fill_filled (fill_of W e s i ou)" using assms by (simp add: filled_result_def result_of_def)
  from filled_details [OF this [unfolded fill_of_def]] show ?thesis
    unfolding backed_def fill_of_def [symmetric] by (auto simp: filled_result_def result_of_def)
qed

lemma backed_quoted [simp]: "backed W o' ou (r\<lparr>quoted_output := q\<rparr>) = backed W o' ou r"
  by (simp add: backed_def)

definition claims_ok :: "engine_world \<Rightarrow> engine \<Rightarrow> string \<Rightarrow> exec_result \<Rightarrow> bool" where
  "claims_ok W e ou r \<longleftrightarrow>
     (success r \<longrightarrow> (if simulated r then blocks (submission_blocked e) else backed W (builder_key (builder e)) ou r))"

lemma claims_failed [simp]:
  "\<not> success r \<Longrightarrow> claims_ok W e ou r"
  "\<not> success (rejected t)" "\<not> success (unconfirmed b)" "\<not> success (result_of False st)"
  by (simp_all add: claims_ok_def rejected_def unconfirmed_def result_of_def)

lemma submit_signed_claims:
  "claims_ok W e ou (snd (submit_signed W e tx amount s tip use_jito route i ou))
   \<and> \<not> simulated (snd (submit_signed W e tx amount s tip use_jito route i ou))"
proof -
  have key: "fill_of W (e\<lparr>sent := x\<rparr>) sg i ou = fill_of W e sg i ou" for x sg by (simp add: fill_of_def)
  have fr: "\<not> simulated (filled_result W f sg b amount s fee tp route')" for f sg b fee tp route'
    by (simp add: filled_result_def result_of_def)
  show ?thesis
    using backed_fill fr
    by (simp add: submit_signed_def Let_def key claims_ok_def unconfirmed_def result_of_def split: option.split)
qed

lemma execute_native_claims:
  "claims_ok W e ou (snd (execute_native W e p q amount s fee tip use_jito i ou))"
proof (cases "blocks (submission_blocked e)")
  case True
  then show ?thesis
    by (simp add: execute_native_def simulate_native_def Let_def claims_ok_def result_of_def split: prod.split)
next
  case False
  obtain e1 built where b: "build_native_signed W e p use_jito fee = (e1, built)" by fastforce
  show ?thesis
  proof (cases built)
    case (Inl err)
    then show ?thesis using False b by (simp add: execute_native_def Let_def)
  next
    case (Inr tx)
    let ?e = "e1\<lparr>route_attempts := bump_key ''submitted'' (route_attempts e1)\<rparr>"
      and ?route = "if prep_venue p = ''pumpswap'' then PUMPSWAP_NATIVE else PUMP_NATIVE"
    obtain e2 r where sub: "submit_signed W ?e tx amount s tip use_jito ?route i ou = (e2, r)" by fastforce
    have key: "builder_key (builder ?e) = builder_key (builder e)"
      using build_native_signed_keeps [OF b] by (simp add: same_gates_def)
    have "claims_ok W ?e ou r" "\<not> simulated r"
      using submit_signed_claims [of W ?e ou tx amount s tip use_jito ?route i] sub by simp_all
    then have "claims_ok W e ou (r\<lparr>quoted_output := output_amount q\<rparr>)" using key by (simp add: claims_ok_def)
    then show ?thesis using False b Inr sub by (simp add: execute_native_def Let_def)
  qed
qed

lemma send_routed_claims:
  "claims_ok W e ou (snd (send_routed W (e\<lparr>signer := c\<rparr>) tx amount s fee tip use_jito route out i ou))"
proof -
  have key: "fill_of W (e\<lparr>signer := c, sent := x\<rparr>) sg i ou = fill_of W e sg i ou" for x sg by (simp add: fill_of_def)
  have fr: "\<not> simulated (filled_result W f sg b amount s fe tp route')" for f sg b fe tp route'
    by (simp add: filled_result_def result_of_def)
  show ?thesis
    using backed_fill fr
    by (simp add: send_routed_def Let_def key claims_ok_def unconfirmed_def result_of_def split: option.split)
qed

lemma execute_routed_claims:
  assumes "snd (execute_routed W e amount s fee tip use_jito i ou) = Inr r"
  shows "claims_ok W e ou r"
proof -
  have sim: "claims_ok W e ou r'" if "blocks (submission_blocked e)" "simulate_routed W e amount s out route = (e', r')"
    for out route e' r'
    using that by (auto simp: simulate_routed_def Let_def claims_ok_def result_of_def)
  have send: "claims_ok W e ou r'"
    if "send_routed W (e\<lparr>signer := c\<rparr>) tx amount s fee tip use_jito route out i ou = (e', r')" for c tx route out e' r'
    using send_routed_claims [of W e ou c tx amount s fee tip use_jito route out i] that by simp
  show ?thesis
    using assms sim send
    by (auto simp: execute_routed_def split: option.splits if_splits prod.splits sum.splits foreign_error.splits)
qed

lemma execute_swap_claims:
  assumes "snd (execute_swap W e i ou amount s fee tip use_jito) = Inr r"
  shows "claims_ok W e ou r"
proof -
  have same: "claims_ok W (e\<lparr>curve_route := x, route_attempts := y\<rparr>) ou r \<longleftrightarrow> claims_ok W e ou r" for x y
    by (simp add: claims_ok_def submission_blocked_def live_capital_authorised_def)
  have routed: "claims_ok W e ou r"
    if "execute_routed W (e\<lparr>curve_route := x, route_attempts := y\<rparr>) amount s fee t use_jito i ou = (e', Inr r)" for x y t e'
    using execute_routed_claims [of W "e\<lparr>curve_route := x, route_attempts := y\<rparr>" amount s fee t use_jito i ou r] that
    by (simp add: same)
  have native: "claims_ok W e ou r"
    if "execute_native W (e\<lparr>curve_route := x, route_attempts := y\<rparr>) p q amount s fee t use_jito i ou = (e', r)" for x y p q t e'
    using execute_native_claims [of W "e\<lparr>curve_route := x, route_attempts := y\<rparr>" ou p q amount s fee t use_jito i] that
    by (simp add: same)
  obtain e' where ex: "execute_swap W e i ou amount s fee tip use_jito = (e', Inr r)"
    using assms by (cases "execute_swap W e i ou amount s fee tip use_jito") simp
  show ?thesis
    using ex routed native
    by (auto simp: execute_swap_def Let_def split: if_splits prod.splits sum.splits option.splits)
qed

text \<open>The output a caller reads is the filled one on every live result; a quote shows only on a simulated one.\<close>

lemma live_output_is_the_fill: "\<not> simulated r \<Longrightarrow> effective_output r = filled_output r"
  by (simp add: effective_output_def)

lemma live_success_output:
  assumes "snd (execute_swap W e i ou amount s fee tip use_jito) = Inr r" "success r" "\<not> simulated r"
  shows "0 < effective_output r"
  using execute_swap_claims [OF assms(1)] assms(2,3) by (auto simp: claims_ok_def backed_def live_output_is_the_fill)

subsection \<open>What the code does not do\<close>

text \<open>
  A native transaction sent as a bundle carries neither a tip nor a price: the tip is no argument of the
  build, and the price is set to zero because \<open>Jito bids through the tip account\<close>; the result still
  reports the tip as paid.
\<close>

lemma native_bundle_pays_nothing:
  "build_native_signed W e p True fee = build_native_signed W e p True 0"
  "success (snd (submit_signed W e tx amount s tip True route i ou)) \<Longrightarrow>
     result_tip (snd (submit_signed W e tx amount s tip True route i ou)) = tip"
  by (simp_all add: build_native_signed_def submit_signed_def filled_result_def unconfirmed_def result_of_def Let_def
      split: option.splits if_splits)

text \<open>A refusal of the signer is a result on the native path and an exception on the routed one.\<close>

lemma routed_refusal_escapes:
  assumes "routed_quote W = Some (out, route)" "0 < out" "\<not> blocks (submission_blocked e)" "acknowledged W"
    "routed_swap W (if use_jito then 0 else fee) (if use_jito then tip else 0) = Some (raw, route')"
    "sign_versioned_transaction (parse_foreign W) (serialise_foreign W) (verify_foreign W) (engine_signer W)
       (builder_key (builder e)) (signer e) raw = (c, Inl (Foreign_unsigned err))"
  shows "snd (execute_routed W e amount s fee tip use_jito i ou) = Inl (Signer_raised err)"
  using assms by (simp add: execute_routed_def)

text \<open>A sale goes to USDC, so it never takes a native route.\<close>

lemma sell_never_native:
  "token_mint \<noteq> WSOL_MINT \<Longrightarrow> prepare_native_route M r sw user token_mint USDC_MINT amount s = (r, Inr None)"
  by (simp add: prepare_native_route_def sol_pair_def USDC_MINT_def WSOL_MINT_def)

subsection \<open>Properties\<close>

text \<open>
  C1: money moves only when earned: a swap sends at most one transaction, and when it sends one the desk
  is not in dry run, the acknowledgement is set, the amount and slippage are within the hard limits, the
  promotion ledger (after any history of submissions and demotions) holds for every stage below the canary
  a passing verdict on evidence that clears its shipped bar, and what was sent carries a signature the
  isolated signer gave for exactly the message inside it.
\<close>

theorem submission_earned:
  assumes "lawful (solders W)" "ledger e = Some (run (gate_step fp) empty_gate evs)"
    and "sent (fst (execute_swap W e i ou amount s fee tip use_jito)) \<noteq> sent e"
  shows "\<not> dry_run e \<and> py_lower (live_flag W) = ''yes-i-understand'' \<and> 0 < amount \<and> 0 < s \<and> s \<le> 2000
    \<and> (\<forall>st < CANARY. \<exists>row c. row \<in> set (rows (run (gate_step fp) empty_gate evs)) \<and> passed (row_verdict row)
         \<and> dget DEFAULT_CRITERIA st = Some c \<and> clears c (row_evidence row))
    \<and> (\<exists>tx m c signature. sent (fst (execute_swap W e i ou amount s fee tip use_jito)) = sent e @ [tx]
         \<and> sign_message (utf8_text W) (signer_connect W) (signer_io W) m (signer e) = (c, Inr signature)
         \<and> ((\<exists>signatures. b64decode tx = Some (1 # signatures @ m) \<and> length signatures = 64)
          \<or> (\<exists>raw f k. parse_foreign W raw = Some f \<and> m = foreign_message f \<and> foreign_keys f ! k = builder_key (builder e)
               \<and> b64decode tx = Some (serialise_foreign W m ((foreign_signatures f)[k := signature])))))"
proof -
  let ?l = "run (gate_step fp) empty_gate evs"
  note sends = execute_swap_sends [OF assms(1,3)]
  then have canary: "CANARY \<le> current_stage ?l" using assms(2) by (simp add: may_send_def less_eq_stage_def)
  have "earned_inv ?l" by (rule ladder.run_inv [OF empty_gate_inv])
  then have "\<exists>row c. row \<in> set (rows ?l) \<and> passed (row_verdict row) \<and> dget DEFAULT_CRITERIA st = Some c \<and> clears c (row_evidence row)"
    if "st < CANARY" for st
    using less_le_trans [OF that canary] unfolding earned_inv_def earned_row_def by blast
  moreover obtain tx where "sent (fst (execute_swap W e i ou amount s fee tip use_jito)) = sent e @ [tx]" "signed_by_engine W e tx"
    using sends by blast
  ultimately show ?thesis using sends unfolding signed_by_engine_def may_send_def acknowledged_def by blast
qed

text \<open>
  C3: a swap reports success only on evidence: a simulated success only while a gate is closed, any
  other only when the landing was seen and a confirmed transaction without error raised the wallet's
  balance of the bought mint by exactly the reported, positive amount.
\<close>

theorem success_needs_evidence:
  assumes "snd (execute_swap W e i ou amount s fee tip use_jito) = Inr r" "success r"
  shows "if simulated r
    then dry_run e \<or> (\<forall>g. ledger e = Some g \<longrightarrow> current_stage g < CANARY)
    else \<exists>signature m. result_signature r = Some signature \<and> landing_seen W signature
      \<and> Some m \<in> set (details W signature) \<and> \<not> meta_err m \<and> 0 < filled_output r
      \<and> filled_output r = sum_list (map tb_amount (filter (\<lambda>b. tb_mint b = ou \<and> tb_owner b = builder_key (builder e)) (post_tokens m)))
          - sum_list (map tb_amount (filter (\<lambda>b. tb_mint b = ou \<and> tb_owner b = builder_key (builder e)) (pre_tokens m)))"
proof -
  have c: "if simulated r then blocks (submission_blocked e) else backed W (builder_key (builder e)) ou r"
    using execute_swap_claims [OF assms(1)] assms(2) by (simp add: claims_ok_def)
  show ?thesis
  proof (cases "simulated r")
    case True
    then show ?thesis using c blocks_iff [of e] by (auto simp: less_stage_def)
  next
    case False
    then show ?thesis using c unfolding backed_def balance_total_def by auto
  qed
qed

text \<open>A desk that reached the canary, and a world in which a routed purchase lands.\<close>

definition live_engine :: "gate \<Rightarrow> engine" where
  "live_engine g =
     \<lparr>dry_run = False, ledger = Some g, curve_route = None, pool_route = None, builder = sample_builder, signer = idle_client,
      native_unit_limit = 400000, route_attempts = [], dry_failures = [], simulation_reasons = [], history = [],
      performance = [], sent = []\<rparr>"

definition landed_meta :: tx_meta where
  "landed_meta = \<lparr>meta_err = False, meta_fee = 5000, pre_tokens = [],
     post_tokens = [\<lparr>tb_mint = ''M'', tb_owner = ''K'', tb_amount = 9\<rparr>], pre_balances = [], post_balances = [], meta_keys = [],
     meta_slot = None\<rparr>"

definition live_world :: engine_world where
  "live_world =
     \<lparr>market = sample_market, quote_clock = 0, solders = sample_library, build_answers = sample_world, utf8_text = bytes_text,
      signer_connect = (\<lambda>_. None), signer_io = (\<lambda>_. Io_frame STATUS_OK (replicate 64 7)), live_flag = ''yes-i-understand'',
      started = 0, now_clock = 0, build_error_text = (\<lambda>_. ''''), build_error_type = (\<lambda>_. ''''), foreign_error_text = (\<lambda>_. ''''),
      landing_race = (\<lambda>_ _. \<lparr>race_submitted = False, accepted = [], race_errors = []\<rparr>), bundle_signature = (\<lambda>_. None),
      landing_seen = (\<lambda>_. True), details = (\<lambda>_. [None, Some landed_meta]), tip_floor = None, bid = (\<lambda>t. (False, t)),
      routed_quote = Some (9, JUPITER_V1), routed_swap = (\<lambda>_ _. Some ([5], JUPITER_V1)),
      parse_foreign = (\<lambda>_. Some \<lparr>foreign_message = [1], foreign_keys = [''K''], required_signatures = 1, foreign_signatures = [[]]\<rparr>),
      serialise_foreign = (\<lambda>m sigs. m @ concat sigs), verify_foreign = (\<lambda>_ _ _. True), send_bundle = (\<lambda>_. None),
      send_raw = (\<lambda>_. Some ''S'')\<rparr>"

lemma live_swap:
  assumes "stage_index CANARY \<le> stage_index (current_stage g)"
  obtains e' r where "execute_swap live_world (live_engine g) WSOL_MINT ''M'' 5 100 0 0 False = (e', Inr r)"
    "sent e' \<noteq> []" "success r" "\<not> simulated r"
proof -
  have gates: "\<not> blocks (submission_blocked (live_engine g\<lparr>curve_route := None, route_attempts := []\<rparr>))" "acknowledged live_world"
    using assms blocks_iff by (simp_all add: live_engine_def acknowledged_def live_world_def py_lower_def lower_char_def Let_def)
  have prep: "prepare_native_route (market live_world) None None key WSOL_MINT ''M'' 5 100 = (None, Inr None)" for key
    by (simp add: prepare_native_route_def sol_pair_def traded_mint_def WSOL_MINT_def live_world_def sample_market_def
        prepare_curve_route_def Let_def)
  have signed: "\<exists>c tx. sign_versioned_transaction (parse_foreign live_world) (serialise_foreign live_world) (verify_foreign live_world)
      (engine_signer live_world) ''K'' idle_client [5] = (c, Inr tx)"
    by (simp add: sign_versioned_transaction_def live_world_def engine_signer_def sign_message_def client_frame_def attempt_def
        idle_client_def encode_request_def MAX_FRAME_def Let_def)
  then obtain c tx where sg: "sign_versioned_transaction (parse_foreign live_world) (serialise_foreign live_world)
      (verify_foreign live_world) (engine_signer live_world) ''K'' idle_client [5] = (c, Inr tx)" by blast
  have key: "builder_key (builder (live_engine g)) = ''K''" "signer (live_engine g) = idle_client"
    by (simp_all add: live_engine_def sample_builder_def new_builder_def)
  show thesis
    using that gates prep sg key
    by (simp add: execute_swap_def execute_routed_def count_prepared_def choose_tip_def Let_def live_engine_def)
      (simp add: live_world_def send_routed_def truthy_def fill_of_def wait_for_fill_def landed_meta_def token_balance_delta_def
        balance_total_def filled_result_def result_of_def Let_def sample_builder_def new_builder_def)
qed

lemma climbed: "stage_index CANARY \<le> stage_index (current_stage (run (gate_step (\<lambda>_. [])) empty_gate climb))"
  using climb_reaches [of "\<lambda>_. []"] by auto

theorem submission_earned_witness:
  "\<exists>row. row \<in> set (rows (run (gate_step (\<lambda>_. [])) empty_gate climb)) \<and> passed (row_verdict row)"
proof -
  let ?g = "run (gate_step (\<lambda>_. [])) empty_gate climb"
  obtain e' r where s: "execute_swap live_world (live_engine ?g) WSOL_MINT ''M'' 5 100 0 0 False = (e', Inr r)" "sent e' \<noteq> []"
    using climbed by (rule live_swap)
  have "lawful (solders live_world)" by (simp add: live_world_def lawful_def sample_library_def)
  moreover have "ledger (live_engine ?g) = Some ?g" by (simp add: live_engine_def)
  moreover have "sent (fst (execute_swap live_world (live_engine ?g) WSOL_MINT ''M'' 5 100 0 0 False)) \<noteq> sent (live_engine ?g)"
    using s by (simp add: live_engine_def)
  ultimately have "\<forall>st < CANARY. \<exists>row c. row \<in> set (rows ?g) \<and> passed (row_verdict row) \<and> dget DEFAULT_CRITERIA st = Some c
      \<and> clears c (row_evidence row)" by (rule submission_earned [THEN conjunct2, THEN conjunct2, THEN conjunct2, THEN conjunct2, THEN conjunct2, THEN conjunct1])
  moreover have "HISTORICAL < CANARY" by (simp add: less_stage_def)
  ultimately show ?thesis by blast
qed

theorem success_needs_evidence_witness:
  "\<exists>e' r. execute_swap live_world (live_engine (run (gate_step (\<lambda>_. [])) empty_gate climb)) WSOL_MINT ''M'' 5 100 0 0 False
      = (e', Inr r) \<and> 0 < filled_output r"
proof -
  let ?e = "live_engine (run (gate_step (\<lambda>_. [])) empty_gate climb)"
  obtain e' r where s: "execute_swap live_world ?e WSOL_MINT ''M'' 5 100 0 0 False = (e', Inr r)" "success r" "\<not> simulated r"
    using climbed by (rule live_swap)
  then have "snd (execute_swap live_world ?e WSOL_MINT ''M'' 5 100 0 0 False) = Inr r" by simp
  from success_needs_evidence [OF this s(2)] s(3) have "0 < filled_output r" by auto
  with s(1) show ?thesis by blast
qed

end
