(* ===== verification/LandingRouter.thy ===== *)
theory LandingRouter
  imports Interfaces PyText "HOL-Library.Product_Lexorder"
begin

text \<open>
  \<open>execution/landing_router.py\<close>: one signed payload fanned out over every enabled landing mechanism, and
  what each of them is credited with.  The router is a step relation over registrations, races, late
  acknowledgements and resolutions; the lemmas show that a race hands every route the same bytes, that
  no counter outruns the one it is a part of, and how routes are ranked.
\<close>

subsection \<open>Routes and their counters\<close>

record route =
  route_name :: string
  route_kind :: string
  surcharge_lamports :: int
  route_enabled :: bool
  route_detail :: string
  requires_bundle :: bool

record router_stats =
  rs_attempts :: nat
  rs_accepted :: nat
  rs_first :: nat
  rs_landed :: nat
  rs_failures :: nat
  rs_ack_ms :: pyfloat
  rs_net_usd :: pyfloat
  rs_resolved :: nat
  rs_error :: string

definition no_router_stats :: router_stats where
  "no_router_stats = \<lparr>rs_attempts = 0, rs_accepted = 0, rs_first = 0, rs_landed = 0, rs_failures = 0, rs_ack_ms = 0,
     rs_net_usd = 0, rs_resolved = 0, rs_error = ''''\<rparr>"

definition MIN_ATTEMPTS_FOR_RATE :: nat where
  "MIN_ATTEMPTS_FOR_RATE = 30"

definition measured :: "router_stats \<Rightarrow> bool" where
  "measured s \<longleftrightarrow> MIN_ATTEMPTS_FOR_RATE \<le> rs_resolved s"

definition round2 :: "pyfloat \<Rightarrow> pyfloat" where
  "round2 x = fl (of_int (round_half_even (x * 100)) / 100)"

definition reported_rate :: "router_stats \<Rightarrow> pyfloat option" where
  "reported_rate s =
     (if \<not> measured s then None
      else Some (fl (of_int (round_half_even (int_div (int (rs_landed s)) (int (rs_resolved s)) * 10000)) / 10000)))"

record race_outcome =
  race_identifier :: string
  winner :: string
  winner_kind :: string
  ack_ms :: "pyfloat option"
  attempted :: "string list"
  race_accepted :: "(string, string) dict"
  race_refused :: "(string, string) dict"
  race_landed :: "bool option"

definition new_outcome :: "string list \<Rightarrow> race_outcome" where
  "new_outcome names = \<lparr>race_identifier = '''', winner = '''', winner_kind = '''', ack_ms = None, attempted = names,
     race_accepted = [], race_refused = [], race_landed = None\<rparr>"

definition race_submitted_any :: "race_outcome \<Rightarrow> bool" where
  "race_submitted_any out \<longleftrightarrow> race_accepted out \<noteq> []"

text \<open>
  The router.  \<open>min_attempts\<close> is the constructor's argument.  \<open>handed\<close> and \<open>in_flight\<close> are ghosts: every
  submission as \<open>(race, route, payload)\<close>, and the routes launched whose answer has not been folded in.
\<close>

record router =
  race_timeout :: pyfloat
  min_attempts :: int
  routes :: "(string, route) dict"
  stats :: "(string, router_stats) dict"
  races :: nat
  races_without_acceptance :: nat
  pending :: "(string, race_outcome) dict"
  handed :: "(nat \<times> string \<times> string) list"
  in_flight :: "string list"

definition new_router :: "pyfloat \<Rightarrow> int \<Rightarrow> router" where
  "new_router wait least = \<lparr>race_timeout = wait, min_attempts = least, routes = [], stats = [], races = 0,
     races_without_acceptance = 0, pending = [], handed = [], in_flight = []\<rparr>"

definition register :: "route \<Rightarrow> router \<Rightarrow> router" where
  "register r R = R\<lparr>routes := dput (route_name r) r (routes R),
     stats := (if dget (stats R) (route_name r) = None then dput (route_name r) no_router_stats (stats R) else stats R)\<rparr>"

definition enabled_routes :: "bool \<Rightarrow> router \<Rightarrow> route list" where
  "enabled_routes bundle_capable R =
     filter (\<lambda>r. route_enabled r \<and> (bundle_capable \<or> \<not> requires_bundle r)) (map snd (routes R))"

subsection \<open>The race\<close>

text \<open>
  What \<open>attempt\<close> returns for a route: the identifier, the milliseconds since the start, and the text of
  an exception.
\<close>

record route_answer =
  from_route :: route
  answer_id :: "string option"
  answer_ms :: pyfloat
  answer_error :: string

definition refused_answer :: "route_answer \<Rightarrow> bool" where
  "refused_answer a \<longleftrightarrow> answer_error a \<noteq> '''' \<or> answer_id a = None \<or> answer_id a = Some ''''"

definition refusal_text :: "route_answer \<Rightarrow> string" where
  "refusal_text a = (if answer_error a \<noteq> '''' then answer_error a else ''route returned no identifier'')"

definition bump_stats :: "string \<Rightarrow> (router_stats \<Rightarrow> router_stats) \<Rightarrow> (string, router_stats) dict \<Rightarrow> (string, router_stats) dict" where
  "bump_stats name f d = (case dget d name of None \<Rightarrow> d | Some s \<Rightarrow> dput name (f s) d)"

definition note_refusal :: "route_answer \<Rightarrow> router_stats \<Rightarrow> router_stats" where
  "note_refusal a s = s\<lparr>rs_failures := rs_failures s + 1, rs_error := refusal_text a\<rparr>"

definition note_acceptance :: "route_answer \<Rightarrow> router_stats \<Rightarrow> router_stats" where
  "note_acceptance a s = s\<lparr>rs_accepted := rs_accepted s + 1, rs_ack_ms := fadd (rs_ack_ms s) (answer_ms a)\<rparr>"

definition note_first :: "router_stats \<Rightarrow> router_stats" where
  "note_first s = s\<lparr>rs_first := rs_first s + 1\<rparr>"

text \<open>One finished task of the race.\<close>

definition settle_answer :: "route_answer \<Rightarrow> router \<times> race_outcome \<Rightarrow> router \<times> race_outcome" where
  "settle_answer a RO =
     (case RO of (R, out) \<Rightarrow>
        let name = route_name (from_route a); R = R\<lparr>in_flight := remove1 name (in_flight R)\<rparr>
        in if refused_answer a
           then (R\<lparr>stats := bump_stats name (note_refusal a) (stats R)\<rparr>,
                 out\<lparr>race_refused := dput name (refusal_text a) (race_refused out)\<rparr>)
           else
             let id = the (answer_id a);
                 R = R\<lparr>stats := bump_stats name (note_acceptance a) (stats R)\<rparr>;
                 out = out\<lparr>race_accepted := dput name id (race_accepted out)\<rparr>
             in if winner out = ''''
                then (R\<lparr>stats := bump_stats name note_first (stats R)\<rparr>,
                      out\<lparr>winner := name, winner_kind := route_kind (from_route a), race_identifier := id,
                         ack_ms := Some (round2 (answer_ms a))\<rparr>)
                else (R, out))"

text \<open>
  The waiting loop: each round of \<open>asyncio.wait\<close> answers with the tasks that finished, in some order; an
  empty round is the deadline.  The round with the first acknowledgement is the last one waited for.
\<close>

fun race_rounds :: "route_answer list list \<Rightarrow> router \<times> race_outcome \<Rightarrow> router \<times> race_outcome" where
  "race_rounds [] RO = RO"
| "race_rounds (finished # rounds) RO =
     (if finished = [] then RO
      else let RO = fold settle_answer finished RO
           in if winner (snd RO) \<noteq> '''' then RO else race_rounds rounds RO)"

definition launch :: "string \<Rightarrow> route list \<Rightarrow> router \<Rightarrow> router" where
  "launch payload rs R =
     R\<lparr>races := races R + 1,
       stats := fold (\<lambda>r. bump_stats (route_name r) (\<lambda>s. s\<lparr>rs_attempts := rs_attempts s + 1\<rparr>)) rs (stats R),
       handed := handed R @ map (\<lambda>r. (races R, route_name r, payload)) rs,
       in_flight := in_flight R @ map route_name rs\<rparr>"

definition race :: "string \<Rightarrow> bool \<Rightarrow> route_answer list list \<Rightarrow> router \<Rightarrow> router \<times> race_outcome" where
  "race signed_tx bundle_capable rounds R =
     (let rs = enabled_routes bundle_capable R; out = new_outcome (map route_name rs)
      in if rs = [] then (R, out\<lparr>race_refused := [(''router'', ''no enabled landing route'')]\<rparr>)
         else
           case race_rounds rounds (launch signed_tx rs R, out) of (R', out) \<Rightarrow>
             if winner out = ''''
             then (R'\<lparr>races_without_acceptance := races_without_acceptance R' + 1,
                     in_flight := in_flight R\<rparr>, out)
             else if race_identifier out \<noteq> '''' then (R'\<lparr>pending := dput (race_identifier out) out (pending R')\<rparr>, out)
             else (R', out))"

definition fold_late :: "route_answer \<Rightarrow> router \<Rightarrow> router" where
  "fold_late a R =
     (let name = route_name (from_route a); R = R\<lparr>in_flight := remove1 name (in_flight R)\<rparr>
      in R\<lparr>stats := bump_stats name (if refused_answer a then note_refusal a else note_acceptance a) (stats R)\<rparr>)"

subsection \<open>Resolutions\<close>

definition note_resolved :: "bool \<Rightarrow> pyfloat \<Rightarrow> router_stats \<Rightarrow> router_stats" where
  "note_resolved did_land net s =
     (let s = s\<lparr>rs_resolved := rs_resolved s + 1\<rparr>
      in if did_land then s\<lparr>rs_landed := rs_landed s + 1, rs_net_usd := fadd (rs_net_usd s) net\<rparr> else s)"

definition record_landing :: "string \<Rightarrow> bool \<Rightarrow> pyfloat \<Rightarrow> router \<Rightarrow> router \<times> race_outcome option" where
  "record_landing ident did_land net R =
     (case dget (pending R) ident of
        None \<Rightarrow> (R, None)
      | Some out \<Rightarrow>
          (R\<lparr>pending := dpop ident (pending R),
             stats := fold (\<lambda>name. bump_stats name (note_resolved did_land net)) (dkeys (race_accepted out)) (stats R)\<rparr>,
           Some (out\<lparr>race_landed := Some did_land\<rparr>)))"

definition forget :: "string \<Rightarrow> router \<Rightarrow> router" where
  "forget ident R = R\<lparr>pending := dpop ident (pending R)\<rparr>"

subsection \<open>Ranking and the report\<close>

definition rank_key :: "router \<Rightarrow> string \<Rightarrow> int \<times> pyfloat" where
  "rank_key R name =
     (case dget (stats R) name of
        None \<Rightarrow> (1, 0)
      | Some s \<Rightarrow> if \<not> measured s then (1, 0) else (0, - int_div (int (rs_landed s)) (int (max 1 (rs_resolved s)))))"

text \<open>\<open>sorted\<close> is stable, so the declaration index at the end of the code's key breaks ties as the sort does.\<close>

definition ranked :: "router \<Rightarrow> string list" where
  "ranked R = sort_key (rank_key R) (dkeys (routes R))"

definition router_status :: "router \<Rightarrow> string \<times> string" where
  "router_status R =
     (let enabled = filter route_enabled (map snd (routes R));
          kinds = remdups (map route_kind enabled);
          known = filter (\<lambda>name. case dget (stats R) name of None \<Rightarrow> False | Some s \<Rightarrow> measured s) (dkeys (routes R))
      in if enabled = [] then (''DATA_BLOCKED'', ''no landing route is enabled'')
         else if length kinds < 2
         then (''DEGRADED'', ''only one landing mechanism ('' @ hd kinds @ ''); ''
                 @ ''regions of one mechanism fail together, which is the case racing was supposed to cover'')
         else if known = []
         then (''OK'', ''racing '' @ nat_str (length kinds) @ '' mechanisms; no route has enough ''
                 @ ''resolved attempts for its landing rate to mean anything yet'')
         else (''OK'', ''''))"

subsection \<open>The router as a step relation\<close>

text \<open>
  The answers of a race come from the routes it launched, each at most once and in the rounds waited
  for; an answer after the race comes from a route still in flight.
\<close>

definition race_answers :: "bool \<Rightarrow> route_answer list list \<Rightarrow> router \<Rightarrow> bool" where
  "race_answers bundle_capable rounds R \<longleftrightarrow>
     distinct (map (\<lambda>a. route_name (from_route a)) (concat rounds))
     \<and> (\<forall>a\<in>set (concat rounds). from_route a \<in> set (enabled_routes bundle_capable R))"

inductive router_step :: "router \<Rightarrow> router \<Rightarrow> bool" where
  Registered: "route_name r \<noteq> '''' \<Longrightarrow> router_step R (register r R)"
| Raced: "race_answers bundle_capable rounds R \<Longrightarrow> router_step R (fst (race signed_tx bundle_capable rounds R))"
| Folded: "route_name (from_route a) \<in> set (in_flight R) \<Longrightarrow> router_step R (fold_late a R)"
| Resolved: "router_step R (fst (record_landing ident did_land net R))"
| Forgotten: "router_step R (forget ident R)"

inductive_cases router_stepE: "router_step R R'"

inductive reachable_router :: "pyfloat \<Rightarrow> int \<Rightarrow> router \<Rightarrow> bool" for wait least where
  Start: "reachable_router wait least (new_router wait least)"
| Step: "reachable_router wait least R \<Longrightarrow> router_step R R' \<Longrightarrow> reachable_router wait least R'"

subsection \<open>Dictionaries of counters\<close>

lemma dget_bump_stats:
  "dget (bump_stats m f d) n = (if n = m then map_option f (dget d n) else dget d n)"
  by (simp add: bump_stats_def split: option.split)

lemma dkeys_bump_stats [simp]: "dkeys (bump_stats m f d) = dkeys d"
proof (cases "dget d m")
  case (Some s)
  then have "m \<in> set (dkeys d)" by (metis dget_None_iff option.distinct(1))
  then show ?thesis using Some by (simp add: bump_stats_def dkeys_dput_old)
qed (simp add: bump_stats_def)

lemma dget_fold_bump:
  "distinct names \<Longrightarrow> dget (fold (\<lambda>m. bump_stats m f) names d) n = (if n \<in> set names then map_option f (dget d n) else dget d n)"
  by (induction names arbitrary: d) (auto simp: dget_bump_stats)

lemma dkeys_fold_bump [simp]: "dkeys (fold (\<lambda>m. bump_stats (g m) f) ms d) = dkeys d"
  by (induction ms arbitrary: d) simp_all

definition total_of :: "(router_stats \<Rightarrow> nat) \<Rightarrow> (string, router_stats) dict \<Rightarrow> nat" where
  "total_of g d = sum_list (map (\<lambda>kv. g (snd kv)) d)"

lemma total_bump:
  assumes "distinct (dkeys d)" "dget d m = Some s"
  shows "total_of g (bump_stats m f d) + g s = total_of g d + g (f s)"
proof -
  have "total_of g (dput m v e) + g s = total_of g e + g v" if "distinct (dkeys e)" "dget e m = Some s" for e v
    using that by (induction e) (auto simp: total_of_def dget_None_iff)
  then show ?thesis using assms by (simp add: bump_stats_def)
qed

lemma total_bump_same: "(\<And>s. g (f s) = g s) \<Longrightarrow> distinct (dkeys d) \<Longrightarrow> total_of g (bump_stats m f d) = total_of g d"
  using total_bump [of d m _ g f] by (cases "dget d m") (auto simp: bump_stats_def)

lemma total_fold_bump_same:
  "(\<And>s. g (f s) = g s) \<Longrightarrow> distinct (dkeys d) \<Longrightarrow> total_of g (fold (\<lambda>m. bump_stats (h m) f) ms d) = total_of g d"
  by (induction ms arbitrary: d) (simp_all add: total_bump_same)

text \<open>How many unresolved races a route accepted.\<close>

definition carries :: "string \<Rightarrow> race_outcome \<Rightarrow> bool" where
  "carries n out \<longleftrightarrow> n \<in> set (dkeys (race_accepted out))"

lemma carries_dput: "race_accepted out' = dput m i (race_accepted out) \<Longrightarrow> carries n out' \<longleftrightarrow> n = m \<or> carries n out"
  by (simp only: carries_def set_dkeys_dput insert_iff)

definition unresolved :: "string \<Rightarrow> (string, race_outcome) dict \<Rightarrow> nat" where
  "unresolved n d = length (filter (\<lambda>kv. carries n (snd kv)) d)"

lemma unresolved_simps [simp]:
  "unresolved n [] = 0" "unresolved n (kv # d) = (if carries n (snd kv) then unresolved n d + 1 else unresolved n d)"
  by (simp_all add: unresolved_def)

lemma unresolved_dput: "unresolved n (dput i out d) \<le> unresolved n d + (if carries n out then 1 else 0)"
  by (induction d) auto

lemma set_dpopD: "x \<in> set (dpop i d) \<Longrightarrow> x \<in> set d"
  by (induction d) (auto split: if_splits)

lemma unresolved_dpop_le: "unresolved n (dpop i d) \<le> unresolved n d"
  by (induction d) auto

lemma unresolved_dpop:
  "dget d i = Some out \<Longrightarrow> unresolved n (dpop i d) + (if carries n out then 1 else 0) \<le> unresolved n d"
proof (induction d)
  case (Cons kv d)
  show ?case
  proof (cases "fst kv = i")
    case True
    then show ?thesis using Cons.prems unresolved_dpop_le [of n i d] by (cases kv) auto
  next
    case False
    then have "unresolved n (dpop i d) + (if carries n out then 1 else 0) \<le> unresolved n d" using Cons by (cases kv) auto
    then show ?thesis using False by (cases kv) auto
  qed
qed simp

subsection \<open>The invariant\<close>

definition counters_ok :: "router_stats \<Rightarrow> nat \<Rightarrow> nat \<Rightarrow> bool" where
  "counters_ok s waiting flying \<longleftrightarrow>
     rs_first s \<le> rs_accepted s \<and> rs_landed s \<le> rs_resolved s \<and> rs_resolved s + waiting \<le> rs_accepted s
     \<and> rs_accepted s + rs_failures s + flying \<le> rs_attempts s"

lemma counters_ok_mono: "counters_ok s w k \<Longrightarrow> w' \<le> w \<Longrightarrow> k' \<le> k \<Longrightarrow> counters_ok s w' k'"
  by (auto simp: counters_ok_def)

definition routes_ok :: "router \<Rightarrow> bool" where
  "routes_ok R \<longleftrightarrow> distinct (dkeys (routes R)) \<and> distinct (dkeys (stats R))
     \<and> (\<forall>kv\<in>set (routes R). route_name (snd kv) = fst kv \<and> fst kv \<noteq> '''' \<and> dget (stats R) (fst kv) \<noteq> None)"

definition pending_ok :: "router \<Rightarrow> bool" where
  "pending_ok R \<longleftrightarrow> (\<forall>out\<in>snd ` set (pending R). distinct (dkeys (race_accepted out)))"

definition handed_ok :: "router \<Rightarrow> bool" where
  "handed_ok R \<longleftrightarrow> (\<forall>(i, n, p)\<in>set (handed R). i < races R \<and> (\<forall>(i', n', p')\<in>set (handed R). i' = i \<longrightarrow> p' = p))"

definition router_ok :: "router \<Rightarrow> bool" where
  "router_ok R \<longleftrightarrow> routes_ok R \<and> pending_ok R \<and> handed_ok R
     \<and> (\<forall>n s. dget (stats R) n = Some s \<longrightarrow> counters_ok s (unresolved n (pending R)) (count_list (in_flight R) n))
     \<and> (\<forall>n. dget (stats R) n = None \<longrightarrow> unresolved n (pending R) = 0 \<and> count_list (in_flight R) n = 0)
     \<and> races R = races_without_acceptance R + total_of rs_first (stats R)"

lemma enabled_routes_ok:
  assumes "routes_ok R"
  shows "distinct (map route_name (enabled_routes b R))"
    and "r \<in> set (enabled_routes b R) \<Longrightarrow> route_name r \<noteq> '''' \<and> dget (stats R) (route_name r) \<noteq> None"
proof -
  have "route_name (snd kv) = fst kv" if "kv \<in> set (routes R)" for kv
    using assms that unfolding routes_ok_def by blast
  then have "map (\<lambda>kv. route_name (snd kv)) (routes R) = dkeys (routes R)" by (rule map_cong [OF refl])
  then have "map route_name (map snd (routes R)) = dkeys (routes R)" unfolding map_map comp_def .
  moreover have "distinct (dkeys (routes R))" using assms unfolding routes_ok_def by blast
  ultimately have "distinct (map route_name (map snd (routes R)))" by (simp only:)
  then show "distinct (map route_name (enabled_routes b R))" unfolding enabled_routes_def by (rule distinct_map_filter)
  show "r \<in> set (enabled_routes b R) \<Longrightarrow> route_name r \<noteq> '''' \<and> dget (stats R) (route_name r) \<noteq> None"
  proof -
    assume "r \<in> set (enabled_routes b R)"
    then obtain kv where "kv \<in> set (routes R)" "snd kv = r" unfolding enabled_routes_def by auto
    then show "route_name r \<noteq> '''' \<and> dget (stats R) (route_name r) \<noteq> None"
      using assms unfolding routes_ok_def by metis
  qed
qed

text \<open>
  The invariant inside a race: \<open>U\<close> are the launched routes not yet settled, \<open>base\<close> counts what was in
  flight before the race and \<open>firsts\<close> the first receipts before it.
\<close>

definition racing :: "router \<Rightarrow> string set \<Rightarrow> nat \<Rightarrow> router \<times> race_outcome \<Rightarrow> bool" where
  "racing R0 U firsts RO \<longleftrightarrow> (case RO of (R, out) \<Rightarrow>
     routes R = routes R0 \<and> dkeys (stats R) = dkeys (stats R0) \<and> pending R = pending R0
     \<and> races R = races R0 + 1 \<and> races_without_acceptance R = races_without_acceptance R0
     \<and> distinct (dkeys (race_accepted out))
     \<and> (\<forall>n. count_list (in_flight R) n = count_list (in_flight R0) n + (if n \<in> U then 1 else 0))
     \<and> (\<forall>n. dget (stats R0) n = None \<longrightarrow> \<not> carries n out \<and> n \<notin> U)
     \<and> (\<forall>n s. dget (stats R) n = Some s \<longrightarrow>
          counters_ok s (unresolved n (pending R0) + (if carries n out then 1 else 0))
            (count_list (in_flight R) n))
     \<and> total_of rs_first (stats R) = firsts + (if winner out = '''' then 0 else 1))"

lemma count_list_remove1: "count_list (remove1 m xs) n = count_list xs n - (if n = m then 1 else 0)"
  by (induction xs) auto

lemma count_list_distinct: "distinct xs \<Longrightarrow> count_list xs n = (if n \<in> set xs then 1 else 0)"
  by (induction xs) auto

lemma settle_answer_cases:
  assumes "settle_answer a (R, out) = (R', out')"
  defines "m \<equiv> route_name (from_route a)"
  shows "routes R' = routes R" "pending R' = pending R" "races R' = races R"
    "races_without_acceptance R' = races_without_acceptance R" "handed R' = handed R"
    "in_flight R' = remove1 m (in_flight R)" "dkeys (stats R') = dkeys (stats R)"
    "n \<noteq> m \<Longrightarrow> dget (stats R') n = dget (stats R) n"
    "refused_answer a \<Longrightarrow> dget (stats R') m = map_option (note_refusal a) (dget (stats R) m)
       \<and> race_accepted out' = race_accepted out \<and> winner out' = winner out
       \<and> stats R' = bump_stats m (note_refusal a) (stats R)"
    "\<not> refused_answer a \<Longrightarrow> race_accepted out' = dput m (the (answer_id a)) (race_accepted out)
       \<and> (if winner out = '''' then winner out' = m \<and> stats R' = bump_stats m note_first (bump_stats m (note_acceptance a) (stats R))
          else winner out' = winner out \<and> stats R' = bump_stats m (note_acceptance a) (stats R))"
  using assms(1) by (auto simp: settle_answer_def Let_def m_def dget_bump_stats split: if_splits)

lemma settle_total:
  assumes "settle_answer a (R, out) = (R', out')" "distinct (dkeys (stats R))"
    "dget (stats R) (route_name (from_route a)) \<noteq> None" "route_name (from_route a) \<noteq> ''''"
  shows "total_of rs_first (stats R') + (if winner out = '''' then 0 else 1)
    = total_of rs_first (stats R) + (if winner out' = '''' then 0 else 1)"
proof -
  let ?m = "route_name (from_route a)" and ?acc = "bump_stats (route_name (from_route a)) (note_acceptance a) (stats R)"
  have same: "total_of rs_first ?acc = total_of rs_first (stats R)"
    "total_of rs_first (bump_stats ?m (note_refusal a) (stats R)) = total_of rs_first (stats R)"
    by (rule total_bump_same [OF _ assms(2)]; simp add: note_acceptance_def note_refusal_def)+
  obtain s where "dget ?acc ?m = Some s" using assms(3) by (auto simp: dget_bump_stats)
  from total_bump [OF _ this, of rs_first note_first]
  have "total_of rs_first (bump_stats ?m note_first ?acc) = total_of rs_first (stats R) + 1"
    using assms(2) same(1) by (simp add: note_first_def)
  then show ?thesis
    using settle_answer_cases(9,10) [OF assms(1)] same assms(4) by (cases "refused_answer a") (auto split: if_splits)
qed

lemma settle_counters:
  assumes "settle_answer a (R, out) = (R', out')" "dget (stats R') n = Some s'"
  obtains s where "dget (stats R) n = Some s" "rs_landed s' = rs_landed s" "rs_resolved s' = rs_resolved s"
    "rs_attempts s' = rs_attempts s" "rs_first s' \<le> rs_first s + rs_accepted s' - rs_accepted s" "rs_accepted s \<le> rs_accepted s'"
    "rs_accepted s' + rs_failures s' = rs_accepted s + rs_failures s + (if n = route_name (from_route a) then 1 else 0)"
    "(if carries n out' then 1 else 0) + rs_accepted s \<le> (if carries n out then 1 else 0) + rs_accepted s'"
proof -
  note c = settle_answer_cases [OF assms(1)]
  show ?thesis
  proof (cases "n = route_name (from_route a)")
    case False
    then have "dget (stats R) n = Some s'" using c(8) assms(2) by simp
    moreover have "carries n out' = carries n out"
      using c(9,10) False by (cases "refused_answer a") (simp add: carries_def, simp add: carries_dput)
    ultimately show ?thesis using that False by simp
  next
    case True
    show ?thesis
    proof (cases "refused_answer a")
      case refused: True
      then have "map_option (note_refusal a) (dget (stats R) n) = Some s'"
        using c(9) [THEN conjunct1] assms(2) True by metis
      then obtain s where "dget (stats R) n = Some s" "s' = note_refusal a s" by auto
      then show ?thesis using that [of s] c(9) [OF refused] True by (simp add: note_refusal_def carries_def)
    next
      case False
      then obtain s where s: "dget (stats R) n = Some s" "s' = note_acceptance a s \<or> s' = note_first (note_acceptance a s)"
        using c(10) assms(2) True by (auto simp: dget_bump_stats split: if_splits)
      have "rs_accepted s' = rs_accepted s + 1" using s(2) by (auto simp: note_acceptance_def note_first_def)
      then show ?thesis using that [of s] s True by (auto simp: note_acceptance_def note_first_def)
    qed
  qed
qed

lemma settle_racing:
  assumes "racing R0 U firsts (R, out)" "route_name (from_route a) \<in> U" "route_name (from_route a) \<noteq> ''''"
    "routes_ok R0" "dget (stats R0) (route_name (from_route a)) \<noteq> None"
  shows "racing R0 (U - {route_name (from_route a)}) firsts (settle_answer a (R, out))
    \<and> handed (fst (settle_answer a (R, out))) = handed R"
proof -
  let ?m = "route_name (from_route a)"
  obtain R' out' where step: "settle_answer a (R, out) = (R', out')" by fastforce
  note c = settle_answer_cases [OF step]
  have inv: "routes R = routes R0" "dkeys (stats R) = dkeys (stats R0)" "pending R = pending R0" "races R = races R0 + 1"
    "races_without_acceptance R = races_without_acceptance R0" "distinct (dkeys (race_accepted out))"
    "\<And>n. count_list (in_flight R) n = count_list (in_flight R0) n + (if n \<in> U then 1 else 0)"
    "\<And>n s. dget (stats R) n = Some s \<Longrightarrow>
          counters_ok s (unresolved n (pending R0) + (if carries n out then 1 else 0)) (count_list (in_flight R) n)"
    "total_of rs_first (stats R) = firsts + (if winner out = '''' then 0 else 1)"
    "\<And>n. dget (stats R0) n = None \<Longrightarrow> \<not> carries n out \<and> n \<notin> U"
    using assms(1) unfolding racing_def prod.case by blast+
  have d: "distinct (dkeys (stats R))" "dget (stats R) ?m \<noteq> None"
    using assms(4,5) inv(2) by (auto simp: routes_ok_def dget_None_iff simp del: not_None_eq)
  have total: "total_of rs_first (stats R') = firsts + (if winner out' = '''' then 0 else 1)"
    using settle_total [OF step d assms(3)] inv(9) by simp
  have flying: "count_list (in_flight R') n = count_list (in_flight R0) n + (if n \<in> U - {?m} then 1 else 0)" for n
    using inv(7) [of n] assms(2) by (auto simp add: c(6) count_list_remove1)
  have counters: "counters_ok s' (unresolved n (pending R0) + (if carries n out' then 1 else 0)) (count_list (in_flight R') n)"
    if s': "dget (stats R') n = Some s'" for n s'
  proof -
    obtain s where s: "dget (stats R) n = Some s" "rs_landed s' = rs_landed s" "rs_resolved s' = rs_resolved s"
      "rs_attempts s' = rs_attempts s" "rs_first s' \<le> rs_first s + rs_accepted s' - rs_accepted s" "rs_accepted s \<le> rs_accepted s'"
      "rs_accepted s' + rs_failures s' = rs_accepted s + rs_failures s + (if n = ?m then 1 else 0)"
      "(if carries n out' then 1 else 0) + rs_accepted s \<le> (if carries n out then 1 else 0) + rs_accepted s'"
      by (rule settle_counters [OF step s'])
    have "counters_ok s (unresolved n (pending R0) + (if carries n out then 1 else 0)) (count_list (in_flight R) n)"
      by (rule inv(8) [OF s(1)])
    then show ?thesis
      using s(2-8) inv(7) [of n] flying [of n] assms(2) unfolding counters_ok_def by (auto split: if_splits)
  qed
  have "distinct (dkeys (race_accepted out'))"
    using c(9,10) inv(6) by (cases "refused_answer a") auto
  moreover have "\<not> carries n out' \<and> n \<notin> U - {?m}" if "dget (stats R0) n = None" for n
    using c(9,10) inv(10) [OF that] assms(5) that
    by (cases "refused_answer a") (simp add: carries_def, auto simp: carries_dput)
  ultimately show ?thesis
    unfolding step racing_def using c(1-5,7) inv(1-6) total flying counters by auto
qed

lemma fold_settle_racing:
  assumes "racing R0 U firsts (R, out)" "distinct (map (\<lambda>a. route_name (from_route a)) as)"
    "\<forall>a\<in>set as. route_name (from_route a) \<in> U \<and> from_route a \<in> set (enabled_routes b R0)" "routes_ok R0"
  shows "racing R0 (U - (\<lambda>a. route_name (from_route a)) ` set as) firsts (fold settle_answer as (R, out))
    \<and> handed (fst (fold settle_answer as (R, out))) = handed R"
  using assms(1-3)
proof (induction as arbitrary: R out U)
  case (Cons a as)
  let ?m = "route_name (from_route a)"
  obtain R' out' where step: "settle_answer a (R, out) = (R', out')" by fastforce
  have m: "?m \<in> U" "?m \<noteq> ''''" "dget (stats R0) ?m \<noteq> None"
    using Cons.prems(3) enabled_routes_ok(2) [OF assms(4), of "from_route a" b] by auto
  have nx: "racing R0 (U - {?m}) firsts (R', out')" "handed R' = handed R"
    using settle_racing [OF Cons.prems(1) m(1,2) assms(4) m(3)] step by simp_all
  have rest: "\<forall>a\<in>set as. route_name (from_route a) \<in> U - {?m} \<and> from_route a \<in> set (enabled_routes b R0)"
  proof
    fix x assume x: "x \<in> set as"
    then have "route_name (from_route x) \<noteq> ?m" using Cons.prems(2) by (metis (no_types, lifting) distinct.simps(2) image_eqI list.simps(9) set_map)
    then show "route_name (from_route x) \<in> U - {?m} \<and> from_route x \<in> set (enabled_routes b R0)" using Cons.prems(3) x by simp
  qed
  have "U - {?m} - (\<lambda>a. route_name (from_route a)) ` set as = U - (\<lambda>a. route_name (from_route a)) ` set (a # as)" by auto
  then show ?case using Cons.IH [OF nx(1) _ rest] Cons.prems(2) nx(2) step by simp
qed (use assms in simp)

lemma race_rounds_racing:
  assumes "racing R0 U firsts (R, out)" "distinct (map (\<lambda>a. route_name (from_route a)) (concat rounds))"
    "\<forall>a\<in>set (concat rounds). route_name (from_route a) \<in> U \<and> from_route a \<in> set (enabled_routes b R0)" "routes_ok R0"
  shows "\<exists>U'. racing R0 U' firsts (race_rounds rounds (R, out)) \<and> handed (fst (race_rounds rounds (R, out))) = handed R"
  using assms(1-3)
proof (induction rounds arbitrary: R out U)
  case (Cons finished rounds)
  obtain R' out' where f: "fold settle_answer finished (R, out) = (R', out')" by fastforce
  have nx: "racing R0 (U - (\<lambda>a. route_name (from_route a)) ` set finished) firsts (R', out')" "handed R' = handed R"
    using fold_settle_racing [OF Cons.prems(1) _ _ assms(4), of finished b] Cons.prems(2,3) f by auto
  have "\<exists>U'. racing R0 U' firsts (race_rounds rounds (R', out')) \<and> handed (fst (race_rounds rounds (R', out'))) = handed R'"
  proof (rule Cons.IH [OF nx(1)])
    show "distinct (map (\<lambda>a. route_name (from_route a)) (concat rounds))" using Cons.prems(2) by simp
    show "\<forall>a\<in>set (concat rounds). route_name (from_route a) \<in> U - (\<lambda>a. route_name (from_route a)) ` set finished
        \<and> from_route a \<in> set (enabled_routes b R0)"
    proof
      fix x assume x: "x \<in> set (concat rounds)"
      have "(\<lambda>a. route_name (from_route a)) ` set finished \<inter> (\<lambda>a. route_name (from_route a)) ` set (concat rounds) = {}"
        using Cons.prems(2) by (simp only: concat.simps map_append distinct_append set_map)
      then show "route_name (from_route x) \<in> U - (\<lambda>a. route_name (from_route a)) ` set finished
          \<and> from_route x \<in> set (enabled_routes b R0)"
        using Cons.prems(3) x by (auto simp del: set_concat)
    qed
  qed
  then show ?case using nx f Cons.prems(1) by (auto simp: Let_def)
qed auto

lemma launch_racing:
  assumes "router_ok R"
  shows "racing R (set (map route_name (enabled_routes b R))) (total_of rs_first (stats R))
    (launch payload (enabled_routes b R) R, new_outcome names)"
proof -
  let ?rs = "enabled_routes b R"
  let ?f = "\<lambda>s. s\<lparr>rs_attempts := rs_attempts s + 1\<rparr>"
  have ok: "routes_ok R" and c: "\<And>n s. dget (stats R) n = Some s \<Longrightarrow> counters_ok s (unresolved n (pending R)) (count_list (in_flight R) n)"
    using assms by (simp_all add: router_ok_def)
  have dis: "distinct (map route_name ?rs)" by (rule enabled_routes_ok(1) [OF ok])
  have fold: "fold (\<lambda>r. bump_stats (route_name r) ?f) ?rs d = fold (\<lambda>m. bump_stats m ?f) (map route_name ?rs) d" for d
    by (simp add: fold_map comp_def)
  have get: "dget (fold (\<lambda>r. bump_stats (route_name r) ?f) ?rs (stats R)) n
      = (if n \<in> set (map route_name ?rs) then map_option ?f (dget (stats R) n) else dget (stats R) n)" for n
    unfolding fold by (rule dget_fold_bump [OF dis])
  have count: "count_list (map route_name ?rs) n = (if n \<in> set (map route_name ?rs) then 1 else 0)" for n
    by (rule count_list_distinct [OF dis])
  have tot: "total_of rs_first (fold (\<lambda>r. bump_stats (route_name r) ?f) ?rs (stats R)) = total_of rs_first (stats R)"
    by (rule total_fold_bump_same) (use ok in \<open>simp_all add: routes_ok_def\<close>)
  have counters: "counters_ok s' (unresolved n (pending R)) (count_list (in_flight R) n + count_list (map route_name ?rs) n)"
    if "dget (fold (\<lambda>r. bump_stats (route_name r) ?f) ?rs (stats R)) n = Some s'" for n s'
  proof (cases "n \<in> set (map route_name ?rs)")
    case True
    then have "map_option ?f (dget (stats R) n) = Some s'" using that unfolding get by (simp only: if_True)
    then obtain s where s: "dget (stats R) n = Some s" "s' = ?f s" by auto
    show ?thesis using c [OF s(1)] unfolding s(2) count if_P [OF True] by (simp add: counters_ok_def)
  next
    case False
    then have "dget (stats R) n = Some s'" using that unfolding get by (simp only: if_False)
    then show ?thesis using c [of n s'] unfolding count if_not_P [OF False] by simp
  qed
  have known: "n \<notin> set (map route_name ?rs)" if "dget (stats R) n = None" for n
  proof
    assume "n \<in> set (map route_name ?rs)"
    then obtain x where "x \<in> set ?rs" "n = route_name x" by auto
    then show False using enabled_routes_ok(2) [OF ok, of x b] that by blast
  qed
  show ?thesis
    unfolding racing_def launch_def new_outcome_def prod.case
    using counters tot known by (simp add: carries_def count_list_append count del: One_nat_def add_Suc_right)
qed

lemma routes_ok_cong: "routes R' = routes R \<Longrightarrow> dkeys (stats R') = dkeys (stats R) \<Longrightarrow> routes_ok R \<Longrightarrow> routes_ok R'"
  unfolding routes_ok_def by (metis dget_None_iff)

lemma race_ok:
  assumes "router_ok R" "race_answers b rounds R"
  shows "router_ok (fst (race payload b rounds R))"
proof (cases "enabled_routes b R = []")
  case True
  then show ?thesis using assms(1) by (simp add: race_def Let_def)
next
  case False
  let ?rs = "enabled_routes b R" and ?names = "map route_name (enabled_routes b R)"
  have ok: "routes_ok R" "pending_ok R" "handed_ok R"
    and races: "races R = races_without_acceptance R + total_of rs_first (stats R)"
    and counters: "\<And>n s. dget (stats R) n = Some s \<Longrightarrow> counters_ok s (unresolved n (pending R)) (count_list (in_flight R) n)"
    and unknown: "\<And>n. dget (stats R) n = None \<Longrightarrow> unresolved n (pending R) = 0 \<and> count_list (in_flight R) n = 0"
    using assms(1) unfolding router_ok_def by blast+
  obtain R' out where rr: "race_rounds rounds (launch payload ?rs R, new_outcome ?names) = (R', out)" by fastforce
  have answers: "distinct (map (\<lambda>a. route_name (from_route a)) (concat rounds))"
    "\<forall>a\<in>set (concat rounds). route_name (from_route a) \<in> set ?names \<and> from_route a \<in> set (enabled_routes b R)"
    using assms(2) by (auto simp: race_answers_def)
  obtain U where rac: "racing R U (total_of rs_first (stats R)) (R', out)" and handed: "handed R' = handed (launch payload ?rs R)"
    using race_rounds_racing [OF launch_racing [OF assms(1), where names = ?names and payload = payload] answers ok(1)]
    unfolding rr by auto
  have inv: "routes R' = routes R" "dkeys (stats R') = dkeys (stats R)" "pending R' = pending R" "races R' = races R + 1"
    "races_without_acceptance R' = races_without_acceptance R" "distinct (dkeys (race_accepted out))"
    "\<And>n. count_list (in_flight R') n = count_list (in_flight R) n + (if n \<in> U then 1 else 0)"
    "\<And>n s. dget (stats R') n = Some s \<Longrightarrow>
          counters_ok s (unresolved n (pending R) + (if carries n out then 1 else 0)) (count_list (in_flight R') n)"
    "total_of rs_first (stats R') = total_of rs_first (stats R) + (if winner out = '''' then 0 else 1)"
    "\<And>n. dget (stats R) n = None \<Longrightarrow> \<not> carries n out \<and> n \<notin> U"
    using rac unfolding racing_def prod.case by blast+
  have r: "routes_ok R'" by (rule routes_ok_cong [OF inv(1,2) ok(1)])
  have h: "handed R' = handed R @ map (\<lambda>r. (races R, route_name r, payload)) ?rs"
    using handed by (simp add: launch_def)
  have handed_ok: "\<forall>(i, n, p)\<in>set (handed R'). i < races R + 1 \<and> (\<forall>(i', n', p')\<in>set (handed R'). i' = i \<longrightarrow> p' = p)"
    using ok(3) unfolding h handed_ok_def by (fastforce simp: less_Suc_eq)
  have none: "dget (stats R') n = None \<longleftrightarrow> dget (stats R) n = None" for n using inv(2) by (metis dget_None_iff)
  show ?thesis
  proof (cases "winner out = ''''")
    case True
    have c: "counters_ok s (unresolved n (pending R)) (count_list (in_flight R) n)" if "dget (stats R') n = Some s" for n s
      by (rule counters_ok_mono [OF inv(8) [OF that]]) (simp_all add: inv(7))
    have res: "fst (race payload b rounds R) = R'\<lparr>races_without_acceptance := races_without_acceptance R' + 1, in_flight := in_flight R\<rparr>"
      using False True rr by (simp add: race_def Let_def)
    show ?thesis unfolding res router_ok_def
      using r ok(2) handed_ok c inv(3-5,9) races True unknown none by (simp add: routes_ok_def pending_ok_def handed_ok_def)
  next
    case won: False
    let ?P = "if race_identifier out \<noteq> '''' then dput (race_identifier out) out (pending R') else pending R'"
    have res: "fst (race payload b rounds R) = R'\<lparr>pending := ?P\<rparr>"
      using False won rr by (simp add: race_def Let_def)
    have c: "counters_ok s (unresolved n ?P) (count_list (in_flight R') n)" if "dget (stats R') n = Some s" for n s
      by (rule counters_ok_mono [OF inv(8) [OF that]]) (use unresolved_dput [of n "race_identifier out" out "pending R"] in \<open>auto simp add: inv(3)\<close>)
    have p: "\<forall>x\<in>snd ` set ?P. distinct (dkeys (race_accepted x))"
      using ok(2) inv(3,6) unfolding pending_ok_def by (auto dest: set_dputD)
    have u: "unresolved n ?P = 0 \<and> count_list (in_flight R') n = 0" if "dget (stats R) n = None" for n
      using unresolved_dput [of n "race_identifier out" out "pending R"] unknown [OF that] inv(10) [OF that] inv(7) [of n]
      by (simp add: inv(3))
    show ?thesis unfolding res router_ok_def
      using r handed_ok c p u inv(4,5,9) races won none by (simp add: routes_ok_def pending_ok_def handed_ok_def)
  qed
qed

lemma fold_late_ok:
  assumes "router_ok R" "route_name (from_route a) \<in> set (in_flight R)"
  shows "router_ok (fold_late a R)"
proof -
  let ?m = "route_name (from_route a)"
  let ?f = "if refused_answer a then note_refusal a else note_acceptance a"
  have ok: "routes_ok R" "pending_ok R" "handed_ok R" "races R = races_without_acceptance R + total_of rs_first (stats R)"
    and counters: "\<And>n s. dget (stats R) n = Some s \<Longrightarrow> counters_ok s (unresolved n (pending R)) (count_list (in_flight R) n)"
    and unknown: "\<And>n. dget (stats R) n = None \<Longrightarrow> unresolved n (pending R) = 0 \<and> count_list (in_flight R) n = 0"
    using assms(1) unfolding router_ok_def by blast+
  have none: "dget (bump_stats ?m ?f (stats R)) n = None \<longleftrightarrow> dget (stats R) n = None" for n by (simp add: dget_bump_stats)
  have tot: "total_of rs_first (bump_stats ?m ?f (stats R)) = total_of rs_first (stats R)"
    using ok(1) by (intro total_bump_same) (simp_all add: routes_ok_def note_refusal_def note_acceptance_def)
  have pos: "0 < count_list (in_flight R) ?m" using assms(2) by (metis count_list_0_iff gr_zeroI)
  have c: "counters_ok s' (unresolved n (pending R)) (count_list (remove1 ?m (in_flight R)) n)"
    if "dget (bump_stats ?m ?f (stats R)) n = Some s'" for n s'
  proof (cases "n = ?m")
    case True
    then have "map_option ?f (dget (stats R) n) = Some s'" using that by (simp only: dget_bump_stats if_True refl)
    then obtain s where s: "dget (stats R) n = Some s" "s' = ?f s" by (metis map_option_eq_Some)
    show ?thesis using counters [OF s(1)] pos True
      by (auto simp: s(2) counters_ok_def count_list_remove1 note_refusal_def note_acceptance_def)
  next
    case False
    then show ?thesis using counters that by (simp add: dget_bump_stats count_list_remove1)
  qed
  have r: "routes_ok (R\<lparr>stats := bump_stats ?m ?f (stats R), in_flight := remove1 ?m (in_flight R)\<rparr>)"
    by (rule routes_ok_cong [OF _ _ ok(1)]) simp_all
  have res: "fold_late a R = R\<lparr>stats := bump_stats ?m ?f (stats R), in_flight := remove1 ?m (in_flight R)\<rparr>"
    by (simp add: fold_late_def Let_def)
  show ?thesis unfolding res router_ok_def using r c tot ok(2-4) unknown none
    by (simp add: pending_ok_def handed_ok_def count_list_remove1)
qed

lemma record_landing_ok:
  assumes "router_ok R"
  shows "router_ok (fst (record_landing ident did_land net R))"
proof (cases "dget (pending R) ident")
  case None
  then show ?thesis using assms by (simp add: record_landing_def)
next
  case (Some out)
  let ?f = "note_resolved did_land net"
  have ok: "routes_ok R" "pending_ok R" "handed_ok R" "races R = races_without_acceptance R + total_of rs_first (stats R)"
    and counters: "\<And>n s. dget (stats R) n = Some s \<Longrightarrow> counters_ok s (unresolved n (pending R)) (count_list (in_flight R) n)"
    and unknown: "\<And>n. dget (stats R) n = None \<Longrightarrow> unresolved n (pending R) = 0 \<and> count_list (in_flight R) n = 0"
    using assms unfolding router_ok_def by blast+
  have dis: "distinct (dkeys (race_accepted out))"
    using ok(2) map_of_SomeD [OF Some] unfolding pending_ok_def by force
  let ?S = "fold (\<lambda>m. bump_stats m ?f) (dkeys (race_accepted out)) (stats R)"
  have get: "dget ?S n = (if carries n out then map_option ?f (dget (stats R) n) else dget (stats R) n)" for n
    unfolding carries_def by (rule dget_fold_bump [OF dis])
  have tot: "total_of rs_first ?S = total_of rs_first (stats R)"
    by (rule total_fold_bump_same) (use ok(1) in \<open>simp_all add: routes_ok_def note_resolved_def Let_def\<close>)
  have c: "counters_ok s' (unresolved n (dpop ident (pending R))) (count_list (in_flight R) n)" if "dget ?S n = Some s'" for n s'
  proof (cases "carries n out")
    case True
    then have "map_option ?f (dget (stats R) n) = Some s'" using that get by simp
    then obtain s where s: "dget (stats R) n = Some s" "s' = ?f s" by auto
    show ?thesis using counters [OF s(1)] unresolved_dpop [OF Some, of n] True
      by (auto simp: s(2) counters_ok_def note_resolved_def Let_def)
  next
    case False
    then have "dget (stats R) n = Some s'" using that get by simp
    from counters_ok_mono [OF counters [OF this] unresolved_dpop_le] show ?thesis by simp
  qed
  have r: "routes_ok (R\<lparr>pending := dpop ident (pending R), stats := ?S\<rparr>)"
    by (rule routes_ok_cong [OF _ _ ok(1)]) simp_all
  have p: "\<forall>x\<in>snd ` set (dpop ident (pending R)). distinct (dkeys (race_accepted x))"
    using ok(2) unfolding pending_ok_def by (auto dest: set_dpopD)
  have res: "fst (record_landing ident did_land net R) = R\<lparr>pending := dpop ident (pending R), stats := ?S\<rparr>"
    using Some by (simp add: record_landing_def)
  have u: "unresolved n (dpop ident (pending R)) = 0 \<and> count_list (in_flight R) n = 0" if "dget ?S n = None" for n
    using that unknown [of n] unresolved_dpop_le [of n ident "pending R"] by (simp add: get split: if_splits)
  show ?thesis unfolding res router_ok_def using r p c u tot ok(3,4) by (simp add: pending_ok_def handed_ok_def)
qed

lemma register_ok:
  assumes "router_ok R" "route_name r \<noteq> ''''"
  shows "router_ok (register r R)"
proof -
  have ok: "routes_ok R" "pending_ok R" "handed_ok R" "races R = races_without_acceptance R + total_of rs_first (stats R)"
    and counters: "\<And>n s. dget (stats R) n = Some s \<Longrightarrow> counters_ok s (unresolved n (pending R)) (count_list (in_flight R) n)"
    and unknown: "\<And>n. dget (stats R) n = None \<Longrightarrow> unresolved n (pending R) = 0 \<and> count_list (in_flight R) n = 0"
    using assms(1) unfolding router_ok_def by blast+
  define S where "S = (if dget (stats R) (route_name r) = None then dput (route_name r) no_router_stats (stats R) else stats R)"
  have tot: "total_of rs_first S = total_of rs_first (stats R)"
    by (auto simp: S_def total_of_def dput_new dget_None_iff no_router_stats_def)
  have c: "counters_ok s (unresolved n (pending R)) (count_list (in_flight R) n)" if "dget S n = Some s" for n s
    using that counters [of n s] unknown [of n]
    by (auto simp: S_def counters_ok_def no_router_stats_def split: if_splits)
  have u: "dget S n = None \<Longrightarrow> dget (stats R) n = None" for n by (simp add: S_def split: if_splits)
  have keep: "dget (stats R) n \<noteq> None \<Longrightarrow> dget S n \<noteq> None" for n by (simp add: S_def)
  have r: "routes_ok (R\<lparr>routes := dput (route_name r) r (routes R), stats := S\<rparr>)"
  proof -
    have "route_name (snd kv) = fst kv \<and> fst kv \<noteq> '''' \<and> dget S (fst kv) \<noteq> None" 
      if kv: "kv \<in> set (dput (route_name r) r (routes R))" for kv
    proof -
      consider "kv = (route_name r, r)" | "kv \<in> set (routes R)" 
        using set_dputD [of "fst kv" "snd kv" "route_name r" r "routes R"] kv by auto
      then show ?thesis
      proof cases
        case 1
        then show ?thesis using assms(2) by (simp add: S_def)
      next
        case 2
        then have "route_name (snd kv) = fst kv" "fst kv \<noteq> ''''" "dget (stats R) (fst kv) \<noteq> None"
          using ok(1) unfolding routes_ok_def by blast+
        then show ?thesis using keep by blast
      qed
    qed
    then show ?thesis using ok(1) unfolding routes_ok_def by (simp add: S_def)
  qed
  have res: "register r R = R\<lparr>routes := dput (route_name r) r (routes R), stats := S\<rparr>" by (simp add: register_def S_def)
  have "unresolved n (pending R) = 0 \<and> count_list (in_flight R) n = 0" if "dget S n = None" for n
    by (rule unknown [OF u [OF that]])
  then show ?thesis unfolding res router_ok_def using r ok(2-4) tot c
    by (simp add: pending_ok_def handed_ok_def)
qed

lemma forget_ok:
  assumes "router_ok R"
  shows "router_ok (forget ident R)"
proof -
  have p: "\<forall>x\<in>snd ` set (dpop ident (pending R)). distinct (dkeys (race_accepted x))"
    using assms unfolding router_ok_def pending_ok_def by (auto dest: set_dpopD)
  have c: "counters_ok s (unresolved n (dpop ident (pending R))) (count_list (in_flight R) n)" if "dget (stats R) n = Some s" for n s
    using assms counters_ok_mono [OF _ unresolved_dpop_le order.refl] that unfolding router_ok_def by blast
  have u: "unresolved n (dpop ident (pending R)) = 0 \<and> count_list (in_flight R) n = 0" if "dget (stats R) n = None" for n
    using assms that unresolved_dpop_le [of n ident "pending R"] unfolding router_ok_def by (metis le_zero_eq)
  have ok: "routes_ok R" "handed_ok R" "races R = races_without_acceptance R + total_of rs_first (stats R)"
    using assms unfolding router_ok_def by blast+
  have "routes_ok (forget ident R)" by (rule routes_ok_cong [OF _ _ ok(1)]) (simp_all add: forget_def)
  then show ?thesis using ok(2,3) p c u by (simp add: router_ok_def forget_def pending_ok_def handed_ok_def)
qed

lemma new_router_ok: "router_ok (new_router wait least)"
  by (simp add: router_ok_def new_router_def routes_ok_def pending_ok_def handed_ok_def total_of_def)

lemma router_step_ok: "router_step R R' \<Longrightarrow> router_ok R \<Longrightarrow> router_ok R'"
  by (erule router_stepE) (simp_all add: register_ok race_ok fold_late_ok record_landing_ok forget_ok)

lemma reachable_router_ok: "reachable_router wait least R \<Longrightarrow> router_ok R"
  by (induction rule: reachable_router.induct) (simp_all add: new_router_ok router_step_ok)

subsection \<open>The properties\<close>

text \<open>
  C38: In every reachable state all the routes of a race were handed the same bytes, a route is credited
  with a landing only for races it accepted in time and with an acceptance only for an attempt, and every
  race either has one first receipt or is counted as one nobody accepted.
\<close>
theorem race_is_one_transaction:
  assumes "reachable_router wait least R"
  shows "(\<forall>i n p n' p'. (i, n, p) \<in> set (handed R) \<and> (i, n', p') \<in> set (handed R) \<longrightarrow> p = p')
    \<and> (\<forall>n s. dget (stats R) n = Some s \<longrightarrow> rs_landed s \<le> rs_resolved s \<and> rs_resolved s \<le> rs_accepted s
          \<and> rs_first s \<le> rs_accepted s \<and> rs_accepted s + rs_failures s \<le> rs_attempts s)
    \<and> races R = races_without_acceptance R + sum_list (map (\<lambda>kv. rs_first (snd kv)) (stats R))"
proof -
  have ok: "handed_ok R" "races R = races_without_acceptance R + total_of rs_first (stats R)"
    "\<And>n s. dget (stats R) n = Some s \<Longrightarrow> counters_ok s (unresolved n (pending R)) (count_list (in_flight R) n)"
    using reachable_router_ok [OF assms] unfolding router_ok_def by blast+
  have "p = p'" if "(i, n, p) \<in> set (handed R)" "(i, n', p') \<in> set (handed R)" for i n p n' p'
    using ok(1) that unfolding handed_ok_def by fastforce
  moreover have "rs_landed s \<le> rs_resolved s \<and> rs_resolved s \<le> rs_accepted s \<and> rs_first s \<le> rs_accepted s
      \<and> rs_accepted s + rs_failures s \<le> rs_attempts s" if "dget (stats R) n = Some s" for n s
    using ok(3) [OF that] by (simp add: counters_ok_def)
  ultimately show ?thesis using ok(2) unfolding total_of_def by blast
qed

text \<open>What a route is known for: nothing before enough resolved attempts, then its landing rate.\<close>

definition known_rate :: "router \<Rightarrow> string \<Rightarrow> pyfloat option" where
  "known_rate R n =
     (case dget (stats R) n of
        None \<Rightarrow> None
      | Some s \<Rightarrow> if rs_resolved s < 30 then None else Some (int_div (int (rs_landed s)) (int (rs_resolved s))))"

lemma rank_key_known: "rank_key R n = (case known_rate R n of None \<Rightarrow> (1, 0) | Some q \<Rightarrow> (0, - q))"
  by (auto simp: rank_key_def known_rate_def measured_def MIN_ATTEMPTS_FOR_RATE_def split: option.split)

text \<open>
  The ranking lists exactly the declared routes: the measured ones first, never a lower landing rate
  before a higher one, and the unmeasured ones after them in the order they were declared, none dropped.
\<close>
lemma ranking_keeps_unmeasured:
  "set (ranked R) = set (dkeys (routes R)) \<and> length (ranked R) = length (dkeys (routes R))
   \<and> filter (\<lambda>n. known_rate R n = None) (ranked R) = filter (\<lambda>n. known_rate R n = None) (dkeys (routes R))
   \<and> sorted_wrt (\<lambda>m n. case known_rate R n of None \<Rightarrow> True | Some q \<Rightarrow> (\<exists>p. known_rate R m = Some p \<and> q \<le> p)) (ranked R)"
proof -
  have key: "rank_key R n = (1, 0) \<longleftrightarrow> known_rate R n = None" for n by (simp add: rank_key_known split: option.split)
  have "filter (\<lambda>n. rank_key R n = (1, 0)) (ranked R) = filter (\<lambda>n. rank_key R n = (1, 0)) (dkeys (routes R))"
    unfolding ranked_def by (rule sort_key_stable)
  then have stable: "filter (\<lambda>n. known_rate R n = None) (ranked R) = filter (\<lambda>n. known_rate R n = None) (dkeys (routes R))"
    unfolding key .
  have "sorted_wrt (\<lambda>m n. rank_key R m \<le> rank_key R n) (ranked R)"
    using sorted_sort_key [of "rank_key R" "dkeys (routes R)"] unfolding ranked_def sorted_map .
  then have "sorted_wrt (\<lambda>m n. case known_rate R n of None \<Rightarrow> True | Some q \<Rightarrow> (\<exists>p. known_rate R m = Some p \<and> q \<le> p)) (ranked R)"
    by (rule sorted_wrt_mono_rel [rotated]) (auto simp: rank_key_known less_eq_prod_def split: option.splits)
  then show ?thesis using stable by (simp add: ranked_def)
qed

subsection \<open>What the code does not do\<close>

text \<open>
  A landing is documented to be credited to every route that accepted the bytes.  The routes that
  acknowledge after the first round are only folded into their counters: the pending race never learns of
  them, and the resolution leaves them as they were.
\<close>

lemma late_acceptance_not_credited:
  assumes "dget (pending R) ident = Some out" "\<not> carries n out"
  shows "dget (stats (fst (record_landing ident did_land net (fold_late a R)))) n = dget (stats (fold_late a R)) n"
proof -
  have p: "pending (fold_late a R) = pending R" by (simp add: fold_late_def Let_def)
  have "dget (fold (\<lambda>m. bump_stats m f) ms d) n = dget d n" if "n \<notin> set ms" for f ms d
    using that by (induction ms arbitrary: d) (auto simp: dget_bump_stats)
  then show ?thesis using assms by (simp add: record_landing_def p carries_def)
qed

text \<open>The attempts the constructor asks for before a rate is measured play no part in it.\<close>

lemma min_attempts_ignored: "known_rate (R\<lparr>min_attempts := k\<rparr>) n = known_rate R n" "ranked (R\<lparr>min_attempts := k\<rparr>) = ranked R"
proof -
  have "rank_key (R\<lparr>min_attempts := k\<rparr>) = rank_key R" by (simp add: fun_eq_iff rank_key_def)
  then show "known_rate (R\<lparr>min_attempts := k\<rparr>) n = known_rate R n" "ranked (R\<lparr>min_attempts := k\<rparr>) = ranked R"
    by (simp_all add: known_rate_def ranked_def)
qed

subsection \<open>Witnesses\<close>

definition sample_route :: "string \<Rightarrow> route" where
  "sample_route n = \<lparr>route_name = n, route_kind = n, surcharge_lamports = 0, route_enabled = True, route_detail = '''',
     requires_bundle = False\<rparr>"

definition sample_router :: router where
  "sample_router = register (sample_route ''rpc'') (register (sample_route ''sender'') (new_router 3 30))"

definition sample_answer :: route_answer where
  "sample_answer = \<lparr>from_route = sample_route ''rpc'', answer_id = Some ''sig'', answer_ms = 12, answer_error = ''''\<rparr>"

theorem race_is_one_transaction_witness:
  "races (fst (race ''tx'' False [[sample_answer]] sample_router))
     = races_without_acceptance (fst (race ''tx'' False [[sample_answer]] sample_router))
       + sum_list (map (\<lambda>kv. rs_first (snd kv)) (stats (fst (race ''tx'' False [[sample_answer]] sample_router))))"
proof -
  have "reachable_router 3 30 (register (sample_route ''sender'') (new_router 3 30))"
    by (rule Step [OF Start Registered]) (simp add: sample_route_def)
  then have "reachable_router 3 30 sample_router"
    unfolding sample_router_def by (rule Step [OF _ Registered]) (simp add: sample_route_def)
  moreover have "race_answers False [[sample_answer]] sample_router"
    by (simp add: race_answers_def enabled_routes_def sample_router_def sample_answer_def sample_route_def register_def new_router_def)
  ultimately have "reachable_router 3 30 (fst (race ''tx'' False [[sample_answer]] sample_router))"
    by (rule Step [OF _ Raced])
  from race_is_one_transaction [OF this] show ?thesis by blast
qed

end
