(* ===== verification/SlotValue.thy ===== *)
theory SlotValue
  imports PyText "HOL-Library.Product_Lexorder"
begin

text \<open>
  \<open>execution/slot_value.py\<close>: what one slot of delay costs, from the recent price path or from a hazard
  rate, and the edge a bid is sized on.  The logarithm and the exponential are arguments.  Every field of
  the result is modelled but \<open>detail\<close>, which is text for the reports.
\<close>

record slot_value =
  sv_status :: string
  decay_per_slot :: pyfloat
  value_now_usd :: pyfloat
  value_next_slot_usd :: pyfloat
  slope_per_second :: "pyfloat option"
  marks_used :: nat
  sv_source :: string

record slot_value_model =
  slot_seconds :: pyfloat
  mark_max_age_s :: pyfloat
  min_marks :: int
  max_decay :: pyfloat

definition new_slot_value_model :: "pyfloat \<Rightarrow> pyfloat \<Rightarrow> int \<Rightarrow> pyfloat \<Rightarrow> slot_value_model" where
  "new_slot_value_model slot_s max_age marks decay =
     \<lparr>slot_seconds = slot_s, mark_max_age_s = max_age, min_marks = max 2 marks, max_decay = min 1 (max 0 decay)\<rparr>"

definition slot_value_ok :: "slot_value \<Rightarrow> bool" where
  "slot_value_ok v \<longleftrightarrow> sv_status v = ''OK''"

definition slot_cost_usd :: "slot_value \<Rightarrow> pyfloat" where
  "slot_cost_usd v = max 0 (fsub (value_now_usd v) (value_next_slot_usd v))"

definition fresh_marks :: "slot_value_model \<Rightarrow> (pyfloat \<times> pyfloat) list \<Rightarrow> pyfloat \<Rightarrow> (pyfloat \<times> pyfloat) list" where
  "fresh_marks V marks now =
     filter (\<lambda>(stamp, v). 0 < v \<and> 0 \<le> fsub now stamp \<and> fsub now stamp \<le> mark_max_age_s V) marks"

definition flat_value :: "string \<Rightarrow> pyfloat \<Rightarrow> nat \<Rightarrow> string \<Rightarrow> slot_value" where
  "flat_value status edge n source =
     \<lparr>sv_status = status, decay_per_slot = 0, value_now_usd = edge, value_next_slot_usd = edge, slope_per_second = None,
      marks_used = n, sv_source = source\<rparr>"

definition from_marks ::
    "(pyfloat \<Rightarrow> pyfloat) \<Rightarrow> slot_value_model \<Rightarrow> (pyfloat \<times> pyfloat) list \<Rightarrow> pyfloat \<Rightarrow> bool \<Rightarrow> pyfloat \<Rightarrow> slot_value" where
  "from_marks log_of V marks expected_edge buying now =
     (let fresh = fresh_marks V marks now; edge = max 0 expected_edge
      in if int (length fresh) < min_marks V then flat_value ''DATA_BLOCKED'' edge (length fresh) ''marks''
         else
           let path = sort fresh; span = fsub (fst (last path)) (fst (hd path))
           in if span \<le> 0 then flat_value ''DATA_BLOCKED'' edge (length fresh) ''marks''
              else
                let slope = fdiv (fsub (log_of (snd (last path))) (log_of (snd (hd path)))) span;
                    against_us = (if buying then 0 < slope else slope < 0)
                in if \<not> against_us then (flat_value ''OK'' edge (length fresh) ''marks'')\<lparr>slope_per_second := Some slope\<rparr>
                   else
                     let decay = min (max_decay V) (fmul \<bar>slope\<bar> (slot_seconds V))
                     in (flat_value ''OK'' edge (length fresh) ''marks'')\<lparr>decay_per_slot := decay,
                          value_next_slot_usd := fmul edge (fsub 1 decay), slope_per_second := Some slope\<rparr>)"

definition from_hazard :: "(pyfloat \<Rightarrow> pyfloat) \<Rightarrow> slot_value_model \<Rightarrow> pyfloat option \<Rightarrow> pyfloat \<Rightarrow> slot_value" where
  "from_hazard exp_of V hazard expected_edge =
     (let edge = max 0 expected_edge
      in case hazard of
           None \<Rightarrow> flat_value ''DATA_BLOCKED'' edge 0 ''hazard''
         | Some h \<Rightarrow>
             let rate = max 0 h; decay = min (max_decay V) (fsub 1 (exp_of (fmul (- rate) (slot_seconds V))))
             in (flat_value ''OK'' edge 0 ''hazard'')\<lparr>decay_per_slot := decay, value_next_slot_usd := fmul edge (fsub 1 decay)\<rparr>)"

definition urgency_adjusted_edge :: "slot_value \<Rightarrow> pyfloat \<Rightarrow> pyfloat" where
  "urgency_adjusted_edge slot expected_edge =
     (let edge = max 0 expected_edge
      in if \<not> slot_value_ok slot \<or> decay_per_slot slot \<le> 0 then edge
         else fmul edge (min 1 (max 0 (decay_per_slot slot))))"

subsection \<open>Bounds\<close>

lemma new_model_decay: "0 \<le> max_decay (new_slot_value_model s a m d) \<and> max_decay (new_slot_value_model s a m d) \<le> 1"
  by (simp add: new_slot_value_model_def)

lemma fmul_fraction: "0 \<le> x \<Longrightarrow> is_double x \<Longrightarrow> 0 \<le> q \<Longrightarrow> q \<le> 1 \<Longrightarrow> 0 \<le> fmul x q \<and> fmul x q \<le> x"
  unfolding fmul_def by (auto intro!: fl_le_double mult_right_le_one_le)

lemma fsub_one_fraction: "0 \<le> q \<Longrightarrow> q \<le> 1 \<Longrightarrow> 0 \<le> fsub 1 q \<and> fsub 1 q \<le> 1"
proof -
  assume q: "0 \<le> q" "q \<le> 1"
  have "is_double 1" using is_double_of_int [of 1] by simp
  then show ?thesis unfolding fsub_def using q by (auto intro: fl_le_double)
qed

text \<open>What a slot costs lies between nothing and the cap, and what survives it between nothing and the edge.\<close>

definition value_bounded :: "slot_value_model \<Rightarrow> slot_value \<Rightarrow> bool" where
  "value_bounded V v \<longleftrightarrow> 0 \<le> decay_per_slot v \<and> decay_per_slot v \<le> max_decay V
     \<and> 0 \<le> value_next_slot_usd v \<and> value_next_slot_usd v \<le> value_now_usd v"

lemma from_marks_bounded:
  assumes "0 \<le> max_decay V" "max_decay V \<le> 1" "0 \<le> slot_seconds V" "is_double edge"
  shows "value_bounded V (from_marks log_of V marks edge buying now)"
proof -
  have e: "0 \<le> max 0 edge" "is_double (max 0 edge)" using assms(4) is_double_of_int [of 0] by (auto simp: max_def)
  have d: "0 \<le> min (max_decay V) (fmul \<bar>slope\<bar> (slot_seconds V)) \<and> min (max_decay V) (fmul \<bar>slope\<bar> (slot_seconds V)) \<le> max_decay V" for slope
    using assms(1,3) by (simp add: fmul_def)
  have n: "0 \<le> fmul (max 0 edge) (fsub 1 q) \<and> fmul (max 0 edge) (fsub 1 q) \<le> max 0 edge" if "0 \<le> q" "q \<le> max_decay V" for q
    using fmul_fraction [OF e] fsub_one_fraction [of q] that assms(2) by (meson order_trans)
  show ?thesis
    using d n assms(1) e(1) unfolding from_marks_def value_bounded_def Let_def flat_value_def by auto
qed

lemma from_hazard_bounded:
  assumes "0 \<le> max_decay V" "max_decay V \<le> 1" "0 \<le> slot_seconds V" "is_double edge"
    and "\<And>x. x \<le> 0 \<Longrightarrow> 0 \<le> exp_of x \<and> exp_of x \<le> 1"
  shows "value_bounded V (from_hazard exp_of V hazard edge)"
proof -
  have e: "0 \<le> max 0 edge" "is_double (max 0 edge)" using assms(4) is_double_of_int [of 0] by (auto simp: max_def)
  have x: "fmul (- max 0 h) (slot_seconds V) \<le> 0" for h
    using assms(3) by (simp add: fmul_def mult_nonneg_nonneg)
  have d: "0 \<le> min (max_decay V) (fsub 1 (exp_of (fmul (- max 0 h) (slot_seconds V))))" for h
    using assms(1) fsub_one_fraction assms(5) [OF x [of h]] by simp
  have n: "0 \<le> fmul (max 0 edge) (fsub 1 q) \<and> fmul (max 0 edge) (fsub 1 q) \<le> max 0 edge" if "0 \<le> q" "q \<le> max_decay V" for q
    using fmul_fraction [OF e] fsub_one_fraction [of q] that assms(2) by (meson order_trans)
  show ?thesis
    using d n assms(1) e(1) unfolding from_hazard_def value_bounded_def Let_def flat_value_def
    by (auto split: option.split)
qed

lemma urgency_bounded:
  assumes "is_double edge"
  shows "0 \<le> urgency_adjusted_edge v edge \<and> urgency_adjusted_edge v edge \<le> max 0 edge"
proof -
  have e: "0 \<le> max 0 edge" "is_double (max 0 edge)" using assms is_double_of_int [of 0] by (auto simp: max_def)
  then show ?thesis using fmul_fraction [OF e, of "min 1 (max 0 (decay_per_slot v))"]
    by (auto simp: urgency_adjusted_edge_def Let_def)
qed

text \<open>
  The edge raced for is documented to be the part a slot destroys.  A measured decay of nothing gives the
  whole edge instead, as much as an unmeasured one and more than any positive decay does.
\<close>

lemma favourable_move_bids_everything:
  assumes "slope_per_second v = Some slope" "v = from_marks log_of V marks edge buying now" "\<not> (if buying then 0 < slope else slope < 0)"
  shows "slot_value_ok v \<and> slot_cost_usd v = 0 \<and> urgency_adjusted_edge v edge = max 0 edge"
  using assms by (auto simp: from_marks_def Let_def flat_value_def slot_value_ok_def slot_cost_usd_def urgency_adjusted_edge_def
      fsub_def
      split: if_splits)

end
