(* ===== verification/LeaderSchedule.thy ===== *)
theory LeaderSchedule
  imports PyText Interfaces
begin

text \<open>
  \<open>execution/leader_schedule.py\<close>: slot to leader to address.  The three RPC replies of a refresh and
  the clock are arguments; a reply is an exception's text or the value, with \<open>0\<close> or \<open>[]\<close> for nothing.
\<close>

definition SLOTS_PER_EPOCH :: int where "SLOTS_PER_EPOCH = 432000"
definition REFRESH_BELOW_SLOTS :: int where "REFRESH_BELOW_SLOTS = 120"
definition NODES_TTL_S :: pyfloat where "NODES_TTL_S = 900"

record leader_node =
  node_identity :: string
  tpu :: string
  tpu_quic :: string
  gossip :: string

definition reachable :: "leader_node \<Rightarrow> bool" where
  "reachable n \<longleftrightarrow> tpu_quic n \<noteq> '''' \<or> tpu n \<noteq> ''''"

record leader_schedule =
  lookahead :: int
  prewarm_leaders :: int
  leaders :: "(int, string) dict"
  nodes :: "(string, leader_node) dict"
  first_slot :: int
  nodes_fetched_at :: pyfloat
  current_slot :: int
  schedule_refreshes :: nat
  refresh_failures :: nat
  lookups :: nat
  lookup_misses :: nat
  schedule_error :: string

definition new_schedule :: "int \<Rightarrow> int \<Rightarrow> leader_schedule" where
  "new_schedule ahead prewarm =
     \<lparr>lookahead = ahead, prewarm_leaders = prewarm, leaders = [], nodes = [], first_slot = 0,
      nodes_fetched_at = 0, current_slot = 0, schedule_refreshes = 0, refresh_failures = 0, lookups = 0,
      lookup_misses = 0, schedule_error = ''''\<rparr>"

text \<open>\<open>int(slot or self.current_slot or 0)\<close>.\<close>

definition slot_or_current :: "leader_schedule \<Rightarrow> int option \<Rightarrow> int" where
  "slot_or_current s slot = (case slot of None \<Rightarrow> current_slot s | Some n \<Rightarrow> if n = 0 then current_slot s else n)"

definition needs_refresh :: "leader_schedule \<Rightarrow> int option \<Rightarrow> bool" where
  "needs_refresh s slot =
     (if leaders s = [] then True
      else first_slot s + int (length (leaders s)) - slot_or_current s slot < REFRESH_BELOW_SLOTS)"

text \<open>One entry of \<open>getClusterNodes\<close>, with empty strings for absent fields; \<open>None\<close> is a null entry.\<close>

record node_info =
  info_pubkey :: string
  info_tpu :: string
  info_tpuQuic :: string
  info_tpu_quic :: string
  info_gossip :: string

definition add_node :: "(string, leader_node) dict \<Rightarrow> node_info option \<Rightarrow> (string, leader_node) dict" where
  "add_node d info =
     (case info of
        None \<Rightarrow> d
      | Some i \<Rightarrow>
          if info_pubkey i = '''' then d
          else dput (info_pubkey i)
                 \<lparr>node_identity = info_pubkey i, tpu = info_tpu i,
                  tpu_quic = (if info_tpuQuic i \<noteq> '''' then info_tpuQuic i else info_tpu_quic i),
                  gossip = info_gossip i\<rparr> d)"

definition refresh_nodes ::
    "leader_schedule \<Rightarrow> string + node_info option list \<Rightarrow> pyfloat \<Rightarrow> leader_schedule \<times> bool" where
  "refresh_nodes s reply now =
     (case reply of
        Inl exc \<Rightarrow> (s\<lparr>schedule_error := ''getClusterNodes: '' @ exc\<rparr>, False)
      | Inr infos \<Rightarrow>
          if infos = [] then (s, False)
          else (s\<lparr>nodes := foldl add_node [] infos, nodes_fetched_at := now\<rparr>, True))"

definition schedule_fail :: "leader_schedule \<Rightarrow> string \<Rightarrow> leader_schedule \<times> bool" where
  "schedule_fail s err = (s\<lparr>refresh_failures := refresh_failures s + 1, schedule_error := err\<rparr>, False)"

definition leader_table :: "int \<Rightarrow> string list \<Rightarrow> (int, string) dict" where
  "leader_table start ids = map (\<lambda>k. (start + int k, ids ! k)) [0..<length ids]"

definition schedule_refresh ::
    "leader_schedule \<Rightarrow> int option \<Rightarrow> string + int \<Rightarrow> (int \<Rightarrow> int \<Rightarrow> string + string list)
       \<Rightarrow> string + node_info option list \<Rightarrow> pyfloat \<Rightarrow> leader_schedule \<times> bool" where
  "schedule_refresh s slot get_slot get_leaders get_nodes now =
     (case (if slot_or_current s slot \<le> 0 then get_slot else Inr (slot_or_current s slot)) of
        Inl exc \<Rightarrow> schedule_fail s (''getSlot: '' @ exc)
      | Inr start \<Rightarrow>
          if start \<le> 0 then schedule_fail s ''getSlot returned nothing''
          else
            let s = s\<lparr>current_slot := start\<rparr>
            in case get_leaders start (min (lookahead s) SLOTS_PER_EPOCH) of
                 Inl exc \<Rightarrow> schedule_fail s (''getSlotLeaders: '' @ exc)
               | Inr ids \<Rightarrow>
                   if ids = [] then schedule_fail s ''getSlotLeaders returned nothing''
                   else
                     let s = s\<lparr>leaders := leader_table start ids, first_slot := start,
                               schedule_refreshes := schedule_refreshes s + 1, schedule_error := ''''\<rparr>
                     in if NODES_TTL_S < fsub now (nodes_fetched_at s)
                        then (fst (refresh_nodes s get_nodes now), True)
                        else (s, True))"

definition leader_for :: "leader_schedule \<Rightarrow> int \<Rightarrow> leader_schedule \<times> string" where
  "leader_for s slot =
     (let ident = dget_or (leaders s) slot '''';
          s = s\<lparr>lookups := lookups s + 1\<rparr>
      in if ident = '''' then (s\<lparr>lookup_misses := lookup_misses s + 1\<rparr>, ident) else (s, ident))"

definition node_for :: "leader_schedule \<Rightarrow> int \<Rightarrow> leader_schedule \<times> leader_node option" where
  "node_for s slot =
     (let (s', ident) = leader_for s slot
      in (s', if ident = '''' then None else dget (nodes s') ident))"

text \<open>
  The loop of \<open>upcoming_leaders\<close>.  The loop's \<open>break\<close> comes after a leader was considered, so it is
  skipped by the \<open>continue\<close> of a slot that brings no new identity.
\<close>

fun warm_loop ::
    "leader_schedule \<Rightarrow> int \<Rightarrow> string list \<Rightarrow> string list \<Rightarrow> leader_node list \<Rightarrow> leader_node list" where
  "warm_loop s wanted [] identities seen = seen"
| "warm_loop s wanted (ident # rest) identities seen =
     (if ident = '''' \<or> ident \<in> set identities then warm_loop s wanted rest identities seen
      else
        let seen' = (case dget (nodes s) ident of
                       Some n \<Rightarrow> if reachable n then seen @ [n] else seen
                     | None \<Rightarrow> seen)
        in if wanted \<le> int (length seen') then seen'
           else warm_loop s wanted rest (ident # identities) seen')"

definition slot_identities :: "leader_schedule \<Rightarrow> int \<Rightarrow> string list" where
  "slot_identities s start =
     map (\<lambda>offset. dget_or (leaders s) (start + int offset) '''') [0..<nat (lookahead s)]"

definition upcoming_leaders :: "leader_schedule \<Rightarrow> int option \<Rightarrow> int option \<Rightarrow> leader_node list" where
  "upcoming_leaders s slot count =
     (let start = slot_or_current s slot;
          wanted = (case count of None \<Rightarrow> prewarm_leaders s | Some n \<Rightarrow> if n = 0 then prewarm_leaders s else n)
      in warm_loop s wanted (slot_identities s start) [] [])"

definition observe_slot :: "leader_schedule \<Rightarrow> int \<Rightarrow> leader_schedule" where
  "observe_slot s slot = (if current_slot s < slot then s\<lparr>current_slot := slot\<rparr> else s)"

subsection \<open>What the lookups answer\<close>

text \<open>The distinct known identities of a slot list, in order of first appearance.\<close>

fun first_seen :: "string list \<Rightarrow> string list" where
  "first_seen [] = []"
| "first_seen (x # xs) = (if x = '''' then first_seen xs else x # filter (\<lambda>y. y \<noteq> x) (first_seen xs))"

definition warm_node :: "leader_schedule \<Rightarrow> string \<Rightarrow> leader_node option" where
  "warm_node s ident = (case dget (nodes s) ident of Some n \<Rightarrow> if reachable n then Some n else None | None \<Rightarrow> None)"

lemma warm_loop_take:
  assumes "int (length seen) < wanted"
  shows "warm_loop s wanted ids known seen
    = take (nat wanted) (seen @ List.map_filter (warm_node s) (filter (\<lambda>x. x \<notin> set known) (first_seen ids)))"
  using assms
proof (induction ids arbitrary: known seen)
  case Nil
  then show ?case by simp
next
  case (Cons x ids)
  have comm: "filter (\<lambda>y. y \<notin> set known) (filter (\<lambda>y. y \<noteq> x) l) = filter (\<lambda>y. y \<notin> set (x # known)) l" for l
    by (simp add: conj_commute)
  show ?case
  proof (cases "x = '''' \<or> x \<in> set known")
    case True
    then have "filter (\<lambda>y. y \<notin> set known) (first_seen (x # ids)) = filter (\<lambda>y. y \<notin> set known) (first_seen ids)"
      by (auto intro: filter_cong)
    then show ?thesis using True Cons by simp
  next
    case False
    define seen' where "seen' = (case warm_node s x of Some n \<Rightarrow> seen @ [n] | None \<Rightarrow> seen)"
    have step: "warm_loop s wanted (x # ids) known seen =
        (if wanted \<le> int (length seen') then seen' else warm_loop s wanted ids (x # known) seen')"
      using False by (auto simp: seen'_def warm_node_def Let_def split: option.splits)
    have rest: "seen @ List.map_filter (warm_node s) (filter (\<lambda>y. y \<notin> set known) (first_seen (x # ids)))
        = seen' @ List.map_filter (warm_node s) (filter (\<lambda>y. y \<notin> set (x # known)) (first_seen ids))"
      using False
      by (simp add: seen'_def comm List.map_filter_simps del: filter_filter split: option.split)
    show ?thesis
    proof (cases "wanted \<le> int (length seen')")
      case True
      then have "length seen' = nat wanted" using Cons.prems by (auto simp: seen'_def split: option.splits)
      then show ?thesis using True unfolding step rest by simp
    next
      case not: False
      then show ?thesis using Cons.IH [of seen' "x # known"] unfolding step rest by simp
    qed
  qed
qed

lemma dget_leader_table:
  "dget (leader_table start ids) slot
     = (if start \<le> slot \<and> slot < start + int (length ids) then Some (ids ! nat (slot - start)) else None)"
proof -
  have inj: "distinct (map fst (leader_table start ids))"
    by (simp add: leader_table_def comp_def distinct_map inj_on_def)
  show ?thesis
  proof (cases "start \<le> slot \<and> slot < start + int (length ids)")
    case True
    then have "(slot, ids ! nat (slot - start)) \<in> set (leader_table start ids)"
      by (auto simp: leader_table_def image_iff intro!: bexI [of _ "nat (slot - start)"])
    then show ?thesis using True inj by simp
  next
    case False
    then show ?thesis by (auto simp: map_of_eq_None_iff leader_table_def)
  qed
qed

datatype schedule_event =
    Refreshed "int option" "string + int" "int \<Rightarrow> int \<Rightarrow> string + string list" "string + node_info option list" pyfloat
  | Looked_up int
  | Observed int

definition schedule_step :: "leader_schedule \<Rightarrow> schedule_event \<Rightarrow> leader_schedule" where
  "schedule_step s ev =
     (case ev of
        Refreshed slot gs gl gn now \<Rightarrow> fst (schedule_refresh s slot gs gl gn now)
      | Looked_up slot \<Rightarrow> fst (leader_for s slot)
      | Observed slot \<Rightarrow> observe_slot s slot)"

text \<open>Every leader the table holds was given for that very slot by one \<open>getSlotLeaders\<close> reply.\<close>

definition answered :: "schedule_event list \<Rightarrow> int \<Rightarrow> string list \<Rightarrow> bool" where
  "answered evs start ids \<longleftrightarrow>
     (\<exists>slot gs gl gn now lim. Refreshed slot gs gl gn now \<in> set evs \<and> gl start lim = Inr ids)"

lemma refresh_nodes_keeps [simp]:
  "leaders (fst (refresh_nodes s r now)) = leaders s" "first_slot (fst (refresh_nodes s r now)) = first_slot s"
  "current_slot (fst (refresh_nodes s r now)) = current_slot s"
  "lookups (fst (refresh_nodes s r now)) = lookups s" "lookup_misses (fst (refresh_nodes s r now)) = lookup_misses s"
  by (simp_all add: refresh_nodes_def split: sum.split)

lemma schedule_refresh_table:
  "leaders (fst (schedule_refresh s slot gs gl gn now)) = leaders s
   \<or> (\<exists>start lim ids. gl start lim = Inr ids
        \<and> leaders (fst (schedule_refresh s slot gs gl gn now)) = leader_table start ids)"
  by (auto simp: schedule_refresh_def schedule_fail_def Let_def split: sum.split)

definition table_from :: "schedule_event list \<Rightarrow> leader_schedule \<Rightarrow> bool" where
  "table_from evs s \<longleftrightarrow> leaders s = [] \<or> (\<exists>start ids. answered evs start ids \<and> leaders s = leader_table start ids)"

lemma answered_mono: "answered evs start ids \<Longrightarrow> answered (evs @ evs') start ids"
  unfolding answered_def by (metis Un_iff set_append)

lemma table_from_step: "table_from evs s \<Longrightarrow> table_from (evs @ [ev]) (schedule_step s ev)"
proof (cases ev)
  case (Refreshed slot gs gl gn now)
  assume t: "table_from evs s"
  consider "leaders (schedule_step s ev) = leaders s"
    | start lim ids where "gl start lim = Inr ids" "leaders (schedule_step s ev) = leader_table start ids"
    using schedule_refresh_table [of s slot gs gl gn now] by (auto simp: Refreshed schedule_step_def)
  then show ?thesis
  proof cases
    case 1
    then show ?thesis using t answered_mono unfolding table_from_def by metis
  next
    case 2
    then have "answered (evs @ [ev]) start ids" unfolding answered_def Refreshed by fastforce
    then show ?thesis using 2 unfolding table_from_def by blast
  qed
next
  case (Looked_up slot)
  assume t: "table_from evs s"
  have "leaders (schedule_step s ev) = leaders s"
    by (simp add: Looked_up schedule_step_def leader_for_def Let_def)
  then show ?thesis using t answered_mono unfolding table_from_def by metis
next
  case (Observed slot)
  assume t: "table_from evs s"
  have "leaders (schedule_step s ev) = leaders s"
    by (simp add: Observed schedule_step_def observe_slot_def)
  then show ?thesis using t answered_mono unfolding table_from_def by metis
qed

lemma table_from_run: "table_from evs (run schedule_step (new_schedule ahead prewarm) evs)"
proof (induction evs rule: rev_induct)
  case Nil
  then show ?case by (simp add: table_from_def new_schedule_def)
next
  case (snoc ev evs)
  then show ?case using table_from_step by simp
qed

subsection \<open>Properties\<close>

text \<open>
  A leader the schedule names for a slot was named for exactly that slot by one reply of the
  cluster: whatever refreshes failed or overlapped, it is never another slot's leader.
\<close>

lemma leader_never_guessed:
  assumes "snd (leader_for (run schedule_step (new_schedule ahead prewarm) evs) slot) = ident" "ident \<noteq> ''''"
  shows "\<exists>start ids. answered evs start ids \<and> start \<le> slot \<and> slot < start + int (length ids)
    \<and> ids ! nat (slot - start) = ident"
proof -
  let ?s = "run schedule_step (new_schedule ahead prewarm) evs"
  have "dget (leaders ?s) slot = Some ident"
    using assms by (auto simp: leader_for_def dget_or_def Let_def split: if_splits option.splits)
  then obtain start ids where "answered evs start ids" "dget (leader_table start ids) slot = Some ident"
    using table_from_run [of evs ahead prewarm] by (auto simp: table_from_def)
  then show ?thesis by (auto simp: dget_leader_table split: if_splits)
qed

definition sample_leader_history :: "schedule_event list" where
  "sample_leader_history =
     [Refreshed None (Inr 100) (\<lambda>start lim. Inr [''A'', ''A'', ''B'']) (Inl ''timeout'') 0, Observed 101]"

lemma sample_leader_102:
  "snd (leader_for (run schedule_step (new_schedule 400 2) sample_leader_history) 102) = ''B''"
proof -
  have "leaders (run schedule_step (new_schedule 400 2) sample_leader_history) = leader_table 100 [''A'', ''A'', ''B'']"
    by (simp add: sample_leader_history_def schedule_step_def schedule_refresh_def new_schedule_def
        slot_or_current_def Let_def observe_slot_def)
  then show ?thesis by (simp add: leader_for_def dget_or_def dget_leader_table Let_def)
qed

text \<open>
  The leaders to prewarm are the first \<open>wanted\<close> distinct reachable leaders of the slots ahead, in
  slot order: the early exit and the repeated slots change nothing.
\<close>

lemma upcoming_leaders_distinct_prefix:
  assumes "0 < wanted"
  shows "upcoming_leaders s (Some slot) (Some wanted)
    = take (nat wanted) (List.map_filter (warm_node s)
        (first_seen (slot_identities s (if slot = 0 then current_slot s else slot))))"
  using assms warm_loop_take [of "[]" wanted s _ "[]"]
  by (simp add: upcoming_leaders_def slot_or_current_def Let_def)

end
