(* ===== verification/EngineLearning.thy ===== *)
theory EngineLearning
  imports ExecutionEngine LandingRouter BidCurve SlotValue LeaderSchedule
begin

text \<open>
  How \<open>ExecutionEngine\<close> (\<open>execution/jupiter_jito.py\<close>) uses the landing components: the bid it chooses
  from the conditioned curve and the landing model, and what a submission over the landing router teaches
  the router, the model and the curve.  It closes the two arguments the engine's model leaves open, the
  landing race and the bid.
\<close>

subsection \<open>The bid\<close>

record chosen_bid =
  ch_lamports :: int
  ch_measured :: bool
  ch_raced :: pyfloat
  ch_contended :: "int option"
  ch_led :: "int option"

definition conditioned_bid ::
    "conditioned_curve \<Rightarrow> pyfloat \<Rightarrow> pyfloat \<Rightarrow> string \<Rightarrow> int option \<Rightarrow> pyfloat option \<Rightarrow> int option \<Rightarrow> int option" where
  "conditioned_bid C raced sol_price leader contention congestion age =
     (if \<not> (0 < sol_price \<and> 0 < raced) then None
      else
        let d = optimise C (fmul (fdiv raced sol_price) 1000000000) leader contention congestion age
                  (last BID_BUCKETS) BID_BUCKETS
        in if bd_status d = ''OK'' then Some (bd_bid d) else None)"

text \<open>A contended cell measured worse than the recommendation scales the bid up, at most four times.\<close>

definition contention_scaled :: "landing_model \<Rightarrow> bid_recommendation \<Rightarrow> int \<Rightarrow> int option \<Rightarrow> int option" where
  "contention_scaled M r lamports contention =
     (let e = contention_probability M lamports contention
      in case est_probability e of
           None \<Rightarrow> None
         | Some p \<Rightarrow>
             if est_status e = ''OK'' \<and> take 10 (est_congestion e) = ''contention''
             then
               let base = (case rec_probability r of None \<Rightarrow> p | Some q \<Rightarrow> if q = 0 then p else q)
               in if 0 < base \<and> p < base
                  then Some (py_trunc (fmul (float_of_int lamports) (min 4 (fdiv base (max p (fl (1 / 10^6)))))))
                  else None
             else None)"

definition leader_scaled :: "landing_model \<Rightarrow> int \<Rightarrow> string \<Rightarrow> int option" where
  "leader_scaled M lamports leader =
     (if leader = '''' then None
      else case leader_effect M leader of
        None \<Rightarrow> None
      | Some effect \<Rightarrow> Some (py_trunc (fdiv (float_of_int lamports) (max (fl (1/4)) (min 4 effect)))))"

definition choose_bid ::
    "conditioned_curve \<Rightarrow> landing_model \<Rightarrow> int option \<Rightarrow> pyfloat \<Rightarrow> pyfloat \<Rightarrow> int \<Rightarrow> pyfloat option \<Rightarrow> slot_value option
       \<Rightarrow> int option \<Rightarrow> string \<Rightarrow> chosen_bid" where
  "choose_bid C M hash_age expected_value sol_price fallback congestion slot contention leader =
     (let raced = (case slot of None \<Rightarrow> expected_value | Some v \<Rightarrow> urgency_adjusted_edge v expected_value);
          chosen = \<lparr>ch_lamports = fallback, ch_measured = False, ch_raced = raced, ch_contended = None, ch_led = None\<rparr>
      in case conditioned_bid C raced sol_price leader contention congestion hash_age of
           Some lamports \<Rightarrow> chosen\<lparr>ch_lamports := lamports, ch_measured := True\<rparr>
         | None \<Rightarrow>
             let r = recommend M raced sol_price congestion 5000000
             in if rec_status r \<noteq> ''OK'' then chosen
                else
                  let contended = contention_scaled M r (rec_bid r) contention;
                      lamports = (case contended of None \<Rightarrow> rec_bid r | Some b \<Rightarrow> b);
                      led = leader_scaled M lamports leader
                  in chosen\<lparr>ch_lamports := (case led of None \<Rightarrow> lamports | Some b \<Rightarrow> b), ch_measured := True,
                       ch_contended := contended, ch_led := led\<rparr>)"

text \<open>
  The call \<open>execute_swap\<close> makes: neither a leader nor a contention is passed, and \<open>fallback\<close> is the tip
  already raised to the observed floor.
\<close>

definition swap_bid ::
    "conditioned_curve \<Rightarrow> landing_model \<Rightarrow> engine \<Rightarrow> pyfloat \<Rightarrow> pyfloat \<Rightarrow> pyfloat option \<Rightarrow> slot_value option \<Rightarrow> int \<Rightarrow> bool \<times> int" where
  "swap_bid C M e edge sol_price congestion slot fallback =
     (let c = choose_bid C M (last_blockhash_age_slots (builder e)) edge sol_price fallback congestion slot None ''''
      in (ch_measured c, ch_lamports c))"

subsection \<open>Submitting and learning\<close>

record landing_desk =
  desk_router :: router
  desk_model :: landing_model
  desk_curve :: conditioned_curve
  desk_schedule :: "leader_schedule option"
  desk_region :: string

definition result_of_race :: "race_outcome \<Rightarrow> race_result" where
  "result_of_race out =
     \<lparr>race_submitted = race_submitted_any out, accepted = race_accepted out, race_errors = race_refused out\<rparr>"

definition route_value :: "route_type \<Rightarrow> string" where
  "route_value r =
     (case r of PUMP_NATIVE \<Rightarrow> ''pump_native'' | PUMPSWAP_NATIVE \<Rightarrow> ''pumpswap_native'' | JUPITER_V1 \<Rightarrow> ''jupiter_v1''
      | RAYDIUM_DIRECT \<Rightarrow> ''raydium_direct'' | ORCA_DIRECT \<Rightarrow> ''orca_direct'' | METEORA_DLMM \<Rightarrow> ''meteora_dlmm''
      | JITO_BUNDLE \<Rightarrow> ''jito_bundle'' | RAPTOR \<Rightarrow> ''raptor'')"

definition leader_for_slot :: "leader_schedule option \<Rightarrow> int option \<Rightarrow> leader_schedule option \<times> string" where
  "leader_for_slot schedule slot =
     (case schedule of
        None \<Rightarrow> (None, '''')
      | Some S \<Rightarrow>
          (case slot of
             None \<Rightarrow> (Some S, '''')
           | Some s \<Rightarrow> if s = 0 then (Some S, '''') else (case leader_for S s of (S', ident) \<Rightarrow> (Some S', ident))))"

text \<open>
  The attempt recorded for a submission.  A fill never names a leader, a contention or an error, so the
  reads of those keys are the ones of an absent key.
\<close>

definition attempt_of ::
    "engine_world \<Rightarrow> engine \<Rightarrow> landing_desk \<Rightarrow> string \<Rightarrow> pyfloat option \<Rightarrow> slot_value option \<Rightarrow> int \<Rightarrow> int \<Rightarrow> bool \<Rightarrow> route_type
       \<Rightarrow> string \<Rightarrow> fill \<Rightarrow> landing_attempt" where
  "attempt_of W e D leader congestion slot units tip use_jito route signature f =
     \<lparr>at_bid = (if use_jito then tip else 0), at_landed = fill_landed f, at_congestion = congestion,
      at_route = route_value route, at_region = desk_region D, at_latency_ms = latency_of W, at_leader = leader,
      at_slot = fill_slot f, at_compute_units = units, at_tip = (if use_jito then tip else 0),
      at_hash_age = last_blockhash_age_slots (builder e), at_contention = None,
      at_slot_value = map_option decay_per_slot slot, at_real = (\<not> dry_run e), at_submitted = started W,
      at_landed_at = (if fill_landed f then Some (now_clock W) else None), at_signature = signature, at_failure = ''''\<rparr>"

text \<open>
  \<open>_submit_signed\<close> with its learning: \<open>rounds\<close> are the answers of the race, \<open>writes\<close> says whether the disk
  takes the row of the landing log.
\<close>

definition submit_and_learn ::
    "engine_world \<Rightarrow> route_answer list list \<Rightarrow> bool \<Rightarrow> pyfloat option \<Rightarrow> slot_value option \<Rightarrow> int \<Rightarrow> engine \<Rightarrow> landing_desk \<Rightarrow> string
       \<Rightarrow> int \<Rightarrow> int \<Rightarrow> int \<Rightarrow> bool \<Rightarrow> route_type \<Rightarrow> string \<Rightarrow> string \<Rightarrow> landing_desk \<times> engine \<times> exec_result" where
  "submit_and_learn W rounds writes congestion slot units e D tx amount slippage_bps tip use_jito route input_mint output_mint =
     (let (R, out) = race tx use_jito rounds (desk_router D);
          W = W\<lparr>landing_race := (\<lambda>_ _. result_of_race out)\<rparr>;
          (e, result) = submit_signed W e tx amount slippage_bps tip use_jito route input_mint output_mint
      in case result_signature result of
           None \<Rightarrow> (D\<lparr>desk_router := R\<rparr>, e, result)
         | Some signature \<Rightarrow>
             let f = fill_of W e signature input_mint output_mint;
                 R = (if race_identifier out \<noteq> '''' then fst (record_landing (race_identifier out) (fill_landed f) 0 R) else R);
                 (schedule, leader) = leader_for_slot (desk_schedule D) (fill_slot f);
                 a = attempt_of W e D leader congestion slot units tip use_jito route signature f
             in (D\<lparr>desk_router := R, desk_schedule := schedule, desk_model := record_landing_attempt writes a (desk_model D),
                   desk_curve := record_conditioned (desk_curve D) a\<rparr>, e, result))"

subsection \<open>What one submission teaches\<close>

lemma submit_learn_engine:
  "submit_and_learn W rounds writes congestion slot units e D tx amount s tip use_jito route i ou = (D', e', r) \<Longrightarrow>
     (e', r) = submit_signed (W\<lparr>landing_race := (\<lambda>_ _. result_of_race (snd (race tx use_jito rounds (desk_router D))))\<rparr>)
       e tx amount s tip use_jito route i ou"
  by (auto simp: submit_and_learn_def Let_def split: prod.splits option.splits)

lemma filled_result_says:
  "result_signature (filled_result W f signature bundle amount s fee tip route) = Some signature"
  "landed (filled_result W f signature bundle amount s fee tip route) = fill_landed f"
  "filled (filled_result W f signature bundle amount s fee tip route) = fill_filled f"
  "success (filled_result W f signature bundle amount s fee tip route) = fill_filled f"
  "result_tip (filled_result W f signature bundle amount s fee tip route) = tip"
  "result_signature (unconfirmed bundle) = None" "\<not> landed (unconfirmed bundle)"
  "result_signature ((result_of False FAILED)\<lparr>result_error := x\<rparr>) = None"
  "\<not> success ((result_of False FAILED)\<lparr>result_error := x\<rparr>)" "\<not> landed ((result_of False FAILED)\<lparr>result_error := x\<rparr>)"
  by (simp_all add: filled_result_def unconfirmed_def result_of_def)

lemma truthy_Some: "truthy s = Some t \<Longrightarrow> t \<noteq> ''''"
  by (auto simp: truthy_def split: if_splits)

definition says :: "engine_world \<Rightarrow> string \<Rightarrow> string \<Rightarrow> int \<Rightarrow> bool \<Rightarrow> engine \<times> exec_result \<Rightarrow> bool" where
  "says W i ou tip use_jito er \<longleftrightarrow>
     (case result_signature (snd er) of
        None \<Rightarrow> \<not> success (snd er) \<and> \<not> landed (snd er)
      | Some signature \<Rightarrow>
          signature \<noteq> '''' \<and> landed (snd er) = fill_landed (fill_of W (fst er) signature i ou)
          \<and> success (snd er) = fill_filled (fill_of W (fst er) signature i ou)
          \<and> result_tip (snd er) = (if use_jito then tip else 0))"

lemma submit_signed_says: "says W i ou tip use_jito (submit_signed W e tx amount s tip use_jito route i ou)"
proof (cases "race_submitted (landing_race W tx use_jito)")
  case True
  let ?acc = "accepted (landing_race W tx use_jito)"
  define first where "first = (case truthy (dget ?acc ''jito_bundle'') of None \<Rightarrow> None | Some b \<Rightarrow> truthy (bundle_signature W b))"
  define signature where "signature = (case first of
      None \<Rightarrow> truthy (map_option snd (List.find (\<lambda>(name, _). name \<noteq> ''jito_bundle'') ?acc)) | Some s \<Rightarrow> Some s)"
  have ne: "t \<noteq> ''''" if "signature = Some t" for t
    using that truthy_Some by (fastforce simp: signature_def first_def split: option.splits)
  show ?thesis
  proof (cases signature)
    case None
    then show ?thesis using True
      by (simp add: submit_signed_def says_def filled_result_says Let_def first_def [symmetric] signature_def [symmetric])
  next
    case (Some t)
    then show ?thesis using True ne [OF Some]
      by (simp add: submit_signed_def says_def filled_result_says Let_def first_def [symmetric] signature_def [symmetric])
  qed
qed (simp add: submit_signed_def says_def filled_result_says Let_def)

lemma submit_signed_engine: "fst (submit_signed W e tx amount s tip use_jito route i ou) = e\<lparr>sent := sent e @ [tx]\<rparr>"
  by (simp add: submit_signed_def Let_def split: option.split)

text \<open>A fill that counts as filled has landed.\<close>

lemma filled_lands: "fill_filled (wait_for_fill seen ds key i ou) \<Longrightarrow> fill_landed (wait_for_fill seen ds key i ou)"
  by (auto simp: wait_for_fill_def no_fill_def Let_def split: option.splits if_splits)

text \<open>
  C16: A submission whose result names a signature is learned exactly once, by the landing model and by the
  conditioned curve alike and from one and the same attempt: its bid is the tip the result reports, it
  landed exactly when the result says so, a success is a landed attempt, and it counts as real exactly
  when the desk is not in dry run.  A result without a signature is neither a success nor landed and
  leaves both curves as they were.  The router stays in a reachable state.
\<close>
theorem submission_learned_once:
  assumes "submit_and_learn W rounds writes congestion slot units e D tx amount s tip use_jito route i ou = (D', e', r)"
    and "reachable_router wait least (desk_router D)" "race_answers use_jito rounds (desk_router D)"
  shows "reachable_router wait least (desk_router D')
    \<and> (case result_signature r of
        None \<Rightarrow> desk_model D' = desk_model D \<and> desk_curve D' = desk_curve D \<and> \<not> success r \<and> \<not> landed r
      | Some signature \<Rightarrow> \<exists>a. desk_model D' = record_landing_attempt writes a (desk_model D)
          \<and> desk_curve D' = record_conditioned (desk_curve D) a \<and> at_signature a = signature \<and> signature \<noteq> ''''
          \<and> at_bid a = result_tip r \<and> at_landed a = landed r \<and> (success r \<longrightarrow> at_landed a) \<and> at_real a = (\<not> dry_run e))"
proof -
  obtain R out where race: "race tx use_jito rounds (desk_router D) = (R, out)" by fastforce
  have R: "reachable_router wait least R"
    using Step [OF assms(2) Raced [OF assms(3)], of tx] race by simp
  have resolved: "reachable_router wait least (fst (record_landing ident ok 0 R))" for ident ok
    by (rule Step [OF R Resolved])
  let ?W = "W\<lparr>landing_race := (\<lambda>_ _. result_of_race out)\<rparr>"
  have sub: "submit_signed ?W e tx amount s tip use_jito route i ou = (e', r)"
    using submit_learn_engine [OF assms(1)] race by simp
  have e': "dry_run e' = dry_run e" using submit_signed_engine [of ?W e tx amount s tip use_jito route i ou] sub by simp
  note kept = submit_signed_says [of ?W i ou tip use_jito e tx amount s route, unfolded sub says_def fst_conv snd_conv]
  show ?thesis
  proof (cases "result_signature r")
    case None
    then show ?thesis using assms(1) kept R race sub by (auto simp: submit_and_learn_def Let_def)
  next
    case (Some signature)
    let ?a = "attempt_of ?W e' D (snd (leader_for_slot (desk_schedule D) (fill_slot (fill_of ?W e' signature i ou))))
      congestion slot units tip use_jito route signature (fill_of ?W e' signature i ou)"
    have D': "desk_model D' = record_landing_attempt writes ?a (desk_model D)" "desk_curve D' = record_conditioned (desk_curve D) ?a"
        "desk_router D' = (if race_identifier out \<noteq> '''' then fst (record_landing (race_identifier out)
            (fill_landed (fill_of ?W e' signature i ou)) 0 R) else R)"
      using assms(1) race sub Some by (auto simp: submit_and_learn_def Let_def split: prod.splits)
    moreover have "at_bid ?a = result_tip r" "at_landed ?a = landed r" "at_real ?a = (\<not> dry_run e)" "at_signature ?a = signature"
      using kept Some e' by (simp_all add: attempt_of_def)
    moreover have "success r \<longrightarrow> landed r" using kept Some filled_lands by (simp add: fill_of_def)
    ultimately show ?thesis using Some kept R resolved by auto
  qed
qed

text \<open>
  The failure of an attempt is always empty, because a fill carries no error: the expiry model, which
  counts the failures that name an expired blockhash, never counts an expiry.
\<close>

lemma expiry_never_counted:
  "expired_attempt (attempt_of W e D leader congestion slot units tip use_jito route signature f) = False"
  by (simp add: attempt_of_def expired_attempt_def py_lower_def)

text \<open>
  The bid \<open>execute_swap\<close> asks for names neither leader nor contention, so neither what the model learned
  of leaders and contention nor the cells of the curve that depend on them ever move it.
\<close>

lemma swap_bid_ignores_leaders:
  "contention_scaled M recommended lamports None = None" "leader_scaled M lamports '''' = None"
  "fst ` set (cell_ladder C bucket '''' None congestion) = {''congestion'', ''pooled''}"
  by (simp_all add: contention_scaled_def leader_scaled_def cell_ladder_def contention_probability_def contention_bucket_def
      landing_probability_def Let_def congestion_bucket_def measured_estimate_def split: option.split)

subsection \<open>The tip is capped and never under the floor it competes with\<close>

text \<open>
  The tip of a bundle, with the bid chosen as the engine chooses it, never exceeds five million
  lamports once the chain's floor or the landing curves had a say, and is not below the observed floor
  as long as that floor is within the cap.
\<close>
lemma tip_within_cap:
  assumes "W' = W\<lparr>bid := swap_bid C M e edge sol_price congestion slot\<rparr>"
    and "0 \<le> floor_tip" "tip_floor W = (if floor_tip = 0 then None else Some floor_tip)"
  shows "(floor_tip \<noteq> 0 \<or> fst (swap_bid C M e edge sol_price congestion slot tip) \<longrightarrow> choose_tip W' True tip \<le> 5000000)
    \<and> (floor_tip \<le> 5000000 \<longrightarrow> floor_tip \<le> choose_tip W' True tip \<or> (floor_tip = 0 \<and> choose_tip W' True tip = tip))
    \<and> choose_tip W' False tip = tip"
proof -
  have f: "(case tip_floor W' of None \<Rightarrow> 0 | Some t \<Rightarrow> t) = floor_tip" using assms by simp
  have b: "bid W' = swap_bid C M e edge sol_price congestion slot" using assms(1) by simp
  show ?thesis
    unfolding choose_tip_def Let_def f b by (auto split: prod.split)
qed


subsection \<open>Witnesses\<close>

definition sample_desk :: landing_desk where
  "sample_desk = \<lparr>desk_router = sample_router, desk_model = new_landing_model 100 20 False [],
     desk_curve = new_conditioned_curve 30 True, desk_schedule = None, desk_region = ''eu''\<rparr>"

text \<open>A live submission over the sample router whose first receipt is confirmed by the chain.\<close>

theorem submission_learned_once_witness:
  "\<exists>a. desk_model (fst (submit_and_learn live_world [[sample_answer]] True None None 400000 (live_engine empty_gate) sample_desk
      ''tx'' 1 100 0 False PUMP_NATIVE WSOL_MINT USDC_MINT))
    = record_landing_attempt True a (desk_model sample_desk) \<and> at_real a"
proof -
  obtain D' e' r where sub: "submit_and_learn live_world [[sample_answer]] True None None 400000 (live_engine empty_gate) sample_desk
      ''tx'' 1 100 0 False PUMP_NATIVE WSOL_MINT USDC_MINT = (D', e', r)" by (metis prod_cases3)
  have "race_answers False [[sample_answer]] (desk_router sample_desk)"
    by (simp add: sample_desk_def race_answers_def enabled_routes_def sample_router_def sample_answer_def sample_route_def
        register_def new_router_def)
  moreover have "reachable_router 3 30 (desk_router sample_desk)"
    using Step [OF Step [OF Start Registered] Registered] by (simp add: sample_desk_def sample_router_def sample_route_def)
  moreover have "result_signature r = Some ''sig''"
    using submit_learn_engine [OF sub] by (simp add: prod_eq_iff submit_signed_def Let_def filled_result_says truthy_def
        result_of_race_def race_submitted_any_def race_def enabled_routes_def sample_desk_def sample_router_def sample_route_def
        register_def new_router_def launch_def new_outcome_def sample_answer_def settle_answer_def refused_answer_def)
  ultimately show ?thesis using submission_learned_once [OF sub] sub by (auto simp: live_engine_def)
qed

end
