(* ===== verification/FeedRace.thy ===== *)
theory FeedRace
  imports PyText Interfaces "HOL-Library.Product_Lexorder"
begin

text \<open>
  \<open>runtime/feed_race.py\<close>: several feeds, one decision per event.  Arrival times are arguments; the
  dictionaries keep their insertion order, which the eviction of delivered keys relies on.
\<close>

definition SETTLE_SECONDS :: pyfloat where "SETTLE_SECONDS = 5"
definition MIN_EVENTS_FOR_VERDICT :: nat where "MIN_EVENTS_FOR_VERDICT = 50"

record raced_event =
  event_key :: string
  first_seen :: pyfloat
  arrivals :: "(string, pyfloat) dict"

definition settled :: "raced_event \<Rightarrow> pyfloat \<Rightarrow> bool" where
  "settled e now \<longleftrightarrow> SETTLE_SECONDS \<le> fsub now (first_seen e)"

text \<open>\<open>min(items, key=...)\<close>: the first of the smallest.\<close>

fun first_min :: "(string \<times> pyfloat) \<Rightarrow> (string \<times> pyfloat) list \<Rightarrow> string \<times> pyfloat" where
  "first_min best [] = best"
| "first_min best (x # xs) = first_min (if snd x < snd best then x else best) xs"

definition winner :: "raced_event \<Rightarrow> string option" where
  "winner e = (case arrivals e of [] \<Rightarrow> None | x # xs \<Rightarrow> Some (fst (first_min x xs)))"

record feed_race =
  feeds :: "string list"
  history :: nat
  open_events :: "(string, raced_event) dict"
  settled_events :: "raced_event list"
  delivered :: "(string, unit) dict"
  delivered_capacity :: nat
  duplicates :: nat

definition new_race :: "string list \<Rightarrow> nat \<Rightarrow> feed_race" where
  "new_race fs hist =
     \<lparr>feeds = fs, history = hist, open_events = [], settled_events = [], delivered = [],
      delivered_capacity = max 1 (hist * 2), duplicates = 0\<rparr>"

definition register_feed :: "feed_race \<Rightarrow> string \<Rightarrow> feed_race" where
  "register_feed r feed = (if feed \<in> set (feeds r) then r else r\<lparr>feeds := feeds r @ [feed]\<rparr>)"

definition sweep_key :: "feed_race \<Rightarrow> string \<Rightarrow> feed_race" where
  "sweep_key r key =
     (case dget (open_events r) key of
        None \<Rightarrow> r
      | Some e \<Rightarrow> r\<lparr>open_events := dpop key (open_events r),
                    settled_events := push_bounded (history r) e (settled_events r)\<rparr>)"

definition sweep :: "feed_race \<Rightarrow> pyfloat \<Rightarrow> feed_race" where
  "sweep r now = foldl sweep_key r (map fst (filter (\<lambda>(k, e). settled e now) (open_events r)))"

definition observe :: "feed_race \<Rightarrow> string \<Rightarrow> string \<Rightarrow> pyfloat \<Rightarrow> feed_race \<times> bool" where
  "observe r feed key moment =
     (let r = register_feed r feed
      in case dget (open_events r) key of
           None \<Rightarrow>
             if key \<in> set (dkeys (delivered r)) then (r\<lparr>duplicates := duplicates r + 1\<rparr>, False)
             else
               let e = \<lparr>event_key = key, first_seen = moment, arrivals = [(feed, moment)]\<rparr>;
                   r = r\<lparr>open_events := dput key e (open_events r),
                         delivered := evict_oldest (delivered_capacity r) (dput key () (delivered r))\<rparr>
               in (sweep r moment, True)
         | Some e \<Rightarrow>
             let e' = (if feed \<in> set (dkeys (arrivals e)) then e
                       else e\<lparr>arrivals := dput feed moment (arrivals e)\<rparr>);
                 r = r\<lparr>open_events := dput key e' (open_events r), duplicates := duplicates r + 1\<rparr>
             in (sweep r moment, False))"

record feed_verdict =
  verdict_status :: string
  verdict_feed :: string
  verdict_delivered :: nat
  verdict_wins :: nat
  verdict_unique :: nat
  coverage :: pyfloat
  lead_p50_ms :: "pyfloat option"
  lead_p95_ms :: "pyfloat option"
  verdict_detail :: string

definition win_share :: "feed_verdict \<Rightarrow> pyfloat option" where
  "win_share v = (if verdict_status v \<noteq> ''OK'' \<or> verdict_delivered v = 0 then None
     else Some (int_div (int (verdict_wins v)) (int (verdict_delivered v))))"

definition percentile :: "pyfloat list \<Rightarrow> pyfloat \<Rightarrow> pyfloat option" where
  "percentile values fraction =
     (if values = [] then None
      else
        let n = int (length values);
            index = min (n - 1) (max 0 (round_half_even (fmul fraction (of_int (n - 1)))))
        in Some (sort values ! nat index))"

definition lead_of :: "string \<Rightarrow> raced_event \<Rightarrow> pyfloat list" where
  "lead_of feed e =
     (case map snd (filter (\<lambda>(name, t). name \<noteq> feed) (arrivals e)) of
        [] \<Rightarrow> []
      | t # ts \<Rightarrow> [fmul (fsub (fold min ts t) (dget_or (arrivals e) feed 0)) 1000])"

definition verdict :: "feed_race \<Rightarrow> string \<Rightarrow> feed_verdict" where
  "verdict r feed =
     (let events = settled_events r; n = length events
      in if n < MIN_EVENTS_FOR_VERDICT then
           \<lparr>verdict_status = ''DATA_BLOCKED'', verdict_feed = feed, verdict_delivered = n, verdict_wins = 0,
            verdict_unique = 0, coverage = 0, lead_p50_ms = None, lead_p95_ms = None,
            verdict_detail = nat_str n @ '' settled events, below the '' @ nat_str MIN_EVENTS_FOR_VERDICT
              @ '' needed''\<rparr>
         else
           let got = filter (\<lambda>e. feed \<in> set (dkeys (arrivals e))) events;
               wins = filter (\<lambda>e. winner e = Some feed) got;
               alone = filter (\<lambda>e. length (arrivals e) = 1) got;
               leads = concat (map (lead_of feed) wins)
           in \<lparr>verdict_status = ''OK'', verdict_feed = feed, verdict_delivered = length got,
               verdict_wins = length wins, verdict_unique = length alone,
               coverage = int_div (int (length got)) (int n),
               lead_p50_ms = percentile leads (1 / 2), lead_p95_ms = percentile leads (fl (95 / 100)),
               verdict_detail = ''delivered '' @ nat_str (length got) @ '' of '' @ nat_str n
                 @ '' settled events, first on '' @ nat_str (length wins) @ '', alone on ''
                 @ nat_str (length alone)\<rparr>)"

text \<open>\<open>round(x, 3)\<close>; a stable descending sort is the ascending one reversed on both sides.\<close>

definition round3 :: "pyfloat \<Rightarrow> pyfloat" where
  "round3 x = fl (of_int (round_half_even (x * 1000)) / 1000)"

definition feed_rank :: "feed_verdict \<Rightarrow> pyfloat \<times> pyfloat" where
  "feed_rank v = (round3 (coverage v), case win_share v of None \<Rightarrow> 0 | Some w \<Rightarrow> w)"

definition best_feed :: "feed_race \<Rightarrow> string option" where
  "best_feed r =
     (case rev (sort_key feed_rank (rev (filter (\<lambda>v. verdict_status v = ''OK'') (map (verdict r) (feeds r))))) of
        [] \<Rightarrow> None
      | v # _ \<Rightarrow> Some (verdict_feed v))"

subsection \<open>One decision per event\<close>

lemma sweep_key_keeps [simp]:
  "delivered (sweep_key r k) = delivered r" "delivered_capacity (sweep_key r k) = delivered_capacity r"
  "duplicates (sweep_key r k) = duplicates r" "feeds (sweep_key r k) = feeds r" "history (sweep_key r k) = history r"
  by (simp_all add: sweep_key_def split: option.split)

lemma sweep_keeps [simp]:
  "delivered (sweep r now) = delivered r" "delivered_capacity (sweep r now) = delivered_capacity r"
  "duplicates (sweep r now) = duplicates r" "feeds (sweep r now) = feeds r" "history (sweep r now) = history r"
proof -
  have "delivered (foldl sweep_key r ks) = delivered r
      \<and> delivered_capacity (foldl sweep_key r ks) = delivered_capacity r
      \<and> duplicates (foldl sweep_key r ks) = duplicates r \<and> feeds (foldl sweep_key r ks) = feeds r
      \<and> history (foldl sweep_key r ks) = history r" for ks
    by (induction ks arbitrary: r) simp_all
  then show "delivered (sweep r now) = delivered r" "delivered_capacity (sweep r now) = delivered_capacity r"
    "duplicates (sweep r now) = duplicates r" "feeds (sweep r now) = feeds r" "history (sweep r now) = history r"
    by (simp_all add: sweep_def)
qed

lemma register_keeps [simp]:
  "delivered (register_feed r f) = delivered r" "delivered_capacity (register_feed r f) = delivered_capacity r"
  "open_events (register_feed r f) = open_events r" "duplicates (register_feed r f) = duplicates r"
  "settled_events (register_feed r f) = settled_events r" "history (register_feed r f) = history r"
  by (simp_all add: register_feed_def)

lemma observe_delivered:
  "snd (observe r feed key t) \<Longrightarrow> key \<notin> set (dkeys (delivered r))
     \<and> delivered (fst (observe r feed key t)) = evict_oldest (delivered_capacity r) (delivered r @ [(key, ())])"
  "\<not> snd (observe r feed key t) \<Longrightarrow> delivered (fst (observe r feed key t)) = delivered r"
  "delivered_capacity (fst (observe r feed key t)) = delivered_capacity r"
  by (auto simp: observe_def Let_def dput_new split: option.splits if_splits)

lemma observe_duplicates:
  "duplicates (fst (observe r feed key t)) = duplicates r + (if snd (observe r feed key t) then 0 else 1)"
  by (auto simp: observe_def Let_def split: option.splits)

text \<open>A race with, as a ghost, the keys of the arrivals that were answered with \<open>True\<close>, in order.\<close>

type_synonym raced = "feed_race \<times> string list"

definition race_step :: "raced \<Rightarrow> string \<times> string \<times> pyfloat \<Rightarrow> raced" where
  "race_step s arrival =
     (case arrival of (feed, key, t) \<Rightarrow>
        let (r, new) = observe (fst s) feed key t in (r, if new then snd s @ [key] else snd s))"

definition far_apart :: "nat \<Rightarrow> string list \<Rightarrow> bool" where
  "far_apart cap ks \<longleftrightarrow> (\<forall>i j. i < j \<and> j < length ks \<and> ks ! i = ks ! j \<longrightarrow> i + cap < j)"

definition race_inv :: "nat \<Rightarrow> raced \<Rightarrow> bool" where
  "race_inv cap s \<longleftrightarrow> delivered_capacity (fst s) = cap
     \<and> dkeys (delivered (fst s)) = evict_oldest cap (snd s) \<and> far_apart cap (snd s)"

lemma evict_oldest_snoc: "evict_oldest cap (evict_oldest cap xs @ [x]) = evict_oldest cap (xs @ [x])"
proof (cases "length xs < cap")
  case True
  then show ?thesis by simp
next
  case False
  then show ?thesis by (cases cap) (auto simp: evict_oldest_drop Suc_diff_le [symmetric])
qed

lemma far_apart_snoc:
  assumes "far_apart cap ks" "k \<notin> set (evict_oldest cap ks)" shows "far_apart cap (ks @ [k])"
  unfolding far_apart_def
proof (intro allI impI)
  fix i j assume A: "i < j \<and> j < length (ks @ [k]) \<and> (ks @ [k]) ! i = (ks @ [k]) ! j"
  show "i + cap < j"
  proof (cases "j < length ks")
    case True
    then have "i < j" "ks ! i = ks ! j" using A by (auto simp: nth_append)
    then show ?thesis using True assms(1) by (simp add: far_apart_def)
  next
    case False
    then have j: "j = length ks" "i < length ks" "ks ! i = k" using A by (auto simp: nth_append)
    have "\<not> length ks - cap \<le> i"
    proof
      assume "length ks - cap \<le> i"
      then have "k \<in> set (drop (length ks - cap) ks)"
        using j(2,3) in_set_conv_nth [of k "drop (length ks - cap) ks"]
        by (auto intro!: exI [of _ "i - (length ks - cap)"])
      then show False using assms(2) by (simp add: evict_oldest_drop)
    qed
    then show ?thesis using j(1) by simp
  qed
qed

interpretation race: machine race_step "race_inv cap" for cap
proof
  fix s and arrival :: "string \<times> string \<times> pyfloat" assume inv: "race_inv cap s"
  obtain feed key t where a: "arrival = (feed, key, t)" by (metis prod_cases3)
  show "race_inv cap (race_step s arrival)"
  proof (cases "snd (observe (fst s) feed key t)")
    case True
    then show ?thesis
      using inv observe_delivered(1) [OF True] observe_delivered(3) [of "fst s" feed key t]
      by (simp add: race_step_def a race_inv_def split_beta Let_def map_evict_oldest evict_oldest_snoc far_apart_snoc)
  next
    case False
    then show ?thesis
      using inv observe_delivered(2) [OF False] observe_delivered(3) [of "fst s" feed key t]
      by (simp add: race_step_def a race_inv_def split_beta Let_def)
  qed
qed

lemma run_race_counts:
  "length (snd (run race_step s as)) + duplicates (fst (run race_step s as))
     = length (snd s) + duplicates (fst s) + length as"
proof (induction as arbitrary: s)
  case (Cons a as)
  obtain feed key t where a: "a = (feed, key, t)" by (metis prod_cases3)
  have "length (snd (race_step s a)) + duplicates (fst (race_step s a)) = length (snd s) + duplicates (fst s) + 1"
    by (simp add: race_step_def a split_beta Let_def observe_duplicates)
  then show ?case using Cons.IH [of "race_step s a"] by simp
qed simp

lemma new_race_inv: "race_inv (max 1 (hist * 2)) (new_race fs hist, [])"
  by (simp add: race_inv_def new_race_def far_apart_def)

subsection \<open>Properties\<close>


definition sample_arrivals :: "(string \<times> string \<times> pyfloat) list" where
  "sample_arrivals = [(''a'', ''k1'', 0), (''b'', ''k1'', 1), (''a'', ''k2'', 2)]"


lemma sort_key_rev_hd:
  assumes "rev (sort_key f (rev xs)) = v # vs" shows "v \<in> set xs \<and> (\<forall>w \<in> set xs. f w \<le> f v)"
proof -
  have set: "set (v # vs) = set xs" using assms by (metis set_rev set_sort)
  have "sorted (map f (sort_key f (rev xs)))" by simp
  then have "sorted (rev (map f (v # vs)))" by (metis assms rev_map rev_rev_ident)
  then have "\<forall>w \<in> set vs. f w \<le> f v" by (simp add: sorted_append)
  then show ?thesis using set by auto
qed

text \<open>
  The feed named best is a registered feed with a measured verdict, and no measured feed covers a
  larger share of the settled events at the three decimals compared.
\<close>

lemma best_feed_covers_most:
  assumes "best_feed r = Some best"
  shows "best \<in> set (feeds r) \<and> verdict_status (verdict r best) = ''OK''
    \<and> (\<forall>f \<in> set (feeds r). verdict_status (verdict r f) = ''OK'' \<longrightarrow>
         round3 (coverage (verdict r f)) \<le> round3 (coverage (verdict r best)))"
proof -
  let ?vs = "filter (\<lambda>v. verdict_status v = ''OK'') (map (verdict r) (feeds r))"
  obtain v vs where v: "rev (sort_key feed_rank (rev ?vs)) = v # vs" "verdict_feed v = best"
    using assms by (auto simp: best_feed_def split: list.splits)
  note H = sort_key_rev_hd [OF v(1)]
  have "verdict_feed (verdict r f) = f" for f by (simp add: verdict_def Let_def)
  then have "v = verdict r best" "best \<in> set (feeds r)" "verdict_status v = ''OK''" using H v(2) by auto
  moreover have "round3 (coverage w) \<le> round3 (coverage v)" if "w \<in> set ?vs" for w
    using H that by (auto simp: feed_rank_def less_eq_prod_def)
  ultimately show ?thesis by auto
qed


end
