(* ===== verification/HotState.thy ===== *)
theory HotState
  imports PyText Interfaces "HOL-Library.Product_Lexorder"
begin

text \<open>
  \<open>runtime/hot_state.py\<close>: the bounded resident state of the trading node.  The exponential function
  of the standard library is an argument (\<open>fexp\<close>); so are the clock, the size of the local archive,
  the length a serialized batch has, and whether the disk accepts it.
\<close>

record hot_budget =
  max_active_tokens :: nat
  max_hot_wallets :: nat
  max_hot_creators :: nat
  max_event_age_seconds :: pyfloat
  max_archive_queue :: nat
  max_local_archive_gb :: pyfloat

record wallet_dna =
  dna_wallet :: string
  launches_seen :: int
  early_entry_rate :: pyfloat
  monster_rate :: pyfloat
  rug_exposure :: pyfloat
  median_entry_age_s :: pyfloat
  median_exit_age_s :: pyfloat
  pnl_quality :: pyfloat
  independence :: pyfloat
  cluster_id :: string
  creator_links :: int
  last_active :: pyfloat
  dna_status :: string
  observed_entries :: int

definition unmeasured_wallet :: "string \<Rightarrow> wallet_dna" where
  "unmeasured_wallet w =
     \<lparr>dna_wallet = w, launches_seen = 0, early_entry_rate = 0, monster_rate = 0, rug_exposure = 0,
      median_entry_age_s = 0, median_exit_age_s = 0, pnl_quality = 0, independence = 0, cluster_id = '''',
      creator_links = 0, last_active = 0, dna_status = ''UNMEASURED'', observed_entries = 0\<rparr>"

definition wallet_information :: "(pyfloat \<Rightarrow> pyfloat) \<Rightarrow> wallet_dna \<Rightarrow> pyfloat" where
  "wallet_information fexp w =
     (if dna_status w \<noteq> ''OK'' \<or> launches_seen w \<le> 0 then 0
      else fmul (max (max (monster_rate w) (rug_exposure w)) \<bar>pnl_quality w\<bar>)
             (fsub 1 (fexp (fdiv (float_of_int (- launches_seen w)) 20))))"

record creator_dna =
  dna_creator :: string
  launches :: int
  rug_rate :: pyfloat
  creator_monster_rate :: pyfloat
  median_dump_delay_s :: pyfloat
  migration_rate :: pyfloat
  funder_quality :: pyfloat
  creator_cluster_id :: string
  creator_last_active :: pyfloat
  creator_status :: string
  observed_creations :: int

definition unmeasured_creator :: "string \<Rightarrow> creator_dna" where
  "unmeasured_creator c =
     \<lparr>dna_creator = c, launches = 0, rug_rate = 0, creator_monster_rate = 0, median_dump_delay_s = 0,
      migration_rate = 0, funder_quality = 0, creator_cluster_id = '''', creator_last_active = 0,
      creator_status = ''UNMEASURED'', observed_creations = 0\<rparr>"

definition creator_information :: "(pyfloat \<Rightarrow> pyfloat) \<Rightarrow> creator_dna \<Rightarrow> pyfloat" where
  "creator_information fexp c =
     (if creator_status c \<noteq> ''OK'' \<or> launches c \<le> 0 then 0
      else fmul (max (rug_rate c) (creator_monster_rate c))
             (fsub 1 (fexp (fdiv (float_of_int (- launches c)) 5))))"

subsection \<open>The economic cache\<close>

record 'v economic_cache =
  cache_capacity :: nat
  half_life :: pyfloat
  items :: "(string, 'v) dict"
  touched :: "(string, pyfloat) dict"
  evictions :: nat

definition new_economic_cache :: "nat \<Rightarrow> pyfloat \<Rightarrow> 'v economic_cache" where
  "new_economic_cache cap half =
     \<lparr>cache_capacity = max 1 cap, half_life = max 1 half, items = [], touched = [], evictions = 0\<rparr>"

text \<open>\<open>math.log(2.0)\<close>.\<close>

definition LN2 :: pyfloat where "LN2 = fl (6931471805599453 / 10 ^ 16)"

definition recency_weight :: "(pyfloat \<Rightarrow> pyfloat) \<Rightarrow> 'v economic_cache \<Rightarrow> string \<Rightarrow> pyfloat \<Rightarrow> pyfloat" where
  "recency_weight fexp c key now =
     (let age = max 0 (fsub now (dget_or (touched c) key now))
      in fexp (fdiv (fmul (- age) LN2) (half_life c)))"

text \<open>What a cache is given at construction: the value of a record, and which records are pinned.\<close>

record 'v valuation =
  information :: "'v \<Rightarrow> pyfloat"
  pinned :: "'v \<Rightarrow> bool"

text \<open>A score: \<open>(True, _)\<close> is infinite, above every finite one.\<close>

definition score ::
    "(pyfloat \<Rightarrow> pyfloat) \<Rightarrow> 'v valuation \<Rightarrow> 'v economic_cache \<Rightarrow> string \<Rightarrow> pyfloat \<Rightarrow> bool \<times> pyfloat" where
  "score fexp V c key now =
     (case dget (items c) key of
        None \<Rightarrow> (False, 0)
      | Some v \<Rightarrow>
          if pinned V v then (True, 0)
          else (False, fmul (fadd (information V v) (fl (1 / 10 ^ 6))) (recency_weight fexp c key now)))"

definition pick_victim :: "(pyfloat \<Rightarrow> pyfloat) \<Rightarrow> 'v valuation \<Rightarrow> 'v economic_cache \<Rightarrow> pyfloat \<Rightarrow> string" where
  "pick_victim fexp V c now =
     (let victim = hd (sort_key (\<lambda>k. score fexp V c k now) (dkeys (items c)))
      in if fst (score fexp V c victim now)
         then hd (sort_key (\<lambda>k. dget_or (touched c) k 0) (dkeys (items c)))
         else victim)"

definition drop_victim :: "'v economic_cache \<Rightarrow> string \<Rightarrow> 'v economic_cache" where
  "drop_victim c k = c\<lparr>items := dpop k (items c), touched := dpop k (touched c), evictions := evictions c + 1\<rparr>"

lemma hd_sort_key_in: "xs \<noteq> [] \<Longrightarrow> hd (sort_key f xs) \<in> set xs"
  by (metis hd_in_set set_sort set_empty)

lemma pick_victim_in: "items c \<noteq> [] \<Longrightarrow> pick_victim fexp V c now \<in> set (dkeys (items c))"
  by (simp add: pick_victim_def Let_def hd_sort_key_in del: set_map)

function evict :: "(pyfloat \<Rightarrow> pyfloat) \<Rightarrow> 'v valuation \<Rightarrow> 'v economic_cache \<Rightarrow> pyfloat \<Rightarrow> 'v economic_cache" where
  "evict fexp V c now =
     (if cache_capacity c < length (items c) then evict fexp V (drop_victim c (pick_victim fexp V c now)) now else c)"
  by pat_completeness auto
termination
proof (relation "measure (\<lambda>(_, _, c, _). length (items c))")
  show "wf (measure (\<lambda>(_, _, c, _). length (items c)))" by simp
next
  fix fexp V now and c :: "'v economic_cache"
  assume "cache_capacity c < length (items c)"
  then have "items c \<noteq> []" by auto
  then show "((fexp, V, drop_victim c (pick_victim fexp V c now), now), fexp, V, c, now)
      \<in> measure (\<lambda>(_, _, c, _). length (items c))"
    by (simp add: drop_victim_def length_dpop_less pick_victim_in del: set_map)
qed

declare evict.simps [simp del]

definition cache_put ::
    "(pyfloat \<Rightarrow> pyfloat) \<Rightarrow> 'v valuation \<Rightarrow> 'v economic_cache \<Rightarrow> string \<Rightarrow> 'v \<Rightarrow> pyfloat \<Rightarrow> 'v economic_cache" where
  "cache_put fexp V c key v now =
     evict fexp V (c\<lparr>items := dput key v (items c), touched := dput key now (touched c)\<rparr>) now"

definition cache_get :: "'v economic_cache \<Rightarrow> string \<Rightarrow> pyfloat \<Rightarrow> 'v economic_cache \<times> 'v option" where
  "cache_get c key now =
     (case dget (items c) key of
        None \<Rightarrow> (c, None)
      | Some v \<Rightarrow> (c\<lparr>touched := dput key now (touched c)\<rparr>, Some v))"

definition cache_peek :: "'v economic_cache \<Rightarrow> string \<Rightarrow> 'v option" where
  "cache_peek c key = dget (items c) key"

subsection \<open>The archive hand-off\<close>

record 'r archive =
  queue_limit :: nat
  quota_gb :: pyfloat
  pending :: "'r list"
  queued :: nat
  written :: nat
  dropped :: nat
  bytes_written :: nat
  quota_stops :: nat

definition new_archive :: "hot_budget \<Rightarrow> 'r archive" where
  "new_archive b =
     \<lparr>queue_limit = max_archive_queue b, quota_gb = max_local_archive_gb b, pending = [], queued = 0,
      written = 0, dropped = 0, bytes_written = 0, quota_stops = 0\<rparr>"

text \<open>\<open>popleft\<close> of an empty deque, with a limit of 0, raises \<open>IndexError\<close>: \<open>None\<close>.\<close>

definition submit :: "'r archive \<Rightarrow> 'r \<Rightarrow> 'r archive \<times> bool option" where
  "submit a r =
     (let a = a\<lparr>queued := queued a + 1\<rparr>
      in if queue_limit a \<le> length (pending a) then
           (if pending a = [] then (a, None)
            else (a\<lparr>pending := tl (pending a) @ [r], dropped := dropped a + 1\<rparr>, Some False))
         else (a\<lparr>pending := pending a @ [r]\<rparr>, Some True))"

text \<open>
  What the world answers a drain: the bytes already in the spool, and the length of the written
  payload, or \<open>None\<close> when serializing or writing raises.
\<close>

definition drain :: "'r archive \<Rightarrow> nat option \<Rightarrow> int \<Rightarrow> ('r list \<Rightarrow> nat option) \<Rightarrow> 'r archive \<times> nat option" where
  "drain a limit local_bytes write =
     (let n = (case limit of None \<Rightarrow> length (pending a) | Some l \<Rightarrow> min l (length (pending a)));
          batch = take n (pending a);
          a = a\<lparr>pending := drop n (pending a)\<rparr>
      in if batch = [] then (a, Some 0)
         else if py_trunc (fmul (quota_gb a) (of_int (1024 ^ 3))) \<le> local_bytes
         then (a\<lparr>quota_stops := quota_stops a + 1, dropped := dropped a + length batch\<rparr>, Some 0)
         else case write batch of
                None \<Rightarrow> (a, None)
              | Some n_bytes \<Rightarrow>
                  (a\<lparr>written := written a + length batch, bytes_written := bytes_written a + n_bytes\<rparr>,
                   Some (length batch)))"

subsection \<open>The node\<close>

record 'r hot_state =
  budget :: hot_budget
  wallets :: "wallet_dna economic_cache"
  creators :: "creator_dna economic_cache"
  active_tokens :: "(string, pyfloat) dict"
  hot_archive :: "'r archive"

definition new_hot_state :: "hot_budget \<Rightarrow> 'r hot_state" where
  "new_hot_state b =
     \<lparr>budget = b, wallets = new_economic_cache (max_hot_wallets b) 1800,
      creators = new_economic_cache (max_hot_creators b) 1800, active_tokens = [], hot_archive = new_archive b\<rparr>"

definition wallet_valuation :: "(pyfloat \<Rightarrow> pyfloat) \<Rightarrow> string list \<Rightarrow> wallet_dna valuation" where
  "wallet_valuation fexp clusters =
     \<lparr>information = wallet_information fexp, pinned = (\<lambda>w. clusters \<noteq> [] \<and> cluster_id w \<in> set clusters)\<rparr>"

definition creator_valuation :: "(pyfloat \<Rightarrow> pyfloat) \<Rightarrow> string list \<Rightarrow> creator_dna valuation" where
  "creator_valuation fexp clusters =
     \<lparr>information = creator_information fexp, pinned = (\<lambda>c. clusters \<noteq> [] \<and> creator_cluster_id c \<in> set clusters)\<rparr>"

definition observe_wallet_entry ::
    "(pyfloat \<Rightarrow> pyfloat) \<Rightarrow> string list \<Rightarrow> 'r hot_state \<Rightarrow> string \<Rightarrow> pyfloat \<Rightarrow> 'r hot_state" where
  "observe_wallet_entry fexp clusters s wallet now =
     (let previous = (case cache_peek (wallets s) wallet of None \<Rightarrow> unmeasured_wallet wallet | Some w \<Rightarrow> w)
      in s\<lparr>wallets := cache_put fexp (wallet_valuation fexp clusters) (wallets s) wallet
             (previous\<lparr>observed_entries := observed_entries previous + 1, last_active := now\<rparr>) now\<rparr>)"

definition observe_creator ::
    "(pyfloat \<Rightarrow> pyfloat) \<Rightarrow> string list \<Rightarrow> 'r hot_state \<Rightarrow> string \<Rightarrow> pyfloat \<Rightarrow> 'r hot_state" where
  "observe_creator fexp clusters s creator_key now =
     (let previous = (case cache_peek (creators s) creator_key of None \<Rightarrow> unmeasured_creator creator_key | Some c \<Rightarrow> c)
      in s\<lparr>creators := cache_put fexp (creator_valuation fexp clusters) (creators s) creator_key
             (previous\<lparr>observed_creations := observed_creations previous + 1, creator_last_active := now\<rparr>) now\<rparr>)"

definition expire_tokens :: "'r hot_state \<Rightarrow> pyfloat \<Rightarrow> 'r hot_state \<times> nat" where
  "expire_tokens s now =
     (let cutoff = fsub now (max_event_age_seconds (budget s));
          stale = map fst (filter (\<lambda>(k, seen_at). seen_at < cutoff) (active_tokens s))
      in (s\<lparr>active_tokens := fold dpop stale (active_tokens s)\<rparr>, length stale))"

definition touch_token :: "'r hot_state \<Rightarrow> string \<Rightarrow> pyfloat \<Rightarrow> 'r hot_state" where
  "touch_token s token now =
     (let s = fst (expire_tokens (s\<lparr>active_tokens := dput token now (active_tokens s)\<rparr>) now);
          n = length (active_tokens s); cap = max_active_tokens (budget s)
      in if cap < n then
           s\<lparr>active_tokens := fold dpop (map fst (take (n - cap) (sort_key snd (active_tokens s)))) (active_tokens s)\<rparr>
         else s)"


subsection \<open>Eviction\<close>

text \<open>The caps and the pins: no pinned record leaves while an unpinned one stays.\<close>

definition cache_wf :: "'v economic_cache \<Rightarrow> bool" where
  "cache_wf c \<longleftrightarrow> distinct (dkeys (items c)) \<and> length (items c) \<le> cache_capacity c"

definition all_pinned :: "'v valuation \<Rightarrow> 'v economic_cache \<Rightarrow> bool" where
  "all_pinned V c \<longleftrightarrow> (\<forall>k v. dget (items c) k = Some v \<longrightarrow> pinned V v)"

lemma drop_victim_simps [simp]:
  "cache_capacity (drop_victim c k) = cache_capacity c" "items (drop_victim c k) = dpop k (items c)"
  by (simp_all add: drop_victim_def)

lemma hd_sort_key_le: "x \<in> set xs \<Longrightarrow> f (hd (sort_key f xs)) \<le> f x"
proof -
  assume x: "x \<in> set xs"
  then obtain y ys where y: "sort_key f xs = y # ys" by (metis empty_iff list.exhaust list.set(1) set_sort)
  have "sorted (map f (y # ys))" by (metis y sorted_sort_key)
  moreover have "x \<in> set (y # ys)" using x by (metis y set_sort)
  ultimately show ?thesis unfolding y by auto
qed

lemma victim_pinned:
  assumes "items c \<noteq> []" "dget (items c) (pick_victim fexp V c now) = Some v" "pinned V v"
  shows "all_pinned V c"
proof -
  let ?h = "hd (sort_key (\<lambda>k. score fexp V c k now) (dkeys (items c)))"
  have "fst (score fexp V c ?h now)"
  proof (rule ccontr)
    assume h: "\<not> fst (score fexp V c ?h now)"
    then have "pick_victim fexp V c now = ?h" by (simp add: pick_victim_def Let_def)
    then show False using h assms(2,3) by (simp add: score_def)
  qed
  then have "fst (score fexp V c k now)" if "k \<in> set (dkeys (items c))" for k
    using hd_sort_key_le [OF that, of "\<lambda>k. score fexp V c k now"] by (auto simp: less_eq_prod_def)
  then have "fst (score fexp V c k now)" if "dget (items c) k = Some w" for k w
    using that by (metis dget_None_iff option.distinct(1))
  then show ?thesis unfolding all_pinned_def by (fastforce simp: score_def split: if_splits)
qed

lemma evict_bound:
  "length (items (evict fexp V c now)) \<le> cache_capacity c \<and> cache_capacity (evict fexp V c now) = cache_capacity c"
proof (induction fexp V c now rule: evict.induct)
  case (1 fexp V c now)
  then show ?case by (cases "cache_capacity c < length (items c)") (simp_all add: evict.simps [of fexp V c now])
qed

lemma evict_sub:
  "dget (items (evict fexp V c now)) k = Some v \<Longrightarrow> dget (items c) k = Some v"
proof (induction fexp V c now rule: evict.induct)
  case (1 fexp V c now)
  show ?case
  proof (cases "cache_capacity c < length (items c)")
    case True
    then have "dget (items (drop_victim c (pick_victim fexp V c now))) k = Some v"
      using 1 by (simp only: evict.simps [of fexp V c now] if_True)
    then show ?thesis by (auto split: if_splits)
  next
    case False
    then show ?thesis using 1(2) by (simp add: evict.simps [of fexp V c now])
  qed
qed

lemma all_pinned_evict: "all_pinned V c \<Longrightarrow> all_pinned V (evict fexp V c now)"
  unfolding all_pinned_def
proof (intro allI impI)
  fix k v assume all: "\<forall>k v. dget (items c) k = Some v \<longrightarrow> pinned V v"
    and kept: "dget (items (evict fexp V c now)) k = Some v"
  from kept have "dget (items c) k = Some v" by (rule evict_sub)
  then show "pinned V v" using all by simp
qed

lemma evict_distinct: "distinct (dkeys (items c)) \<Longrightarrow> distinct (dkeys (items (evict fexp V c now)))"
proof (induction fexp V c now rule: evict.induct)
  case (1 fexp V c now)
  then show ?case by (cases "cache_capacity c < length (items c)") (simp_all add: evict.simps [of fexp V c now])
qed

lemma evict_pins:
  "dget (items c) k = Some v \<Longrightarrow> pinned V v \<Longrightarrow> dget (items (evict fexp V c now)) k = None
     \<Longrightarrow> all_pinned V (evict fexp V c now)"
proof (induction fexp V c now rule: evict.induct)
  case (1 fexp V c now)
  let ?x = "pick_victim fexp V c now"
  show ?case
  proof (cases "cache_capacity c < length (items c)")
    case False
    then show ?thesis using 1(2,4) by (simp add: evict.simps [of fexp V c now])
  next
    case True
    then have E: "evict fexp V c now = evict fexp V (drop_victim c ?x) now"
      by (simp only: evict.simps [of fexp V c now] if_True)
    have ne: "items c \<noteq> []" using True by auto
    show ?thesis
    proof (cases "k = ?x")
      case True
      have "all_pinned V c" by (rule victim_pinned [OF ne 1(2) [unfolded True] 1(3)])
      then show ?thesis by (rule all_pinned_evict)
    next
      case False
      then have "dget (items (drop_victim c ?x)) k = Some v" using 1(2) by simp
      then show ?thesis unfolding E using 1(1) [OF True] 1(3,4) E by simp
    qed
  qed
qed

lemma cache_put_wf: "cache_wf c \<Longrightarrow> cache_wf (cache_put fexp V c k v now)"
  using evict_bound [of fexp V "c\<lparr>items := dput k v (items c), touched := dput k now (touched c)\<rparr>" now]
  by (simp add: cache_wf_def cache_put_def evict_distinct)

text \<open>
  A record that enters a full cache with the lowest score is the one evicted: the floor of the score
  does not protect a newcomer among records that have earned more.
\<close>

lemma newcomer_evicted:
  fixes now :: pyfloat
  assumes "distinct (dkeys (items c))" "length (items c) = cache_capacity c" "k \<notin> set (dkeys (items c))" "\<not> pinned V v"
  defines "c' \<equiv> c\<lparr>items := dput k v (items c), touched := dput k now (touched c)\<rparr>"
  assumes "\<forall>x \<in> set (dkeys (items c)). score fexp V c' k now < score fexp V c' x now"
  shows "dget (items (cache_put fexp V c k v now)) k = None"
proof -
  let ?h = "hd (sort_key (\<lambda>k. score fexp V c' k now) (dkeys (items c')))"
  have keys: "set (dkeys (items c')) = insert k (set (dkeys (items c)))"
    by (simp add: c'_def set_dkeys_dput del: set_map)
  have len: "length (items c') = Suc (cache_capacity c')"
    using assms(2,3) by (simp add: c'_def length_dput del: set_map)
  have "?h \<in> set (dkeys (items c'))" using len by (intro hd_sort_key_in) auto
  moreover have "score fexp V c' ?h now \<le> score fexp V c' k now"
    using keys by (intro hd_sort_key_le [of k _ "\<lambda>k. score fexp V c' k now"]) simp
  ultimately have h: "?h = k" using keys assms(6) by (metis insertE leD)
  have "dget (items c') k = Some v" by (simp add: c'_def)
  then have "\<not> fst (score fexp V c' k now)" using assms(4) by (simp add: score_def)
  then have victim: "pick_victim fexp V c' now = k" using h by (simp add: pick_victim_def Let_def)
  have "\<not> cache_capacity (drop_victim c' k) < length (items (drop_victim c' k))"
    using length_dpop_less [of k "items c'"] keys len by simp
  then have "evict fexp V c' now = drop_victim c' k"
    using len by (simp add: evict.simps [of fexp V c' now] evict.simps [of fexp V "drop_victim c' k" now] victim)
  then show ?thesis by (simp add: cache_put_def c'_def [symmetric])
qed

subsection \<open>Tokens\<close>

lemma fold_dpop_keys: "dkeys (fold dpop ks d) = filter (\<lambda>k. k \<notin> set ks) (dkeys d)"
proof (induction ks arbitrary: d)
  case (Cons k ks)
  have "dkeys (dpop k d) = filter (\<lambda>x. x \<noteq> k) (dkeys d)" by (induction d) auto
  then show ?case by (simp add: Cons del: set_map)
qed simp

lemma length_fold_dpop:
  assumes "distinct (dkeys d)" "distinct ks" "set ks \<subseteq> set (dkeys d)"
  shows "length (fold dpop ks d) = length d - length ks"
proof -
  have "length (fold dpop ks d) = length (filter (\<lambda>k. k \<notin> set ks) (dkeys d))"
    by (metis fold_dpop_keys length_map)
  also have "\<dots> = card (set (dkeys d) - set ks)"
    using assms(1) by (metis distinct_card distinct_filter set_diff_eq set_filter)
  also have "\<dots> = length d - length ks"
    using assms by (simp only: card_Diff_subset List.finite_set distinct_card length_map)
  finally show ?thesis .
qed

lemma distinct_fold_dpop: "distinct (dkeys d) \<Longrightarrow> distinct (dkeys (fold dpop ks d))"
  by (simp only: fold_dpop_keys distinct_filter)

definition tokens_wf :: "'r hot_state \<Rightarrow> bool" where
  "tokens_wf s \<longleftrightarrow> distinct (dkeys (active_tokens s)) \<and> length (active_tokens s) \<le> max_active_tokens (budget s)"

lemma expire_distinct:
  "distinct (dkeys (active_tokens s)) \<Longrightarrow> distinct (dkeys (active_tokens (fst (expire_tokens s now))))"
  by (simp add: expire_tokens_def Let_def distinct_fold_dpop)

lemma touch_token_wf: "distinct (dkeys (active_tokens s)) \<Longrightarrow> tokens_wf (touch_token s token now)"
proof -
  assume d: "distinct (dkeys (active_tokens s))"
  define s1 where "s1 = fst (expire_tokens (s\<lparr>active_tokens := dput token now (active_tokens s)\<rparr>) now)"
  have d1: "distinct (dkeys (active_tokens s1))" unfolding s1_def using d by (intro expire_distinct) simp
  let ?n = "length (active_tokens s1)" and ?cap = "max_active_tokens (budget s1)"
  let ?ks = "map fst (take (?n - ?cap) (sort_key snd (active_tokens s1)))"
  show ?thesis
  proof (cases "?cap < ?n")
    case True
    have sub: "set ?ks \<subseteq> set (dkeys (active_tokens s1))"
      by (metis set_take_subset set_sort image_mono set_map)
    have "distinct (map fst (sort_key snd (active_tokens s1)))"
      using d1 by (metis distinct_map distinct_sort set_sort)
    then have "distinct ?ks" by (metis distinct_take take_map)
    then have "length (fold dpop ?ks (active_tokens s1)) = ?n - length ?ks"
      by (rule length_fold_dpop [OF d1 _ sub])
    also have "\<dots> = ?cap" using True by simp
    finally show ?thesis
      using True d1 by (simp add: touch_token_def s1_def [symmetric] tokens_wf_def distinct_fold_dpop Let_def)
  next
    case False
    then show ?thesis using d1 by (simp add: touch_token_def s1_def [symmetric] tokens_wf_def Let_def)
  qed
qed


subsection \<open>Histories\<close>

text \<open>An archive with, as a ghost, the records that left it with an exception.\<close>

datatype 'r archive_event = Submit 'r | Drain "nat option" int "'r list \<Rightarrow> nat option"

definition archive_step :: "'r archive \<times> nat \<Rightarrow> 'r archive_event \<Rightarrow> 'r archive \<times> nat" where
  "archive_step s ev =
     (case ev of
        Submit r \<Rightarrow> (case submit (fst s) r of (a, Some b) \<Rightarrow> (a, snd s) | (a, None) \<Rightarrow> (a, snd s + 1))
      | Drain limit local_bytes write \<Rightarrow>
          (case drain (fst s) limit local_bytes write of
             (a, Some n) \<Rightarrow> (a, snd s)
           | (a, None) \<Rightarrow> (a, snd s + (length (pending (fst s)) - length (pending a)))))"

definition archive_inv :: "nat \<Rightarrow> 'r archive \<times> nat \<Rightarrow> bool" where
  "archive_inv limit s \<longleftrightarrow> queue_limit (fst s) = limit \<and> length (pending (fst s)) \<le> limit
     \<and> queued (fst s) = written (fst s) + dropped (fst s) + length (pending (fst s)) + snd s"

lemma archive_submit_inv: "archive_inv limit s \<Longrightarrow> archive_inv limit (archive_step s (Submit r))"
  by (auto simp: archive_step_def archive_inv_def submit_def Let_def Suc_le_eq)

lemma archive_drain_inv:
  assumes "archive_inv limit s" shows "archive_inv limit (archive_step s (Drain lmt local_bytes write))"
proof -
  obtain a lost where s: "s = (a, lost)" by fastforce
  define n where "n = (case lmt of None \<Rightarrow> length (pending a) | Some l \<Rightarrow> min l (length (pending a)))"
  have n: "n \<le> length (pending a)" by (simp add: n_def split: option.split)
  show ?thesis
    using assms n unfolding s archive_step_def drain_def n_def [symmetric] Let_def
    by (auto simp: archive_inv_def split: option.split)
qed

interpretation archives: machine archive_step "archive_inv limit" for limit
proof
  show "archive_inv limit s \<Longrightarrow> archive_inv limit (archive_step s e)" for s and e :: "'a archive_event"
    by (cases e) (simp_all add: archive_submit_inv archive_drain_inv)
qed

datatype hot_event = Wallet_entry string pyfloat | Creator_seen string pyfloat | Token_touched string pyfloat

definition hot_step ::
    "(pyfloat \<Rightarrow> pyfloat) \<Rightarrow> string list \<Rightarrow> 'r hot_state \<Rightarrow> hot_event \<Rightarrow> 'r hot_state" where
  "hot_step fexp clusters s ev =
     (case ev of
        Wallet_entry w now \<Rightarrow> observe_wallet_entry fexp clusters s w now
      | Creator_seen c now \<Rightarrow> observe_creator fexp clusters s c now
      | Token_touched t now \<Rightarrow> touch_token s t now)"

definition hot_inv :: "hot_budget \<Rightarrow> 'r hot_state \<Rightarrow> bool" where
  "hot_inv b s \<longleftrightarrow> budget s = b \<and> cache_wf (wallets s) \<and> cache_capacity (wallets s) = max 1 (max_hot_wallets b)
     \<and> cache_wf (creators s) \<and> cache_capacity (creators s) = max 1 (max_hot_creators b) \<and> tokens_wf s"

lemma cache_put_capacity [simp]: "cache_capacity (cache_put fexp V c k v now) = cache_capacity c"
  using evict_bound [of fexp V "c\<lparr>items := dput k v (items c), touched := dput k now (touched c)\<rparr>" now]
  by (simp add: cache_put_def)

lemma touch_token_keeps [simp]:
  "budget (touch_token s t now) = budget s" "wallets (touch_token s t now) = wallets s"
  "creators (touch_token s t now) = creators s"
  by (simp_all add: touch_token_def expire_tokens_def Let_def)

interpretation hot_node: machine "hot_step fexp clusters" "hot_inv b" for fexp clusters b
proof
  fix s :: "'a hot_state" and ev assume inv: "hot_inv b s"
  show "hot_inv b (hot_step fexp clusters s ev)"
  proof (cases ev)
    case (Wallet_entry w now)
    then show ?thesis
      using inv by (auto simp: hot_step_def observe_wallet_entry_def hot_inv_def tokens_wf_def Let_def cache_put_wf)
  next
    case (Creator_seen c now)
    then show ?thesis
      using inv by (auto simp: hot_step_def observe_creator_def hot_inv_def tokens_wf_def Let_def cache_put_wf)
  next
    case (Token_touched t now)
    then show ?thesis
      using inv touch_token_wf [of s t now] by (simp add: hot_step_def hot_inv_def tokens_wf_def)
  qed
qed

lemma new_hot_state_inv: "hot_inv b (new_hot_state b)"
  by (simp add: hot_inv_def new_hot_state_def cache_wf_def new_economic_cache_def tokens_wf_def)

subsection \<open>Properties\<close>

text \<open>
  The footprint is capped: whatever wallets, creators and tokens are observed, in whatever order
  and at whatever times, no component ever holds more than its budget allows.
\<close>

lemma hot_state_bounded:
  "let s = run (hot_step fexp clusters) (new_hot_state b :: 'r hot_state) evs
   in length (items (wallets s)) \<le> max 1 (max_hot_wallets b)
      \<and> length (items (creators s)) \<le> max 1 (max_hot_creators b)
      \<and> length (active_tokens s) \<le> max_active_tokens b"
proof -
  have "hot_inv b (run (hot_step fexp clusters) (new_hot_state b :: 'r hot_state) evs)"
    by (rule hot_node.run_inv [OF new_hot_state_inv])
  then show ?thesis by (auto simp: Let_def hot_inv_def cache_wf_def tokens_wf_def)
qed

text \<open>
  Eviction respects pins: when a put evicts a pinned record, every record that stays is pinned.
\<close>

lemma pinned_evicted_last:
  assumes "dget (items c) k = Some v" "pinned V v" "k \<noteq> new"
    and "dget (items (cache_put fexp V c new w now)) k = None"
    and "dget (items (cache_put fexp V c new w now)) k' = Some v'"
  shows "pinned V v'"
proof -
  let ?c = "c\<lparr>items := dput new w (items c), touched := dput new now (touched c)\<rparr>"
  have "dget (items ?c) k = Some v" using assms(1,3) by simp
  then have "all_pinned V (evict fexp V ?c now)"
    using assms(2,4) by (intro evict_pins) (simp_all add: cache_put_def)
  then show ?thesis using assms(5) by (auto simp: all_pinned_def cache_put_def)
qed

text \<open>
  Nothing leaves the archive queue unaccounted: every record submitted is written, counted as
  dropped, still pending within the queue's limit, or was in a batch whose write raised.
\<close>

lemma archive_conserves:
  assumes "run archive_step (new_archive b, 0) evs = (a, raised)"
  shows "queued a = written a + dropped a + length (pending a) + raised \<and> length (pending a) \<le> max_archive_queue b"
proof -
  have "archive_inv (max_archive_queue b) (new_archive b, 0)" by (simp add: archive_inv_def new_archive_def)
  from archives.run_inv [OF this, of evs] show ?thesis by (simp add: assms archive_inv_def)
qed

end
