(* ===== verification/LoadShedding.thy ===== *)
theory LoadShedding
  imports PyText Interfaces
begin

text \<open>
  \<open>runtime/load_shedding.py\<close>: which launches to drop when there is no room for all.  Features the
  code reads for their truth are booleans here; a deployer score is absent, not a number
  (\<open>Some None\<close>), or a double.
\<close>

definition SHED_FLOOR :: pyfloat where "SHED_FLOOR = fl (4 / 5)"
definition MAX_SHED_QUANTILE :: pyfloat where "MAX_SHED_QUANTILE = 1 / 2"
definition PRIORITY_WINDOW :: nat where "PRIORITY_WINDOW = 2048"
definition MIN_PRIORITIES :: nat where "MIN_PRIORITIES = 64"

record shed_decision =
  shed_admitted :: bool
  shed_priority :: pyfloat
  shed_bar :: "pyfloat option"
  utilisation :: pyfloat
  shed_reason :: string

record launch_features =
  deployer_score :: "pyfloat option option"
  named_by_source :: bool
  named_actor :: bool
  venue_verified :: bool
  funding_wallets :: bool
  deployer_launches :: bool

record load_shedder =
  capacity :: int
  shed_floor :: pyfloat
  max_quantile :: pyfloat
  window :: nat
  priorities :: "pyfloat list"
  admitted :: nat
  shed :: nat
  shed_by_priority :: "pyfloat list"
  peak_utilisation :: pyfloat
  last_shed_at :: pyfloat

definition new_shedder :: "int \<Rightarrow> pyfloat \<Rightarrow> pyfloat \<Rightarrow> nat \<Rightarrow> load_shedder" where
  "new_shedder cap floor_u quantile win =
     \<lparr>capacity = max 1 cap, shed_floor = floor_u, max_quantile = quantile, window = win, priorities = [],
      admitted = 0, shed = 0, shed_by_priority = [], peak_utilisation = 0, last_shed_at = 0\<rparr>"

definition bump :: "bool \<Rightarrow> pyfloat \<Rightarrow> pyfloat \<Rightarrow> pyfloat" where
  "bump present amount score = (if present then fadd score amount else score)"

definition priority :: "launch_features \<Rightarrow> pyfloat" where
  "priority f =
     (let score = (case deployer_score f of
                     Some (Some d) \<Rightarrow> fadd 0 (max (- 1) (min 1 d))
                   | _ \<Rightarrow> 0);
          score = bump (named_by_source f) 1 score;
          score = bump (named_actor f) 1 score;
          score = bump (venue_verified f) (fl (2 / 5)) score;
          score = bump (funding_wallets f) (fl (15 / 100)) score
      in bump (deployer_launches f) (fl (15 / 100)) score)"

definition shed_quantile :: "load_shedder \<Rightarrow> pyfloat \<Rightarrow> pyfloat" where
  "shed_quantile s u =
     (let span = max (fl (1 / 10 ^ 9)) (fsub 1 (shed_floor s));
          fraction = min 1 (fdiv (fsub u (shed_floor s)) span)
      in fmul (max_quantile s) fraction)"

definition bar_index :: "nat \<Rightarrow> pyfloat \<Rightarrow> nat" where
  "bar_index n q = nat (min (int n - 1) (py_trunc (fmul q (of_nat n))))"

definition bar :: "load_shedder \<Rightarrow> pyfloat \<Rightarrow> pyfloat option" where
  "bar s u =
     (if length (priorities s) < MIN_PRIORITIES then None
      else if u \<le> shed_floor s then None
      else
        let q = shed_quantile s u
        in if q \<le> 0 then None
           else Some (sort (priorities s) ! bar_index (length (priorities s)) q))"

text \<open>\<open>append\<close> then \<open>del self.shed_by_priority[:-256]\<close>.\<close>

definition count_shed :: "load_shedder \<Rightarrow> pyfloat \<Rightarrow> pyfloat \<Rightarrow> load_shedder" where
  "count_shed s p now =
     s\<lparr>shed := shed s + 1, last_shed_at := now, shed_by_priority := push_bounded 256 p (shed_by_priority s)\<rparr>"

definition admit :: "load_shedder \<Rightarrow> launch_features \<Rightarrow> int \<Rightarrow> pyfloat \<Rightarrow> load_shedder \<times> shed_decision" where
  "admit s features in_flight now =
     (let p = priority features;
          u = int_div in_flight (capacity s);
          s = s\<lparr>priorities := push_bounded (window s) p (priorities s),
                peak_utilisation := max (peak_utilisation s) u\<rparr>
      in if capacity s \<le> in_flight then
           (count_shed s p now,
            \<lparr>shed_admitted = False, shed_priority = p, shed_bar = None, utilisation = u,
             shed_reason = ''every one of '' @ int_str (capacity s) @ '' pipeline slots is in use''\<rparr>)
         else
           case bar s u of
             None \<Rightarrow>
               (s\<lparr>admitted := admitted s + 1\<rparr>,
                \<lparr>shed_admitted = True, shed_priority = p, shed_bar = None, utilisation = u, shed_reason = ''''\<rparr>)
           | Some b \<Rightarrow>
               if b \<le> p then
                 (s\<lparr>admitted := admitted s + 1\<rparr>,
                  \<lparr>shed_admitted = True, shed_priority = p, shed_bar = Some b, utilisation = u, shed_reason = ''''\<rparr>)
               else
                 (count_shed s p now,
                  \<lparr>shed_admitted = False, shed_priority = p, shed_bar = Some b, utilisation = u,
                   shed_reason = ''priority '' @ fixed2_str p @ '' below the '' @ fixed2_str b @ '' bar at ''
                     @ fixed0_str (fmul u 100) @ ''% of capacity''\<rparr>))"

subsection \<open>The bar\<close>

lemma count_below_sorted:
  assumes "sorted xs" "k < length xs"
  shows "length (filter (\<lambda>x. x < xs ! k) xs) \<le> k"
proof -
  have "filter (\<lambda>x. x < xs ! k) (drop k xs) = []"
  proof -
    have "xs ! k \<le> x" if x: "x \<in> set (drop k xs)" for x
    proof -
      obtain j where "j < length (drop k xs)" "drop k xs ! j = x" using x unfolding in_set_conv_nth by blast
      then show ?thesis using assms sorted_nth_mono [of xs k "k + j"] by auto
    qed
    then show ?thesis by (auto simp: filter_empty_conv not_less)
  qed
  then have "filter (\<lambda>x. x < xs ! k) xs = filter (\<lambda>x. x < xs ! k) (take k xs)"
    by (metis append.right_neutral append_take_drop_id filter_append)
  also have "length \<dots> \<le> length (take k xs)" by (rule length_filter_le)
  finally show ?thesis by simp
qed

lemma py_trunc_mono: "x \<le> y \<Longrightarrow> py_trunc x \<le> py_trunc y"
proof -
  assume le: "x \<le> y"
  have "\<lceil>x\<rceil> \<le> 0" if "\<not> 0 \<le> x" using that by simp
  moreover have "0 \<le> \<lfloor>y\<rfloor>" if "0 \<le> y" using that by simp
  ultimately have "\<lceil>x\<rceil> \<le> \<lfloor>y\<rfloor>" if "\<not> 0 \<le> x" "0 \<le> y" using that by linarith
  then show ?thesis
    using le floor_mono [OF le] ceiling_mono [OF le] unfolding py_trunc_def by simp
qed

lemma py_trunc_half: "2 * x \<le> of_nat n \<Longrightarrow> 2 * py_trunc x \<le> int n"
proof (cases "0 \<le> x")
  case True
  assume "2 * x \<le> of_nat n"
  then have "(of_int (2 * \<lfloor>x\<rfloor>) :: rat) \<le> of_int (int n)"
    using of_int_floor_le [of x] by (simp only: of_int_mult of_int_numeral of_int_of_nat_eq)
  then show ?thesis unfolding of_int_le_iff using True by (simp add: py_trunc_def)
next
  case False
  then have "\<lceil>x\<rceil> \<le> 0" by simp
  then have "2 * \<lceil>x\<rceil> \<le> int n" by linarith
  then show ?thesis using False by (simp add: py_trunc_def)
qed

lemma shed_quantile_mono:
  assumes "u \<le> v" "0 \<le> max_quantile s" shows "shed_quantile s u \<le> shed_quantile s v"
proof -
  have "0 \<le> max (fl (1 / 10 ^ 9)) (fsub 1 (shed_floor s))" by (simp add: le_max_iff_disj)
  then show ?thesis
    using assms unfolding shed_quantile_def Let_def fmul_def fdiv_def fsub_def
    by (intro fl_mono mult_left_mono min.mono divide_right_mono diff_mono) auto
qed

lemma shed_quantile_le: "0 \<le> max_quantile s \<Longrightarrow> shed_quantile s u \<le> fl (max_quantile s)"
  unfolding shed_quantile_def Let_def fmul_def by (intro fl_mono mult_left_le) auto

lemma bar_index_mono: "q \<le> q' \<Longrightarrow> bar_index n q \<le> bar_index n q'"
  unfolding bar_index_def fmul_def
  by (intro nat_mono min.mono py_trunc_mono fl_mono mult_right_mono) auto

lemma bar_index_less: "0 < n \<Longrightarrow> bar_index n q < n"
  unfolding bar_index_def by (simp add: nat_less_iff)

lemma bar_index_half: "0 < n \<Longrightarrow> n < 2 ^ 52 \<Longrightarrow> q \<le> 1 / 2 \<Longrightarrow> 2 * bar_index n q \<le> n"
proof -
  assume n: "0 < n" "n < 2 ^ 52" and "q \<le> 1 / 2"
  then have "q * of_nat n \<le> of_int (int n) * 2 powi (- 1)" by (simp add: power_int_def)
  moreover have "is_double (of_int (int n) * 2 powi (- 1))"
    unfolding is_double_def using n by (intro exI [of _ "int n"] exI [of _ "- 1"]) auto
  ultimately have "fmul q (of_nat n) \<le> of_int (int n) * 2 powi (- 1)"
    unfolding fmul_def by (intro fl_le_double)
  then have "2 * fmul q (of_nat n) \<le> of_nat n" by (simp add: power_int_def)
  then have "2 * py_trunc (fmul q (of_nat n)) \<le> int n" by (rule py_trunc_half)
  then show ?thesis unfolding bar_index_def by simp
qed

lemma bar_mono:
  assumes "u \<le> v" "0 \<le> max_quantile s" "bar s u = Some b"
  shows "\<exists>b'. bar s v = Some b' \<and> b \<le> b'"
proof -
  let ?n = "length (priorities s)"
  have B: "\<not> ?n < MIN_PRIORITIES" "\<not> u \<le> shed_floor s" "\<not> shed_quantile s u \<le> 0"
    "b = sort (priorities s) ! bar_index ?n (shed_quantile s u)"
    using assms(3) by (auto simp: bar_def Let_def split: if_splits)
  note q = shed_quantile_mono [OF assms(1,2)]
  have "0 < ?n" using B(1) by (auto simp: MIN_PRIORITIES_def)
  then have "b \<le> sort (priorities s) ! bar_index ?n (shed_quantile s v)"
    unfolding B(4) by (intro sorted_nth_mono bar_index_mono q) (simp_all add: bar_index_less)
  then show ?thesis using B q assms(1) by (auto simp: bar_def Let_def)
qed

lemma bar_bottom_half:
  assumes "bar s u = Some b" "max_quantile s = MAX_SHED_QUANTILE" "length (priorities s) < 2 ^ 52"
  shows "2 * length (filter (\<lambda>x. x < b) (priorities s)) \<le> length (priorities s)"
proof -
  let ?n = "length (priorities s)" and ?k = "bar_index (length (priorities s)) (shed_quantile s u)"
  have B: "\<not> ?n < MIN_PRIORITIES" "b = sort (priorities s) ! ?k"
    using assms(1) by (auto simp: bar_def Let_def split: if_splits)
  have n: "0 < ?n" using B(1) by (auto simp: MIN_PRIORITIES_def)
  have half: "is_double (1 / 2)" unfolding is_double_def by (intro exI [of _ 1] exI [of _ "-1"]) (simp add: power_int_def)
  have "shed_quantile s u \<le> 1 / 2"
    using shed_quantile_le [of s u] fl_double [OF half] by (simp add: assms(2) MAX_SHED_QUANTILE_def)
  then have "2 * ?k \<le> ?n" using n assms(3) by (intro bar_index_half) auto
  moreover have "length (filter (\<lambda>x. x < b) (sort (priorities s))) \<le> ?k"
    unfolding B(2) using n by (intro count_below_sorted) (simp_all add: bar_index_less)
  moreover have "length (filter (\<lambda>x. x < b) (sort (priorities s))) = length (filter (\<lambda>x. x < b) (priorities s))"
    by (metis filter_sort length_sort)
  ultimately show ?thesis by simp
qed

subsection \<open>Admission\<close>

definition seen :: "load_shedder \<Rightarrow> launch_features \<Rightarrow> pyfloat list" where
  "seen s f = push_bounded (window s) (priority f) (priorities s)"

definition bar_at :: "load_shedder \<Rightarrow> launch_features \<Rightarrow> int \<Rightarrow> pyfloat option" where
  "bar_at s f k = bar (s\<lparr>priorities := seen s f\<rparr>) (int_div k (capacity s))"

lemma bar_peak [simp]: "bar (s\<lparr>priorities := ps, peak_utilisation := u\<rparr>) v = bar (s\<lparr>priorities := ps\<rparr>) v"
  by (simp add: bar_def shed_quantile_def Let_def)

lemma admit_iff:
  "shed_admitted (snd (admit s f k now)) \<longleftrightarrow>
     k < capacity s \<and> (case bar_at s f k of None \<Rightarrow> True | Some b \<Rightarrow> b \<le> priority f)"
  by (auto simp: admit_def Let_def bar_at_def seen_def split: option.split)

lemma admit_counts:
  "admitted (fst (admit s f k now)) + shed (fst (admit s f k now)) = admitted s + shed s + 1"
  "shed_admitted (snd (admit s f k now)) \<longleftrightarrow> admitted (fst (admit s f k now)) = admitted s + 1"
  by (auto simp: admit_def Let_def count_shed_def split: option.split)

lemma bar_at_mono:
  assumes "j \<le> k" "0 < capacity s" "0 \<le> max_quantile s" "bar_at s f j = Some b"
  shows "\<exists>b'. bar_at s f k = Some b' \<and> b \<le> b'"
proof -
  have "int_div j (capacity s) \<le> int_div k (capacity s)"
    unfolding int_div_def using assms(1,2) by (intro fl_mono divide_right_mono) auto
  then show ?thesis using bar_mono [of _ _ "s\<lparr>priorities := seen s f\<rparr>"] assms(3,4) by (simp add: bar_at_def)
qed

text \<open>
  A launch turned away while slots were free scored strictly below a bar that at most half of the
  recent launches fall below; and a launch admitted at some load would have been admitted at any
  lower load.
\<close>

lemma shedding_takes_bottom_half:
  assumes "0 < capacity s" "max_quantile s = MAX_SHED_QUANTILE" "window s < 2 ^ 52"
  shows "(\<not> shed_admitted (snd (admit s f k now)) \<and> k < capacity s \<longrightarrow>
      (\<exists>b. bar_at s f k = Some b \<and> priority f < b
         \<and> 2 * length (filter (\<lambda>x. x < b) (seen s f)) \<le> length (seen s f)))
    \<and> (shed_admitted (snd (admit s f k now)) \<and> j \<le> k \<longrightarrow> shed_admitted (snd (admit s f j now)))"
proof (intro conjI impI)
  assume "\<not> shed_admitted (snd (admit s f k now)) \<and> k < capacity s"
  then obtain b where b: "bar_at s f k = Some b" "priority f < b" by (auto simp: admit_iff split: option.splits)
  have "length (seen s f) < 2 ^ 52" using assms(3) by (simp add: seen_def length_push_bounded)
  then have "2 * length (filter (\<lambda>x. x < b) (seen s f)) \<le> length (seen s f)"
    using bar_bottom_half [of "s\<lparr>priorities := seen s f\<rparr>"] b(1) assms(2) by (simp add: bar_at_def)
  with b show "\<exists>b. bar_at s f k = Some b \<and> priority f < b
      \<and> 2 * length (filter (\<lambda>x. x < b) (seen s f)) \<le> length (seen s f)" by blast
next
  assume A: "shed_admitted (snd (admit s f k now)) \<and> j \<le> k"
  have "0 \<le> max_quantile s" using assms(2) by (simp add: MAX_SHED_QUANTILE_def)
  then show "shed_admitted (snd (admit s f j now))"
    using A bar_at_mono [of j k s f] assms(1) by (force simp: admit_iff split: option.splits)
qed

end
