(* ===== verification/RpcBudget.thy ===== *)
theory RpcBudget
  imports PyText Interfaces
begin

text \<open>
  \<open>chains/rpc_budget.py\<close>: the durable allocation of RPC calls and the shared refusal windows.  The
  SQLite row of one provider is the state; every reservation is one transaction on it.  UTC dates
  are day numbers since 1970, and months are counted from January 1970: the code compares the dates
  it formats only for equality.
\<close>

subsection \<open>The UTC calendar\<close>

definition leap :: "int \<Rightarrow> bool" where
  "leap y \<longleftrightarrow> (4 dvd y \<and> \<not> 100 dvd y) \<or> 400 dvd y"

definition year_start :: "int \<Rightarrow> int" where
  "year_start y = 365 * (y - 1970) + ((y - 1) div 4 - (y - 1) div 100 + (y - 1) div 400) - 477"

definition days_before_month :: "bool \<Rightarrow> nat \<Rightarrow> int" where
  "days_before_month lp k =
     [0, 31, 59, 90, 120, 151, 181, 212, 243, 273, 304, 334] ! k + (if lp \<and> 2 \<le> k then 1 else 0)"

definition month_start :: "nat \<Rightarrow> int" where
  "month_start mo = (let y = 1970 + int (mo div 12) in year_start y + days_before_month (leap y) (mo mod 12))"

function month_from :: "nat \<Rightarrow> int \<Rightarrow> nat" where
  "month_from mo day = (if month_start (Suc mo) \<le> day then month_from (Suc mo) day else mo)"
  by pat_completeness auto

text \<open>\<open>datetime.fromtimestamp(now, utc)\<close> in microseconds, rounded half to even.\<close>

definition utc_micros :: "pyfloat \<Rightarrow> int" where
  "utc_micros now = round_half_even (now * 1000000)"

definition utc_day :: "pyfloat \<Rightarrow> int" where
  "utc_day now = utc_micros now div (86400 * 1000000)"

lemma days_before_month_range:
  "k < 12 \<Longrightarrow> 0 \<le> days_before_month lp k \<and> days_before_month lp k \<le> 335"
  by (auto simp: days_before_month_def less_Suc_eq numeral_eq_Suc)

lemma days_before_month_Suc: "k < 11 \<Longrightarrow> days_before_month lp k < days_before_month lp (Suc k)"
  by (auto simp: days_before_month_def less_Suc_eq numeral_eq_Suc)

lemma year_start_Suc: "year_start y + 364 \<le> year_start (y + 1)"
proof -
  have "y div 100 \<le> (y - 1) div 100 + 1" "(y - 1) div 4 \<le> y div 4" "(y - 1) div 400 \<le> y div 400"
    by (auto intro: zdiv_mono1)
  then show ?thesis unfolding year_start_def by simp
qed

lemma month_start_Suc: "month_start mo < month_start (Suc mo)"
proof (cases "mo mod 12 = 11")
  case True
  then have s: "Suc mo div 12 = Suc (mo div 12)" "Suc mo mod 12 = 0"
    by (simp_all add: div_Suc mod_Suc)
  have "days_before_month l 0 = 0" for l by (simp add: days_before_month_def)
  then show ?thesis
    using year_start_Suc [of "1970 + int (mo div 12)"]
      days_before_month_range [of 11 "leap (1970 + int (mo div 12))"] True s
    by (simp add: month_start_def Let_def add.assoc)
next
  case False
  moreover have "mo mod 12 < 12" by simp
  ultimately have "mo mod 12 < 11" by linarith
  moreover from False have "Suc mo div 12 = mo div 12" "Suc mo mod 12 = Suc (mo mod 12)"
    by (simp_all add: div_Suc mod_Suc)
  ultimately show ?thesis using days_before_month_Suc by (simp add: month_start_def Let_def)
qed

lemma month_start_mono: "a \<le> b \<Longrightarrow> month_start a \<le> month_start b"
proof (rule lift_Suc_mono_le [of month_start])
  show "month_start n \<le> month_start (Suc n)" for n using month_start_Suc [of n] by simp
qed

termination month_from
proof (relation "measure (\<lambda>(mo, day). nat (day + 1 - month_start mo))")
  show "wf (measure (\<lambda>(mo, day). nat (day + 1 - month_start mo)))" by simp
next
  fix mo day assume "month_start (Suc mo) \<le> day"
  then show "((Suc mo, day), (mo, day)) \<in> measure (\<lambda>(mo, day). nat (day + 1 - month_start mo))"
    using month_start_Suc [of mo] by simp
qed

declare month_from.simps [simp del]

definition month_of :: "int \<Rightarrow> nat" where
  "month_of day = month_from 0 day"

lemma month_from_spec:
  "month_start mo \<le> day \<Longrightarrow>
     month_start (month_from mo day) \<le> day \<and> day < month_start (Suc (month_from mo day))"
  by (induction mo day rule: month_from.induct) (subst month_from.simps, subst (2) month_from.simps, simp)

lemma month_of_mono:
  assumes "0 \<le> d" "d \<le> d'" shows "month_of d \<le> month_of d'"
proof (rule ccontr)
  have z: "month_start 0 = 0" by (simp add: month_start_def year_start_def days_before_month_def)
  assume "\<not> month_of d \<le> month_of d'"
  then have "Suc (month_of d') \<le> month_of d" by simp
  then have "month_start (Suc (month_of d')) \<le> month_start (month_of d)" by (rule month_start_mono)
  then show False
    using month_from_spec [of 0 d] month_from_spec [of 0 d'] assms by (simp add: z month_of_def)
qed

lemma utc_day_mono: "a \<le> b \<Longrightarrow> utc_day a \<le> utc_day b"
  unfolding utc_day_def utc_micros_def by (intro zdiv_mono1 round_half_even_mono) auto

lemma utc_day_nonneg: "0 \<le> a \<Longrightarrow> 0 \<le> utc_day a"
  using utc_day_mono [of 0 a] by (simp add: utc_day_def utc_micros_def round_half_even_def)

subsection \<open>Refusal windows\<close>

text \<open>The table \<open>rpc_transport_cooldown\<close>, keyed by the digest of the endpoint.\<close>

type_synonym cooldowns = "(string, pyfloat) dict"

definition cooldown_until :: "cooldowns \<Rightarrow> string \<Rightarrow> pyfloat" where
  "cooldown_until db ident = dget_or db ident 0"

text \<open>\<open>None\<close> is a deadline that is not finite; the write is an upsert that keeps the later deadline.\<close>

definition cooldown_defer :: "cooldowns \<Rightarrow> string \<Rightarrow> pyfloat option \<Rightarrow> string + cooldowns" where
  "cooldown_defer db ident deadline =
     (case deadline of
        None \<Rightarrow> Inl ''finite RPC refusal deadline required''
      | Some t \<Rightarrow>
          if t < 0 then Inl ''finite RPC refusal deadline required''
          else Inr (dput ident (case dget db ident of None \<Rightarrow> t | Some old \<Rightarrow> max old t) db))"

subsection \<open>Allocations\<close>

record rpc_budget =
  rps :: pyfloat
  daily_limit :: "int option"
  monthly_limit :: "int option"

definition positive_limit :: "int option \<Rightarrow> bool" where
  "positive_limit v = (case v of None \<Rightarrow> True | Some n \<Rightarrow> 0 < n)"

definition new_budget :: "string \<Rightarrow> pyfloat \<Rightarrow> int option \<Rightarrow> int option \<Rightarrow> string + rpc_budget" where
  "new_budget credential rate daily monthly =
     (if credential = '''' \<or> rate \<le> 0 \<or> \<not> positive_limit daily \<or> \<not> positive_limit monthly
      then Inl ''valid RPC rate and optional operator allocations required''
      else case (daily, monthly) of
        (Some d, Some mo) \<Rightarrow> if mo < d then Inl ''daily allocation exceeds monthly allocation''
                             else Inr \<lparr>rps = rate, daily_limit = daily, monthly_limit = monthly\<rparr>
      | _ \<Rightarrow> Inr \<lparr>rps = rate, daily_limit = daily, monthly_limit = monthly\<rparr>)"

definition method_cost :: "string \<Rightarrow> int" where
  "method_cost method =
     (if method \<in> {''getProgramAccounts'', ''getTransaction'', ''getBlock'', ''getSignaturesForAddress'',
                     ''getAsset'', ''getAssetsByOwner''} then 10 else 1)"

record allocation_row =
  row_day :: int
  row_month :: nat
  row_daily :: int
  row_monthly :: int
  next_at :: pyfloat
  next_send :: pyfloat

datatype reservation = Reserved | Wait pyfloat | Exhausted pyfloat | Rejected string

definition over_limit :: "int option \<Rightarrow> int \<Rightarrow> bool" where
  "over_limit limit units = (case limit of None \<Rightarrow> False | Some n \<Rightarrow> n < units)"

definition used_today :: "allocation_row option \<Rightarrow> int \<Rightarrow> int" where
  "used_today row day = (case row of None \<Rightarrow> 0 | Some r \<Rightarrow> if row_day r = day then row_daily r else 0)"

definition used_this_month :: "allocation_row option \<Rightarrow> nat \<Rightarrow> int" where
  "used_this_month row mo = (case row of None \<Rightarrow> 0 | Some r \<Rightarrow> if row_month r = mo then row_monthly r else 0)"

definition reserve_delay :: "allocation_row option \<Rightarrow> string list \<Rightarrow> pyfloat \<Rightarrow> pyfloat" where
  "reserve_delay row methods now =
     max (max 0 (fsub (case row of None \<Rightarrow> 0 | Some r \<Rightarrow> next_at r) now))
         (fsub (case row of None \<Rightarrow> 0
                | Some r \<Rightarrow> if ''sendTransaction'' \<in> set methods then next_send r else 0) now)"

definition reserve ::
    "rpc_budget \<Rightarrow> allocation_row option \<Rightarrow> string list \<Rightarrow> pyfloat \<Rightarrow> allocation_row option \<times> reservation" where
  "reserve b row methods now =
     (if methods = [] \<or> 100 < length methods then (row, Rejected ''bounded RPC method list required'')
      else if 1 < count_list methods ''sendTransaction''
      then (row, Rejected ''sendTransaction reservations require individual rate slots'')
      else
        let day = utc_day now; mo = month_of day;
            used_day = used_today row day; used_month = used_this_month row mo;
            cost = sum_list (map method_cost methods)
        in if over_limit (monthly_limit b) (used_month + cost)
           then (row, Exhausted (of_int (month_start (Suc mo) * 86400)))
           else if over_limit (daily_limit b) (used_day + cost)
           then (row, Exhausted (of_int ((day + 1) * 86400)))
           else
             let delay = reserve_delay row methods now
             in if 0 < delay then (row, Wait delay)
                else (Some \<lparr>row_day = day, row_month = mo, row_daily = used_day + cost,
                        row_monthly = used_month + cost,
                        next_at = fadd now (fdiv (of_nat (length methods)) (rps b)),
                        next_send = (if ''sendTransaction'' \<in> set methods then fadd now 1
                                     else case row of None \<Rightarrow> 0 | Some r \<Rightarrow> next_send r)\<rparr>, Reserved))"


subsection \<open>What a period was charged\<close>

text \<open>The units granted, as a ghost, in the periods (days or months) a clock reading falls into.\<close>

definition units :: "(pyfloat \<Rightarrow> 'k) \<Rightarrow> 'k \<Rightarrow> (pyfloat \<times> int) list \<Rightarrow> int" where
  "units key k grants = sum_list (map snd (filter (\<lambda>g. key (fst g) = k) grants))"

definition ledger_ok :: "(pyfloat \<Rightarrow> 'k :: linorder) \<Rightarrow> int option \<Rightarrow> 'k \<Rightarrow> int \<Rightarrow> (pyfloat \<times> int) list \<Rightarrow> bool" where
  "ledger_ok key limit k used grants \<longleftrightarrow>
     units key k grants = used \<and> (\<forall>g \<in> set grants. key (fst g) \<le> k)
     \<and> (\<forall>j. \<not> over_limit limit (units key j grants))"

lemma units_append: "units key k (grants @ [(t, c)]) = units key k grants + (if key t = k then c else 0)"
  by (simp add: units_def)

lemma units_later: "\<forall>g \<in> set grants. key (fst g) \<le> k \<Longrightarrow> k < (j :: 'k :: linorder) \<Longrightarrow> units key j grants = 0"
proof -
  assume "\<forall>g \<in> set grants. key (fst g) \<le> k" "k < j"
  then have "filter (\<lambda>g. key (fst g) = j) grants = []" by (auto simp: filter_empty_conv)
  then show ?thesis by (simp add: units_def)
qed

lemma ledger_ok_grant:
  assumes "ledger_ok key limit k used grants" "k \<le> key t"
    and "\<not> over_limit limit ((if k = key t then used else 0) + c)"
  shows "ledger_ok key limit (key t) ((if k = key t then used else 0) + c) (grants @ [(t, c)])"
proof -
  have u: "units key (key t) grants = (if k = key t then used else 0)"
    using assms(1,2) units_later [of grants key k "key t"] by (auto simp: ledger_ok_def order_le_less)
  have "\<not> over_limit limit (units key j (grants @ [(t, c)]))" for j
    using assms(1,3) u by (auto simp: units_append ledger_ok_def)
  moreover have "\<forall>g \<in> set (grants @ [(t, c)]). key (fst g) \<le> key t"
    using assms(1,2) by (auto simp: ledger_ok_def intro: order_trans)
  ultimately show ?thesis using u by (simp add: ledger_ok_def units_append)
qed

lemma ledger_ok_first:
  assumes "\<not> over_limit limit c" "positive_limit limit"
  shows "ledger_ok key limit (key t) c [(t, c)]"
  using assms by (auto simp: ledger_ok_def units_def over_limit_def positive_limit_def split: option.splits)

inductive budget_step ::
    "rpc_budget \<Rightarrow> allocation_row option \<times> pyfloat \<times> (pyfloat \<times> int) list
       \<Rightarrow> allocation_row option \<times> pyfloat \<times> (pyfloat \<times> int) list \<Rightarrow> bool"
  for b where
  granted: "clock \<le> now \<Longrightarrow> reserve b row methods now = (row', Reserved)
     \<Longrightarrow> budget_step b (row, clock, grants) (row', now, grants @ [(now, sum_list (map method_cost methods))])"
| not_granted: "clock \<le> now \<Longrightarrow> reserve b row methods now = (row', r) \<Longrightarrow> r \<noteq> Reserved
     \<Longrightarrow> budget_step b (row, clock, grants) (row', now, grants)"

inductive_cases budget_stepE: "budget_step b (row, clock, grants) (row', clock', grants')"

definition budget_inv ::
    "rpc_budget \<Rightarrow> allocation_row option \<times> pyfloat \<times> (pyfloat \<times> int) list \<Rightarrow> bool" where
  "budget_inv b = (\<lambda>(row, clock, grants). 0 \<le> clock
     \<and> (case row of
          None \<Rightarrow> grants = []
        | Some r \<Rightarrow> row_day r \<le> utc_day clock \<and> row_month r \<le> month_of (utc_day clock)
            \<and> ledger_ok utc_day (daily_limit b) (row_day r) (row_daily r) grants
            \<and> ledger_ok (\<lambda>t. month_of (utc_day t)) (monthly_limit b) (row_month r) (row_monthly r) grants))"

lemma reserve_cases:
  assumes "reserve b row methods now = (row', r)"
  shows "r \<noteq> Reserved \<Longrightarrow> row' = row"
    and "r = Reserved \<Longrightarrow> \<exists>a. row' = Some a \<and> row_day a = utc_day now \<and> row_month a = month_of (utc_day now)
      \<and> row_daily a = used_today row (utc_day now) + sum_list (map method_cost methods)
      \<and> row_monthly a = used_this_month row (month_of (utc_day now)) + sum_list (map method_cost methods)
      \<and> \<not> over_limit (daily_limit b) (row_daily a) \<and> \<not> over_limit (monthly_limit b) (row_monthly a)"
proof -
  show "r \<noteq> Reserved \<Longrightarrow> row' = row"
    using assms by (auto simp: reserve_def Let_def split: if_splits)
  assume "r = Reserved"
  then show "\<exists>a. row' = Some a \<and> row_day a = utc_day now \<and> row_month a = month_of (utc_day now)
      \<and> row_daily a = used_today row (utc_day now) + sum_list (map method_cost methods)
      \<and> row_monthly a = used_this_month row (month_of (utc_day now)) + sum_list (map method_cost methods)
      \<and> \<not> over_limit (daily_limit b) (row_daily a) \<and> \<not> over_limit (monthly_limit b) (row_monthly a)"
    using assms by (auto simp: reserve_def Let_def split: if_splits)
qed

lemma budget_inv_step:
  assumes "budget_step b st st'" "budget_inv b st" "positive_limit (daily_limit b)" "positive_limit (monthly_limit b)"
  shows "budget_inv b st'"
proof -
  obtain row clock grants row' now grants' where st: "st = (row, clock, grants)" "st' = (row', now, grants')"
    by (metis prod_cases3)
  from assms(1) [unfolded st] show ?thesis
  proof (cases rule: budget_stepE [consumes 1, case_names 1 2])
    case (1 methods)
    let ?c = "sum_list (map method_cost methods)"
    obtain a where A: "row' = Some a" "row_day a = utc_day now" "row_month a = month_of (utc_day now)"
      "row_daily a = used_today row (utc_day now) + ?c"
      "row_monthly a = used_this_month row (month_of (utc_day now)) + ?c"
      "\<not> over_limit (daily_limit b) (row_daily a)" "\<not> over_limit (monthly_limit b) (row_monthly a)"
      using reserve_cases(2) [OF 1(3) refl] by blast
    have le: "0 \<le> clock" "utc_day clock \<le> utc_day now" "month_of (utc_day clock) \<le> month_of (utc_day now)"
      using assms(2) 1(2) by (auto simp: st budget_inv_def intro!: utc_day_mono month_of_mono utc_day_nonneg)
    have "ledger_ok utc_day (daily_limit b) (row_day a) (row_daily a) grants'
      \<and> ledger_ok (\<lambda>t. month_of (utc_day t)) (monthly_limit b) (row_month a) (row_monthly a) grants'"
    proof (cases row)
      case None
      then have "grants = []" using assms(2) by (simp add: st budget_inv_def)
      then show ?thesis
        using None A assms(3,4) 1(1) ledger_ok_first [of "daily_limit b" ?c utc_day now]
          ledger_ok_first [of "monthly_limit b" ?c "\<lambda>t. month_of (utc_day t)" now]
        by (simp add: used_today_def used_this_month_def)
    next
      case (Some r)
      then have L: "row_day r \<le> utc_day now" "row_month r \<le> month_of (utc_day now)"
        "ledger_ok utc_day (daily_limit b) (row_day r) (row_daily r) grants"
        "ledger_ok (\<lambda>t. month_of (utc_day t)) (monthly_limit b) (row_month r) (row_monthly r) grants"
        using assms(2) le by (auto simp: st budget_inv_def)
      show ?thesis
        using ledger_ok_grant [OF L(3,1)] ledger_ok_grant [OF L(4,2)] A Some 1(1)
        by (simp add: used_today_def used_this_month_def)
    qed
    then show ?thesis using A le 1(2) by (simp add: st budget_inv_def)
  next
    case (2 methods r)
    have "row' = row" using reserve_cases(1) [OF 2(3,4)] .
    moreover have "0 \<le> clock" using assms(2) by (simp add: st budget_inv_def)
    then have "utc_day clock \<le> utc_day now" "month_of (utc_day clock) \<le> month_of (utc_day now)"
      using 2(2) by (auto intro!: utc_day_mono month_of_mono utc_day_nonneg)
    ultimately show ?thesis
      using assms(2) 2(1,2) \<open>0 \<le> clock\<close> by (auto simp: st budget_inv_def split: option.splits)
  qed
qed

lemma budget_inv_limits:
  assumes "budget_inv b (row, clock, grants)" "positive_limit (daily_limit b)" "positive_limit (monthly_limit b)"
  shows "\<not> over_limit (daily_limit b) (units utc_day d grants)
    \<and> \<not> over_limit (monthly_limit b) (units (\<lambda>t. month_of (utc_day t)) mo grants)"
  using assms
  by (auto simp: budget_inv_def ledger_ok_def over_limit_def positive_limit_def units_def split: option.splits)

lemma new_budget_limits:
  "new_budget credential rate d mo = Inr b \<Longrightarrow>
     positive_limit (daily_limit b) \<and> positive_limit (monthly_limit b) \<and> daily_limit b = d \<and> monthly_limit b = mo"
  by (auto simp: new_budget_def split: if_splits option.splits)

subsection \<open>Properties\<close>

text \<open>
  C25: whatever requests arrive, in whatever order and from however many processes, with a clock that
  does not run backwards, no UTC day is ever charged more than the daily allocation and no UTC month
  more than the monthly one.
\<close>

theorem allocation_never_exceeded:
  assumes "new_budget credential rate d mo = Inr b" "0 \<le> t0"
    and "(budget_step b)\<^sup>*\<^sup>* (None, t0, []) (row, t, grants)"
  shows "(case d of None \<Rightarrow> True | Some n \<Rightarrow> units utc_day day grants \<le> n)
    \<and> (case mo of None \<Rightarrow> True | Some n \<Rightarrow> units (\<lambda>t. month_of (utc_day t)) month grants \<le> n)"
proof -
  note L = new_budget_limits [OF assms(1)]
  have "budget_inv b st" if "(budget_step b)\<^sup>*\<^sup>* (None, t0, []) st" for st
    using that
  proof (induction rule: rtranclp_induct)
    case base
    then show ?case using assms(2) by (simp add: budget_inv_def)
  next
    case (step y z)
    then show ?case using L budget_inv_step by blast
  qed
  then have "budget_inv b (row, t, grants)" using assms(3) .
  from budget_inv_limits [OF this]
  have "\<not> over_limit d (units utc_day day grants)" "\<not> over_limit mo (units (\<lambda>t. month_of (utc_day t)) month grants)"
    using L by blast+
  then show ?thesis by (auto simp: over_limit_def split: option.splits)
qed

theorem allocation_never_exceeded_witness:
  "\<exists>b row grants. new_budget ''key'' 10 (Some 10) None = Inr b
     \<and> (budget_step b)\<^sup>*\<^sup>* (None, 0, []) (row, 86000, grants) \<and> grants = [(86000, 10)]
     \<and> units utc_day 0 grants \<le> 10"
proof -
  define b where "b = \<lparr>rps = 10, daily_limit = Some 10, monthly_limit = None\<rparr>"
  have new: "new_budget ''key'' 10 (Some 10) None = Inr b"
    by (simp add: new_budget_def positive_limit_def b_def)
  have delay: "reserve_delay None [''getBlock''] 86000 = 0"
    by (simp add: reserve_delay_def fsub_def max_def not_less)
  have "snd (reserve b None [''getBlock''] 86000) = Reserved"
    using delay by (simp add: reserve_def Let_def b_def over_limit_def used_today_def method_cost_def)
  then obtain row where "reserve b None [''getBlock''] 86000 = (row, Reserved)" by (metis prod.collapse)
  from budget_step.granted [OF _ this, of 0 "[]"]
  have run: "(budget_step b)\<^sup>*\<^sup>* (None, 0, []) (row, 86000, [(86000, 10)])"
    by (intro r_into_rtranclp) (simp add: method_cost_def)
  then show ?thesis using allocation_never_exceeded [OF new _ run, of 0] new by auto
qed

lemma utc_day_end: "now < of_int ((utc_day now + 1) * 86400)"
proof -
  have "utc_micros now < (utc_day now + 1) * (86400 * 1000000)"
    unfolding utc_day_def by (rule idiv_mult_gt) simp
  then have "utc_micros now + 1 \<le> ((utc_day now + 1) * 86400) * 1000000" by simp
  then have "(of_int (utc_micros now + 1) :: rat) \<le> of_int (((utc_day now + 1) * 86400) * 1000000)"
    by (simp only: of_int_le_iff)
  moreover have "now * 1000000 \<le> of_int (utc_micros now) + 1 / 2"
    using round_half_even_error [of "now * 1000000"] unfolding utc_micros_def by linarith
  ultimately have "now * 1000000 < of_int ((utc_day now + 1) * 86400) * 1000000" by simp
  then show ?thesis by simp
qed

lemma month_end_later: "0 \<le> day \<Longrightarrow> day + 1 \<le> month_start (Suc (month_of day))"
  using month_from_spec [of 0 day]
  by (simp add: month_of_def month_start_def [of 0] year_start_def days_before_month_def)

text \<open>
  A refusal changes nothing, and the instant it says to retry at lies in the future: the start of
  the next UTC day, or of the next UTC month.
\<close>

lemma refusal_names_reset:
  assumes "reserve b row methods now = (row', Exhausted t)" "0 \<le> now"
  shows "row' = row \<and> now < t
    \<and> (t = of_int ((utc_day now + 1) * 86400) \<or> t = of_int (month_start (Suc (month_of (utc_day now))) * 86400))"
proof -
  have t: "row' = row" "t = of_int ((utc_day now + 1) * 86400)
      \<or> t = of_int (month_start (Suc (month_of (utc_day now))) * 86400)"
    using assms(1) by (auto simp: reserve_def Let_def split: if_splits)
  have "(utc_day now + 1) * 86400 \<le> month_start (Suc (month_of (utc_day now))) * 86400"
    using month_end_later [OF utc_day_nonneg [OF assms(2)]] by simp
  then have "(of_int ((utc_day now + 1) * 86400) :: rat) \<le> of_int (month_start (Suc (month_of (utc_day now))) * 86400)"
    by (simp only: of_int_le_iff)
  then show ?thesis using t utc_day_end [of now] by (auto intro: less_le_trans)
qed

text \<open>Deferring keeps the latest deadline any manager has seen for the endpoint, and touches no other.\<close>

lemma cooldown_defer_max:
  assumes "cooldown_defer db ident (Some t) = Inr db'"
  shows "cooldown_until db' ident = max (cooldown_until db ident) t"
    and "\<And>other. other \<noteq> ident \<Longrightarrow> cooldown_until db' other = cooldown_until db other"
  using assms
  by (auto simp: cooldown_defer_def cooldown_until_def dget_or_def split: if_splits option.splits)

end
