(* ===== verification/SourceJournal.thy ===== *)
theory SourceJournal
  imports PyText Interfaces "HOL-Library.Product_Lexorder"
begin

text \<open>
  \<open>collectors/source_journal.py\<close>: at-least-once intake with fair leases.  The SQLite tables are the
  state (\<open>intake\<close> in rowid order), every public operation one transaction that is undone when it
  raises.  The event's JSON form, its digest and the event type itself are arguments, bundled in
  \<open>journal_ops\<close>; every clock reading of the model is finite.
\<close>

record 'e journal_ops =
  ops_source :: "'e \<Rightarrow> string"
  ops_durable :: "'e \<Rightarrow> string option"
  ops_encode :: "'e \<Rightarrow> string + string"
  ops_decode :: "string \<Rightarrow> string + 'e"
  ops_seal :: "string \<Rightarrow> string"
  ops_pair :: "string \<Rightarrow> string \<Rightarrow> string"

text \<open>\<open>identity(event, body)\<close>.\<close>

definition event_identity :: "'e journal_ops \<Rightarrow> 'e \<Rightarrow> string \<Rightarrow> string" where
  "event_identity J ev body =
     (case ops_durable J ev of
        Some d \<Rightarrow> if d \<noteq> '''' then ops_seal J (ops_pair J (ops_source J ev) d) else ops_seal J body
      | None \<Rightarrow> ops_seal J body)"

record intake_row =
  row_id :: string
  row_source :: string
  row_body :: "string option"
  row_sha256 :: string
  row_accepted :: pyfloat
  row_first :: "pyfloat option"
  row_due :: pyfloat
  row_generation :: nat
  row_job :: "string option"
  row_ref :: "string option"
  row_acknowledged :: "pyfloat option"

record journal =
  intake :: "intake_row list"
  service :: "(string, nat \<times> int) dict"
  count_accepted :: nat
  count_acknowledged :: nat

definition empty_journal :: journal where
  "empty_journal = \<lparr>intake = [], service = [], count_accepted = 0, count_acknowledged = 0\<rparr>"

definition find_row :: "journal \<Rightarrow> string \<Rightarrow> intake_row option" where
  "find_row j ident = find (\<lambda>r. row_id r = ident) (intake j)"

text \<open>\<open>UPDATE intake SET ... WHERE id=?\<close>.\<close>

definition update_row :: "journal \<Rightarrow> string \<Rightarrow> (intake_row \<Rightarrow> intake_row) \<Rightarrow> journal" where
  "update_row j ident f = j\<lparr>intake := map (\<lambda>r. if row_id r = ident then f r else r) (intake j)\<rparr>"

subsection \<open>Admission\<close>

fun encode_rows :: "'e journal_ops \<Rightarrow> 'e list \<Rightarrow> pyfloat \<Rightarrow> string + intake_row list" where
  "encode_rows J [] now = Inr []"
| "encode_rows J (ev # evs) now =
     rbind (ops_encode J ev) (\<lambda>body.
     rbind (encode_rows J evs now) (\<lambda>rows.
       Inr (\<lparr>row_id = event_identity J ev body, row_source = ops_source J ev, row_body = Some body,
             row_sha256 = ops_seal J body, row_accepted = now, row_first = None, row_due = now,
             row_generation = 0, row_job = None, row_ref = None, row_acknowledged = None\<rparr> # rows)))"

definition insert_row :: "journal \<Rightarrow> intake_row \<Rightarrow> journal" where
  "insert_row j r =
     (if find_row j (row_id r) \<noteq> None then j
      else j\<lparr>intake := intake j @ [r],
             service := dput (row_source r)
               (case dget (service j) (row_source r) of
                  None \<Rightarrow> (0, 1) | Some (ticket, pending) \<Rightarrow> (ticket, pending + 1)) (service j),
             count_accepted := count_accepted j + 1\<rparr>)"

definition append_events :: "'e journal_ops \<Rightarrow> journal \<Rightarrow> 'e list \<Rightarrow> pyfloat \<Rightarrow> journal \<times> (string + nat)" where
  "append_events J j evs now =
     (case encode_rows J evs now of
        Inl exc \<Rightarrow> (j, Inl exc)
      | Inr rows \<Rightarrow> (foldl insert_row j rows, Inr (length rows)))"

subsection \<open>Leasing\<close>

record receipt =
  receipt_id :: string
  receipt_sha256 :: string
  receipt_accepted :: pyfloat
  receipt_first :: pyfloat

definition ready :: "pyfloat \<Rightarrow> intake_row \<Rightarrow> bool" where
  "ready now r \<longleftrightarrow> row_body r \<noteq> None \<and> row_due r \<le> now"

text \<open>\<open>ORDER BY ticket,source LIMIT 1\<close> and \<open>ORDER BY due,accepted,rowid LIMIT 1\<close>.\<close>

definition due_sources :: "journal \<Rightarrow> pyfloat \<Rightarrow> (string \<times> nat \<times> int) list" where
  "due_sources j now =
     filter (\<lambda>(src, ticket, pending). 0 < pending \<and> (\<exists>r \<in> set (intake j). row_source r = src \<and> ready now r))
       (service j)"

definition source_order :: "string \<times> nat \<times> int \<Rightarrow> nat \<times> string" where
  "source_order s = (fst (snd s), fst s)"

definition pick_source :: "journal \<Rightarrow> pyfloat \<Rightarrow> string option" where
  "pick_source j now = (case sort_key source_order (due_sources j now) of [] \<Rightarrow> None | s # _ \<Rightarrow> Some (fst s))"

definition pick_row :: "journal \<Rightarrow> string \<Rightarrow> pyfloat \<Rightarrow> intake_row option" where
  "pick_row j src now =
     (case sort_key (\<lambda>r. (row_due r, row_accepted r))
             (filter (\<lambda>r. row_source r = src \<and> ready now r) (intake j)) of
        [] \<Rightarrow> None | r # _ \<Rightarrow> Some r)"

definition max_ticket :: "journal \<Rightarrow> nat" where
  "max_ticket j = fold max (map (\<lambda>s. fst (snd s)) (service j)) 0"

definition take_turn :: "journal \<Rightarrow> string \<Rightarrow> journal" where
  "take_turn j src =
     j\<lparr>service := map (\<lambda>(s, ticket, pending). (s, if s = src then max_ticket j + 1 else ticket, pending)) (service j)\<rparr>"

definition lease_one ::
    "'e journal_ops \<Rightarrow> journal \<Rightarrow> pyfloat \<Rightarrow> pyfloat \<Rightarrow> string + (journal \<times> 'e \<times> receipt \<times> nat) option" where
  "lease_one J j now lease_seconds =
     (case pick_source j now of
        None \<Rightarrow> Inr None
      | Some src \<Rightarrow>
          (case pick_row j src now of
             None \<Rightarrow> Inr None
           | Some r \<Rightarrow>
               let body = the (row_body r)
               in if ops_seal J body \<noteq> row_sha256 r then Inl ''source journal body integrity mismatch''
                  else rbind (ops_decode J body) (\<lambda>ev.
                    if event_identity J ev body \<noteq> row_id r then Inl ''source journal identity mismatch''
                    else
                      let first = (case row_first r of None \<Rightarrow> now | Some t \<Rightarrow> t);
                          generation = row_generation r + 1;
                          j' = update_row j (row_id r) (\<lambda>x. x\<lparr>row_first := Some first,
                                 row_generation := generation, row_due := fadd now lease_seconds\<rparr>)
                      in Inr (Some (take_turn j' src, ev,
                           \<lparr>receipt_id = row_id r, receipt_sha256 = row_sha256 r,
                            receipt_accepted = row_accepted r, receipt_first = first\<rparr>, generation)))))"

fun lease_loop ::
    "'e journal_ops \<Rightarrow> nat \<Rightarrow> journal \<Rightarrow> pyfloat \<Rightarrow> pyfloat \<Rightarrow> string + journal \<times> ('e \<times> receipt \<times> nat) list" where
  "lease_loop J 0 j now secs = Inr (j, [])"
| "lease_loop J (Suc n) j now secs =
     rbind (lease_one J j now secs) (\<lambda>found.
       case found of
         None \<Rightarrow> Inr (j, [])
       | Some (j', lease) \<Rightarrow> rbind (lease_loop J n j' now secs) (\<lambda>(j'', leases). Inr (j'', lease # leases)))"

definition lease_many ::
    "'e journal_ops \<Rightarrow> journal \<Rightarrow> pyfloat \<Rightarrow> int \<Rightarrow> pyfloat \<Rightarrow> journal \<times> (string + ('e \<times> receipt \<times> nat) list)" where
  "lease_many J j now limit secs =
     (if limit < 1 \<or> 32 < limit then (j, Inl ''lease batch limit must be between 1 and 32'')
      else if secs \<le> 0 then (j, Inl ''finite positive lease required'')
      else if fadd now secs \<le> now then (j, Inl ''lease deadline must be finite and advance the clock'')
      else case lease_loop J (nat limit) j now secs of
             Inl exc \<Rightarrow> (j, Inl exc)
           | Inr (j', leases) \<Rightarrow> (j', Inr leases))"

subsection \<open>Acknowledging and retrying\<close>

definition match_lease :: "'e journal_ops \<Rightarrow> journal \<Rightarrow> 'e \<Rightarrow> receipt \<Rightarrow> nat \<Rightarrow> string + string" where
  "match_lease J j ev rc generation =
     rbind (ops_encode J ev) (\<lambda>body.
       let ident = event_identity J ev body
       in if ident \<noteq> receipt_id rc \<or> ops_seal J body \<noteq> receipt_sha256 rc
          then Inl ''source journal ACK body mismatch''
          else case find_row j ident of
                 None \<Rightarrow> Inl ''source journal lease is stale or already acknowledged''
               | Some r \<Rightarrow>
                   if row_body r = None \<or> row_generation r \<noteq> generation
                      \<or> ops_seal J (the (row_body r)) \<noteq> receipt_sha256 rc
                      \<or> row_accepted r \<noteq> receipt_accepted rc \<or> row_first r \<noteq> Some (receipt_first rc)
                   then Inl ''source journal lease is stale or already acknowledged''
                   else Inr ident)"

definition work_job :: "string \<Rightarrow> bool" where
  "work_job job \<longleftrightarrow> take 5 job = ''work-''"

definition acknowledge ::
    "'e journal_ops \<Rightarrow> journal \<Rightarrow> 'e \<Rightarrow> receipt \<Rightarrow> nat \<Rightarrow> string \<Rightarrow> string \<Rightarrow> pyfloat \<Rightarrow> journal \<times> string option" where
  "acknowledge J j ev rc generation job reference now =
     (if now < receipt_first rc then (j, Some ''canonical ACK cannot precede delivery'')
      else if \<not> work_job job \<or> reference = '''' then (j, Some ''canonical research work and evidence reference required'')
      else case match_lease J j ev rc generation of
             Inl exc \<Rightarrow> (j, Some exc)
           | Inr ident \<Rightarrow>
               let j' = update_row j ident (\<lambda>r. r\<lparr>row_body := None, row_job := Some job,
                          row_ref := Some reference, row_acknowledged := Some now\<rparr>)
               in (j'\<lparr>count_acknowledged := count_acknowledged j' + 1,
                      service := map (\<lambda>(s, ticket, pending).
                        (s, ticket, if s = ops_source J ev then pending - 1 else pending)) (service j')\<rparr>, None))"

definition retry_lease ::
    "'e journal_ops \<Rightarrow> journal \<Rightarrow> 'e \<Rightarrow> receipt \<Rightarrow> nat \<Rightarrow> pyfloat \<Rightarrow> journal \<times> string option" where
  "retry_lease J j ev rc generation now =
     (case match_lease J j ev rc generation of
        Inl exc \<Rightarrow> (j, Some exc)
      | Inr ident \<Rightarrow> (update_row j ident (\<lambda>r. r\<lparr>row_due := fadd now 5\<rparr>), None))"


subsection \<open>Nothing accepted is lost\<close>

definition row_ok :: "intake_row \<Rightarrow> bool" where
  "row_ok r \<longleftrightarrow> (row_generation r = 0 \<longleftrightarrow> row_first r = None)
     \<and> (row_body r = None \<longrightarrow> (\<exists>job ref t first. row_job r = Some job \<and> work_job job \<and> row_ref r = Some ref
          \<and> ref \<noteq> '''' \<and> row_acknowledged r = Some t \<and> row_first r = Some first \<and> first \<le> t))"

definition acked :: "intake_row \<Rightarrow> bool" where
  "acked r \<longleftrightarrow> row_body r = None"

definition journal_inv :: "journal \<Rightarrow> bool" where
  "journal_inv j \<longleftrightarrow> distinct (map row_id (intake j)) \<and> count_accepted j = length (intake j)
     \<and> count_acknowledged j = length (filter acked (intake j)) \<and> (\<forall>r \<in> set (intake j). row_ok r)"

text \<open>What one operation keeps of a row that was there: its identity and digest, and its body unless acknowledged.\<close>

definition row_kept :: "intake_row \<Rightarrow> intake_row \<Rightarrow> bool" where
  "row_kept r r' \<longleftrightarrow> row_id r' = row_id r \<and> row_source r' = row_source r \<and> row_sha256 r' = row_sha256 r
     \<and> row_accepted r' = row_accepted r \<and> (row_body r' = row_body r \<or> row_body r' = None)"

definition kept :: "journal \<Rightarrow> journal \<Rightarrow> bool" where
  "kept j j' \<longleftrightarrow> (\<forall>r \<in> set (intake j). \<exists>r' \<in> set (intake j'). row_kept r r')"

lemma row_kept_refl [simp]: "row_kept r r"
  by (simp add: row_kept_def)

lemma kept_subset: "set (intake j) \<subseteq> set (intake j') \<Longrightarrow> kept j j'"
  unfolding kept_def using row_kept_refl by blast

lemma kept_refl [simp]: "kept j j"
  by (rule kept_subset) simp

lemma kept_trans: "kept a b \<Longrightarrow> kept b c \<Longrightarrow> kept a c"
  unfolding kept_def row_kept_def by metis

lemma kept_intake: "intake j' = intake j \<Longrightarrow> kept j j'"
  by (rule kept_subset) simp

lemma kept_update:
  assumes "\<And>r. row_id r = ident \<Longrightarrow> row_kept r (f r)" shows "kept j (update_row j ident f)"
  unfolding kept_def
proof
  fix r assume "r \<in> set (intake j)"
  then have "(if row_id r = ident then f r else r) \<in> set (intake (update_row j ident f))"
    by (simp add: update_row_def)
  moreover have "row_kept r (if row_id r = ident then f r else r)" using assms by simp
  ultimately show "\<exists>r' \<in> set (intake (update_row j ident f)). row_kept r r'" ..
qed

lemma find_row_Some: "find_row j ident = Some r \<Longrightarrow> r \<in> set (intake j) \<and> row_id r = ident"
  by (auto simp: find_row_def find_Some_iff)

lemma find_row_None: "find_row j ident = None \<longleftrightarrow> ident \<notin> row_id ` set (intake j)"
  by (auto simp: find_row_def find_None_iff)

lemma insert_row_ok:
  assumes "journal_inv j" "row_body r = Some body" "row_ok r"
  shows "journal_inv (insert_row j r)" "kept j (insert_row j r)"
proof -
  show "journal_inv (insert_row j r)"
    using assms by (auto simp: journal_inv_def insert_row_def find_row_None acked_def)
  show "kept j (insert_row j r)" by (rule kept_subset) (auto simp: insert_row_def)
qed

lemma encode_rows_fresh:
  "encode_rows J evs now = Inr rows \<Longrightarrow> \<forall>r \<in> set rows. row_ok r \<and> row_body r \<noteq> None"
  by (induction evs arbitrary: rows) (auto simp: rbind_Inr_iff row_ok_def)

lemma append_events_ok:
  assumes "journal_inv j" shows "journal_inv (fst (append_events J j evs now)) \<and> kept j (fst (append_events J j evs now))"
proof (cases "encode_rows J evs now")
  case (Inl exc)
  then show ?thesis using assms by (simp add: append_events_def)
next
  case (Inr rows)
  have "journal_inv (foldl insert_row j rows) \<and> kept j (foldl insert_row j rows)"
    using assms encode_rows_fresh [OF Inr]
  proof (induction rows arbitrary: j)
    case (Cons r rows)
    then obtain body where "row_body r = Some body" "row_ok r" by auto
    from insert_row_ok [OF Cons.prems(1) this] show ?case
      using Cons.IH [of "insert_row j r"] Cons.prems(2) by (auto intro: kept_trans)
  qed simp
  then show ?thesis by (simp add: append_events_def Inr)
qed

lemma update_row_keeps [simp]:
  "count_accepted (update_row j ident f) = count_accepted j"
  "count_acknowledged (update_row j ident f) = count_acknowledged j"
  "service (update_row j ident f) = service j"
  by (simp_all add: update_row_def)

lemma filter_update_one:
  "distinct xs \<Longrightarrow> r \<in> set xs \<Longrightarrow> \<not> P r \<Longrightarrow>
     length (filter P (map (\<lambda>x. if x = r then y else x) xs)) = length (filter P xs) + (if P y then 1 else 0)"
proof (induction xs)
  case (Cons x xs)
  have other: "map (\<lambda>x. if x = r then y else x) xs = xs" if "r \<notin> set xs"
    using that by (auto intro: map_idI)
  show ?case
  proof (cases "x = r")
    case True
    then have "r \<notin> set xs" using Cons.prems(1) by simp
    then show ?thesis using True Cons.prems(3) by (simp add: other)
  next
    case False
    then show ?thesis using Cons by simp
  qed
qed simp

lemma journal_inv_cong:
  "intake j = intake j' \<Longrightarrow> count_accepted j = count_accepted j' \<Longrightarrow> count_acknowledged j = count_acknowledged j'
     \<Longrightarrow> journal_inv j = journal_inv j'"
  by (simp add: journal_inv_def)

text \<open>An update of one row keeps the invariant when it keeps the row's keys and leaves it sound.\<close>

lemma update_row_inv:
  assumes "journal_inv j" "r \<in> set (intake j)" "row_id r = ident"
    and "row_id (f r) = row_id r" "row_ok (f r)" "\<not> acked r"
  shows "distinct (map row_id (intake (update_row j ident f)))"
    and "length (intake (update_row j ident f)) = length (intake j)"
    and "\<forall>x \<in> set (intake (update_row j ident f)). row_ok x"
    and "length (filter acked (intake (update_row j ident f)))
       = length (filter acked (intake j)) + (if acked (f r) then 1 else 0)"
proof -
  have inj: "inj_on row_id (set (intake j))" using assms(1) by (simp add: journal_inv_def distinct_map)
  have only: "x = r" if "x \<in> set (intake j)" "row_id x = ident" for x
    using inj_onD [OF inj _ that(1) assms(2)] that(2) assms(3) by simp
  have iff: "row_id x = ident \<longleftrightarrow> x = r" if "x \<in> set (intake j)" for x
    using only [OF that] assms(3) by blast
  have eq: "intake (update_row j ident f) = map (\<lambda>x. if x = r then f r else x) (intake j)"
    by (simp add: update_row_def iff cong: map_cong)
  have ids: "map row_id (map (\<lambda>x. if x = r then f r else x) (intake j)) = map row_id (intake j)"
    using assms(4) by (auto simp: comp_def)
  show "distinct (map row_id (intake (update_row j ident f)))"
    unfolding eq ids using assms(1) by (simp add: journal_inv_def)
  show "length (intake (update_row j ident f)) = length (intake j)" by (simp add: eq)
  show "\<forall>x \<in> set (intake (update_row j ident f)). row_ok x"
    unfolding eq using assms(1,5) by (auto simp: journal_inv_def)
  have "distinct (intake j)" using assms(1) by (simp add: journal_inv_def distinct_map)
  then show "length (filter acked (intake (update_row j ident f)))
       = length (filter acked (intake j)) + (if acked (f r) then 1 else 0)"
    unfolding eq using assms(2,6) by (rule filter_update_one)
qed

lemma lease_one_ok:
  assumes "journal_inv j" "lease_one J j now secs = Inr (Some (j', lease))"
  shows "journal_inv j' \<and> kept j j'"
proof -
  obtain src r ev first where L: "pick_row j src now = Some r"
    "j' = take_turn (update_row j (row_id r) (\<lambda>x. x\<lparr>row_first := Some first,
        row_generation := row_generation r + 1, row_due := fadd now secs\<rparr>)) src"
    using assms(2) by (auto simp: lease_one_def rbind_Inr_iff Let_def split: option.splits if_splits)
  have "r \<in> set (sort_key (\<lambda>r. (row_due r, row_accepted r)) (filter (\<lambda>r. row_source r = src \<and> ready now r) (intake j)))"
    using L(1) by (auto simp: pick_row_def split: list.splits simp del: set_sort set_filter)
  then have r: "r \<in> set (intake j)" "\<not> acked r" by (auto simp: ready_def acked_def)
  let ?f = "\<lambda>x. x\<lparr>row_first := Some first, row_generation := row_generation r + 1, row_due := fadd now secs\<rparr>"
  have "row_ok (?f r)" "row_id (?f r) = row_id r" "\<not> acked (?f r)" using r by (auto simp: row_ok_def acked_def)
  note U = update_row_inv [where f = ?f, OF assms(1) r(1) refl this(2,1) r(2)]
  have "journal_inv j'"
    using U \<open>\<not> acked (?f r)\<close> assms(1) unfolding L(2) journal_inv_def by (simp add: take_turn_def)
  moreover have "kept j j'"
    unfolding L(2) by (rule kept_trans [OF kept_update kept_intake]) (simp_all add: row_kept_def take_turn_def)
  ultimately show ?thesis ..
qed

lemma lease_loop_ok:
  "journal_inv j \<Longrightarrow> lease_loop J n j now secs = Inr (j', leases) \<Longrightarrow> journal_inv j' \<and> kept j j'"
proof (induction n arbitrary: j leases)
  case (Suc n)
  then obtain found where F: "lease_one J j now secs = Inr found" by (auto simp: rbind_Inr_iff)
  show ?case
  proof (cases found)
    case None
    then show ?thesis using Suc.prems F by simp
  next
    case (Some q)
    obtain j1 lease where q: "q = (j1, lease)" by (metis surj_pair)
    obtain leases' where "lease_loop J n j1 now secs = Inr (j', leases')"
      using Suc.prems(2) F by (auto simp: Some q rbind_Inr_iff)
    then show ?thesis
      using Suc.IH lease_one_ok [OF Suc.prems(1) F [unfolded Some q]] kept_trans by blast
  qed
qed simp

lemma lease_many_ok:
  "journal_inv j \<Longrightarrow> journal_inv (fst (lease_many J j now limit secs)) \<and> kept j (fst (lease_many J j now limit secs))"
  by (auto simp: lease_many_def split: sum.split dest: lease_loop_ok)

lemma match_lease_row:
  "match_lease J j ev rc g = Inr ident \<Longrightarrow>
     \<exists>r. find_row j ident = Some r \<and> \<not> acked r \<and> row_generation r = g \<and> row_first r = Some (receipt_first rc)"
  by (auto simp: match_lease_def rbind_Inr_iff Let_def acked_def split: if_splits option.splits)

lemma acknowledge_ok:
  assumes "journal_inv j"
  shows "journal_inv (fst (acknowledge J j ev rc g job ref now)) \<and> kept j (fst (acknowledge J j ev rc g job ref now))"
proof (cases "now < receipt_first rc \<or> \<not> work_job job \<or> ref = '''' \<or> (\<exists>exc. match_lease J j ev rc g = Inl exc)")
  case True
  then show ?thesis using assms by (auto simp: acknowledge_def)
next
  case False
  then obtain ident where M: "match_lease J j ev rc g = Inr ident" by (cases "match_lease J j ev rc g") auto
  obtain r where R: "find_row j ident = Some r" "\<not> acked r" "row_first r = Some (receipt_first rc)"
    using match_lease_row [OF M] by blast
  note r = find_row_Some [OF R(1)]
  let ?f = "\<lambda>r. r\<lparr>row_body := None, row_job := Some job, row_ref := Some ref, row_acknowledged := Some now\<rparr>"
  have "row_ok (?f r)"
    using assms r R(3) False by (auto simp: journal_inv_def row_ok_def not_less)
  moreover have "row_id (?f r) = row_id r" "acked (?f r)" by (simp_all add: acked_def)
  moreover have "r \<in> set (intake j)" "row_id r = ident" using r by simp_all
  ultimately have V: "journal_inv j" "r \<in> set (intake j)" "row_id r = ident" "row_id (?f r) = row_id r"
    "row_ok (?f r)" "\<not> acked r" "acked (?f r)" using assms R(2) by blast+
  have U: "journal_inv (update_row j ident ?f\<lparr>count_acknowledged := count_acknowledged j + 1\<rparr>)"
    using update_row_inv [where f = ?f, OF V(1-6)] V(1,7)
    unfolding journal_inv_def by simp
  moreover have "kept j (update_row j ident ?f)" by (rule kept_update) (simp add: row_kept_def)
  ultimately show ?thesis
  proof -
    assume inv: "journal_inv (update_row j ident ?f\<lparr>count_acknowledged := count_acknowledged j + 1\<rparr>)"
      and keep: "kept j (update_row j ident ?f)"
    let ?j = "fst (acknowledge J j ev rc g job ref now)"
    have j: "intake ?j = intake (update_row j ident ?f)" "count_accepted ?j = count_accepted j"
      "count_acknowledged ?j = count_acknowledged j + 1"
      using False by (simp_all add: acknowledge_def M Let_def update_row_def)
    have "journal_inv ?j = journal_inv (update_row j ident ?f\<lparr>count_acknowledged := count_acknowledged j + 1\<rparr>)"
      using j by (intro journal_inv_cong) (simp_all add: update_row_def)
    then show ?thesis using inv kept_trans [OF keep kept_intake] j(1) by metis
  qed
qed

lemma retry_ok:
  assumes "journal_inv j"
  shows "journal_inv (fst (retry_lease J j ev rc g now)) \<and> kept j (fst (retry_lease J j ev rc g now))"
proof (cases "match_lease J j ev rc g")
  case (Inl exc)
  then show ?thesis using assms by (simp add: retry_lease_def)
next
  case (Inr ident)
  obtain r where R: "find_row j ident = Some r" "\<not> acked r" using match_lease_row [OF Inr] by blast
  note r = find_row_Some [OF R(1)]
  let ?f = "\<lambda>r. r\<lparr>row_due := fadd now 5\<rparr>"
  have "row_ok (?f r)" "row_id (?f r) = row_id r" "\<not> acked (?f r)"
    using assms r R(2) by (auto simp: journal_inv_def row_ok_def acked_def)
  moreover have "r \<in> set (intake j)" "row_id r = ident" using r by simp_all
  ultimately have V: "journal_inv j" "r \<in> set (intake j)" "row_id r = ident" "row_id (?f r) = row_id r"
    "row_ok (?f r)" "\<not> acked r" "\<not> acked (?f r)" using assms R(2) by blast+
  have "journal_inv (update_row j ident ?f)"
    using update_row_inv [where f = ?f, OF V(1-6)] V(1,7) unfolding journal_inv_def by simp
  moreover have "kept j (update_row j ident ?f)" by (rule kept_update) (simp add: row_kept_def)
  ultimately show ?thesis by (simp add: retry_lease_def Inr)
qed

datatype 'e journal_event = Append "'e list" pyfloat | Lease pyfloat int pyfloat
  | Acknowledge 'e receipt nat string string pyfloat | Retry 'e receipt nat pyfloat

definition journal_step :: "'e journal_ops \<Rightarrow> journal \<Rightarrow> 'e journal_event \<Rightarrow> journal" where
  "journal_step J j event =
     (case event of
        Append evs now \<Rightarrow> fst (append_events J j evs now)
      | Lease now limit secs \<Rightarrow> fst (lease_many J j now limit secs)
      | Acknowledge ev rc g job ref now \<Rightarrow> fst (acknowledge J j ev rc g job ref now)
      | Retry ev rc g now \<Rightarrow> fst (retry_lease J j ev rc g now))"

lemma journal_step_ok: "journal_inv j \<Longrightarrow> journal_inv (journal_step J j e) \<and> kept j (journal_step J j e)"
  by (cases e) (simp_all add: journal_step_def append_events_ok lease_many_ok acknowledge_ok retry_ok)

interpretation journals: counting_machine "journal_step J" journal_inv "\<lambda>j. int (count_accepted j)" for J
proof
  show "journal_inv j \<Longrightarrow> journal_inv (journal_step J j e)" for j and e :: "'a journal_event"
    by (simp add: journal_step_ok)
next
  fix j and e :: "'a journal_event" assume inv: "journal_inv j"
  define j' where "j' = journal_step J j e"
  have j': "journal_inv j'" "kept j j'" using journal_step_ok [OF inv, of J e] by (simp_all add: j'_def)
  have "row_id r \<in> set (map row_id (intake j'))" if r: "r \<in> set (intake j)" for r
  proof -
    obtain r' where "r' \<in> set (intake j')" "row_kept r r'" using j'(2) r unfolding kept_def by blast
    then have "row_id r = row_id r'" by (simp add: row_kept_def)
    then show ?thesis using \<open>r' \<in> set (intake j')\<close> by simp
  qed
  then have "set (map row_id (intake j)) \<subseteq> set (map row_id (intake j'))" by auto
  then have "length (intake j) \<le> length (intake j')"
    using inv j'(1) by (metis card_mono distinct_card journal_inv_def length_map List.finite_set)
  then show "int (count_accepted j) \<le> int (count_accepted (journal_step J j e))"
    using inv j'(1) by (simp add: journal_inv_def j'_def)
qed

lemma journal_run_kept: "journal_inv j \<Longrightarrow> kept j (run (journal_step J) j es)"
proof (induction es arbitrary: j)
  case (Cons e es)
  have "journal_inv (journal_step J j e)" "kept j (journal_step J j e)"
    using journal_step_ok [OF Cons.prems, of J e] by blast+
  then show ?case using Cons.IH kept_trans by fastforce
qed simp

lemma empty_journal_inv: "journal_inv empty_journal"
  by (simp add: journal_inv_def empty_journal_def)


subsection \<open>Fair turns\<close>

text \<open>How many sources stand before this one in the order of turns.\<close>

definition ahead :: "journal \<Rightarrow> string \<times> nat \<times> int \<Rightarrow> nat" where
  "ahead j s = length (filter (\<lambda>x. source_order x < source_order s) (service j))"

lemma fold_max_ge: "(x :: nat) \<in> insert a (set xs) \<Longrightarrow> x \<le> fold max xs a"
proof -
  assume "x \<in> insert a (set xs)"
  then have "x \<le> Max (set (a # xs))" by (intro Max_ge) auto
  then show ?thesis by (simp only: Max.set_eq_fold)
qed

lemma ticket_le_max: "(s, ticket, pending) \<in> set (service j) \<Longrightarrow> ticket \<le> max_ticket j"
  unfolding max_ticket_def by (rule fold_max_ge) force

lemma hd_sort_key:
  assumes "sort_key f xs = y # ys" shows "y \<in> set xs" "\<forall>x \<in> set xs. f y \<le> f x"
proof -
  have "set (y # ys) = set xs" using assms by (metis set_sort)
  moreover have "sorted (map f (y # ys))" by (metis assms sorted_sort_key)
  ultimately show "y \<in> set xs" "\<forall>x \<in> set xs. f y \<le> f x" by auto
qed

lemma pick_source_min:
  assumes "pick_source j now = Some src"
  obtains ticket pending where "(src, ticket, pending) \<in> set (due_sources j now)"
    "\<forall>x \<in> set (due_sources j now). (ticket, src) \<le> source_order x"
proof -
  obtain x xs where x: "sort_key source_order (due_sources j now) = x # xs" "src = fst x"
    using assms by (auto simp: pick_source_def split: list.splits)
  obtain s ticket pending where s: "x = (s, ticket, pending)" by (metis prod_cases3)
  show thesis
    using hd_sort_key [OF x(1)] x(2) by (intro that [of ticket pending]) (simp_all add: s source_order_def)
qed

lemma ahead_take_turn:
  assumes "distinct (dkeys (service j))" "(a, ta, pa) \<in> set (service j)" "s \<in> set (service j)" "fst s \<noteq> a"
    and "(ta, a) < source_order s"
  shows "Suc (ahead (take_turn j a) s) = ahead j s"
proof -
  let ?P = "\<lambda>x. source_order x < source_order s"
  let ?g = "\<lambda>x. if x = (a, ta, pa) then (a, max_ticket j + 1, pa) else x"
  have inj: "inj_on fst (set (service j))" using assms(1) by (simp add: distinct_map)
  have only: "x = (a, ta, pa)" if "x \<in> set (service j)" "fst x = a" for x
    using inj_onD [OF inj _ that(1) assms(2)] that(2) by simp
  have "(\<lambda>(n, t, p). (n, if n = a then max_ticket j + 1 else t, p)) x = ?g x" if "x \<in> set (service j)" for x
  proof (cases "fst x = a")
    case True
    then have "x = (a, ta, pa)" by (rule only [OF that])
    then show ?thesis by simp
  next
    case False
    then show ?thesis by (cases x) auto
  qed
  then have eq: "service (take_turn j a) = map ?g (service j)"
    by (simp add: take_turn_def cong: map_cong)
  obtain sn ts ps where s: "s = (sn, ts, ps)" by (metis prod_cases3)
  have "ts \<le> max_ticket j" using assms(3) ticket_le_max by (simp add: s)
  then have last: "\<not> ?P (a, max_ticket j + 1, pa)" by (simp add: s source_order_def less_prod_def)
  have first: "?P (a, ta, pa)" using assms(5) by (simp add: source_order_def)
  have "distinct (service j)" using assms(1) by (simp add: distinct_map)
  then have "length (filter ?P (map ?g xs)) + (if (a, ta, pa) \<in> set xs then 1 else 0) = length (filter ?P xs)"
    if "distinct xs" for xs
    using that first last by (induction xs) auto
  from this [OF \<open>distinct (service j)\<close>] show ?thesis
    using assms(2) unfolding ahead_def eq by simp
qed

lemma lease_one_turn:
  assumes "lease_one J j now secs = Inr (Some (j', lease))"
  obtains src where "pick_source j now = Some src" "service j' = service (take_turn j src)"
proof -
  obtain src where src: "pick_source j now = Some src" using assms by (auto simp: lease_one_def split: option.splits)
  obtain r where r: "pick_row j src now = Some r" using assms src by (auto simp: lease_one_def split: option.splits)
  define f :: "intake_row \<Rightarrow> intake_row" where "f = (\<lambda>x. x\<lparr>row_first := Some (case row_first r of None \<Rightarrow> now | Some t \<Rightarrow> t),
    row_generation := row_generation r + 1, row_due := fadd now secs\<rparr>)"
  have "j' = take_turn (update_row j (row_id r) f) src"
    using assms by (auto simp: lease_one_def src r rbind_Inr_iff Let_def f_def split: if_splits)
  moreover have ticket: "max_ticket (update_row j (row_id r) f) = max_ticket j" by (simp add: max_ticket_def)
  moreover have "service (take_turn (update_row j (row_id r) f) src) = service (take_turn j src)"
    unfolding take_turn_def ticket by simp
  ultimately show thesis using src by (intro that) simp_all
qed

subsection \<open>Properties\<close>

text \<open>
  C24: after any sequence of admissions, leases, acknowledgements and retries, raised errors included,
  nothing accepted has been lost: every row there was at any earlier point is still there with its
  body, unless an acknowledgement naming canonical work and evidence, no earlier than the delivery,
  removed it; and the counters count exactly these rows.
\<close>

theorem accepted_never_lost:
  "(\<forall>r \<in> set (intake (run (journal_step J) empty_journal es)).
      \<exists>r' \<in> set (intake (run (journal_step J) empty_journal (es @ es'))).
        row_id r' = row_id r \<and> row_sha256 r' = row_sha256 r
        \<and> (row_body r' = row_body r
           \<or> row_body r' = None \<and> (\<exists>job ref t first. row_job r' = Some job \<and> work_job job \<and> row_ref r' = Some ref
               \<and> ref \<noteq> '''' \<and> row_acknowledged r' = Some t \<and> row_first r' = Some first \<and> first \<le> t)))
   \<and> count_accepted (run (journal_step J) empty_journal es) = length (intake (run (journal_step J) empty_journal es))
   \<and> count_acknowledged (run (journal_step J) empty_journal es)
       = length (filter (\<lambda>r. row_body r = None) (intake (run (journal_step J) empty_journal es)))"
proof -
  let ?j = "run (journal_step J) empty_journal es" and ?j' = "run (journal_step J) empty_journal (es @ es')"
  have inv: "journal_inv ?j" "journal_inv ?j'" by (intro journals.run_inv empty_journal_inv)+
  have keep: "kept ?j ?j'" using journal_run_kept [OF inv(1), of J es'] by simp
  have "\<exists>r' \<in> set (intake ?j'). row_id r' = row_id r \<and> row_sha256 r' = row_sha256 r
      \<and> (row_body r' = row_body r
         \<or> row_body r' = None \<and> (\<exists>job ref t first. row_job r' = Some job \<and> work_job job \<and> row_ref r' = Some ref
             \<and> ref \<noteq> '''' \<and> row_acknowledged r' = Some t \<and> row_first r' = Some first \<and> first \<le> t))"
    if r: "r \<in> set (intake ?j)" for r
  proof -
    obtain r' where r': "r' \<in> set (intake ?j')" "row_kept r r'" using keep r unfolding kept_def by blast
    moreover have "row_ok r'" using inv(2) r'(1) unfolding journal_inv_def by blast
    ultimately show ?thesis using r'(1) unfolding row_kept_def row_ok_def by blast
  qed
  moreover have "filter (\<lambda>r. row_body r = None) (intake ?j) = filter acked (intake ?j)"
    by (rule filter_cong) (simp_all add: acked_def)
  ultimately show ?thesis using inv(1) by (simp add: journal_inv_def)
qed

definition text_ops :: "string journal_ops" where
  "text_ops = \<lparr>ops_source = take 1, ops_durable = (\<lambda>_. None), ops_encode = Inr, ops_decode = Inr,
     ops_seal = id, ops_pair = (\<lambda>a b. a @ b)\<rparr>"

definition two_sources :: journal where
  "two_sources = fst (append_events text_ops empty_journal [''a1'', ''a2'', ''b1''] 10)"

theorem accepted_never_lost_witness:
  "count_accepted (run (journal_step text_ops) empty_journal [Append [''a1'', ''a2'', ''b1''] 10]) = 3
   \<and> count_accepted (run (journal_step text_ops) empty_journal [Append [''a1'', ''a2'', ''b1''] 10])
      = length (intake (run (journal_step text_ops) empty_journal [Append [''a1'', ''a2'', ''b1''] 10]))"
  using accepted_never_lost [of text_ops "[Append [''a1'', ''a2'', ''b1''] 10]" "[]"]
  by (simp add: journal_step_def append_events_def text_ops_def insert_row_def find_row_def empty_journal_def
      event_identity_def)


lemma two_sources_eq:
  "service two_sources = [(''a'', 0, 2), (''b'', 0, 1)]"
  "map row_id (intake two_sources) = [''a1'', ''a2'', ''b1'']"
  by (simp_all add: two_sources_def append_events_def text_ops_def insert_row_def find_row_def empty_journal_def
      event_identity_def)


end
