(* ===== verification/StagedExits.thy ===== *)
theory StagedExits
  imports PyText Interfaces
begin

text \<open>
  \<open>execution/staged_exits.py\<close>: the ladders of prepared exits.  Instructions are a parameter \<open>'i\<close> with
  their \<open>ok\<close> flag; the venue's quote and build functions are arguments of each call, and an exception
  they raise is a value.  \<open>wall\<close> is what \<open>time.time()\<close> reads.
\<close>

definition DEFAULT_LADDER :: "pyfloat list" where
  "DEFAULT_LADDER = [fl (1 / 10), 1 / 4, 1 / 2, 3 / 4, 1]"

definition DEFAULT_BOUND_MAX_AGE_S :: pyfloat where "DEFAULT_BOUND_MAX_AGE_S = 2"

record 'i staged_rung =
  fraction :: pyfloat
  rung_tokens :: int
  rung_instruction :: 'i
  min_proceeds :: int
  priced_at :: pyfloat
  state_version :: int
  venue :: string

definition is_stale :: "'i staged_rung \<Rightarrow> int \<Rightarrow> pyfloat \<Rightarrow> pyfloat \<Rightarrow> bool" where
  "is_stale r version now max_age_s =
     (if version \<noteq> state_version r then True else max_age_s < fsub now (priced_at r))"

record 'i staged_ladder =
  ladder_token :: string
  rungs :: "(pyfloat, 'i staged_rung) dict"
  built_at :: pyfloat
  ladder_tokens :: int
  ladder_detail :: string

definition rung_for :: "'i staged_ladder \<Rightarrow> pyfloat \<Rightarrow> 'i staged_rung option" where
  "rung_for l f =
     (let eligible = filter (\<lambda>v. v \<le> fadd f (fl (1 / 10 ^ 9))) (sort (dkeys (rungs l)))
      in if eligible = [] then None else dget (rungs l) (last eligible))"

record 'i staged_exits =
  exit_ladder :: "pyfloat list"
  bound_max_age_s :: pyfloat
  max_positions :: nat
  ladders :: "(string, 'i staged_ladder) dict"
  built :: nat
  repriced :: nat
  served :: nat
  missed :: nat
  stale_served :: nat
  build_failures :: nat

definition round4 :: "pyfloat \<Rightarrow> pyfloat" where
  "round4 x = fl (of_int (round_half_even (x * 10000)) / 10000)"

definition new_staged_exits :: "pyfloat list \<Rightarrow> pyfloat \<Rightarrow> nat \<Rightarrow> 'i staged_exits" where
  "new_staged_exits ladder max_age n =
     \<lparr>exit_ladder = sort (remdups (map round4 (filter (\<lambda>v. 0 < v \<and> v \<le> 1) ladder))), bound_max_age_s = max_age,
      max_positions = n, ladders = [], built = 0, repriced = 0, served = 0, missed = 0, stale_served = 0,
      build_failures = 0\<rparr>"

subsection \<open>Building\<close>

text \<open>What the injected functions do: raise, or return an optional value.\<close>

datatype 'a call = Raised | Returned "'a option"

record 'i venue_calls =
  build_sell :: "int \<Rightarrow> int \<Rightarrow> 'i call"
  quote_sell :: "int \<Rightarrow> int call"
  instruction_ok :: "'i \<Rightarrow> bool"
  slippage_bps :: int
  venue_name :: string

definition minimum_for :: "int \<Rightarrow> int \<Rightarrow> int" where
  "minimum_for bps proceeds = py_trunc (fmul (float_of_int proceeds) (fsub 1 (int_div (max 0 bps) 10000)))"

text \<open>The rung, or \<open>None\<close> with a counted failure.\<close>

definition build_rung ::
    "'i staged_exits \<Rightarrow> 'i venue_calls \<Rightarrow> pyfloat \<Rightarrow> int \<Rightarrow> int \<Rightarrow> pyfloat \<Rightarrow> 'i staged_exits \<times> 'i staged_rung option" where
  "build_rung s V f sz version now =
     (let failed = (s\<lparr>build_failures := build_failures s + 1\<rparr>, None)
      in case quote_sell V sz of
           Returned (Some proceeds) \<Rightarrow>
             if proceeds \<le> 0 then failed
             else
               let minimum = minimum_for (slippage_bps V) proceeds
               in if minimum \<le> 0 then failed
                  else (case build_sell V sz minimum of
                    Returned (Some instruction) \<Rightarrow>
                      if \<not> instruction_ok V instruction then failed
                      else (s, Some \<lparr>fraction = f, rung_tokens = sz, rung_instruction = instruction,
                             min_proceeds = minimum, priced_at = now, state_version = version, venue = venue_name V\<rparr>)
                  | _ \<Rightarrow> failed)
         | _ \<Rightarrow> failed)"

definition rung_size :: "int \<Rightarrow> pyfloat \<Rightarrow> int" where
  "rung_size size_tokens f = py_trunc (fmul (float_of_int size_tokens) f)"

fun stage_rungs ::
    "'i venue_calls \<Rightarrow> int \<Rightarrow> int \<Rightarrow> pyfloat \<Rightarrow> pyfloat list \<Rightarrow> 'i staged_exits \<Rightarrow> (pyfloat, 'i staged_rung) dict
       \<Rightarrow> 'i staged_exits \<times> (pyfloat, 'i staged_rung) dict" where
  "stage_rungs V size_tokens version now [] s d = (s, d)"
| "stage_rungs V size_tokens version now (f # fs) s d =
     (let sz = rung_size size_tokens f
      in if sz \<le> 0 then stage_rungs V size_tokens version now fs s d
         else case build_rung s V f sz version now of
           (s, None) \<Rightarrow> stage_rungs V size_tokens version now fs s d
         | (s, Some r) \<Rightarrow> stage_rungs V size_tokens version now fs s (dput f r d))"

text \<open>Both branches of the conditional read the wall clock, whatever \<open>now\<close> the caller passes.\<close>

definition stage_now :: "pyfloat option \<Rightarrow> pyfloat \<Rightarrow> pyfloat" where
  "stage_now now wall = (if now \<noteq> None then wall else wall)"

definition stage_position ::
    "'i venue_calls \<Rightarrow> 'i staged_exits \<Rightarrow> string \<Rightarrow> int \<Rightarrow> int \<Rightarrow> pyfloat option \<Rightarrow> pyfloat \<Rightarrow> 'i staged_exits" where
  "stage_position V s token size_tokens version now_arg wall =
     (let now = stage_now now_arg wall;
          ladder = \<lparr>ladder_token = token, rungs = [], built_at = now, ladder_tokens = size_tokens, ladder_detail = ''''\<rparr>
      in if size_tokens \<le> 0
         then s\<lparr>ladders := dput token (ladder\<lparr>ladder_detail := ''position holds no tokens''\<rparr>) (ladders s)\<rparr>
         else
           let (s, d) = stage_rungs V size_tokens version now (exit_ladder s) s [];
               ladder = ladder\<lparr>rungs := d, ladder_detail := nat_str (length d) @ '' of '' @ nat_str (length (exit_ladder s))
                          @ '' rungs prepared''\<rparr>
           in s\<lparr>ladders := evict_oldest (max_positions s) (dput token ladder (ladders s)), built := built s + length d\<rparr>)"

fun reprice_rungs ::
    "'i venue_calls \<Rightarrow> int \<Rightarrow> pyfloat \<Rightarrow> (pyfloat \<times> 'i staged_rung) list \<Rightarrow> 'i staged_exits \<Rightarrow> (pyfloat, 'i staged_rung) dict
       \<Rightarrow> nat \<Rightarrow> 'i staged_exits \<times> (pyfloat, 'i staged_rung) dict \<times> nat" where
  "reprice_rungs V version now [] s d refreshed = (s, d, refreshed)"
| "reprice_rungs V version now ((f, r) # rs) s d refreshed =
     (if \<not> is_stale r version now (bound_max_age_s s) then reprice_rungs V version now rs s d refreshed
      else case build_rung s V f (rung_tokens r) version now of
        (s, None) \<Rightarrow> reprice_rungs V version now rs s d refreshed
      | (s, Some r') \<Rightarrow> reprice_rungs V version now rs s (dput f r' d) (refreshed + 1))"

definition reprice ::
    "'i venue_calls \<Rightarrow> 'i staged_exits \<Rightarrow> string \<Rightarrow> int \<Rightarrow> pyfloat \<Rightarrow> 'i staged_exits \<times> nat" where
  "reprice V s token version now =
     (case dget (ladders s) token of
        None \<Rightarrow> (s, 0)
      | Some l \<Rightarrow>
          let (s, d, refreshed) = reprice_rungs V version now (rungs l) s (rungs l) 0
          in (s\<lparr>ladders := dput token (l\<lparr>rungs := d\<rparr>) (ladders s), repriced := repriced s + refreshed\<rparr>, refreshed))"

definition release :: "'i staged_exits \<Rightarrow> string \<Rightarrow> 'i staged_exits" where
  "release s token = s\<lparr>ladders := dpop token (ladders s)\<rparr>"

text \<open>\<open>f"{fraction:.0%}"\<close>.\<close>

definition percent0_str :: "pyfloat \<Rightarrow> string" where
  "percent0_str f = fixed0_str (fmul f 100) @ ''%''"

definition take_rung ::
    "'i staged_exits \<Rightarrow> string \<Rightarrow> pyfloat \<Rightarrow> int \<Rightarrow> pyfloat \<Rightarrow> 'i staged_exits \<times> 'i staged_rung option \<times> string" where
  "take_rung s token f version now =
     (case dget (ladders s) token of
        None \<Rightarrow> (s\<lparr>missed := missed s + 1\<rparr>, None, ''no ladder staged for this position'')
      | Some l \<Rightarrow>
          (case rung_for l f of
             None \<Rightarrow> (s\<lparr>missed := missed s + 1\<rparr>, None, ''no rung at or below '' @ percent0_str f)
           | Some r \<Rightarrow>
               if is_stale r version now (bound_max_age_s s)
               then (s\<lparr>stale_served := stale_served s + 1\<rparr>, Some r, ''STALE: bound was priced against a superseded state'')
               else (s\<lparr>served := served s + 1\<rparr>, Some r, ''OK'')))"

subsection \<open>Where a rung comes from\<close>

definition rung_made :: "'i venue_calls \<Rightarrow> int \<Rightarrow> pyfloat \<Rightarrow> 'i staged_rung \<Rightarrow> bool" where
  "rung_made V version now r \<longleftrightarrow> state_version r = version \<and> priced_at r = now
     \<and> (\<exists>proceeds. quote_sell V (rung_tokens r) = Returned (Some proceeds) \<and> 0 < proceeds
          \<and> min_proceeds r = minimum_for (slippage_bps V) proceeds)
     \<and> 0 < min_proceeds r
     \<and> build_sell V (rung_tokens r) (min_proceeds r) = Returned (Some (rung_instruction r))
     \<and> instruction_ok V (rung_instruction r)"

lemma build_rung_SomeD:
  "build_rung s V f n version now = (s', Some r) \<Longrightarrow>
     s' = s \<and> fraction r = f \<and> rung_tokens r = n \<and> rung_made V version now r"
  by (auto simp: build_rung_def rung_made_def Let_def split: call.splits option.splits if_splits)

lemma build_rung_NoneD:
  "build_rung s V f n version now = (s', None) \<Longrightarrow> s' = s\<lparr>build_failures := build_failures s + 1\<rparr>"
  by (auto simp: build_rung_def Let_def split: call.splits option.splits if_splits)

text \<open>The state a build can change is the failure counter.\<close>

definition same_but_failures :: "'i staged_exits \<Rightarrow> 'i staged_exits \<Rightarrow> bool" where
  "same_but_failures s s' \<longleftrightarrow> (\<exists>n. s' = s\<lparr>build_failures := n\<rparr>)"

lemma same_but_failures_refl [simp]: "same_but_failures s s"
  by (auto simp: same_but_failures_def intro: exI [of _ "build_failures s"])

lemma same_but_failures_trans:
  "same_but_failures (s\<lparr>build_failures := n\<rparr>) s' \<Longrightarrow> same_but_failures s s'"
  by (auto simp: same_but_failures_def)

lemma same_but_failuresD:
  assumes "same_but_failures s s'"
  shows "ladders s' = ladders s" "exit_ladder s' = exit_ladder s" "bound_max_age_s s' = bound_max_age_s s"
    "max_positions s' = max_positions s" "built s' = built s" "repriced s' = repriced s"
  using assms by (auto simp: same_but_failures_def)

text \<open>A table of rungs, each under its own fraction, of the size its position gives it.\<close>

definition table_ok :: "pyfloat list \<Rightarrow> int \<Rightarrow> ('i staged_rung \<Rightarrow> bool) \<Rightarrow> (pyfloat, 'i staged_rung) dict \<Rightarrow> bool" where
  "table_ok fs size_tokens made d \<longleftrightarrow> distinct (dkeys d) \<and> (\<forall>f r. dget d f = Some r \<longrightarrow>
     fraction r = f \<and> f \<in> set fs \<and> 0 < rung_size size_tokens f \<and> rung_tokens r = rung_size size_tokens f \<and> made r)"

lemma table_ok_put:
  "table_ok fs n made d \<Longrightarrow> fraction r = f \<Longrightarrow> f \<in> set fs \<Longrightarrow> 0 < rung_tokens r \<Longrightarrow> rung_tokens r = rung_size n f
     \<Longrightarrow> made r \<Longrightarrow> table_ok fs n made (dput f r d)"
  by (auto simp: table_ok_def)

lemma table_ok_weaken: "table_ok fs n made d \<Longrightarrow> (\<And>r. made r \<Longrightarrow> made' r) \<Longrightarrow> table_ok fs n made' d"
  by (auto simp: table_ok_def)

lemma stage_rungs_ok:
  assumes "stage_rungs V n version now todo s d = (s', d')" "table_ok fs n made d" "set todo \<subseteq> set fs"
    "\<forall>r. rung_made V version now r \<longrightarrow> made r"
  shows "same_but_failures s s' \<and> table_ok fs n made d'"
  using assms
proof (induction V n version now todo s d rule: stage_rungs.induct)
  case (2 V n version now f todo s d)
  show ?case
  proof (cases "rung_size n f \<le> 0")
    case True
    then show ?thesis using 2(1) [OF refl] 2(4-7) by simp
  next
    case False
    obtain s1 o1 where b: "build_rung s V f (rung_size n f) version now = (s1, o1)" by fastforce
    show ?thesis
    proof (cases o1)
      case None
      then have "same_but_failures s1 s' \<and> table_ok fs n made d'"
        using 2(2) [OF refl False b [symmetric]] 2(4-7) False b by simp
      then show ?thesis using build_rung_NoneD b None same_but_failures_trans by blast
    next
      case (Some r)
      have made: "s1 = s" "fraction r = f" "rung_tokens r = rung_size n f" "rung_made V version now r"
        using build_rung_SomeD b Some by blast+
      have "table_ok fs n made (dput f r d)"
        using 2(5,6,7) False made by (intro table_ok_put) auto
      then show ?thesis using 2(3) [OF refl False b [symmetric] Some] 2(4,6,7) False b Some made(1) by simp
    qed
  qed
qed simp

lemma reprice_rungs_ok:
  assumes "reprice_rungs V version now todo s d k = (s', d', k')" "table_ok fs n made d"
    "\<forall>(f, r) \<in> set todo. f \<in> set fs \<and> 0 < rung_tokens r \<and> rung_tokens r = rung_size n f"
    "\<forall>r. rung_made V version now r \<longrightarrow> made r"
  shows "same_but_failures s s' \<and> table_ok fs n made d'"
  using assms
proof (induction V version now todo s d k rule: reprice_rungs.induct)
  case (2 V version now f r todo s d k)
  show ?case
  proof (cases "is_stale r version now (bound_max_age_s s)")
    case False
    then show ?thesis using 2(1) 2(4-7) by simp
  next
    case True
    obtain s1 o1 where b: "build_rung s V f (rung_tokens r) version now = (s1, o1)" by fastforce
    show ?thesis
    proof (cases o1)
      case None
      then have "same_but_failures s1 s' \<and> table_ok fs n made d'"
        using 2(2) [OF _ b [symmetric]] 2(4-7) True b by simp
      then show ?thesis using build_rung_NoneD b None same_but_failures_trans by blast
    next
      case (Some r')
      have made: "s1 = s" "fraction r' = f" "rung_tokens r' = rung_tokens r" "rung_made V version now r'"
        using build_rung_SomeD b Some by blast+
      have "table_ok fs n made (dput f r' d)"
        using 2(5,6,7) made by (intro table_ok_put) auto
      then show ?thesis using 2(3) [OF _ b [symmetric] Some] 2(4,6,7) True b Some made(1) by simp
    qed
  qed
qed simp

subsection \<open>Histories\<close>

datatype 'i exit_event =
    Staged "'i venue_calls" string int int "pyfloat option" pyfloat
  | Repriced "'i venue_calls" string int pyfloat
  | Released string
  | Taken string pyfloat int pyfloat

text \<open>The call that priced and built a rung of a token.\<close>

fun made_by :: "string \<Rightarrow> 'i exit_event \<Rightarrow> 'i staged_rung \<Rightarrow> bool" where
  "made_by token (Staged V t n version now wall) r \<longleftrightarrow> t = token \<and> rung_made V version (stage_now now wall) r"
| "made_by token (Repriced V t version now) r \<longleftrightarrow> t = token \<and> rung_made V version now r"
| "made_by token _ r \<longleftrightarrow> False"

definition exits_step :: "'i staged_exits \<times> 'i exit_event list \<Rightarrow> 'i exit_event \<Rightarrow> 'i staged_exits \<times> 'i exit_event list" where
  "exits_step s ev =
     ((case ev of
         Staged V t n version now wall \<Rightarrow> stage_position V (fst s) t n version now wall
       | Repriced V t version now \<Rightarrow> fst (reprice V (fst s) t version now)
       | Released t \<Rightarrow> release (fst s) t
       | Taken t f version now \<Rightarrow> fst (take_rung (fst s) t f version now)), snd s @ [ev])"

definition ladder_ok :: "pyfloat list \<Rightarrow> 'i exit_event list \<Rightarrow> string \<Rightarrow> 'i staged_ladder \<Rightarrow> bool" where
  "ladder_ok fs h t l \<longleftrightarrow> ladder_token l = t
     \<and> table_ok fs (ladder_tokens l) (\<lambda>r. \<exists>ev \<in> set h. made_by t ev r) (rungs l)"

definition exits_inv :: "pyfloat list \<Rightarrow> pyfloat \<Rightarrow> 'i staged_exits \<times> 'i exit_event list \<Rightarrow> bool" where
  "exits_inv fs age s \<longleftrightarrow> exit_ladder (fst s) = fs \<and> bound_max_age_s (fst s) = age
     \<and> distinct (dkeys (ladders (fst s)))
     \<and> (\<forall>t l. dget (ladders (fst s)) t = Some l \<longrightarrow> ladder_ok fs (snd s) t l)"

lemma ladder_ok_later: "ladder_ok fs h t l \<Longrightarrow> ladder_ok fs (h @ h') t l"
  by (auto simp: ladder_ok_def intro: table_ok_weaken)

lemma dget_evict_oldest:
  "distinct (dkeys d) \<Longrightarrow> dget (evict_oldest n d) k = Some v \<Longrightarrow> dget d k = Some v"
  using set_evict_oldest [of n d] by (auto intro: map_of_is_SomeI dest: map_of_SomeD)

lemma stage_position_ok:
  assumes inv: "exits_inv fs age (s, h)"
  shows "exits_inv fs age (exits_step (s, h) (Staged V t n version now wall))"
proof -
  let ?ev = "Staged V t n version now wall"
  have old: "ladder_ok fs (h @ [?ev]) k l" if "dget (ladders s) k = Some l" for k l
    using inv that by (auto simp: exits_inv_def intro: ladder_ok_later)
  show ?thesis
  proof (cases "n \<le> 0")
    case True
    then show ?thesis
      using inv old by (auto simp: exits_step_def stage_position_def Let_def exits_inv_def ladder_ok_def table_ok_def)
  next
    case False
    obtain s' d where sr: "stage_rungs V n version (stage_now now wall) (exit_ladder s) s [] = (s', d)" by fastforce
    have fs: "exit_ladder s = fs" using inv by (simp add: exits_inv_def)
    have ok: "same_but_failures s s' \<and> table_ok fs n (\<lambda>r. \<exists>ev \<in> set (h @ [?ev]). made_by t ev r) d"
      by (rule stage_rungs_ok [OF sr]) (auto simp: fs table_ok_def)
    note same = same_but_failuresD [OF conjunct1 [OF ok]]
    define l where "l = \<lparr>ladder_token = t, rungs = d, built_at = stage_now now wall, ladder_tokens = n,
        ladder_detail = nat_str (length d) @ '' of '' @ nat_str (length (exit_ladder s')) @ '' rungs prepared''\<rparr>"
    have l: "ladder_ok fs (h @ [?ev]) t l" using ok by (simp add: ladder_ok_def l_def)
    have step: "exits_step (s, h) ?ev = (s'\<lparr>ladders := evict_oldest (max_positions s') (dput t l (ladders s')),
        built := built s' + length d\<rparr>, h @ [?ev])"
      using False sr by (simp add: exits_step_def stage_position_def Let_def l_def)
    have dist: "distinct (dkeys (dput t l (ladders s')))" using inv same(1) by (simp add: exits_inv_def)
    have "ladder_ok fs (h @ [?ev]) k m" if "dget (evict_oldest (max_positions s') (dput t l (ladders s'))) k = Some m" for k m
      using dget_evict_oldest [OF dist that] l old by (auto simp: same(1) split: if_splits)
    moreover have "distinct (dkeys (evict_oldest (max_positions s') (dput t l (ladders s'))))"
      using dist by (simp add: map_evict_oldest)
    ultimately show ?thesis using inv same unfolding step by (simp add: exits_inv_def)
  qed
qed

lemma reprice_ok:
  assumes inv: "exits_inv fs age (s, h)"
  shows "exits_inv fs age (exits_step (s, h) (Repriced V t version now))"
proof -
  let ?ev = "Repriced V t version now"
  have old: "ladder_ok fs (h @ [?ev]) k l" if "dget (ladders s) k = Some l" for k l
    using inv that by (auto simp: exits_inv_def intro: ladder_ok_later)
  show ?thesis
  proof (cases "dget (ladders s) t")
    case None
    then show ?thesis using inv old by (simp add: exits_step_def reprice_def exits_inv_def)
  next
    case (Some l)
    obtain s' d k where rr: "reprice_rungs V version now (rungs l) s (rungs l) 0 = (s', d, k)" by (metis prod_cases3)
    have l: "ladder_ok fs (h @ [?ev]) t l" using old [OF Some] .
    then have tab: "table_ok fs (ladder_tokens l) (\<lambda>r. \<exists>ev \<in> set (h @ [?ev]). made_by t ev r) (rungs l)"
      by (simp add: ladder_ok_def)
    then have "\<forall>(f, r) \<in> set (rungs l). f \<in> set fs \<and> 0 < rung_tokens r \<and> rung_tokens r = rung_size (ladder_tokens l) f"
      by (auto simp: table_ok_def dest: map_of_is_SomeI)
    then have ok: "same_but_failures s s' \<and> table_ok fs (ladder_tokens l) (\<lambda>r. \<exists>ev \<in> set (h @ [?ev]). made_by t ev r) d"
      using reprice_rungs_ok [OF rr tab] by simp
    note same = same_but_failuresD [OF conjunct1 [OF ok]]
    have "ladder_ok fs (h @ [?ev]) t (l\<lparr>rungs := d\<rparr>)" using ok l by (simp add: ladder_ok_def)
    then show ?thesis using inv old same Some rr by (auto simp: exits_step_def reprice_def exits_inv_def)
  qed
qed

interpretation exits: machine exits_step "exits_inv fs age" for fs age
proof
  fix s :: "'i staged_exits \<times> 'i exit_event list" and ev
  assume inv: "exits_inv fs age s"
  obtain x h where s: "s = (x, h)" by fastforce
  show "exits_inv fs age (exits_step s ev)"
  proof (cases ev)
    case (Staged V t n version now wall)
    then show ?thesis using stage_position_ok inv s by blast
  next
    case (Repriced V t version now)
    then show ?thesis using reprice_ok inv s by blast
  next
    case (Released t)
    then show ?thesis
      using inv s by (auto simp: exits_step_def release_def exits_inv_def intro: ladder_ok_later split: if_splits)
  next
    case (Taken t f version now)
    have "ladders (fst (take_rung x t f version now)) = ladders x"
      "exit_ladder (fst (take_rung x t f version now)) = exit_ladder x"
      "bound_max_age_s (fst (take_rung x t f version now)) = bound_max_age_s x"
      by (simp_all add: take_rung_def split: option.split)
    then show ?thesis using inv s Taken by (auto simp: exits_step_def exits_inv_def intro: ladder_ok_later)
  qed
qed

lemma new_exits_inv: "exits_inv (exit_ladder (new_staged_exits ladder age n)) age (new_staged_exits ladder age n, [])"
  by (simp add: exits_inv_def new_staged_exits_def)

subsection \<open>Rungs\<close>

lemma last_sorted_max: "xs \<noteq> [] \<Longrightarrow> sorted xs \<Longrightarrow> x \<in> set xs \<Longrightarrow> x \<le> last xs"
  by (induction xs) auto

lemma rung_for_highest:
  assumes "rung_for l f = Some r"
  shows "\<exists>g. dget (rungs l) g = Some r \<and> g \<le> fadd f (fl (1 / 10 ^ 9))
    \<and> (\<forall>k \<in> set (dkeys (rungs l)). k \<le> fadd f (fl (1 / 10 ^ 9)) \<longrightarrow> k \<le> g)"
proof -
  let ?e = "filter (\<lambda>v. v \<le> fadd f (fl (1 / 10 ^ 9))) (sort (dkeys (rungs l)))"
  have ne: "?e \<noteq> []" and g: "dget (rungs l) (last ?e) = Some r"
    using assms by (auto simp: rung_for_def Let_def split: if_splits)
  have "sorted ?e" by (intro sorted_wrt_filter) simp
  then have "k \<le> last ?e" if "k \<in> set (dkeys (rungs l))" "k \<le> fadd f (fl (1 / 10 ^ 9))" for k
    using last_sorted_max [OF ne] that by simp
  moreover have "last ?e \<le> fadd f (fl (1 / 10 ^ 9))" using last_in_set [OF ne] by simp
  ultimately show ?thesis using g by blast
qed

text \<open>Every amount a token of six decimals and a billion supply can have is below \<open>2 ^ 53\<close>.\<close>

lemma full_exit_exact: "\<bar>n\<bar> < 2 ^ 53 \<Longrightarrow> rung_size n 1 = n"
  by (simp add: rung_size_def fmul_def float_of_int_def fl_of_int py_trunc_def)

lemma minimum_below_proceeds:
  assumes "0 \<le> p" "p < 2 ^ 53" shows "minimum_for bps p \<le> p"
proof -
  have s: "fsub 1 (int_div (max 0 bps) 10000) \<le> 1"
    using fl_le_double [of 1 "1 - int_div (max 0 bps) 10000"] is_double_of_int [of 1]
    by (simp add: fsub_def int_div_def)
  have "fmul (of_int p) (fsub 1 (int_div (max 0 bps) 10000)) \<le> of_int p"
    unfolding fmul_def
    using assms s by (intro fl_le_double is_double_of_int) (simp_all add: mult_left_le)
  then show ?thesis
    using assms by (simp add: minimum_for_def float_of_int_def fl_of_int py_trunc_def) linarith
qed

text \<open>The clock the caller passes to \<open>stage\<close> plays no part: a position staged in replayed time is priced at the wall clock.\<close>

lemma stage_ignores_now: "stage_position V s t n version (Some now) wall = stage_position V s t n version None wall"
  by (simp add: stage_position_def stage_now_def)

text \<open>A position without tokens is stored without the eviction, beyond the limit.\<close>

lemma empty_position_not_evicted:
  assumes "n \<le> 0" "dget (ladders s) t = None"
  shows "length (ladders (stage_position V s t n version now wall)) = length (ladders s) + 1"
proof -
  have "t \<notin> set (dkeys (ladders s))" using assms(2) by (simp only: dget_None_iff not_False_eq_True)
  then show ?thesis using assms(1) by (simp add: stage_position_def Let_def length_dput del: set_map)
qed

subsection \<open>Properties\<close>

text \<open>
  C27: a rung served as OK is what it claims: after any history, it was built by one call of that
  token's venue for exactly its size and protective minimum, priced against the state the caller names
  and no older than the limit, has a positive size and minimum, belongs to the ladder's fractions, and
  no rung of the position lies between it and the fraction asked for.
\<close>

theorem served_rung_sound:
  assumes "(s, h) = run exits_step (new_staged_exits ladder age n, []) evs"
    and "take_rung s token f version now = (s', Some r, ''OK'')"
  shows "\<exists>l ev. dget (ladders s) token = Some l \<and> ev \<in> set h \<and> made_by token ev r
    \<and> state_version r = version \<and> fsub now (priced_at r) \<le> age
    \<and> fraction r \<le> fadd f (fl (1 / 10 ^ 9))
    \<and> list_all (\<lambda>k. k \<le> fadd f (fl (1 / 10 ^ 9)) \<longrightarrow> k \<le> fraction r) (dkeys (rungs l))
    \<and> rung_tokens r = rung_size (ladder_tokens l) (fraction r) \<and> 0 < rung_tokens r \<and> 0 < min_proceeds r
    \<and> fraction r \<in> set (exit_ladder s)"
proof -
  obtain fs where inv: "exits_inv fs age (s, h)"
    unfolding assms(1) using exits.run_inv [OF new_exits_inv] by blast
  obtain l where l: "dget (ladders s) token = Some l" "rung_for l f = Some r"
    and fresh: "\<not> is_stale r version now (bound_max_age_s s)"
    using assms(2) by (auto simp: take_rung_def split: option.splits if_splits)
  obtain g where g: "dget (rungs l) g = Some r" "g \<le> fadd f (fl (1 / 10 ^ 9))"
      "\<forall>k \<in> set (dkeys (rungs l)). k \<le> fadd f (fl (1 / 10 ^ 9)) \<longrightarrow> k \<le> g"
    using rung_for_highest [OF l(2)] by blast
  have "ladder_ok (exit_ladder s) h token l"
    using inv l(1) by (simp add: exits_inv_def)
  then have r: "fraction r = g" "g \<in> set (exit_ladder s)"
      "0 < rung_size (ladder_tokens l) g" "rung_tokens r = rung_size (ladder_tokens l) g" "\<exists>ev \<in> set h. made_by token ev r"
    using g(1) unfolding ladder_ok_def table_ok_def by blast+
  then obtain ev where ev: "ev \<in> set h" "made_by token ev r" by blast
  have "0 < min_proceeds r" using ev(2) by (cases "(token, ev, r)" rule: made_by.cases) (auto simp: rung_made_def)
  moreover have "state_version r = version" "fsub now (priced_at r) \<le> age"
    using fresh inv by (auto simp: is_stale_def exits_inv_def split: if_splits)
  ultimately show ?thesis using l(1) ev g(2,3) r(1-4) by (auto simp: list_all_iff)
qed

text \<open>A venue that pays one for one, and a position of ten tokens with the full-exit rung only.\<close>

definition par_venue :: "unit venue_calls" where
  "par_venue = \<lparr>build_sell = (\<lambda>_ _. Returned (Some ())), quote_sell = (\<lambda>n. Returned (Some n)),
     instruction_ok = (\<lambda>_. True), slippage_bps = 0, venue_name = ''pump_curve''\<rparr>"

definition par_rung :: "unit staged_rung" where
  "par_rung = \<lparr>fraction = 1, rung_tokens = 10, rung_instruction = (), min_proceeds = 10, priced_at = 5,
     state_version = 7, venue = ''pump_curve''\<rparr>"

lemma par_minimum: "minimum_for 0 10 = 10"
  using fl_of_int [of 10] by (simp add: minimum_for_def fsub_def int_div_def fmul_def float_of_int_def py_trunc_def)

lemma par_ladder: "exit_ladder (new_staged_exits [1] 2 4) = [1]"
  using round_half_even_of_int [of 10000] by (simp add: new_staged_exits_def round4_def)

lemma par_staged:
  "\<exists>s h. run exits_step (new_staged_exits [1] 2 4, []) [Staged par_venue ''t'' 10 7 None 5] = (s, h)
    \<and> bound_max_age_s s = 2 \<and> (\<exists>l. dget (ladders s) ''t'' = Some l \<and> rungs l = [(1, par_rung)])"
  using full_exit_exact [of 10]
  by (simp add: exits_step_def stage_position_def stage_now_def par_ladder build_rung_def par_venue_def par_minimum Let_def)
    (simp add: new_staged_exits_def par_rung_def)

theorem served_rung_sound_witness:
  "\<exists>s h s'. run exits_step (new_staged_exits [1] 2 4, []) [Staged par_venue ''t'' 10 7 None 5] = (s, h)
    \<and> take_rung s ''t'' 1 7 5 = (s', Some par_rung, ''OK'') \<and> fsub 5 (priced_at par_rung) \<le> 2"
proof -
  obtain s h l where s: "run exits_step (new_staged_exits [1] 2 4, []) [Staged par_venue ''t'' 10 7 None 5] = (s, h)"
      "bound_max_age_s s = 2" "dget (ladders s) ''t'' = Some l" "rungs l = [(1, par_rung)]"
    using par_staged by blast
  have one: "1 \<le> fadd 1 (fl (1 / 10 ^ 9))"
    using fl_ge_double [of 1 "1 + fl (1 / 10 ^ 9)"] is_double_of_int [of 1] by (simp add: fadd_def)
  have "rung_for l 1 = Some par_rung" using one by (simp add: rung_for_def s(4))
  moreover have "\<not> is_stale par_rung 7 5 2" by (simp add: is_stale_def par_rung_def fsub_def)
  ultimately obtain s' where t: "take_rung s ''t'' 1 7 5 = (s', Some par_rung, ''OK'')"
    using s by (simp add: take_rung_def)
  show ?thesis using served_rung_sound [OF s(1) [symmetric] t] s(1) t by blast
qed

end
