(* ===== verification/TradeEvidence.thy ===== *)
theory TradeEvidence
  imports PyText Interfaces
begin

text \<open>
  \<open>research/trade_evidence.py\<close>: the append-only ledger whose rows authenticate their predecessor.
  A file is its lines, a line what \<open>json.loads\<close> makes of it.  The canonical rendering
  (\<open>json.dumps\<close> with sorted keys), the digest and the reading of a number out of text are arguments;
  nothing is assumed of the digest.
\<close>

datatype json = JNull | JBool bool | JInt int | JFloat pyfloat | JStr string
  | JList "json list" | JObj "(string \<times> json) list"

type_synonym json_object = "(string, json) dict"

definition GENESIS :: string where "GENESIS = replicate 64 (CHR ''0'')"

datatype ledger_line = Blank_line | Unparsable string | Parsed json

text \<open>
  \<open>int(value)\<close>.  A \<open>Caught\<close> exception is one the callers handle, any other leaves them.
\<close>

datatype row_error = Caught string | Uncaught string

definition int_of_json :: "(string \<Rightarrow> int option) \<Rightarrow> json \<Rightarrow> row_error + int" where
  "int_of_json read_int v =
     (case v of
        JInt n \<Rightarrow> Inr n
      | JBool b \<Rightarrow> Inr (if b then 1 else 0)
      | JFloat x \<Rightarrow> Inr (py_trunc x)
      | JStr s \<Rightarrow> (case read_int s of Some n \<Rightarrow> Inr n | None \<Rightarrow> Inl (Caught ''invalid literal for int()''))
      | _ \<Rightarrow> Inl (Uncaught ''TypeError''))"

definition verified_row ::
    "(string \<Rightarrow> int option) \<Rightarrow> (json_object \<Rightarrow> bytes) \<Rightarrow> (bytes \<Rightarrow> string) \<Rightarrow> ledger_line \<Rightarrow> string \<Rightarrow> int
       \<Rightarrow> row_error + json_object \<times> string" where
  "verified_row read_int canonical digest line previous expected =
     (case line of
        Blank_line \<Rightarrow> Inl (Caught ''Expecting value'')
      | Unparsable exc \<Rightarrow> Inl (Caught exc)
      | Parsed (JObj row) \<Rightarrow>
          (case dget row ''hash'' of
             None \<Rightarrow> Inl (Caught ''hash'')
           | Some claimed \<Rightarrow>
               let row' = dpop ''hash'' row
               in case int_of_json read_int (dget_or row' ''sequence'' (JInt (- 1))) of
                    Inl exc \<Rightarrow> Inl exc
                  | Inr n \<Rightarrow>
                      if n \<noteq> expected then Inl (Caught ''sequence gap'')
                      else if dget row' ''previous_hash'' \<noteq> Some (JStr previous)
                      then Inl (Caught ''previous hash mismatch'')
                      else if JStr (digest (canonical row')) \<noteq> claimed then Inl (Caught ''row hash mismatch'')
                      else Inr (dput ''hash'' claimed row', digest (canonical row')))
      | Parsed _ \<Rightarrow> Inl (Uncaught ''AttributeError''))"

subsection \<open>Verifying a file\<close>

datatype verify_result = Verdict bool string int | Propagated string

fun verify_from ::
    "(string \<Rightarrow> int option) \<Rightarrow> (json_object \<Rightarrow> bytes) \<Rightarrow> (bytes \<Rightarrow> string) \<Rightarrow> string \<Rightarrow> int \<Rightarrow> ledger_line list
       \<Rightarrow> verify_result" where
  "verify_from read_int canonical digest previous expected [] = Verdict True ''OK'' (expected - 1)"
| "verify_from read_int canonical digest previous expected (line # rest) =
     (if line = Blank_line then verify_from read_int canonical digest previous expected rest
      else case verified_row read_int canonical digest line previous expected of
             Inl (Caught exc) \<Rightarrow> Verdict False exc (expected - 1)
           | Inl (Uncaught exc) \<Rightarrow> Propagated exc
           | Inr (row, hash) \<Rightarrow> verify_from read_int canonical digest hash (expected + 1) rest)"

text \<open>\<open>None\<close> is a file that cannot be opened.\<close>

definition verify ::
    "(string \<Rightarrow> int option) \<Rightarrow> (json_object \<Rightarrow> bytes) \<Rightarrow> (bytes \<Rightarrow> string) \<Rightarrow> ledger_line list option \<Rightarrow> verify_result" where
  "verify read_int canonical digest file =
     (case file of
        None \<Rightarrow> Verdict False ''No such file or directory'' 0
      | Some lines \<Rightarrow> verify_from read_int canonical digest GENESIS 1 lines)"

subsection \<open>Appending\<close>

record ledger =
  ledger_file :: "ledger_line list option"
  sequence :: int
  last_hash :: string
  write_failures :: nat

definition distrust :: "ledger \<Rightarrow> ledger" where
  "distrust l = l\<lparr>write_failures := write_failures l + 1, last_hash := ''''\<rparr>"

text \<open>\<open>str(value)\<close> of a JSON hash: only text occurs; other values render as an argument says.\<close>

definition str_of_json :: "(json \<Rightarrow> string) \<Rightarrow> json \<Rightarrow> string" where
  "str_of_json render v = (case v of JStr s \<Rightarrow> s | _ \<Rightarrow> render v)"

fun recover_lines ::
    "(string \<Rightarrow> int option) \<Rightarrow> (json \<Rightarrow> string) \<Rightarrow> ledger \<Rightarrow> ledger_line list \<Rightarrow> ledger" where
  "recover_lines read_int render l [] = l"
| "recover_lines read_int render l (Blank_line # rest) = recover_lines read_int render l rest"
| "recover_lines read_int render l (Unparsable exc # rest) = distrust l"
| "recover_lines read_int render l (Parsed v # rest) =
     (case v of
        JObj row \<Rightarrow>
          (case dget row ''sequence'' of
             None \<Rightarrow> distrust l
           | Some s \<Rightarrow>
               (case int_of_json read_int s of
                  Inl _ \<Rightarrow> distrust l
                | Inr n \<Rightarrow>
                    (case dget row ''hash'' of
                       None \<Rightarrow> distrust (l\<lparr>sequence := n\<rparr>)
                     | Some h \<Rightarrow>
                         recover_lines read_int render
                           (l\<lparr>sequence := n, last_hash := str_of_json render h\<rparr>) rest)))
      | _ \<Rightarrow> distrust l)"

definition open_ledger ::
    "(string \<Rightarrow> int option) \<Rightarrow> (json \<Rightarrow> string) \<Rightarrow> ledger_line list option \<Rightarrow> ledger" where
  "open_ledger read_int render file =
     (let l = \<lparr>ledger_file = file, sequence = 0, last_hash = GENESIS, write_failures = 0\<rparr>
      in case file of None \<Rightarrow> l | Some lines \<Rightarrow> recover_lines read_int render l lines)"

text \<open>\<open>writable\<close> says whether the append reaches the disk; \<open>timestamp or time.time()\<close> treats 0 as absent.\<close>

definition evidence_body :: "ledger \<Rightarrow> string \<Rightarrow> json \<Rightarrow> pyfloat \<Rightarrow> json_object" where
  "evidence_body l event_type payload at_time =
     [(''schema'', JStr ''v1''), (''sequence'', JInt (sequence l + 1)), (''timestamp'', JFloat at_time),
      (''event_type'', JStr event_type), (''previous_hash'', JStr (last_hash l)), (''payload'', payload)]"

definition record_event ::
    "(json_object \<Rightarrow> bytes) \<Rightarrow> (bytes \<Rightarrow> string) \<Rightarrow> bool \<Rightarrow> pyfloat \<Rightarrow> ledger \<Rightarrow> string \<Rightarrow> json \<Rightarrow> pyfloat option
       \<Rightarrow> ledger \<times> json_object option" where
  "record_event canonical digest writable clock l event_type payload timestamp =
     (if event_type = '''' \<or> last_hash l = '''' then (l\<lparr>write_failures := write_failures l + 1\<rparr>, None)
      else
        let at_time = (case timestamp of None \<Rightarrow> clock | Some t \<Rightarrow> if t = 0 then clock else t);
            body = evidence_body l event_type payload at_time;
            hash = digest (canonical body);
            row = body @ [(''hash'', JStr hash)]
        in if \<not> writable then (l\<lparr>write_failures := write_failures l + 1\<rparr>, None)
           else (l\<lparr>ledger_file := Some ((case ledger_file l of None \<Rightarrow> [] | Some ls \<Rightarrow> ls) @ [Parsed (JObj row)]),
                   sequence := sequence l + 1, last_hash := hash\<rparr>, Some row))"

text \<open>\<open>matching_snapshot\<close> over a committed prefix of whole lines.\<close>

fun matching_from ::
    "(string \<Rightarrow> int option) \<Rightarrow> (json_object \<Rightarrow> bytes) \<Rightarrow> (bytes \<Rightarrow> string) \<Rightarrow> string \<Rightarrow> json \<Rightarrow> string \<Rightarrow> int
       \<Rightarrow> ledger_line list \<Rightarrow> row_error + json_object list" where
  "matching_from read_int canonical digest key val previous expected [] = Inr []"
| "matching_from read_int canonical digest key val previous expected (line # rest) =
     (if line = Blank_line then matching_from read_int canonical digest key val previous expected rest
      else case verified_row read_int canonical digest line previous expected of
             Inl exc \<Rightarrow> Inl exc
           | Inr (row, hash) \<Rightarrow>
               (case dget_or row ''payload'' (JObj []) of
                  JObj payload \<Rightarrow>
                    rbind (matching_from read_int canonical digest key val hash (expected + 1) rest)
                      (\<lambda>rows. Inr (if dget_or payload key JNull = val then row # rows else rows))
                | _ \<Rightarrow> Inl (Uncaught ''AttributeError'')))"

definition matching_snapshot ::
    "(string \<Rightarrow> int option) \<Rightarrow> (json_object \<Rightarrow> bytes) \<Rightarrow> (bytes \<Rightarrow> string) \<Rightarrow> string \<Rightarrow> json
       \<Rightarrow> ledger_line list option \<Rightarrow> row_error + json_object list" where
  "matching_snapshot read_int canonical digest key val file =
     (case file of None \<Rightarrow> Inr [] | Some lines \<Rightarrow> matching_from read_int canonical digest key val GENESIS 1 lines)"

subsection \<open>Chains\<close>

text \<open>
  The rows of a file that verifies, without their hashes, and the hash the chain ends in.
\<close>

fun row_body :: "ledger_line \<Rightarrow> json_object option" where
  "row_body (Parsed (JObj row)) = Some (dpop ''hash'' row)"
| "row_body _ = None"

definition bodies :: "ledger_line list \<Rightarrow> json_object list" where
  "bodies lines = List.map_filter row_body lines"

definition chain_hash :: "(json_object \<Rightarrow> bytes) \<Rightarrow> (bytes \<Rightarrow> string) \<Rightarrow> string \<Rightarrow> ledger_line list \<Rightarrow> string" where
  "chain_hash canonical digest previous lines =
     (case rev (bodies lines) of [] \<Rightarrow> previous | b # _ \<Rightarrow> digest (canonical b))"

text \<open>The linkage a verified file has: each row names the digest of the one before.\<close>

fun linked :: "(json_object \<Rightarrow> bytes) \<Rightarrow> (bytes \<Rightarrow> string) \<Rightarrow> string \<Rightarrow> json_object list \<Rightarrow> bool" where
  "linked canonical digest previous [] = True"
| "linked canonical digest previous (b # bs) =
     (dget b ''previous_hash'' = Some (JStr previous) \<and> linked canonical digest (digest (canonical b)) bs)"

lemma bodies_simps [simp]:
  "bodies [] = []" "bodies (Blank_line # ls) = bodies ls"
  "bodies (Parsed (JObj row) # ls) = dpop ''hash'' row # bodies ls"
  by (simp_all add: bodies_def List.map_filter_simps)

lemma verified_rowD:
  assumes "verified_row read_int canonical digest line previous expected = Inr (row, hash)"
  obtains r where "line = Parsed (JObj r)" "dget (dpop ''hash'' r) ''previous_hash'' = Some (JStr previous)"
    "hash = digest (canonical (dpop ''hash'' r))"
  using assms
  by (auto simp: verified_row_def Let_def split: ledger_line.splits json.splits option.splits sum.splits if_splits)

lemma verify_from_linked:
  "verify_from read_int canonical digest previous expected lines = Verdict True msg n \<Longrightarrow>
     linked canonical digest previous (bodies lines) \<and> n = expected - 1 + int (length (bodies lines)) \<and> msg = ''OK''"
proof (induction lines arbitrary: previous expected)
  case (Cons line lines)
  show ?case
  proof (cases "line = Blank_line")
    case True
    then show ?thesis using Cons by simp
  next
    case False
    then obtain row hash where V: "verified_row read_int canonical digest line previous expected = Inr (row, hash)"
      and rest: "verify_from read_int canonical digest hash (expected + 1) lines = Verdict True msg n"
      using Cons.prems by (auto split: sum.splits row_error.splits)
    from V show ?thesis
      by (rule verified_rowD) (use Cons.IH [OF rest] in auto)
  qed
qed simp

lemma linked_append:
  "linked canonical digest previous (bs @ [b]) \<longleftrightarrow>
     linked canonical digest previous bs
     \<and> dget b ''previous_hash'' = Some (JStr (case rev bs of [] \<Rightarrow> previous | c # _ \<Rightarrow> digest (canonical c)))"
proof (induction bs arbitrary: previous)
  case (Cons c bs)
  then show ?case by (cases "rev bs") auto
qed simp

text \<open>
  Two linked chains of one length that end in one hash hold the same bodies, or two different texts
  have one digest.
\<close>

lemma linked_collision:
  assumes "\<And>a b s t. canonical a = canonical b \<Longrightarrow> dget a ''previous_hash'' = Some (JStr s)
        \<Longrightarrow> dget b ''previous_hash'' = Some (JStr t) \<Longrightarrow> s = t"
    and "linked canonical digest p as" "linked canonical digest p bs" "length as = length bs"
    and "(case rev as of [] \<Rightarrow> p | c # _ \<Rightarrow> digest (canonical c)) = (case rev bs of [] \<Rightarrow> p | c # _ \<Rightarrow> digest (canonical c))"
  shows "map canonical as = map canonical bs \<or> (\<exists>x y. x \<noteq> y \<and> digest x = digest y)"
  using assms(2-5)
proof (induction as arbitrary: bs rule: rev_induct)
  case (snoc a as)
  obtain b bs' where bs: "bs = bs' @ [b]" using snoc.prems(3) by (cases bs rule: rev_cases) auto
  have d: "digest (canonical a) = digest (canonical b)" using snoc.prems(4) by (simp add: bs)
  show ?case
  proof (cases "canonical a = canonical b")
    case False
    then show ?thesis using d by blast
  next
    case True
    then have "(case rev as of [] \<Rightarrow> p | c # _ \<Rightarrow> digest (canonical c)) = (case rev bs' of [] \<Rightarrow> p | c # _ \<Rightarrow> digest (canonical c))"
      by (rule assms(1)) (use snoc.prems(1,2) in \<open>simp_all add: bs linked_append\<close>)
    then have "map canonical as = map canonical bs' \<or> (\<exists>x y. x \<noteq> y \<and> digest x = digest y)"
      using snoc.prems(1-3) by (intro snoc.IH) (simp_all add: bs linked_append)
    then show ?thesis using True by (simp add: bs)
  qed
qed simp

lemma verify_from_append:
  assumes "verify_from read_int canonical digest previous expected lines = Verdict True msg n"
  shows "verify_from read_int canonical digest previous expected (lines @ rest)
    = verify_from read_int canonical digest (chain_hash canonical digest previous lines) (n + 1) rest"
  using assms
proof (induction lines arbitrary: previous expected)
  case Nil
  then show ?case by (auto simp: chain_hash_def)
next
  case (Cons line lines)
  show ?case
  proof (cases "line = Blank_line")
    case True
    then show ?thesis using Cons by (simp add: chain_hash_def)
  next
    case False
    then obtain row hash where V: "verified_row read_int canonical digest line previous expected = Inr (row, hash)"
      and tail: "verify_from read_int canonical digest hash (expected + 1) lines = Verdict True msg n"
      using Cons.prems by (auto split: sum.splits row_error.splits)
    from V obtain r where r: "line = Parsed (JObj r)" "hash = digest (canonical (dpop ''hash'' r))"
      by (rule verified_rowD)
    have "chain_hash canonical digest previous (line # lines) = chain_hash canonical digest hash lines"
      by (cases "rev (bodies lines)") (simp_all add: chain_hash_def r)
    then show ?thesis using False V Cons.IH [OF tail] by simp
  qed
qed

lemma verify_from_prefix:
  assumes "verify_from read_int canonical digest previous expected (lines @ rest) = Verdict True msg n"
  shows "\<exists>k. verify_from read_int canonical digest previous expected lines = Verdict True ''OK'' k"
  using assms
  by (induction lines arbitrary: previous expected) (auto split: sum.splits row_error.splits if_splits)

subsection \<open>What the writer produces\<close>

text \<open>A ledger whose counters describe its file: the file verifies, and ends where the counters say.\<close>

definition in_step ::
    "(string \<Rightarrow> int option) \<Rightarrow> (json_object \<Rightarrow> bytes) \<Rightarrow> (bytes \<Rightarrow> string) \<Rightarrow> ledger \<Rightarrow> bool" where
  "in_step read_int canonical digest l \<longleftrightarrow>
     (let lines = (case ledger_file l of None \<Rightarrow> [] | Some ls \<Rightarrow> ls)
      in verify_from read_int canonical digest GENESIS 1 lines = Verdict True ''OK'' (sequence l)
         \<and> chain_hash canonical digest GENESIS lines = last_hash l)"

lemma dpop_hash_body: "dpop ''hash'' (evidence_body l et p t @ [(''hash'', h)]) = evidence_body l et p t"
  by (simp add: evidence_body_def)

lemma record_event_in_step:
  assumes "in_step read_int canonical digest l"
  shows "in_step read_int canonical digest (fst (record_event canonical digest writable clock l et payload ts))"
proof -
  let ?lines = "case ledger_file l of None \<Rightarrow> [] | Some ls \<Rightarrow> ls"
  have V: "verify_from read_int canonical digest GENESIS 1 ?lines = Verdict True ''OK'' (sequence l)"
    and H: "chain_hash canonical digest GENESIS ?lines = last_hash l"
    using assms by (simp_all add: in_step_def Let_def)
  define body where "body = evidence_body l et payload (case ts of None \<Rightarrow> clock | Some t \<Rightarrow> if t = 0 then clock else t)"
  define row where "row = body @ [(''hash'', JStr (digest (canonical body)))]"
  have pop: "dpop ''hash'' row = body" unfolding row_def body_def by (rule dpop_hash_body)
  have get: "dget row ''hash'' = Some (JStr (digest (canonical body)))"
    by (simp add: row_def body_def evidence_body_def)
  have vr: "verified_row read_int canonical digest (Parsed (JObj row)) (last_hash l) (sequence l + 1)
      = Inr (dput ''hash'' (JStr (digest (canonical body))) body, digest (canonical body))"
    by (simp add: verified_row_def get pop Let_def)
       (simp add: body_def evidence_body_def dget_or_def int_of_json_def)
  have "verify_from read_int canonical digest GENESIS 1 (?lines @ [Parsed (JObj row)])
      = Verdict True ''OK'' (sequence l + 1)"
    unfolding verify_from_append [OF V] H by (simp add: vr)
  moreover have "chain_hash canonical digest GENESIS (?lines @ [Parsed (JObj row)]) = digest (canonical body)"
    by (simp add: chain_hash_def bodies_def List.map_filter_def pop)
  ultimately show ?thesis
    using assms unfolding record_event_def Let_def body_def [symmetric] row_def [symmetric]
    by (simp add: in_step_def Let_def)
qed

text \<open>The events of one desk: attempts to record, some of which the disk refuses.\<close>

type_synonym record_attempt = "bool \<times> pyfloat \<times> string \<times> json \<times> pyfloat option"

definition attempt_record ::
    "(json_object \<Rightarrow> bytes) \<Rightarrow> (bytes \<Rightarrow> string) \<Rightarrow> ledger \<Rightarrow> record_attempt \<Rightarrow> ledger" where
  "attempt_record canonical digest l a =
     (case a of (writable, clock, et, payload, ts) \<Rightarrow> fst (record_event canonical digest writable clock l et payload ts))"

interpretation ledger_machine: machine "attempt_record canonical digest" "in_step read_int canonical digest"
  for read_int canonical digest
  by unfold_locales (auto simp: attempt_record_def record_event_in_step)

lemma fresh_in_step: "in_step read_int canonical digest (open_ledger read_int render None)"
  by (simp add: in_step_def open_ledger_def chain_hash_def)

subsection \<open>Properties\<close>

text \<open>
  Whatever is recorded, and whichever writes the disk refuses, the file a fresh ledger has written
  verifies, and verification counts exactly the rows the ledger believes it has.
\<close>

lemma recorded_file_verifies:
  "verify_from read_int canonical digest GENESIS 1
     (case ledger_file (run (attempt_record canonical digest) (open_ledger read_int render None) attempts) of
        None \<Rightarrow> [] | Some ls \<Rightarrow> ls)
   = Verdict True ''OK'' (sequence (run (attempt_record canonical digest) (open_ledger read_int render None) attempts))"
  using ledger_machine.run_inv [OF fresh_in_step [of read_int canonical digest render], of attempts]
  by (simp add: in_step_def Let_def)

text \<open>
  Rewriting any row of a verified file, without changing its last hash, takes a collision of the
  digest: two files of one length that verify and end in one hash hold the same canonical rows, or
  two different texts have one digest.  (The rendering is assumed to determine the previous hash.)
\<close>

lemma rewrite_needs_collision:
  assumes "\<And>a b s t. canonical a = canonical b \<Longrightarrow> dget a ''previous_hash'' = Some (JStr s)
        \<Longrightarrow> dget b ''previous_hash'' = Some (JStr t) \<Longrightarrow> s = t"
    and "verify read_int canonical digest (Some f) = Verdict True msg n"
    and "verify read_int canonical digest (Some g) = Verdict True msg' n"
    and "chain_hash canonical digest GENESIS f = chain_hash canonical digest GENESIS g"
  shows "map canonical (bodies f) = map canonical (bodies g) \<or> (\<exists>x y. x \<noteq> y \<and> digest x = digest y)"
proof -
  have F: "linked canonical digest GENESIS (bodies f)" "n = int (length (bodies f))"
    using verify_from_linked [of read_int canonical digest GENESIS 1 f] assms(2) by (auto simp: verify_def)
  have G: "linked canonical digest GENESIS (bodies g)" "n = int (length (bodies g))"
    using verify_from_linked [of read_int canonical digest GENESIS 1 g] assms(3) by (auto simp: verify_def)
  show ?thesis
    using F G assms(4) by (intro linked_collision [OF assms(1)]) (auto simp: chain_hash_def)
qed

text \<open>
  The linkage does not see rows cut off the end: every prefix of a verified file verifies.
\<close>

lemma truncation_verifies:
  assumes "verify read_int canonical digest (Some (kept @ lost)) = Verdict True msg n"
  shows "\<exists>k. verify read_int canonical digest (Some kept) = Verdict True ''OK'' k"
  using assms verify_from_prefix unfolding verify_def by (metis option.simps(5))

end
