(* ===== verification/Spec2Isabelle.thy ===== *)
theory Spec2Isabelle
  imports ActionValue Base58 BidCurve Blockhash DecisionSnapshot DeskEntry DeskExit ElogwEngine EngineLearning Escape ExecutionEngine ExitPolicy FeedRace HotState Idl LandingModel LandingRouter LeaderSchedule LoadShedding MegaEvent Monster NativeRoute OpportunityAllocator PromotionGate PumpCurve PumpFeeConfig PumpFees PumpRoute PumpSwapCurve PumpSwapRoute Reentry RiskVeto RpcBudget ScreenPolicy Signer SignerProtocol SlotValue SourceJournal StagedExits T0Kernel TradeEvidence Tradeability TxBuilder TxKernel
begin

text \<open>
  A verification development for the trading desk under \<open>src/src/\<close> (Python).

  \<^bold>\<open>The program\<close>.  The desk observes launches on Solana, decides, builds its own instructions for the
  Pump bonding curve and for PumpSwap pools, has them signed by an isolated signer, sends them, and
  earns trading authority stage by stage.  The parts modelled are the ones a wrong answer of which
  spends money or loses evidence.  Each is one theory that follows the code's own order; a definition
  carries the name of the function, method or class it translates (the manifest gives the lines).

  \<^bold>\<open>Foundations\<close>.  \<open>Prelude\<close>: bytes, slices, results, insertion-ordered dictionaries, bounded
  containers.  \<open>Interfaces\<close>: the contracts as locales (a machine with an invariant, a machine with a
  counter, a codec, a stream codec) and the bisection both capacity searches run.  Every locale is
  interpreted on the code's definitions by the component that provides it.  \<open>PyFloat\<close>: a double is a
  rational and every operation rounds to 53 bits, half to even; overflow, subnormals, NaN and infinity
  are not modelled.  \<open>PyText\<close>: how the code formats numbers and bytes (ASCII text).

  \<^bold>\<open>Pricing\<close>.  \<open>PumpCurve\<close> (\<open>chains/pump_curve.py\<close>), \<open>PumpSwapCurve\<close> (\<open>chains/pumpswap_curve.py\<close>),
  \<open>PumpFeeConfig\<close> (\<open>chains/pump_fee_config.py\<close>), \<open>PumpFees\<close> (\<open>execution/pump_fees.py\<close>): quotes never
  let the product of the reserves fall, a round trip never gains, the capacity searches meet their
  boundary (the 64 rounds of the pool search are enough for every 64-bit inventory, the curve search
  has a measure), fee tiers are the highest reached.

  \<^bold>\<open>Building\<close>.  \<open>Base58\<close>; \<open>Idl\<close> (\<open>chains/idl.py\<close>): account resolution is the least fixed point of the
  declared derivations; \<open>TxKernel\<close> (\<open>execution/tx_kernel.py\<close>): bytes of the native builder leave only
  after the agreed evidence and only when checked; \<open>PumpRoute\<close> (\<open>chains/pump_route.py\<close>) and
  \<open>PumpSwapRoute\<close> (\<open>chains/pumpswap_route.py\<close>): the instruction carries exactly the amounts and the
  bound of its quote, and a refusal never carries one; \<open>StagedExits\<close> (\<open>execution/staged_exits.py\<close>): a
  rung served as OK is fresh, bounded and never above the fraction asked for; \<open>Blockhash\<close>,
  \<open>LeaderSchedule\<close>, \<open>RpcBudget\<close>: nothing served is stale, guessed or beyond the allocation.

  \<^bold>\<open>Signing\<close>.  \<open>SignerProtocol\<close> and \<open>Signer\<close>: frames stay in sync, a signature is over bytes the policy
  authorises, and the rate limit holds over every history.  \<open>signer_step\<close> is the step relation.

  \<^bold>\<open>Execution\<close> (\<open>execution/jupiter_jito.py\<close>).  \<open>TxBuilder\<close> composes the blockhash cache, the kernel and
  a signer that keeps the contract \<open>message_signer\<close>, which the isolated signer is shown to keep;
  \<open>NativeRoute\<close> chooses the venue and protects the quote; \<open>ExecutionEngine\<close> runs both paths of a swap.
  Together: a transaction reaches a relay only on an earned stage and an operator acknowledgement, it is
  signed over the very message built, and a live success is backed by a balance difference of the chain.
  Relays and the aggregator are arguments, and so are the landing race and the bid, until the next part.

  \<^bold>\<open>Landing\<close>.  \<open>LandingModel\<close> (\<open>execution/landing_model.py\<close>): the window, its counters and the
  durable log; an estimate is the rate of exactly the retained attempts, a restart loses no answer about
  bids, a recommendation is the best measured bid.  \<open>BidCurve\<close> (\<open>execution/bid_curve.py\<close>): cells by
  population, backoff, the isotonic projection (values ascend, stay probabilities, no rung lost) and the
  marginal walk.  \<open>LandingRouter\<close> (\<open>execution/landing_router.py\<close>): \<open>router_step\<close> is the step relation
  over registration, races, late answers and resolutions; every race hands out one payload and has one
  first receipt.  \<open>SlotValue\<close> (\<open>execution/slot_value.py\<close>): the cost of a slot stays within the edge.
  \<open>EngineLearning\<close> puts them under the engine: the bid it chooses, the cap on the tip, and that a
  submission teaches model, curve and router once and in agreement with its result.

  \<^bold>\<open>Decisions\<close>.  \<open>ActionValue\<close> (\<open>strategies/action_value.py\<close>): every action priced by the expected
  log wealth it leads to; what is chosen can be taken, ruins in no priced outcome and is the best.
  \<open>Monster\<close> (\<open>strategies/monster.py\<close>): \<open>monster_step\<close> is the step relation of the conviction machine;
  ordinary exits stand down only after calibrated evidence.  \<open>ExitPolicy\<close> (\<open>strategies/exit_policy.py\<close> and
  the unpriced part of \<open>_manage_one_position\<close> in \<open>main.py\<close>): stop, trail and ceiling hold whatever the
  conviction, and an overdue position is closed.  \<open>OpportunityAllocator\<close>
  (\<open>strategies/opportunity_allocator.py\<close>): the slate and the replacements, each worth its round trip.
  \<open>Reentry\<close> (\<open>strategies/reentry.py\<close>) prices a return with the action values, gates it, charges a premium and
  hands the rest to the allocator.

  \<^bold>\<open>Sizing\<close>.  \<open>ElogwEngine\<close> (\<open>strategies/multihead_predictor.py\<close>): the survival curve as outcomes, the
  ceilings, the size that is best within them, the limits of the day; once the day's switch trips, nothing is
  admitted until the next UTC day.  \<open>ScreenPolicy\<close> (\<open>strategies/screen_policy.py\<close>): screens shrink a size and
  never enlarge it.  \<open>MegaEvent\<close> (\<open>strategies/mega_event.py\<close>): the reserve for a rare event.
  \<open>Tradeability\<close> (\<open>execution/tradeability.py\<close>): what part of a holding the venue quotes within an impact.
  \<open>Escape\<close> (\<open>strategies/escape.py\<close>): the race to get out before the event, bounded and monotone.
  \<open>DecisionSnapshot\<close> (\<open>strategies/decision_snapshot.py\<close>): a frozen decision is executed once and fresh.
  \<open>T0Kernel\<close> (\<open>strategies/t0_kernel.py\<close>): the extension decides alone only on a run of agreements, and what it
  decides alone is accounted for.

  \<^bold>\<open>The desk\<close> (\<open>main.py\<close>).  \<open>DeskEntry\<close> (with \<open>runtime/capital_runtime.py\<close>) is the path from a candidate to an
  entry: the gate of former exits, the veto, the screens, the size, the veto at the size, the price, the premium
  of a return and the contest for capital, over the models of the components it asks.  \<open>DeskExit\<close> is what happens
  to a position: valuation, exits, additions, the order of the moves of one management cycle, and the accounts.
  Two machines compose them: \<open>desk_step\<close> (every sale is booked once, against a reference that replays the slices
  of every life) and \<open>flight_step\<close> (decisions and fills interleave; the position limit is overshot by at most the
  evaluations in flight less one).

  \<^bold>\<open>Authority and evidence\<close>.  \<open>PromotionGate\<close> (\<open>research/promotion_gate.py\<close>): live capital is earned rung
  by rung.  \<open>RiskVeto\<close> (\<open>strategies/risk_veto.py\<close>): the authority fails closed.  \<open>TradeEvidence\<close>: the
  hash-chained ledger.  \<open>SourceJournal\<close>: no accepted row is lost and every due source gets its turn.

  \<^bold>\<open>Runtime\<close>.  \<open>HotState\<close>, \<open>LoadShedding\<close>, \<open>FeedRace\<close>: the footprint is capped, shedding is fair, an
  event is decided once.

  \<^bold>\<open>What a parameter stands for\<close>.  Clocks, RPC replies, disks, digests, the key library, the SQLite file
  (as its rows), the native extension, the IDL files and the exponential function are arguments of the
  definitions that use them.  Concurrency is modelled as a sequence of atomic operations, which is what
  the locks of the code make of it.  Loops are structural or have a measure; the two searches use the
  fuel the code itself gives them.

  \<^bold>\<open>Not modelled\<close>.  The learning, research and collection pipelines (the training of the prediction heads among
  them), the wiring and the scheduling of tasks, reports and dashboards, transports, protobuf decoding, and the EVM, LaunchLab and Meteora venues: statistics
  over third-party libraries, network I/O or presentation.  The manifest lists each with its reason.
\<close>

end
